(* ===== verification/Prelude.thy ===== *)
theory Prelude
  imports Main "HOL-Library.Multiset" "HOL-Library.AList"
begin

text \<open>
  What the component theories share: the model's view of Go maps as association lists, Go's zero
  value for a missing key, and the insertion sort by adjacent swaps that both the program's own
  backlog ordering and \<^verbatim>\<open>sort.SliceStable\<close> run on the short slices this program sorts.

  A Go map is an association list with distinct keys. It is read by \<open>map_of\<close>, written by
  \<open>AList.update\<close> and \<open>AList.delete\<close>; both keep the keys distinct, so ranging over the map visits
  every key once.
\<close>

section \<open>Go maps\<close>

type_synonym ('k, 'v) gomap = "('k \<times> 'v) list"

definition keys_distinct :: "('k, 'v) gomap \<Rightarrow> bool" where
  "keys_distinct m \<longleftrightarrow> distinct (map fst m)"

text \<open>\<^verbatim>\<open>m[k]\<close> with no \<^verbatim>\<open>ok\<close>: the zero value where the key is missing.\<close>

definition get_or :: "'v \<Rightarrow> ('k \<rightharpoonup> 'v) \<Rightarrow> 'k \<Rightarrow> 'v" where
  "get_or z m k = (case m k of None \<Rightarrow> z | Some v \<Rightarrow> v)"

lemma get_or_Some [simp]: "m k = Some v \<Longrightarrow> get_or z m k = v"
  by (simp add: get_or_def)

lemma get_or_None [simp]: "m k = None \<Longrightarrow> get_or z m k = z"
  by (simp add: get_or_def)

lemma keys_distinct_Nil [simp]: "keys_distinct []"
  by (simp add: keys_distinct_def)

lemma keys_distinct_Cons [simp]:
  "keys_distinct ((k, v) # m) \<longleftrightarrow> map_of m k = None \<and> keys_distinct m"
  by (auto simp: keys_distinct_def map_of_eq_None_iff)

lemma keys_distinct_update [intro, simp]:
  "keys_distinct m \<Longrightarrow> keys_distinct (AList.update k v m)"
  unfolding keys_distinct_def by (rule distinct_update)

lemma keys_distinct_delete [intro, simp]:
  "keys_distinct m \<Longrightarrow> keys_distinct (AList.delete k m)"
  unfolding keys_distinct_def by (rule distinct_delete)

lemma keys_distinct_filter [intro, simp]:
  "keys_distinct m \<Longrightarrow> keys_distinct (filter P m)"
  unfolding keys_distinct_def by (induction m) auto

lemma map_of_alist_update [simp]: "map_of (AList.update k v m) = (map_of m)(k \<mapsto> v)"
  by (rule update_conv')

lemma map_of_alist_delete [simp]: "map_of (AList.delete k m) = (map_of m)(k := None)"
  by (rule delete_conv')

lemma map_of_filter_keys [simp]:
  "map_of (filter (\<lambda>(k, v). P k) m) k = (if P k then map_of m k else None)"
  by (induction m) auto

lemma map_of_filter_distinct:
  "keys_distinct m \<Longrightarrow> map_of (filter (\<lambda>(k, v). P k v) m) k =
    (case map_of m k of None \<Rightarrow> None | Some v \<Rightarrow> if P k v then Some v else None)"
  by (induction m) (auto split: option.splits)

lemma map_of_map_values [simp]:
  "map_of (map (\<lambda>(k, v). (k, f k v)) m) k = map_option (f k) (map_of m k)"
  by (induction m) auto

lemma keys_distinct_map_values [simp]:
  "keys_distinct (map (\<lambda>(k, v). (k, f k v)) m) = keys_distinct m"
  unfolding keys_distinct_def by (simp add: comp_def case_prod_beta)

lemma map_of_in_set: "keys_distinct m \<Longrightarrow> (k, v) \<in> set m \<longleftrightarrow> map_of m k = Some v"
  unfolding keys_distinct_def by (rule map_of_eq_Some_iff [symmetric])

text \<open>Adding a key that is not there appends it, deleting one that is there frees one place.\<close>

lemma update_new: "map_of m k = None \<Longrightarrow> AList.update k v m = m @ [(k, v)]"
  by (induction m) (auto split: if_splits)

lemma delete_absent: "map_of m k = None \<Longrightarrow> AList.delete k m = m"
  by (induction m) (auto split: if_splits)

lemma fresh_update:
  "(\<forall>x \<in> S. map_of (AList.update k v m) (g x) = None) \<longleftrightarrow>
     k \<notin> g ` S \<and> (\<forall>x \<in> S. map_of m (g x) = None)"
  by (auto simp: image_iff)

lemma length_alist_delete_le: "length (AList.delete k m) \<le> length m"
  by (induction m) auto

lemma length_filter_delete_le:
  "length (filter P (AList.delete k m)) \<le> length (filter P m)"
  by (induction m) auto

section \<open>Results\<close>

lemma find_SomeD: "find P xs = Some x \<Longrightarrow> x \<in> set xs \<and> P x"
  by (induction xs) (auto split: if_splits)

lemma map_sum_Inr: "map_sum id f r = Inr y \<longleftrightarrow> (\<exists>x. r = Inr x \<and> y = f x)"
  by (cases r) auto

lemma map_sum_error_Inr [simp]: "map_sum g id r = Inr y \<longleftrightarrow> r = Inr y"
  by (cases r) auto

lemma map_sum_Inl: "map_sum id f r = Inl e \<longleftrightarrow> r = Inl e"
  by (cases r) auto

section \<open>Insertion sort by adjacent swaps\<close>

text \<open>
  The loop nest \<^verbatim>\<open>for i := 1; i < n; i++ { for j := i; j > 0 && cmp(j, j-1); j-- { swap(j, j-1) } }\<close>.
  The comparison is asked about positions, as Go's is: \<open>cmp out j k\<close> sees the slice as it stands.
  This is the loop the program writes itself (\<^verbatim>\<open>sortedForAdmission\<close>) and the one
  \<^verbatim>\<open>sort.SliceStable\<close> runs on a slice of up to twenty elements, its block size.
\<close>

definition swap :: "'a list \<Rightarrow> nat \<Rightarrow> nat \<Rightarrow> 'a list" where
  "swap xs i j = xs[i := xs ! j, j := xs ! i]"

fun sink :: "('a list \<Rightarrow> nat \<Rightarrow> nat \<Rightarrow> bool) \<Rightarrow> 'a list \<Rightarrow> nat \<Rightarrow> 'a list" where
  "sink cmp out 0 = out"
| "sink cmp out (Suc j) =
     (if cmp out (Suc j) j then sink cmp (swap out (Suc j) j) j else out)"

definition insertion_sort :: "('a list \<Rightarrow> nat \<Rightarrow> nat \<Rightarrow> bool) \<Rightarrow> 'a list \<Rightarrow> 'a list" where
  "insertion_sort cmp xs = fold (\<lambda>i out. sink cmp out i) [1..<length xs] xs"

text \<open>A comparison that reads the elements at the two positions.\<close>

definition elementwise :: "('a \<Rightarrow> 'a \<Rightarrow> bool) \<Rightarrow> 'a list \<Rightarrow> nat \<Rightarrow> nat \<Rightarrow> bool" where
  "elementwise lt xs i j = lt (xs ! i) (xs ! j)"

lemma length_swap [simp]: "length (swap xs i j) = length xs"
  by (simp add: swap_def)

lemma mset_swap_adjacent [simp]:
  "i < length xs \<Longrightarrow> j < length xs \<Longrightarrow> mset (swap xs i j) = mset xs"
  unfolding swap_def by (rule mset_swap)

lemma length_sink [simp]: "length (sink cmp xs i) = length xs"
  by (induction cmp xs i rule: sink.induct) auto

lemma mset_sink [simp]: "i < length xs \<Longrightarrow> mset (sink cmp xs i) = mset xs"
  by (induction cmp xs i rule: sink.induct) auto

lemma mset_fold_sink:
  "\<forall>i \<in> set is. i < length xs \<Longrightarrow> mset (fold (\<lambda>i out. sink cmp out i) is xs) = mset xs"
  by (induction "is" arbitrary: xs) auto

text \<open>Whatever the comparison answers, the result is a rearrangement.\<close>

lemma mset_insertion_sort [simp]: "mset (insertion_sort cmp xs) = mset xs"
  unfolding insertion_sort_def by (rule mset_fold_sink) auto

lemma length_insertion_sort [simp]: "length (insertion_sort cmp xs) = length xs"
  using mset_insertion_sort [of cmp xs] by (rule mset_eq_length)

lemma set_insertion_sort [simp]: "set (insertion_sort cmp xs) = set xs"
  using mset_insertion_sort [of cmp xs] by (rule mset_eq_setD)

lemma distinct_insertion_sort [simp]: "distinct (insertion_sort cmp xs) = distinct xs"
  using mset_insertion_sort [of cmp xs] by (rule mset_eq_imp_distinct_iff)

lemma insertion_sort_short [simp]: "length xs \<le> 1 \<Longrightarrow> insertion_sort cmp xs = xs"
  by (simp add: insertion_sort_def)

lemma insertion_sort_Nil [simp]: "insertion_sort cmp [] = []"
  by simp

subsection \<open>With a comparison of keys it is the stable sort\<close>

text \<open>One round of the inner loop as an insertion into the reversed prefix.\<close>

fun ins_rev :: "('a \<Rightarrow> 'a \<Rightarrow> bool) \<Rightarrow> 'a \<Rightarrow> 'a list \<Rightarrow> 'a list" where
  "ins_rev lt x [] = [x]"
| "ins_rev lt x (y # ys) = (if lt x y then y # ins_rev lt x ys else x # y # ys)"

lemma sink_elementwise:
  "sink (elementwise lt) (rev us @ x # vs) (length us) = rev (ins_rev lt x us) @ vs"
proof (induction us arbitrary: vs)
  case Nil
  show ?case by simp
next
  case (Cons y us)
  have sw: "swap (rev (y # us) @ x # vs) (Suc (length us)) (length us) = rev us @ x # y # vs"
    by (simp add: swap_def nth_append list_update_append)
  show ?case
    using Cons.IH [of "y # vs"] sw by (simp add: elementwise_def nth_append)
qed

lemma mset_ins_rev [simp]: "mset (ins_rev lt x us) = add_mset x (mset us)"
  by (induction us) auto

lemma length_ins_rev [simp]: "length (ins_rev lt x us) = Suc (length us)"
  by (induction us) auto

lemma set_ins_rev [simp]: "set (ins_rev lt x us) = insert x (set us)"
  by (induction us) auto

lemma sorted_ins_rev:
  fixes f :: "'a \<Rightarrow> 'k::linorder"
  assumes lt: "\<And>x y. lt x y \<longleftrightarrow> f x < f y" and "sorted_wrt (\<ge>) (map f us)"
  shows "sorted_wrt (\<ge>) (map f (ins_rev lt x us))"
  using assms(2) by (induction us) (auto simp: lt)

lemma filter_ins_rev:
  fixes f :: "'a \<Rightarrow> 'k::linorder"
  assumes lt: "\<And>x y. lt x y \<longleftrightarrow> f x < f y" and "sorted_wrt (\<ge>) (map f us)"
  shows "filter (\<lambda>y. f k = f y) (ins_rev lt x us) =
    (if f k = f x then x # filter (\<lambda>y. f k = f y) us else filter (\<lambda>y. f k = f y) us)"
  using assms(2)
proof (induction us)
  case (Cons y us)
  then show ?case by (auto simp: lt)
qed simp

lemma fold_sink_split:
  "fold (\<lambda>i out. sink (elementwise lt) out i) [length us..<length us + length vs] (rev us @ vs)
    = rev (fold (ins_rev lt) vs us)"
proof (induction vs arbitrary: us)
  case Nil
  show ?case by simp
next
  case (Cons x vs)
  have range: "[length us..<length us + length (x # vs)]
      = length us # [length (ins_rev lt x us)..<length (ins_rev lt x us) + length vs]"
    by (simp add: upt_rec)
  show ?case
    using Cons.IH [of "ins_rev lt x us"] by (simp only: range) (simp add: sink_elementwise)
qed

lemma insertion_sort_fold: "insertion_sort (elementwise lt) xs = rev (fold (ins_rev lt) xs [])"
proof (cases xs)
  case Nil
  then show ?thesis by simp
next
  case (Cons x ys)
  then show ?thesis
    using fold_sink_split [of lt "[x]" ys] by (simp add: insertion_sort_def)
qed

lemma fold_ins_rev_sorted:
  fixes f :: "'a \<Rightarrow> 'k::linorder"
  assumes lt: "\<And>x y. lt x y \<longleftrightarrow> f x < f y" and "sorted_wrt (\<ge>) (map f us)"
  shows "sorted_wrt (\<ge>) (map f (fold (ins_rev lt) vs us))
    \<and> filter (\<lambda>y. f k = f y) (fold (ins_rev lt) vs us)
      = rev (filter (\<lambda>y. f k = f y) vs) @ filter (\<lambda>y. f k = f y) us"
  using assms(2)
proof (induction vs arbitrary: us)
  case Nil
  then show ?case by simp
next
  case (Cons x vs)
  show ?case
    using Cons.IH [OF sorted_ins_rev [OF lt Cons.prems]] filter_ins_rev [OF lt Cons.prems, of k x]
    by simp
qed

theorem insertion_sort_key:
  fixes f :: "'a \<Rightarrow> 'k::linorder"
  assumes lt: "\<And>x y. lt x y \<longleftrightarrow> f x < f y"
  shows "insertion_sort (elementwise lt) xs = sort_key f xs"
proof (rule properties_for_sort_key [symmetric])
  show "mset (insertion_sort (elementwise lt) xs) = mset xs" by simp
  show "filter (\<lambda>x. f k = f x) (insertion_sort (elementwise lt) xs) = filter (\<lambda>x. f k = f x) xs"
    if "k \<in> set (insertion_sort (elementwise lt) xs)" for k
    using fold_ins_rev_sorted [where f = f and us = "[]" and vs = xs and k = k, OF lt]
    by (simp add: insertion_sort_fold flip: rev_filter)
  have "sorted_wrt (\<ge>) (map f (fold (ins_rev lt) xs []))"
    using fold_ins_rev_sorted [where f = f and us = "[]" and vs = xs, OF lt] by simp
  then show "sorted (map f (insertion_sort (elementwise lt) xs))"
    by (simp add: insertion_sort_fold sorted_wrt_rev flip: rev_map)
qed

section \<open>Taking one away\<close>

lemma filter_remove1_other: "\<not> P c \<Longrightarrow> filter P (remove1 c xs) = filter P xs"
  by (induction xs) auto

lemma length_filter_remove1: "P c \<Longrightarrow> c \<in> set xs \<Longrightarrow> length (filter P (remove1 c xs)) = length (filter P xs) - 1"
  by (simp add: filter_remove1 length_remove1)

lemma count_list_remove1: "count_list (remove1 c xs) d = count_list xs d - of_bool (c = d \<and> c \<in> set xs)"
proof (induction xs)
  case (Cons x xs)
  have "c \<in> set xs \<Longrightarrow> 0 < count_list xs c" by (metis count_list_0_iff gr0I)
  with Cons show ?case by (auto simp: of_bool_def)
qed simp

lemma list_all_remove1: "list_all P xs \<Longrightarrow> list_all P (remove1 c xs)"
  using set_remove1_subset by (fastforce simp: list_all_iff)

end
