(* ===== verification/GoStrings.thy ===== *)
theory GoStrings
  imports Prelude "HOL-Library.Char_ord" "HOL-Library.List_Lexorder" "HOL-Library.Sublist"
begin

text \<open>
  The part of Go's \<^verbatim>\<open>strings\<close> and \<^verbatim>\<open>path/filepath\<close> packages that the program calls. A Go string
  is a sequence of bytes, an Isabelle \<open>string\<close> is a list of 8-bit characters, so lengths and
  positions agree. \<^verbatim>\<open>sort.Strings\<close> orders by bytes, which is the lexicographic order that the
  library theories \<open>Char_ord\<close> and \<open>List_Lexorder\<close> give \<open>string\<close>.
\<close>

section \<open>Searching and cutting\<close>

text \<open>\<^verbatim>\<open>strings.IndexByte\<close>; \<open>None\<close> is Go's -1.\<close>

fun index_byte :: "string \<Rightarrow> char \<Rightarrow> nat option" where
  "index_byte [] c = None"
| "index_byte (x # xs) c = (if x = c then Some 0 else map_option Suc (index_byte xs c))"

definition last_index_byte :: "string \<Rightarrow> char \<Rightarrow> nat option" where
  "last_index_byte s c = map_option (\<lambda>i. length s - Suc i) (index_byte (rev s) c)"

text \<open>\<^verbatim>\<open>strings.Index\<close> for a substring.\<close>

fun index_of :: "string \<Rightarrow> string \<Rightarrow> nat option" where
  "index_of [] sub = (if sub = [] then Some 0 else None)"
| "index_of (x # xs) sub =
     (if prefix sub (x # xs) then Some 0 else map_option Suc (index_of xs sub))"

definition contains :: "string \<Rightarrow> string \<Rightarrow> bool" where
  "contains s sub \<longleftrightarrow> index_of s sub \<noteq> None"

definition contains_any :: "string \<Rightarrow> string \<Rightarrow> bool" where
  "contains_any s cs \<longleftrightarrow> list_ex (\<lambda>c. c \<in> set cs) s"

definition has_suffix :: "string \<Rightarrow> string \<Rightarrow> bool" where
  "has_suffix s suf \<longleftrightarrow> suffix suf s"

lemma index_byte_Some:
  "index_byte s c = Some i \<Longrightarrow> i < length s \<and> s ! i = c \<and> c \<notin> set (take i s)"
  by (induction s arbitrary: i) (auto split: if_splits)

lemma index_byte_None [simp]: "index_byte s c = None \<longleftrightarrow> c \<notin> set s"
  by (induction s) auto

lemma index_byte_append:
  "c \<notin> set xs \<Longrightarrow> index_byte (xs @ c # ys) c = Some (length xs)"
  by (induction xs) auto

text \<open>\<^verbatim>\<open>strings.Split\<close> on one byte, and \<^verbatim>\<open>strings.Join\<close>.\<close>

fun split_on :: "char \<Rightarrow> string \<Rightarrow> string list" where
  "split_on c [] = [[]]"
| "split_on c (x # xs) =
     (if x = c then [] # split_on c xs
      else (case split_on c xs of [] \<Rightarrow> [[x]] | p # ps \<Rightarrow> (x # p) # ps))"

fun join_with :: "string \<Rightarrow> string list \<Rightarrow> string" where
  "join_with sep [] = []"
| "join_with sep [p] = p"
| "join_with sep (p # q # ps) = p @ sep @ join_with sep (q # ps)"

lemma split_on_ne [simp]: "split_on c s \<noteq> []"
  by (induction s) (auto split: list.splits)

lemma join_with_Cons_cons:
  "ps \<noteq> [] \<Longrightarrow> join_with sep ((x # p) # ps) = x # join_with sep (p # ps)"
  by (cases ps) auto

text \<open>Splitting and joining are inverse.\<close>

lemma join_split_on: "join_with [c] (split_on c s) = s"
proof (induction s)
  case (Cons x xs)
  show ?case
  proof (cases "split_on c xs")
    case (Cons p ps)
    then show ?thesis using Cons.IH by (cases ps) auto
  qed simp
qed simp

lemma split_on_no_sep: "p \<in> set (split_on c s) \<Longrightarrow> c \<notin> set p"
  by (induction s arbitrary: p) (auto split: list.splits if_splits)

lemma split_on_simple [simp]: "c \<notin> set s \<Longrightarrow> split_on c s = [s]"
  by (induction s) auto

lemma split_on_append: "c \<notin> set p \<Longrightarrow> split_on c (p @ c # s) = p # split_on c s"
  by (induction p) auto

section \<open>Trimming and case\<close>

definition is_space :: "char \<Rightarrow> bool" where
  "is_space c \<longleftrightarrow> c \<in> set [CHR '' '', CHR 0x09, CHR 0x0A, CHR 0x0B, CHR 0x0C, CHR 0x0D]"

definition trim_left_by :: "(char \<Rightarrow> bool) \<Rightarrow> string \<Rightarrow> string" where
  "trim_left_by P s = dropWhile P s"

definition trim_right_by :: "(char \<Rightarrow> bool) \<Rightarrow> string \<Rightarrow> string" where
  "trim_right_by P s = rev (dropWhile P (rev s))"

definition trim_space :: "string \<Rightarrow> string" where
  "trim_space s = trim_right_by is_space (trim_left_by is_space s)"

text \<open>\<^verbatim>\<open>strings.ToLower\<close> on the ASCII range, where this program's keywords, flags and kinds live.\<close>

definition lower_char :: "char \<Rightarrow> char" where
  "lower_char c = (if 65 \<le> (of_char c :: nat) \<and> (of_char c :: nat) \<le> 90
     then char_of ((of_char c :: nat) + 32) else c)"

definition to_lower :: "string \<Rightarrow> string" where
  "to_lower s = map lower_char s"

lemma length_to_lower [simp]: "length (to_lower s) = length s"
  by (simp add: to_lower_def)

section \<open>Paths\<close>

text \<open>
  \<^verbatim>\<open>filepath.Clean\<close> and \<^verbatim>\<open>filepath.Join\<close> on a slash-separated system: empty and \<^verbatim>\<open>.\<close> elements are
  dropped, \<^verbatim>\<open>..\<close> takes the element before it away, and at the root there is nothing to take.
  The elements kept so far are held in reverse.
\<close>

fun clean_elems :: "bool \<Rightarrow> string list \<Rightarrow> string list \<Rightarrow> string list" where
  "clean_elems rooted acc [] = rev acc"
| "clean_elems rooted acc (e # es) =
     (if e = '''' \<or> e = ''.'' then clean_elems rooted acc es
      else if e = ''..'' then
        (case acc of
          [] \<Rightarrow> clean_elems rooted (if rooted then [] else [e]) es
        | a # acc' \<Rightarrow>
            if a = ''..'' then clean_elems rooted (e # acc) es else clean_elems rooted acc' es)
      else clean_elems rooted (e # acc) es)"

definition is_abs :: "string \<Rightarrow> bool" where
  "is_abs p \<longleftrightarrow> prefix ''/'' p"

definition path_clean :: "string \<Rightarrow> string" where
  "path_clean p =
     (let body = join_with ''/'' (clean_elems (is_abs p) [] (split_on CHR ''/'' p))
      in if is_abs p then CHR ''/'' # body else if body = [] then ''.'' else body)"

definition path_join :: "string list \<Rightarrow> string" where
  "path_join ps =
     (case dropWhile (\<lambda>p. p = []) ps of [] \<Rightarrow> '''' | qs \<Rightarrow> path_clean (join_with ''/'' qs))"

text \<open>\<^verbatim>\<open>filepath.Dir\<close>: everything up to the last separator, cleaned.\<close>

definition path_dir :: "string \<Rightarrow> string" where
  "path_dir p = path_clean (case last_index_byte p CHR ''/'' of None \<Rightarrow> [] | Some i \<Rightarrow> take (Suc i) p)"

text \<open>Joining one plain name below a cleaned directory appends it.\<close>

definition plain_elem :: "string \<Rightarrow> bool" where
  "plain_elem e \<longleftrightarrow> e \<noteq> '''' \<and> e \<noteq> ''.'' \<and> e \<noteq> ''..'' \<and> CHR ''/'' \<notin> set e"

lemma clean_elems_plain:
  "\<forall>e \<in> set es. plain_elem e \<Longrightarrow> clean_elems rooted acc es = rev acc @ es"
  by (induction es arbitrary: acc) (auto simp: plain_elem_def)

lemma split_on_snoc:
  "c \<notin> set e \<Longrightarrow> split_on c (s @ c # e) = split_on c s @ [e]"
proof (induction s)
  case (Cons x s)
  show ?case
  proof (cases "split_on c s")
    case (Cons p ps)
    then show ?thesis using Cons.IH Cons.prems by (auto split: list.splits)
  qed simp
qed simp

lemma clean_elems_snoc:
  "plain_elem e \<Longrightarrow> clean_elems rooted acc (es @ [e]) = clean_elems rooted acc es @ [e]"
  by (induction rooted acc es rule: clean_elems.induct)
     (auto simp: plain_elem_def split: list.splits)

text \<open>\<^verbatim>\<open>path_join\<close> of a directory and a plain name, where the directory is one \<open>path_clean\<close> gives.\<close>

lemma plain_elem_no_slash [simp]: "plain_elem e \<Longrightarrow> CHR ''/'' \<notin> set e"
  by (simp add: plain_elem_def)

lemma join_with_snoc:
  "ps \<noteq> [] \<Longrightarrow> join_with sep (ps @ [e]) = join_with sep ps @ sep @ e"
  by (induction sep ps rule: join_with.induct) auto

section \<open>Decimal numbers\<close>

text \<open>\<^verbatim>\<open>strconv.Itoa\<close> and \<^verbatim>\<open>%d\<close>; and the reading of a run of digits.\<close>

fun show_nat :: "nat \<Rightarrow> string" where
  "show_nat n =
     (if n < 10 then [char_of (48 + n)] else show_nat (n div 10) @ [char_of (48 + n mod 10)])"

declare show_nat.simps [simp del]

definition show_int :: "int \<Rightarrow> string" where
  "show_int n = (if n < 0 then CHR ''-'' # show_nat (nat (- n)) else show_nat (nat n))"

definition is_digit :: "char \<Rightarrow> bool" where
  "is_digit c \<longleftrightarrow> 48 \<le> (of_char c :: nat) \<and> (of_char c :: nat) \<le> 57"

definition digit_val :: "char \<Rightarrow> nat" where
  "digit_val c = of_char c - 48"

definition digits_val :: "string \<Rightarrow> nat" where
  "digits_val s = foldl (\<lambda>acc c. 10 * acc + digit_val c) 0 s"

lemma of_char_digit: "(d :: nat) < 10 \<Longrightarrow> (of_char (char_of (48 + d) :: char) :: nat) = 48 + d"
  by (simp add: of_char_of)

lemma is_digit_char_of [simp]: "(d :: nat) < 10 \<Longrightarrow> is_digit (char_of (48 + d))"
  unfolding is_digit_def by (subst of_char_digit; simp)+

lemma digit_val_char_of [simp]: "(d :: nat) < 10 \<Longrightarrow> digit_val (char_of (48 + d)) = d"
  unfolding digit_val_def by (subst of_char_digit; simp)

lemma digits_val_snoc [simp]: "digits_val (s @ [c]) = 10 * digits_val s + digit_val c"
  by (simp add: digits_val_def)

lemma digits_val_Nil [simp]: "digits_val [] = 0"
  by (simp add: digits_val_def)

lemma digits_val_show_nat [simp]: "digits_val (show_nat n) = n"
proof (induction n rule: show_nat.induct)
  case (1 n)
  show ?case
  proof (cases "n < 10")
    case True
    have "digits_val ([] @ [char_of (48 + n)]) = n"
      unfolding digits_val_snoc using True by simp
    with True show ?thesis by (subst show_nat.simps) simp
  next
    case False
    with 1 show ?thesis by (subst show_nat.simps) simp
  qed
qed

lemma show_nat_digits: "c \<in> set (show_nat n) \<Longrightarrow> is_digit c"
proof (induction n rule: show_nat.induct)
  case (1 n)
  then show ?case by (subst (asm) (2) show_nat.simps) (auto split: if_splits)
qed

lemma show_nat_ne [simp]: "show_nat n \<noteq> []"
  by (subst show_nat.simps) simp

lemma show_nat_inj: "show_nat m = show_nat n \<longleftrightarrow> m = n"
  by (metis digits_val_show_nat)

text \<open>
  \<^verbatim>\<open>fmt.Sscanf(s, "%d", &n)\<close> into an \<^verbatim>\<open>int\<close>: leading blanks, a sign, then at least one digit;
  what follows the digits is left unread, and a number outside 64 bits is an error.
\<close>

definition int_of_digits :: "bool \<Rightarrow> string \<Rightarrow> int option" where
  "int_of_digits neg ds =
     (let n = (if neg then - int (digits_val ds) else int (digits_val ds))
      in if ds = [] \<or> n < - (2 ^ 63) \<or> n \<ge> 2 ^ 63 then None else Some n)"

definition scan_int :: "string \<Rightarrow> int option" where
  "scan_int s =
     (let t = dropWhile (\<lambda>c. c = CHR '' '' \<or> c = CHR 0x09) s
      in case t of
           [] \<Rightarrow> None
         | c # rest \<Rightarrow>
             if c = CHR ''-'' then int_of_digits True (takeWhile is_digit rest)
             else if c = CHR ''+'' then int_of_digits False (takeWhile is_digit rest)
             else int_of_digits False (takeWhile is_digit t))"

lemma takeWhile_show_nat [simp]: "takeWhile is_digit (show_nat n) = show_nat n"
  by (simp add: takeWhile_eq_all_conv show_nat_digits)

lemma show_nat_head: "show_nat n = c # cs \<Longrightarrow> is_digit c"
  using show_nat_digits [of c n] by simp

lemma scan_show_nat:
  assumes "int n < 2 ^ 63" shows "scan_int (show_nat n) = Some (int n)"
proof -
  obtain c cs where c: "show_nat n = c # cs" by (cases "show_nat n") auto
  then have "is_digit c" by (rule show_nat_head)
  then have "c \<noteq> CHR '' ''" "c \<noteq> CHR 0x09" "c \<noteq> CHR ''-''" "c \<noteq> CHR ''+''"
    by (auto simp: is_digit_def)
  moreover have "int_of_digits False (takeWhile is_digit (c # cs)) = Some (int n)"
    unfolding c [symmetric] using assms by (simp add: int_of_digits_def Let_def)
  ultimately show ?thesis
    by (simp add: scan_int_def c Let_def)
qed

text \<open>\<^verbatim>\<open>strconv.ParseInt(s, 10, 64)\<close>, and \<^verbatim>\<open>strconv.Atoi\<close> where \<^verbatim>\<open>int\<close> has 64 bits: \<open>None\<close> is the error.\<close>

definition parse_int :: "string \<Rightarrow> int option" where
  "parse_int s =
     (case s of
        [] \<Rightarrow> None
      | c # rest \<Rightarrow>
          (let neg = (c = CHR ''-''); ds = (if c = CHR ''-'' \<or> c = CHR ''+'' then rest else s)
           in if list_all is_digit ds then int_of_digits neg ds else None))"

lemma parse_show_int:
  assumes "- (2 ^ 63) \<le> n" and "n < 2 ^ 63"
  shows "parse_int (show_int n) = Some n"
proof (cases "n < 0")
  case True
  have "list_all is_digit (show_nat (nat (- n)))" by (simp add: list_all_iff show_nat_digits)
  with True assms show ?thesis
    by (simp add: parse_int_def show_int_def int_of_digits_def)
next
  case False
  obtain c cs where c: "show_nat (nat n) = c # cs" by (cases "show_nat (nat n)") auto
  then have "c \<noteq> CHR ''-''" "c \<noteq> CHR ''+''" using show_nat_head [OF c] by (auto simp: is_digit_def)
  moreover have "list_all is_digit (show_nat (nat n))" by (simp add: list_all_iff show_nat_digits)
  ultimately show ?thesis
    using False assms c digits_val_show_nat [of "nat n"]
    by (simp add: parse_int_def show_int_def int_of_digits_def)
qed

end
