(* ===== verification/EnvFile.thy ===== *)
theory EnvFile
  imports GoStrings
begin

text \<open>
  \<^verbatim>\<open>internal/opencode/opencode.go\<close>, \<^verbatim>\<open>ParseEnvFile\<close>: the dotenv reader behind every token reference.
  What reading the file gave is an argument.
\<close>

datatype 'b file_read = Missing | ReadError string | Bytes 'b

definition trim_quotes :: "string \<Rightarrow> string" where
  "trim_quotes s = trim_right_by (\<lambda>c. c = CHR 0x22) (trim_left_by (\<lambda>c. c = CHR 0x22) s)"

text \<open>One line: the binding it makes, if it makes one.\<close>

definition env_line :: "string \<Rightarrow> (string \<times> string) option" where
  "env_line raw =
     (let line = trim_space raw in
      if line = '''' \<or> prefix ''#'' line then None
      else case index_byte line CHR ''='' of
        None \<Rightarrow> None
      | Some i \<Rightarrow>
          (let key = trim_space (take i line);
               val = trim_quotes (trim_space (drop (Suc i) line))
           in if key = '''' \<or> val = '''' then None else Some (key, val)))"

fun env_lines :: "(string, string) gomap \<Rightarrow> string list \<Rightarrow> (string, string) gomap" where
  "env_lines vars [] = vars"
| "env_lines vars (l # ls) =
     (case env_line l of
        None \<Rightarrow> env_lines vars ls
      | Some (k, v) \<Rightarrow> env_lines (AList.update k v vars) ls)"

definition ParseEnvFile :: "string file_read \<Rightarrow> string + (string, string) gomap" where
  "ParseEnvFile r =
     (case r of
        Missing \<Rightarrow> Inr []
      | ReadError e \<Rightarrow> Inl e
      | Bytes data \<Rightarrow> Inr (env_lines [] (split_on CHR 0x0A data)))"

lemma env_line_Some: "env_line l = Some (k, v) \<Longrightarrow> k \<noteq> '''' \<and> v \<noteq> ''''"
  by (auto simp: env_line_def Let_def split: option.splits if_splits)

text \<open>The last binding of a key wins, and only a line that binds it gives it a value.\<close>

lemma env_lines_append [simp]: "env_lines vars (ls @ ms) = env_lines (env_lines vars ls) ms"
  by (induction vars ls rule: env_lines.induct) (auto split: option.splits)

lemma env_lines_nonempty:
  "map_of (env_lines vars ls) k = Some v \<Longrightarrow> map_of vars k = Some v \<or> v \<noteq> ''''"
proof (induction ls rule: rev_induct)
  case (snoc l ls)
  then show ?case
    using env_line_Some [of l] by (auto split: option.splits if_splits)
qed simp

lemma keys_distinct_env_lines [simp]:
  "keys_distinct vars \<Longrightarrow> keys_distinct (env_lines vars ls)"
  by (induction vars ls rule: env_lines.induct) (auto split: option.splits)

end
