(* ===== verification/FleetConfig.thy ===== *)
theory FleetConfig
  imports EnvFile
begin

text \<open>
  \<^verbatim>\<open>internal/fleet/config.go\<close>: the parsed \<^verbatim>\<open>fleet.yaml\<close>, its validation, the narrowing to named
  nodes, the policies it declares, and the resolution of the token references it holds.
  The YAML parser is a parameter (\<open>typed\<close>, \<open>raw\<close>); the process environment and the \<^verbatim>\<open>.env\<close> beside the
  file are arguments. An error is a value of \<open>fleet_error\<close> carrying what its message names.
\<close>

section \<open>Tags\<close>

text \<open>\<open>SplitTag\<close> answers (key, value, ok), as the Go function does: empty parts where not ok.\<close>

definition SplitTag :: "string \<Rightarrow> string \<times> string \<times> bool" where
  "SplitTag tag =
     (case index_byte tag CHR ''='' of
        None \<Rightarrow> ('''', '''', False)
      | Some i \<Rightarrow>
          if i = 0 \<or> i = length tag - 1 then ('''', '''', False)
          else (take i tag, drop (Suc i) tag, True))"

definition well_formed_tag :: "string \<Rightarrow> bool" where
  "well_formed_tag tag \<longleftrightarrow> snd (snd (SplitTag tag))"

lemma SplitTag_ok:
  "SplitTag tag = (k, v, True) \<longleftrightarrow> tag = k @ CHR ''='' # v \<and> k \<noteq> [] \<and> v \<noteq> [] \<and> CHR ''='' \<notin> set k"
proof
  assume "SplitTag tag = (k, v, True)"
  then obtain i where i: "index_byte tag CHR ''='' = Some i" "i \<noteq> 0" "i \<noteq> length tag - 1"
      "k = take i tag" "v = drop (Suc i) tag"
    by (auto simp: SplitTag_def split: option.splits if_splits)
  from index_byte_Some [OF i(1)] have "i < length tag" "tag ! i = CHR ''=''" "CHR ''='' \<notin> set k"
    using i(4) by auto
  then show "tag = k @ CHR ''='' # v \<and> k \<noteq> [] \<and> v \<noteq> [] \<and> CHR ''='' \<notin> set k"
    using i id_take_nth_drop [of i tag] by auto
next
  assume "tag = k @ CHR ''='' # v \<and> k \<noteq> [] \<and> v \<noteq> [] \<and> CHR ''='' \<notin> set k"
  then show "SplitTag tag = (k, v, True)"
    by (auto simp: SplitTag_def index_byte_append)
qed

lemma SplitTag_not_ok: "SplitTag tag = (k, v, False) \<Longrightarrow> k = [] \<and> v = []"
  by (auto simp: SplitTag_def split: option.splits if_splits)

section \<open>The file's types\<close>

abbreviation DefaultFile :: string where "DefaultFile \<equiv> ''fleet.yaml''"
abbreviation KindDaemon :: string where "KindDaemon \<equiv> ''daemon''"
abbreviation KindCloud :: string where "KindCloud \<equiv> ''cloud''"
abbreviation PreferIdle :: string where "PreferIdle \<equiv> ''idle''"
abbreviation PreferActive :: string where "PreferActive \<equiv> ''active''"
abbreviation WakeOn :: string where "WakeOn \<equiv> ''on''"
abbreviation WakeOff :: string where "WakeOff \<equiv> ''off''"
abbreviation DefaultGatewayTokenEnv :: string where "DefaultGatewayTokenEnv \<equiv> ''OPENAI_API_KEY''"
abbreviation DefaultAPIPort :: int where "DefaultAPIPort \<equiv> 4242"

record engine_override =
  eo_Host :: string
  eo_Port :: int
  eo_Path :: string

record node_config =
  nc_Name :: string
  nc_Host :: string
  nc_Port :: int
  nc_Kind :: string
  nc_TokenEnv :: string
  nc_EngineTokenEnv :: string
  nc_Engine :: "engine_override option"
  nc_File :: string
  nc_InstanceType :: string
  nc_Tags :: "(string, string) gomap"
  nc_WakePolicy :: string

record gateway_config =
  gw_URL :: string
  gw_TokenEnv :: string
  gw_Name :: string

record concurrency =
  cc_Total :: "int option"
  cc_Tags :: "(string, int) gomap"

record fleet_config =
  cfg_Nodes :: "node_config list"
  cfg_Gateway :: "gateway_config option"
  cfg_Prefer :: string
  cfg_WakePolicy :: string
  cfg_Concurrency :: "concurrency option"
  cfg_APIKeyEnv :: string
  cfg_Path :: string
  cfg_Dir :: string

datatype fleet_error =
    UnknownPreference string
  | UnknownWakePolicy string
  | BadTotal int
  | BadTagLimit string int
  | LimitNotATag string
  | NoFleetAt string
  | ReadFailed string
  | ParseFailed string string
  | InFile string fleet_error
  | NotAnEnvName string
  | NoEnvironment string
  | DuplicateTagKey string string
  | NoNodes
  | GatewayNoURL
  | GatewayNoScheme string
  | NodeNoName nat
  | DuplicateNode string
  | NodeWakePolicy string fleet_error
  | EmptyTagPart string
  | NoHost string
  | DaemonInstanceType string
  | CloudBadName string
  | CloudBadInstanceType string string
  | UnsupportedKind string string
  | NoSuchNode string "string list"
  | EnvFileFailed string
  | TokenNotSet string string
  | CloudKeyUnnamed string

section \<open>Policies\<close>

definition ParsePrefer :: "string \<Rightarrow> fleet_error + string" where
  "ParsePrefer s =
     (if s = PreferIdle \<or> s = PreferActive then Inr s else Inl (UnknownPreference s))"

definition ParseWakePolicy :: "string \<Rightarrow> fleet_error + string" where
  "ParseWakePolicy s =
     (if s = WakeOn \<or> s = WakeOff then Inr s else Inl (UnknownWakePolicy s))"

definition Wakes :: "fleet_config \<Rightarrow> bool" where
  "Wakes c \<longleftrightarrow> cfg_WakePolicy c \<noteq> WakeOff"

definition NodeWakes :: "fleet_config \<Rightarrow> node_config \<Rightarrow> bool" where
  "NodeWakes c entry =
     (if nc_WakePolicy entry \<noteq> '''' then nc_WakePolicy entry \<noteq> WakeOff else Wakes c)"

definition AnyNodeWakes :: "fleet_config \<Rightarrow> bool" where
  "AnyNodeWakes c = list_ex (NodeWakes c) (cfg_Nodes c)"

definition TotalLimit :: "fleet_config \<Rightarrow> int \<times> bool" where
  "TotalLimit c =
     (case cfg_Concurrency c of
        None \<Rightarrow> (0, False)
      | Some cc \<Rightarrow> (case cc_Total cc of None \<Rightarrow> (0, False) | Some t \<Rightarrow> (t, True)))"

definition TagLimit :: "fleet_config \<Rightarrow> string \<Rightarrow> int \<times> bool" where
  "TagLimit c tag =
     (case cfg_Concurrency c of
        None \<Rightarrow> (0, False)
      | Some cc \<Rightarrow> (case map_of (cc_Tags cc) tag of None \<Rightarrow> (0, False) | Some l \<Rightarrow> (l, True)))"

fun check_tag_limits :: "(string, int) gomap \<Rightarrow> fleet_error option" where
  "check_tag_limits [] = None"
| "check_tag_limits ((tag, limit) # rest) =
     (if limit \<le> 0 then Some (BadTagLimit tag limit)
      else if \<not> well_formed_tag tag then Some (LimitNotATag tag)
      else check_tag_limits rest)"

definition validate_concurrency :: "concurrency \<Rightarrow> fleet_error option" where
  "validate_concurrency c =
     (case cc_Total c of
        Some t \<Rightarrow> if t \<le> 0 then Some (BadTotal t) else check_tag_limits (cc_Tags c)
      | None \<Rightarrow> check_tag_limits (cc_Tags c))"

lemma check_tag_limits_None:
  "check_tag_limits m = None \<longleftrightarrow> (\<forall>(tag, limit) \<in> set m. 0 < limit \<and> well_formed_tag tag)"
  by (induction m rule: check_tag_limits.induct) auto

lemma validate_concurrency_None:
  "validate_concurrency c = None \<longleftrightarrow>
     (\<forall>t. cc_Total c = Some t \<longrightarrow> 0 < t) \<and>
     (\<forall>(tag, limit) \<in> set (cc_Tags c). 0 < limit \<and> well_formed_tag tag)"
  by (auto simp: validate_concurrency_def check_tag_limits_None split: option.splits)

definition HasTag :: "node_config \<Rightarrow> string \<Rightarrow> bool" where
  "HasTag n tag =
     (case SplitTag tag of (key, value, ok) \<Rightarrow>
        if \<not> ok then False else get_or '''' (map_of (nc_Tags n)) key = value)"

section \<open>Names\<close>

text \<open>\<^verbatim>\<open>cloud.IsEnvName\<close> and \<^verbatim>\<open>cloud.IsInstanceType\<close> (its regular expression, read as a splitting).\<close>

definition IsEnvName :: "string \<Rightarrow> bool" where
  "IsEnvName v \<longleftrightarrow> v \<noteq> '''' \<and> \<not> contains_any v [CHR ''/'', CHR 0x5C] \<and> \<not> has_suffix v ''.json''"

definition lower_alnum :: "string \<Rightarrow> bool" where
  "lower_alnum s \<longleftrightarrow> s \<noteq> [] \<and> list_all (\<lambda>c. c \<in> set ''abcdefghijklmnopqrstuvwxyz0123456789'') s"

definition IsInstanceType :: "string \<Rightarrow> bool" where
  "IsInstanceType v =
     (case split_on CHR ''.'' v of
        [family, sz] \<Rightarrow> list_all lower_alnum (split_on CHR ''-'' family) \<and> lower_alnum sz
      | _ \<Rightarrow> False)"

text \<open>\<^verbatim>\<open>url.Parse\<close> is given as the host it finds, empty where the address does not parse.\<close>

definition Label :: "(string \<Rightarrow> string) \<Rightarrow> gateway_config \<Rightarrow> string" where
  "Label url_host g =
     (if gw_Name g \<noteq> '''' then gw_Name g
      else if url_host (gw_URL g) \<noteq> '''' then url_host (gw_URL g)
      else gw_URL g)"

definition GatewaySection :: "fleet_config \<Rightarrow> gateway_config option" where
  "GatewaySection c =
     map_option (\<lambda>gw. if gw_TokenEnv gw = '''' then gw\<lparr>gw_TokenEnv := DefaultGatewayTokenEnv\<rparr> else gw)
       (cfg_Gateway c)"

definition node_port :: "node_config \<Rightarrow> int" where
  "node_port n = (if nc_Port n \<noteq> 0 then nc_Port n else DefaultAPIPort)"

section \<open>Validation\<close>

text \<open>
  The kind-specific checks of one entry, the kind already defaulted; then the loop over the entries
  with the names seen so far. The loop writes the defaulted kind back, so it returns the entries.
\<close>

definition check_kind :: "node_config \<Rightarrow> fleet_error option" where
  "check_kind n =
     (if nc_Kind n = KindDaemon then
        (if nc_Host n = '''' then Some (NoHost (nc_Name n))
         else if nc_InstanceType n \<noteq> '''' then Some (DaemonInstanceType (nc_Name n))
         else None)
      else if nc_Kind n = KindCloud then
        (if \<not> IsEnvName (nc_Name n) then Some (CloudBadName (nc_Name n))
         else if nc_InstanceType n \<noteq> '''' \<and> \<not> IsInstanceType (nc_InstanceType n)
           then Some (CloudBadInstanceType (nc_Name n) (nc_InstanceType n))
         else None)
      else Some (UnsupportedKind (nc_Name n) (nc_Kind n)))"

definition check_node :: "node_config \<Rightarrow> fleet_error option" where
  "check_node n =
     (case (if nc_WakePolicy n \<noteq> '''' then ParseWakePolicy (nc_WakePolicy n) else Inr '''') of
        Inl e \<Rightarrow> Some (NodeWakePolicy (nc_Name n) e)
      | Inr _ \<Rightarrow>
          if list_ex (\<lambda>(key, value). key = '''' \<or> value = '''') (nc_Tags n)
            then Some (EmptyTagPart (nc_Name n))
          else check_kind n)"

definition default_kind :: "node_config \<Rightarrow> node_config" where
  "default_kind n = (if nc_Kind n = '''' then n\<lparr>nc_Kind := KindDaemon\<rparr> else n)"

fun validate_nodes ::
  "nat \<Rightarrow> string list \<Rightarrow> node_config list \<Rightarrow> fleet_error + node_config list" where
  "validate_nodes i seen [] = Inr []"
| "validate_nodes i seen (n # ns) =
     (if nc_Name n = '''' then Inl (NodeNoName (i + 1))
      else if nc_Name n \<in> set seen then Inl (DuplicateNode (nc_Name n))
      else
        (let n' = default_kind n in
         case check_node n' of
           Some e \<Rightarrow> Inl e
         | None \<Rightarrow> map_sum id ((#) n') (validate_nodes (i + 1) (nc_Name n # seen) ns)))"

definition check_gateway :: "gateway_config option \<Rightarrow> fleet_error option" where
  "check_gateway g =
     (case g of
        None \<Rightarrow> None
      | Some gw \<Rightarrow>
          if gw_URL gw = '''' then Some GatewayNoURL
          else if \<not> contains (gw_URL gw) ''://'' then Some (GatewayNoScheme (gw_URL gw))
          else None)"

definition check_settings :: "fleet_config \<Rightarrow> fleet_error option" where
  "check_settings c =
     (if cfg_Nodes c = [] then Some NoNodes
      else case (if cfg_Prefer c \<noteq> '''' then ParsePrefer (cfg_Prefer c) else Inr '''') of
        Inl e \<Rightarrow> Some e
      | Inr _ \<Rightarrow>
        (case (if cfg_WakePolicy c \<noteq> '''' then ParseWakePolicy (cfg_WakePolicy c) else Inr '''') of
           Inl e \<Rightarrow> Some e
         | Inr _ \<Rightarrow>
           (case check_gateway (cfg_Gateway c) of
              Some e \<Rightarrow> Some e
            | None \<Rightarrow>
              (case cfg_Concurrency c of None \<Rightarrow> None | Some cc \<Rightarrow> validate_concurrency cc))))"

definition validate :: "fleet_config \<Rightarrow> fleet_error + fleet_config" where
  "validate c =
     (case check_settings c of
        Some e \<Rightarrow> Inl e
      | None \<Rightarrow>
          map_sum id (\<lambda>ns. c\<lparr>cfg_Nodes := ns\<rparr>) (validate_nodes 0 [] (cfg_Nodes c)))"

section \<open>What an accepted file satisfies\<close>

definition valid_node :: "node_config \<Rightarrow> bool" where
  "valid_node n \<longleftrightarrow>
     nc_Name n \<noteq> '''' \<and>
     nc_WakePolicy n \<in> {'''', WakeOn, WakeOff} \<and>
     (\<forall>(key, value) \<in> set (nc_Tags n). key \<noteq> '''' \<and> value \<noteq> '''') \<and>
     (nc_Kind n = KindDaemon \<and> nc_Host n \<noteq> '''' \<and> nc_InstanceType n = '''' \<or>
      nc_Kind n = KindCloud \<and> IsEnvName (nc_Name n) \<and>
        (nc_InstanceType n = '''' \<or> IsInstanceType (nc_InstanceType n)))"

definition valid_settings :: "fleet_config \<Rightarrow> bool" where
  "valid_settings c \<longleftrightarrow>
     cfg_Nodes c \<noteq> [] \<and>
     cfg_Prefer c \<in> {'''', PreferIdle, PreferActive} \<and>
     cfg_WakePolicy c \<in> {'''', WakeOn, WakeOff} \<and>
     (\<forall>gw. cfg_Gateway c = Some gw \<longrightarrow> contains (gw_URL gw) ''://'') \<and>
     (\<forall>cc. cfg_Concurrency c = Some cc \<longrightarrow> validate_concurrency cc = None)"

definition valid_config :: "fleet_config \<Rightarrow> bool" where
  "valid_config c \<longleftrightarrow>
     valid_settings c \<and> distinct (map nc_Name (cfg_Nodes c)) \<and> list_all valid_node (cfg_Nodes c)"

lemma default_kind_simps [simp]:
  "nc_Name (default_kind n) = nc_Name n" "nc_WakePolicy (default_kind n) = nc_WakePolicy n"
  "nc_Tags (default_kind n) = nc_Tags n" "nc_Host (default_kind n) = nc_Host n"
  "default_kind (default_kind n) = default_kind n"
  by (simp_all add: default_kind_def)

lemma default_kind_valid: "valid_node n \<Longrightarrow> default_kind n = n"
  by (auto simp: valid_node_def default_kind_def)

lemma contains_empty_scheme [simp]: "\<not> contains '''' ''://''"
  by (simp add: contains_def)

lemma check_kind_None:
  "check_kind n = None \<longleftrightarrow>
     (nc_Kind n = KindDaemon \<and> nc_Host n \<noteq> '''' \<and> nc_InstanceType n = '''' \<or>
      nc_Kind n = KindCloud \<and> IsEnvName (nc_Name n) \<and>
        (nc_InstanceType n = '''' \<or> IsInstanceType (nc_InstanceType n)))"
  by (auto simp: check_kind_def)

lemma check_node_None: "nc_Name n \<noteq> '''' \<Longrightarrow> check_node n = None \<longleftrightarrow> valid_node n"
  by (auto simp: check_node_def valid_node_def ParseWakePolicy_def check_kind_None list_ex_iff
      split: sum.splits if_splits)

lemma valid_node_named: "valid_node n \<Longrightarrow> nc_Name n \<noteq> ''''"
  by (simp add: valid_node_def)

lemma check_settings_None: "check_settings c = None \<longleftrightarrow> valid_settings c"
  by (auto simp: check_settings_def valid_settings_def ParsePrefer_def ParseWakePolicy_def
      check_gateway_def split: sum.splits option.splits if_splits)

lemma names_default_kind [simp]: "map (nc_Name \<circ> default_kind) ns = map nc_Name ns"
  by simp

lemma validate_nodes_Inr:
  "validate_nodes i seen ns = Inr ms \<longleftrightarrow>
     ms = map default_kind ns \<and> list_all (valid_node \<circ> default_kind) ns \<and>
     distinct (map nc_Name ns) \<and> nc_Name ` set ns \<inter> set seen = {}"
proof (induction ns arbitrary: i seen ms)
  case Nil
  show ?case by auto
next
  case (Cons n ns)
  have chk: "nc_Name n \<noteq> '''' \<Longrightarrow> check_node (default_kind n) = None \<longleftrightarrow> valid_node (default_kind n)"
    by (rule check_node_None) simp
  show ?case
  proof (cases "nc_Name n = '''' \<or> nc_Name n \<in> set seen \<or> check_node (default_kind n) \<noteq> None")
    case True
    then show ?thesis
      using chk by (auto simp: valid_node_def Let_def)
  next
    case False
    with chk have "valid_node (default_kind n)" by simp
    with False show ?thesis
      by (auto simp: map_sum_Inr Cons.IH Let_def)
  qed
qed

lemma valid_settings_nodes [simp]:
  "ns \<noteq> [] \<Longrightarrow> cfg_Nodes c \<noteq> [] \<Longrightarrow> valid_settings (c\<lparr>cfg_Nodes := ns\<rparr>) = valid_settings c"
  by (simp add: valid_settings_def)

text \<open>
  The validation accepts exactly the files whose settings are recognised and whose entries, with
  an unnamed kind read as daemon, are well formed and uniquely named; and what it returns is the file
  with those kinds filled in.
\<close>

theorem validate_spec:
  "validate c = Inr c' \<longleftrightarrow>
     c' = c\<lparr>cfg_Nodes := map default_kind (cfg_Nodes c)\<rparr> \<and> valid_config c'"
proof (cases "valid_settings c")
  case False
  then have "check_settings c \<noteq> None"
    and "\<not> valid_settings (c\<lparr>cfg_Nodes := map default_kind (cfg_Nodes c)\<rparr>)"
    by (simp_all add: check_settings_None) (simp add: valid_settings_def)
  then show ?thesis
    by (auto simp: validate_def valid_config_def)
next
  case True
  then have "check_settings c = None" and "cfg_Nodes c \<noteq> []"
    by (simp_all add: check_settings_None) (simp add: valid_settings_def)
  with True show ?thesis
    by (auto simp: validate_def valid_config_def map_sum_Inr validate_nodes_Inr list.pred_map)
qed

section \<open>Finding nodes and narrowing\<close>

definition find_node :: "fleet_config \<Rightarrow> string \<Rightarrow> node_config option" where
  "find_node c name = find (\<lambda>n. nc_Name n = name) (cfg_Nodes c)"

definition Names :: "fleet_config \<Rightarrow> string list" where
  "Names c = map nc_Name (cfg_Nodes c)"

fun collect_nodes :: "fleet_config \<Rightarrow> string list \<Rightarrow> fleet_error + node_config list" where
  "collect_nodes c [] = Inr []"
| "collect_nodes c (name # names) =
     (case find_node c name of
        None \<Rightarrow> Inl (NoSuchNode name (Names c))
      | Some entry \<Rightarrow> map_sum id ((#) entry) (collect_nodes c names))"

definition OnlyNames :: "fleet_config \<Rightarrow> string list \<Rightarrow> fleet_error + fleet_config" where
  "OnlyNames c names = map_sum id (\<lambda>ns. c\<lparr>cfg_Nodes := ns\<rparr>) (collect_nodes c names)"

definition Only :: "fleet_config \<Rightarrow> string \<Rightarrow> fleet_error + fleet_config" where
  "Only c name = OnlyNames c [name]"

lemma find_node_Some: "find_node c name = Some n \<Longrightarrow> n \<in> set (cfg_Nodes c) \<and> nc_Name n = name"
  unfolding find_node_def by (metis (mono_tags, lifting) find_Some_iff nth_mem)

lemma find_node_None: "find_node c name = None \<longleftrightarrow> name \<notin> set (Names c)"
  by (auto simp: find_node_def Names_def find_None_iff)

lemma find_node_unique:
  assumes "distinct (Names c)" and "n \<in> set (cfg_Nodes c)"
  shows "find_node c (nc_Name n) = Some n"
proof -
  obtain m where m: "find_node c (nc_Name n) = Some m"
    using assms(2) find_node_None [of c "nc_Name n"] by (cases "find_node c (nc_Name n)") (auto simp: Names_def)
  then have "m \<in> set (cfg_Nodes c)" "nc_Name m = nc_Name n"
    using find_node_Some by blast+
  with assms have "m = n"
    by (auto simp: Names_def distinct_map dest: inj_onD)
  with m show ?thesis by simp
qed

lemma collect_nodes_Inr:
  "collect_nodes c names = Inr ns \<longleftrightarrow> map (find_node c) names = map Some ns"
proof (induction names arbitrary: ns)
  case Nil
  show ?case by auto
next
  case (Cons name names)
  show ?case
    by (cases ns) (auto simp: map_sum_Inr Cons.IH split: option.splits)
qed

lemma collect_nodes_Inl:
  "collect_nodes c names = Inl e \<Longrightarrow>
     \<exists>name \<in> set names. name \<notin> set (Names c) \<and> e = NoSuchNode name (Names c)"
  by (induction names)
     (auto simp: map_sum_Inl find_node_None [symmetric] split: option.splits)

lemma collect_nodes_names: "collect_nodes c names = Inr ns \<Longrightarrow> map nc_Name ns = names"
proof (induction names arbitrary: ns)
  case (Cons name names)
  then show ?case
    by (auto simp: map_sum_Inr split: option.splits dest: find_node_Some)
qed simp

lemma collect_nodes_subset: "collect_nodes c names = Inr ns \<Longrightarrow> set ns \<subseteq> set (cfg_Nodes c)"
proof (induction names arbitrary: ns)
  case (Cons name names)
  then show ?case
    by (auto simp: map_sum_Inr split: option.splits dest: find_node_Some)
qed simp

lemma OnlyNames_total:
  "set names \<subseteq> set (Names c) \<Longrightarrow> \<exists>ns. collect_nodes c names = Inr ns"
  by (metis collect_nodes_Inl obj_sumE subsetD)

section \<open>Loading\<close>

text \<open>
  The raw walk that finds a tag key named twice sees, per node, its name and the keys of its tag
  mapping in order, or that the tags are no mapping (\<open>None\<close>). A document the raw parse refuses is
  left to the typed parse.
\<close>

fun first_dup :: "string list \<Rightarrow> string list \<Rightarrow> string option" where
  "first_dup seen [] = None"
| "first_dup seen (k # ks) = (if k \<in> set seen then Some k else first_dup (k # seen) ks)"

fun tag_duplicates_nodes :: "(string \<times> string list option) list \<Rightarrow> fleet_error option" where
  "tag_duplicates_nodes [] = None"
| "tag_duplicates_nodes ((name, None) # ns) = tag_duplicates_nodes ns"
| "tag_duplicates_nodes ((name, Some ks) # ns) =
     (case first_dup [] ks of
        Some k \<Rightarrow> Some (DuplicateTagKey name k)
      | None \<Rightarrow> tag_duplicates_nodes ns)"

definition tagDuplicates :: "(string \<times> string list option) list option \<Rightarrow> fleet_error option" where
  "tagDuplicates raw = (case raw of None \<Rightarrow> None | Some ns \<Rightarrow> tag_duplicates_nodes ns)"

definition Load ::
  "('b \<Rightarrow> (string \<times> string list option) list option) \<Rightarrow> ('b \<Rightarrow> string + fleet_config)
    \<Rightarrow> (string \<Rightarrow> 'b file_read) \<Rightarrow> string \<Rightarrow> fleet_error + fleet_config" where
  "Load raw typed read path =
     (case read path of
        Missing \<Rightarrow> Inl (NoFleetAt path)
      | ReadError e \<Rightarrow> Inl (ReadFailed e)
      | Bytes data \<Rightarrow>
          (case tagDuplicates (raw data) of
             Some e \<Rightarrow> Inl (InFile path e)
           | None \<Rightarrow>
               (case typed data of
                  Inl e \<Rightarrow> Inl (ParseFailed path e)
                | Inr cfg \<Rightarrow>
                    map_sum (InFile path) id
                      (validate (cfg\<lparr>cfg_Path := path, cfg_Dir := path_dir path\<rparr>)))))"

definition Resolve ::
  "('b \<Rightarrow> (string \<times> string list option) list option) \<Rightarrow> ('b \<Rightarrow> string + fleet_config)
    \<Rightarrow> (string \<Rightarrow> 'b file_read) \<Rightarrow> string \<Rightarrow> fleet_error + fleet_config" where
  "Resolve raw typed read flagPath =
     Load raw typed read (if flagPath = '''' then DefaultFile else flagPath)"

definition empty_node :: node_config where
  "empty_node = \<lparr>nc_Name = '''', nc_Host = '''', nc_Port = 0, nc_Kind = '''', nc_TokenEnv = '''',
     nc_EngineTokenEnv = '''', nc_Engine = None, nc_File = '''', nc_InstanceType = '''',
     nc_Tags = [], nc_WakePolicy = ''''\<rparr>"

definition empty_config :: fleet_config where
  "empty_config = \<lparr>cfg_Nodes = [], cfg_Gateway = None, cfg_Prefer = '''', cfg_WakePolicy = '''',
     cfg_Concurrency = None, cfg_APIKeyEnv = '''', cfg_Path = '''', cfg_Dir = ''''\<rparr>"

text \<open>\<open>registered name\<close> is whether the environment registry holds a readable entry under the name.\<close>

definition ForEnvironment :: "(string \<Rightarrow> bool) \<Rightarrow> string \<Rightarrow> fleet_error + fleet_config" where
  "ForEnvironment registered name =
     (if \<not> IsEnvName name then Inl (NotAnEnvName name)
      else if \<not> registered name then Inl (NoEnvironment name)
      else validate (empty_config\<lparr>cfg_Nodes := [empty_node\<lparr>nc_Name := name, nc_Kind := KindCloud\<rparr>]\<rparr>))"

section \<open>Token references\<close>

definition resolveTokenEnv ::
  "(string \<Rightarrow> string) \<Rightarrow> string file_read \<Rightarrow> string \<Rightarrow> string \<Rightarrow> fleet_error + string" where
  "resolveTokenEnv getenv envfile who name =
     (if name = '''' then Inr ''''
      else if getenv name \<noteq> '''' then Inr (getenv name)
      else
        (case ParseEnvFile envfile of
           Inl e \<Rightarrow> Inl (EnvFileFailed e)
         | Inr vars \<Rightarrow>
             if get_or '''' (map_of vars) name \<noteq> '''' then Inr (get_or '''' (map_of vars) name)
             else Inl (TokenNotSet name who)))"

definition Token ::
  "(string \<Rightarrow> string) \<Rightarrow> string file_read \<Rightarrow> node_config \<Rightarrow> fleet_error + string" where
  "Token getenv envfile n = resolveTokenEnv getenv envfile (nc_Name n) (nc_TokenEnv n)"

definition EngineToken ::
  "(string \<Rightarrow> string) \<Rightarrow> string file_read \<Rightarrow> node_config \<Rightarrow> fleet_error + string" where
  "EngineToken getenv envfile n = resolveTokenEnv getenv envfile (nc_Name n) (nc_EngineTokenEnv n)"

definition CloudEngineToken ::
  "(string \<Rightarrow> string) \<Rightarrow> string file_read \<Rightarrow> fleet_config \<Rightarrow> node_config \<Rightarrow> fleet_error + string" where
  "CloudEngineToken getenv envfile c n =
     (let name = (if nc_EngineTokenEnv n = '''' then cfg_APIKeyEnv c else nc_EngineTokenEnv n)
      in if name = '''' then Inl (CloudKeyUnnamed (nc_Name n))
         else resolveTokenEnv getenv envfile (nc_Name n) name)"

definition GatewayToken ::
  "(string \<Rightarrow> string) \<Rightarrow> string file_read \<Rightarrow> string \<Rightarrow> fleet_error + string" where
  "GatewayToken getenv envfile name = resolveTokenEnv getenv envfile ''the gateway'' name"

lemma resolveTokenEnv_nonempty:
  "resolveTokenEnv getenv envfile who name = Inr v \<Longrightarrow> name \<noteq> '''' \<Longrightarrow> v \<noteq> ''''"
  by (auto simp: resolveTokenEnv_def split: if_splits sum.splits)

end
