(* ===== verification/WorkItems.thy ===== *)
theory WorkItems
  imports FleetConfig
begin

text \<open>
  \<^verbatim>\<open>internal/orchestrator/items.go\<close>: the work items file. \<open>item\<close> is the Go \<^verbatim>\<open>Item\<close>, \<open>file_item\<close> the form
  the file writes, whose absent priority is told apart from a stated one. The YAML decoder is a
  parameter (\<open>unmarshal\<close>); the validation of the decoded entries, the file form an item is written
  back as, and the ordering of the backlog are definitions.
\<close>

record item =
  it_ID :: string
  it_Instructions :: string
  it_Dir :: string
  it_Tags :: "string list"
  it_Priority :: int

record file_item =
  fi_ID :: string
  fi_Instructions :: string
  fi_Dir :: string
  fi_Tags :: "string list"
  fi_Priority :: "int option"

datatype item_error =
    NotAList string
  | HasNoId nat
  | DuplicateId string nat nat
  | NoInstructions string
  | NoDir string
  | BadTag string string
  | RepeatedTagKeys string "string list"
  | ItemsFile string item_error
  | ItemsUnreadable string
  | ItemsMissing string

section \<open>Validation\<close>

text \<open>
  The keys named more than once, in the order their repetitions appear. The Go function quotes and
  joins them for its message; the message is empty exactly where the list is.
\<close>

fun repeated_keys :: "string list \<Rightarrow> string list \<Rightarrow> string list" where
  "repeated_keys seen [] = []"
| "repeated_keys seen (t # ts) =
     (let key = fst (SplitTag t)
      in if key \<in> set seen then key # repeated_keys seen ts
         else repeated_keys (key # seen) ts)"

definition duplicateTagKeys :: "string list \<Rightarrow> string list" where
  "duplicateTagKeys tags = repeated_keys [] tags"

definition validateItemFields ::
  "string \<Rightarrow> string \<Rightarrow> string \<Rightarrow> string list \<Rightarrow> item_error option" where
  "validateItemFields name instructions dir tags =
     (if instructions = '''' then Some (NoInstructions name)
      else if dir = '''' then Some (NoDir name)
      else case find (\<lambda>t. \<not> well_formed_tag t) tags of
        Some t \<Rightarrow> Some (BadTag name t)
      | None \<Rightarrow>
          (if duplicateTagKeys tags \<noteq> [] then Some (RepeatedTagKeys name (duplicateTagKeys tags))
           else None))"

definition checkItem :: "file_item \<Rightarrow> item_error option" where
  "checkItem f = validateItemFields (fi_ID f) (fi_Instructions f) (fi_Dir f) (fi_Tags f)"

section \<open>Parsing\<close>

text \<open>An entry as an item: an unstated priority is the lowest, zero.\<close>

definition item_of_file :: "file_item \<Rightarrow> item" where
  "item_of_file f = \<lparr>it_ID = fi_ID f, it_Instructions = fi_Instructions f, it_Dir = fi_Dir f,
     it_Tags = fi_Tags f, it_Priority = (case fi_Priority f of None \<Rightarrow> 0 | Some p \<Rightarrow> p)\<rparr>"

text \<open>The loop over the decoded entries; positions in errors count from one, as the messages do.\<close>

fun parse_items :: "nat \<Rightarrow> (string, nat) gomap \<Rightarrow> file_item list \<Rightarrow> item_error + item list" where
  "parse_items i seen [] = Inr []"
| "parse_items i seen (f # fs) =
     (if fi_ID f = '''' then Inl (HasNoId (i + 1))
      else case map_of seen (fi_ID f) of
        Some at \<Rightarrow> Inl (DuplicateId (fi_ID f) (at + 1) (i + 1))
      | None \<Rightarrow>
          (case checkItem f of
             Some e \<Rightarrow> Inl e
           | None \<Rightarrow>
               map_sum id ((#) (item_of_file f))
                 (parse_items (i + 1) (AList.update (fi_ID f) i seen) fs)))"

definition ParseItems :: "('b \<Rightarrow> string + file_item list) \<Rightarrow> 'b \<Rightarrow> item_error + item list" where
  "ParseItems unmarshal data =
     (case unmarshal data of
        Inl e \<Rightarrow> Inl (NotAList e)
      | Inr file \<Rightarrow> parse_items 0 [] file)"

definition LoadItems ::
  "('b \<Rightarrow> string + file_item list) \<Rightarrow> (string \<Rightarrow> 'b file_read) \<Rightarrow> string \<Rightarrow> item_error + item list" where
  "LoadItems unmarshal read path =
     (case read path of
        Missing \<Rightarrow> Inl (ItemsMissing path)
      | ReadError e \<Rightarrow> Inl (ItemsUnreadable e)
      | Bytes data \<Rightarrow> map_sum (ItemsFile path) id (ParseItems unmarshal data))"

definition fileItemFromItem :: "item \<Rightarrow> file_item" where
  "fileItemFromItem it = \<lparr>fi_ID = it_ID it, fi_Instructions = it_Instructions it, fi_Dir = it_Dir it,
     fi_Tags = it_Tags it, fi_Priority = (if it_Priority it > 0 then Some (it_Priority it) else None)\<rparr>"

text \<open>The backlog's order: swaps while the later item's priority is the higher.\<close>

definition sortedForAdmission :: "item list \<Rightarrow> item list" where
  "sortedForAdmission items =
     insertion_sort (\<lambda>out j k. it_Priority (out ! j) > it_Priority (out ! k)) items"

section \<open>What an accepted item satisfies\<close>

definition valid_item :: "item \<Rightarrow> bool" where
  "valid_item it \<longleftrightarrow>
     it_ID it \<noteq> '''' \<and> it_Instructions it \<noteq> '''' \<and> it_Dir it \<noteq> '''' \<and>
     list_all well_formed_tag (it_Tags it) \<and> distinct (map (fst \<circ> SplitTag) (it_Tags it))"

lemma repeated_keys_Nil:
  "repeated_keys seen tags = [] \<longleftrightarrow>
     distinct (map (fst \<circ> SplitTag) tags) \<and> (fst \<circ> SplitTag) ` set tags \<inter> set seen = {}"
  by (induction seen tags rule: repeated_keys.induct) (auto simp: Let_def)

lemma duplicateTagKeys_Nil:
  "duplicateTagKeys tags = [] \<longleftrightarrow> distinct (map (fst \<circ> SplitTag) tags)"
  by (simp add: duplicateTagKeys_def repeated_keys_Nil)

text \<open>A key is reported exactly where two of the tags name it.\<close>

lemma set_repeated_keys:
  "set (repeated_keys seen tags) =
     {k. count (mset (map (fst \<circ> SplitTag) tags)) k + (if k \<in> set seen then 1 else 0) \<ge> 2}"
proof (induction seen tags rule: repeated_keys.induct)
  case (2 seen t ts)
  then show ?case
    by (auto simp: Let_def image_iff split: if_splits) force+
qed auto

lemma validateItemFields_None:
  "validateItemFields name ins dir tags = None \<longleftrightarrow>
     ins \<noteq> '''' \<and> dir \<noteq> '''' \<and> list_all well_formed_tag tags \<and> distinct (map (fst \<circ> SplitTag) tags)"
  by (auto simp: validateItemFields_def duplicateTagKeys_Nil find_None_iff list_all_iff
      split: option.splits dest: find_SomeD)

lemma checkItem_None: "fi_ID f \<noteq> '''' \<Longrightarrow> checkItem f = None \<longleftrightarrow> valid_item (item_of_file f)"
  by (simp add: checkItem_def validateItemFields_None valid_item_def item_of_file_def)

lemma item_of_file_ID [simp]: "it_ID (item_of_file f) = fi_ID f"
  by (simp add: item_of_file_def)

lemma valid_item_ID: "valid_item it \<Longrightarrow> it_ID it \<noteq> ''''"
  by (simp add: valid_item_def)

lemma parse_items_Inr:
  "parse_items i seen fs = Inr items \<longleftrightarrow>
     items = map item_of_file fs \<and> list_all valid_item items \<and>
     distinct (map it_ID items) \<and> (\<forall>it \<in> set items. map_of seen (it_ID it) = None)"
proof (induction i seen fs arbitrary: items rule: parse_items.induct)
  case (1 i seen)
  show ?case by auto
next
  case (2 i seen f fs)
  show ?case
  proof (cases "fi_ID f = '''' \<or> map_of seen (fi_ID f) \<noteq> None \<or> checkItem f \<noteq> None")
    case True
    then consider "fi_ID f = ''''" | at where "fi_ID f \<noteq> ''''" "map_of seen (fi_ID f) = Some at"
      | e where "fi_ID f \<noteq> ''''" "map_of seen (fi_ID f) = None" "checkItem f = Some e" by blast
    then show ?thesis
      by cases (use checkItem_None [of f] in \<open>auto simp: valid_item_def\<close>)
  next
    case False
    then have "valid_item (item_of_file f)" using checkItem_None by blast
    with False have "parse_items i seen (f # fs) = Inr items \<longleftrightarrow>
        (\<exists>its. items = item_of_file f # its \<and>
          parse_items (i + 1) (AList.update (fi_ID f) i seen) fs = Inr its)"
      by (auto simp: map_sum_Inr)
    also have "\<dots> \<longleftrightarrow> (\<exists>its. items = item_of_file f # its \<and> its = map item_of_file fs \<and>
        list_all valid_item its \<and> distinct (map it_ID its) \<and>
        fi_ID f \<notin> it_ID ` set its \<and> (\<forall>it \<in> set its. map_of seen (it_ID it) = None))"
      using False 2 by (simp only: fresh_update) blast
    finally show ?thesis
      using False \<open>valid_item (item_of_file f)\<close> by (auto simp: image_image simp del: list.pred_map)
  qed
qed

lemma ParseItems_Inr:
  "ParseItems unmarshal data = Inr items \<longleftrightarrow>
     (\<exists>fs. unmarshal data = Inr fs \<and> items = map item_of_file fs) \<and>
     list_all valid_item items \<and> distinct (map it_ID items)"
  by (auto simp: ParseItems_def parse_items_Inr split: sum.splits)

text \<open>
  The items file is accepted exactly where it decodes to a list of entries that all have an id,
  instructions, a directory, and well-formed tags naming no key twice, no two entries sharing an id;
  and what is loaded is then the entries in file order, an unstated priority read as zero.
\<close>

theorem ParseItems_accepts:
  "ParseItems unmarshal data = Inr items \<longleftrightarrow>
     (\<exists>fs. unmarshal data = Inr fs \<and> items = map item_of_file fs) \<and>
     list_all valid_item items \<and> distinct (map it_ID items)"
  by (rule ParseItems_Inr)

lemma parse_items_duplicate:
  "parse_items i seen fs = Inl (DuplicateId name a b) \<Longrightarrow>
     (\<forall>k n. map_of seen k = Some n \<longrightarrow> n < i) \<Longrightarrow>
     (\<exists>n < length fs. b = Suc (i + n) \<and> fi_ID (fs ! n) = name \<and> a < b \<and>
        (if a \<le> i then map_of seen name = Some (a - 1) \<and> a \<noteq> 0
         else fi_ID (fs ! (a - 1 - i)) = name))"
proof (induction i seen fs rule: parse_items.induct)
  case (2 i seen f fs)
  show ?case
  proof (cases "map_of seen (fi_ID f)")
    case None
    with 2(2) have ne: "fi_ID f \<noteq> ''''" and chk: "checkItem f = None"
      and rest: "parse_items (i + 1) (AList.update (fi_ID f) i seen) fs = Inl (DuplicateId name a b)"
      by (auto simp: map_sum_Inl checkItem_def validateItemFields_def split: if_splits option.splits)
    from 2(3) have "\<forall>k n. map_of (AList.update (fi_ID f) i seen) k = Some n \<longrightarrow> n < i + 1"
      by (auto simp: less_Suc_eq)
    from 2(1) [OF ne None chk rest this] obtain n where n: "n < length fs" "b = Suc (i + 1 + n)"
        "fi_ID (fs ! n) = name" "a < b"
        "if a \<le> i + 1 then map_of (AList.update (fi_ID f) i seen) name = Some (a - 1) \<and> a \<noteq> 0
         else fi_ID (fs ! (a - 1 - (i + 1))) = name"
      by blast
    then have "if a \<le> i then map_of seen name = Some (a - 1) \<and> a \<noteq> 0
         else fi_ID ((f # fs) ! (a - 1 - i)) = name"
      using 2(3) by (auto simp: nth_Cons' split: if_splits) force+
    with n show ?thesis
      by (intro exI [of _ "Suc n"]) auto
  next
    case (Some at)
    moreover from Some 2(3) have "at < i" by blast
    ultimately show ?thesis
      using 2(2) by (intro exI [of _ 0]) (auto split: if_splits)
  qed
qed simp

text \<open>
  A duplicate id is reported with the positions of two entries that have it, the second of them
  the later one; positions count from one.
\<close>

theorem ParseItems_duplicate:
  assumes "unmarshal data = Inr fs" and "ParseItems unmarshal data = Inl (DuplicateId name a b)"
  shows "0 < a \<and> a < b \<and> b \<le> length fs \<and> fi_ID (fs ! (a - 1)) = name \<and> fi_ID (fs ! (b - 1)) = name"
proof -
  have "parse_items 0 [] fs = Inl (DuplicateId name a b)"
    using assms by (simp add: ParseItems_def)
  from parse_items_duplicate [OF this] show ?thesis
    by (auto split: if_splits)
qed

definition demo_entry :: "string \<Rightarrow> file_item" where
  "demo_entry name = \<lparr>fi_ID = name, fi_Instructions = ''do it'', fi_Dir = ''d'', fi_Tags = [], fi_Priority = None\<rparr>"

theorem ParseItems_duplicate_witness:
  "ParseItems Inr [demo_entry ''a'', demo_entry ''b'', demo_entry ''a''] = Inl (DuplicateId ''a'' 1 3) \<and>
   fi_ID ([demo_entry ''a'', demo_entry ''b'', demo_entry ''a''] ! 0) = ''a'' \<and>
   fi_ID ([demo_entry ''a'', demo_entry ''b'', demo_entry ''a''] ! 2) = ''a''"
proof -
  have "ParseItems Inr [demo_entry ''a'', demo_entry ''b'', demo_entry ''a''] = Inl (DuplicateId ''a'' 1 3)"
    by (simp add: ParseItems_def checkItem_def validateItemFields_def duplicateTagKeys_def demo_entry_def)
  from ParseItems_duplicate [OF refl this] this show ?thesis by simp
qed

text \<open>
  The order the backlog is worked in is the stable sort by falling priority, so equals keep the
  file's order.
\<close>

theorem sortedForAdmission_stable:
  "sortedForAdmission items = sort_key (\<lambda>it. - it_Priority it) items"
proof -
  have cmp: "(\<lambda>out j k. it_Priority (out ! j) > it_Priority (out ! k))
      = elementwise (\<lambda>x y. it_Priority x > it_Priority y)"
    by (simp add: fun_eq_iff elementwise_def)
  show ?thesis
    unfolding sortedForAdmission_def cmp by (rule insertion_sort_key) simp
qed

lemma set_sortedForAdmission [simp]: "set (sortedForAdmission items) = set items"
  by (simp add: sortedForAdmission_def)

lemma mset_sortedForAdmission [simp]: "mset (sortedForAdmission items) = mset items"
  by (simp add: sortedForAdmission_def)

lemma distinct_ids_sortedForAdmission [simp]:
  "distinct (map it_ID (sortedForAdmission items)) = distinct (map it_ID items)"
  by (rule mset_eq_imp_distinct_iff) simp

text \<open>
  An item read back from the form the file is rewritten with is the same item exactly where its
  priority is not negative; a negative one comes back as zero.
\<close>

theorem fileItemFromItem_roundtrip:
  "item_of_file (fileItemFromItem it) = it \<longleftrightarrow> 0 \<le> it_Priority it"
  by (cases it) (auto simp: item_of_file_def fileItemFromItem_def)

lemma item_of_fileItemFromItem:
  "item_of_file (fileItemFromItem it) = it\<lparr>it_Priority := max 0 (it_Priority it)\<rparr>"
  by (cases it) (auto simp: item_of_file_def fileItemFromItem_def)

lemma valid_fileItemFromItem [simp]:
  "valid_item (item_of_file (fileItemFromItem it)) = valid_item it"
  by (simp add: item_of_fileItemFromItem valid_item_def)

definition demo_item :: "string \<Rightarrow> item" where
  "demo_item name = \<lparr>it_ID = name, it_Instructions = ''do it'', it_Dir = ''d'', it_Tags = [], it_Priority = 0\<rparr>"

lemma demo_item_simps [simp]:
  "it_ID (demo_item name) = name" "it_Tags (demo_item name) = []" "it_Priority (demo_item name) = 0"
  "valid_item (demo_item name) \<longleftrightarrow> name \<noteq> ''''"
  by (simp_all add: demo_item_def valid_item_def)

end
