(* ===== verification/Admission.thy ===== *)
theory Admission
  imports WorkItems
begin

text \<open>
  \<^verbatim>\<open>internal/orchestrator/topology.go\<close> and \<^verbatim>\<open>admit.go\<close>: the orchestrator's view of the fleet, which
  nodes an item may run on and in what order, and whether the declared capacity admits it. Reading an
  RFC 3339 time is a parameter (\<open>parse_time\<close>), whose answer is the instant.
\<close>

section \<open>The topology\<close>

abbreviation StateIdle :: string where "StateIdle \<equiv> ''idle''"
abbreviation StateRunning :: string where "StateRunning \<equiv> ''running''"
abbreviation StateStopped :: string where "StateStopped \<equiv> ''stopped''"
abbreviation StateCrashed :: string where "StateCrashed \<equiv> ''crashed''"

record capacity =
  cp_Total :: "int option"
  cp_Tags :: "(string, int) gomap"

record topo_node =
  tn_Name :: string
  tn_Kind :: string
  tn_Tags :: "(string, string) gomap"
  tn_State :: string
  tn_Detail :: string
  tn_Model :: string
  tn_ServedName :: string
  tn_Ready :: string
  tn_LastActiveAt :: string
  tn_WakeableModel :: string

record topology =
  tp_Wake :: bool
  tp_Prefer :: string
  tp_Concurrency :: "capacity option"
  tp_Nodes :: "topo_node list"

definition answered :: "topo_node \<Rightarrow> bool" where
  "answered n \<longleftrightarrow> tn_State n \<in> set [StateIdle, StateRunning, StateStopped, StateCrashed]"

definition ModelName :: "topo_node \<Rightarrow> string" where
  "ModelName n =
     (if tn_State n = StateRunning
      then if tn_ServedName n \<noteq> '''' then tn_ServedName n else tn_Model n
      else tn_WakeableModel n)"

section \<open>Matching\<close>

fun carriesAll :: "string list \<Rightarrow> (string, string) gomap \<Rightarrow> bool" where
  "carriesAll [] nodeTags = True"
| "carriesAll (tag # tags) nodeTags =
     (case SplitTag tag of (key, value, ok) \<Rightarrow>
        if get_or '''' (map_of nodeTags) key \<noteq> value then False else carriesAll tags nodeTags)"

text \<open>
  The ranking fills its two arrays from the nodes as they stand, then sorts the nodes with a
  comparison of positions in those arrays; the arrays are not rearranged with the nodes. The instant
  of a node that has none is that of Go's zero time, which is never compared.
\<close>

definition active_times :: "(string \<Rightarrow> int option) \<Rightarrow> topo_node list \<Rightarrow> int option list" where
  "active_times parse_time nodes =
     map (\<lambda>n. if tn_LastActiveAt n \<noteq> '''' then parse_time (tn_LastActiveAt n) else None) nodes"

definition ranks_before :: "bool \<Rightarrow> int option \<Rightarrow> int option \<Rightarrow> bool" where
  "ranks_before byActive x y =
     (if (x \<noteq> None) \<noteq> (y \<noteq> None) then byActive \<noteq> (y \<noteq> None)
      else case (x, y) of
        (Some s, Some t) \<Rightarrow> if byActive then s > t else s < t
      | _ \<Rightarrow> False)"

definition rankBy :: "(string \<Rightarrow> int option) \<Rightarrow> string \<Rightarrow> topo_node list \<Rightarrow> topo_node list" where
  "rankBy parse_time prefer nodes =
     (let active = active_times parse_time nodes
      in insertion_sort (\<lambda>_ i j. ranks_before (prefer = ''active'') (active ! i) (active ! j)) nodes)"

definition Match :: "(string \<Rightarrow> int option) \<Rightarrow> item \<Rightarrow> topology \<Rightarrow> topo_node list" where
  "Match parse_time item topo =
     (let fits = filter (\<lambda>n. carriesAll (it_Tags item) (tn_Tags n) \<and> answered n) (tp_Nodes topo);
          running = filter (\<lambda>n. tn_State n = StateRunning) fits;
          toStart = filter (\<lambda>n. tn_State n \<noteq> StateRunning \<and> tp_Wake topo) fits
      in rankBy parse_time (tp_Prefer topo) running @ rankBy parse_time (tp_Prefer topo) toStart)"

section \<open>Capacity\<close>

definition countCarrying :: "item list \<Rightarrow> string \<Rightarrow> nat" where
  "countCarrying items tag = length (filter (\<lambda>it. tag \<in> set (it_Tags it)) items)"

fun tag_limits_admit :: "(string, int) gomap \<Rightarrow> item list \<Rightarrow> string list \<Rightarrow> bool" where
  "tag_limits_admit limits inflight [] = True"
| "tag_limits_admit limits inflight (tag # tags) =
     (case map_of limits tag of
        None \<Rightarrow> tag_limits_admit limits inflight tags
      | Some limit \<Rightarrow>
          if int (countCarrying inflight tag) \<ge> limit then False
          else tag_limits_admit limits inflight tags)"

definition Admits :: "topology \<Rightarrow> item list \<Rightarrow> item \<Rightarrow> bool" where
  "Admits topo inflight item =
     (case tp_Concurrency topo of
        None \<Rightarrow> True
      | Some c \<Rightarrow>
          (case cp_Total c of
             Some most \<Rightarrow>
               if int (length inflight) \<ge> most then False
               else tag_limits_admit (cp_Tags c) inflight (it_Tags item)
           | None \<Rightarrow> tag_limits_admit (cp_Tags c) inflight (it_Tags item)))"

section \<open>What matching and admission promise\<close>

lemma carriesAll_iff:
  "list_all well_formed_tag tags \<Longrightarrow>
     carriesAll tags m \<longleftrightarrow> (\<forall>tag \<in> set tags. map_of m (fst (SplitTag tag)) = Some (fst (snd (SplitTag tag))))"
proof (induction tags)
  case (Cons tag tags)
  obtain k v where t: "SplitTag tag = (k, v, True)"
    using Cons.prems by (cases "SplitTag tag") (auto simp: well_formed_tag_def)
  then have "v \<noteq> ''''" by (simp add: SplitTag_ok)
  then have "get_or '''' (map_of m) k \<noteq> v \<longleftrightarrow> map_of m k \<noteq> Some v"
    by (auto simp: get_or_def split: option.splits)
  with Cons t show ?case by simp
qed simp

lemma mset_rankBy [simp]: "mset (rankBy pt prefer nodes) = mset nodes"
  by (simp add: rankBy_def Let_def)

lemma set_rankBy [simp]: "set (rankBy pt prefer nodes) = set nodes"
  by (simp add: rankBy_def Let_def)

lemma Match_member:
  "n \<in> set (Match pt item topo) \<longleftrightarrow>
     n \<in> set (tp_Nodes topo) \<and> carriesAll (it_Tags item) (tn_Tags n) \<and> answered n \<and>
     (tn_State n = StateRunning \<or> tp_Wake topo)"
  by (auto simp: Match_def Let_def)

lemma answered_running [simp]: "tn_State n = StateRunning \<Longrightarrow> answered n"
  by (simp add: answered_def)

lemma mset_filter_filter: "mset (filter P (filter Q xs)) = filter_mset (\<lambda>x. Q x \<and> P x) (mset xs)"
  by (simp add: filter_filter_mset conj_commute)


subsection \<open>Ranking\<close>

text \<open>The order the preference asks for: a position in it, smaller ranks first.\<close>

definition rank_key :: "bool \<Rightarrow> int option \<Rightarrow> int \<times> int" where
  "rank_key byActive t = (case t of
     None \<Rightarrow> if byActive then (1, 0) else (0, 0)
   | Some s \<Rightarrow> if byActive then (0, - s) else (1, s))"

definition rank_less :: "bool \<Rightarrow> int option \<Rightarrow> int option \<Rightarrow> bool" where
  "rank_less byActive x y =
     (case (rank_key byActive x, rank_key byActive y) of
        ((a, s), (b, t)) \<Rightarrow> a < b \<or> a = b \<and> s < t)"

lemma ranks_before_less: "ranks_before byActive x y = rank_less byActive x y"
  by (cases x; cases y) (auto simp: ranks_before_def rank_less_def rank_key_def)

lemma rankBy_pair:
  "rankBy pt prefer [m, n] =
     (if rank_less (prefer = ''active'') (active_times pt [n] ! 0) (active_times pt [m] ! 0)
      then [n, m] else [m, n])"
  by (simp add: rankBy_def insertion_sort_def active_times_def ranks_before_less swap_def upt_rec)
lemma sink_id: "0 < i \<Longrightarrow> \<not> cmp xs i (i - 1) \<Longrightarrow> sink cmp xs i = xs"
  by (cases i) auto

lemma fold_sink_id:
  "\<forall>i \<in> set is. 0 < i \<and> \<not> cmp xs i (i - 1) \<Longrightarrow> fold (\<lambda>i out. sink cmp out i) is xs = xs"
  by (induction "is") (auto simp: sink_id)

text \<open>
  Nodes that already stand in the order the preference asks for keep it, and of two nodes that do
  not the better one is put first. Whatever their number, the ranking only rearranges.
\<close>

theorem rankBy_keeps_order:
  "mset (rankBy pt prefer nodes) = mset nodes \<and>
   ((\<forall>i \<in> {1..<length nodes}. \<not> rank_less (prefer = ''active'')
        (active_times pt nodes ! i) (active_times pt nodes ! (i - 1))) \<longrightarrow>
      rankBy pt prefer nodes = nodes) \<and>
   (\<forall>m n. nodes = [m, n] \<longrightarrow>
      rankBy pt prefer nodes =
        (if rank_less (prefer = ''active'') (active_times pt [n] ! 0) (active_times pt [m] ! 0)
         then [n, m] else [m, n]))"
proof (intro conjI impI allI)
  assume "\<forall>i \<in> {1..<length nodes}. \<not> rank_less (prefer = ''active'')
        (active_times pt nodes ! i) (active_times pt nodes ! (i - 1))"
  then show "rankBy pt prefer nodes = nodes"
    unfolding rankBy_def insertion_sort_def Let_def
    by (intro fold_sink_id) (auto simp: ranks_before_less)
qed (simp_all add: rankBy_pair)

definition plain_node :: "string \<Rightarrow> string \<Rightarrow> topo_node" where
  "plain_node name at = \<lparr>tn_Name = name, tn_Kind = ''daemon'', tn_Tags = [], tn_State = StateRunning,
     tn_Detail = '''', tn_Model = ''m'', tn_ServedName = '''', tn_Ready = ''ready'',
     tn_LastActiveAt = at, tn_WakeableModel = ''''\<rparr>"

lemma plain_node_simps [simp]:
  "tn_LastActiveAt (plain_node name at) = at" "tn_Name (plain_node name at) = name"
  "tn_State (plain_node name at) = StateRunning" "tn_Tags (plain_node name at) = []"
  by (simp_all add: plain_node_def)

definition short_times :: "string \<Rightarrow> int option" where
  "short_times s = map_of [(''t1'', 1), (''t5'', 5), (''t10'', 10)] s"

theorem rankBy_keeps_order_witness:
  "rankBy short_times ''idle'' [plain_node ''a'' ''t1'', plain_node ''b'' ''t5'', plain_node ''c'' ''t10'']
     = [plain_node ''a'' ''t1'', plain_node ''b'' ''t5'', plain_node ''c'' ''t10''] \<and>
   rankBy short_times ''idle'' [plain_node ''a'' ''t5'', plain_node ''b'' ''t1'']
     = [plain_node ''b'' ''t1'', plain_node ''a'' ''t5'']"
proof -
  let ?nodes = "[plain_node ''a'' ''t1'', plain_node ''b'' ''t5'', plain_node ''c'' ''t10'']"
  have "\<forall>i \<in> {1..<length ?nodes}. \<not> rank_less (''idle'' = ''active'')
        (active_times short_times ?nodes ! i) (active_times short_times ?nodes ! (i - 1))"
    by (simp add: active_times_def rank_less_def rank_key_def short_times_def atLeastLessThan_upt numeral_3_eq_3 upt_rec)
  then show ?thesis
    using rankBy_keeps_order [of short_times "''idle''" ?nodes]
      rankBy_keeps_order [of short_times "''idle''" "[plain_node ''a'' ''t5'', plain_node ''b'' ''t1'']"]
    by (simp add: active_times_def rank_less_def rank_key_def short_times_def)
qed

text \<open>
  Of three matching nodes the ranking may put first one that is not the best: with an idle
  preference and nodes last active at 5, 10 and 1, the one last active at 1 comes second. The sort
  moves the nodes but not the arrays its comparison reads.
\<close>

theorem rankBy_misorders:
  "map tn_Name (rankBy short_times ''idle''
      [plain_node ''a'' ''t5'', plain_node ''b'' ''t10'', plain_node ''c'' ''t1''])
     = [''a'', ''c'', ''b''] \<and>
   rank_less False (active_times short_times [plain_node ''c'' ''t1''] ! 0)
     (active_times short_times [plain_node ''a'' ''t5''] ! 0)"
  by (simp add: rankBy_def insertion_sort_def active_times_def ranks_before_less rank_less_def
      rank_key_def short_times_def swap_def upt_rec numeral_2_eq_2)

section \<open>Admission keeps the fleet within its limits\<close>

lemma tag_limits_admit_iff:
  "tag_limits_admit limits inflight tags \<longleftrightarrow>
     (\<forall>tag \<in> set tags. \<forall>l. map_of limits tag = Some l \<longrightarrow> int (countCarrying inflight tag) < l)"
  by (induction limits inflight tags rule: tag_limits_admit.induct) (auto split: option.splits)

definition within_limits :: "topology \<Rightarrow> item list \<Rightarrow> bool" where
  "within_limits topo inflight \<longleftrightarrow>
     (\<forall>c. tp_Concurrency topo = Some c \<longrightarrow>
        (\<forall>t. cp_Total c = Some t \<longrightarrow> int (length inflight) \<le> t) \<and>
        (\<forall>tag l. map_of (cp_Tags c) tag = Some l \<longrightarrow> int (countCarrying inflight tag) \<le> l))"

lemma Admits_iff:
  "Admits topo inflight item \<longleftrightarrow>
     (\<forall>c. tp_Concurrency topo = Some c \<longrightarrow>
        (\<forall>t. cp_Total c = Some t \<longrightarrow> int (length inflight) < t) \<and>
        (\<forall>tag \<in> set (it_Tags item). \<forall>l. map_of (cp_Tags c) tag = Some l \<longrightarrow>
           int (countCarrying inflight tag) < l))"
  by (auto simp: Admits_def tag_limits_admit_iff split: option.splits)

lemma countCarrying_Cons [simp]:
  "countCarrying (it # items) tag =
     (if tag \<in> set (it_Tags it) then Suc (countCarrying items tag) else countCarrying items tag)"
  by (simp add: countCarrying_def)

lemma countCarrying_mset: "mset xs = mset ys \<Longrightarrow> countCarrying xs tag = countCarrying ys tag"
  unfolding countCarrying_def by (metis mset_filter size_mset)

lemma within_limits_mset: "mset xs = mset ys \<Longrightarrow> within_limits topo xs = within_limits topo ys"
  using countCarrying_mset [of xs ys] mset_eq_length [of xs ys] by (simp add: within_limits_def)

text \<open>
  An admitted item leaves the items in flight within the declared total and within the limit of
  every tag, its own included, where they were within them before.
\<close>

lemma Admits_within_limits:
  assumes "within_limits topo inflight" and "Admits topo inflight item"
  shows "within_limits topo (inflight @ [item])"
proof -
  have "within_limits topo (item # inflight)"
    using assms by (force simp: within_limits_def Admits_iff zless_imp_add1_zle add.commute)
  then show ?thesis
    by (simp add: within_limits_mset [of "inflight @ [item]" "item # inflight"])
qed

end
