(* ===== verification/WorkStore.thy ===== *)
theory WorkStore
  imports Admission
begin

text \<open>
  \<^verbatim>\<open>internal/orchestrator/state.go\<close>: the record kept beside one items file, its lock, its recovery at a
  start, its atomic write, and the paths all of these live at.

  The files are an association list from path to content. A content is the state document a write
  put there, or some other text; \<open>unmarshal\<close> is what the JSON decoder makes of other text. Which calls
  of the operating system fail is an argument, \<open>fault\<close>. A write that fails or is interrupted leaves
  the file truncated.
\<close>

section \<open>Records and paths\<close>

abbreviation StateBacklog :: string where "StateBacklog \<equiv> ''backlog''"
abbreviation StateDone :: string where "StateDone \<equiv> ''done''"
abbreviation StateFailed :: string where "StateFailed \<equiv> ''failed''"

record item_state =
  st_State :: string
  st_Why :: string
  st_Node :: string
  st_StartedAt :: string
  st_EndedAt :: string

type_synonym item_records = "(string, item_state) gomap"

definition stateFileFor :: "string \<Rightarrow> string" where
  "stateFileFor itemsPath = itemsPath @ ''.state.json''"

definition lockFileFor :: "string \<Rightarrow> string" where
  "lockFileFor itemsPath = itemsPath @ ''.lock''"

definition logDirFor :: "string \<Rightarrow> string" where
  "logDirFor itemsPath = itemsPath @ ''.logs''"

definition abortsDirFor :: "string \<Rightarrow> string" where
  "abortsDirFor itemsPath = itemsPath @ ''.aborts''"

definition ResolveItemDir :: "string \<Rightarrow> string \<Rightarrow> string" where
  "ResolveItemDir baseDir dir = (if baseDir = '''' \<or> is_abs dir then dir else path_join [baseDir, dir])"

definition ItemWorkspaceDir :: "string \<Rightarrow> string" where
  "ItemWorkspaceDir itemDir = path_join [itemDir, ''workspace'']"

definition ItemConfigDir :: "string \<Rightarrow> string" where
  "ItemConfigDir itemDir = path_join [itemDir, ''config'']"

definition ItemLogFile :: "string \<Rightarrow> string" where
  "ItemLogFile itemDir = path_join [itemDir, ''log'']"

definition LogPathFor :: "string \<Rightarrow> string \<Rightarrow> string" where
  "LogPathFor itemsPath name = path_join [logDirFor itemsPath, name @ ''.log'']"

section \<open>Files\<close>

datatype content = StateDoc "item_records option" | Text string

type_synonym files = "(string, content) gomap"

datatype os_error = Exists | NotExists | Fault string

datatype os_call =
    CallCreate string
  | CallRead string
  | CallWrite string
  | CallRemove string
  | CallRename string string
  | CallMkdir string

type_synonym faults = "os_call \<Rightarrow> string option"

definition create_excl :: "faults \<Rightarrow> string \<Rightarrow> files \<Rightarrow> os_error + files" where
  "create_excl fault path fs =
     (case fault (CallCreate path) of
        Some e \<Rightarrow> Inl (Fault e)
      | None \<Rightarrow>
          if map_of fs path \<noteq> None then Inl Exists else Inr (AList.update path (Text '''') fs))"

definition read_path :: "faults \<Rightarrow> string \<Rightarrow> files \<Rightarrow> os_error + content" where
  "read_path fault path fs =
     (case fault (CallRead path) of
        Some e \<Rightarrow> Inl (Fault e)
      | None \<Rightarrow> (case map_of fs path of None \<Rightarrow> Inl NotExists | Some c \<Rightarrow> Inr c))"

definition write_path :: "faults \<Rightarrow> string \<Rightarrow> content \<Rightarrow> files \<Rightarrow> os_error option \<times> files" where
  "write_path fault path c fs =
     (case fault (CallWrite path) of
        Some e \<Rightarrow> (Some (Fault e), AList.update path (Text '''') fs)
      | None \<Rightarrow> (None, AList.update path c fs))"

definition remove_path :: "faults \<Rightarrow> string \<Rightarrow> files \<Rightarrow> os_error option \<times> files" where
  "remove_path fault path fs =
     (case fault (CallRemove path) of
        Some e \<Rightarrow> (Some (Fault e), fs)
      | None \<Rightarrow> if map_of fs path = None then (Some NotExists, fs) else (None, AList.delete path fs))"

definition rename_path :: "faults \<Rightarrow> string \<Rightarrow> string \<Rightarrow> files \<Rightarrow> os_error option \<times> files" where
  "rename_path fault old new fs =
     (case fault (CallRename old new) of
        Some e \<Rightarrow> (Some (Fault e), fs)
      | None \<Rightarrow>
          (case map_of fs old of
             None \<Rightarrow> (Some NotExists, fs)
           | Some c \<Rightarrow> (None, AList.update new c (AList.delete old fs))))"

section \<open>The state file\<close>

datatype store_error =
    ReadingState os_error
  | NotARecord string
  | WritingState os_error
  | TakingLock os_error
  | ReadingLock os_error
  | AnotherOrchestrator int
  | RemovingStaleLock os_error
  | TakingOverLock os_error
  | NotAPid
  | OpeningLogDir string

text \<open>An absent file, and one whose \<^verbatim>\<open>items\<close> is null, are an empty record.\<close>

definition readStateFile ::
  "faults \<Rightarrow> (string \<Rightarrow> string + item_records option) \<Rightarrow> string \<Rightarrow> files \<Rightarrow> store_error + item_records" where
  "readStateFile fault unmarshal path fs =
     (case read_path fault path fs of
        Inl NotExists \<Rightarrow> Inr []
      | Inl e \<Rightarrow> Inl (ReadingState e)
      | Inr c \<Rightarrow>
          (case (case c of StateDoc d \<Rightarrow> Inr d | Text t \<Rightarrow> unmarshal t) of
             Inl e \<Rightarrow> Inl (NotARecord e)
           | Inr d \<Rightarrow> Inr (case d of None \<Rightarrow> [] | Some items \<Rightarrow> items)))"

definition writeStateFile ::
  "faults \<Rightarrow> string \<Rightarrow> item_records option \<Rightarrow> files \<Rightarrow> store_error option \<times> files" where
  "writeStateFile fault path sf fs =
     (let tmp = path @ ''.tmp'' in
      case write_path fault tmp (StateDoc sf) fs of
        (Some e, fs1) \<Rightarrow> (Some (WritingState e), fs1)
      | (None, fs1) \<Rightarrow>
          (case rename_path fault tmp path fs1 of
             (Some e, fs2) \<Rightarrow> (Some (WritingState e), snd (remove_path fault tmp fs2))
           | (None, fs2) \<Rightarrow> (None, fs2)))"

text \<open>
  What is on disk at each point of the write where the process can be cut off: before it, with the
  temporary file truncated, with it whole, and at the end.
\<close>

definition write_cuts :: "faults \<Rightarrow> string \<Rightarrow> item_records option \<Rightarrow> files \<Rightarrow> files list" where
  "write_cuts fault path sf fs =
     (let tmp = path @ ''.tmp''
      in [fs, AList.update tmp (Text '''') fs, snd (write_path fault tmp (StateDoc sf) fs),
          snd (writeStateFile fault path sf fs)])"

text \<open>A nil map is saved as an empty one.\<close>

definition SaveStateFile ::
  "faults \<Rightarrow> string \<Rightarrow> item_records option \<Rightarrow> files \<Rightarrow> store_error option \<times> files" where
  "SaveStateFile fault itemsPath items fs =
     writeStateFile fault (stateFileFor itemsPath) (Some (case items of None \<Rightarrow> [] | Some m \<Rightarrow> m)) fs"

definition LoadStateFile ::
  "faults \<Rightarrow> (string \<Rightarrow> string + item_records option) \<Rightarrow> string \<Rightarrow> files \<Rightarrow> store_error + item_records" where
  "LoadStateFile fault unmarshal itemsPath fs =
     readStateFile fault unmarshal (stateFileFor itemsPath) fs"

section \<open>The lock\<close>

definition lock_text :: "content \<Rightarrow> string" where
  "lock_text c = (case c of Text t \<Rightarrow> t | StateDoc _ \<Rightarrow> ''{'')"

text \<open>
  The two halves of the Go function: the claim of a lock that is not there, and, where one is there,
  the judgement of its holder and the takeover. The write of the pid is not checked, as in the code.
\<close>

definition write_pid :: "faults \<Rightarrow> nat \<Rightarrow> string \<Rightarrow> files \<Rightarrow> files" where
  "write_pid fault pid path fs = snd (write_path fault path (Text (show_nat pid)) fs)"

definition live_holder :: "(int \<Rightarrow> bool) \<Rightarrow> content \<Rightarrow> int option" where
  "live_holder alive c =
     (case scan_int (lock_text c) of
        None \<Rightarrow> None
      | Some holder \<Rightarrow> if alive holder then Some holder else None)"

definition take_over :: "faults \<Rightarrow> nat \<Rightarrow> string \<Rightarrow> files \<Rightarrow> (store_error + nat) \<times> files" where
  "take_over fault pid path fs =
     (case remove_path fault path fs of
        (Some e, fs1) \<Rightarrow> (Inl (RemovingStaleLock e), fs1)
      | (None, fs1) \<Rightarrow>
          (case create_excl fault path fs1 of
             Inl e \<Rightarrow> (Inl (TakingOverLock e), fs1)
           | Inr fs2 \<Rightarrow> (Inr pid, write_pid fault pid path fs2)))"

definition takeLock ::
  "faults \<Rightarrow> (int \<Rightarrow> bool) \<Rightarrow> nat \<Rightarrow> string \<Rightarrow> files \<Rightarrow> (store_error + nat) \<times> files" where
  "takeLock fault alive pid path fs =
     (case create_excl fault path fs of
        Inr fs1 \<Rightarrow> (Inr pid, write_pid fault pid path fs1)
      | Inl Exists \<Rightarrow>
          (case read_path fault path fs of
             Inl e \<Rightarrow> (Inl (ReadingLock e), fs)
           | Inr c \<Rightarrow>
               (case live_holder alive c of
                  Some holder \<Rightarrow> (Inl (AnotherOrchestrator holder), fs)
                | None \<Rightarrow> take_over fault pid path fs))
      | Inl e \<Rightarrow> (Inl (TakingLock e), fs))"

definition dropLock :: "faults \<Rightarrow> string \<Rightarrow> files \<Rightarrow> files" where
  "dropLock fault path fs = snd (remove_path fault path fs)"

definition LockStatus ::
  "faults \<Rightarrow> (int \<Rightarrow> bool) \<Rightarrow> string \<Rightarrow> files \<Rightarrow> store_error + int \<times> bool" where
  "LockStatus fault alive itemsPath fs =
     (case read_path fault (lockFileFor itemsPath) fs of
        Inl NotExists \<Rightarrow> Inr (0, False)
      | Inl e \<Rightarrow> Inl (ReadingLock e)
      | Inr c \<Rightarrow>
          (case scan_int (lock_text c) of
             None \<Rightarrow> Inl NotAPid
           | Some pid \<Rightarrow> Inr (pid, alive pid)))"

section \<open>Opening the store\<close>

record file_store =
  fs_statePath :: string
  fs_logsDir :: string
  fs_lockPath :: string
  fs_pid :: nat

definition interrupted :: "string \<Rightarrow> item_state \<Rightarrow> item_state" where
  "interrupted now st =
     (if st_State st \<noteq> StateRunning then st
      else st\<lparr>st_State := StateFailed, st_Why := ''the orchestrator stopped while it was running'',
        st_EndedAt := now\<rparr>)"

definition recover_records :: "string \<Rightarrow> item_records \<Rightarrow> item_records" where
  "recover_records now items = map (\<lambda>(k, st). (k, interrupted now st)) items"

definition OpenStore ::
  "faults \<Rightarrow> (int \<Rightarrow> bool) \<Rightarrow> nat \<Rightarrow> string \<Rightarrow> (string \<Rightarrow> string + item_records option) \<Rightarrow> string \<Rightarrow> files
    \<Rightarrow> (store_error + file_store) \<times> files" where
  "OpenStore fault alive pid now unmarshal itemsPath fs =
     (case takeLock fault alive pid (lockFileFor itemsPath) fs of
        (Inl e, fs1) \<Rightarrow> (Inl e, fs1)
      | (Inr p, fs1) \<Rightarrow>
          (let s = \<lparr>fs_statePath = stateFileFor itemsPath, fs_logsDir = logDirFor itemsPath,
                    fs_lockPath = lockFileFor itemsPath, fs_pid = p\<rparr>;
               release = dropLock fault (fs_lockPath s)
           in case fault (CallMkdir (fs_logsDir s)) of
                Some e \<Rightarrow> (Inl (OpeningLogDir e), release fs1)
              | None \<Rightarrow>
                  (case readStateFile fault unmarshal (fs_statePath s) fs1 of
                     Inl e \<Rightarrow> (Inl e, release fs1)
                   | Inr items \<Rightarrow>
                       if list_ex (\<lambda>(k, st). st_State st = StateRunning) items then
                         (case writeStateFile fault (fs_statePath s) (Some (recover_records now items)) fs1 of
                            (Some e, fs2) \<Rightarrow> (Inl e, release fs2)
                          | (None, fs2) \<Rightarrow> (Inr s, fs2))
                       else (Inr s, fs1))))"

definition Load ::
  "faults \<Rightarrow> (string \<Rightarrow> string + item_records option) \<Rightarrow> file_store \<Rightarrow> files \<Rightarrow> store_error + item_records" where
  "Load fault unmarshal s fs = readStateFile fault unmarshal (fs_statePath s) fs"

definition Save ::
  "faults \<Rightarrow> file_store \<Rightarrow> item_records option \<Rightarrow> files \<Rightarrow> store_error option \<times> files" where
  "Save fault s items fs =
     writeStateFile fault (fs_statePath s) (Some (case items of None \<Rightarrow> [] | Some m \<Rightarrow> m)) fs"

definition Close :: "faults \<Rightarrow> file_store \<Rightarrow> files \<Rightarrow> files" where
  "Close fault s fs = dropLock fault (fs_lockPath s) fs"

definition LogPath :: "file_store \<Rightarrow> string \<Rightarrow> string" where
  "LogPath s name = path_join [fs_logsDir s, name @ ''.log'']"

section \<open>A store keeps what was last saved\<close>

text \<open>
  What the run relies on of the seam \<^verbatim>\<open>Store\<close>: a save that succeeds is what a load then gives, and a
  save that fails leaves the record that was there.
\<close>

locale record_store =
  fixes load :: "'s \<Rightarrow> 'e + 'r" and save :: "'r \<Rightarrow> 's \<Rightarrow> 'x option \<times> 's"
  assumes load_saved: "save r s = (None, s') \<Longrightarrow> load s' = Inr r"
    and load_unsaved: "save r s = (Some e, s') \<Longrightarrow> load s' = load s"
begin

lemma load_after_save: "load (snd (save r s)) = load s \<or> load (snd (save r s)) = Inr r"
  by (cases "save r s"; cases "fst (save r s)") (auto dest: load_saved load_unsaved)

text \<open>However many saves there were and whichever failed, a load gives a record one of them gave.\<close>

lemma load_after_saves:
  "load (fold (\<lambda>r s. snd (save r s)) rs s) \<in> insert (load s) (Inr ` set rs)"
proof (induction rs arbitrary: s)
  case (Cons r rs)
  show ?case
    using Cons.IH [of "snd (save r s)"] load_after_save [of r s] by auto
qed simp

lemma last_save_wins:
  "save r (fold (\<lambda>r s. snd (save r s)) rs s) = (None, s') \<Longrightarrow> load s' = Inr r"
  by (rule load_saved)

end

definition no_fault :: faults where
  "no_fault c = None"

lemma no_fault_simp [simp]: "no_fault c = None"
  by (simp add: no_fault_def)

lemmas file_calls = create_excl_def read_path_def write_path_def remove_path_def rename_path_def

lemma tmp_other [simp]: "path @ ''.tmp'' \<noteq> path" "path \<noteq> path @ ''.tmp''"
  by auto

lemma read_path_only:
  "map_of fs path = map_of fs' path \<Longrightarrow>
     readStateFile fault un path fs = readStateFile fault un path fs'"
  by (simp add: readStateFile_def read_path_def split: option.split)

lemma readStateFile_doc:
  "map_of fs path = Some (StateDoc sf) \<Longrightarrow>
     readStateFile no_fault un path fs = Inr (case sf of None \<Rightarrow> [] | Some items \<Rightarrow> items)"
  by (simp add: readStateFile_def read_path_def)

lemma writeStateFile_ok:
  "writeStateFile fault path sf fs = (None, fs') \<Longrightarrow> map_of fs' path = Some (StateDoc sf)"
  by (auto simp: writeStateFile_def file_calls Let_def split: option.splits if_splits prod.splits)

lemma writeStateFile_failed:
  "writeStateFile fault path sf fs = (Some e, fs') \<Longrightarrow> map_of fs' path = map_of fs path"
  by (auto simp: writeStateFile_def file_calls Let_def split: option.splits if_splits prod.splits)

lemma writeStateFile_frame:
  "writeStateFile fault path sf fs = (r, fs') \<Longrightarrow> p \<noteq> path \<Longrightarrow> p \<noteq> path @ ''.tmp'' \<Longrightarrow>
     map_of fs' p = map_of fs p"
  by (auto simp: writeStateFile_def file_calls Let_def split: option.splits if_splits prod.splits)

interpretation state_file: record_store
  "readStateFile no_fault un path" "\<lambda>items. writeStateFile fault path (Some items)" for un path fault
  by unfold_locales
     (auto dest!: writeStateFile_ok writeStateFile_failed simp: readStateFile_doc intro: read_path_only)

text \<open>
  C33: the write of the state file is atomic. Wherever the process is cut off during it, and whichever
  call of it fails, what a later start reads is the record that was there or the new one.
\<close>

theorem state_write_atomic:
  "list_all (\<lambda>fs'. readStateFile no_fault un path fs' \<in>
      {readStateFile no_fault un path fs, Inr (case sf of None \<Rightarrow> [] | Some items \<Rightarrow> items)})
     (write_cuts fault path sf fs)"
proof -
  let ?fs' = "snd (writeStateFile fault path sf fs)"
  have "map_of ?fs' path = map_of fs path \<or> map_of ?fs' path = Some (StateDoc sf)"
    by (cases "writeStateFile fault path sf fs"; cases "fst (writeStateFile fault path sf fs)")
       (auto dest: writeStateFile_ok writeStateFile_failed)
  moreover have "map_of (snd (write_path fault (path @ ''.tmp'') c fs)) path = map_of fs path" for c
    by (simp add: write_path_def split: option.split)
  ultimately have "\<forall>fs' \<in> set (write_cuts fault path sf fs).
      map_of fs' path = map_of fs path \<or> map_of fs' path = Some (StateDoc sf)"
    by (simp add: write_cuts_def Let_def)
  then show ?thesis
    unfolding list_all_iff using read_path_only readStateFile_doc by blast
qed

section \<open>What a start recovers\<close>

lemma beside_distinct [simp]:
  "stateFileFor p \<noteq> lockFileFor p" "lockFileFor p \<noteq> stateFileFor p"
  "lockFileFor p \<noteq> stateFileFor p @ ''.tmp''"
  by (simp_all add: stateFileFor_def lockFileFor_def)

lemma map_of_recover_records:
  "map_of (recover_records now items) k = map_option (interrupted now) (map_of items k)"
  by (simp add: recover_records_def)

lemma keys_distinct_recover_records [simp]:
  "keys_distinct (recover_records now items) = keys_distinct items"
  by (simp add: recover_records_def)

lemma interrupted_not_running [simp]: "st_State (interrupted now st) \<noteq> StateRunning"
  by (simp add: interrupted_def)

lemma recover_records_none_running:
  "\<not> list_ex (\<lambda>(k, st). st_State st = StateRunning) items \<Longrightarrow> recover_records now items = items"
  by (auto simp: recover_records_def list_ex_iff interrupted_def intro!: map_idI)

lemma recover_records_none_left:
  "\<not> list_ex (\<lambda>(k, st). st_State st = StateRunning) (recover_records now items)"
  by (auto simp: recover_records_def list_ex_iff)

lemma takeLock_frame:
  "takeLock fault alive pid path fs = (r, fs') \<Longrightarrow> p \<noteq> path \<Longrightarrow> map_of fs' p = map_of fs p"
  by (auto simp: takeLock_def take_over_def write_pid_def file_calls
      split: option.splits if_splits prod.splits sum.splits os_error.splits)

lemma takeLock_pid: "takeLock fault alive pid path fs = (Inr p, fs') \<Longrightarrow> p = pid"
  by (auto simp: takeLock_def take_over_def split: option.splits prod.splits sum.splits os_error.splits)

lemma OpenStore_Inr:
  assumes "OpenStore fault alive pid now un itemsPath fs = (Inr s, fs')"
  shows "s = \<lparr>fs_statePath = stateFileFor itemsPath, fs_logsDir = logDirFor itemsPath,
      fs_lockPath = lockFileFor itemsPath, fs_pid = pid\<rparr>"
    and "\<exists>items. readStateFile fault un (stateFileFor itemsPath) fs = Inr items \<and>
      readStateFile no_fault un (stateFileFor itemsPath) fs' = Inr (recover_records now items)"
proof -
  let ?path = "stateFileFor itemsPath"
  from assms obtain fs1 items where lock: "takeLock fault alive pid (lockFileFor itemsPath) fs = (Inr pid, fs1)"
    and rd: "readStateFile fault un ?path fs1 = Inr items"
    and s: "s = \<lparr>fs_statePath = ?path, fs_logsDir = logDirFor itemsPath,
      fs_lockPath = lockFileFor itemsPath, fs_pid = pid\<rparr>"
    and cases: "if list_ex (\<lambda>(k, st). st_State st = StateRunning) items
      then writeStateFile fault ?path (Some (recover_records now items)) fs1 = (None, fs')
      else fs' = fs1"
    by (auto simp: OpenStore_def Let_def dest: takeLock_pid
        split: prod.splits sum.splits option.splits if_splits)
  from lock have same: "map_of fs1 ?path = map_of fs ?path" by (rule takeLock_frame) simp
  then have "readStateFile fault un ?path fs = Inr items"
    using rd read_path_only by metis
  moreover have "readStateFile no_fault un ?path fs1 = Inr items"
    using rd by (auto simp: readStateFile_def read_path_def split: option.splits sum.splits os_error.splits)
  then have "readStateFile no_fault un ?path fs' = Inr (recover_records now items)"
    using cases by (auto simp: recover_records_none_running split: if_splits dest: state_file.load_saved)
  ultimately show "\<exists>items. readStateFile fault un ?path fs = Inr items \<and>
      readStateFile no_fault un ?path fs' = Inr (recover_records now items)" by blast
  show "s = \<lparr>fs_statePath = ?path, fs_logsDir = logDirFor itemsPath,
      fs_lockPath = lockFileFor itemsPath, fs_pid = pid\<rparr>" by (rule s)
qed


definition one_running :: files where
  "one_running = [(''w.state.json'', StateDoc (Some [(''a'', \<lparr>st_State = StateRunning, st_Why = '''',
     st_Node = ''n'', st_StartedAt = ''t0'', st_EndedAt = ''''\<rparr>)]))]"

lemma show_nat_7 [simp]: "show_nat 7 = ''7''"
  by (subst show_nat.simps) (simp add: char_of_def bit_simps)


text \<open>A start that fails after it took the lock gives the lock back.\<close>

lemma dropLock_gone: "fault (CallRemove path) = None \<Longrightarrow> map_of (dropLock fault path fs) path = None"
  by (simp add: dropLock_def remove_path_def)

lemma OpenStore_failed:
  assumes "OpenStore fault alive pid now un itemsPath fs = (Inl e, fs')"
    and "fault (CallRemove (lockFileFor itemsPath)) = None"
    and "takeLock fault alive pid (lockFileFor itemsPath) fs = (Inr p, fs1)"
  shows "map_of fs' (lockFileFor itemsPath) = None"
  using assms dropLock_gone [of fault "lockFileFor itemsPath"]
  by (auto simp: OpenStore_def Let_def split: option.splits sum.splits if_splits prod.splits)

section \<open>Exclusion\<close>

lemma takeLock_writes_pid:
  assumes "takeLock fault alive pid path fs = (Inr p, fs')" and "fault (CallWrite path) = None"
  shows "map_of fs' path = Some (Text (show_nat pid))"
  using assms
  by (auto simp: takeLock_def take_over_def write_pid_def file_calls
      split: option.splits if_splits prod.splits sum.splits os_error.splits)

lemma takeLock_held:
  assumes "map_of fs path = Some (Text (show_nat pid))" and "int pid < 2 ^ 63" and "alive (int pid)"
    and "fault (CallCreate path) = None" and "fault (CallRead path) = None"
  shows "takeLock fault alive other path fs = (Inl (AnotherOrchestrator (int pid)), fs)"
  using assms by (simp add: takeLock_def create_excl_def read_path_def live_holder_def lock_text_def scan_show_nat)

text \<open>
  Once a start has taken the lock of an items file and while its process lives, a start that comes
  after it is refused, naming the holder, and touches nothing; once the process is gone the lock is
  taken over.
\<close>

theorem takeLock_exclusive:
  assumes "takeLock no_fault alive pid path fs = (Inr p, fs')" and "int pid < 2 ^ 63"
  shows "takeLock no_fault alive' other path fs' =
      (if alive' (int pid) then (Inl (AnotherOrchestrator (int pid)), fs')
       else (Inr other, AList.update path (Text (show_nat other))
          (AList.update path (Text '''') (AList.delete path fs'))))"
proof (cases "alive' (int pid)")
  case True
  then show ?thesis
    using takeLock_held [OF takeLock_writes_pid [OF assms(1)] assms(2)] by simp
next
  case False
  with takeLock_writes_pid [OF assms(1)] assms(2) show ?thesis
    by (simp add: takeLock_def take_over_def file_calls live_holder_def lock_text_def scan_show_nat
        write_pid_def)
qed

theorem takeLock_exclusive_witness:
  "takeLock no_fault (\<lambda>_. True) 8 ''w.lock'' (snd (takeLock no_fault (\<lambda>_. True) 7 ''w.lock'' []))
     = (Inl (AnotherOrchestrator 7), [(''w.lock'', Text ''7'')])"
proof -
  have t: "takeLock no_fault (\<lambda>_. True) 7 ''w.lock'' [] = (Inr 7, [(''w.lock'', Text ''7'')])"
    by (simp add: takeLock_def file_calls write_pid_def)
  show ?thesis
    using takeLock_exclusive [OF t, of "\<lambda>_. True" 8] by (simp add: t)
qed

text \<open>
  The same function one call at a time, for two starts that interleave: where a start stands between
  its calls.
\<close>

datatype lock_pc =
    LockCreate
  | LockRead
  | LockRemove
  | LockRecreate
  | LockWrite
  | LockHeld
  | LockRefused store_error

fun lock_step ::
  "faults \<Rightarrow> (int \<Rightarrow> bool) \<Rightarrow> nat \<Rightarrow> string \<Rightarrow> lock_pc \<times> files \<Rightarrow> lock_pc \<times> files" where
  "lock_step fault alive pid path (LockCreate, fs) =
     (case create_excl fault path fs of
        Inr fs1 \<Rightarrow> (LockWrite, fs1)
      | Inl Exists \<Rightarrow> (LockRead, fs)
      | Inl e \<Rightarrow> (LockRefused (TakingLock e), fs))"
| "lock_step fault alive pid path (LockRead, fs) =
     (case read_path fault path fs of
        Inl e \<Rightarrow> (LockRefused (ReadingLock e), fs)
      | Inr c \<Rightarrow>
          (case live_holder alive c of
             Some holder \<Rightarrow> (LockRefused (AnotherOrchestrator holder), fs)
           | None \<Rightarrow> (LockRemove, fs)))"
| "lock_step fault alive pid path (LockRemove, fs) =
     (case remove_path fault path fs of
        (Some e, fs1) \<Rightarrow> (LockRefused (RemovingStaleLock e), fs1)
      | (None, fs1) \<Rightarrow> (LockRecreate, fs1))"
| "lock_step fault alive pid path (LockRecreate, fs) =
     (case create_excl fault path fs of
        Inl e \<Rightarrow> (LockRefused (TakingOverLock e), fs)
      | Inr fs1 \<Rightarrow> (LockWrite, fs1))"
| "lock_step fault alive pid path (LockWrite, fs) = (LockHeld, write_pid fault pid path fs)"
| "lock_step fault alive pid path (LockHeld, fs) = (LockHeld, fs)"
| "lock_step fault alive pid path (LockRefused e, fs) = (LockRefused e, fs)"

text \<open>Alone, its calls make the function.\<close>

lemma lock_step_takeLock:
  "((lock_step fault alive pid path) ^^ 5) (LockCreate, fs) =
     (case takeLock fault alive pid path fs of
        (Inl e, fs') \<Rightarrow> (LockRefused e, fs')
      | (Inr p, fs') \<Rightarrow> (LockHeld, fs'))"
  by (auto simp: numeral_eq_Suc funpow_swap1 takeLock_def take_over_def
      split: sum.splits os_error.splits option.splits prod.splits)

text \<open>Two starts under a schedule; \<open>True\<close> lets the first take its next step.\<close>

fun run_locks ::
  "(int \<Rightarrow> bool) \<Rightarrow> nat \<Rightarrow> nat \<Rightarrow> string \<Rightarrow> bool list \<Rightarrow> lock_pc \<times> lock_pc \<times> files \<Rightarrow> lock_pc \<times> lock_pc \<times> files" where
  "run_locks alive p q path [] s = s"
| "run_locks alive p q path (True # bs) (a, b, fs) =
     (case lock_step no_fault alive p path (a, fs) of (a', fs') \<Rightarrow> run_locks alive p q path bs (a', b, fs'))"
| "run_locks alive p q path (False # bs) (a, b, fs) =
     (case lock_step no_fault alive q path (b, fs) of (b', fs') \<Rightarrow> run_locks alive p q path bs (a, b', fs'))"

text \<open>
  Two starts that overlap can both take the lock of one items file, with both processes alive: the
  second reads the lock between the first's creation of it and its write of the pid, takes the empty
  file for a stale lock, and takes it over. No lock stood there before.
\<close>

theorem takeLock_not_exclusive:
  "\<exists>fs. run_locks (\<lambda>_. True) 7 8 ''w.lock''
       [True, False, False, False, False, False, True] (LockCreate, LockCreate, []) = (LockHeld, LockHeld, fs)"
  by (simp add: file_calls live_holder_def lock_text_def scan_int_def write_pid_def)

end
