(* ===== verification/WorkList.thy ===== *)
theory WorkList
  imports WorkStore
begin

text \<open>
  \<^verbatim>\<open>internal/orchestrator/worklist.go\<close> and \<^verbatim>\<open>workfile.go\<close>: the shared work list, the run's pass over it and
  the operations of the API and of the commands beside the file.

  A child process is named by a number, in the order of launches. The goroutine that waits on a child
  is a member of \<open>wl_waits\<close>; when the child ends it moves to \<open>wl_results\<close>, where its result stands until
  the run takes it, as a send on the unbuffered channel does. A flight's \<^verbatim>\<open>done\<close> channel is closed
  exactly where its child is in \<open>wl_waits\<close> no more.

  The items file and the saved record are the document each holds; \<open>wl_disk_ok\<close> is whether writes to
  the disk succeed. \<open>wl_files\<close> holds the other files: kept outputs and rendered configs.
\<close>

section \<open>State\<close>

datatype items_doc = ItemsDoc "file_item list" | NotItems string

record flight =
  fl_item :: item
  fl_node :: topo_node
  fl_child :: nat

record child_result =
  cr_id :: string
  cr_err :: "string option"
  cr_child :: nat

record worklist =
  wl_items :: "item list"
  wl_records :: item_records
  wl_inflight :: "(string, flight) gomap"
  wl_stopping :: "string list"
  wl_waits :: "(nat \<times> string) list"
  wl_results :: "child_result list"
  wl_launched :: nat
  wl_last :: "int \<times> int"
  wl_itemsPath :: string
  wl_baseDir :: string
  wl_saved :: item_records
  wl_doc :: items_doc
  wl_stamp :: "int \<times> int"
  wl_files :: "(string, string) gomap"
  wl_disk_ok :: bool

datatype work_refusal =
    ErrInvalid item_error
  | ErrAlreadyCarried string
  | ErrEnded string string
  | ErrRunning string
  | ErrNotRunning string string
  | ErrNotFailed string string
  | ErrMissing string
  | ErrDisk string

datatype refusal_class = KindInvalid | KindConflict | KindMissing | KindOther

text \<open>Which of the three error types of the code a refusal is.\<close>

fun refusal_kind :: "work_refusal \<Rightarrow> refusal_class" where
  "refusal_kind (ErrInvalid e) = KindInvalid"
| "refusal_kind (ErrAlreadyCarried i) = KindConflict"
| "refusal_kind (ErrEnded i st) = KindConflict"
| "refusal_kind (ErrRunning i) = KindConflict"
| "refusal_kind (ErrNotRunning i st) = KindConflict"
| "refusal_kind (ErrNotFailed i st) = KindConflict"
| "refusal_kind (ErrMissing i) = KindMissing"
| "refusal_kind (ErrDisk e) = KindOther"

definition apiStatus :: "work_refusal \<Rightarrow> nat" where
  "apiStatus e = (case refusal_kind e of
     KindInvalid \<Rightarrow> 400 | KindConflict \<Rightarrow> 409 | KindMissing \<Rightarrow> 404 | KindOther \<Rightarrow> 500)"

section \<open>Reading and saving\<close>

definition carries :: "worklist \<Rightarrow> string \<Rightarrow> bool" where
  "carries w i = list_ex (\<lambda>it. it_ID it = i) (wl_items w)"

definition saveLocked :: "worklist \<Rightarrow> worklist" where
  "saveLocked w = (if wl_disk_ok w then w\<lparr>wl_saved := wl_records w\<rparr> else w)"

definition unmarshal_items :: "items_doc \<Rightarrow> string + file_item list" where
  "unmarshal_items d = (case d of ItemsDoc fs \<Rightarrow> Inr fs | NotItems e \<Rightarrow> Inl e)"

definition empty_worklist :: "string \<Rightarrow> string \<Rightarrow> worklist" where
  "empty_worklist itemsPath baseDir =
     \<lparr>wl_items = [], wl_records = [], wl_inflight = [], wl_stopping = [], wl_waits = [], wl_results = [],
      wl_launched = 0, wl_last = (0, 0), wl_itemsPath = itemsPath, wl_baseDir = baseDir, wl_saved = [],
      wl_doc = ItemsDoc [], wl_stamp = (0, 0), wl_files = [], wl_disk_ok = True\<rparr>"

text \<open>\<open>env\<close> is the disk the list opens on: its document, its stamp, its saved record, its files.\<close>

definition NewWorkList :: "worklist \<Rightarrow> item_error + worklist" where
  "NewWorkList env =
     (case ParseItems unmarshal_items (wl_doc env) of
        Inl e \<Rightarrow> Inl (ItemsFile (wl_itemsPath env) e)
      | Inr items \<Rightarrow>
          Inr (env\<lparr>wl_items := items, wl_records := wl_saved env, wl_inflight := [], wl_stopping := [],
                   wl_waits := [], wl_results := [], wl_launched := 0, wl_last := wl_stamp env\<rparr>))"

definition WithBaseDir :: "string \<Rightarrow> worklist \<Rightarrow> worklist" where
  "WithBaseDir dir w = w\<lparr>wl_baseDir := dir\<rparr>"

text \<open>The re-read in its two parts: what the file gives, outside the lock, and the view it becomes.\<close>

definition read_changed :: "worklist \<Rightarrow> (item_error + item list) option" where
  "read_changed w =
     (if wl_stamp w = wl_last w then None
      else Some (map_sum (ItemsFile (wl_itemsPath w)) id (ParseItems unmarshal_items (wl_doc w))))"

definition install_items :: "item list \<Rightarrow> int \<times> int \<Rightarrow> worklist \<Rightarrow> worklist" where
  "install_items items stamp w = w\<lparr>wl_items := items, wl_last := stamp\<rparr>"

definition refreshItems :: "worklist \<Rightarrow> item_error option \<times> worklist" where
  "refreshItems w =
     (case read_changed w of
        None \<Rightarrow> (None, w)
      | Some (Inl e) \<Rightarrow> (Some e, w)
      | Some (Inr items) \<Rightarrow> (None, install_items items (wl_stamp w) w))"

section \<open>The pass\<close>

definition pruneLocked :: "worklist \<Rightarrow> worklist" where
  "pruneLocked w =
     w\<lparr>wl_records := filter (\<lambda>(i, st). map_of (wl_inflight w) i \<noteq> None \<or> carries w i) (wl_records w)\<rparr>"

type_synonym launcher = "item \<Rightarrow> topo_node \<Rightarrow> string \<Rightarrow> string option"

definition ended_state :: "item_state \<Rightarrow> bool" where
  "ended_state st \<longleftrightarrow> st_State st = StateDone \<or> st_State st = StateFailed"

text \<open>The items the loop passes over before it looks for a node.\<close>

definition skipped :: "string list \<Rightarrow> item \<Rightarrow> worklist \<Rightarrow> bool" where
  "skipped suppressed it w \<longleftrightarrow>
     it_ID it \<in> set suppressed \<or>
     (case map_of (wl_records w) (it_ID it) of None \<Rightarrow> False | Some st \<Rightarrow> ended_state st) \<or>
     map_of (wl_inflight w) (it_ID it) \<noteq> None \<or>
     it_ID it \<in> set (wl_stopping w)"

definition inflight_items :: "worklist \<Rightarrow> item list" where
  "inflight_items w = map (fl_item \<circ> snd) (wl_inflight w)"

definition launch_failed :: "string \<Rightarrow> item \<Rightarrow> topo_node \<Rightarrow> string \<Rightarrow> worklist \<Rightarrow> worklist" where
  "launch_failed now it node e w =
     w\<lparr>wl_records := AList.update (it_ID it)
         \<lparr>st_State = StateFailed, st_Why = e, st_Node = tn_Name node, st_StartedAt = '''', st_EndedAt = now\<rparr>
         (wl_records w)\<rparr>"

definition launched :: "string \<Rightarrow> item \<Rightarrow> topo_node \<Rightarrow> worklist \<Rightarrow> worklist" where
  "launched now it node w =
     w\<lparr>wl_inflight := AList.update (it_ID it)
         \<lparr>fl_item = it, fl_node = node, fl_child = wl_launched w\<rparr> (wl_inflight w),
       wl_records := AList.update (it_ID it)
         \<lparr>st_State = StateRunning, st_Why = '''', st_Node = tn_Name node, st_StartedAt = now, st_EndedAt = ''''\<rparr>
         (wl_records w),
       wl_waits := wl_waits w @ [(wl_launched w, it_ID it)],
       wl_launched := Suc (wl_launched w)\<rparr>"

definition admit_item ::
  "(string \<Rightarrow> int option) \<Rightarrow> launcher \<Rightarrow> string \<Rightarrow> topology \<Rightarrow> string list \<Rightarrow> item \<Rightarrow> worklist \<Rightarrow> worklist" where
  "admit_item pt launch now topo suppressed it w =
     (if skipped suppressed it w then w
      else case Match pt it topo of
        [] \<Rightarrow> w
      | node # _ \<Rightarrow>
          if \<not> Admits topo (inflight_items w) it then w
          else (case launch it node (LogPathFor (wl_itemsPath w) (it_ID it)) of
                  Some e \<Rightarrow> launch_failed now it node e w
                | None \<Rightarrow> launched now it node w))"

definition pass ::
  "(string \<Rightarrow> int option) \<Rightarrow> launcher \<Rightarrow> string \<Rightarrow> topology \<Rightarrow> string list \<Rightarrow> worklist \<Rightarrow> worklist" where
  "pass pt launch now topo suppressed w =
     (let w0 = pruneLocked w
      in fold (admit_item pt launch now topo suppressed) (sortedForAdmission (wl_items w0)) w0)"

section \<open>The reap\<close>

definition finish :: "string \<Rightarrow> child_result \<Rightarrow> worklist \<Rightarrow> worklist" where
  "finish now r w =
     (case map_of (wl_inflight w) (cr_id r) of
        None \<Rightarrow> w
      | Some fl \<Rightarrow>
          w\<lparr>wl_inflight := AList.delete (cr_id r) (wl_inflight w),
            wl_records := AList.update (cr_id r)
              (case cr_err r of
                 None \<Rightarrow> \<lparr>st_State = StateDone, st_Why = '''', st_Node = tn_Name (fl_node fl),
                   st_StartedAt = '''', st_EndedAt = now\<rparr>
               | Some e \<Rightarrow> \<lparr>st_State = StateFailed, st_Why = e, st_Node = tn_Name (fl_node fl),
                   st_StartedAt = '''', st_EndedAt = now\<rparr>)
              (wl_records w)\<rparr>)"

definition reap :: "string \<Rightarrow> worklist \<Rightarrow> worklist" where
  "reap now w = fold (finish now) (wl_results w) (w\<lparr>wl_results := []\<rparr>)"

section \<open>The operations on the list\<close>

definition detachLocked :: "string \<Rightarrow> worklist \<Rightarrow> (flight \<times> worklist) option" where
  "detachLocked i w =
     (case map_of (wl_inflight w) i of
        None \<Rightarrow> None
      | Some fl \<Rightarrow>
          Some (fl, saveLocked (w\<lparr>wl_inflight := AList.delete i (wl_inflight w),
                                 wl_records := AList.delete i (wl_records w)\<rparr>)))"

text \<open>
  The API's abort up to the point where it waits for the child, and what it does when the child has
  ended; between the two the lock is free.
\<close>

definition Abort_begin :: "string \<Rightarrow> worklist \<Rightarrow> work_refusal + (flight \<times> worklist)" where
  "Abort_begin i w =
     (case detachLocked i w of
        None \<Rightarrow>
          (let state = (case map_of (wl_records w) i of None \<Rightarrow> '''' | Some r \<Rightarrow> st_State r)
           in if state = '''' \<and> \<not> carries w i then Inl (ErrMissing i)
              else Inl (ErrNotRunning i (if state = '''' then StateBacklog else state)))
      | Some (fl, w') \<Rightarrow> Inr (fl, w'\<lparr>wl_stopping := List.insert i (wl_stopping w')\<rparr>))"

definition Abort_end :: "string \<Rightarrow> worklist \<Rightarrow> worklist" where
  "Abort_end i w = w\<lparr>wl_stopping := removeAll i (wl_stopping w)\<rparr>"

definition Retry :: "string \<Rightarrow> worklist \<Rightarrow> work_refusal option \<times> worklist" where
  "Retry i w =
     (if \<not> carries w i then (Some (ErrMissing i), w)
      else
        (let state = (case map_of (wl_records w) i of None \<Rightarrow> StateBacklog | Some r \<Rightarrow> st_State r)
         in if state \<noteq> StateFailed then (Some (ErrNotFailed i state), w)
            else (None, saveLocked (w\<lparr>wl_records := AList.delete i (wl_records w)\<rparr>))))"

text \<open>The items file rewritten atomically; \<open>stamp\<close> is the mtime and size it then has.\<close>

definition writeItemsFile :: "file_item list \<Rightarrow> int \<times> int \<Rightarrow> worklist \<Rightarrow> work_refusal option \<times> worklist" where
  "writeItemsFile fs stamp w =
     (if wl_disk_ok w then (None, w\<lparr>wl_doc := ItemsDoc fs, wl_stamp := stamp\<rparr>)
      else (Some (ErrDisk (wl_itemsPath w)), w))"

definition add_write ::
  "int \<times> int \<Rightarrow> item \<Rightarrow> worklist \<Rightarrow> work_refusal option \<times> worklist" where
  "add_write stamp it w =
     (case writeItemsFile (map fileItemFromItem (wl_items w) @ [fileItemFromItem it]) stamp w of
        (Some e, w') \<Rightarrow> (Some e, w')
      | (None, w') \<Rightarrow> (None, w'\<lparr>wl_items := wl_items w' @ [it]\<rparr>))"

definition Add :: "int \<times> int \<Rightarrow> item \<Rightarrow> worklist \<Rightarrow> work_refusal option \<times> worklist" where
  "Add stamp it w =
     (let f = fileItemFromItem it in
      if fi_ID f = '''' then (Some (ErrInvalid (HasNoId 0)), w)
      else case checkItem f of
        Some e \<Rightarrow> (Some (ErrInvalid e), w)
      | None \<Rightarrow>
          if carries w (it_ID it) then (Some (ErrAlreadyCarried (it_ID it)), w)
          else (case map_of (wl_records w) (it_ID it) of
              Some st \<Rightarrow>
                if ended_state st then (Some (ErrEnded (it_ID it) (st_State st)), w)
                else add_write stamp it w
            | None \<Rightarrow> add_write stamp it w))"

definition os_Remove :: "string \<Rightarrow> (string, string) gomap \<Rightarrow> (string, string) gomap" where
  "os_Remove path files = AList.delete path files"

definition os_RemoveAll :: "string \<Rightarrow> (string, string) gomap \<Rightarrow> (string, string) gomap" where
  "os_RemoveAll dir files = filter (\<lambda>(p, _). p \<noteq> dir \<and> \<not> prefix (dir @ ''/'') p) files"

definition Remove :: "int \<times> int \<Rightarrow> string \<Rightarrow> worklist \<Rightarrow> work_refusal option \<times> worklist" where
  "Remove stamp i w =
     (if map_of (wl_inflight w) i \<noteq> None then (Some (ErrRunning i), w)
      else
        (let kept = filter (\<lambda>it. it_ID it \<noteq> i) (wl_items w);
             hits = filter (\<lambda>it. it_ID it = i) (wl_items w)
         in if hits = [] then (Some (ErrMissing i), w)
            else (case writeItemsFile (map fileItemFromItem kept) stamp w of
                (Some e, w1) \<Rightarrow> (Some e, w1)
              | (None, w1) \<Rightarrow>
                  (let w2 = saveLocked (w1\<lparr>wl_items := kept, wl_records := AList.delete i (wl_records w1)\<rparr>);
                       dir = ResolveItemDir (wl_baseDir w2) (it_Dir (last hits))
                   in (None, w2\<lparr>wl_files :=
                         os_Remove (ItemLogFile dir)
                           (os_RemoveAll (ItemConfigDir dir)
                             (os_Remove (LogPathFor (wl_itemsPath w2) i) (wl_files w2)))\<rparr>)))))"

text \<open>The kept output: no text is an answer, an id the file does not carry is a miss.\<close>

definition Log :: "string \<Rightarrow> worklist \<Rightarrow> work_refusal + string option" where
  "Log i w =
     (if \<not> carries w i then Inl (ErrMissing i)
      else Inr (map_of (wl_files w) (LogPathFor (wl_itemsPath w) i)))"

record item_view =
  iv_ID :: string
  iv_Instructions :: string
  iv_Dir :: string
  iv_Tags :: "string list"
  iv_Priority :: int
  iv_State :: string
  iv_Node :: string
  iv_Why :: string
  iv_StartedAt :: string
  iv_EndedAt :: string

definition Join :: "item list \<Rightarrow> item_records \<Rightarrow> item_view list" where
  "Join items records =
     map (\<lambda>it. let v = \<lparr>iv_ID = it_ID it, iv_Instructions = it_Instructions it, iv_Dir = it_Dir it,
                    iv_Tags = it_Tags it, iv_Priority = it_Priority it, iv_State = StateBacklog,
                    iv_Node = '''', iv_Why = '''', iv_StartedAt = '''', iv_EndedAt = ''''\<rparr>
               in case map_of records (it_ID it) of
                    None \<Rightarrow> v
                  | Some st \<Rightarrow> v\<lparr>iv_State := st_State st, iv_Node := st_Node st, iv_Why := st_Why st,
                      iv_StartedAt := st_StartedAt st, iv_EndedAt := st_EndedAt st\<rparr>)
       items"

definition List_work :: "worklist \<Rightarrow> item_view list" where
  "List_work w = Join (wl_items w) (wl_records w)"

section \<open>The clean interrupt\<close>

text \<open>The records of what is in flight go and the state is saved; then each result frees its slot.\<close>

definition shutdown_begin :: "worklist \<Rightarrow> worklist" where
  "shutdown_begin w =
     saveLocked (w\<lparr>wl_records := filter (\<lambda>(i, st). map_of (wl_inflight w) i = None) (wl_records w)\<rparr>)"

definition dropFlight :: "string \<Rightarrow> worklist \<Rightarrow> worklist" where
  "dropFlight i w = w\<lparr>wl_inflight := AList.delete i (wl_inflight w)\<rparr>"

definition inflightCount :: "worklist \<Rightarrow> nat" where
  "inflightCount w = length (wl_inflight w)"

section \<open>The commands beside the file\<close>

definition ValidateItem :: "item \<Rightarrow> item_error option" where
  "ValidateItem it = validateItemFields (it_ID it) (it_Instructions it) (it_Dir it) (it_Tags it)"

definition SaveItems :: "int \<times> int \<Rightarrow> item list \<Rightarrow> worklist \<Rightarrow> work_refusal option \<times> worklist" where
  "SaveItems stamp items w =
     (let fs = map fileItemFromItem items in
      case ParseItems unmarshal_items (ItemsDoc fs) of
        Inl e \<Rightarrow> (Some (ErrInvalid (ItemsFile (wl_itemsPath w) e)), w)
      | Inr _ \<Rightarrow> writeItemsFile fs stamp w)"

definition abort_marker :: "string \<Rightarrow> string \<Rightarrow> string" where
  "abort_marker itemsPath i = path_join [abortsDirFor itemsPath, i]"

text \<open>A marker already standing is no fault.\<close>

definition RequestAbort :: "string \<Rightarrow> string \<Rightarrow> (string, string) gomap \<Rightarrow> (string, string) gomap" where
  "RequestAbort itemsPath i files =
     (if map_of files (abort_marker itemsPath i) \<noteq> None then files
      else AList.update (abort_marker itemsPath i) '''' files)"

text \<open>The names of the plain files directly below the marker directory, in the order of a listing.\<close>

definition AbortsPending :: "string \<Rightarrow> (string, string) gomap \<Rightarrow> string list" where
  "AbortsPending itemsPath files =
     (let dir = abortsDirFor itemsPath @ ''/''
      in sort (filter (\<lambda>e. e \<noteq> '''' \<and> CHR ''/'' \<notin> set e)
           (map (\<lambda>(p, _). drop (length dir) p) (filter (\<lambda>(p, _). prefix dir p) files))))"

section \<open>The invariant\<close>

definition running_record :: "item_state option \<Rightarrow> bool" where
  "running_record r \<longleftrightarrow> (case r of None \<Rightarrow> False | Some st \<Rightarrow> st_State st = StateRunning)"

lemma running_record_simps [simp]:
  "\<not> running_record None" "running_record (Some st) \<longleftrightarrow> st_State st = StateRunning"
  by (simp_all add: running_record_def)

text \<open>The records say running exactly of what is in flight.\<close>

definition records_ok :: "worklist \<Rightarrow> bool" where
  "records_ok w \<longleftrightarrow>
     keys_distinct (wl_records w) \<and> keys_distinct (wl_inflight w) \<and>
     (\<forall>i. running_record (map_of (wl_records w) i) \<longleftrightarrow> map_of (wl_inflight w) i \<noteq> None)"

text \<open>A flight stands under its item's id, and no two flights share a child.\<close>

definition flights_ok :: "worklist \<Rightarrow> bool" where
  "flights_ok w \<longleftrightarrow>
     (\<forall>i fl. map_of (wl_inflight w) i = Some fl \<longrightarrow>
        it_ID (fl_item fl) = i \<and> fl_child fl < wl_launched w) \<and>
     (\<forall>i j fl gl. map_of (wl_inflight w) i = Some fl \<longrightarrow> map_of (wl_inflight w) j = Some gl \<longrightarrow>
        fl_child fl = fl_child gl \<longrightarrow> i = j)"

definition stopping_ok :: "worklist \<Rightarrow> bool" where
  "stopping_ok w \<longleftrightarrow> (\<forall>i \<in> set (wl_stopping w). map_of (wl_inflight w) i = None)"

definition items_ok :: "worklist \<Rightarrow> bool" where
  "items_ok w \<longleftrightarrow> list_all valid_item (wl_items w) \<and> distinct (map it_ID (wl_items w))"

definition wl_inv :: "worklist \<Rightarrow> bool" where
  "wl_inv w \<longleftrightarrow> records_ok w \<and> flights_ok w \<and> stopping_ok w \<and> items_ok w"

named_theorems worklist_ops
declare saveLocked_def [worklist_ops] pruneLocked_def [worklist_ops] launch_failed_def [worklist_ops]
  launched_def [worklist_ops] install_items_def [worklist_ops] Abort_end_def [worklist_ops]
  dropFlight_def [worklist_ops] writeItemsFile_def [worklist_ops]

lemma saveLocked_simps [simp]:
  "wl_items (saveLocked w) = wl_items w" "wl_records (saveLocked w) = wl_records w"
  "wl_inflight (saveLocked w) = wl_inflight w" "wl_stopping (saveLocked w) = wl_stopping w"
  "wl_waits (saveLocked w) = wl_waits w" "wl_results (saveLocked w) = wl_results w"
  "wl_launched (saveLocked w) = wl_launched w" "wl_doc (saveLocked w) = wl_doc w"
  "wl_itemsPath (saveLocked w) = wl_itemsPath w" "wl_baseDir (saveLocked w) = wl_baseDir w"
  "wl_files (saveLocked w) = wl_files w" "wl_disk_ok (saveLocked w) = wl_disk_ok w"
  by (simp_all add: saveLocked_def)

lemma wl_inv_cong:
  "wl_items w' = wl_items w \<Longrightarrow> wl_records w' = wl_records w \<Longrightarrow> wl_inflight w' = wl_inflight w \<Longrightarrow>
   wl_stopping w' = wl_stopping w \<Longrightarrow> wl_launched w' = wl_launched w \<Longrightarrow> wl_inv w' = wl_inv w"
  by (simp add: wl_inv_def records_ok_def flights_ok_def stopping_ok_def items_ok_def)

lemma wl_inv_saveLocked [simp]: "wl_inv (saveLocked w) = wl_inv w"
  by (rule wl_inv_cong) simp_all

lemma pruneLocked_record:
  "keys_distinct (wl_records w) \<Longrightarrow> map_of (wl_records (pruneLocked w)) i =
     (if map_of (wl_inflight w) i \<noteq> None \<or> carries w i then map_of (wl_records w) i else None)"
  by (simp add: pruneLocked_def map_of_filter_distinct split: option.split)

lemma pruneLocked_simps [simp]:
  "wl_items (pruneLocked w) = wl_items w" "wl_inflight (pruneLocked w) = wl_inflight w"
  "wl_stopping (pruneLocked w) = wl_stopping w" "wl_launched (pruneLocked w) = wl_launched w"
  "wl_waits (pruneLocked w) = wl_waits w" "wl_results (pruneLocked w) = wl_results w"
  "wl_itemsPath (pruneLocked w) = wl_itemsPath w"
  "carries (pruneLocked w) i = carries w i"
  by (simp_all add: pruneLocked_def carries_def)

lemma wl_inv_pruneLocked: "wl_inv w \<Longrightarrow> wl_inv (pruneLocked w)"
  by (auto simp: wl_inv_def records_ok_def flights_ok_def stopping_ok_def items_ok_def pruneLocked_record)
     (simp add: pruneLocked_def)

lemma wl_inv_launch_failed:
  "wl_inv w \<Longrightarrow> map_of (wl_inflight w) (it_ID it) = None \<Longrightarrow> wl_inv (launch_failed now it node e w)"
  by (auto simp: wl_inv_def records_ok_def flights_ok_def stopping_ok_def items_ok_def launch_failed_def)

lemma wl_inv_launched:
  assumes "wl_inv w" and "map_of (wl_inflight w) (it_ID it) = None" and "it_ID it \<notin> set (wl_stopping w)"
  shows "wl_inv (launched now it node w)"
proof -
  have "flights_ok (launched now it node w)"
    using assms by (force simp: wl_inv_def flights_ok_def launched_def less_Suc_eq)
  moreover have "records_ok (launched now it node w)" "stopping_ok (launched now it node w)"
    "items_ok (launched now it node w)"
    using assms by (auto simp: wl_inv_def records_ok_def stopping_ok_def items_ok_def launched_def)
  ultimately show ?thesis by (simp add: wl_inv_def)
qed

lemma skipped_not_inflight: "\<not> skipped supp it w \<Longrightarrow> map_of (wl_inflight w) (it_ID it) = None"
  by (simp add: skipped_def)

lemma skipped_not_stopping: "\<not> skipped supp it w \<Longrightarrow> it_ID it \<notin> set (wl_stopping w)"
  by (simp add: skipped_def)

text \<open>What considering one item comes to: nothing, a failed launch, or a launch.\<close>

lemma admit_item_cases [case_names unchanged failed launched]:
  obtains "admit_item pt launch now topo supp it w = w"
      "skipped supp it w \<or> Match pt it topo = [] \<or> \<not> Admits topo (inflight_items w) it"
  | node ns e where "admit_item pt launch now topo supp it w = launch_failed now it node e w"
      "\<not> skipped supp it w" "Match pt it topo = node # ns" "Admits topo (inflight_items w) it"
      "launch it node (LogPathFor (wl_itemsPath w) (it_ID it)) = Some e"
  | node ns where "admit_item pt launch now topo supp it w = launched now it node w"
      "\<not> skipped supp it w" "Match pt it topo = node # ns" "Admits topo (inflight_items w) it"
      "launch it node (LogPathFor (wl_itemsPath w) (it_ID it)) = None"
proof (cases "skipped supp it w \<or> Match pt it topo = [] \<or> \<not> Admits topo (inflight_items w) it")
  case True
  then show thesis
    by (intro that(1)) (auto simp: admit_item_def split: list.splits)
next
  case False
  then obtain node ns where m: "Match pt it topo = node # ns" by (cases "Match pt it topo") auto
  show thesis
  proof (cases "launch it node (LogPathFor (wl_itemsPath w) (it_ID it))")
    case None
    with False m show thesis by (intro that(3) [of node ns]) (simp_all add: admit_item_def)
  next
    case (Some e)
    with False m show thesis by (intro that(2) [of node e ns]) (simp_all add: admit_item_def)
  qed
qed

lemma wl_inv_admit_item:
  assumes "wl_inv w" shows "wl_inv (admit_item pt launch now topo supp it w)"
  by (rule admit_item_cases [where pt = pt and launch = launch and now = now and topo = topo
        and supp = supp and it = it and w = w])
     (simp_all add: assms wl_inv_launch_failed wl_inv_launched skipped_not_inflight skipped_not_stopping)

lemma wl_inv_fold_admit:
  "wl_inv w \<Longrightarrow> wl_inv (fold (admit_item pt launch now topo supp) its w)"
  by (induction its arbitrary: w) (auto simp: wl_inv_admit_item)

lemma wl_inv_pass: "wl_inv w \<Longrightarrow> wl_inv (pass pt launch now topo supp w)"
  by (simp add: pass_def Let_def wl_inv_fold_admit wl_inv_pruneLocked)

lemma wl_inv_finish: "wl_inv w \<Longrightarrow> wl_inv (finish now r w)"
  by (auto simp: wl_inv_def records_ok_def flights_ok_def stopping_ok_def items_ok_def finish_def
      split: option.splits)

lemma wl_inv_fold_finish: "wl_inv w \<Longrightarrow> wl_inv (fold (finish now) rs w)"
  by (induction rs arbitrary: w) (auto simp: wl_inv_finish)

lemma wl_inv_reap: "wl_inv w \<Longrightarrow> wl_inv (reap now w)"
  unfolding reap_def by (rule wl_inv_fold_finish) (simp cong: wl_inv_cong)

subsection \<open>Every operation keeps it\<close>

lemma detachLocked_Some:
  "detachLocked i w = Some (fl, w') \<longleftrightarrow>
     map_of (wl_inflight w) i = Some fl \<and>
     w' = saveLocked (w\<lparr>wl_inflight := AList.delete i (wl_inflight w),
                       wl_records := AList.delete i (wl_records w)\<rparr>)"
  by (auto simp: detachLocked_def split: option.splits)

lemma detachLocked_None: "detachLocked i w = None \<longleftrightarrow> map_of (wl_inflight w) i = None"
  by (auto simp: detachLocked_def split: option.splits)

lemma wl_inv_detachLocked: "wl_inv w \<Longrightarrow> detachLocked i w = Some (fl, w') \<Longrightarrow> wl_inv w'"
  by (auto simp: detachLocked_Some wl_inv_def records_ok_def flights_ok_def stopping_ok_def items_ok_def
      split: if_splits)

lemma Abort_begin_Inr:
  "Abort_begin i w = Inr (fl, w') \<longleftrightarrow>
     (\<exists>w1. detachLocked i w = Some (fl, w1) \<and> w' = w1\<lparr>wl_stopping := List.insert i (wl_stopping w1)\<rparr>)"
  by (auto simp: Abort_begin_def Let_def split: option.splits if_splits)

lemma wl_inv_stopping_insert:
  "wl_inv w \<Longrightarrow> map_of (wl_inflight w) i = None \<Longrightarrow>
     wl_inv (w\<lparr>wl_stopping := List.insert i (wl_stopping w)\<rparr>)"
  by (auto simp: wl_inv_def records_ok_def flights_ok_def stopping_ok_def items_ok_def)

lemma detachLocked_gone: "detachLocked i w = Some (fl, w') \<Longrightarrow> map_of (wl_inflight w') i = None"
  by (auto simp: detachLocked_Some)

lemma wl_inv_Abort_begin: "wl_inv w \<Longrightarrow> Abort_begin i w = Inr (fl, w') \<Longrightarrow> wl_inv w'"
  by (auto simp: Abort_begin_Inr intro: wl_inv_stopping_insert wl_inv_detachLocked detachLocked_gone)

lemma wl_inv_Abort_end: "wl_inv w \<Longrightarrow> wl_inv (Abort_end i w)"
  by (auto simp: wl_inv_def records_ok_def flights_ok_def stopping_ok_def items_ok_def Abort_end_def)

lemma wl_inv_drop_record:
  "wl_inv w \<Longrightarrow> map_of (wl_inflight w) i = None \<Longrightarrow> wl_inv (w\<lparr>wl_records := AList.delete i (wl_records w)\<rparr>)"
  by (auto simp: wl_inv_def records_ok_def flights_ok_def stopping_ok_def items_ok_def)

lemma wl_inv_not_running:
  "wl_inv w \<Longrightarrow> map_of (wl_inflight w) i = None \<longleftrightarrow> \<not> running_record (map_of (wl_records w) i)"
  by (simp add: wl_inv_def records_ok_def)

lemma wl_inv_Retry: "wl_inv w \<Longrightarrow> wl_inv (snd (Retry i w))"
  by (auto simp: Retry_def Let_def wl_inv_not_running intro!: wl_inv_drop_record split: option.splits if_splits)

lemma checkItem_fileItemFromItem:
  "it_ID it \<noteq> '''' \<Longrightarrow> checkItem (fileItemFromItem it) = None \<longleftrightarrow> valid_item it"
  by (simp add: checkItem_None fileItemFromItem_def [of it] del: valid_fileItemFromItem)
     (simp add: item_of_file_def valid_item_def)

lemma carries_iff: "carries w i \<longleftrightarrow> i \<in> it_ID ` set (wl_items w)"
  by (auto simp: carries_def list_ex_iff)

lemma wl_inv_items:
  "wl_inv w \<Longrightarrow> list_all valid_item items \<Longrightarrow> distinct (map it_ID items) \<Longrightarrow> wl_inv (w\<lparr>wl_items := items\<rparr>)"
  by (simp add: wl_inv_def records_ok_def flights_ok_def stopping_ok_def items_ok_def)

lemma wl_inv_items_ok: "wl_inv w \<Longrightarrow> list_all valid_item (wl_items w) \<and> distinct (map it_ID (wl_items w))"
  by (simp add: wl_inv_def items_ok_def)

lemma wl_inv_disk [simp]:
  "wl_inv (w\<lparr>wl_doc := d\<rparr>) = wl_inv w" "wl_inv (w\<lparr>wl_stamp := t\<rparr>) = wl_inv w"
  "wl_inv (w\<lparr>wl_files := f\<rparr>) = wl_inv w" "wl_inv (w\<lparr>wl_last := t\<rparr>) = wl_inv w"
  "wl_inv (w\<lparr>wl_disk_ok := b\<rparr>) = wl_inv w" "wl_inv (w\<lparr>wl_waits := ws\<rparr>) = wl_inv w"
  "wl_inv (w\<lparr>wl_results := rs\<rparr>) = wl_inv w"
  by (rule wl_inv_cong; simp)+

lemma fileItemFromItem_ID [simp]: "fi_ID (fileItemFromItem it) = it_ID it"
  by (simp add: fileItemFromItem_def)

lemma Add_None:
  "Add stamp it w = (None, w') \<longleftrightarrow>
     valid_item it \<and> \<not> carries w (it_ID it) \<and> wl_disk_ok w \<and>
     (\<forall>st. map_of (wl_records w) (it_ID it) = Some st \<longrightarrow> \<not> ended_state st) \<and>
     w' = w\<lparr>wl_doc := ItemsDoc (map fileItemFromItem (wl_items w @ [it])), wl_stamp := stamp,
           wl_items := wl_items w @ [it]\<rparr>"
  using checkItem_fileItemFromItem [of it]
  by (auto simp: Add_def add_write_def writeItemsFile_def Let_def valid_item_def split: option.splits if_splits)

lemma Add_refused: "Add stamp it w = (Some e, w') \<Longrightarrow> w' = w"
  by (auto simp: Add_def add_write_def writeItemsFile_def Let_def split: option.splits if_splits)

lemma wl_inv_Add:
  assumes "wl_inv w" and "Add stamp it w = (r, w')" shows "wl_inv w'"
proof (cases r)
  case None
  with assms wl_inv_items_ok [of w] show ?thesis
    by (auto simp: Add_None carries_iff intro!: wl_inv_items)
qed (use assms in \<open>auto dest: Add_refused\<close>)

lemma Remove_None:
  "Remove stamp i w = (None, w') \<longleftrightarrow>
     map_of (wl_inflight w) i = None \<and> carries w i \<and> wl_disk_ok w \<and>
     (let kept = filter (\<lambda>it. it_ID it \<noteq> i) (wl_items w);
          w2 = w\<lparr>wl_doc := ItemsDoc (map fileItemFromItem kept), wl_stamp := stamp, wl_items := kept,
                 wl_records := AList.delete i (wl_records w), wl_saved := AList.delete i (wl_records w)\<rparr>;
          dir = ResolveItemDir (wl_baseDir w) (it_Dir (last (filter (\<lambda>it. it_ID it = i) (wl_items w))))
      in w' = w2\<lparr>wl_files := os_Remove (ItemLogFile dir) (os_RemoveAll (ItemConfigDir dir)
                 (os_Remove (LogPathFor (wl_itemsPath w) i) (wl_files w)))\<rparr>)"
  by (auto simp: Remove_def writeItemsFile_def saveLocked_def carries_def list_ex_iff filter_empty_conv
      Let_def split: if_splits)

lemma Remove_refused: "Remove stamp i w = (Some e, w') \<Longrightarrow> w' = w"
  by (auto simp: Remove_def writeItemsFile_def Let_def split: option.splits if_splits)

lemma wl_inv_Remove:
  assumes inv: "wl_inv w" and r: "Remove stamp i w = (r, w')" shows "wl_inv w'"
proof (cases r)
  case None
  let ?kept = "filter (\<lambda>it. it_ID it \<noteq> i) (wl_items w)"
  from None r have "map_of (wl_inflight w) i = None" by (simp add: Remove_None)
  moreover have "wl_inv (w\<lparr>wl_items := ?kept\<rparr>)"
    using inv wl_inv_items_ok [of w] by (intro wl_inv_items) (auto simp: list_all_iff distinct_map inj_on_def)
  ultimately have "wl_inv (w\<lparr>wl_items := ?kept, wl_records := AList.delete i (wl_records w)\<rparr>)"
    using wl_inv_drop_record [of "w\<lparr>wl_items := ?kept\<rparr>" i] by simp
  moreover have "wl_items w' = ?kept" "wl_records w' = AList.delete i (wl_records w)"
    "wl_inflight w' = wl_inflight w" "wl_stopping w' = wl_stopping w" "wl_launched w' = wl_launched w"
    using None r by (simp_all add: Remove_None Let_def)
  ultimately show ?thesis
    by (subst wl_inv_cong) simp_all
qed (use assms in \<open>auto dest: Remove_refused\<close>)

lemma read_changed_items:
  "read_changed w = Some (Inr items) \<Longrightarrow> list_all valid_item items \<and> distinct (map it_ID items)"
  using ParseItems_Inr [of unmarshal_items "wl_doc w"]
  by (cases "ParseItems unmarshal_items (wl_doc w)") (simp_all add: read_changed_def split: if_splits)

lemma wl_inv_install:
  "wl_inv w \<Longrightarrow> list_all valid_item items \<Longrightarrow> distinct (map it_ID items) \<Longrightarrow> wl_inv (install_items items stamp w)"
  by (simp add: install_items_def wl_inv_items)

lemma wl_inv_refreshItems: "wl_inv w \<Longrightarrow> wl_inv (snd (refreshItems w))"
  by (auto simp: refreshItems_def split: option.splits sum.splits dest: read_changed_items intro: wl_inv_install)

lemma wl_inv_SaveItems: "wl_inv w \<Longrightarrow> wl_inv (snd (SaveItems stamp items w))"
  by (auto simp: SaveItems_def writeItemsFile_def Let_def split: sum.splits)

lemma NewWorkList_inv:
  assumes "NewWorkList env = Inr w" and "keys_distinct (wl_saved env)"
    and "\<not> list_ex (\<lambda>(k, st). st_State st = StateRunning) (wl_saved env)"
  shows "wl_inv w"
proof -
  have "\<not> running_record (map_of (wl_saved env) i)" for i
    using assms(3) by (cases "map_of (wl_saved env) i") (auto simp: list_ex_iff dest: map_of_SomeD)
  then show ?thesis
    using assms(1,2)
    by (auto simp: NewWorkList_def ParseItems_Inr wl_inv_def records_ok_def flights_ok_def stopping_ok_def
        items_ok_def split: sum.splits)
qed

section \<open>What a pass does\<close>

lemma inflight_items_launched:
  "map_of (wl_inflight w) (it_ID it) = None \<Longrightarrow>
     inflight_items (launched now it node w) = inflight_items w @ [it]"
  by (simp add: inflight_items_def launched_def update_new)

lemma inflight_items_failed [simp]: "inflight_items (launch_failed now it node e w) = inflight_items w"
  by (simp add: inflight_items_def launch_failed_def)

lemma inflight_items_pruneLocked [simp]: "inflight_items (pruneLocked w) = inflight_items w"
  by (simp add: inflight_items_def)

lemma within_limits_admit_item:
  assumes "within_limits topo (inflight_items w)"
  shows "within_limits topo (inflight_items (admit_item pt launch now topo supp it w))"
  by (rule admit_item_cases [where pt = pt and launch = launch and now = now and topo = topo
        and supp = supp and it = it and w = w])
     (simp_all add: assms inflight_items_launched skipped_not_inflight Admits_within_limits)

lemma within_limits_fold_admit:
  "within_limits topo (inflight_items w) \<Longrightarrow>
     within_limits topo (inflight_items (fold (admit_item pt launch now topo supp) its w))"
  by (induction its arbitrary: w) (auto simp: within_limits_admit_item)

text \<open>
  C11: a pass keeps the items in flight within the fleet's declared total and within the declared limit
  of every tag, where they were within them when it began.
\<close>

theorem pass_within_limits:
  assumes "within_limits topo (inflight_items w)"
  shows "within_limits topo (inflight_items (pass pt launch now topo supp w))"
  using assms by (simp add: pass_def Let_def within_limits_fold_admit)

subsection \<open>Nothing admissible is left waiting\<close>

text \<open>The flights a pass began with stay, and an item once passed over is passed over from then on.\<close>

lemma admit_item_flight:
  assumes "map_of (wl_inflight w) i = Some fl"
  shows "map_of (wl_inflight (admit_item pt launch now topo supp it w)) i = Some fl"
proof (rule admit_item_cases [where pt = pt and launch = launch and now = now and topo = topo
        and supp = supp and it = it and w = w])
  fix node ns
  assume "admit_item pt launch now topo supp it w = launched now it node w" "\<not> skipped supp it w"
  then show ?thesis
    using assms skipped_not_inflight [of supp it w] by (auto simp: launched_def)
qed (simp_all add: assms launch_failed_def)

lemma fold_admit_flight:
  "map_of (wl_inflight w) i = Some fl \<Longrightarrow>
     map_of (wl_inflight (fold (admit_item pt launch now topo supp) its w)) i = Some fl"
  by (induction its arbitrary: w) (auto simp: admit_item_flight)

lemma admit_item_frame [simp]:
  "wl_stopping (admit_item pt launch now topo supp it w) = wl_stopping w"
  "wl_items (admit_item pt launch now topo supp it w) = wl_items w"
  "wl_itemsPath (admit_item pt launch now topo supp it w) = wl_itemsPath w"
  "wl_results (admit_item pt launch now topo supp it w) = wl_results w"
  by (rule admit_item_cases [where pt = pt and launch = launch and now = now and topo = topo
        and supp = supp and it = it and w = w]; simp add: launched_def launch_failed_def)+

lemma fold_admit_frame [simp]:
  "wl_stopping (fold (admit_item pt launch now topo supp) its w) = wl_stopping w"
  "wl_items (fold (admit_item pt launch now topo supp) its w) = wl_items w"
  "wl_itemsPath (fold (admit_item pt launch now topo supp) its w) = wl_itemsPath w"
  "wl_results (fold (admit_item pt launch now topo supp) its w) = wl_results w"
  by (induction its arbitrary: w) simp_all

lemma skipped_mono:
  assumes "skipped supp it w" shows "skipped supp it (admit_item pt launch now topo supp it' w)"
proof (cases "map_of (wl_inflight w) (it_ID it)")
  case (Some fl)
  then show ?thesis
    using admit_item_flight [of w "it_ID it" fl] by (simp add: skipped_def)
next
  case None
  show ?thesis
    by (rule admit_item_cases [where pt = pt and launch = launch and now = now and topo = topo
          and supp = supp and it = it' and w = w])
       (use assms None in \<open>auto simp: skipped_def launched_def launch_failed_def ended_state_def
          split: option.splits\<close>)
qed

lemma skipped_fold: "skipped supp it w \<Longrightarrow> skipped supp it (fold (admit_item pt launch now topo supp) its w)"
  by (induction its arbitrary: w) (auto simp: skipped_mono)

lemma inflight_items_mono:
  "mset (inflight_items w) \<subseteq># mset (inflight_items (admit_item pt launch now topo supp it w))"
  by (rule admit_item_cases [where pt = pt and launch = launch and now = now and topo = topo
        and supp = supp and it = it and w = w])
     (simp_all add: inflight_items_launched skipped_not_inflight)

lemma inflight_items_fold:
  "mset (inflight_items w) \<subseteq># mset (inflight_items (fold (admit_item pt launch now topo supp) its w))"
proof (induction its arbitrary: w)
  case (Cons it its)
  then show ?case
    using inflight_items_mono [of w pt launch now topo supp it] subset_mset.order_trans by fastforce
qed simp

lemma countCarrying_mono:
  "mset xs \<subseteq># mset ys \<Longrightarrow> countCarrying xs tag \<le> countCarrying ys tag"
  unfolding countCarrying_def by (metis mset_filter multiset_filter_mono size_mset size_mset_mono)

lemma Admits_antimono:
  assumes "mset xs \<subseteq># mset ys" and "Admits topo ys it" shows "Admits topo xs it"
proof -
  have "length xs \<le> length ys" using size_mset_mono [OF assms(1)] by simp
  then show ?thesis
    using assms(2) countCarrying_mono [OF assms(1)]
    by (auto simp: Admits_iff) (meson le_less_trans of_nat_mono)+
qed

lemma admit_item_settles:
  "skipped supp it (admit_item pt launch now topo supp it w) \<or> Match pt it topo = [] \<or>
     \<not> Admits topo (inflight_items w) it"
  by (rule admit_item_cases [where pt = pt and launch = launch and now = now and topo = topo
        and supp = supp and it = it and w = w])
     (auto simp: skipped_def launched_def launch_failed_def ended_state_def)

lemma fold_admit_settles:
  "it \<in> set its \<Longrightarrow>
     (let w' = fold (admit_item pt launch now topo supp) its w
      in skipped supp it w' \<or> Match pt it topo = [] \<or> \<not> Admits topo (inflight_items w') it)"
proof (induction its arbitrary: w)
  case (Cons a its)
  let ?w1 = "admit_item pt launch now topo supp a w"
  show ?case
  proof (cases "it = a")
    case True
    have more: "mset (inflight_items w) \<subseteq># mset (inflight_items (fold (admit_item pt launch now topo supp) its ?w1))"
      by (rule subset_mset.order_trans [OF inflight_items_mono inflight_items_fold])
    from admit_item_settles [of supp it pt launch now topo w] show ?thesis
      unfolding True Let_def fold_simps o_apply
      using skipped_fold [of supp a ?w1] Admits_antimono [OF more] by blast
  qed (use Cons in simp)
qed simp

text \<open>
  C12: a pass leaves no item waiting that it could have started. Of every item the file carries, once
  the pass is over: it is in flight, or ended, or held back by an abort, or no node matches it, or the
  declared limits refuse it next to what is in flight.
\<close>

theorem pass_work_conserving:
  assumes "it \<in> set (wl_items w)" and "w' = pass pt launch now topo supp w"
  shows "map_of (wl_inflight w') (it_ID it) \<noteq> None \<or>
     (\<exists>st. map_of (wl_records w') (it_ID it) = Some st \<and> ended_state st) \<or>
     it_ID it \<in> set supp \<union> set (wl_stopping w) \<or>
     Match pt it topo = [] \<or> \<not> Admits topo (inflight_items w') it"
proof -
  have "it \<in> set (sortedForAdmission (wl_items (pruneLocked w)))" using assms(1) by simp
  from fold_admit_settles [OF this, of pt launch now topo supp "pruneLocked w"]
  show ?thesis
    unfolding assms(2) pass_def Let_def by (auto simp: skipped_def split: option.splits)
qed

subsection \<open>Only what was waiting is started\<close>

lemma fold_admit_new:
  assumes "map_of (wl_inflight (fold (admit_item pt launch now topo supp) its w)) i = Some fl"
    and "map_of (wl_inflight w) i = None"
  shows "fl_item fl \<in> set its \<and> it_ID (fl_item fl) = i \<and> \<not> skipped supp (fl_item fl) w \<and>
    (\<exists>ns. Match pt (fl_item fl) topo = fl_node fl # ns) \<and> wl_launched w \<le> fl_child fl"
  using assms
proof (induction its arbitrary: w)
  case (Cons a its)
  let ?w1 = "admit_item pt launch now topo supp a w"
  show ?case
  proof (cases "map_of (wl_inflight ?w1) i")
    case None
    have "wl_launched w \<le> wl_launched ?w1"
      by (rule admit_item_cases [where pt = pt and launch = launch and now = now and topo = topo
            and supp = supp and it = a and w = w]) (simp_all add: launched_def launch_failed_def)
    with Cons.IH [of ?w1] Cons.prems None show ?thesis
      by (auto dest: skipped_mono)
  next
    case (Some gl)
    with Cons.prems fold_admit_flight [OF Some, of pt launch now topo supp its] have gl: "gl = fl" by simp
    show ?thesis
    proof (rule admit_item_cases [where pt = pt and launch = launch and now = now and topo = topo
            and supp = supp and it = a and w = w])
      fix node ns
      assume "?w1 = launched now a node w" "\<not> skipped supp a w" "Match pt a topo = node # ns"
      with Some gl Cons.prems(2) show ?thesis by (auto simp: launched_def split: if_splits)
    qed (use Some Cons.prems(2) in \<open>simp_all add: launch_failed_def\<close>)
  qed
qed simp

lemma pass_keeps_out:
  assumes "wl_inv w" and "i \<in> set (wl_stopping w)"
  shows "map_of (wl_inflight (pass pt launch now topo supp w)) i = None"
proof (rule ccontr)
  assume "map_of (wl_inflight (pass pt launch now topo supp w)) i \<noteq> None"
  then obtain fl where fl: "map_of (wl_inflight (pass pt launch now topo supp w)) i = Some fl" by blast
  have none: "map_of (wl_inflight (pruneLocked w)) i = None"
    using assms by (simp add: wl_inv_def stopping_ok_def)
  from fold_admit_new [OF fl [unfolded pass_def Let_def] none] assms(2) show False
    by (auto simp: skipped_def)
qed

text \<open>
  An item a pass puts in flight is one the file carries that was waiting: not in flight, not ended,
  not one whose abort this pass took up, and not one whose aborted agent is still being stopped. It
  goes to the node that ranks first for it, with a new child; the flights that were there stay.
\<close>

theorem pass_starts_only_waiting:
  assumes "wl_inv w" and "w' = pass pt launch now topo supp w"
    and "map_of (wl_inflight w') i = Some fl"
  shows "map_of (wl_inflight w) i = Some fl \<or>
     (map_of (wl_inflight w) i = None \<and> fl_item fl \<in> set (wl_items w) \<and> it_ID (fl_item fl) = i \<and>
      i \<notin> set supp \<union> set (wl_stopping w) \<and>
      (\<forall>st. map_of (wl_records w) i = Some st \<longrightarrow> \<not> ended_state st) \<and>
      fl_node fl = hd (Match pt (fl_item fl) topo) \<and> Match pt (fl_item fl) topo \<noteq> [] \<and>
      wl_launched w \<le> fl_child fl)"
proof (cases "map_of (wl_inflight w) i")
  case (Some gl)
  then show ?thesis
    using assms fold_admit_flight [of "pruneLocked w" i gl] by (simp add: pass_def Let_def)
next
  case None
  then have none: "map_of (wl_inflight (pruneLocked w)) i = None" by simp
  have "keys_distinct (wl_records w)" using assms(1) by (simp add: wl_inv_def records_ok_def)
  note rec = pruneLocked_record [OF this]
  from fold_admit_new [OF assms(3) [unfolded assms(2) pass_def Let_def] none]
  show ?thesis
    using None by (auto simp: skipped_def rec carries_iff split: option.splits if_splits)
qed

subsection \<open>On a list of two items and one slot\<close>

definition demo_topo :: topology where
  "demo_topo = \<lparr>tp_Wake = False, tp_Prefer = '''',
     tp_Concurrency = Some \<lparr>cp_Total = Some 1, cp_Tags = []\<rparr>, tp_Nodes = [plain_node ''n'' '''']\<rparr>"

definition demo_list :: worklist where
  "demo_list = (empty_worklist ''w'' '''')\<lparr>wl_items := [demo_item ''a'', demo_item ''b'']\<rparr>"

definition demo_launch :: launcher where
  "demo_launch it node path = None"

lemma demo_list_simps [simp]:
  "wl_items demo_list = [demo_item ''a'', demo_item ''b'']" "wl_records demo_list = []"
  "wl_inflight demo_list = []" "wl_stopping demo_list = []" "wl_launched demo_list = 0"
  "inflight_items demo_list = []"
  by (simp_all add: demo_list_def empty_worklist_def inflight_items_def)

lemma demo_inv [simp]: "wl_inv demo_list"
  by (simp add: wl_inv_def records_ok_def flights_ok_def stopping_ok_def items_ok_def)

lemma demo_match [simp]: "it_Tags it = [] \<Longrightarrow> Match pt it demo_topo = [plain_node ''n'' '''']"
  by (simp add: Match_def demo_topo_def rankBy_def)

lemma demo_admits [simp]: "it_Tags it = [] \<Longrightarrow> Admits demo_topo infl it \<longleftrightarrow> infl = []"
  by (cases infl) (simp_all add: Admits_def demo_topo_def)

lemma demo_pass:
  "pass pt demo_launch ''t'' demo_topo [] demo_list =
     launched ''t'' (demo_item ''a'') (plain_node ''n'' '''') demo_list"
proof -
  have prune: "pruneLocked demo_list = demo_list" by (simp add: pruneLocked_def demo_list_def empty_worklist_def)
  have order: "sortedForAdmission [demo_item ''a'', demo_item ''b''] = [demo_item ''a'', demo_item ''b'']"
    by (simp add: sortedForAdmission_def insertion_sort_def upt_rec)
  have "admit_item pt demo_launch ''t'' demo_topo [] (demo_item ''a'') demo_list =
      launched ''t'' (demo_item ''a'') (plain_node ''n'' '''') demo_list"
    by (simp add: admit_item_def skipped_def demo_launch_def)
  moreover have "admit_item pt demo_launch ''t'' demo_topo [] (demo_item ''b'')
      (launched ''t'' (demo_item ''a'') (plain_node ''n'' '''') demo_list) =
      launched ''t'' (demo_item ''a'') (plain_node ''n'' '''') demo_list"
    by (simp add: admit_item_def inflight_items_launched)
  ultimately show ?thesis
    by (simp add: pass_def prune order)
qed

theorem pass_within_limits_witness:
  "within_limits demo_topo (inflight_items demo_list) \<and>
   within_limits demo_topo (inflight_items (pass short_times demo_launch ''t'' demo_topo [] demo_list))"
  using pass_within_limits [of demo_topo demo_list short_times demo_launch "''t''" "[]"]
  by (simp add: within_limits_def demo_topo_def countCarrying_def)

theorem pass_work_conserving_witness:
  "demo_item ''b'' \<in> set (wl_items demo_list) \<and>
   \<not> Admits demo_topo (inflight_items (pass short_times demo_launch ''t'' demo_topo [] demo_list))
       (demo_item ''b'')"
  using pass_work_conserving [of "demo_item ''b''" demo_list _ short_times demo_launch "''t''" demo_topo "[]"]
  by (simp add: demo_pass) (simp add: launched_def)

theorem pass_starts_only_waiting_witness:
  "\<exists>fl. map_of (wl_inflight (pass short_times demo_launch ''t'' demo_topo [] demo_list)) ''a'' = Some fl \<and>
     fl_item fl \<in> set (wl_items demo_list) \<and> fl_node fl = hd (Match short_times (fl_item fl) demo_topo)"
proof -
  let ?w' = "pass short_times demo_launch ''t'' demo_topo [] demo_list"
  obtain fl where fl: "map_of (wl_inflight ?w') ''a'' = Some fl"
    by (simp add: demo_pass launched_def)
  from pass_starts_only_waiting [OF demo_inv refl fl] fl show ?thesis by auto
qed

section \<open>What each operation answers\<close>

text \<open>The state the list shows of an id: backlog where there is no record.\<close>

definition shown_state :: "worklist \<Rightarrow> string \<Rightarrow> string" where
  "shown_state w i = (case map_of (wl_records w) i of None \<Rightarrow> StateBacklog | Some st \<Rightarrow> st_State st)"

text \<open>
  A retry succeeds exactly for an item the file carries that is recorded failed. It then takes the
  record out, in memory and, where the disk takes the save, in the state file, and changes nothing
  else; a refused retry changes nothing and is a miss where the file does not carry the id and a
  conflict, naming the state, where it does.
\<close>

theorem Retry_spec:
  "Retry i w =
     (if carries w i \<and> shown_state w i = StateFailed
      then (None, w\<lparr>wl_records := AList.delete i (wl_records w),
                    wl_saved := (if wl_disk_ok w then AList.delete i (wl_records w) else wl_saved w)\<rparr>)
      else (Some (if carries w i then ErrNotFailed i (shown_state w i) else ErrMissing i), w))"
  by (simp add: Retry_def shown_state_def saveLocked_def Let_def)

text \<open>
  In a list whose records and flights agree, an abort is taken up exactly where the item is
  running: the flight and the record go, the state without the record is saved, and the id is held out
  of admission until the agent has exited. Otherwise it is refused, as a miss where neither file nor
  record knows the id and as a conflict naming the state where one does.
\<close>

theorem Abort_spec:
  assumes "wl_inv w" and "\<forall>st. map_of (wl_records w) i = Some st \<longrightarrow> st_State st \<noteq> ''''"
  shows "case Abort_begin i w of
      Inl e \<Rightarrow> shown_state w i \<noteq> StateRunning \<and>
        e = (if map_of (wl_records w) i = None \<and> \<not> carries w i then ErrMissing i
             else ErrNotRunning i (shown_state w i))
    | Inr (fl, w') \<Rightarrow> shown_state w i = StateRunning \<and> map_of (wl_inflight w) i = Some fl \<and>
        map_of (wl_inflight w') = (map_of (wl_inflight w))(i := None) \<and>
        map_of (wl_records w') = (map_of (wl_records w))(i := None) \<and>
        (wl_disk_ok w \<longrightarrow> wl_saved w' = wl_records w') \<and>
        set (wl_stopping w') = insert i (set (wl_stopping w)) \<and>
        wl_items w' = wl_items w \<and>
        (\<forall>pt launch now topo supp.
           map_of (wl_inflight (pass pt launch now topo supp w')) i = None)"
proof (cases "Abort_begin i w")
  case (Inl e)
  then have "map_of (wl_inflight w) i = None"
    by (auto simp: Abort_begin_def detachLocked_def Let_def split: option.splits)
  with assms(1) have "\<not> running_record (map_of (wl_records w) i)" by (simp add: wl_inv_not_running)
  with Inl assms(2) show ?thesis
    by (auto simp: Abort_begin_def shown_state_def Let_def detachLocked_None split: option.splits if_splits)
next
  case (Inr r)
  obtain fl w' where r: "r = (fl, w')" by (cases r)
  with Inr obtain w1 where w1: "detachLocked i w = Some (fl, w1)"
    "w' = w1\<lparr>wl_stopping := List.insert i (wl_stopping w1)\<rparr>" by (auto simp: Abort_begin_Inr)
  from w1(1) have "map_of (wl_inflight w) i = Some fl" by (simp add: detachLocked_Some)
  with assms(1) have run: "running_record (map_of (wl_records w) i)"
    by (simp add: wl_inv_def records_ok_def)
  have inv: "wl_inv w'" using assms(1) Inr r by (auto intro: wl_inv_Abort_begin)
  have held: "i \<in> set (wl_stopping w')" by (simp add: w1)
  have gone: "map_of (wl_inflight w') i = None" using inv held by (simp add: wl_inv_def stopping_ok_def)
  have "map_of (wl_inflight (pass pt launch now topo supp w')) i = None" for pt launch now topo supp
    using pass_keeps_out [OF inv held] by blast
  with run w1 gone show ?thesis
    by (auto simp: Inr r detachLocked_Some shown_state_def running_record_def saveLocked_def
        split: option.splits)
qed

theorem Abort_spec_witness:
  "case Abort_begin ''a'' demo_list of
      Inl e \<Rightarrow> shown_state demo_list ''a'' \<noteq> StateRunning \<and> e = ErrNotRunning ''a'' StateBacklog
    | Inr _ \<Rightarrow> False"
proof -
  have "Abort_begin ''a'' demo_list = Inl (ErrNotRunning ''a'' StateBacklog)"
    by (simp add: Abort_begin_def detachLocked_def carries_def Let_def)
  with Abort_spec [OF demo_inv, of "''a''"] show ?thesis
    by (simp add: shown_state_def)
qed

text \<open>
  An add is accepted exactly where the item is well formed, the list carries no item of its id, no
  end of it is recorded, and the file can be written; the list then carries it last, the file holds
  the items in their file form, and a re-read of the file gives the same ids in the same order.
  Everywhere else nothing changes.
\<close>

theorem Add_spec:
  "case Add stamp it w of
      (Some e, w') \<Rightarrow> w' = w \<and>
        \<not> (valid_item it \<and> \<not> carries w (it_ID it) \<and> wl_disk_ok w \<and>
           shown_state w (it_ID it) \<notin> {StateDone, StateFailed})
    | (None, w') \<Rightarrow> valid_item it \<and> \<not> carries w (it_ID it) \<and> wl_disk_ok w \<and>
        shown_state w (it_ID it) \<notin> {StateDone, StateFailed} \<and>
        wl_items w' = wl_items w @ [it] \<and> wl_records w' = wl_records w \<and> wl_inflight w' = wl_inflight w \<and>
        (\<exists>fs. wl_doc w' = ItemsDoc fs \<and> map (it_ID \<circ> item_of_file) fs = map it_ID (wl_items w'))"
proof (cases "Add stamp it w")
  fix r w' assume r: "Add stamp it w = (r, w')"
  have st: "(\<forall>st. map_of (wl_records w) (it_ID it) = Some st \<longrightarrow> \<not> ended_state st) \<longleftrightarrow>
      shown_state w (it_ID it) \<notin> {StateDone, StateFailed}"
    by (simp add: shown_state_def ended_state_def split: option.split)
  show ?thesis
  proof (cases r)
    case None
    with Add_None [of stamp it w w'] r have "valid_item it \<and> \<not> carries w (it_ID it) \<and> wl_disk_ok w \<and>
        shown_state w (it_ID it) \<notin> {StateDone, StateFailed} \<and>
        w' = w\<lparr>wl_doc := ItemsDoc (map fileItemFromItem (wl_items w @ [it])), wl_stamp := stamp,
              wl_items := wl_items w @ [it]\<rparr>"
      unfolding st by simp
    then show ?thesis
      unfolding r None by auto
  next
    case (Some e)
    with r have "w' = w" by (auto dest: Add_refused)
    moreover have "\<not> (valid_item it \<and> \<not> carries w (it_ID it) \<and> wl_disk_ok w \<and>
        shown_state w (it_ID it) \<notin> {StateDone, StateFailed})"
      using Add_None [of stamp it w] r Some unfolding st by auto
    ultimately show ?thesis
      unfolding r Some by simp
  qed
qed

text \<open>
  A remove takes the item out of the list, the file and the records, and its kept output with it;
  it is refused, changing nothing, as a conflict where the item is in flight, as a miss where the file
  does not carry it, and where the file cannot be written.
\<close>

theorem Remove_spec:
  "case Remove stamp i w of
      (Some e, w') \<Rightarrow> w' = w \<and>
        e = (if map_of (wl_inflight w) i \<noteq> None then ErrRunning i
             else if \<not> carries w i then ErrMissing i else ErrDisk (wl_itemsPath w)) \<and>
        \<not> (map_of (wl_inflight w) i = None \<and> carries w i \<and> wl_disk_ok w)
    | (None, w') \<Rightarrow> map_of (wl_inflight w) i = None \<and> carries w i \<and>
        wl_items w' = filter (\<lambda>it. it_ID it \<noteq> i) (wl_items w) \<and>
        wl_doc w' = ItemsDoc (map fileItemFromItem (wl_items w')) \<and>
        map_of (wl_records w') = (map_of (wl_records w))(i := None) \<and> wl_saved w' = wl_records w' \<and>
        \<not> carries w' i \<and> Log i w' = Inl (ErrMissing i) \<and>
        map_of (wl_files w') (LogPathFor (wl_itemsPath w) i) = None"
proof (cases "Remove stamp i w")
  fix r w' assume r: "Remove stamp i w = (r, w')"
  show ?thesis
  proof (cases r)
    case None
    have gone: "map_of (os_Remove p (os_RemoveAll d (os_Remove q fs))) q = None" for p d q fs
    proof -
      have "q \<notin> fst ` set (AList.delete q fs)"
        by (metis map_of_alist_delete fun_upd_same map_of_eq_None_iff)
      then have "map_of (os_RemoveAll d (os_Remove q fs)) q = None"
        by (auto simp: os_RemoveAll_def os_Remove_def map_of_eq_None_iff)
      then show ?thesis by (simp add: os_Remove_def)
    qed
    with r Remove_None [of stamp i w w'] show ?thesis
      unfolding r None by (auto simp: Let_def carries_def list_ex_iff Log_def gone)
  next
    case (Some e)
    from r [unfolded Some] have "w' = w \<and> \<not> (map_of (wl_inflight w) i = None \<and> carries w i \<and> wl_disk_ok w) \<and>
        e = (if map_of (wl_inflight w) i \<noteq> None then ErrRunning i
             else if \<not> carries w i then ErrMissing i else ErrDisk (wl_itemsPath w))"
      by (auto simp: Remove_def writeItemsFile_def carries_def list_ex_iff filter_empty_conv Let_def
          split: if_splits)
    then show ?thesis
      unfolding r Some by simp
  qed
qed

text \<open>
  The list shows every item the file carries, in the file's order, each once, with the state of its
  record; in a list whose records and flights agree an item shows as running exactly where it is in
  flight.
\<close>

theorem List_work_spec:
  assumes "wl_inv w"
  shows "map iv_ID (List_work w) = map it_ID (wl_items w) \<and> distinct (map iv_ID (List_work w)) \<and>
    list_all (\<lambda>v. iv_State v = shown_state w (iv_ID v) \<and>
      (iv_State v = StateRunning \<longleftrightarrow> map_of (wl_inflight w) (iv_ID v) \<noteq> None)) (List_work w)"
proof -
  have v: "iv_ID v = it_ID it \<and> iv_State v = shown_state w (it_ID it)"
    if "v = hd (Join [it] (wl_records w))" for v it
    using that by (simp add: Join_def Let_def shown_state_def split: option.split)
  have run: "shown_state w i = StateRunning \<longleftrightarrow> map_of (wl_inflight w) i \<noteq> None" for i
    using wl_inv_not_running [OF assms, of i]
    by (auto simp: shown_state_def running_record_def split: option.splits)
  have ids: "map iv_ID (List_work w) = map it_ID (wl_items w)"
    using v by (auto simp: List_work_def Join_def)
  moreover have "list_all (\<lambda>v. iv_State v = shown_state w (iv_ID v)) (List_work w)"
    using v by (auto simp: List_work_def Join_def list_all_iff)
  ultimately show ?thesis
    using assms by (simp add: run wl_inv_items_ok list_all_iff)
qed

theorem List_work_spec_witness:
  "map iv_ID (List_work demo_list) = [''a'', ''b''] \<and>
   list_all (\<lambda>v. iv_State v = shown_state demo_list (iv_ID v)) (List_work demo_list)"
  using List_work_spec [OF demo_inv] by (simp add: list_all_iff)

end
