(* ===== verification/WorkRun.thy ===== *)
theory WorkRun
  imports WorkList
begin

text \<open>
  \<^verbatim>\<open>internal/orchestrator/worklist.go\<close>, \<^verbatim>\<open>run\<close>, and \<^verbatim>\<open>run.go\<close>: the loop next to everything that may happen
  while it is between two holds of the lock. An event is one critical section of the loop, of an API
  operation or of the end of a child, or an outside change: a file edited, a marker placed, the disk
  failing or recovering. Where the loop stands is its program counter.

  A child that ends closes its \<^verbatim>\<open>done\<close> channel and stands at its send in one event, so a reap takes up
  every result there is.
\<close>

section \<open>The loop and its surroundings\<close>

datatype run_pc =
    AtStart
  | AtReap
  | AtMarkers "string list" "string list"
  | Draining nat string "string list" "string list"
  | AtTopology "string list"
  | AtRead "string list" topology
  | AtInstall "string list" topology "item list" "int \<times> int"
  | AtPass "string list" topology
  | AtSave
  | Resting
  | ShuttingDown
  | Ended

record run_state =
  rs_wl :: worklist
  rs_pc :: run_pc
  rs_aborts :: "(string \<times> nat) list"
  rs_markers :: "string list"

datatype run_event =
    EvReap string
  | EvMarker
  | EvTopology topology
  | EvGatewayGone
  | EvRead
  | EvInstall
  | EvPass launcher string
  | EvSave
  | EvTick
  | EvInterrupt
  | EvShutResult
  | EvAbort string
  | EvAbortEnd string
  | EvRetry string
  | EvAdd "int \<times> int" item
  | EvRemove "int \<times> int" string
  | EvChildEnds nat "string option"
  | EvMarkerPlaced string
  | EvFileEdited "int \<times> int" items_doc
  | EvDisk bool

section \<open>One event\<close>

text \<open>The loop's own events, in the order of its body. \<open>None\<close> is an event that cannot happen now.\<close>

definition do_reap :: "string \<Rightarrow> run_state \<Rightarrow> run_state option" where
  "do_reap now s =
     (if rs_pc s = AtReap
      then Some (s\<lparr>rs_wl := reap now (rs_wl s), rs_pc := AtMarkers (rs_markers s) []\<rparr>)
      else None)"

text \<open>
  The markers, one at a time: an id in flight is detached and its child waited for before its marker
  goes and its id is suppressed; the marker of any other id just goes.
\<close>

definition do_marker :: "run_state \<Rightarrow> run_state option" where
  "do_marker s =
     (case rs_pc s of
        AtMarkers [] supp \<Rightarrow> Some (s\<lparr>rs_pc := AtTopology supp\<rparr>)
      | AtMarkers (i # ids) supp \<Rightarrow>
          (case detachLocked i (rs_wl s) of
             None \<Rightarrow> Some (s\<lparr>rs_pc := AtMarkers ids supp, rs_markers := removeAll i (rs_markers s)\<rparr>)
           | Some (fl, w) \<Rightarrow> Some (s\<lparr>rs_wl := w, rs_pc := Draining (fl_child fl) i ids supp\<rparr>))
      | Draining c i ids supp \<Rightarrow>
          if c \<in> fst ` set (wl_waits (rs_wl s)) then None
          else Some (s\<lparr>rs_pc := AtMarkers ids (i # supp), rs_markers := removeAll i (rs_markers s)\<rparr>)
      | _ \<Rightarrow> None)"

definition do_topology :: "topology \<Rightarrow> run_state \<Rightarrow> run_state option" where
  "do_topology topo s =
     (case rs_pc s of
        AtStart \<Rightarrow> Some (s\<lparr>rs_pc := AtReap\<rparr>)
      | AtTopology supp \<Rightarrow> Some (s\<lparr>rs_pc := AtRead supp topo\<rparr>)
      | _ \<Rightarrow> None)"

definition do_gateway_gone :: "run_state \<Rightarrow> run_state option" where
  "do_gateway_gone s =
     (case rs_pc s of
        AtStart \<Rightarrow> Some (s\<lparr>rs_pc := Ended\<rparr>)
      | AtTopology supp \<Rightarrow> Some (s\<lparr>rs_wl := saveLocked (rs_wl s), rs_pc := Ended\<rparr>)
      | _ \<Rightarrow> None)"

definition do_read :: "run_state \<Rightarrow> run_state option" where
  "do_read s =
     (case rs_pc s of
        AtRead supp topo \<Rightarrow>
          (case read_changed (rs_wl s) of
             None \<Rightarrow> Some (s\<lparr>rs_pc := AtPass supp topo\<rparr>)
           | Some (Inl e) \<Rightarrow> Some (s\<lparr>rs_wl := saveLocked (rs_wl s), rs_pc := Ended\<rparr>)
           | Some (Inr items) \<Rightarrow> Some (s\<lparr>rs_pc := AtInstall supp topo items (wl_stamp (rs_wl s))\<rparr>))
      | _ \<Rightarrow> None)"

definition do_install :: "run_state \<Rightarrow> run_state option" where
  "do_install s =
     (case rs_pc s of
        AtInstall supp topo items stamp \<Rightarrow>
          Some (s\<lparr>rs_wl := install_items items stamp (rs_wl s), rs_pc := AtPass supp topo\<rparr>)
      | _ \<Rightarrow> None)"

definition do_pass ::
  "(string \<Rightarrow> int option) \<Rightarrow> launcher \<Rightarrow> string \<Rightarrow> run_state \<Rightarrow> run_state option" where
  "do_pass pt launch now s =
     (case rs_pc s of
        AtPass supp topo \<Rightarrow> Some (s\<lparr>rs_wl := pass pt launch now topo supp (rs_wl s), rs_pc := AtSave\<rparr>)
      | _ \<Rightarrow> None)"

definition do_save :: "run_state \<Rightarrow> run_state option" where
  "do_save s =
     (if rs_pc s = AtSave then Some (s\<lparr>rs_wl := saveLocked (rs_wl s), rs_pc := Resting\<rparr>) else None)"

definition do_tick :: "run_state \<Rightarrow> run_state option" where
  "do_tick s = (if rs_pc s = Resting then Some (s\<lparr>rs_pc := AtReap\<rparr>) else None)"

text \<open>
  The clean interrupt, taken while the loop rests or while it reads the topology; before the first
  round there is nothing to stop.
\<close>

definition do_interrupt :: "run_state \<Rightarrow> run_state option" where
  "do_interrupt s =
     (case rs_pc s of
        AtStart \<Rightarrow> Some (s\<lparr>rs_pc := Ended\<rparr>)
      | Resting \<Rightarrow> Some (s\<lparr>rs_wl := shutdown_begin (rs_wl s), rs_pc := ShuttingDown\<rparr>)
      | AtTopology supp \<Rightarrow> Some (s\<lparr>rs_wl := shutdown_begin (rs_wl s), rs_pc := ShuttingDown\<rparr>)
      | _ \<Rightarrow> None)"

definition do_shut_result :: "run_state \<Rightarrow> run_state option" where
  "do_shut_result s =
     (if rs_pc s \<noteq> ShuttingDown then None
      else if inflightCount (rs_wl s) = 0 then Some (s\<lparr>rs_pc := Ended\<rparr>)
      else (case wl_results (rs_wl s) of
          [] \<Rightarrow> None
        | r # rs \<Rightarrow> Some (s\<lparr>rs_wl := dropFlight (cr_id r) ((rs_wl s)\<lparr>wl_results := rs\<rparr>)\<rparr>)))"

text \<open>The API is served all the while, the shutdown included: the server goes down after the loop's end.\<close>

definition do_abort :: "string \<Rightarrow> run_state \<Rightarrow> run_state option" where
  "do_abort i s =
     (case Abort_begin i (rs_wl s) of
        Inl e \<Rightarrow> Some s
      | Inr (fl, w) \<Rightarrow> Some (s\<lparr>rs_wl := w, rs_aborts := rs_aborts s @ [(i, fl_child fl)]\<rparr>))"

definition do_abort_end :: "string \<Rightarrow> run_state \<Rightarrow> run_state option" where
  "do_abort_end i s =
     (case find (\<lambda>(j, c). j = i \<and> c \<notin> fst ` set (wl_waits (rs_wl s))) (rs_aborts s) of
        None \<Rightarrow> None
      | Some a \<Rightarrow> Some (s\<lparr>rs_wl := Abort_end i (rs_wl s), rs_aborts := remove1 a (rs_aborts s)\<rparr>))"

definition do_child_ends :: "nat \<Rightarrow> string option \<Rightarrow> run_state \<Rightarrow> run_state option" where
  "do_child_ends c err s =
     (let w = rs_wl s in
      case map_of (wl_waits w) c of
        None \<Rightarrow> None
      | Some i \<Rightarrow>
          Some (s\<lparr>rs_wl := w\<lparr>wl_waits := filter (\<lambda>(d, _). d \<noteq> c) (wl_waits w),
              wl_results := wl_results w @ [\<lparr>cr_id = i, cr_err = err, cr_child = c\<rparr>]\<rparr>\<rparr>))"

fun do_event :: "(string \<Rightarrow> int option) \<Rightarrow> run_event \<Rightarrow> run_state \<Rightarrow> run_state option" where
  "do_event pt (EvReap now) s = do_reap now s"
| "do_event pt EvMarker s = do_marker s"
| "do_event pt (EvTopology topo) s = do_topology topo s"
| "do_event pt EvGatewayGone s = do_gateway_gone s"
| "do_event pt EvRead s = do_read s"
| "do_event pt EvInstall s = do_install s"
| "do_event pt (EvPass launch now) s = do_pass pt launch now s"
| "do_event pt EvSave s = do_save s"
| "do_event pt EvTick s = do_tick s"
| "do_event pt EvInterrupt s = do_interrupt s"
| "do_event pt EvShutResult s = do_shut_result s"
| "do_event pt (EvAbort i) s = do_abort i s"
| "do_event pt (EvAbortEnd i) s = do_abort_end i s"
| "do_event pt (EvRetry i) s = Some (s\<lparr>rs_wl := snd (Retry i (rs_wl s))\<rparr>)"
| "do_event pt (EvAdd stamp it) s = Some (s\<lparr>rs_wl := snd (Add stamp it (rs_wl s))\<rparr>)"
| "do_event pt (EvRemove stamp i) s = Some (s\<lparr>rs_wl := snd (Remove stamp i (rs_wl s))\<rparr>)"
| "do_event pt (EvChildEnds c err) s = do_child_ends c err s"
| "do_event pt (EvMarkerPlaced i) s = Some (s\<lparr>rs_markers := List.insert i (rs_markers s)\<rparr>)"
| "do_event pt (EvFileEdited stamp doc) s =
     Some (s\<lparr>rs_wl := (rs_wl s)\<lparr>wl_doc := doc, wl_stamp := stamp\<rparr>\<rparr>)"
| "do_event pt (EvDisk ok) s = Some (s\<lparr>rs_wl := (rs_wl s)\<lparr>wl_disk_ok := ok\<rparr>\<rparr>)"

lemmas run_events = do_reap_def do_marker_def do_topology_def do_gateway_gone_def do_read_def
  do_install_def do_pass_def do_save_def do_tick_def do_interrupt_def do_shut_result_def do_abort_def
  do_abort_end_def do_child_ends_def

fun run_trace :: "(string \<Rightarrow> int option) \<Rightarrow> run_event list \<Rightarrow> run_state \<Rightarrow> run_state option" where
  "run_trace pt [] s = Some s"
| "run_trace pt (e # es) s = Option.bind (do_event pt e s) (run_trace pt es)"

section \<open>Reachable states\<close>

definition run_start :: "worklist \<Rightarrow> run_state" where
  "run_start w = \<lparr>rs_wl = w, rs_pc = AtStart, rs_aborts = [], rs_markers = []\<rparr>"

fun is_api_abort :: "run_event \<Rightarrow> bool" where
  "is_api_abort (EvAbort i) = True"
| "is_api_abort e = False"

text \<open>\<open>api\<close> is whether the API's abort may be asked for; markers beside the file may be placed in any case.\<close>

inductive reachable ::
  "(string \<Rightarrow> int option) \<Rightarrow> bool \<Rightarrow> run_state \<Rightarrow> run_state \<Rightarrow> bool" for pt api s0 where
  start: "reachable pt api s0 s0"
| event: "reachable pt api s0 s \<Longrightarrow> do_event pt e s = Some s' \<Longrightarrow> api \<or> \<not> is_api_abort e \<Longrightarrow>
    reachable pt api s0 s'"

lemma reachable_trace:
  "reachable pt api s0 s \<Longrightarrow> run_trace pt es s = Some s' \<Longrightarrow> api \<or> \<not> list_ex is_api_abort es \<Longrightarrow>
     reachable pt api s0 s'"
  by (induction es arbitrary: s) (auto simp: bind_eq_Some_conv intro: reachable.event)

section \<open>Records and flights agree in every reachable state\<close>

definition looping :: "run_state \<Rightarrow> bool" where
  "looping s \<longleftrightarrow> rs_pc s \<noteq> ShuttingDown \<and> rs_pc s \<noteq> Ended"

definition run_inv :: "run_state \<Rightarrow> bool" where
  "run_inv s \<longleftrightarrow>
     (looping s \<longrightarrow> wl_inv (rs_wl s)) \<and>
     (\<forall>supp topo items stamp. rs_pc s = AtInstall supp topo items stamp \<longrightarrow>
        list_all valid_item items \<and> distinct (map it_ID items))"

lemma run_inv_start: "wl_inv w \<Longrightarrow> run_inv (run_start w)"
  by (simp add: run_inv_def run_start_def)

lemma run_inv_api:
  "run_inv s \<Longrightarrow> (looping s \<Longrightarrow> wl_inv w) \<Longrightarrow> run_inv (s\<lparr>rs_wl := w\<rparr>)"
  by (simp add: run_inv_def looping_def)

lemma run_inv_I:
  "(looping s \<Longrightarrow> wl_inv (rs_wl s)) \<Longrightarrow>
   (\<And>supp topo items stamp. rs_pc s = AtInstall supp topo items stamp \<Longrightarrow>
      list_all valid_item items \<and> distinct (map it_ID items)) \<Longrightarrow> run_inv s"
  by (auto simp: run_inv_def)

lemma run_inv_wl: "run_inv s \<Longrightarrow> looping s \<Longrightarrow> wl_inv (rs_wl s)"
  by (simp add: run_inv_def)

lemma looping_pc [simp]:
  "rs_pc s = AtStart \<Longrightarrow> looping s" "rs_pc s = AtReap \<Longrightarrow> looping s" "rs_pc s = AtMarkers ids supp \<Longrightarrow> looping s"
  "rs_pc s = Draining c i ids supp \<Longrightarrow> looping s" "rs_pc s = AtTopology supp \<Longrightarrow> looping s"
  "rs_pc s = AtRead supp topo \<Longrightarrow> looping s" "rs_pc s = AtInstall supp topo items stamp \<Longrightarrow> looping s"
  "rs_pc s = AtPass supp topo \<Longrightarrow> looping s" "rs_pc s = AtSave \<Longrightarrow> looping s"
  "rs_pc s = Resting \<Longrightarrow> looping s" "rs_pc s = ShuttingDown \<Longrightarrow> \<not> looping s"
  "rs_pc s = Ended \<Longrightarrow> \<not> looping s"
  by (simp_all add: looping_def)

lemma run_inv_reap: "run_inv s \<Longrightarrow> do_reap now s = Some s' \<Longrightarrow> run_inv s'"
  by (auto simp: do_reap_def wl_inv_reap intro!: run_inv_I dest: run_inv_wl split: if_splits)

lemma run_inv_marker: "run_inv s \<Longrightarrow> do_marker s = Some s' \<Longrightarrow> run_inv s'"
  by (cases "rs_pc s")
     (auto simp: do_marker_def intro!: run_inv_I dest: run_inv_wl intro: wl_inv_detachLocked [OF run_inv_wl]
       split: list.splits option.splits if_splits)

lemma run_inv_topology: "run_inv s \<Longrightarrow> do_topology topo s = Some s' \<Longrightarrow> run_inv s'"
  by (cases "rs_pc s") (auto simp: do_topology_def intro!: run_inv_I dest: run_inv_wl)

lemma run_inv_gateway_gone: "run_inv s \<Longrightarrow> do_gateway_gone s = Some s' \<Longrightarrow> run_inv s'"
  by (cases "rs_pc s") (auto simp: do_gateway_gone_def intro!: run_inv_I dest: run_inv_wl)

lemma run_inv_read: "run_inv s \<Longrightarrow> do_read s = Some s' \<Longrightarrow> run_inv s'"
  by (cases "rs_pc s")
     (auto simp: do_read_def intro!: run_inv_I dest: run_inv_wl read_changed_items
       split: option.splits sum.splits)

lemma run_inv_install: "run_inv s \<Longrightarrow> do_install s = Some s' \<Longrightarrow> run_inv s'"
  by (cases "rs_pc s")
     (auto simp: do_install_def run_inv_def intro: wl_inv_install)

lemma run_inv_pass: "run_inv s \<Longrightarrow> do_pass pt launch now s = Some s' \<Longrightarrow> run_inv s'"
  by (cases "rs_pc s") (auto simp: do_pass_def wl_inv_pass intro!: run_inv_I dest: run_inv_wl)

lemma run_inv_save: "run_inv s \<Longrightarrow> do_save s = Some s' \<Longrightarrow> run_inv s'"
  by (auto simp: do_save_def intro!: run_inv_I dest: run_inv_wl split: if_splits)

lemma run_inv_tick: "run_inv s \<Longrightarrow> do_tick s = Some s' \<Longrightarrow> run_inv s'"
  by (auto simp: do_tick_def intro!: run_inv_I dest: run_inv_wl split: if_splits)

lemma run_inv_interrupt: "run_inv s \<Longrightarrow> do_interrupt s = Some s' \<Longrightarrow> run_inv s'"
  by (cases "rs_pc s") (auto simp: do_interrupt_def intro!: run_inv_I)

lemma run_inv_shut_result: "run_inv s \<Longrightarrow> do_shut_result s = Some s' \<Longrightarrow> run_inv s'"
  by (auto simp: do_shut_result_def intro!: run_inv_I split: if_splits list.splits)

lemmas run_inv_loop = run_inv_reap run_inv_marker run_inv_topology run_inv_gateway_gone run_inv_read
  run_inv_install run_inv_pass run_inv_save run_inv_tick run_inv_interrupt run_inv_shut_result

lemma run_inv_event:
  assumes "run_inv s" and "do_event pt e s = Some s'" shows "run_inv s'"
proof (cases e)
  case (EvAbort i)
  with assms show ?thesis
    by (auto simp: do_abort_def run_inv_def looping_def split: if_splits sum.splits dest: wl_inv_Abort_begin)
next
  case (EvAbortEnd i)
  with assms show ?thesis
    by (auto simp: do_abort_end_def run_inv_def looping_def wl_inv_Abort_end split: if_splits option.splits)
next
  case (EvRetry i)
  with assms show ?thesis
    by (auto simp: wl_inv_Retry run_inv_def looping_def split: if_splits)
next
  case (EvAdd stamp it)
  with assms show ?thesis
    using wl_inv_Add [of "rs_wl s" stamp it] by (auto simp: run_inv_def looping_def prod_eq_iff split: if_splits)
next
  case (EvRemove stamp i)
  with assms show ?thesis
    using wl_inv_Remove [of "rs_wl s" stamp i] by (auto simp: run_inv_def looping_def prod_eq_iff split: if_splits)
next
  case (EvChildEnds c err)
  with assms show ?thesis
    by (auto simp: do_child_ends_def run_inv_def looping_def Let_def split: option.splits)
next
  case (EvMarkerPlaced i)
  with assms show ?thesis by (auto simp: run_inv_def looping_def)
next
  case (EvFileEdited stamp doc)
  with assms show ?thesis by (auto simp: run_inv_def looping_def)
next
  case (EvDisk ok)
  with assms show ?thesis by (auto simp: run_inv_def looping_def)
qed (use assms(2) in \<open>simp_all add: run_inv_loop [OF assms(1)]\<close>)

lemma run_inv_reachable: "reachable pt api s0 s \<Longrightarrow> run_inv s0 \<Longrightarrow> run_inv s"
  by (induction rule: reachable.induct) (auto dest: run_inv_event)

section \<open>Without an API abort, every live agent is accounted for\<close>

fun draining :: "run_pc \<Rightarrow> nat \<Rightarrow> string \<Rightarrow> bool" where
  "draining (Draining c i ids supp) d j \<longleftrightarrow> d = c \<and> j = i"
| "draining _ d j \<longleftrightarrow> False"

text \<open>Whether an id cannot be launched before the next reap: the loop is past its pass, or suppresses it.\<close>

fun held_out :: "run_pc \<Rightarrow> string \<Rightarrow> bool" where
  "held_out (AtMarkers ids supp) i \<longleftrightarrow> i \<in> set supp"
| "held_out (Draining c j ids supp) i \<longleftrightarrow> i = j \<or> i \<in> set supp"
| "held_out (AtTopology supp) i \<longleftrightarrow> i \<in> set supp"
| "held_out (AtRead supp topo) i \<longleftrightarrow> i \<in> set supp"
| "held_out (AtInstall supp topo items stamp) i \<longleftrightarrow> i \<in> set supp"
| "held_out (AtPass supp topo) i \<longleftrightarrow> i \<in> set supp"
| "held_out _ i \<longleftrightarrow> True"

text \<open>
  Every child still waited for is that of its item's flight, or is being drained; every result not yet
  taken up is that of its item's flight, or is of an item without one that cannot be launched yet.
\<close>

definition flight_child :: "worklist \<Rightarrow> string \<Rightarrow> nat option" where
  "flight_child w i = map_option fl_child (map_of (wl_inflight w) i)"

definition tracked :: "(nat \<Rightarrow> string \<Rightarrow> bool) \<Rightarrow> (string \<Rightarrow> bool) \<Rightarrow> worklist \<Rightarrow> bool" where
  "tracked D H w \<longleftrightarrow>
     (\<forall>(c, i) \<in> set (wl_waits w). flight_child w i = Some c \<or> D c i) \<and>
     (\<forall>r \<in> set (wl_results w). flight_child w (cr_id r) = Some (cr_child r) \<or>
        flight_child w (cr_id r) = None \<and> H (cr_id r)) \<and>
     (\<forall>c i. D c i \<longrightarrow> flight_child w i = None) \<and>
     distinct (map fst (wl_waits w) @ map cr_child (wl_results w)) \<and>
     (\<forall>c \<in> set (map fst (wl_waits w) @ map cr_child (wl_results w)). c < wl_launched w)"

definition owned :: "run_state \<Rightarrow> bool" where
  "owned s \<longleftrightarrow> tracked (draining (rs_pc s)) (held_out (rs_pc s)) (rs_wl s)"

lemma tracked_I:
  assumes "\<And>c i. (c, i) \<in> set (wl_waits w) \<Longrightarrow> flight_child w i = Some c \<or> D c i"
    and "\<And>r. r \<in> set (wl_results w) \<Longrightarrow> flight_child w (cr_id r) = Some (cr_child r) \<or>
        flight_child w (cr_id r) = None \<and> H (cr_id r)"
    and "\<And>c i. D c i \<Longrightarrow> flight_child w i = None"
    and "distinct (map fst (wl_waits w) @ map cr_child (wl_results w))"
    and "\<And>c. c \<in> set (map fst (wl_waits w) @ map cr_child (wl_results w)) \<Longrightarrow> c < wl_launched w"
  shows "tracked D H w"
  unfolding tracked_def using assms by auto

lemma tracked_D:
  assumes "tracked D H w"
  shows "(c, i) \<in> set (wl_waits w) \<Longrightarrow> flight_child w i = Some c \<or> D c i"
    and "r \<in> set (wl_results w) \<Longrightarrow> flight_child w (cr_id r) = Some (cr_child r) \<or>
        flight_child w (cr_id r) = None \<and> H (cr_id r)"
    and "D c i \<Longrightarrow> flight_child w i = None"
    and "distinct (map fst (wl_waits w) @ map cr_child (wl_results w))"
    and "c \<in> set (map fst (wl_waits w) @ map cr_child (wl_results w)) \<Longrightarrow> c < wl_launched w"
  using assms unfolding tracked_def by auto

lemma tracked_disjoint:
  "tracked D H w \<Longrightarrow> (c, i) \<in> set (wl_waits w) \<Longrightarrow> r \<in> set (wl_results w) \<Longrightarrow> cr_child r \<noteq> c"
  using tracked_D(4) [of D H w] by force

lemma tracked_weaken:
  "tracked D H w \<Longrightarrow> (\<And>i. H i \<Longrightarrow> H' i) \<Longrightarrow> tracked D H' w"
  by (auto simp: tracked_def)

lemma tracked_cong:
  assumes "wl_waits w' = wl_waits w" "wl_results w' = wl_results w" "wl_inflight w' = wl_inflight w"
    "wl_launched w' = wl_launched w"
  shows "tracked D H w' = tracked D H w"
  by (simp add: tracked_def flight_child_def assms)

lemma tracked_simps [simp]:
  "tracked D H (w\<lparr>wl_records := m\<rparr>) = tracked D H w" "tracked D H (w\<lparr>wl_saved := m\<rparr>) = tracked D H w"
  "tracked D H (w\<lparr>wl_items := its\<rparr>) = tracked D H w" "tracked D H (w\<lparr>wl_stopping := st\<rparr>) = tracked D H w"
  "tracked D H (w\<lparr>wl_doc := d\<rparr>) = tracked D H w" "tracked D H (w\<lparr>wl_stamp := t\<rparr>) = tracked D H w"
  "tracked D H (w\<lparr>wl_last := t\<rparr>) = tracked D H w" "tracked D H (w\<lparr>wl_files := fs\<rparr>) = tracked D H w"
  "tracked D H (w\<lparr>wl_disk_ok := b\<rparr>) = tracked D H w" "tracked D H (saveLocked w) = tracked D H w"
  "tracked D H (pruneLocked w) = tracked D H w"
  by (rule tracked_cong; simp)+

lemma tracked_launched:
  assumes t: "tracked (\<lambda>_ _. False) H w" and n: "map_of (wl_inflight w) (it_ID it) = None" and "\<not> H (it_ID it)"
  shows "tracked (\<lambda>_ _. False) H (launched now it node w)"
proof -
  have child: "flight_child (launched now it node w) i =
      (if i = it_ID it then Some (wl_launched w) else flight_child w i)" for i
    by (simp add: flight_child_def launched_def)
  have none: "flight_child w (it_ID it) = None" using n by (simp add: flight_child_def)
  have waits: "\<forall>(c, i) \<in> set (wl_waits w). i \<noteq> it_ID it" and results: "\<forall>r \<in> set (wl_results w). cr_id r \<noteq> it_ID it"
    using t none assms(3) by (auto simp: tracked_def)
  show ?thesis
    using t waits results unfolding tracked_def child
    by (auto simp: launched_def less_Suc_eq)
qed

lemma tracked_admit_item:
  assumes "tracked (\<lambda>_ _. False) (\<lambda>i. i \<in> set supp) w"
  shows "tracked (\<lambda>_ _. False) (\<lambda>i. i \<in> set supp) (admit_item pt launch now topo supp it w)"
proof (rule admit_item_cases [where pt = pt and launch = launch and now = now and topo = topo
        and supp = supp and it = it and w = w])
  fix node e ns
  assume "admit_item pt launch now topo supp it w = launch_failed now it node e w"
  with assms show ?thesis
    by (simp add: launch_failed_def)
next
  fix node ns
  assume a: "admit_item pt launch now topo supp it w = launched now it node w" "\<not> skipped supp it w"
  then show ?thesis
    using assms by (auto simp: skipped_def intro: tracked_launched)
qed (simp add: assms)

lemma tracked_pass:
  assumes "tracked (\<lambda>_ _. False) (\<lambda>i. i \<in> set supp) w"
  shows "tracked (\<lambda>_ _. False) (\<lambda>i. i \<in> set supp) (pass pt launch now topo supp w)"
proof -
  have "tracked (\<lambda>_ _. False) (\<lambda>i. i \<in> set supp) v \<Longrightarrow>
      tracked (\<lambda>_ _. False) (\<lambda>i. i \<in> set supp) (fold (admit_item pt launch now topo supp) its v)" for its v
    by (induction its arbitrary: v) (auto simp: tracked_admit_item)
  then show ?thesis using assms by (simp add: pass_def Let_def)
qed

lemma finish_frame [simp]:
  "wl_waits (finish now r w) = wl_waits w" "wl_results (finish now r w) = wl_results w"
  "wl_launched (finish now r w) = wl_launched w"
  by (simp_all add: finish_def split: option.split)

lemma fold_finish_frame [simp]:
  "wl_waits (fold (finish now) rs w) = wl_waits w" "wl_results (fold (finish now) rs w) = wl_results w"
  "wl_launched (fold (finish now) rs w) = wl_launched w"
  by (induction rs arbitrary: w) simp_all

lemma finish_other: "cr_id r \<noteq> i \<Longrightarrow> flight_child (finish now r w) i = flight_child w i"
  by (simp add: finish_def flight_child_def split: option.split)

lemma fold_finish_other:
  "i \<notin> cr_id ` set rs \<Longrightarrow> flight_child (fold (finish now) rs w) i = flight_child w i"
  by (induction rs arbitrary: w) (auto simp: finish_other)

text \<open>A reap leaves alone the flights of the children still waited for.\<close>

lemma tracked_reap:
  assumes t: "tracked (\<lambda>_ _. False) H w" shows "tracked (\<lambda>_ _. False) H' (reap now w)"
proof -
  have "flight_child (reap now w) i = Some c" if "(c, i) \<in> set (wl_waits w)" for c i
  proof -
    have c: "flight_child w i = Some c" using t that by (auto simp: tracked_def)
    moreover have "i \<notin> cr_id ` set (wl_results w)"
    proof
      assume "i \<in> cr_id ` set (wl_results w)"
      then obtain r where r: "r \<in> set (wl_results w)" "cr_id r = i" by blast
      with t c have "cr_child r = c" by (auto simp: tracked_def)
      then have "c \<in> fst ` set (wl_waits w)" "c \<in> cr_child ` set (wl_results w)"
        using that r by force+
      moreover have "fst ` set (wl_waits w) \<inter> cr_child ` set (wl_results w) = {}"
        using t by (simp add: tracked_def)
      ultimately show False by blast
    qed
    ultimately show ?thesis
      unfolding reap_def by (subst fold_finish_other) (simp_all add: flight_child_def)
  qed
  then show ?thesis
    using t by (auto simp: tracked_def reap_def)
qed

lemma draining_eqs [simp]:
  "draining AtStart = (\<lambda>_ _. False)" "draining AtReap = (\<lambda>_ _. False)" "draining (AtMarkers ids supp) = (\<lambda>_ _. False)"
  "draining (AtTopology supp) = (\<lambda>_ _. False)" "draining (AtRead supp topo) = (\<lambda>_ _. False)"
  "draining (AtInstall supp topo items stamp) = (\<lambda>_ _. False)"
  "draining (AtPass supp topo) = (\<lambda>_ _. False)" "draining AtSave = (\<lambda>_ _. False)"
  "draining Resting = (\<lambda>_ _. False)" "draining ShuttingDown = (\<lambda>_ _. False)"
  "draining Ended = (\<lambda>_ _. False)"
  by (simp_all add: fun_eq_iff)

lemma held_out_eqs [simp]:
  "held_out AtStart = (\<lambda>_. True)" "held_out AtReap = (\<lambda>_. True)" "held_out AtSave = (\<lambda>_. True)" "held_out Resting = (\<lambda>_. True)"
  "held_out ShuttingDown = (\<lambda>_. True)" "held_out Ended = (\<lambda>_. True)"
  "held_out (AtMarkers ids supp) = (\<lambda>i. i \<in> set supp)" "held_out (AtTopology supp) = (\<lambda>i. i \<in> set supp)"
  "held_out (AtRead supp topo) = (\<lambda>i. i \<in> set supp)" "held_out (AtPass supp topo) = (\<lambda>i. i \<in> set supp)"
  "held_out (AtInstall supp topo items stamp) = (\<lambda>i. i \<in> set supp)"
  by (simp_all add: fun_eq_iff)

lemma tracked_detach:
  assumes "tracked (\<lambda>_ _. False) (\<lambda>j. j \<in> set supp) w" and "detachLocked i w = Some (fl, w')"
  shows "tracked (draining (Draining (fl_child fl) i ids supp)) (held_out (Draining (fl_child fl) i ids supp)) w'"
proof -
  from assms(2) have fl: "flight_child w i = Some (fl_child fl)"
    and w': "w' = saveLocked (w\<lparr>wl_inflight := AList.delete i (wl_inflight w),
                       wl_records := AList.delete i (wl_records w)\<rparr>)"
    by (simp_all add: detachLocked_Some flight_child_def)
  have child: "flight_child w' j = (if j = i then None else flight_child w j)" for j
    by (simp add: w' flight_child_def)
  have same: "wl_waits w' = wl_waits w" "wl_results w' = wl_results w" "wl_launched w' = wl_launched w"
    by (simp_all add: w')
  show ?thesis
  proof (rule tracked_I)
    fix c j assume "(c, j) \<in> set (wl_waits w')"
    with tracked_D(1) [OF assms(1), of c j] fl
    show "flight_child w' j = Some c \<or> draining (Draining (fl_child fl) i ids supp) c j"
      by (auto simp: child same)
  next
    fix r assume "r \<in> set (wl_results w')"
    with tracked_D(2) [OF assms(1), of r]
    show "flight_child w' (cr_id r) = Some (cr_child r) \<or>
        flight_child w' (cr_id r) = None \<and> held_out (Draining (fl_child fl) i ids supp) (cr_id r)"
      by (auto simp: child same)
  qed (use tracked_D(4,5) [OF assms(1)] in \<open>simp_all add: child same\<close>)
qed

lemma tracked_drained:
  assumes "tracked (draining (Draining c i ids supp)) (held_out (Draining c i ids supp)) w"
    and "c \<notin> fst ` set (wl_waits w)"
  shows "tracked (\<lambda>_ _. False) (\<lambda>j. j \<in> set (i # supp)) w"
proof (rule tracked_I)
  fix d j assume "(d, j) \<in> set (wl_waits w)"
  then show "flight_child w j = Some d \<or> False"
    using tracked_D(1) [OF assms(1), of d j] assms(2) by force
qed (use tracked_D(2,4,5) [OF assms(1)] in auto)

lemma tracked_child_ends:
  assumes t: "tracked D H w" and D: "\<And>c i. D c i \<Longrightarrow> H i" and c: "map_of (wl_waits w) c = Some i"
  shows "tracked D H (w\<lparr>wl_waits := filter (\<lambda>(d, _). d \<noteq> c) (wl_waits w),
      wl_results := wl_results w @ [\<lparr>cr_id = i, cr_err = err, cr_child = c\<rparr>]\<rparr>)" (is "tracked D H ?w'")
proof -
  have ci: "(c, i) \<in> set (wl_waits w)" using c by (rule map_of_SomeD)
  have child: "flight_child ?w' = flight_child w" by (simp add: fun_eq_iff flight_child_def)
  have new: "flight_child w i = Some c \<or> flight_child w i = None \<and> H i"
    using tracked_D(1) [OF t ci] tracked_D(3) [OF t, of c i] D [of c i] by blast
  have dist: "distinct (map fst (filter (\<lambda>(d, _). d \<noteq> c) (wl_waits w)))"
    using tracked_D(4) [OF t] by (auto simp: distinct_map intro: inj_on_subset)
  have "c \<notin> cr_child ` set (wl_results w)"
    using tracked_disjoint [OF t ci] by force
  with dist have all: "distinct (map fst (wl_waits ?w') @ map cr_child (wl_results ?w'))"
    using tracked_D(4) [OF t] by auto
  have lt: "d < wl_launched w" if "d \<in> fst ` set (wl_waits w) \<union> cr_child ` set (wl_results w)" for d
    using tracked_D(5) [OF t, of d] that by simp
  show ?thesis
  proof (rule tracked_I)
    fix r assume "r \<in> set (wl_results ?w')"
    then show "flight_child ?w' (cr_id r) = Some (cr_child r) \<or> flight_child ?w' (cr_id r) = None \<and> H (cr_id r)"
      using new tracked_D(2) [OF t, of r] unfolding child by auto
  next
    fix d assume "d \<in> set (map fst (wl_waits ?w') @ map cr_child (wl_results ?w'))"
    then have "d \<in> fst ` set (wl_waits w) \<union> cr_child ` set (wl_results w)" using ci by force
    then show "d < wl_launched ?w'" using lt by simp
  qed (use tracked_D(1,3) [OF t] all in \<open>auto simp: child\<close>)
qed

lemma tracked_dropFlight:
  assumes t: "tracked (\<lambda>_ _. False) (\<lambda>_. True) w" and r: "wl_results w = r # rs"
  shows "tracked (\<lambda>_ _. False) (\<lambda>_. True) (dropFlight (cr_id r) (w\<lparr>wl_results := rs\<rparr>))"
proof -
  have other: "i \<noteq> cr_id r" if "(c, i) \<in> set (wl_waits w)" for c i
    using tracked_D(1) [OF t that] tracked_D(2) [OF t, of r] tracked_disjoint [OF t that, of r] r by auto
  have child: "flight_child (dropFlight (cr_id r) (w\<lparr>wl_results := rs\<rparr>)) i =
      (if i = cr_id r then None else flight_child w i)" for i
    by (simp add: flight_child_def dropFlight_def)
  show ?thesis
  proof (rule tracked_I)
    fix c i assume "(c, i) \<in> set (wl_waits (dropFlight (cr_id r) (w\<lparr>wl_results := rs\<rparr>)))"
    then have "(c, i) \<in> set (wl_waits w)" by (simp add: dropFlight_def)
    with other tracked_D(1) [OF t this]
    show "flight_child (dropFlight (cr_id r) (w\<lparr>wl_results := rs\<rparr>)) i = Some c \<or> False"
      by (auto simp: child)
  next
    fix q assume "q \<in> set (wl_results (dropFlight (cr_id r) (w\<lparr>wl_results := rs\<rparr>)))"
    then have "q \<in> set (wl_results w)" using r by (simp add: dropFlight_def)
    from tracked_D(2) [OF t this]
    show "flight_child (dropFlight (cr_id r) (w\<lparr>wl_results := rs\<rparr>)) (cr_id q) = Some (cr_child q) \<or>
        flight_child (dropFlight (cr_id r) (w\<lparr>wl_results := rs\<rparr>)) (cr_id q) = None \<and> True"
      by (auto simp: child)
  qed (use tracked_D(4,5) [OF t] r in \<open>auto simp: dropFlight_def\<close>)
qed

lemma draining_held: "draining pc c i \<Longrightarrow> held_out pc i"
  by (cases pc) auto

lemma owned_start: "wl_waits w = [] \<Longrightarrow> wl_results w = [] \<Longrightarrow> owned (run_start w)"
  by (simp add: owned_def run_start_def tracked_def)

lemma owned_marker: "owned s \<Longrightarrow> do_marker s = Some s' \<Longrightarrow> owned s'"
  by (cases "rs_pc s")
     (auto simp: owned_def do_marker_def simp del: draining.simps held_out.simps
       split: list.splits option.splits if_splits intro: tracked_detach dest: tracked_drained)

lemma owned_reap: "owned s \<Longrightarrow> do_reap now s = Some s' \<Longrightarrow> owned s'"
  by (auto simp: owned_def do_reap_def intro: tracked_reap split: if_splits)

lemma owned_pass: "owned s \<Longrightarrow> do_pass pt launch now s = Some s' \<Longrightarrow> owned s'"
  by (cases "rs_pc s") (auto simp: owned_def do_pass_def intro: tracked_weaken [OF tracked_pass])

lemma owned_read: "owned s \<Longrightarrow> do_read s = Some s' \<Longrightarrow> owned s'"
  by (cases "rs_pc s")
     (auto simp: owned_def do_read_def intro: tracked_weaken split: option.splits sum.splits)

lemma owned_loop:
  "owned s \<Longrightarrow> do_topology topo s = Some s' \<Longrightarrow> owned s'"
  "owned s \<Longrightarrow> do_gateway_gone s = Some s' \<Longrightarrow> owned s'"
  "owned s \<Longrightarrow> do_install s = Some s' \<Longrightarrow> owned s'"
  by (cases "rs_pc s";
      auto simp: owned_def do_topology_def do_gateway_gone_def do_install_def install_items_def
        intro: tracked_weaken)+

lemma owned_save_tick:
  "owned s \<Longrightarrow> do_save s = Some s' \<Longrightarrow> owned s'" "owned s \<Longrightarrow> do_tick s = Some s' \<Longrightarrow> owned s'"
  by (auto simp: owned_def do_save_def do_tick_def split: if_splits)

lemma owned_interrupt: "owned s \<Longrightarrow> do_interrupt s = Some s' \<Longrightarrow> owned s'"
  by (cases "rs_pc s") (auto simp: owned_def do_interrupt_def shutdown_begin_def intro: tracked_weaken)

lemma owned_shut_result: "owned s \<Longrightarrow> do_shut_result s = Some s' \<Longrightarrow> owned s'"
  by (auto simp: owned_def do_shut_result_def split: if_splits list.splits intro: tracked_dropFlight)

lemma tracked_api:
  "tracked D H (snd (Retry i w)) = tracked D H w" "tracked D H (snd (Add stamp it w)) = tracked D H w"
  "tracked D H (snd (Remove stamp i w)) = tracked D H w" "tracked D H (Abort_end i w) = tracked D H w"
  by (simp_all add: Retry_def Add_def add_write_def Remove_def writeItemsFile_def Abort_end_def Let_def
      split: option.splits)

lemma owned_event:
  assumes "owned s" and "do_event pt e s = Some s'" and "\<not> is_api_abort e"
  shows "owned s'"
proof (cases e)
  case (EvChildEnds c err)
  with assms show ?thesis
    by (auto simp: do_child_ends_def owned_def Let_def intro!: tracked_child_ends draining_held
        split: option.splits)
next
  case (EvAbortEnd i)
  with assms show ?thesis
    by (auto simp: do_abort_end_def owned_def tracked_api split: if_splits option.splits)
qed (use assms in \<open>auto simp: owned_def tracked_api split: if_splits
      dest: owned_marker [unfolded owned_def] owned_reap [unfolded owned_def] owned_pass [unfolded owned_def]
        owned_read [unfolded owned_def] owned_loop [unfolded owned_def] owned_save_tick [unfolded owned_def]
        owned_interrupt [unfolded owned_def] owned_shut_result [unfolded owned_def]\<close>)

lemma owned_reachable: "reachable pt False s0 s \<Longrightarrow> owned s0 \<Longrightarrow> owned s"
  by (induction rule: reachable.induct) (auto dest: owned_event)

section \<open>What holds of every run\<close>

lemma NewWorkList_idle:
  "NewWorkList env = Inr w \<Longrightarrow> wl_waits w = [] \<and> wl_results w = []"
  by (auto simp: NewWorkList_def split: sum.splits)

text \<open>
  C2: a run that begins from a recovered record, in which nothing is recorded running, keeps records
  and flights in agreement until it ends or is interrupted, however its passes, the ends of children, the API's operations, edits of the
  file and failures of the disk interleave: an item is recorded running exactly while it is in flight,
  no item whose abort is being waited for is in flight, no two flights share a child, and the items of
  the list are well formed and of distinct ids.
\<close>

theorem run_records_agree:
  assumes "NewWorkList env = Inr w" and "keys_distinct (wl_saved env)"
    and "\<not> list_ex (\<lambda>(k, st). st_State st = StateRunning) (wl_saved env)"
    and "reachable pt api (run_start w) s" and "looping s"
  shows "wl_inv (rs_wl s)"
  using run_inv_reachable [OF assms(4) run_inv_start [OF NewWorkList_inv [OF assms(1-3)]]] assms(5)
  by (simp add: run_inv_def)


section \<open>A small run\<close>

definition open_topo :: topology where
  "open_topo = \<lparr>tp_Wake = False, tp_Prefer = '''', tp_Concurrency = None,
     tp_Nodes = [plain_node ''n'' '''']\<rparr>"

definition demo_env :: worklist where
  "demo_env = (empty_worklist ''w'' '''')\<lparr>wl_doc := ItemsDoc [fileItemFromItem (demo_item ''a'')]\<rparr>"

definition demo_work :: worklist where
  "demo_work = demo_env\<lparr>wl_items := [demo_item ''a'']\<rparr>"

definition one_round :: "run_event list" where
  "one_round = [EvTopology open_topo, EvReap ''t'', EvMarker, EvTopology open_topo, EvRead, EvPass demo_launch ''t'', EvSave, EvTick]"

lemma demo_NewWorkList: "NewWorkList demo_env = Inr demo_work"
proof -
  have "item_of_file (fileItemFromItem (demo_item ''a'')) = demo_item ''a''"
    by (simp add: item_of_fileItemFromItem demo_item_def)
  then have "ParseItems unmarshal_items (wl_doc demo_env) = Inr [demo_item ''a'']"
    unfolding ParseItems_Inr by (simp add: demo_env_def unmarshal_items_def)
  then show ?thesis
    by (simp add: NewWorkList_def demo_work_def demo_env_def empty_worklist_def)
qed

lemma demo_open_match [simp]: "Match pt (demo_item name) open_topo = [plain_node ''n'' '''']"
  by (simp add: Match_def open_topo_def rankBy_def)

lemma demo_open_admits [simp]: "Admits open_topo infl it"
  by (simp add: Admits_def open_topo_def)

lemma demo_launch_none [simp]: "demo_launch it node path = None"
  by (simp add: demo_launch_def)

lemma sorted_single [simp]: "sortedForAdmission [it] = [it]"
  by (simp add: sortedForAdmission_def)

lemmas run_evaluation = one_round_def run_start_def run_events demo_work_def demo_env_def empty_worklist_def
  reap_def finish_def pass_def pruneLocked_def admit_item_def skipped_def launched_def saveLocked_def
  read_changed_def detachLocked_def Abort_begin_def Abort_end_def Retry_def Remove_def install_items_def
  writeItemsFile_def carries_def ended_state_def looping_def Let_def

lemma demo_round:
  "\<exists>s. reachable short_times False (run_start demo_work) s \<and> looping s \<and>
     (0, ''a'') \<in> set (wl_waits (rs_wl s)) \<and> map_of (wl_inflight (rs_wl s)) ''a'' \<noteq> None"
proof -
  have "\<exists>s. run_trace short_times one_round (run_start demo_work) = Some s \<and> looping s \<and>
     (0, ''a'') \<in> set (wl_waits (rs_wl s)) \<and> map_of (wl_inflight (rs_wl s)) ''a'' \<noteq> None"
    by (simp add: run_evaluation)
  moreover have "\<not> list_ex is_api_abort one_round" by (simp add: one_round_def)
  ultimately show ?thesis
    using reachable_trace [OF reachable.start] by blast
qed

theorem run_records_agree_witness:
  "\<exists>s. reachable short_times False (run_start demo_work) s \<and> wl_inv (rs_wl s) \<and>
     map_of (wl_inflight (rs_wl s)) ''a'' \<noteq> None"
proof -
  have "keys_distinct (wl_saved demo_env) \<and> \<not> list_ex (\<lambda>(k, st). st_State st = StateRunning) (wl_saved demo_env)"
    by (simp add: demo_env_def empty_worklist_def)
  then show ?thesis
    using demo_round run_records_agree [OF demo_NewWorkList] by blast
qed


section \<open>Two runs that go wrong\<close>


text \<open>
  A remove over the API can be undone by the re-read it runs into. The loop has read the edited
  file when the remove takes the item out of list and file; installing what was read puts the item
  back, and the pass launches an item that the file does not carry any more.
\<close>

theorem removed_item_launched:
  "\<exists>s. reachable short_times False (run_start demo_work) s \<and>
     wl_doc (rs_wl s) = ItemsDoc [] \<and> map_of (wl_inflight (rs_wl s)) ''a'' \<noteq> None"
proof -
  let ?es = "[EvFileEdited (1, 1) (ItemsDoc [fileItemFromItem (demo_item ''a'')]),
      EvTopology open_topo, EvReap ''t'', EvMarker, EvTopology open_topo, EvRead, EvRemove (2, 2) ''a'', EvInstall,
      EvPass demo_launch ''t'']"
  have parse: "ParseItems unmarshal_items (ItemsDoc [fileItemFromItem (demo_item ''a'')]) = Inr [demo_item ''a'']"
    unfolding ParseItems_Inr by (simp add: unmarshal_items_def item_of_fileItemFromItem demo_item_def valid_item_def)
  have "\<exists>s. run_trace short_times ?es (run_start demo_work) = Some s \<and>
     wl_doc (rs_wl s) = ItemsDoc [] \<and> map_of (wl_inflight (rs_wl s)) ''a'' \<noteq> None"
    by (simp add: run_evaluation parse)
  then show ?thesis
    using reachable_trace [OF reachable.start] by fastforce
qed

end
