(* ===== verification/HttpGate.thy ===== *)
theory HttpGate
  imports GoStrings
begin

text \<open>
  What the program's HTTP surfaces share: the split of a listen address (\<^verbatim>\<open>net.SplitHostPort\<close>), the
  rule that an address off loopback needs a token, the bearer gate, and the grading of a call's log
  line. Which texts are loopback IP addresses (\<^verbatim>\<open>net.ParseIP\<close>, \<^verbatim>\<open>IP.IsLoopback\<close>) is a parameter.
\<close>

section \<open>Listen addresses\<close>

text \<open>\<open>None\<close> is the error of the Go function.\<close>

definition split_host_port :: "string \<Rightarrow> (string \<times> string) option" where
  "split_host_port hp =
     (case last_index_byte hp CHR '':'' of
        None \<Rightarrow> None
      | Some i \<Rightarrow>
          if prefix ''['' hp then
            (case index_byte hp CHR '']'' of
               None \<Rightarrow> None
             | Some close \<Rightarrow>
                 if Suc close \<noteq> i then None
                 else if CHR ''['' \<in> set (drop 1 hp) \<or> CHR '']'' \<in> set (drop (Suc close) hp) then None
                 else Some (take (close - 1) (drop 1 hp), drop (Suc i) hp))
          else if CHR '':'' \<in> set (take i hp) \<or> CHR ''['' \<in> set hp \<or> CHR '']'' \<in> set hp then None
          else Some (take i hp, drop (Suc i) hp))"

definition loopbackAddr :: "(string \<Rightarrow> bool) \<Rightarrow> string \<Rightarrow> bool" where
  "loopbackAddr loopback_ip addr =
     (let host = (case split_host_port addr of None \<Rightarrow> addr | Some (h, _) \<Rightarrow> h)
      in if host = '''' then False
         else if to_lower host = ''localhost'' then True
         else loopback_ip host)"

text \<open>The refusal of an exposed address without a token; \<open>True\<close> is that the listener is opened.\<close>

definition Listen_allowed :: "(string \<Rightarrow> bool) \<Rightarrow> string \<Rightarrow> string \<Rightarrow> bool" where
  "Listen_allowed loopback_ip addr token \<longleftrightarrow> \<not> (token = '''' \<and> \<not> loopbackAddr loopback_ip addr)"

lemma index_byte_split: "index_byte s c = Some i \<Longrightarrow> s = take i s @ c # drop (Suc i) s"
  using index_byte_Some [of s c i] id_take_nth_drop [of i s] by auto

lemma last_index_byte_last:
  "c \<notin> set p \<Longrightarrow> last_index_byte (h @ c # p) c = Some (length h)"
  by (simp add: last_index_byte_def index_byte_append)

lemma split_host_port_plain:
  "CHR '':'' \<notin> set h \<Longrightarrow> CHR '':'' \<notin> set p \<Longrightarrow> CHR ''['' \<notin> set (h @ p) \<Longrightarrow> CHR '']'' \<notin> set (h @ p) \<Longrightarrow>
     split_host_port (h @ CHR '':'' # p) = Some (h, p)"
proof -
  assume a: "CHR '':'' \<notin> set h" "CHR '':'' \<notin> set p" "CHR ''['' \<notin> set (h @ p)" "CHR '']'' \<notin> set (h @ p)"
  have "last_index_byte (h @ CHR '':'' # p) CHR '':'' = Some (length h)"
    using a(2) by (rule last_index_byte_last)
  moreover have "\<not> prefix ''['' (h @ CHR '':'' # p)"
    using a(3) by (cases h) auto
  ultimately show ?thesis
    using a by (simp add: split_host_port_def)
qed

section \<open>The bearer gate\<close>

definition bearer_of :: "string \<Rightarrow> string" where
  "bearer_of token = ''Bearer '' @ token"

definition authorized :: "string \<Rightarrow> string \<Rightarrow> bool" where
  "authorized token header \<longleftrightarrow> token = '''' \<or> header = bearer_of token"

text \<open>
  What every surface promises: a call without the right bearer changes nothing and is answered the
  same whatever it asks for; a sequence of such calls leaves the state it found.
\<close>

locale bearer_gate =
  fixes serve :: "string \<Rightarrow> 'rq \<Rightarrow> 's \<Rightarrow> 'rp \<times> 's" and header :: "'rq \<Rightarrow> string" and refused :: 'rp
  assumes gate: "\<not> authorized token (header r) \<Longrightarrow> serve token r s = (refused, s)"
begin

lemma all_refused:
  "\<forall>r \<in> set rs. \<not> authorized token (header r) \<Longrightarrow>
     fold (\<lambda>r s. snd (serve token r s)) rs s = s"
  by (induction rs) (simp_all add: gate)

lemma refused_alike:
  "\<not> authorized token (header r) \<Longrightarrow> \<not> authorized token (header q) \<Longrightarrow>
     fst (serve token r s) = fst (serve token q t)"
  by (simp add: gate)

lemma unauthorized_between:
  "\<forall>r \<in> set rs. \<not> authorized token (header r) \<Longrightarrow>
     serve token q (fold (\<lambda>r s. snd (serve token r s)) rs s) = serve token q s"
  by (simp add: all_refused)

end

section \<open>The call log\<close>

datatype log_level = LevelDebug | LevelWarn | LevelError

definition levelForStatus :: "nat \<Rightarrow> log_level" where
  "levelForStatus status =
     (if status \<ge> 500 then LevelError else if status \<ge> 400 then LevelWarn else LevelDebug)"

text \<open>A handler that wrote no status answered 200.\<close>

definition recorded_status :: "nat \<Rightarrow> nat" where
  "recorded_status status = (if status = 0 then 200 else status)"

definition cut_prefix :: "string \<Rightarrow> string \<Rightarrow> string option" where
  "cut_prefix s p = (if prefix p s then Some (drop (length p) s) else None)"

lemma cut_prefix_append [simp]: "cut_prefix (p @ s) p = Some s"
  by (simp add: cut_prefix_def)

end
