(* ===== verification/WorkApi.thy ===== *)
theory WorkApi
  imports WorkList HttpGate
begin

text \<open>
  \<^verbatim>\<open>internal/orchestrator/api.go\<close>: the work list over HTTP. A request is its method, path, bearer header
  and body; the JSON decoding of a body is a parameter (\<open>decode\<close>). A handler answers a status and a
  body and the list it leaves; an abort that was taken up answers when the agent has exited, so its
  answer stands for the list at that point.
\<close>

record api_request =
  rq_method :: string
  rq_path :: string
  rq_auth :: string
  rq_body :: "string + string"

datatype api_body =
    BodyHealth
  | BodyList "item_view list"
  | BodyCreated string
  | BodyLog string "string option"
  | BodyDone string
  | BodyRefused work_refusal
  | BodyBadRequest string
  | BodyNotServed string string
  | BodyUnauthorized

record api_reply =
  rp_status :: nat
  rp_body :: api_body

section \<open>Routing\<close>

text \<open>The id and the action of \<^verbatim>\<open>/v1/items/<id>[/<action>]\<close>.\<close>

definition itemPath :: "string \<Rightarrow> (string \<times> string) option" where
  "itemPath path =
     (case cut_prefix path ''/v1/items/'' of
        None \<Rightarrow> None
      | Some rest \<Rightarrow>
          (case split_on CHR ''/'' rest of
             [i] \<Rightarrow> if i = '''' then None else Some (i, '''')
           | [i, action] \<Rightarrow> if i = '''' \<or> action = '''' then None else Some (i, action)
           | _ \<Rightarrow> None))"

datatype api_route =
    RouteHealth | RouteList | RouteAdd
  | RouteRemove string | RouteLog string | RouteAbort string | RouteRetry string
  | RouteNone

definition route :: "string \<Rightarrow> string \<Rightarrow> api_route" where
  "route m path =
     (if m = ''GET'' \<and> path = ''/health'' then RouteHealth
      else if m = ''GET'' \<and> path = ''/v1/items'' then RouteList
      else if m = ''POST'' \<and> path = ''/v1/items'' then RouteAdd
      else case itemPath path of
        None \<Rightarrow> RouteNone
      | Some (i, action) \<Rightarrow>
          if action = '''' \<and> m = ''DELETE'' then RouteRemove i
          else if action = ''log'' \<and> m = ''GET'' then RouteLog i
          else if action = ''abort'' \<and> m = ''POST'' then RouteAbort i
          else if action = ''retry'' \<and> m = ''POST'' then RouteRetry i
          else RouteNone)"

section \<open>Handlers\<close>

definition reply :: "nat \<Rightarrow> api_body \<Rightarrow> api_reply" where
  "reply status body = \<lparr>rp_status = status, rp_body = body\<rparr>"

definition writeError :: "work_refusal \<Rightarrow> api_reply" where
  "writeError e = reply (apiStatus e) (BodyRefused e)"

definition answer_done :: "string \<Rightarrow> work_refusal option \<times> worklist \<Rightarrow> api_reply \<times> worklist" where
  "answer_done i r =
     (case r of (None, w) \<Rightarrow> (reply 200 (BodyDone i), w) | (Some e, w) \<Rightarrow> (writeError e, w))"

definition handleHealth :: "worklist \<Rightarrow> api_reply \<times> worklist" where
  "handleHealth w = (reply 200 BodyHealth, w)"

definition handleList :: "worklist \<Rightarrow> api_reply \<times> worklist" where
  "handleList w = (reply 200 (BodyList (List_work w)), w)"

text \<open>The body is read up to a mebibyte; what lies beyond is cut off before it is decoded.\<close>

definition handleAdd ::
  "(string \<Rightarrow> string + item) \<Rightarrow> int \<times> int \<Rightarrow> string + string \<Rightarrow> worklist \<Rightarrow> api_reply \<times> worklist" where
  "handleAdd decode stamp body w =
     (case body of
        Inl e \<Rightarrow> (reply 400 (BodyBadRequest e), w)
      | Inr data \<Rightarrow>
          (case decode (take (2 ^ 20) data) of
             Inl e \<Rightarrow> (reply 400 (BodyBadRequest e), w)
           | Inr it \<Rightarrow>
               (case Add stamp it w of
                  (Some e, w') \<Rightarrow> (writeError e, w')
                | (None, w') \<Rightarrow> (reply 201 (BodyCreated (it_ID it)), w'))))"

definition handleLog :: "string \<Rightarrow> worklist \<Rightarrow> api_reply \<times> worklist" where
  "handleLog i w =
     (case Log i w of
        Inl e \<Rightarrow> (writeError e, w)
      | Inr out \<Rightarrow> (reply 200 (BodyLog i out), w))"

definition handleRemove :: "int \<times> int \<Rightarrow> string \<Rightarrow> worklist \<Rightarrow> api_reply \<times> worklist" where
  "handleRemove stamp i w = answer_done i (Remove stamp i w)"

text \<open>
  The wait for the agent lies between the two halves of an abort: the child has ended, as \<open>ended\<close>
  says, and its result stands at the channel.
\<close>

definition child_exits :: "string option \<Rightarrow> flight \<Rightarrow> worklist \<Rightarrow> worklist" where
  "child_exits ended fl w =
     (case map_of (wl_waits w) (fl_child fl) of
        None \<Rightarrow> w
      | Some i \<Rightarrow>
          w\<lparr>wl_waits := filter (\<lambda>(c, _). c \<noteq> fl_child fl) (wl_waits w),
            wl_results := wl_results w @ [\<lparr>cr_id = i, cr_err = ended, cr_child = fl_child fl\<rparr>]\<rparr>)"

definition handleAbort :: "string option \<Rightarrow> string \<Rightarrow> worklist \<Rightarrow> api_reply \<times> worklist" where
  "handleAbort ended i w =
     (case Abort_begin i w of
        Inl e \<Rightarrow> (writeError e, w)
      | Inr (fl, w') \<Rightarrow>
          (reply 200 (BodyDone i), Abort_end i (child_exits ended fl w')))"

definition handleRetry :: "string \<Rightarrow> worklist \<Rightarrow> api_reply \<times> worklist" where
  "handleRetry i w = answer_done i (Retry i w)"

definition notFound :: "string \<Rightarrow> string \<Rightarrow> worklist \<Rightarrow> api_reply \<times> worklist" where
  "notFound m path w = (reply 404 (BodyNotServed m path), w)"

definition handle ::
  "(string \<Rightarrow> string + item) \<Rightarrow> int \<times> int \<Rightarrow> string option \<Rightarrow> api_request \<Rightarrow> worklist \<Rightarrow> api_reply \<times> worklist" where
  "handle decode stamp ended r w =
     (case route (rq_method r) (rq_path r) of
        RouteHealth \<Rightarrow> handleHealth w
      | RouteList \<Rightarrow> handleList w
      | RouteAdd \<Rightarrow> handleAdd decode stamp (rq_body r) w
      | RouteRemove i \<Rightarrow> handleRemove stamp i w
      | RouteLog i \<Rightarrow> handleLog i w
      | RouteAbort i \<Rightarrow> handleAbort ended i w
      | RouteRetry i \<Rightarrow> handleRetry i w
      | RouteNone \<Rightarrow> notFound (rq_method r) (rq_path r) w)"

definition ServeHTTP ::
  "(string \<Rightarrow> string + item) \<Rightarrow> int \<times> int \<Rightarrow> string option \<Rightarrow> string \<Rightarrow> api_request \<Rightarrow> worklist \<Rightarrow> api_reply \<times> worklist" where
  "ServeHTTP decode stamp ended token r w =
     (if authorized token (rq_auth r) then handle decode stamp ended r w
      else (reply 401 BodyUnauthorized, w))"

definition logged_level :: "api_reply \<Rightarrow> log_level" where
  "logged_level rp = levelForStatus (recorded_status (rp_status rp))"

section \<open>What the surface promises\<close>

interpretation work_api: bearer_gate "ServeHTTP decode stamp ended" rq_auth "reply 401 BodyUnauthorized"
  for decode stamp ended
  by unfold_locales (simp add: ServeHTTP_def)

lemma itemPath_plain:
  "CHR ''/'' \<notin> set i \<Longrightarrow> i \<noteq> '''' \<Longrightarrow> itemPath (''/v1/items/'' @ i) = Some (i, '''')"
  by (simp only: itemPath_def cut_prefix_append option.case split_on_simple) simp

lemma itemPath_action:
  assumes "CHR ''/'' \<notin> set i" "i \<noteq> ''''" "CHR ''/'' \<notin> set action" "action \<noteq> ''''"
  shows "itemPath (''/v1/items/'' @ i @ CHR ''/'' # action) = Some (i, action)"
proof -
  have "split_on CHR ''/'' (i @ CHR ''/'' # action) = [i, action]"
    using assms by (simp add: split_on_append)
  with assms show ?thesis
    by (simp only: itemPath_def cut_prefix_append option.case) simp
qed



lemma apiStatus_refusal: "apiStatus e \<in> {400, 404, 409, 500}"
  by (cases e) (simp_all add: apiStatus_def)

lemma wl_inv_child_exits: "wl_inv w \<Longrightarrow> wl_inv (child_exits ended fl w)"
  by (simp add: child_exits_def split: option.split)

text \<open>Whether an answer is a success of the work list, a refusal or neither.\<close>

lemma writeError_status [simp]: "rp_status (writeError e) = apiStatus e" "rp_body (writeError e) = BodyRefused e"
  by (simp_all add: writeError_def reply_def)

lemma refusal_changes_nothing:
  "Remove stamp i w = (Some e, w') \<Longrightarrow> w' = w" "Retry i w = (Some e, w') \<Longrightarrow> w' = w"
  "Add stamp it w = (Some e, w') \<Longrightarrow> w' = w"
  by (auto simp: Retry_def Let_def split: if_splits dest: Remove_refused Add_refused)

text \<open>
  C39: every answer of the surface to an authorised caller has one of the statuses 200, 201, 400, 404,
  409 and 500; one that is no success leaves the list as it was; and every call, whatever it comes to,
  leaves a list in which records and flights agree.
\<close>

theorem api_answers:
  "rp_status (fst (handle decode stamp ended r w)) \<in> {200, 201, 400, 404, 409, 500} \<and>
   (rp_status (fst (handle decode stamp ended r w)) < 400 \<or> snd (handle decode stamp ended r w) = w) \<and>
   (wl_inv w \<longrightarrow> wl_inv (snd (handle decode stamp ended r w)))"
proof -
  define S :: "nat set" where "S = {200, 201, 400, 404, 409, 500}"
  have S: "200 \<in> S" "201 \<in> S" "400 \<in> S" "404 \<in> S" by (simp_all add: S_def)
  have st: "apiStatus e \<in> S" for e
    using apiStatus_refusal [of e] by (auto simp: S_def)
  have "rp_status p \<in> S \<and> (rp_status p < 400 \<or> w' = w) \<and> (wl_inv w \<longrightarrow> wl_inv w')"
    if "handle decode stamp ended r w = (p, w')" for p w'
  proof (cases "route (rq_method r) (rq_path r)")
    case RouteAdd
    with that show ?thesis
      using st S by (auto simp: handle_def handleAdd_def reply_def writeError_def
          split: sum.splits prod.splits option.splits dest: refusal_changes_nothing wl_inv_Add)
  next
    case (RouteRemove i)
    with that show ?thesis
      using st S by (auto simp: handle_def handleRemove_def answer_done_def reply_def writeError_def
          split: prod.splits option.splits dest: refusal_changes_nothing wl_inv_Remove)
  next
    case (RouteRetry i)
    with that wl_inv_Retry [of w i] show ?thesis
      using st S by (auto simp: handle_def handleRetry_def answer_done_def reply_def writeError_def
          split: prod.splits option.splits dest: refusal_changes_nothing)
  next
    case (RouteAbort i)
    with that show ?thesis
      using st S by (auto simp: handle_def handleAbort_def reply_def writeError_def
          split: sum.splits prod.splits intro!: wl_inv_Abort_end wl_inv_child_exits dest: wl_inv_Abort_begin)
  next
    case (RouteLog i)
    with that show ?thesis
      using st S by (auto simp: handle_def handleLog_def reply_def writeError_def split: sum.splits)
  qed (use that S in \<open>auto simp: handle_def handleHealth_def handleList_def notFound_def reply_def\<close>)
  then show ?thesis
    unfolding S_def [symmetric] by (cases "handle decode stamp ended r w") simp
qed

theorem api_answers_witness:
  "wl_inv demo_list \<and> wl_inv (snd (handle (\<lambda>_. Inl ''x'') (0, 0) None
     \<lparr>rq_method = ''DELETE'', rq_path = ''/v1/items/a'', rq_auth = '''', rq_body = Inr ''''\<rparr> demo_list))"
  using api_answers demo_inv by blast

end
