(* ===== verification/FleetSelect.thy ===== *)
theory FleetSelect
  imports FleetConfig "HOL-Library.Product_Lexorder"
begin

text \<open>
  \<^verbatim>\<open>internal/fleet/select.go\<close> and the result type of \<^verbatim>\<open>node.go\<close>: which node of the fleet serves a launch, where
  its engine answers and with which key. The fan-out that asks the nodes is I/O; its results are an
  argument. Parsing a URL (\<open>parse_url\<close>) and recognising a loopback IP (\<open>loopback_ip\<close>) are parameters.
\<close>

section \<open>What a node answers\<close>

record engine_endpoint =
  ep_Host :: string
  ep_Port :: int
  ep_Path :: string
  ep_LoopbackOnly :: bool
  ep_RequiresKey :: bool

record node_status =
  ns_State :: string
  ns_Runner :: string
  ns_Model :: string
  ns_ServedName :: string
  ns_UptimeSeconds :: int
  ns_LogPath :: string
  ns_LastActiveAt :: string
  ns_IdleSeconds :: int
  ns_Engine :: "engine_endpoint option"
  ns_Ready :: string
  ns_Version :: string

abbreviation ReadyYes :: string where "ReadyYes \<equiv> ''ready''"
abbreviation ReadyNo :: string where "ReadyNo \<equiv> ''not-ready''"
abbreviation EngineRunning :: string where "EngineRunning \<equiv> ''running''"
abbreviation EngineCrashed :: string where "EngineCrashed \<equiv> ''crashed''"

datatype outcome =
    OutcomeOK
  | OutcomeUnreachable
  | OutcomeUnauthorized
  | OutcomeConfigError
  | OutcomeFailed
  | OutcomeUnsupported

record node_result =
  nr_Name :: string
  nr_Outcome :: outcome
  nr_Err :: "string option"
  nr_Status :: node_status

text \<open>How a call ended: an answer, the status of an HTTP error, or no answer at all.\<close>

datatype call_error = HttpError nat string | TransportError string

definition classify :: "call_error option \<Rightarrow> outcome" where
  "classify e =
     (case e of
        None \<Rightarrow> OutcomeOK
      | Some (HttpError status _) \<Rightarrow>
          if status = 401 then OutcomeUnauthorized
          else if status = 404 then OutcomeUnsupported
          else OutcomeFailed
      | Some (TransportError _) \<Rightarrow> OutcomeUnreachable)"

definition nr_OK :: "node_result \<Rightarrow> bool" where
  "nr_OK r \<longleftrightarrow> nr_Outcome r = OutcomeOK"

definition Detail :: "node_result \<Rightarrow> string" where
  "Detail r = (case nr_Err r of None \<Rightarrow> '''' | Some e \<Rightarrow> e)"

section \<open>What a launch wants\<close>

abbreviation DefaultPath :: string where "DefaultPath \<equiv> ''/v1''"

record want =
  w_Model :: string
  w_Alias :: string
  w_ModelID :: string
  w_Node :: string
  w_Prefer :: string

definition want_prefer :: "want \<Rightarrow> string" where
  "want_prefer w = (if w_Prefer w = '''' then PreferIdle else w_Prefer w)"

definition matches :: "want \<Rightarrow> string list \<Rightarrow> bool" where
  "matches w serving \<longleftrightarrow>
     (if w_Model w = '''' \<and> w_Alias w = '''' \<and> w_ModelID w = '''' then True
      else list_ex (\<lambda>s. s \<noteq> '''' \<and> (s = w_Model w \<or> s = w_Alias w \<or> s = w_ModelID w)) serving)"

definition servingNames :: "node_status \<Rightarrow> string list" where
  "servingNames s =
     (if ns_Model s \<noteq> '''' then [ns_Model s] else []) @
     (if ns_ServedName s \<noteq> '''' \<and> ns_ServedName s \<noteq> ns_Model s then [ns_ServedName s] else [])"

definition wanted :: "want \<Rightarrow> string" where
  "wanted w =
     (if w_Model w \<noteq> '''' then w_Model w
      else if w_Alias w \<noteq> '''' then w_Alias w
      else if w_ModelID w \<noteq> '''' then w_ModelID w
      else ''any model'')"

definition Preference :: "fleet_config \<Rightarrow> string \<Rightarrow> fleet_error + string" where
  "Preference c flag =
     (if flag \<noteq> '''' then ParsePrefer flag
      else if cfg_Prefer c \<noteq> '''' then Inr (cfg_Prefer c)
      else Inr PreferIdle)"

section \<open>Candidates\<close>

record candidate =
  ca_entry :: node_config
  ca_index :: nat
  ca_result :: node_result

definition candidates :: "fleet_config \<Rightarrow> node_result list \<Rightarrow> candidate list" where
  "candidates c results =
     map (\<lambda>(i, r). \<lparr>ca_entry = cfg_Nodes c ! i, ca_index = i, ca_result = r\<rparr>)
       (take (length (cfg_Nodes c)) (enumerate 0 results))"

definition serves :: "want \<Rightarrow> candidate \<Rightarrow> bool" where
  "serves w c \<longleftrightarrow>
     nr_OK (ca_result c) \<and> ns_State (nr_Status (ca_result c)) = EngineRunning \<and>
     matches w (servingNames (nr_Status (ca_result c)))"

definition running_cands :: "candidate list \<Rightarrow> want \<Rightarrow> candidate list" where
  "running_cands cands w =
     filter (\<lambda>c. ns_Ready (nr_Status (ca_result c)) \<noteq> ReadyNo \<and> serves w c) cands"

definition loading_cands :: "candidate list \<Rightarrow> want \<Rightarrow> candidate list" where
  "loading_cands cands w =
     filter (\<lambda>c. ns_Ready (nr_Status (ca_result c)) = ReadyNo \<and> serves w c) cands"

definition Loading :: "fleet_config \<Rightarrow> node_result list \<Rightarrow> want \<Rightarrow> node_config list" where
  "Loading c results w = map ca_entry (loading_cands (candidates c results) w)"

section \<open>Ranking\<close>

text \<open>The idle reading: how long, and whether the node was ever active.\<close>

definition idle :: "candidate \<Rightarrow> int \<times> bool" where
  "idle c =
     (let s = nr_Status (ca_result c)
      in if ns_LastActiveAt s = '''' then (0, False) else (ns_IdleSeconds s, True))"

definition rank_before :: "string \<Rightarrow> candidate \<Rightarrow> candidate \<Rightarrow> bool" where
  "rank_before p x y =
     (case (idle x, idle y) of
        ((li, oki), (lj, okj)) \<Rightarrow>
          if oki \<noteq> okj then (p = PreferIdle) = (\<not> oki)
          else if li \<noteq> lj then (if p = PreferActive then li < lj else li > lj)
          else ca_index x < ca_index y)"

definition rank :: "string \<Rightarrow> candidate list \<Rightarrow> candidate list" where
  "rank p cands = insertion_sort (elementwise (rank_before p)) cands"

section \<open>Choosing\<close>

datatype reason =
    WokenToServe string
  | NoWorkYet string string
  | ActiveAgo string int string

record choice =
  ch_Node :: node_config
  ch_BaseURL :: string
  ch_APIKey :: string
  ch_Reason :: reason
  ch_Woken :: bool

datatype select_error =
    ConfigError fleet_error
  | NoneServing "node_result list" want string
  | PinnedNoAnswer string node_result
  | PinnedServesOther string string string
  | PinnedStarting string string
  | NoEndpoint string string
  | NoEnginePort string
  | BoundToLoopback string string
  | GatedWithoutKey string string
  | NodeNotBuilt string
  | CrashedStarting string string string
  | NotAnswered string
  | NothingCouldServe string string "(string \<times> select_error) list"
  | WakingDisabled
  | NoConfig string
  | StartRefused string
  | Cancelled

definition reasonFor :: "candidate \<Rightarrow> want \<Rightarrow> bool \<Rightarrow> reason" where
  "reasonFor c w woken =
     (if woken then WokenToServe (wanted w)
      else
        (let s = nr_Status (ca_result c);
             serving = (if ns_Model s = '''' then ''an engine'' else ns_Model s)
         in if ns_LastActiveAt s = '''' then NoWorkYet serving (want_prefer w)
            else ActiveAgo serving (ns_IdleSeconds s) (want_prefer w)))"

record url_parts =
  up_Scheme :: string
  up_Hostname :: string
  up_Port :: string
  up_Path :: string

type_synonym url_parser = "string \<Rightarrow> url_parts option"

definition join_host_port :: "string \<Rightarrow> string \<Rightarrow> string" where
  "join_host_port host port =
     (if CHR '':'' \<in> set host then ''['' @ host @ '']:'' @ port else host @ '':'' @ port)"

definition trim_slashes_left :: "string \<Rightarrow> string" where
  "trim_slashes_left = trim_left_by (\<lambda>c. c = CHR ''/'')"

definition trim_slashes_right :: "string \<Rightarrow> string" where
  "trim_slashes_right = trim_right_by (\<lambda>c. c = CHR ''/'')"

definition EndpointBaseURL :: "url_parser \<Rightarrow> string \<Rightarrow> string" where
  "EndpointBaseURL parse_url target =
     (case parse_url target of
        None \<Rightarrow> target
      | Some u \<Rightarrow>
          if up_Path u \<noteq> '''' \<and> up_Path u \<noteq> ''/'' then target
          else trim_slashes_right target @ DefaultPath)"

definition joinEngineURL :: "url_parser \<Rightarrow> string \<Rightarrow> int \<Rightarrow> string \<Rightarrow> string" where
  "joinEngineURL parse_url host port path =
     (let path' = ''/'' @ trim_slashes_left path in
      if contains host ''://'' then
        (let origin = trim_slashes_right host;
             origin' = (case parse_url origin of
                None \<Rightarrow> origin
              | Some u \<Rightarrow>
                  if up_Port u = '''' \<and> port \<noteq> 0
                  then up_Scheme u @ ''://'' @ join_host_port (up_Hostname u) (show_int port)
                  else origin)
         in origin' @ path')
      else ''http://'' @ join_host_port host (show_int port) @ path')"

definition hostPortOf :: "url_parser \<Rightarrow> string \<Rightarrow> string" where
  "hostPortOf parse_url baseURL =
     (case parse_url baseURL of
        None \<Rightarrow> ''''
      | Some u \<Rightarrow>
          if up_Hostname u = '''' then ''''
          else join_host_port (up_Hostname u)
            (if up_Port u \<noteq> '''' then up_Port u
             else if up_Scheme u = ''https'' then ''443'' else ''80''))"

definition hostIsLoopback :: "(string \<Rightarrow> bool) \<Rightarrow> string \<Rightarrow> bool" where
  "hostIsLoopback loopback_ip host \<longleftrightarrow>
     host = ''localhost'' \<or>
     loopback_ip (trim_right_by (\<lambda>c. c \<in> set ''[]'') (trim_left_by (\<lambda>c. c \<in> set ''[]'') host))"

text \<open>The address in its parts, before the checks: what the node reports over the file, an override over both.\<close>

definition engine_parts :: "node_config \<Rightarrow> node_status \<Rightarrow> string \<times> int \<times> string" where
  "engine_parts n status =
     (let (h1, p1, a1) = (case ns_Engine status of
            None \<Rightarrow> (nc_Host n, 0, '''')
          | Some ep \<Rightarrow> (if ep_Host ep \<noteq> '''' then ep_Host ep else nc_Host n, ep_Port ep, ep_Path ep))
      in case nc_Engine n of
           None \<Rightarrow> (h1, p1, a1)
         | Some ov \<Rightarrow>
             (if eo_Host ov \<noteq> '''' then eo_Host ov else h1,
              if eo_Port ov \<noteq> 0 then eo_Port ov else p1,
              if eo_Path ov \<noteq> '''' then eo_Path ov else a1))"

definition EngineBaseURL ::
  "url_parser \<Rightarrow> (string \<Rightarrow> bool) \<Rightarrow> fleet_config \<Rightarrow> node_config \<Rightarrow> node_status \<Rightarrow> select_error + string" where
  "EngineBaseURL parse_url loopback_ip c n status =
     (case engine_parts n status of
        (host, port, path) \<Rightarrow>
          if port = 0 \<and> \<not> contains host ''://'' then
            (if ns_Engine status = None then Inl (NoEndpoint (nc_Name n) (cfg_Path c))
             else Inl (NoEnginePort (nc_Name n)))
          else if nc_Engine n = None \<and>
              (case ns_Engine status of None \<Rightarrow> False | Some ep \<Rightarrow> ep_LoopbackOnly ep) \<and>
              \<not> hostIsLoopback loopback_ip (nc_Host n)
            then Inl (BoundToLoopback (nc_Name n) (cfg_Path c))
          else Inr (joinEngineURL parse_url host port (if path = '''' then DefaultPath else path)))"

text \<open>Token references are resolved against the process environment and the fleet's \<^verbatim>\<open>.env\<close>.\<close>

definition engineKeyFor ::
  "(string \<Rightarrow> string) \<Rightarrow> string file_read \<Rightarrow> fleet_config \<Rightarrow> node_config \<Rightarrow> node_status \<Rightarrow> select_error + string" where
  "engineKeyFor getenv envfile c n status =
     (if nc_Kind n = KindCloud then map_sum ConfigError id (CloudEngineToken getenv envfile c n)
      else if (case ns_Engine status of None \<Rightarrow> True | Some ep \<Rightarrow> \<not> ep_RequiresKey ep) then Inr ''''
      else if nc_EngineTokenEnv n = '''' then Inl (GatedWithoutKey (nc_Name n) (cfg_Path c))
      else map_sum ConfigError id (EngineToken getenv envfile n))"

text \<open>What the choice functions need of their surroundings.\<close>

record surroundings =
  su_url :: url_parser
  su_loopback :: "string \<Rightarrow> bool"
  su_getenv :: "string \<Rightarrow> string"
  su_envfile :: "string file_read"

definition choiceFor ::
  "surroundings \<Rightarrow> fleet_config \<Rightarrow> candidate \<Rightarrow> want \<Rightarrow> bool \<Rightarrow> string \<Rightarrow> select_error + choice" where
  "choiceFor su c best w woken setKey =
     (let entry = ca_entry best; status = nr_Status (ca_result best) in
      case EngineBaseURL (su_url su) (su_loopback su) c entry status of
        Inl e \<Rightarrow> Inl e
      | Inr baseURL \<Rightarrow>
          map_sum id
            (\<lambda>key. \<lparr>ch_Node = entry, ch_BaseURL = baseURL, ch_APIKey = key,
                     ch_Reason = reasonFor best w woken, ch_Woken = woken\<rparr>)
            (if woken then Inr setKey
             else engineKeyFor (su_getenv su) (su_envfile su) c entry status))"

definition pinned_refusal :: "candidate list \<Rightarrow> want \<Rightarrow> select_error option" where
  "pinned_refusal cands w =
     (if w_Node w = '''' then None
      else case cands of
        [c] \<Rightarrow>
          (let name = nc_Name (ca_entry c); s = nr_Status (ca_result c) in
           if \<not> nr_OK (ca_result c) then Some (PinnedNoAnswer name (ca_result c))
           else if ns_State s = EngineRunning \<and> \<not> matches w (servingNames s)
             then Some (PinnedServesOther name (ns_Model s) (wanted w))
           else if ns_State s = EngineRunning \<and> ns_Ready s = ReadyNo
             then Some (PinnedStarting name (wanted w))
           else None)
      | _ \<Rightarrow> None)"

definition choose_node ::
  "surroundings \<Rightarrow> fleet_config \<Rightarrow> node_result list \<Rightarrow> want \<Rightarrow> select_error + choice" where
  "choose_node su c results w =
     (let cands = candidates c results in
      case pinned_refusal cands w of
        Some e \<Rightarrow> Inl e
      | None \<Rightarrow>
          (case rank (want_prefer w) (running_cands cands w) of
             [] \<Rightarrow> Inl (NoneServing results w (cfg_Path c))
           | best # _ \<Rightarrow> choiceFor su c best w False ''''))"

text \<open>\<open>ask\<close> is the fan-out: what each node of a fleet answers.\<close>

definition Select ::
  "surroundings \<Rightarrow> (fleet_config \<Rightarrow> node_result list) \<Rightarrow> fleet_config \<Rightarrow> want \<Rightarrow> select_error + choice" where
  "Select su ask c w =
     (case (if w_Node w \<noteq> '''' then Only c (w_Node w) else Inr c) of
        Inl e \<Rightarrow> Inl (ConfigError e)
      | Inr fleet \<Rightarrow> choose_node su fleet (ask fleet) w)"

section \<open>Ranking is a sort\<close>

text \<open>A place in the ranking: the tier, the distance within it, and the fleet file's order.\<close>

datatype rank_pos = RankPos int int nat

fun rank_tuple :: "rank_pos \<Rightarrow> int \<times> int \<times> nat" where
  "rank_tuple (RankPos tier dist place) = (tier, dist, place)"

lemma rank_tuple_inj: "rank_tuple x = rank_tuple y \<longleftrightarrow> x = y"
  by (cases x; cases y) simp

instantiation rank_pos :: linorder
begin

definition less_eq_rank_pos :: "rank_pos \<Rightarrow> rank_pos \<Rightarrow> bool" where
  "less_eq_rank_pos x y \<longleftrightarrow> rank_tuple x \<le> rank_tuple y"

definition less_rank_pos :: "rank_pos \<Rightarrow> rank_pos \<Rightarrow> bool" where
  "less_rank_pos x y \<longleftrightarrow> rank_tuple x < rank_tuple y"

instance
proof
  fix x y z :: rank_pos
  show "x < y \<longleftrightarrow> x \<le> y \<and> \<not> y \<le> x" unfolding less_eq_rank_pos_def less_rank_pos_def by (rule less_le_not_le)
  show "x \<le> x" by (simp add: less_eq_rank_pos_def)
  show "x \<le> y \<Longrightarrow> y \<le> z \<Longrightarrow> x \<le> z" unfolding less_eq_rank_pos_def by (rule order_trans)
  show "x \<le> y \<Longrightarrow> y \<le> x \<Longrightarrow> x = y"
    unfolding less_eq_rank_pos_def by (subst rank_tuple_inj [symmetric]) (rule antisym)
  show "x \<le> y \<or> y \<le> x" unfolding less_eq_rank_pos_def by (rule linear)
qed

end

definition place_of :: "string \<Rightarrow> candidate \<Rightarrow> rank_pos" where
  "place_of p c =
     (case idle c of (l, ever) \<Rightarrow>
        RankPos (if (p = PreferIdle) = ever then 1 else 0) (if p = PreferActive then l else - l) (ca_index c))"

lemma rank_before_place: "rank_before p x y \<longleftrightarrow> place_of p x < place_of p y"
  by (auto simp: rank_before_def place_of_def less_rank_pos_def idle_def Let_def less_prod_def' split: if_splits)

lemma rank_sort: "rank p cands = sort_key (place_of p) cands"
  unfolding rank_def by (rule insertion_sort_key) (rule rank_before_place)

lemma rank_best:
  assumes "rank p cands = best # rest"
  shows "best \<in> set cands \<and> (\<forall>c \<in> set cands. place_of p best \<le> place_of p c)"
proof -
  have set: "set (best # rest) = set cands"
    unfolding assms [symmetric] rank_sort by simp
  have "sorted (map (place_of p) (best # rest))"
    unfolding assms [symmetric] rank_sort by simp
  then have "\<forall>c \<in> set rest. place_of p best \<le> place_of p c" by simp
  then show ?thesis
    using set by auto
qed

lemma rank_Nil: "rank p cands = [] \<longleftrightarrow> cands = []"
  unfolding rank_sort by (metis length_0_conv length_sort)

section \<open>The choice\<close>

lemma candidates_nth:
  "length results \<le> length (cfg_Nodes c) \<Longrightarrow>
     candidates c results =
       map (\<lambda>i. \<lparr>ca_entry = cfg_Nodes c ! i, ca_index = i, ca_result = results ! i\<rparr>) [0..<length results]"
  by (auto simp: candidates_def enumerate_eq_zip zip_map1 intro!: nth_equalityI)

lemma candidates_entry: "ca \<in> set (candidates c results) \<Longrightarrow> ca_entry ca \<in> set (cfg_Nodes c)"
  by (fastforce simp: candidates_def in_set_conv_nth nth_enumerate_eq)

lemma choiceFor_Inr:
  "choiceFor su c best w woken setKey = Inr ch \<Longrightarrow>
     ch_Node ch = ca_entry best \<and> ch_Woken ch = woken \<and>
     EngineBaseURL (su_url su) (su_loopback su) c (ca_entry best) (nr_Status (ca_result best)) = Inr (ch_BaseURL ch) \<and>
     (if woken then ch_APIKey ch = setKey
      else engineKeyFor (su_getenv su) (su_envfile su) c (ca_entry best) (nr_Status (ca_result best)) = Inr (ch_APIKey ch))"
  by (auto simp: choiceFor_def Let_def map_sum_Inr split: sum.splits if_splits)

lemma choose_node_Inr:
  assumes "choose_node su c results w = Inr ch"
  obtains best where "best \<in> set (running_cands (candidates c results) w)"
    "\<forall>ca \<in> set (running_cands (candidates c results) w). place_of (want_prefer w) best \<le> place_of (want_prefer w) ca"
    "choiceFor su c best w False '''' = Inr ch"
proof -
  from assms obtain best rest where r: "rank (want_prefer w) (running_cands (candidates c results) w) = best # rest"
    and ch: "choiceFor su c best w False '''' = Inr ch"
    by (auto simp: choose_node_def Let_def split: option.splits list.splits)
  from rank_best [OF r] ch that show thesis by blast
qed

text \<open>
  C23: the node chosen for a launch is one that answered, is running, is not still loading and reports
  a name that is wanted; no other such node stands before it in the order of the preference in force,
  ties broken by the fleet file's order; the choice carries its own engine's address and key, and
  starts nothing.
\<close>

theorem choose_node_best:
  assumes "choose_node su c results w = Inr ch"
  shows "\<exists>best \<in> set (candidates c results).
     serves w best \<and> ns_Ready (nr_Status (ca_result best)) \<noteq> ReadyNo \<and>
     list_all (\<lambda>ca. serves w ca \<and> ns_Ready (nr_Status (ca_result ca)) \<noteq> ReadyNo \<longrightarrow>
        place_of (want_prefer w) best \<le> place_of (want_prefer w) ca) (candidates c results) \<and>
     ch_Node ch = ca_entry best \<and> \<not> ch_Woken ch \<and>
     EngineBaseURL (su_url su) (su_loopback su) c (ca_entry best) (nr_Status (ca_result best)) = Inr (ch_BaseURL ch) \<and>
     engineKeyFor (su_getenv su) (su_envfile su) c (ca_entry best) (nr_Status (ca_result best)) = Inr (ch_APIKey ch)"
  using assms
proof (rule choose_node_Inr)
  fix best
  assume "best \<in> set (running_cands (candidates c results) w)"
    and "\<forall>ca \<in> set (running_cands (candidates c results) w). place_of (want_prefer w) best \<le> place_of (want_prefer w) ca"
    and "choiceFor su c best w False '''' = Inr ch"
  then show ?thesis
    using choiceFor_Inr [of su c best w False "''''" ch]
    by (intro bexI [of _ best]) (auto simp: running_cands_def list_all_iff)
qed

lemma choiceFor_not_none: "choiceFor su c best w woken key \<noteq> Inl (NoneServing rs w' p)"
proof -
  have "EngineBaseURL (su_url su) (su_loopback su) c (ca_entry best) st \<noteq> Inl (NoneServing rs w' p)" for st
    by (simp add: EngineBaseURL_def split: prod.split)
  moreover have "engineKeyFor (su_getenv su) (su_envfile su) c (ca_entry best) st \<noteq> Inl (NoneServing rs w' p)" for st
    by (cases "CloudEngineToken (su_getenv su) (su_envfile su) c (ca_entry best)";
        cases "EngineToken (su_getenv su) (su_envfile su) (ca_entry best)") (simp_all add: engineKeyFor_def)
  ultimately show ?thesis
    by (auto simp: choiceFor_def Let_def map_sum_Inl split: sum.splits)
qed

lemma choose_node_none_args:
  "\<exists>rs w' p. choose_node su c results w = Inl (NoneServing rs w' p) \<Longrightarrow>
     choose_node su c results w = Inl (NoneServing results w (cfg_Path c))"
  by (auto simp: choose_node_def pinned_refusal_def choiceFor_not_none Let_def
      split: option.splits list.splits if_splits)

lemma choose_node_none_ready:
  assumes "choose_node su c results w = Inl (NoneServing results w (cfg_Path c))" and "w_Node w = ''''"
  shows "\<not> list_ex (\<lambda>ca. serves w ca \<and> ns_Ready (nr_Status (ca_result ca)) \<noteq> ReadyNo) (candidates c results)"
proof -
  have "rank (want_prefer w) (running_cands (candidates c results) w) = []"
    using assms by (auto simp: choose_node_def pinned_refusal_def choiceFor_not_none Let_def split: list.splits)
  then show ?thesis
    by (auto simp: rank_Nil running_cands_def filter_empty_conv list_ex_iff)
qed

lemma choose_node_none_if:
  assumes "\<not> list_ex (\<lambda>ca. serves w ca \<and> ns_Ready (nr_Status (ca_result ca)) \<noteq> ReadyNo) (candidates c results)"
    and "w_Node w = ''''"
  shows "choose_node su c results w = Inl (NoneServing results w (cfg_Path c))"
proof -
  have "running_cands (candidates c results) w = []"
    using assms(1) by (auto simp: running_cands_def filter_empty_conv list_ex_iff)
  then show ?thesis
    using assms(2) by (simp add: choose_node_def pinned_refusal_def rank_def Let_def)
qed

text \<open>
  A launch pinned to no node finds none serving exactly where no node that answered is running a
  wanted model and past its loading; the refusal then carries every node's answer.
\<close>

theorem choose_node_none:
  assumes "w_Node w = ''''"
  shows "choose_node su c results w = Inl (NoneServing results w (cfg_Path c)) \<longleftrightarrow>
     \<not> list_ex (\<lambda>ca. serves w ca \<and> ns_Ready (nr_Status (ca_result ca)) \<noteq> ReadyNo) (candidates c results)"
  using choose_node_none_ready choose_node_none_if assms by blast

text \<open>
  Where an engine answers is taken from the fleet file's override first, then from what the node
  reports, then from the node's own entry; an address without a port is refused unless the host is a
  whole origin, and an engine bound to loopback is refused to a remote caller unless an override
  vouches for it.
\<close>

theorem EngineBaseURL_spec:
  "engine_parts n status = (host, port, path) \<Longrightarrow>
   (EngineBaseURL pu lo c n status =
     (if port = 0 \<and> \<not> contains host ''://''
      then Inl (if ns_Engine status = None then NoEndpoint (nc_Name n) (cfg_Path c) else NoEnginePort (nc_Name n))
      else if nc_Engine n = None \<and> (\<exists>ep. ns_Engine status = Some ep \<and> ep_LoopbackOnly ep) \<and>
          \<not> hostIsLoopback lo (nc_Host n)
      then Inl (BoundToLoopback (nc_Name n) (cfg_Path c))
      else Inr (joinEngineURL pu host port (if path = '''' then DefaultPath else path)))) \<and>
   (\<forall>ov. nc_Engine n = Some ov \<longrightarrow>
      (eo_Host ov \<noteq> '''' \<longrightarrow> host = eo_Host ov) \<and> (eo_Port ov \<noteq> 0 \<longrightarrow> port = eo_Port ov) \<and>
      (eo_Path ov \<noteq> '''' \<longrightarrow> path = eo_Path ov)) \<and>
   (nc_Engine n = None \<longrightarrow>
      (case ns_Engine status of
         None \<Rightarrow> host = nc_Host n \<and> port = 0 \<and> path = ''''
       | Some ep \<Rightarrow> port = ep_Port ep \<and> path = ep_Path ep \<and>
           host = (if ep_Host ep \<noteq> '''' then ep_Host ep else nc_Host n)))"
  by (auto simp: EngineBaseURL_def engine_parts_def Let_def split: option.splits prod.splits if_splits)

section \<open>Two nodes\<close>

definition demo_node :: "string \<Rightarrow> node_config" where
  "demo_node name = empty_node\<lparr>nc_Name := name, nc_Host := name, nc_Kind := KindDaemon\<rparr>"

definition demo_status :: "string \<Rightarrow> int \<Rightarrow> node_status" where
  "demo_status model idle_s = \<lparr>ns_State = EngineRunning, ns_Runner = ''llama'', ns_Model = model, ns_ServedName = '''',
     ns_UptimeSeconds = 60, ns_LogPath = '''', ns_LastActiveAt = ''t'', ns_IdleSeconds = idle_s,
     ns_Engine = Some \<lparr>ep_Host = '''', ep_Port = 8080, ep_Path = '''', ep_LoopbackOnly = False, ep_RequiresKey = False\<rparr>,
     ns_Ready = ReadyYes, ns_Version = ''1''\<rparr>"

definition demo_answer :: "string \<Rightarrow> int \<Rightarrow> node_result" where
  "demo_answer name idle_s = \<lparr>nr_Name = name, nr_Outcome = OutcomeOK, nr_Err = None, nr_Status = demo_status ''m'' idle_s\<rparr>"

definition demo_fleet :: fleet_config where
  "demo_fleet = empty_config\<lparr>cfg_Nodes := [demo_node ''a'', demo_node ''b'']\<rparr>"

definition demo_want :: want where
  "demo_want = \<lparr>w_Model = ''m'', w_Alias = '''', w_ModelID = '''', w_Node = '''', w_Prefer = ''''\<rparr>"

definition demo_surroundings :: surroundings where
  "demo_surroundings = \<lparr>su_url = \<lambda>_. None, su_loopback = \<lambda>_. False, su_getenv = \<lambda>_. '''', su_envfile = Missing\<rparr>"

lemmas demo_select = demo_node_def demo_status_def demo_answer_def demo_fleet_def demo_want_def
  demo_surroundings_def empty_node_def empty_config_def candidates_def

lemma demo_choice:
  "\<exists>ch. choose_node demo_surroundings demo_fleet [demo_answer ''a'' 5, demo_answer ''b'' 9] demo_want = Inr ch \<and>
     ch_Node ch = demo_node ''b''"
  by (simp add: choose_node_def pinned_refusal_def running_cands_def serves_def matches_def servingNames_def
      nr_OK_def rank_def insertion_sort_def upt_rec elementwise_def rank_before_def idle_def want_prefer_def swap_def
      choiceFor_def EngineBaseURL_def engine_parts_def engineKeyFor_def contains_def demo_select Let_def)

theorem choose_node_best_witness:
  "\<exists>ch best. choose_node demo_surroundings demo_fleet [demo_answer ''a'' 5, demo_answer ''b'' 9] demo_want = Inr ch \<and>
     best \<in> set (candidates demo_fleet [demo_answer ''a'' 5, demo_answer ''b'' 9]) \<and>
     serves demo_want best \<and> ch_Node ch = ca_entry best \<and> ch_Node ch = demo_node ''b''"
proof -
  obtain ch where ch: "choose_node demo_surroundings demo_fleet [demo_answer ''a'' 5, demo_answer ''b'' 9] demo_want = Inr ch"
    "ch_Node ch = demo_node ''b''"
    using demo_choice by blast
  from choose_node_best [OF ch(1)] ch show ?thesis by blast
qed

theorem choose_node_none_witness:
  "choose_node demo_surroundings demo_fleet [] demo_want = Inl (NoneServing [] demo_want '''')"
  using choose_node_none [of demo_want demo_surroundings demo_fleet "[]"] by (simp add: demo_select)

theorem EngineBaseURL_spec_witness:
  "EngineBaseURL (\<lambda>_. None) (\<lambda>_. False) demo_fleet (demo_node ''a'') (demo_status ''m'' 5) =
     Inr (joinEngineURL (\<lambda>_. None) ''a'' 8080 DefaultPath)"
  using EngineBaseURL_spec [of "demo_node ''a''" "demo_status ''m'' 5" "''a''" 8080 "''''" "\<lambda>_. None" "\<lambda>_. False" demo_fleet]
  by (simp add: engine_parts_def demo_node_def demo_status_def empty_node_def)

end
