(* ===== verification/FleetWake.thy ===== *)
theory FleetWake
  imports FleetSelect
begin

text \<open>
  \<^verbatim>\<open>internal/fleet/wake.go\<close>: starting an engine on a node that is not running one, and waiting for an
  engine to answer. How a node behaves is an argument: whether a client for it can be built, what its
  start call answers, and what its status polls read up to the wake's deadline, each with what a dial
  of the engine's address would find. The deploy config is of any type; \<open>model_id\<close> reads its model.
  The starts issued are recorded beside the result.
\<close>

section \<open>Resolving deploy configs\<close>

type_synonym 'd config_for = "node_config \<Rightarrow> string + 'd"

definition ConstantConfig :: "string + 'd \<Rightarrow> 'd config_for" where
  "ConstantConfig r = (\<lambda>_. r)"

text \<open>A resolver is its function and what it has resolved so far, by node name.\<close>

type_synonym 'd resolved = "(string, string + 'd) gomap"

definition resolver_config :: "'d config_for \<Rightarrow> 'd resolved \<Rightarrow> node_config \<Rightarrow> (string + 'd) \<times> 'd resolved" where
  "resolver_config f cache entry =
     (case map_of cache (nc_Name entry) of
        Some r \<Rightarrow> (r, cache)
      | None \<Rightarrow> (f entry, AList.update (nc_Name entry) (f entry) cache))"

section \<open>Which nodes may be started\<close>

definition startable :: "candidate \<Rightarrow> bool" where
  "startable c \<longleftrightarrow> nr_OK (ca_result c) \<and> ns_State (nr_Status (ca_result c)) \<noteq> EngineRunning"

fun wakeable_loop ::
  "('d \<Rightarrow> string) \<Rightarrow> 'd config_for \<Rightarrow> candidate list \<Rightarrow> candidate list \<Rightarrow> candidate list \<Rightarrow> 'd resolved
    \<Rightarrow> candidate list \<times> 'd resolved" where
  "wakeable_loop model_id f warm cold [] cache = (warm @ cold, cache)"
| "wakeable_loop model_id f warm cold (c # cs) cache =
     (if \<not> startable c then wakeable_loop model_id f warm cold cs cache
      else
        (case resolver_config f cache (ca_entry c) of
           (r, cache') \<Rightarrow>
             (let m = ns_Model (nr_Status (ca_result c)) in
              if (case r of Inl _ \<Rightarrow> False | Inr dc \<Rightarrow> m \<noteq> '''' \<and> m = model_id dc)
              then wakeable_loop model_id f (warm @ [c]) cold cs cache'
              else wakeable_loop model_id f warm (cold @ [c]) cs cache')))"

definition wakeable ::
  "('d \<Rightarrow> string) \<Rightarrow> 'd config_for \<Rightarrow> candidate list \<Rightarrow> 'd resolved \<Rightarrow> candidate list \<times> 'd resolved" where
  "wakeable model_id f cands cache = wakeable_loop model_id f [] [] cands cache"

definition WouldWake ::
  "('d \<Rightarrow> string) \<Rightarrow> fleet_config \<Rightarrow> node_result list \<Rightarrow> 'd config_for \<Rightarrow> node_config option" where
  "WouldWake model_id c results f =
     (case fst (wakeable model_id f (candidates c results) []) of
        [] \<Rightarrow> None
      | ca # _ \<Rightarrow> Some (ca_entry ca))"

section \<open>Waiting for an engine to answer\<close>

datatype poll = Poll "call_error + node_status" "string \<Rightarrow> bool" | CallerGone

text \<open>The last poll is the first one after the deadline.\<close>

fun waitReady ::
  "surroundings \<Rightarrow> fleet_config \<Rightarrow> node_config \<Rightarrow> want \<Rightarrow> poll list \<Rightarrow> select_error + node_status" where
  "waitReady su c entry w [] = Inl (NotAnswered (nc_Name entry))"
| "waitReady su c entry w (CallerGone # ps) = Inl Cancelled"
| "waitReady su c entry w (Poll (Inl e) answers # ps) = waitReady su c entry w ps"
| "waitReady su c entry w (Poll (Inr s) answers # ps) =
     (if ns_State s = EngineRunning then
        (if ns_Ready s = ReadyYes then Inr s
         else if ns_Ready s = ReadyNo then waitReady su c entry w ps
         else (case EngineBaseURL (su_url su) (su_loopback su) c entry s of
                 Inl e \<Rightarrow> Inl e
               | Inr url \<Rightarrow> if answers url then Inr s else waitReady su c entry w ps))
      else if ns_State s = EngineCrashed
        then Inl (CrashedStarting (nc_Name entry) (wanted w) (ns_LogPath s))
      else waitReady su c entry w ps)"

section \<open>Starting\<close>

record 'd behaviour =
  nb_built :: "string option"
  nb_start :: "'d \<Rightarrow> string \<Rightarrow> call_error option"
  nb_reread :: "call_error + node_status"
  nb_polls :: "poll list"

text \<open>An error that ends the wake, an error that lets the next candidate be tried, or an engine that answers.\<close>

datatype started = Answers node_status | FatalWake select_error | RefusedWake select_error

definition error_text :: "call_error \<Rightarrow> string" where
  "error_text e = (case e of HttpError _ t \<Rightarrow> t | TransportError t \<Rightarrow> t)"

definition isAlreadyRunning :: "call_error \<Rightarrow> bool" where
  "isAlreadyRunning e \<longleftrightarrow>
     (case e of HttpError status _ \<Rightarrow> status = 409 | TransportError _ \<Rightarrow> False) \<or>
     contains (to_lower (error_text e)) ''already running''"

definition startAndWait ::
  "surroundings \<Rightarrow> fleet_config \<Rightarrow> candidate \<Rightarrow> 'd behaviour \<Rightarrow> 'd \<Rightarrow> string \<Rightarrow> want \<Rightarrow> started" where
  "startAndWait su c cand node dc engineKey w =
     (let wait = (case waitReady su c (ca_entry cand) w (nb_polls node) of
            Inl e \<Rightarrow> FatalWake e
          | Inr s \<Rightarrow> Answers s)
      in case nb_start node dc engineKey of
           None \<Rightarrow> wait
         | Some e \<Rightarrow>
             if isAlreadyRunning e then
               (case nb_reread node of
                  Inr s \<Rightarrow> if matches w (servingNames s) then wait else RefusedWake (StartRefused (error_text e))
                | Inl _ \<Rightarrow> RefusedWake (StartRefused (error_text e)))
             else RefusedWake (StartRefused (error_text e)))"

text \<open>
  The loop over the candidates: the refusals so far, the configs resolved so far, and the nodes whose
  start call was issued, in order.
\<close>

fun wake_loop ::
  "surroundings \<Rightarrow> (node_config \<Rightarrow> 'd behaviour) \<Rightarrow> fleet_config \<Rightarrow> want \<Rightarrow> 'd config_for \<Rightarrow> candidate list
    \<Rightarrow> (string \<times> select_error) list \<Rightarrow> 'd resolved \<Rightarrow> string list \<Rightarrow> (select_error + choice) \<times> string list" where
  "wake_loop su world c w f [] refused cache issued =
     (Inl (NothingCouldServe (cfg_Path c) (wanted w) refused), issued)"
| "wake_loop su world c w f (cand # cands) refused cache issued =
     (let entry = ca_entry cand; name = nc_Name entry in
      if \<not> NodeWakes c entry
        then wake_loop su world c w f cands (refused @ [(name, WakingDisabled)]) cache issued
      else (case resolver_config f cache entry of
        (Inl e, cache') \<Rightarrow> wake_loop su world c w f cands (refused @ [(name, NoConfig e)]) cache' issued
      | (Inr dc, cache') \<Rightarrow>
          (case nb_built (world entry) of
             Some e \<Rightarrow> wake_loop su world c w f cands (refused @ [(name, NodeNotBuilt e)]) cache' issued
           | None \<Rightarrow>
               (case EngineToken (su_getenv su) (su_envfile su) entry of
                  Inl e \<Rightarrow> (Inl (ConfigError e), issued)
                | Inr engineKey \<Rightarrow>
                    (case startAndWait su c cand (world entry) dc engineKey w of
                       FatalWake e \<Rightarrow> (Inl e, issued @ [name])
                     | RefusedWake e \<Rightarrow>
                         wake_loop su world c w f cands (refused @ [(name, e)]) cache' (issued @ [name])
                     | Answers s \<Rightarrow>
                         (choiceFor su c
                            (cand\<lparr>ca_result := \<lparr>nr_Name = name, nr_Outcome = OutcomeOK, nr_Err = None,
                               nr_Status = s\<rparr>\<rparr>) w True engineKey, issued @ [name]))))))"

definition Wake ::
  "('d \<Rightarrow> string) \<Rightarrow> surroundings \<Rightarrow> (node_config \<Rightarrow> 'd behaviour) \<Rightarrow> fleet_config \<Rightarrow> want \<Rightarrow> 'd config_for
    \<Rightarrow> node_result list \<Rightarrow> (select_error + choice) \<times> string list" where
  "Wake model_id su world c w f results =
     (case wakeable model_id f (candidates c results) [] of
        ([], cache) \<Rightarrow> (Inl (NoneServing results w (cfg_Path c)), [])
      | (cands, cache) \<Rightarrow> wake_loop su world c w f cands [] cache [])"

definition WaitLoading ::
  "surroundings \<Rightarrow> (node_config \<Rightarrow> 'd behaviour) \<Rightarrow> fleet_config \<Rightarrow> want \<Rightarrow> node_result list \<Rightarrow> select_error + choice" where
  "WaitLoading su world c w results =
     (case loading_cands (candidates c results) w of
        [] \<Rightarrow> Inl (NoneServing results w (cfg_Path c))
      | cand # _ \<Rightarrow>
          (case nb_built (world (ca_entry cand)) of
             Some e \<Rightarrow> Inl (NodeNotBuilt e)
           | None \<Rightarrow>
               (case waitReady su c (ca_entry cand) w (nb_polls (world (ca_entry cand))) of
                  Inl e \<Rightarrow> Inl e
                | Inr s \<Rightarrow>
                    choiceFor su c
                      (cand\<lparr>ca_result := \<lparr>nr_Name = nc_Name (ca_entry cand), nr_Outcome = OutcomeOK, nr_Err = None,
                         nr_Status = s\<rparr>\<rparr>) w False '''')))"

section \<open>What waking promises\<close>

definition warm_for :: "('d \<Rightarrow> string) \<Rightarrow> 'd config_for \<Rightarrow> candidate \<Rightarrow> bool" where
  "warm_for model_id f c \<longleftrightarrow>
     (case f (ca_entry c) of
        Inl _ \<Rightarrow> False
      | Inr dc \<Rightarrow> ns_Model (nr_Status (ca_result c)) \<noteq> '''' \<and> ns_Model (nr_Status (ca_result c)) = model_id dc)"

text \<open>The cache holds what the function gives for the node of the name.\<close>

definition cache_of :: "'d config_for \<Rightarrow> node_config list \<Rightarrow> 'd resolved \<Rightarrow> bool" where
  "cache_of f nodes cache \<longleftrightarrow>
     (\<forall>n \<in> set nodes. \<forall>r. map_of cache (nc_Name n) = Some r \<longrightarrow> r = f n)"

lemma resolver_config_result:
  assumes "cache_of f nodes cache" and "n \<in> set nodes" and "inj_on nc_Name (set nodes)"
  shows "fst (resolver_config f cache n) = f n" and "cache_of f nodes (snd (resolver_config f cache n))"
proof -
  show "fst (resolver_config f cache n) = f n"
    using assms(1,2) by (auto simp: resolver_config_def cache_of_def split: option.splits)
  show "cache_of f nodes (snd (resolver_config f cache n))"
    using assms by (auto simp: resolver_config_def cache_of_def inj_on_def split: option.splits)
qed

lemma wakeable_loop_spec:
  assumes "inj_on nc_Name (set nodes)" and "ca_entry ` set cs \<subseteq> set nodes" and "cache_of f nodes cache"
  shows "fst (wakeable_loop model_id f warm cold cs cache) =
      (warm @ filter (\<lambda>c. startable c \<and> warm_for model_id f c) cs) @
      (cold @ filter (\<lambda>c. startable c \<and> \<not> warm_for model_id f c) cs) \<and>
    cache_of f nodes (snd (wakeable_loop model_id f warm cold cs cache))"
  using assms(2,3)
proof (induction cs arbitrary: warm cold cache)
  case (Cons c cs)
  have mem: "ca_entry c \<in> set nodes" and rest: "ca_entry ` set cs \<subseteq> set nodes" using Cons.prems(1) by auto
  obtain r cache' where r: "resolver_config f cache (ca_entry c) = (r, cache')" by fastforce
  with resolver_config_result [OF Cons.prems(2) mem assms(1)] have "r = f (ca_entry c)" "cache_of f nodes cache'"
    by simp_all
  with Cons.IH [OF rest] Cons.prems(2) r show ?case
    by (auto simp: warm_for_def Let_def split: sum.splits)
qed simp

text \<open>
  The nodes a wake tries are those that answered and are not running an engine, each once: first,
  in the fleet file's order, those whose stored model is the one their config names, then the rest in
  the same order. The node explained to a caller beforehand is the first of them.
\<close>

theorem wakeable_order:
  assumes "distinct (map nc_Name (cfg_Nodes c))"
  shows "fst (wakeable model_id f (candidates c results) []) =
      filter (\<lambda>ca. startable ca \<and> warm_for model_id f ca) (candidates c results) @
      filter (\<lambda>ca. startable ca \<and> \<not> warm_for model_id f ca) (candidates c results) \<and>
    WouldWake model_id c results f =
      (case fst (wakeable model_id f (candidates c results) []) of [] \<Rightarrow> None | ca # _ \<Rightarrow> Some (ca_entry ca))"
proof -
  have inj: "inj_on nc_Name (set (cfg_Nodes c))" using assms by (simp add: distinct_map)
  have "ca_entry ` set (candidates c results) \<subseteq> set (cfg_Nodes c)" using candidates_entry by blast
  from wakeable_loop_spec [OF inj this, of f "[]" model_id "[]" "[]"] show ?thesis
    by (simp add: wakeable_def WouldWake_def cache_of_def)
qed

lemma wakeable_startable:
  "ca \<in> set (fst (wakeable_loop model_id f warm cold cs cache)) \<Longrightarrow>
     ca \<in> set warm \<union> set cold \<or> ca \<in> set cs \<and> startable ca"
proof (induction cs arbitrary: warm cold cache)
  case (Cons c cs)
  from Cons.prems show ?case
    by (auto simp: Let_def split: if_splits prod.splits sum.splits dest!: Cons.IH)
qed auto

lemma wake_loop_issued:
  "wake_loop su world c w f cands refused cache issued = (r, issued') \<Longrightarrow>
     \<exists>names. issued' = issued @ names \<and>
       (\<forall>n \<in> set names. \<exists>ca \<in> set cands. n = nc_Name (ca_entry ca) \<and> NodeWakes c (ca_entry ca))"
proof (induction cands arbitrary: refused cache issued)
  case (Cons cand cands)
  from Cons.prems show ?case
    by (fastforce simp: Let_def split: if_splits prod.splits sum.splits option.splits started.splits dest!: Cons.IH)
qed simp

text \<open>
  C16: a wake never displaces an engine and never starts what the fleet's policy keeps from being
  woken: every node it issues a start to had answered, was not running an engine, and may be woken.
\<close>

theorem Wake_displaces_nothing:
  assumes "Wake model_id su world c w f results = (r, issued)" and "name \<in> set issued"
  shows "\<exists>ca \<in> set (candidates c results). nc_Name (ca_entry ca) = name \<and> nr_OK (ca_result ca) \<and>
     ns_State (nr_Status (ca_result ca)) \<noteq> EngineRunning \<and> NodeWakes c (ca_entry ca)"
proof -
  obtain cands cache where cc: "wakeable model_id f (candidates c results) [] = (cands, cache)" by fastforce
  with assms have "wake_loop su world c w f cands [] cache [] = (r, issued)"
    by (cases cands) (simp_all add: Wake_def del: wake_loop.simps)
  from wake_loop_issued [OF this] assms(2)
  have "\<exists>ca \<in> set cands. name = nc_Name (ca_entry ca) \<and> NodeWakes c (ca_entry ca)" by auto
  then obtain ca where ca: "ca \<in> set cands" "name = nc_Name (ca_entry ca)" "NodeWakes c (ca_entry ca)"
    by blast
  then have "ca \<in> set (candidates c results) \<and> startable ca"
    using wakeable_startable [of ca model_id f "[]" "[]" "candidates c results" "[]"] cc by (simp add: wakeable_def)
  with ca show ?thesis by (auto simp: startable_def)
qed

text \<open>What an issued start that was not the last one came to.\<close>

definition start_refused ::
  "surroundings \<Rightarrow> (node_config \<Rightarrow> 'd behaviour) \<Rightarrow> fleet_config \<Rightarrow> want \<Rightarrow> candidate list \<Rightarrow> string \<Rightarrow> bool" where
  "start_refused su world c w cands name \<longleftrightarrow>
     (\<exists>ca \<in> set cands. name = nc_Name (ca_entry ca) \<and>
        (\<exists>dc key e. startAndWait su c ca (world (ca_entry ca)) dc key w = RefusedWake e))"

lemma start_refused_mono:
  "start_refused su world c w cands name \<Longrightarrow> start_refused su world c w (ca # cands) name"
  by (auto simp: start_refused_def)

text \<open>How the starts issued by a loop over some candidates end.\<close>

definition wake_outcome ::
  "surroundings \<Rightarrow> (node_config \<Rightarrow> 'd behaviour) \<Rightarrow> fleet_config \<Rightarrow> want \<Rightarrow> candidate list \<Rightarrow> string list
    \<Rightarrow> select_error + choice \<Rightarrow> string list \<Rightarrow> bool" where
  "wake_outcome su world c w cands issued r issued' \<longleftrightarrow>
     (\<exists>names. issued' = issued @ names \<and>
       (\<forall>ch. r = Inr ch \<longrightarrow> list_all (start_refused su world c w cands) (butlast names) \<and>
          names \<noteq> [] \<and> last names = nc_Name (ch_Node ch) \<and> ch_Woken ch))"

lemma wake_outcome_error:
  "wake_outcome su world c w cands issued (Inl e) issued"
  "wake_outcome su world c w cands issued (Inl e) (issued @ names)"
  by (auto simp: wake_outcome_def)

lemma wake_outcome_answers:
  "wake_outcome su world c w cands issued (choiceFor su c (cand\<lparr>ca_result := res\<rparr>) w True key)
     (issued @ [nc_Name (ca_entry cand)])"
proof (cases "choiceFor su c (cand\<lparr>ca_result := res\<rparr>) w True key")
  case (Inl e)
  then show ?thesis by (simp add: wake_outcome_error)
next
  case (Inr ch)
  with choiceFor_Inr [OF Inr] show ?thesis by (auto simp: wake_outcome_def)
qed

lemma wake_outcome_skip:
  assumes "wake_outcome su world c w cands issued r issued'"
  shows "wake_outcome su world c w (cand # cands) issued r issued'"
proof -
  have mono: "list_all (start_refused su world c w cands) ns \<Longrightarrow>
      list_all (start_refused su world c w (cand # cands)) ns" for ns
    by (auto simp: list_all_iff intro: start_refused_mono)
  from assms obtain names where "issued' = issued @ names"
    "\<forall>ch. r = Inr ch \<longrightarrow> list_all (start_refused su world c w cands) (butlast names) \<and>
       names \<noteq> [] \<and> last names = nc_Name (ch_Node ch) \<and> ch_Woken ch"
    by (auto simp: wake_outcome_def)
  with mono show ?thesis
    unfolding wake_outcome_def by (intro exI [of _ names]) simp
qed

lemma wake_outcome_retry:
  assumes "wake_outcome su world c w cands (issued @ [nc_Name (ca_entry cand)]) r issued'"
    and "startAndWait su c cand (world (ca_entry cand)) dc key w = RefusedWake e"
  shows "wake_outcome su world c w (cand # cands) issued r issued'"
proof -
  from wake_outcome_skip [OF assms(1)] obtain names where "issued' = (issued @ [nc_Name (ca_entry cand)]) @ names"
    "\<forall>ch. r = Inr ch \<longrightarrow> list_all (start_refused su world c w (cand # cands)) (butlast names) \<and>
       names \<noteq> [] \<and> last names = nc_Name (ch_Node ch) \<and> ch_Woken ch"
    unfolding wake_outcome_def by blast
  moreover have "start_refused su world c w (cand # cands) (nc_Name (ca_entry cand))"
    using assms(2) by (auto simp: start_refused_def)
  ultimately show ?thesis
    unfolding wake_outcome_def by (intro exI [of _ "nc_Name (ca_entry cand) # names"]) auto
qed

lemma wake_loop_outcome:
  "wake_loop su world c w f cands refused cache issued = (r, issued') \<Longrightarrow>
     wake_outcome su world c w cands issued r issued'"
proof (induction cands arbitrary: refused cache issued)
  case Nil
  then show ?case by (auto simp: wake_outcome_error)
next
  case (Cons cand cands)
  from Cons.prems show ?case
    by (auto simp: Let_def wake_outcome_answers split: if_splits prod.splits sum.splits option.splits started.splits
        intro: wake_outcome_error wake_outcome_skip [OF Cons.IH] wake_outcome_retry [OF Cons.IH])
qed

lemma Wake_last:
  assumes "Wake model_id su world c w f results = (Inr ch, issued)"
  shows "issued \<noteq> [] \<and> last issued = nc_Name (ch_Node ch)"
proof -
  obtain cands cache where cc: "wakeable model_id f (candidates c results) [] = (cands, cache)" by fastforce
  with assms have "wake_loop su world c w f cands [] cache [] = (Inr ch, issued)"
    by (cases cands) (simp_all add: Wake_def del: wake_loop.simps)
  from wake_loop_outcome [OF this] show ?thesis
    by (auto simp: wake_outcome_def)
qed

text \<open>
  A wake that succeeds gives the node whose start it issued last, with the key that engine was
  gated with; every start it issued before that one was refused by its node, so that no two engines
  are left starting for one request.
\<close>

theorem Wake_one_engine:
  assumes "Wake model_id su world c w f results = (Inr ch, issued)"
  shows "issued \<noteq> [] \<and> last issued = nc_Name (ch_Node ch) \<and> ch_Woken ch \<and>
     list_all (start_refused su world c w (fst (wakeable model_id f (candidates c results) []))) (butlast issued)"
proof -
  obtain cands cache where cc: "wakeable model_id f (candidates c results) [] = (cands, cache)" by fastforce
  with assms have "wake_loop su world c w f cands [] cache [] = (Inr ch, issued)"
    by (cases cands) (simp_all add: Wake_def del: wake_loop.simps)
  from wake_loop_outcome [OF this] cc show ?thesis
    by (auto simp: wake_outcome_def)
qed

section \<open>Two idle nodes, the first of which refuses\<close>

definition idle_answer :: "string \<Rightarrow> node_result" where
  "idle_answer name = (demo_answer name 0)\<lparr>nr_Status := (demo_status '''' 0)\<lparr>ns_State := ''idle'', ns_Engine := None\<rparr>\<rparr>"

definition waking_fleet :: fleet_config where
  "waking_fleet = demo_fleet\<lparr>cfg_WakePolicy := WakeOn\<rparr>"

definition demo_world :: "node_config \<Rightarrow> string behaviour" where
  "demo_world n = \<lparr>nb_built = None,
     nb_start = (\<lambda>dc key. if nc_Name n = ''a'' then Some (HttpError 500 ''no'') else None),
     nb_reread = Inl (TransportError ''''), nb_polls = [Poll (Inr (demo_status ''m'' 0)) (\<lambda>_. True)]\<rparr>"

definition demo_wake :: "(select_error + choice) \<times> string list" where
  "demo_wake = Wake id demo_surroundings demo_world waking_fleet demo_want (ConstantConfig (Inr ''m''))
     [idle_answer ''a'', idle_answer ''b'']"

lemma demo_wake_outcome: "\<exists>ch. demo_wake = (Inr ch, [''a'', ''b'']) \<and> ch_Node ch = demo_node ''b''"
  by (simp add: demo_wake_def Wake_def wakeable_def waking_fleet_def idle_answer_def demo_world_def startable_def
      nr_OK_def resolver_config_def ConstantConfig_def NodeWakes_def Wakes_def EngineToken_def resolveTokenEnv_def
      startAndWait_def isAlreadyRunning_def error_text_def to_lower_def contains_def lower_char_def choiceFor_def
      EngineBaseURL_def engine_parts_def demo_select Let_def)

theorem wakeable_order_witness:
  "WouldWake id waking_fleet [idle_answer ''a'', idle_answer ''b''] (ConstantConfig (Inr ''m'')) = Some (demo_node ''a'')"
proof -
  have "distinct (map nc_Name (cfg_Nodes waking_fleet))"
    by (simp add: waking_fleet_def demo_fleet_def demo_node_def empty_config_def empty_node_def)
  from wakeable_order [OF this, of id "ConstantConfig (Inr ''m'')" "[idle_answer ''a'', idle_answer ''b'']"]
  show ?thesis
    by (simp add: waking_fleet_def idle_answer_def startable_def nr_OK_def warm_for_def ConstantConfig_def demo_select)
qed

theorem Wake_displaces_nothing_witness:
  "\<exists>ca \<in> set (candidates waking_fleet [idle_answer ''a'', idle_answer ''b'']).
     nc_Name (ca_entry ca) = ''b'' \<and> ns_State (nr_Status (ca_result ca)) \<noteq> EngineRunning"
proof -
  obtain ch where "demo_wake = (Inr ch, [''a'', ''b''])" using demo_wake_outcome by blast
  from Wake_displaces_nothing [OF this [unfolded demo_wake_def], of "''b''"] show ?thesis by auto
qed

theorem Wake_one_engine_witness:
  "\<exists>ch. fst demo_wake = Inr ch \<and> last (snd demo_wake) = nc_Name (ch_Node ch) \<and>
     list_all (start_refused demo_surroundings demo_world waking_fleet demo_want
       (fst (wakeable id (ConstantConfig (Inr ''m'')) (candidates waking_fleet [idle_answer ''a'', idle_answer ''b'']) [])))
       (butlast (snd demo_wake))"
proof -
  obtain ch where ch: "demo_wake = (Inr ch, [''a'', ''b''])" using demo_wake_outcome by blast
  show ?thesis
    unfolding ch fst_conv snd_conv using Wake_one_engine [OF ch [unfolded demo_wake_def]] by blast
qed

end
