(* ===== verification/Deploy.thy ===== *)
theory Deploy
  imports GoStrings
begin

text \<open>
  \<^verbatim>\<open>internal/inference/inference.go\<close>, what an engine is to serve, and the timestamps the daemon reports:
  the RFC 3339 form of a UTC time (\<^verbatim>\<open>time.Time.Format\<close>), from nanoseconds since the epoch.
\<close>

record deploy_config =
  dc_Runner :: string
  dc_ModelID :: string
  dc_Quant :: string
  dc_ContextSize :: int
  dc_Parallel :: int
  dc_ServedModelName :: string
  dc_ServeArgs :: "string list"
  dc_Companions :: "(string \<times> string) list"
  dc_SpinloopVersion :: string
  dc_InstanceType :: string

definition empty_deploy :: deploy_config where
  "empty_deploy = \<lparr>dc_Runner = '''', dc_ModelID = '''', dc_Quant = '''', dc_ContextSize = 0, dc_Parallel = 0,
     dc_ServedModelName = '''', dc_ServeArgs = [], dc_Companions = [], dc_SpinloopVersion = '''',
     dc_InstanceType = ''''\<rparr>"

section \<open>Timestamps\<close>

text \<open>The Gregorian date of a day counted from 1 January 1970.\<close>

definition civil_of_days :: "int \<Rightarrow> int \<times> int \<times> int" where
  "civil_of_days days =
     (let z = days + 719468; era = z div 146097; doe = z mod 146097;
          yoe = (doe - doe div 1460 + doe div 36524 - doe div 146096) div 365;
          doy = doe - (365 * yoe + yoe div 4 - yoe div 100);
          mp = (5 * doy + 2) div 153;
          d = doy - (153 * mp + 2) div 5 + 1;
          m = (if mp < 10 then mp + 3 else mp - 9)
      in (yoe + era * 400 + (if m \<le> 2 then 1 else 0), m, d))"

definition padded :: "nat \<Rightarrow> int \<Rightarrow> string" where
  "padded n i = (let s = show_int i in replicate (n - length s) CHR ''0'' @ s)"

definition rfc3339 :: "int \<Rightarrow> string" where
  "rfc3339 ns =
     (let secs = ns div 1000000000; t = secs mod 86400 in
      case civil_of_days (secs div 86400) of (y, m, d) \<Rightarrow>
        padded 4 y @ ''-'' @ padded 2 m @ ''-'' @ padded 2 d @ ''T'' @ padded 2 (t div 3600) @ '':'' @
        padded 2 (t div 60 mod 60) @ '':'' @ padded 2 (t mod 60) @ ''Z'')"

end
