(* ===== verification/Gateway.thy ===== *)
theory Gateway
  imports FleetWake Admission HttpGate Deploy
begin

text \<open>
  \<^verbatim>\<open>internal/gateway/gateway.go\<close>: one endpoint in front of the fleet. The clock, what a fan-out answers, the
  deploy configs behind the nodes' sources, the nodes' behaviour under a start, and the engine behind
  an address are what a request meets; they are gathered in the record \<open>outside\<close>, the clock as it
  stands before a reading is looked for and after one was taken. A request's body is
  taken as the JSON decoder reads it: an error, a body over the limit, or the model it names.
\<close>

section \<open>The handler\<close>

text \<open>Times are in nanoseconds.\<close>

abbreviation cacheTTL :: int where "cacheTTL \<equiv> 2000000000"
abbreviation sourcesTTL :: int where "sourcesTTL \<equiv> 30000000000"
abbreviation DefaultMaxRequestBytes :: int where "DefaultMaxRequestBytes \<equiv> 67108864"

record gateway =
  gt_cfg :: fleet_config
  gt_token :: string
  gt_cfgFor :: "deploy_config config_for option"
  gt_maxRequestBytes :: int
  gt_results :: "node_result list option"
  gt_at :: int
  gt_wakeable :: "(string, string) gomap option"
  gt_wakeableAt :: int

record outside =
  ou_now :: int
  ou_after :: int
  ou_fanout :: "node_result list"
  ou_surroundings :: surroundings
  ou_cloudFor :: "deploy_config config_for"
  ou_world :: "node_config \<Rightarrow> deploy_config behaviour"

definition New :: "fleet_config \<Rightarrow> string \<Rightarrow> deploy_config config_for option \<Rightarrow> int \<Rightarrow> gateway" where
  "New cfg token cfgFor maxBytes =
     \<lparr>gt_cfg = cfg, gt_token = token, gt_cfgFor = cfgFor,
      gt_maxRequestBytes = (if maxBytes \<le> 0 then DefaultMaxRequestBytes else maxBytes),
      gt_results = None, gt_at = 0, gt_wakeable = None, gt_wakeableAt = 0\<rparr>"

section \<open>Shared readings\<close>

text \<open>One fan-out serves every request that comes within the time it stays fresh.\<close>

definition reading :: "outside \<Rightarrow> gateway \<Rightarrow> node_result list \<times> gateway" where
  "reading ou g =
     (case gt_results g of
        Some rs \<Rightarrow>
          if ou_now ou - gt_at g < cacheTTL then (rs, g)
          else (ou_fanout ou, g\<lparr>gt_results := Some (ou_fanout ou), gt_at := ou_after ou\<rparr>)
      | None \<Rightarrow> (ou_fanout ou, g\<lparr>gt_results := Some (ou_fanout ou), gt_at := ou_after ou\<rparr>))"

definition combinedConfigFor :: "outside \<Rightarrow> gateway \<Rightarrow> deploy_config config_for" where
  "combinedConfigFor ou g entry =
     (if nc_Kind entry = KindCloud then ou_cloudFor ou entry
      else (case gt_cfgFor g of
          None \<Rightarrow> Inl ''this gateway can wake no node: it has no way to resolve a node's Spinloop source''
        | Some f \<Rightarrow> f entry))"

text \<open>A node the fleet may wake, by the name its config would answer under, the served name first.\<close>

definition config_name :: "deploy_config \<Rightarrow> string" where
  "config_name dc = (if dc_ServedModelName dc = '''' then dc_ModelID dc else dc_ServedModelName dc)"

fun wakeable_names ::
  "fleet_config \<Rightarrow> deploy_config config_for \<Rightarrow> node_config list \<Rightarrow> (string, string) gomap \<Rightarrow> (string, string) gomap" where
  "wakeable_names c f [] m = m"
| "wakeable_names c f (entry # entries) m =
     (if \<not> NodeWakes c entry then wakeable_names c f entries m
      else (case f entry of
          Inl _ \<Rightarrow> wakeable_names c f entries m
        | Inr dc \<Rightarrow>
            if config_name dc \<noteq> ''''
            then wakeable_names c f entries (AList.update (nc_Name entry) (config_name dc) m)
            else wakeable_names c f entries m))"

definition wakeableModels :: "outside \<Rightarrow> gateway \<Rightarrow> (string, string) gomap \<times> gateway" where
  "wakeableModels ou g =
     (let fresh = wakeable_names (gt_cfg g) (combinedConfigFor ou g) (cfg_Nodes (gt_cfg g)) [];
          renewed = (fresh, g\<lparr>gt_wakeable := Some fresh, gt_wakeableAt := ou_after ou\<rparr>)
      in case gt_wakeable g of
           Some m \<Rightarrow> if ou_now ou - gt_wakeableAt g < sourcesTTL then (m, g) else renewed
         | None \<Rightarrow> renewed)"

section \<open>The models list\<close>

definition is_running :: "node_result \<Rightarrow> bool" where
  "is_running r \<longleftrightarrow> nr_OK r \<and> ns_State (nr_Status r) = EngineRunning"

definition running_name :: "node_result \<Rightarrow> string" where
  "running_name r =
     (if ns_ServedName (nr_Status r) = '''' then ns_Model (nr_Status r) else ns_ServedName (nr_Status r))"

definition add_name :: "string \<Rightarrow> string list \<Rightarrow> string list" where
  "add_name name data = (if name = '''' \<or> name \<in> set data then data else data @ [name])"

definition model_names :: "node_result list \<Rightarrow> (string, string) gomap \<Rightarrow> string list" where
  "model_names results wakes =
     fold (\<lambda>r. add_name (get_or '''' (map_of wakes) (nr_Name r)))
       (filter (\<lambda>r. nr_OK r \<and> ns_State (nr_Status r) \<noteq> EngineRunning) results)
       (fold (\<lambda>r. add_name (running_name r)) (filter is_running results) [])"

definition handleModels :: "outside \<Rightarrow> gateway \<Rightarrow> string list \<times> gateway" where
  "handleModels ou g =
     (case reading ou g of
        (results, g1) \<Rightarrow>
          (case wakeableModels ou g1 of (wakes, g2) \<Rightarrow> (model_names results wakes, g2)))"

section \<open>The topology\<close>

definition outcome_text :: "outcome \<Rightarrow> string" where
  "outcome_text oc = (case oc of
     OutcomeOK \<Rightarrow> ''ok'' | OutcomeUnreachable \<Rightarrow> ''unreachable'' | OutcomeUnauthorized \<Rightarrow> ''unauthorized''
   | OutcomeConfigError \<Rightarrow> ''config-error'' | OutcomeFailed \<Rightarrow> ''failed'' | OutcomeUnsupported \<Rightarrow> ''unsupported'')"

text \<open>The reply is the orchestrator's \<open>topology\<close>: the two sides' JSON fields agree.\<close>

definition node_topology :: "fleet_config \<Rightarrow> (string, string) gomap \<Rightarrow> node_result \<Rightarrow> topo_node" where
  "node_topology c wakes r =
     (let nt = \<lparr>tn_Name = nr_Name r,
          tn_Kind = (case find_node c (nr_Name r) of None \<Rightarrow> '''' | Some e \<Rightarrow> nc_Kind e),
          tn_Tags = (case find_node c (nr_Name r) of None \<Rightarrow> [] | Some e \<Rightarrow> nc_Tags e),
          tn_State = '''', tn_Detail = '''', tn_Model = '''', tn_ServedName = '''', tn_Ready = '''',
          tn_LastActiveAt = '''', tn_WakeableModel = ''''\<rparr>;
          st = nr_Status r
      in if \<not> nr_OK r then nt\<lparr>tn_State := outcome_text (nr_Outcome r), tn_Detail := Detail r\<rparr>
         else nt\<lparr>tn_State := ns_State st, tn_Model := ns_Model st, tn_ServedName := ns_ServedName st,
                 tn_Ready := ns_Ready st, tn_LastActiveAt := ns_LastActiveAt st,
                 tn_WakeableModel := (if ns_State st \<noteq> EngineRunning
                   then get_or '''' (map_of wakes) (nr_Name r) else '''')\<rparr>)"

definition handleTopology :: "outside \<Rightarrow> gateway \<Rightarrow> topology \<times> gateway" where
  "handleTopology ou g =
     (case reading ou g of
        (results, g1) \<Rightarrow>
          (case wakeableModels ou g1 of
             (wakes, g2) \<Rightarrow>
               (\<lparr>tp_Wake = Wakes (gt_cfg g), tp_Prefer = cfg_Prefer (gt_cfg g),
                 tp_Concurrency = map_option (\<lambda>cc. \<lparr>cp_Total = cc_Total cc, cp_Tags = cc_Tags cc\<rparr>)
                   (cfg_Concurrency (gt_cfg g)),
                 tp_Nodes = map (node_topology (gt_cfg g) wakes) results\<rparr>, g2)))"

section \<open>Routing a completion\<close>

datatype body_read = BodyTooLarge int | BodyUnreadable string | BodyModel string

definition reachable_results :: "surroundings \<Rightarrow> fleet_config \<Rightarrow> node_result list \<Rightarrow> node_result list" where
  "reachable_results su c results =
     map (\<lambda>r. if \<not> is_running r then r
       else case find_node c (nr_Name r) of
         None \<Rightarrow> r
       | Some entry \<Rightarrow>
           (case EngineBaseURL (su_url su) (su_loopback su) c entry (nr_Status r) of
              Inr _ \<Rightarrow> r
            | Inl e \<Rightarrow> r\<lparr>nr_Outcome := OutcomeUnreachable, nr_Err := Some ''engine not reachable''\<rparr>)) results"

definition matchingConfigFor :: "string \<Rightarrow> deploy_config config_for \<Rightarrow> deploy_config config_for" where
  "matchingConfigFor model base entry =
     (case base entry of
        Inl e \<Rightarrow> Inl e
      | Inr dc \<Rightarrow>
          if dc_ModelID dc \<noteq> model \<and> dc_ServedModelName dc \<noteq> model
          then Inl (''its source describes '' @ config_name dc @ '', not '' @ model)
          else Inr dc)"

datatype route_error =
    SelectFailed select_error
  | WakeOffDescribed string string
  | WakeOffUndescribed string

definition refuseWake :: "fleet_config \<Rightarrow> string \<Rightarrow> deploy_config config_for \<Rightarrow> route_error" where
  "refuseWake c model f =
     (case find (\<lambda>entry. \<not> isl (f entry)) (cfg_Nodes c) of
        Some entry \<Rightarrow> WakeOffDescribed (nc_Name entry) model
      | None \<Rightarrow> WakeOffUndescribed model)"

text \<open>The starts issued stand beside the result.\<close>

definition wakeFor ::
  "outside \<Rightarrow> gateway \<Rightarrow> want \<Rightarrow> node_result list \<Rightarrow> (route_error + choice) \<times> string list" where
  "wakeFor ou g w results =
     (let f = matchingConfigFor (w_Model w) (combinedConfigFor ou g); c = gt_cfg g in
      if \<not> AnyNodeWakes c then (Inl (refuseWake c (w_Model w) f), [])
      else (case Wake dc_ModelID (ou_surroundings ou) (ou_world ou) c w f results of
          (r, issued) \<Rightarrow> (map_sum SelectFailed id r, issued)))"

definition routeNothingServing ::
  "outside \<Rightarrow> gateway \<Rightarrow> want \<Rightarrow> node_result list \<Rightarrow> (route_error + choice) \<times> string list" where
  "routeNothingServing ou g w results =
     (if Loading (gt_cfg g) results w \<noteq> []
      then (map_sum SelectFailed id (WaitLoading (ou_surroundings ou) (ou_world ou) (gt_cfg g) w results), [])
      else wakeFor ou g w results)"

text \<open>What is sent to the engine: the node, the path below its address, and the bearer it is reached with.\<close>

record forwarded =
  fw_node :: string
  fw_base :: string
  fw_path :: string
  fw_bearer :: "string option"

datatype gateway_reply =
    Forwarded forwarded
  | ModelsList "string list"
  | FleetTopology topology
  | Healthy
  | GatewayError nat

definition joinPath :: "string \<Rightarrow> string \<Rightarrow> string" where
  "joinPath base rest = trim_slashes_right base @ ''/'' @ trim_slashes_left rest"

definition proxy :: "surroundings \<Rightarrow> string \<Rightarrow> choice \<Rightarrow> gateway_reply" where
  "proxy su path ch =
     (case su_url su (ch_BaseURL ch) of
        None \<Rightarrow> GatewayError 502
      | Some target \<Rightarrow>
          Forwarded \<lparr>fw_node = nc_Name (ch_Node ch), fw_base = ch_BaseURL ch,
            fw_path = joinPath (up_Path target) (case cut_prefix path ''/v1'' of None \<Rightarrow> path | Some rest \<Rightarrow> rest),
            fw_bearer = (if ch_APIKey ch \<noteq> '''' then Some (bearer_of (ch_APIKey ch)) else None)\<rparr>)"

text \<open>The choice among what is reachable, then what answers a request that nothing is serving.\<close>

definition route_completion ::
  "outside \<Rightarrow> string \<Rightarrow> gateway \<Rightarrow> want \<Rightarrow> node_result list \<Rightarrow> gateway_reply \<times> string list" where
  "route_completion ou path g w results =
     (let su = ou_surroundings ou in
      case choose_node su (gt_cfg g) (reachable_results su (gt_cfg g) results) w of
        Inr ch \<Rightarrow> (proxy su path ch, [])
      | Inl (NoneServing rs _ _) \<Rightarrow>
          (case routeNothingServing ou g w rs of
             (Inl e, issued) \<Rightarrow> (GatewayError 503, issued)
           | (Inr ch, issued) \<Rightarrow> (proxy su path ch, issued))
      | Inl e \<Rightarrow> (GatewayError 502, []))"

definition handleCompletion ::
  "outside \<Rightarrow> string \<Rightarrow> body_read \<Rightarrow> gateway \<Rightarrow> gateway_reply \<times> gateway \<times> string list" where
  "handleCompletion ou path body g =
     (case body of
        BodyTooLarge n \<Rightarrow> (GatewayError 413, g, [])
      | BodyUnreadable e \<Rightarrow> (GatewayError 400, g, [])
      | BodyModel model \<Rightarrow>
          if model = '''' then (GatewayError 400, g, [])
          else case Preference (gt_cfg g) '''' of
            Inl e \<Rightarrow> (GatewayError 400, g, [])
          | Inr prefer \<Rightarrow>
              (case reading ou g of
                 (results, g1) \<Rightarrow>
                   (case route_completion ou path g1
                        \<lparr>w_Model = model, w_Alias = '''', w_ModelID = '''', w_Node = '''', w_Prefer = prefer\<rparr> results of
                      (rp, issued) \<Rightarrow> (rp, g1, issued))))"

section \<open>The surface\<close>

record gateway_request =
  gr_method :: string
  gr_path :: string
  gr_auth :: string
  gr_body :: body_read

definition gateway_handle :: "outside \<Rightarrow> gateway_request \<Rightarrow> gateway \<Rightarrow> gateway_reply \<times> gateway \<times> string list" where
  "gateway_handle ou r g =
     (if gr_method r = ''GET'' \<and> gr_path r = ''/health'' then (Healthy, g, [])
      else if gr_method r = ''GET'' \<and> gr_path r = ''/v1/models''
        then (case handleModels ou g of (names, g') \<Rightarrow> (ModelsList names, g', []))
      else if gr_method r = ''GET'' \<and> gr_path r = ''/v1/fleet''
        then (case handleTopology ou g of (topo, g') \<Rightarrow> (FleetTopology topo, g', []))
      else if gr_method r = ''POST'' \<and> (gr_path r = ''/v1/chat/completions'' \<or> gr_path r = ''/v1/completions'')
        then handleCompletion ou (gr_path r) (gr_body r) g
      else (GatewayError 404, g, []))"

text \<open>The state next to the starts issued so far, so that the gate covers both.\<close>

definition gateway_serve ::
  "outside \<Rightarrow> string \<Rightarrow> gateway_request \<Rightarrow> gateway \<times> string list \<Rightarrow> gateway_reply \<times> gateway \<times> string list" where
  "gateway_serve ou token r s =
     (if authorized token (gr_auth r)
      then (case gateway_handle ou r (fst s) of (rp, g', issued) \<Rightarrow> (rp, g', snd s @ issued))
      else (GatewayError 401, s))"

interpretation gateway_api: bearer_gate "gateway_serve ou" gr_auth "GatewayError 401" for ou
  by unfold_locales (simp add: gateway_serve_def)

section \<open>What the gateway promises\<close>

text \<open>
  A request routes by the last reading while that is younger than the time it stays fresh and by a
  reading of its own otherwise; a reading that was taken serves every later request within that time,
  whatever the fleet would answer by then.
\<close>

theorem reading_shared:
  assumes "reading ou g = (rs, g1)"
  shows "gt_results g1 = Some rs \<and>
     (g1 = g \<and> ou_now ou - gt_at g < cacheTTL \<or> rs = ou_fanout ou \<and> gt_at g1 = ou_after ou) \<and>
     fst (reading ou' g1) = (if ou_now ou' - gt_at g1 < cacheTTL then rs else ou_fanout ou')"
  using assms by (auto simp: reading_def split: option.splits if_splits)

lemma set_add_name [simp]: "set (add_name name data) = set data \<union> ({name} - {''''})"
  by (auto simp: add_name_def)

lemma distinct_add_name [simp]: "distinct data \<Longrightarrow> distinct (add_name name data)"
  by (auto simp: add_name_def)

lemma fold_add_name:
  "distinct data \<Longrightarrow> distinct (fold (\<lambda>r. add_name (f r)) rs data) \<and>
     set (fold (\<lambda>r. add_name (f r)) rs data) = set data \<union> (f ` set rs - {''''})"
  by (induction rs arbitrary: data) auto

text \<open>
  The models list names each model once: what every running node that answered reports, under its
  served name where it has one, and what every other node that answered could be started with; nothing
  a request could not reach, and no empty name.
\<close>

theorem models_list_spec:
  "distinct (model_names results wakes) \<and>
   set (model_names results wakes) =
     {running_name r | r. r \<in> set results \<and> is_running r \<and> running_name r \<noteq> ''''} \<union>
     {m | m r. r \<in> set results \<and> nr_OK r \<and> \<not> is_running r \<and> map_of wakes (nr_Name r) = Some m \<and> m \<noteq> ''''}"
proof -
  let ?run = "filter is_running results"
  let ?rest = "filter (\<lambda>r. nr_OK r \<and> ns_State (nr_Status r) \<noteq> EngineRunning) results"
  let ?w = "\<lambda>r. get_or '''' (map_of wakes) (nr_Name r)"
  have 1: "distinct (fold (\<lambda>r. add_name (running_name r)) ?run []) \<and>
      set (fold (\<lambda>r. add_name (running_name r)) ?run []) = running_name ` set ?run - {''''}"
    using fold_add_name [of "[]" running_name ?run] by simp
  then have "distinct (model_names results wakes) \<and>
      set (model_names results wakes) = (running_name ` set ?run - {''''}) \<union> (?w ` set ?rest - {''''})"
    using fold_add_name [of _ ?w ?rest] by (simp add: model_names_def)
  moreover have "?w ` set ?rest - {''''} =
      {m | m r. r \<in> set results \<and> nr_OK r \<and> \<not> is_running r \<and> map_of wakes (nr_Name r) = Some m \<and> m \<noteq> ''''}"
    by (force simp: get_or_def is_running_def image_iff split: option.splits)
  ultimately show ?thesis by auto
qed

text \<open>The engine of the choice, reached with the choice's key or with none.\<close>

definition reached_with :: "choice \<Rightarrow> forwarded \<Rightarrow> bool" where
  "reached_with ch fw \<longleftrightarrow>
     fw_node fw = nc_Name (ch_Node ch) \<and> fw_base fw = ch_BaseURL ch \<and>
     fw_bearer fw = (if ch_APIKey ch \<noteq> '''' then Some (bearer_of (ch_APIKey ch)) else None)"

lemma proxy_forwarded:
  "proxy su path ch = Forwarded fw \<Longrightarrow> reached_with ch fw \<and> fw_node fw = nc_Name (ch_Node ch)"
  by (auto simp: proxy_def reached_with_def split: option.splits)

lemma wakeFor_issued:
  "wakeFor ou g w results = (r, issued) \<Longrightarrow>
     (issued \<noteq> [] \<longrightarrow> AnyNodeWakes (gt_cfg g)) \<and> (\<forall>ch. r = Inr ch \<longrightarrow> issued \<noteq> [] \<and> last issued = nc_Name (ch_Node ch))"
proof -
  assume r: "wakeFor ou g w results = (r, issued)"
  show ?thesis
  proof (cases "AnyNodeWakes (gt_cfg g)")
    case True
    obtain r' where "Wake dc_ModelID (ou_surroundings ou) (ou_world ou) (gt_cfg g) w
        (matchingConfigFor (w_Model w) (combinedConfigFor ou g)) results = (r', issued)" "r = map_sum SelectFailed id r'"
      using r True by (auto simp: wakeFor_def Let_def split: prod.splits)
    with True Wake_last show ?thesis by (metis map_sum_error_Inr)
  qed (use r in \<open>auto simp: wakeFor_def Let_def\<close>)
qed

lemma route_completion_spec:
  assumes "route_completion ou path g w rs = (rp, issued)" and "w_Node w = ''''"
    and "results = reachable_results (ou_surroundings ou) (gt_cfg g) rs"
  shows "(\<forall>fw. rp = Forwarded fw \<longrightarrow>
      (issued = [] \<or> last issued = fw_node fw) \<and>
      (\<exists>ch. reached_with ch fw)) \<and>
    (issued \<noteq> [] \<longrightarrow> AnyNodeWakes (gt_cfg g) \<and> Loading (gt_cfg g) results w = [] \<and>
       \<not> list_ex (\<lambda>ca. serves w ca \<and> ns_Ready (nr_Status (ca_result ca)) \<noteq> ReadyNo)
           (candidates (gt_cfg g) results))"
proof (cases "\<exists>rs' w' p. choose_node (ou_surroundings ou) (gt_cfg g) results w = Inl (NoneServing rs' w' p)")
  case False
  then show ?thesis
    using assms(1) unfolding route_completion_def Let_def assms(3) [symmetric]
    by (auto dest: proxy_forwarded split: sum.splits select_error.splits)
next
  case True
  then have none: "choose_node (ou_surroundings ou) (gt_cfg g) results w = Inl (NoneServing results w (cfg_Path (gt_cfg g)))"
    by (rule choose_node_none_args)
  obtain r iss where route: "routeNothingServing ou g w results = (r, iss)" by fastforce
  have out: "issued = iss" "rp = (case r of Inl e \<Rightarrow> GatewayError 503 | Inr ch \<Rightarrow> proxy (ou_surroundings ou) path ch)"
    using assms(1) unfolding route_completion_def Let_def assms(3) [symmetric] none
    by (auto simp: route split: sum.splits)
  note unserved = choose_node_none_ready [OF none assms(2)]
  show ?thesis
  proof (cases "Loading (gt_cfg g) results w = []")
    case True
    with route have "wakeFor ou g w results = (r, iss)" by (simp add: routeNothingServing_def)
    from wakeFor_issued [OF this] out unserved True show ?thesis
      by (auto dest: proxy_forwarded split: sum.splits)
  next
    case False
    with route have "iss = []" by (simp add: routeNothingServing_def)
    with out show ?thesis by (auto dest: proxy_forwarded split: sum.splits)
  qed
qed

text \<open>
  C5: a completion is forwarded to one node, and either nothing was started for it or that node is the
  one whose start was issued last. A start is issued only where no node that can be reached serves the
  model and none is loading it, and where some node may be woken. The engine is reached with the key
  of the choice or with none.
\<close>

theorem completion_routing:
  assumes "handleCompletion ou path (BodyModel model) g = (rp, g', issued)"
    and "w = \<lparr>w_Model = model, w_Alias = '''', w_ModelID = '''', w_Node = '''',
          w_Prefer = (if cfg_Prefer (gt_cfg g) = '''' then PreferIdle else cfg_Prefer (gt_cfg g))\<rparr>"
    and "results = reachable_results (ou_surroundings ou) (gt_cfg g) (fst (reading ou g))"
  shows "(\<forall>fw. rp = Forwarded fw \<longrightarrow>
      (issued = [] \<or> last issued = fw_node fw) \<and>
      (\<exists>ch. reached_with ch fw)) \<and>
    (issued \<noteq> [] \<longrightarrow> AnyNodeWakes (gt_cfg g) \<and> Loading (gt_cfg g) results w = [] \<and>
       \<not> list_ex (\<lambda>ca. serves w ca \<and> ns_Ready (nr_Status (ca_result ca)) \<noteq> ReadyNo)
           (candidates (gt_cfg g) results))"
proof (cases "model = ''''")
  case True
  with assms(1) show ?thesis by (auto simp: handleCompletion_def)
next
  case False
  obtain rs g1 where rd: "reading ou g = (rs, g1)" by fastforce
  have cfg: "gt_cfg g1 = gt_cfg g"
    using rd by (auto simp: reading_def split: option.splits if_splits)
  have pref: "Preference (gt_cfg g) '''' = Inr (w_Prefer w)" by (simp add: Preference_def assms(2))
  have w: "w = \<lparr>w_Model = model, w_Alias = '''', w_ModelID = '''', w_Node = '''', w_Prefer = w_Prefer w\<rparr>"
    by (simp add: assms(2))
  have "route_completion ou path g1 w rs = (rp, issued)"
    using assms(1) False unfolding handleCompletion_def body_read.case pref sum.case rd prod.case w [symmetric]
    by (auto split: prod.splits)
  from route_completion_spec [OF this, of results] show ?thesis
    by (simp add: assms(2,3) rd cfg)
qed

lemma node_topology_answered: "answered (node_topology c wakes r) \<Longrightarrow> nr_OK r"
  by (cases "nr_Outcome r") (auto simp: node_topology_def answered_def nr_OK_def outcome_text_def Let_def)

lemma node_topology_OK:
  "nr_OK r \<Longrightarrow> tn_Name (node_topology c wakes r) = nr_Name r \<and>
     tn_State (node_topology c wakes r) = ns_State (nr_Status r)"
  by (simp add: node_topology_def Let_def)


section \<open>A fleet of two, one of them serving\<close>

definition demo_gateway :: gateway where
  "demo_gateway = New waking_fleet ''secret'' None 0"

definition demo_outside :: outside where
  "demo_outside = \<lparr>ou_now = 0, ou_after = 1, ou_fanout = [idle_answer ''a'', demo_answer ''b'' 3],
     ou_surroundings = demo_surroundings\<lparr>su_url := \<lambda>_. Some \<lparr>up_Scheme = ''http'', up_Hostname = ''b'',
       up_Port = ''8080'', up_Path = ''/v1''\<rparr>\<rparr>,
     ou_cloudFor = (\<lambda>_. Inl ''none''),
     ou_world = (\<lambda>_. \<lparr>nb_built = None, nb_start = (\<lambda>dc key. None), nb_reread = Inl (TransportError ''''), nb_polls = []\<rparr>)\<rparr>"

lemma demo_reading:
  "reading demo_outside demo_gateway =
     (ou_fanout demo_outside, demo_gateway\<lparr>gt_results := Some (ou_fanout demo_outside), gt_at := 1\<rparr>)"
  by (simp add: reading_def demo_gateway_def demo_outside_def New_def)

theorem reading_shared_witness:
  "fst (reading (demo_outside\<lparr>ou_now := 5, ou_fanout := []\<rparr>) (snd (reading demo_outside demo_gateway))) =
     ou_fanout demo_outside"
  using reading_shared [OF demo_reading, of "demo_outside\<lparr>ou_now := 5, ou_fanout := []\<rparr>"]
  by (simp add: demo_reading)

lemma demo_completion:
  "\<exists>fw g'. handleCompletion demo_outside ''/v1/chat/completions'' (BodyModel ''m'') demo_gateway = (Forwarded fw, g', []) \<and>
     fw_node fw = ''b'' \<and> fw_bearer fw = None"
  by (simp add: handleCompletion_def route_completion_def Preference_def demo_reading)
     (simp add: demo_outside_def demo_gateway_def New_def waking_fleet_def idle_answer_def reachable_results_def
      is_running_def find_node_def choose_node_def pinned_refusal_def running_cands_def serves_def matches_def
      servingNames_def nr_OK_def rank_def choiceFor_def EngineBaseURL_def engine_parts_def engineKeyFor_def contains_def
      proxy_def demo_select Let_def)

theorem completion_routing_witness:
  "\<exists>fw g' ch. handleCompletion demo_outside ''/v1/chat/completions'' (BodyModel ''m'') demo_gateway = (Forwarded fw, g', []) \<and>
     fw_node fw = ''b'' \<and> reached_with ch fw"
proof -
  obtain fw g' where fw: "handleCompletion demo_outside ''/v1/chat/completions'' (BodyModel ''m'') demo_gateway = (Forwarded fw, g', [])"
    "fw_node fw = ''b''"
    using demo_completion by blast
  from completion_routing [OF fw(1) refl refl] fw show ?thesis by blast
qed


end
