(* ===== verification/TextLines.thy ===== *)
theory TextLines
  imports GoStrings
begin

text \<open>
  What the readers of line-based files share: \<^verbatim>\<open>bufio.Scanner\<close> over lines, \<^verbatim>\<open>strings.Fields\<close>, \<^verbatim>\<open>strings.Cut\<close>,
  \<^verbatim>\<open>strings.EqualFold\<close> and \<^verbatim>\<open>strings.TrimSpace\<close>, on ASCII text.
\<close>

section \<open>Lines\<close>

text \<open>
  A scanner over lines gives each without its line feed and without one carriage return before it; what
  follows the last line feed is a line where it is not empty. A line that does not fit the buffer ends
  the scan with an error.
\<close>

definition drop_cr :: "string \<Rightarrow> string" where
  "drop_cr l = (if l \<noteq> [] \<and> last l = CHR 0x0D then butlast l else l)"

fun scan_tokens :: "nat \<Rightarrow> string list \<Rightarrow> string list \<times> bool" where
  "scan_tokens lim [] = ([], False)"
| "scan_tokens lim (p # ps) =
     (if lim \<le> length p then ([], True)
      else (case scan_tokens lim ps of (ls, tooLong) \<Rightarrow> (drop_cr p # ls, tooLong)))"

definition scan_lines :: "nat \<Rightarrow> string \<Rightarrow> string list \<times> bool" where
  "scan_lines lim data =
     (let ps = split_on CHR 0x0A data in scan_tokens lim (if last ps = [] then butlast ps else ps))"

definition MaxScanTokenSize :: nat where
  "MaxScanTokenSize = 64 * 1024"

definition text_line :: "nat \<Rightarrow> string \<Rightarrow> bool" where
  "text_line lim l \<longleftrightarrow> CHR 0x0A \<notin> set l \<and> CHR 0x0D \<notin> set l \<and> length l < lim"

lemma drop_cr_id [simp]: "CHR 0x0D \<notin> set l \<Longrightarrow> drop_cr l = l"
  by (auto simp: drop_cr_def dest: last_in_set)

lemma scan_tokens_text: "list_all (text_line lim) ls \<Longrightarrow> scan_tokens lim ls = (ls, False)"
  by (induction ls) (auto simp: text_line_def)

lemma split_on_lines:
  "list_all (text_line lim) ls \<Longrightarrow> split_on CHR 0x0A (concat (map (\<lambda>l. l @ [CHR 0x0A]) ls)) = ls @ [[]]"
  by (induction ls) (auto simp: text_line_def split_on_append)

lemma scan_lines_concat:
  "list_all (text_line lim) ls \<Longrightarrow> scan_lines lim (concat (map (\<lambda>l. l @ [CHR 0x0A]) ls)) = (ls, False)"
  by (simp add: scan_lines_def split_on_lines scan_tokens_text)

lemma scan_tokens_length: "l \<in> set (fst (scan_tokens lim ps)) \<Longrightarrow> length l < lim"
  by (induction ps) (auto simp: drop_cr_def split: if_splits prod.splits)

section \<open>Trimming\<close>

lemma dropWhile_hd: "s = [] \<or> \<not> P (hd s) \<Longrightarrow> dropWhile P s = s"
  by (cases s) auto

text \<open>Text that begins and ends with no blank.\<close>

definition trimmed :: "string \<Rightarrow> bool" where
  "trimmed s \<longleftrightarrow> s = [] \<or> \<not> is_space (hd s) \<and> \<not> is_space (last s)"

lemma trim_space_trimmed [simp]: "trimmed s \<Longrightarrow> trim_space s = s"
  unfolding trimmed_def trim_space_def trim_left_by_def trim_right_by_def
  using dropWhile_hd [of s is_space] dropWhile_hd [of "rev s" is_space] by (auto simp: hd_rev)

lemma trim_space_cases:
  obtains a b where "s = a @ trim_space s @ b" "list_all is_space a" "list_all is_space b" "trimmed (trim_space s)"
proof -
  let ?t = "dropWhile is_space s"
  have s: "s = takeWhile is_space s @ ?t" by simp
  have "rev ?t = takeWhile is_space (rev ?t) @ dropWhile is_space (rev ?t)" by simp
  then have t: "?t = trim_space s @ rev (takeWhile is_space (rev ?t))"
    unfolding trim_space_def trim_left_by_def trim_right_by_def by (metis rev_append rev_rev_ident)
  have "trimmed (trim_space s)"
  proof (cases "trim_space s")
    case (Cons x xs)
    then have "?t = x # (xs @ rev (takeWhile is_space (rev ?t)))" using t by simp
    then have "\<not> is_space x" using hd_dropWhile [of is_space s] by (metis list.distinct(1) list.sel(1))
    moreover have "dropWhile is_space (rev ?t) \<noteq> []"
      using Cons by (auto simp: trim_space_def trim_left_by_def trim_right_by_def)
    then have "\<not> is_space (hd (dropWhile is_space (rev ?t)))" by (rule hd_dropWhile)
    then have "\<not> is_space (last (trim_space s))"
      by (simp add: trim_space_def trim_left_by_def trim_right_by_def last_rev)
    ultimately show ?thesis using Cons by (simp add: trimmed_def)
  qed (simp add: trimmed_def)
  moreover have "list_all is_space (takeWhile is_space s)" "list_all is_space (rev (takeWhile is_space (rev ?t)))"
    by (auto simp: list_all_iff dest: set_takeWhileD)
  ultimately show ?thesis using that s t by metis
qed

lemma trimmed_trim_space [simp]: "trimmed (trim_space s)"
  using trim_space_cases [of s] by metis

lemma set_trim_space: "set (trim_space s) \<subseteq> set s"
proof -
  obtain a b where "s = a @ trim_space s @ b" using trim_space_cases [of s] by metis
  then show ?thesis by (metis set_append Un_upper1 Un_upper2 subset_trans)
qed

lemma trim_space_blank [simp]: "list_all is_space s \<Longrightarrow> trim_space s = []"
  using trim_space_cases [of s "trim_space s = []"]
  by (metis Un_iff append_is_Nil_conv list.set_sel(1) list_all_iff set_append trimmed_def)

lemma trim_space_append_left [simp]: "list_all is_space a \<Longrightarrow> trim_space (a @ s) = trim_space s"
  by (induction a) (auto simp: trim_space_def trim_left_by_def)

lemma trim_space_Cons_space [simp]: "is_space c \<Longrightarrow> trim_space (c # s) = trim_space s"
  using trim_space_append_left [of "[c]" s] by simp

section \<open>Fields\<close>

fun split_spaces :: "string \<Rightarrow> string list" where
  "split_spaces [] = [[]]"
| "split_spaces (c # s) =
     (if is_space c then [] # split_spaces s
      else (case split_spaces s of [] \<Rightarrow> [[c]] | w # ws \<Rightarrow> (c # w) # ws))"

definition str_fields :: "string \<Rightarrow> string list" where
  "str_fields s = filter (\<lambda>w. w \<noteq> []) (split_spaces s)"

definition a_word :: "string \<Rightarrow> bool" where
  "a_word w \<longleftrightarrow> w \<noteq> [] \<and> list_all (\<lambda>c. \<not> is_space c) w"

lemma split_spaces_ne [simp]: "split_spaces s \<noteq> []"
  by (induction s) (auto split: list.splits)

lemma split_spaces_word: "list_all (\<lambda>c. \<not> is_space c) w \<Longrightarrow>
    split_spaces (w @ s) = (case split_spaces s of v # vs \<Rightarrow> (w @ v) # vs | [] \<Rightarrow> [w])"
  by (induction w) (auto split: list.splits)

lemma fields_Nil [simp]: "str_fields [] = []"
  by (simp add: str_fields_def)

lemma fields_space [simp]: "is_space c \<Longrightarrow> str_fields (c # s) = str_fields s"
  by (simp add: str_fields_def)

lemma fields_spaces [simp]: "list_all is_space a \<Longrightarrow> str_fields (a @ s) = str_fields s"
  by (induction a) auto

lemma fields_word [simp]: "a_word w \<Longrightarrow> str_fields w = [w]"
  using split_spaces_word [of w "[]"] by (simp add: str_fields_def a_word_def)

lemma fields_word_space:
  assumes "a_word w" and "is_space c"
  shows "str_fields (w @ c # s) = w # str_fields s"
  using assms split_spaces_word [of w "c # s"] by (simp add: str_fields_def a_word_def)

lemma fields_are_words: "w \<in> set (str_fields s) \<Longrightarrow> a_word w \<and> set w \<subseteq> set s"
proof -
  have "w \<in> set (split_spaces s) \<Longrightarrow> list_all (\<lambda>c. \<not> is_space c) w \<and> set w \<subseteq> set s"
  proof (induction s arbitrary: w)
    case (Cons c s)
    obtain v vs where v: "split_spaces s = v # vs" by (cases "split_spaces s") auto
    with Cons.IH [of v] have "list_all (\<lambda>c. \<not> is_space c) v \<and> set v \<subseteq> set s" by simp
    with v Cons.IH [of w] Cons.prems show ?case
      by (auto simp: list_all_iff split: if_splits)
  qed simp
  then show "w \<in> set (str_fields s) \<Longrightarrow> a_word w \<and> set w \<subseteq> set s" by (auto simp: str_fields_def a_word_def)
qed

lemma a_word_trimmed: "a_word w \<Longrightarrow> trimmed w"
  by (auto simp: a_word_def trimmed_def list_all_iff)

text \<open>The first field of text that is trimmed stands at its beginning.\<close>

lemma fields_head:
  assumes "trimmed s" and "s \<noteq> []"
  obtains w rest where "s = w @ rest" "str_fields s = w # str_fields rest" "a_word w" "rest = [] \<or> is_space (hd rest)"
proof -
  let ?w = "takeWhile (\<lambda>c. \<not> is_space c) s" and ?r = "dropWhile (\<lambda>c. \<not> is_space c) s"
  have w: "a_word ?w"
    using assms by (cases s) (auto simp: a_word_def trimmed_def list_all_iff dest: set_takeWhileD)
  have r: "?r = [] \<or> is_space (hd ?r)" using hd_dropWhile [of "\<lambda>c. \<not> is_space c" s] by auto
  have "s = ?w @ ?r" by simp
  moreover have "str_fields (?w @ ?r) = ?w # str_fields ?r"
  proof (cases ?r)
    case (Cons c t)
    with r fields_word_space [OF w, of c t] show ?thesis by (simp del: takeWhile_dropWhile_id)
  next
    case Nil
    have "str_fields (?w @ []) = [?w]" using w by simp
    with Nil show ?thesis by (simp only: fields_Nil)
  qed
  ultimately show ?thesis using that w r by (metis takeWhile_dropWhile_id)
qed

section \<open>Cutting and comparing\<close>

text \<open>\<^verbatim>\<open>strings.Cut\<close> at one byte: the text before it, after it, and whether it is there.\<close>

definition cut_at :: "string \<Rightarrow> char \<Rightarrow> string \<times> string \<times> bool" where
  "cut_at s c = (case index_byte s c of None \<Rightarrow> (s, '''', False) | Some i \<Rightarrow> (take i s, drop (Suc i) s, True))"

lemma cut_at_absent [simp]: "c \<notin> set s \<Longrightarrow> cut_at s c = (s, '''', False)"
  by (simp add: cut_at_def index_byte_None [THEN iffD2])

lemma cut_at_found [simp]: "c \<notin> set a \<Longrightarrow> cut_at (a @ c # b) c = (a, b, True)"
  by (simp add: cut_at_def index_byte_append)

lemma cut_at_cases: "cut_at s c = (a, b, found) \<Longrightarrow> c \<notin> set a \<and> s = (if found then a @ c # b else a) \<and> (\<not> found \<longrightarrow> b = [])"
  by (auto simp: cut_at_def id_take_nth_drop split: option.splits dest!: index_byte_Some)

text \<open>\<^verbatim>\<open>strings.IndexAny\<close>.\<close>

fun index_any :: "string \<Rightarrow> string \<Rightarrow> nat option" where
  "index_any [] cs = None"
| "index_any (x # xs) cs = (if x \<in> set cs then Some 0 else map_option Suc (index_any xs cs))"

lemma index_any_None: "index_any s cs = None \<longleftrightarrow> set s \<inter> set cs = {}"
  by (induction s) auto

lemma index_any_append: "set a \<inter> set cs = {} \<Longrightarrow> c \<in> set cs \<Longrightarrow> index_any (a @ c # b) cs = Some (length a)"
  by (induction a) auto

lemma index_any_Some: "index_any s cs = Some i \<Longrightarrow> i < length s \<and> s ! i \<in> set cs \<and> set (take i s) \<inter> set cs = {}"
  by (induction s arbitrary: i) (auto split: if_splits)

definition equal_fold :: "string \<Rightarrow> string \<Rightarrow> bool" where
  "equal_fold a b \<longleftrightarrow> to_lower a = to_lower b"

lemma lower_char_idem [simp]: "lower_char (lower_char c) = lower_char c"
proof -
  have "(of_char (char_of (n + 32) :: char) :: nat) = n + 32" if "n \<le> 90" for n :: nat
    using that by (simp add: of_char_of)
  then show ?thesis by (simp add: lower_char_def)
qed

lemma to_lower_idem [simp]: "to_lower (to_lower s) = to_lower s"
  by (simp add: to_lower_def)

lemma is_space_lower [simp]: "is_space (lower_char c) = is_space c"
proof -
  have "\<not> is_space (char_of (n + 32))" if "65 \<le> n" "n \<le> 90" for n :: nat
  proof
    assume "is_space (char_of (n + 32))"
    then have "(of_char (char_of (n + 32) :: char) :: nat) \<in> of_char ` set [CHR '' '', CHR 0x09, CHR 0x0A, CHR 0x0B, CHR 0x0C, CHR 0x0D]"
      unfolding is_space_def by (rule imageI)
    with that show False by (simp add: of_char_of)
  qed
  moreover have "\<not> is_space c" if "65 \<le> (of_char c :: nat)"
    using that by (auto simp: is_space_def)
  ultimately show ?thesis by (auto simp: lower_char_def)
qed

lemma trim_space_lower [simp]: "trim_space (to_lower s) = to_lower (trim_space s)"
  by (simp add: trim_space_def trim_left_by_def trim_right_by_def to_lower_def dropWhile_map rev_map comp_def)

end
