(* ===== verification/SpinloopFile.thy ===== *)
theory SpinloopFile
  imports TextLines
begin

text \<open>
  \<^verbatim>\<open>internal/spinloop/spinloop.go\<close>: the Spinloop file, its parser and its formatter. Text is ASCII: the
  blanks are those of that range.
\<close>

section \<open>The selection\<close>

record selection =
  sel_Provider :: string
  sel_Model :: string
  sel_Alias :: string
  sel_Context :: string
  sel_Output :: string
  sel_Providers :: string
  sel_BaseURL :: string
  sel_Preset :: string
  sel_Parallel :: string
  sel_DisplayName :: string
  sel_Env :: "(string \<times> string) list"
  sel_Params :: "(string \<times> string) list"
  sel_DiscoveredModels :: "string list"

definition empty_selection :: selection where
  "empty_selection =
     \<lparr>sel_Provider = '''', sel_Model = '''', sel_Alias = '''', sel_Context = '''', sel_Output = '''',
      sel_Providers = '''', sel_BaseURL = '''', sel_Preset = '''', sel_Parallel = '''', sel_DisplayName = '''',
      sel_Env = [], sel_Params = [], sel_DiscoveredModels = []\<rparr>"

datatype keyword =
    KwProvider | KwModel | KwAlias | KwContext | KwOutput | KwParallel | KwBaseURL | KwPreset | KwParam | KwEnv

definition canonicalKeyword :: "string \<Rightarrow> keyword option" where
  "canonicalKeyword kw =
     map_of [(''provider'', KwProvider), (''model'', KwModel), (''alias'', KwAlias), (''context'', KwContext),
       (''output'', KwOutput), (''parallel'', KwParallel), (''preset'', KwPreset), (''param'', KwParam),
       (''env'', KwEnv), (''baseurl'', KwBaseURL), (''base-url'', KwBaseURL), (''base_url'', KwBaseURL),
       (''url'', KwBaseURL)] kw"

datatype spin_error =
    RemoteRemoved nat
  | UnknownKeyword nat string
  | BadParam nat string
  | NeedsValue nat keyword
  | SingleValue nat keyword nat
  | BadEnv nat string
  | DuplicateKeyword nat keyword nat
  | LineTooLong
  | MissingProvider

section \<open>Parsing\<close>

definition strip_comment :: "string \<Rightarrow> string" where
  "strip_comment s =
     (if prefix ''#'' (trim_left_by (\<lambda>c. c = CHR '' '' \<or> c = CHR 0x09) s) then ''''
      else (case index_any s [CHR '' '', CHR 0x09] of
          None \<Rightarrow> s
        | Some i \<Rightarrow> (case index_byte (drop i s) CHR ''#'' of None \<Rightarrow> s | Some j \<Rightarrow> take (i + j) s)))"

definition set_field :: "keyword \<Rightarrow> string \<Rightarrow> selection \<Rightarrow> selection" where
  "set_field kw v sel =
     (case kw of
        KwProvider \<Rightarrow> sel\<lparr>sel_Provider := v\<rparr>
      | KwModel \<Rightarrow> sel\<lparr>sel_Model := v\<rparr>
      | KwAlias \<Rightarrow> sel\<lparr>sel_Alias := v\<rparr>
      | KwContext \<Rightarrow> sel\<lparr>sel_Context := v\<rparr>
      | KwOutput \<Rightarrow> sel\<lparr>sel_Output := v\<rparr>
      | KwParallel \<Rightarrow> sel\<lparr>sel_Parallel := v\<rparr>
      | KwBaseURL \<Rightarrow> sel\<lparr>sel_BaseURL := v\<rparr>
      | KwPreset \<Rightarrow> sel\<lparr>sel_Preset := v\<rparr>
      | KwParam \<Rightarrow> sel
      | KwEnv \<Rightarrow> sel)"

definition param_line :: "nat \<Rightarrow> string \<Rightarrow> string \<Rightarrow> selection \<Rightarrow> spin_error + selection" where
  "param_line line text first sel =
     (let rest = trim_space (drop (length first) text);
          (key, val, _) = cut_at rest CHR ''='';
          key = trim_space key
      in if key = '''' \<or> contains_any key [CHR '' '', CHR 0x09] then Inl (BadParam line text)
         else Inr (sel\<lparr>sel_Params := sel_Params sel @ [(key, trim_space val)]\<rparr>))"

definition env_entry :: "nat \<Rightarrow> string \<Rightarrow> selection \<Rightarrow> spin_error + selection" where
  "env_entry line v sel =
     (let (key, val, ok) = cut_at v CHR ''='' in
      if \<not> ok \<or> key = '''' then Inl (BadEnv line v)
      else Inr (sel\<lparr>sel_Env := sel_Env sel @ [(key, val)]\<rparr>))"

type_synonym spin_state = "selection \<times> (keyword, nat) gomap"

definition spin_line :: "nat \<Rightarrow> string \<Rightarrow> spin_state \<Rightarrow> spin_error + spin_state" where
  "spin_line line raw = (\<lambda>(sel, seen).
     (let text = trim_space (strip_comment raw) in
      if text = '''' then Inr (sel, seen)
      else
        (let fs = str_fields text; kw = to_lower (hd fs) in
         case canonicalKeyword kw of
           None \<Rightarrow> Inl (if kw = ''remote'' then RemoteRemoved line else UnknownKeyword line (hd fs))
         | Some canon \<Rightarrow>
             if canon = KwParam then map_sum id (\<lambda>s. (s, seen)) (param_line line text (hd fs) sel)
             else if length fs < 2 then Inl (NeedsValue line canon)
             else if length fs > 2 then Inl (SingleValue line canon (length fs - 1))
             else if canon = KwEnv then map_sum id (\<lambda>s. (s, seen)) (env_entry line (fs ! 1) sel)
             else (case map_of seen canon of
                 Some prev \<Rightarrow> Inl (DuplicateKeyword line canon prev)
               | None \<Rightarrow> Inr (set_field canon (fs ! 1) sel, AList.update canon line seen)))))"

fun spin_lines :: "nat \<Rightarrow> string list \<Rightarrow> spin_state \<Rightarrow> spin_error + spin_state" where
  "spin_lines n [] st = Inr st"
| "spin_lines n (l # ls) st = (case spin_line n l st of Inl e \<Rightarrow> Inl e | Inr st' \<Rightarrow> spin_lines (Suc n) ls st')"

definition ParseSpinloop :: "string \<Rightarrow> spin_error + selection" where
  "ParseSpinloop data =
     (case scan_lines MaxScanTokenSize data of (ls, tooLong) \<Rightarrow>
      case spin_lines 1 ls (empty_selection, []) of
        Inl e \<Rightarrow> Inl e
      | Inr (sel, _) \<Rightarrow>
          if tooLong then Inl LineTooLong
          else if sel_Provider sel = '''' then Inl MissingProvider
          else Inr sel)"

section \<open>Formatting\<close>

definition pad8 :: "string \<Rightarrow> string" where
  "pad8 s = s @ replicate (8 - length s) CHR '' ''"

definition format_line :: "string \<Rightarrow> string \<Rightarrow> string list" where
  "format_line kw v = (if v \<noteq> '''' then [pad8 kw @ CHR '' '' # v] else [])"

definition format_params :: "(string \<times> string) list \<Rightarrow> string list" where
  "format_params ps =
     concat (map (\<lambda>(k, v). format_line ''PARAM'' (if v = '''' then k else k @ '' = '' @ v)) ps)"

definition format_env :: "(string \<times> string) list \<Rightarrow> string list" where
  "format_env es = concat (map (\<lambda>(k, v). format_line ''ENV'' (k @ ''='' @ v)) es)"

definition format_fields :: "selection \<Rightarrow> (keyword \<times> string \<times> string) list" where
  "format_fields sel =
     [(KwProvider, ''PROVIDER'', sel_Provider sel), (KwModel, ''MODEL'', sel_Model sel),
      (KwAlias, ''ALIAS'', sel_Alias sel), (KwContext, ''CONTEXT'', sel_Context sel),
      (KwOutput, ''OUTPUT'', sel_Output sel), (KwParallel, ''PARALLEL'', sel_Parallel sel),
      (KwBaseURL, ''BASEURL'', sel_BaseURL sel), (KwPreset, ''PRESET'', sel_Preset sel)]"

definition format_lines :: "selection \<Rightarrow> string list" where
  "format_lines sel =
     concat (map (\<lambda>(_, kw, v). format_line kw v) (format_fields sel)) @
     format_params (sel_Params sel) @ format_env (sel_Env sel)"

definition Format :: "selection \<Rightarrow> string" where
  "Format sel = concat (map (\<lambda>l. l @ [CHR 0x0A]) (format_lines sel))"

section \<open>Round trips\<close>

lemma keyword_names [simp]:
  "canonicalKeyword (to_lower ''PROVIDER'') = Some KwProvider" "canonicalKeyword (to_lower ''MODEL'') = Some KwModel"
  "canonicalKeyword (to_lower ''ALIAS'') = Some KwAlias" "canonicalKeyword (to_lower ''CONTEXT'') = Some KwContext"
  "canonicalKeyword (to_lower ''OUTPUT'') = Some KwOutput" "canonicalKeyword (to_lower ''PARALLEL'') = Some KwParallel"
  "canonicalKeyword (to_lower ''BASEURL'') = Some KwBaseURL" "canonicalKeyword (to_lower ''PRESET'') = Some KwPreset"
  "canonicalKeyword (to_lower ''PARAM'') = Some KwParam" "canonicalKeyword (to_lower ''ENV'') = Some KwEnv"
  by code_simp+

text \<open>A selection that a file can hold: words without a comment sign, and lines a scanner takes.\<close>

definition plain_word :: "string \<Rightarrow> bool" where
  "plain_word v \<longleftrightarrow> a_word v \<and> CHR ''#'' \<notin> set v"

definition plain_param :: "string \<times> string \<Rightarrow> bool" where
  "plain_param = (\<lambda>(k, v). plain_word k \<and> CHR ''='' \<notin> set k \<and> trimmed v \<and>
     CHR ''#'' \<notin> set v \<and> CHR 0x0A \<notin> set v \<and> CHR 0x0D \<notin> set v)"

definition plain_env :: "string \<times> string \<Rightarrow> bool" where
  "plain_env = (\<lambda>(k, v). k \<noteq> '''' \<and> CHR ''='' \<notin> set k \<and> plain_word (k @ ''='' @ v))"

definition plain_selection :: "selection \<Rightarrow> bool" where
  "plain_selection sel \<longleftrightarrow>
     list_all (\<lambda>(_, _, v). v = '''' \<or> plain_word v) (format_fields sel) \<and>
     list_all plain_param (sel_Params sel) \<and> list_all plain_env (sel_Env sel) \<and>
     sel_Providers sel = '''' \<and> sel_DisplayName sel = '''' \<and> sel_DiscoveredModels sel = []"

definition writable :: "selection \<Rightarrow> bool" where
  "writable sel \<longleftrightarrow> plain_selection sel \<and> sel_Provider sel \<noteq> '''' \<and>
     list_all (\<lambda>l. length l < MaxScanTokenSize) (format_lines sel)"

lemma strip_comment_plain: "CHR ''#'' \<notin> set s \<Longrightarrow> strip_comment s = s"
proof -
  assume a: "CHR ''#'' \<notin> set s"
  have "prefix ''#'' t \<Longrightarrow> CHR ''#'' \<in> set t" for t by (auto simp: prefix_def)
  moreover have "set (trim_left_by P s) \<subseteq> set s" for P by (auto simp: trim_left_by_def dest: set_dropWhileD)
  moreover have "index_byte (drop i s) CHR ''#'' = None" for i using a in_set_dropD [of "CHR ''#''" i s] by auto
  ultimately show ?thesis
    using a by (auto simp: strip_comment_def simp del: index_byte_None split: option.splits)
qed

text \<open>A line of the formatter: its text, its fields and what follows the keyword.\<close>

lemma pad8_split: "pad8 kw @ CHR '' '' # v = kw @ CHR '' '' # replicate (8 - length kw) CHR '' '' @ v"
  by (simp add: pad8_def replicate_app_Cons_same)

lemma is_space_blank [simp]: "is_space CHR '' ''"
  by (simp add: is_space_def)

lemma formatted_text:
  assumes "plain_word kw" and "v \<noteq> ''''" and "trimmed v" and "CHR ''#'' \<notin> set v"
  shows "trim_space (strip_comment (pad8 kw @ CHR '' '' # v)) = pad8 kw @ CHR '' '' # v"
proof -
  have "trimmed (pad8 kw @ CHR '' '' # v)"
    using assms by (cases kw) (auto simp: trimmed_def plain_word_def a_word_def pad8_def)
  moreover have "CHR ''#'' \<notin> set (pad8 kw @ CHR '' '' # v)"
    using assms by (auto simp: plain_word_def pad8_def)
  ultimately show ?thesis by (simp add: strip_comment_plain)
qed

lemma formatted_fields:
  assumes "a_word kw"
  shows "str_fields (pad8 kw @ CHR '' '' # v) = kw # str_fields v"
    "trim_space (drop (length kw) (pad8 kw @ CHR '' '' # v)) = trim_space v"
  using fields_word_space [OF assms, of "CHR '' ''" "replicate (8 - length kw) CHR '' '' @ v"]
    trim_space_append_left [of "CHR '' '' # replicate (8 - length kw) CHR '' ''" v]
    fields_spaces [of "replicate (8 - length kw) CHR '' ''" v]
  by (simp_all add: pad8_split list_all_iff)

lemma plain_word_trimmed [simp]: "plain_word v \<Longrightarrow> trimmed v"
  by (simp add: plain_word_def a_word_trimmed)

lemma spin_single:
  assumes kw: "plain_word k" "canonicalKeyword (to_lower k) = Some canon" "canon \<noteq> KwParam" "canon \<noteq> KwEnv"
    and v: "plain_word v" and new: "map_of seen canon = None"
  shows "spin_line n (pad8 k @ CHR '' '' # v) (sel, seen) = Inr (set_field canon v sel, AList.update canon n seen)"
proof -
  have "v \<noteq> ''''" "a_word k" "a_word v" "CHR ''#'' \<notin> set v" using kw(1) v by (auto simp: plain_word_def a_word_def)
  then show ?thesis
    using formatted_text [OF kw(1), of v] formatted_fields [of k v] v kw new
    by (simp add: spin_line_def Let_def)
qed

lemma contains_any_word: "a_word k \<Longrightarrow> \<not> contains_any k [CHR '' '', CHR 0x09]"
  by (auto simp: contains_any_def a_word_def list_ex_iff list_all_iff is_space_def)

lemma spin_param:
  assumes "plain_param (k, v)" and s: "s = (if v = '''' then k else k @ '' = '' @ v)"
  shows "spin_line n (pad8 ''PARAM'' @ CHR '' '' # s) (sel, seen) = Inr (sel\<lparr>sel_Params := sel_Params sel @ [(k, v)]\<rparr>, seen)"
proof -
  have k: "a_word k" "k \<noteq> []" "CHR ''='' \<notin> set k" "trimmed k" and v: "trimmed v"
    using assms by (auto simp: plain_param_def plain_word_def a_word_def a_word_trimmed)
  have kw: "plain_word ''PARAM''" "a_word ''PARAM''" by (simp_all add: plain_word_def a_word_def is_space_def)
  have "s \<noteq> ''''" "trimmed s" "CHR ''#'' \<notin> set s"
    using assms k v by (auto simp: trimmed_def plain_param_def plain_word_def hd_append split: if_splits)
  moreover have "cut_at s CHR ''='' = (if v = '''' then (k, '''', False) else (k @ '' '', CHR '' '' # v, True))"
    using cut_at_found [of "CHR ''=''" "k @ '' ''" "CHR '' '' # v"] k s by auto
  moreover have "trim_space (k @ '' '') = k"
  proof -
    have "trim_space (k @ '' '') = trim_space k"
      using k by (simp add: trim_space_def trim_left_by_def trim_right_by_def trimmed_def dropWhile_hd)
    with k show ?thesis by simp
  qed
  ultimately show ?thesis
    using formatted_text [OF kw(1), of s] formatted_fields [OF kw(2), of s] k v contains_any_word [of k]
    by (auto simp: spin_line_def Let_def param_line_def)
qed

lemma spin_env:
  assumes "plain_env (k, v)"
  shows "spin_line n (pad8 ''ENV'' @ CHR '' '' # k @ ''='' @ v) (sel, seen) = Inr (sel\<lparr>sel_Env := sel_Env sel @ [(k, v)]\<rparr>, seen)"
proof -
  let ?s = "k @ ''='' @ v"
  have w: "plain_word ?s" "a_word ?s" "k \<noteq> []" "CHR ''='' \<notin> set k"
    using assms by (auto simp: plain_env_def plain_word_def)
  have kw: "plain_word ''ENV''" "a_word ''ENV''" by (simp_all add: plain_word_def a_word_def is_space_def)
  have "cut_at ?s CHR ''='' = (k, v, True)" using cut_at_found [of "CHR ''=''" k v] w by simp
  then show ?thesis
    using formatted_text [OF kw(1), of ?s] formatted_fields [OF kw(2), of ?s] w
    by (simp add: spin_line_def Let_def env_entry_def plain_word_def)
qed

lemma spin_lines_append:
  "spin_lines n (ls @ ms) st =
     (case spin_lines n ls st of Inl e \<Rightarrow> Inl e | Inr st' \<Rightarrow> spin_lines (n + length ls) ms st')"
  by (induction n ls st rule: spin_lines.induct) (auto split: sum.splits)

lemma spin_fields:
  assumes "list_all (\<lambda>(kw, k, v). plain_word k \<and> canonicalKeyword (to_lower k) = Some kw \<and> kw \<noteq> KwParam \<and> kw \<noteq> KwEnv \<and>
      (v = '''' \<or> plain_word v)) fs"
    and "distinct (map fst fs)" and "\<forall>kw \<in> fst ` set fs. map_of seen kw = None"
  shows "\<exists>seen'. spin_lines n (concat (map (\<lambda>(_, k, v). format_line k v) fs)) (sel, seen) =
     Inr (fold (\<lambda>(kw, _, v) s. if v = '''' then s else set_field kw v s) fs sel, seen')"
  using assms
proof (induction fs arbitrary: n sel seen)
  case (Cons f fs)
  obtain kw k v where f: "f = (kw, k, v)" by (cases f)
  show ?case
  proof (cases "v = ''''")
    case True
    with Cons f show ?thesis by (auto simp: format_line_def)
  next
    case False
    with Cons.prems f have line: "spin_line n (pad8 k @ CHR '' '' # v) (sel, seen) = Inr (set_field kw v sel, AList.update kw n seen)"
      by (intro spin_single) auto
    from Cons.prems f have "\<forall>kw \<in> fst ` set fs. map_of (AList.update kw' n seen) kw = None" if "kw' = kw" for kw'
      using that by (auto simp: image_iff)
    with Cons.IH [of "AList.update kw n seen" "Suc n" "set_field kw v sel"] Cons.prems f False line
    show ?thesis by (auto simp: format_line_def)
  qed
qed simp

lemma spin_params:
  "list_all plain_param ps \<Longrightarrow>
    spin_lines n (format_params ps) (sel, seen) = Inr (sel\<lparr>sel_Params := sel_Params sel @ ps\<rparr>, seen)"
proof (induction ps arbitrary: n sel)
  case (Cons p ps)
  obtain k v where p: "p = (k, v)" by (cases p)
  from Cons.prems p have "k \<noteq> ''''" by (auto simp: plain_param_def plain_word_def a_word_def)
  then have "format_params (p # ps) = (pad8 ''PARAM'' @ CHR '' '' # (if v = '''' then k else k @ '' = '' @ v)) # format_params ps"
    using p by (simp add: format_params_def format_line_def)
  with Cons p spin_param [of k v _ n sel seen] show ?case by simp
qed (simp add: format_params_def)

lemma spin_envs:
  "list_all plain_env es \<Longrightarrow>
    spin_lines n (format_env es) (sel, seen) = Inr (sel\<lparr>sel_Env := sel_Env sel @ es\<rparr>, seen)"
proof (induction es arbitrary: n sel)
  case (Cons p es)
  obtain k v where p: "p = (k, v)" by (cases p)
  then have "format_env (p # es) = (pad8 ''ENV'' @ CHR '' '' # k @ ''='' @ v) # format_env es"
    by (simp add: format_env_def format_line_def)
  with Cons p spin_env [of k v n sel seen] show ?case by simp
qed (simp add: format_env_def)

lemma set_field_unset:
  "sel_Provider s = '''' \<Longrightarrow> (if v = '''' then s else set_field KwProvider v s) = s\<lparr>sel_Provider := v\<rparr>"
  "sel_Model s = '''' \<Longrightarrow> (if v = '''' then s else set_field KwModel v s) = s\<lparr>sel_Model := v\<rparr>"
  "sel_Alias s = '''' \<Longrightarrow> (if v = '''' then s else set_field KwAlias v s) = s\<lparr>sel_Alias := v\<rparr>"
  "sel_Context s = '''' \<Longrightarrow> (if v = '''' then s else set_field KwContext v s) = s\<lparr>sel_Context := v\<rparr>"
  "sel_Output s = '''' \<Longrightarrow> (if v = '''' then s else set_field KwOutput v s) = s\<lparr>sel_Output := v\<rparr>"
  "sel_Parallel s = '''' \<Longrightarrow> (if v = '''' then s else set_field KwParallel v s) = s\<lparr>sel_Parallel := v\<rparr>"
  "sel_BaseURL s = '''' \<Longrightarrow> (if v = '''' then s else set_field KwBaseURL v s) = s\<lparr>sel_BaseURL := v\<rparr>"
  "sel_Preset s = '''' \<Longrightarrow> (if v = '''' then s else set_field KwPreset v s) = s\<lparr>sel_Preset := v\<rparr>"
  by (cases s, simp add: set_field_def)+

lemma plain_keywords:
  "plain_word ''PROVIDER''" "plain_word ''MODEL''" "plain_word ''ALIAS''" "plain_word ''CONTEXT''"
  "plain_word ''OUTPUT''" "plain_word ''PARALLEL''" "plain_word ''BASEURL''" "plain_word ''PRESET''"
  by (simp_all add: plain_word_def a_word_def is_space_def)

lemma spin_format_lines:
  assumes "plain_selection sel"
  shows "\<exists>seen. spin_lines n (format_lines sel) (empty_selection, []) = Inr (sel, seen)"
proof -
  let ?set = "\<lambda>(kw, _ :: string, v) s. if v = '''' then s else set_field kw v s"
  obtain seen where f: "spin_lines n (concat (map (\<lambda>(_, k, v). format_line k v) (format_fields sel))) (empty_selection, []) =
      Inr (fold ?set (format_fields sel) empty_selection, seen)"
    using spin_fields [of "format_fields sel" "[]" n empty_selection] assms
    by (auto simp: plain_selection_def format_fields_def plain_keywords)
  have "fold ?set (format_fields sel) empty_selection = sel\<lparr>sel_Params := [], sel_Env := []\<rparr>"
    using assms
    by (cases sel) (simp add: format_fields_def empty_selection_def set_field_unset plain_selection_def)
  then show ?thesis
    using f spin_params [of "sel_Params sel"] spin_envs [of "sel_Env sel"] assms
    by (cases sel) (simp add: format_lines_def spin_lines_append plain_selection_def)
qed

definition one_line_text :: "string \<Rightarrow> bool" where
  "one_line_text l \<longleftrightarrow> CHR 0x0A \<notin> set l \<and> CHR 0x0D \<notin> set l"

lemma one_line_format_line:
  "one_line_text k \<Longrightarrow> one_line_text v \<Longrightarrow> list_all one_line_text (format_line k v)"
  by (auto simp: one_line_text_def format_line_def pad8_def)

lemma one_line_word: "plain_word v \<Longrightarrow> one_line_text v"
  by (auto simp: plain_word_def a_word_def list_all_iff is_space_def one_line_text_def)

lemma list_all_concat_map: "list_all P (concat (map f xs)) = list_all (\<lambda>x. list_all P (f x)) xs"
  by (induction xs) auto

lemma format_lines_text:
  assumes "writable sel" shows "list_all (text_line MaxScanTokenSize) (format_lines sel)"
proof -
  have k: "one_line_text ''PARAM''" "one_line_text ''ENV''" "one_line_text []" by (simp_all add: one_line_text_def)
  have "list_all one_line_text (concat (map (\<lambda>(_, kw, v). format_line kw v) (format_fields sel)))"
  proof -
    have "one_line_text kw \<and> one_line_text v" if "(c, kw, v) \<in> set (format_fields sel)" for c kw v
    proof -
      from that have "plain_word kw" by (auto simp: format_fields_def plain_keywords)
      moreover from that assms have "v = '''' \<or> plain_word v"
        unfolding writable_def plain_selection_def list_all_iff by blast
      ultimately show ?thesis using one_line_word k(3) by blast
    qed
    then show ?thesis
      unfolding list_all_concat_map list_all_iff [of _ "format_fields sel"]
      by (auto intro: one_line_format_line)
  qed
  moreover have "list_all one_line_text (format_line ''PARAM'' (if v = '''' then n else n @ '' = '' @ v))"
    if "plain_param (n, v)" for n v
    using that one_line_word [of n] by (intro one_line_format_line k) (auto simp: plain_param_def one_line_text_def)
  then have "list_all one_line_text (format_params (sel_Params sel))"
    using assms by (auto simp: format_params_def list_all_concat_map writable_def plain_selection_def list_all_iff)
  moreover have "list_all one_line_text (format_line ''ENV'' (n @ ''='' @ v))" if "plain_env (n, v)" for n v
    using that one_line_word [of "n @ ''='' @ v"] by (intro one_line_format_line k) (auto simp: plain_env_def)
  then have "list_all one_line_text (format_env (sel_Env sel))"
    using assms by (auto simp: format_env_def list_all_concat_map writable_def plain_selection_def list_all_iff)
  ultimately show ?thesis
    using assms by (auto simp: format_lines_def list_all_iff text_line_def writable_def one_line_text_def)
qed

text \<open>
  C29: A selection whose values are words without a comment sign, formatted and parsed again, is the
  same selection.
\<close>

theorem ParseSpinloop_Format:
  assumes "writable sel" shows "ParseSpinloop (Format sel) = Inr sel"
proof -
  obtain seen where "spin_lines 1 (format_lines sel) (empty_selection, []) = Inr (sel, seen)"
    using spin_format_lines assms by (auto simp: writable_def)
  then show ?thesis
    using scan_lines_concat [OF format_lines_text [OF assms]] assms
    by (simp add: ParseSpinloop_def Format_def writable_def)
qed

section \<open>What a file comes to\<close>

text \<open>
  The text left of a line is a first part without a blank and a rest that a blank begins and that has no
  comment sign. Of the blanks, lines hold spaces and tabs only.
\<close>

definition spaces_only :: "string \<Rightarrow> bool" where
  "spaces_only l \<longleftrightarrow> (\<forall>c \<in> set l. is_space c \<longrightarrow> c = CHR '' '' \<or> c = CHR 0x09)"

definition cut_text :: "string \<Rightarrow> bool" where
  "cut_text t \<longleftrightarrow> (\<exists>a b. t = a @ b \<and> list_all (\<lambda>c. \<not> is_space c) a \<and> (b = [] \<or> is_space (hd b)) \<and> CHR ''#'' \<notin> set b)"

lemma strip_comment_set: "set (strip_comment s) \<subseteq> set s"
  by (auto simp: strip_comment_def split: option.splits dest: in_set_takeD)

lemma cut_text_strip:
  assumes "spaces_only l" shows "cut_text (strip_comment l)"
proof -
  let ?b = "[CHR '' '', CHR 0x09]"
  have blanks: "list_all (\<lambda>c. \<not> is_space c) a" if "set a \<subseteq> set l" "set a \<inter> set ?b = {}" for a
    using assms that by (auto simp: spaces_only_def list_all_iff)
  show ?thesis
  proof (cases "strip_comment l = []")
    case False
    show ?thesis
    proof (cases "index_any l ?b")
      case None
      with False have "strip_comment l = l" by (auto simp: strip_comment_def split: if_splits)
      moreover have "list_all (\<lambda>c. \<not> is_space c) l" using None blanks [of l] by (simp add: index_any_None)
      ultimately show ?thesis unfolding cut_text_def by (intro exI [of _ l] exI [of _ "[]"]) simp
    next
      case (Some i)
      from index_any_Some [OF Some] have i: "i < length l" "is_space (l ! i)" "list_all (\<lambda>c. \<not> is_space c) (take i l)"
        using blanks [of "take i l"] set_take_subset [of i l] by (auto simp: is_space_def)
      obtain b where b: "strip_comment l = take i l @ b" "b = [] \<or> hd b = l ! i" "CHR ''#'' \<notin> set b"
      proof (cases "index_byte (drop i l) CHR ''#''")
        case None
        with False Some i show ?thesis
          by (intro that [of "drop i l"])
             (auto simp: strip_comment_def hd_drop_conv_nth simp del: index_byte_None
               dest: index_byte_None [THEN iffD1] split: if_splits)
      next
        case (Some j)
        have "take j (drop i l) = [] \<or> hd (take j (drop i l)) = l ! i"
          using i(1) by (cases j) (auto simp: hd_drop_conv_nth hd_take)
        with Some index_byte_Some [OF Some] False \<open>index_any l ?b = Some i\<close> i show ?thesis
          by (intro that [of "take j (drop i l)"])
             (auto simp: strip_comment_def take_add hd_take hd_drop_conv_nth split: if_splits)
      qed
      with i show ?thesis unfolding cut_text_def by metis
    qed
  qed (auto simp: cut_text_def)
qed

lemma cut_text_fields:
  assumes "cut_text t" and "trim_space t \<noteq> []"
  shows "\<exists>w rest. trim_space t = w @ rest \<and> str_fields (trim_space t) = w # str_fields rest \<and> CHR ''#'' \<notin> set rest"
proof -
  from fields_head [OF trimmed_trim_space assms(2)] obtain w rest where
    w: "trim_space t = w @ rest" "str_fields (trim_space t) = w # str_fields rest" "a_word w" "rest = [] \<or> is_space (hd rest)"
    by metis
  obtain x y where t: "t = x @ trim_space t @ y" "list_all is_space x" using trim_space_cases [of t] by metis
  from assms(1) obtain a b where ab: "t = a @ b" "list_all (\<lambda>c. \<not> is_space c) a" "CHR ''#'' \<notin> set b"
    unfolding cut_text_def by blast
  have "CHR ''#'' \<notin> set rest"
  proof (cases "rest = []")
    case False
    with w(4) obtain c r where r: "rest = c # r" "is_space c" by (cases rest) auto
    have "length a \<le> length (x @ w)"
    proof (rule ccontr)
      assume "\<not> ?thesis"
      then have "(a @ b) ! length (x @ w) \<in> set a" by (auto simp: nth_append intro: nth_mem)
      moreover have "(a @ b) ! length (x @ w) = c" using t(1) ab(1) w(1) r by (simp add: nth_append)
      ultimately show False using ab(2) r(2) by (auto simp: list_all_iff)
    qed
    moreover have "a @ b = (x @ w) @ (rest @ y)" using t(1) ab(1) w(1) by simp
    ultimately have "b = drop (length a) (x @ w) @ rest @ y"
      using append_eq_append_conv_if [THEN iffD1, of a b "x @ w" "rest @ y"] by presburger
    with ab(3) show ?thesis by auto
  qed simp
  with w show ?thesis by blast
qed

lemma plain_set_field:
  "plain_selection sel \<Longrightarrow> plain_word v \<Longrightarrow> plain_selection (set_field kw v sel)"
  by (cases sel; cases kw) (simp_all add: plain_selection_def set_field_def format_fields_def)

lemma spaces_only_subset: "spaces_only l \<Longrightarrow> set s \<subseteq> set l \<Longrightarrow> spaces_only s"
  by (auto simp: spaces_only_def)

lemma spaces_only_word:
  "spaces_only k \<Longrightarrow> k \<noteq> '''' \<Longrightarrow> \<not> contains_any k [CHR '' '', CHR 0x09] \<Longrightarrow> a_word k"
  by (auto simp: spaces_only_def contains_any_def a_word_def list_ex_iff list_all_iff)

lemma spaces_only_one_line: "spaces_only l \<Longrightarrow> CHR 0x0A \<notin> set l \<and> CHR 0x0D \<notin> set l"
  by (auto simp: spaces_only_def is_space_def)

lemma plain_param_line:
  assumes "param_line n (w @ rest) w sel = Inr sel'" and "spaces_only rest" and "CHR ''#'' \<notin> set rest"
    and "plain_selection sel"
  shows "plain_selection sel'"
proof -
  obtain key val found where c: "cut_at (trim_space rest) CHR ''='' = (key, val, found)" by (metis prod_cases3)
  from cut_at_cases [OF c] set_trim_space [of rest] have sub: "set key \<subseteq> set rest" "set val \<subseteq> set rest" "CHR ''='' \<notin> set key"
    by (auto split: if_splits)
  let ?k = "trim_space key" and ?v = "trim_space val"
  have tsub: "set ?k \<subseteq> set key" "set ?v \<subseteq> set val" by (rule set_trim_space)+
  from assms(1) c have s: "sel' = sel\<lparr>sel_Params := sel_Params sel @ [(?k, ?v)]\<rparr>" "?k \<noteq> ''''"
    "\<not> contains_any ?k [CHR '' '', CHR 0x09]"
    by (auto simp: param_line_def Let_def split: if_splits)
  have "a_word ?k" using s(2,3) assms(2) sub tsub by (intro spaces_only_word) (auto intro: spaces_only_subset)
  moreover have "CHR ''='' \<notin> set ?k" "CHR ''#'' \<notin> set ?k" "CHR ''#'' \<notin> set ?v" using sub tsub assms(3) by auto
  moreover have "CHR 0x0A \<notin> set ?v" "CHR 0x0D \<notin> set ?v" using spaces_only_one_line [OF assms(2)] sub tsub by auto
  ultimately have "plain_param (?k, ?v)" by (simp add: plain_param_def plain_word_def)
  with s assms(4) show ?thesis by (auto simp: plain_selection_def format_fields_def)
qed

lemma plain_env_entry:
  assumes "env_entry n v sel = Inr sel'" and "plain_word v" and "plain_selection sel"
  shows "plain_selection sel'"
proof -
  obtain key val found where c: "cut_at v CHR ''='' = (key, val, found)" by (metis prod_cases3)
  with assms(1) cut_at_cases [OF c] have "sel' = sel\<lparr>sel_Env := sel_Env sel @ [(key, val)]\<rparr>" "key \<noteq> ''''"
    "v = key @ ''='' @ val" "CHR ''='' \<notin> set key"
    by (auto simp: env_entry_def split: if_splits)
  with assms(2,3) show ?thesis by (auto simp: plain_selection_def format_fields_def plain_env_def)
qed

lemma plain_spin_line:
  assumes "spin_line n l (sel, seen) = Inr (sel', seen')" and "spaces_only l" and "plain_selection sel"
  shows "plain_selection sel'"
proof (cases "trim_space (strip_comment l) = []")
  case False
  from cut_text_fields [OF cut_text_strip [OF assms(2)] False] obtain w rest where
    w: "trim_space (strip_comment l) = w @ rest" "str_fields (trim_space (strip_comment l)) = w # str_fields rest"
      "CHR ''#'' \<notin> set rest" by blast
  have "set rest \<subseteq> set l"
    using w(1) set_trim_space [of "strip_comment l"] strip_comment_set [of l] by auto
  with assms(2) have rest: "spaces_only rest" by (rule spaces_only_subset)
  have field: "plain_word v" if "v \<in> set (str_fields rest)" for v
    using fields_are_words [OF that] w(3) by (auto simp: plain_word_def)
  have second: "str_fields rest ! 0 \<in> set (str_fields rest)" if "str_fields rest \<noteq> []"
    using that by (cases "str_fields rest") auto
  show ?thesis
    using assms(1,3) False w rest field second
    by (auto simp: spin_line_def Let_def map_sum_Inr plain_set_field
        split: option.splits if_splits dest: plain_param_line plain_env_entry)
qed (use assms in \<open>simp add: spin_line_def\<close>)

lemma plain_spin_lines:
  "spin_lines n ls (sel, seen) = Inr (sel', seen') \<Longrightarrow> list_all spaces_only ls \<Longrightarrow> plain_selection sel \<Longrightarrow>
    plain_selection sel'"
proof (induction ls arbitrary: n sel seen)
  case (Cons l ls)
  then obtain s sn where "spin_line n l (sel, seen) = Inr (s, sn)" "spin_lines (Suc n) ls (s, sn) = Inr (sel', seen')"
    by (auto split: sum.splits)
  with Cons plain_spin_line show ?case by fastforce
qed simp

text \<open>
  A file whose only blanks within a line are spaces and tabs, parsed, formatted and parsed again,
  comes to the same selection: formatting loses nothing of what was read. The formatted lines have to
  fit the scanner, which the lines of the file do.
\<close>

theorem reformat_keeps_selection:
  assumes "ParseSpinloop data = Inr sel" and "list_all spaces_only (fst (scan_lines MaxScanTokenSize data))"
    and "list_all (\<lambda>l. length l < MaxScanTokenSize) (format_lines sel)"
  shows "ParseSpinloop (Format sel) = Inr sel"
proof -
  from assms(1) obtain seen where "spin_lines 1 (fst (scan_lines MaxScanTokenSize data)) (empty_selection, []) = Inr (sel, seen)"
    "sel_Provider sel \<noteq> ''''"
    by (auto simp: ParseSpinloop_def split: prod.splits sum.splits if_splits)
  moreover have "plain_selection empty_selection"
    by (simp add: plain_selection_def empty_selection_def format_fields_def)
  ultimately have "writable sel" using assms(2,3) plain_spin_lines by (auto simp: writable_def)
  then show ?thesis
    using spin_format_lines [of sel 1] scan_lines_concat [OF format_lines_text [of sel]]
    by (auto simp: ParseSpinloop_def Format_def writable_def)
qed

text \<open>
  A comment sign cuts a value wherever it stands in it, although only one that follows a blank is
  meant to begin a comment: of a value only the part before the sign is read, and the file is accepted.
\<close>

theorem hash_cuts_value:
  assumes "plain_word (''K='' @ v)" and "CHR 0x0A \<notin> set w" and "CHR 0x0D \<notin> set w" and "length v + length w < 1000"
  shows "\<exists>sel. ParseSpinloop (''PROVIDER p'' @ [CHR 0x0A] @ ''ENV K='' @ v @ ''#'' @ w) = Inr sel \<and>
     sel_Env sel = [(''K'', v)]"
proof -
  let ?l = "''ENV K='' @ v @ ''#'' @ w"
  have v: "CHR 0x0A \<notin> set v" "CHR 0x0D \<notin> set v" "CHR ''#'' \<notin> set v" "a_word (''K='' @ v)"
    using assms(1) by (auto simp: plain_word_def a_word_def is_space_def list_all_iff)
  have "scan_lines MaxScanTokenSize (''PROVIDER p'' @ [CHR 0x0A] @ ?l) = ([''PROVIDER p'', ?l], False)"
    using assms v split_on_simple [of "CHR 0x0A" ?l]
    by (simp add: scan_lines_def MaxScanTokenSize_def)
  moreover have "strip_comment ?l = ''ENV K='' @ v"
    using index_byte_append [of "CHR ''#''" "'' K='' @ v" w] v(3)
    by (simp add: strip_comment_def trim_left_by_def)
  moreover have "trimmed (''ENV K='' @ v)" using v(4) by (auto simp: trimmed_def a_word_def is_space_def list_all_iff)
  moreover have "str_fields (''ENV '' @ ''K='' @ v) = [''ENV'', ''K='' @ v]"
    using fields_word_space [of "''ENV''" "CHR '' ''" "''K='' @ v"] v(4) by (simp add: a_word_def is_space_def)
  moreover have "cut_at (''K='' @ v) CHR ''='' = (''K'', v, True)" using cut_at_found [of "CHR ''=''" "''K''" v] by simp
  moreover have "spin_line 1 ''PROVIDER p'' (empty_selection, []) = Inr (empty_selection\<lparr>sel_Provider := ''p''\<rparr>, [(KwProvider, 1)])"
    using spin_single [of "''PROVIDER''" KwProvider "''p''" "[]" 1 empty_selection] plain_keywords(1)
    by (simp add: pad8_def set_field_def plain_word_def a_word_def is_space_def)
  ultimately show ?thesis
    by (simp add: ParseSpinloop_def spin_line_def Let_def env_entry_def empty_selection_def)
qed

section \<open>Examples\<close>

definition demo_selection :: selection where
  "demo_selection = empty_selection\<lparr>sel_Provider := ''llamacpp'', sel_Model := ''org/m:Q4'',
     sel_Params := [(''jinja'', ''''), (''args'', ''a = b'')], sel_Env := [(''A'', ''x=1'')]\<rparr>"

lemma demo_writable: "writable demo_selection"
  by (simp add: writable_def plain_selection_def format_fields_def demo_selection_def empty_selection_def plain_word_def
      a_word_def is_space_def plain_param_def plain_env_def trimmed_def format_lines_def format_params_def format_env_def
      format_line_def pad8_def MaxScanTokenSize_def)

theorem ParseSpinloop_Format_witness: "ParseSpinloop (Format demo_selection) = Inr demo_selection"
  by (rule ParseSpinloop_Format [OF demo_writable])

lemma demo_lines:
  "fst (scan_lines MaxScanTokenSize (Format demo_selection)) = format_lines demo_selection"
  using scan_lines_concat [OF format_lines_text [OF demo_writable]] by (simp add: Format_def)

theorem reformat_keeps_selection_witness: "ParseSpinloop (Format demo_selection) = Inr demo_selection"
proof -
  obtain seen where "spin_lines 1 (format_lines demo_selection) (empty_selection, []) = Inr (demo_selection, seen)"
    using spin_format_lines [of demo_selection 1] demo_writable by (auto simp: writable_def)
  then have "ParseSpinloop (Format demo_selection) = Inr demo_selection"
    using scan_lines_concat [OF format_lines_text [OF demo_writable]] demo_writable
    by (simp add: ParseSpinloop_def Format_def writable_def)
  moreover have "list_all spaces_only (format_lines demo_selection)"
    by (simp add: format_lines_def format_fields_def demo_selection_def empty_selection_def format_params_def format_env_def
        format_line_def pad8_def spaces_only_def is_space_def)
  moreover have "list_all (\<lambda>l. length l < MaxScanTokenSize) (format_lines demo_selection)"
    using demo_writable by (simp add: writable_def)
  ultimately show ?thesis using reformat_keeps_selection [of "Format demo_selection" demo_selection] demo_lines by simp
qed

theorem hash_cuts_value_witness:
  "\<exists>sel. ParseSpinloop (''PROVIDER p'' @ [CHR 0x0A] @ ''ENV K='' @ ''ab'' @ ''#'' @ ''cd'') = Inr sel \<and>
     sel_Env sel = [(''K'', ''ab'')]"
  using hash_cuts_value [of "''ab''" "''cd''"] by (simp add: plain_word_def a_word_def is_space_def)

end
