(* ===== verification/GoFloat.thy ===== *)
theory GoFloat
  imports TextLines "HOL-Library.Log_Nat"
begin

text \<open>
  The part of 64-bit floating point that the program uses: \<^verbatim>\<open>strconv.ParseFloat\<close>, products and comparisons.
  A finite value is the rational it stands for, rounded to nearest with ties to even; the sign of zero
  is not told apart.
\<close>

section \<open>Values\<close>

datatype float64 = NaN | Infinite bool | Finite rat

definition half_even :: "rat \<Rightarrow> int" where
  "half_even x =
     (let f = \<lfloor>x\<rfloor>; r = x - of_int f
      in if r < 1 / 2 then f else if r > 1 / 2 then f + 1 else if even f then f else f + 1)"

text \<open>The exponent of the last place: that of the 53rd binary digit, and the smallest there is below it.\<close>

definition last_place :: "rat \<Rightarrow> int" where
  "last_place a =
     (case quotient_of a of (n, d) \<Rightarrow>
        (let e = bitlen n - bitlen d
         in max ((if 2 powi e \<le> a then e else e - 1) - 52) (- 1074)))"

definition round64 :: "rat \<Rightarrow> float64" where
  "round64 x =
     (if x = 0 then Finite 0
      else
        (let a = \<bar>x\<bar>; ulp = 2 powi (last_place a); r = of_int (half_even (a / ulp)) * ulp
         in if r \<ge> 2 ^ 1024 then Infinite (x < 0) else Finite (if x < 0 then - r else r)))"

fun times64 :: "float64 \<Rightarrow> float64 \<Rightarrow> float64" where
  "times64 (Finite x) (Finite y) = round64 (x * y)"
| "times64 (Infinite s) (Finite y) = (if y = 0 then NaN else Infinite (s \<noteq> (y < 0)))"
| "times64 (Finite x) (Infinite t) = (if x = 0 then NaN else Infinite ((x < 0) \<noteq> t))"
| "times64 (Infinite s) (Infinite t) = Infinite (s \<noteq> t)"
| "times64 NaN _ = NaN"
| "times64 _ NaN = NaN"

fun less64 :: "float64 \<Rightarrow> rat \<Rightarrow> bool" where
  "less64 (Finite x) y = (x < y)"
| "less64 (Infinite neg) y = neg"
| "less64 NaN y = False"

text \<open>The conversion to a 64-bit integer; outside the range the language leaves the result to the machine.\<close>

definition to_int64 :: "(float64 \<Rightarrow> int) \<Rightarrow> float64 \<Rightarrow> int" where
  "to_int64 machine v =
     (case v of
        Finite x \<Rightarrow>
          (let n = (if x < 0 then \<lceil>x\<rceil> else \<lfloor>x\<rfloor>) in if - (2 ^ 63) \<le> n \<and> n < 2 ^ 63 then n else machine v)
      | _ \<Rightarrow> machine v)"

section \<open>Reading\<close>

definition hex_val :: "char \<Rightarrow> nat option" where
  "hex_val c =
     (let n = (of_char c :: nat) in
      if is_digit c then Some (n - 48) else if 97 \<le> n \<and> n \<le> 102 then Some (n - 87) else None)"

definition exponent_val :: "string \<Rightarrow> nat" where
  "exponent_val s = foldl (\<lambda>e c. if e < 10000 then 10 * e + digit_val c else e) 0 s"

definition read_exponent :: "string \<Rightarrow> int option" where
  "read_exponent s =
     (let neg = prefix ''-'' s; ds = (if prefix ''-'' s \<or> prefix ''+'' s then tl s else s)
      in if ds = [] \<or> \<not> list_all is_digit ds then None
         else Some (if neg then - int (exponent_val ds) else int (exponent_val ds)))"

text \<open>Digits with at most one point among them: their value and how many stand after the point.\<close>

definition read_mantissa :: "nat \<Rightarrow> (char \<Rightarrow> nat option) \<Rightarrow> string \<Rightarrow> (nat \<times> nat) option" where
  "read_mantissa base val s =
     (case cut_at s CHR ''.'' of (whole, dec, _) \<Rightarrow>
        if whole @ dec = [] \<or> list_ex (\<lambda>c. val c = None) (whole @ dec) then None
        else Some (foldl (\<lambda>n c. base * n + the (val c)) 0 (whole @ dec), length dec))"

definition read_decimal :: "string \<Rightarrow> rat option" where
  "read_decimal s =
     (case cut_at s CHR ''e'' of (body, e, found) \<Rightarrow>
      case (read_mantissa 10 (\<lambda>c. if is_digit c then Some (digit_val c) else None) body,
            if found then read_exponent e else Some 0) of
        (Some (m, k), Some x) \<Rightarrow> Some (of_nat m * 10 powi (x - int k))
      | _ \<Rightarrow> None)"

definition read_hex :: "string \<Rightarrow> rat option" where
  "read_hex s =
     (case cut_at s CHR ''p'' of (body, e, found) \<Rightarrow>
      case (read_mantissa 16 hex_val body, if found then read_exponent e else None) of
        (Some (m, k), Some x) \<Rightarrow> Some (of_nat m * 2 powi (x - 4 * int k))
      | _ \<Rightarrow> None)"

text \<open>Of text in lower case without underscores; \<open>None\<close> is an error, that of a value out of range included.\<close>

definition ParseFloat :: "string \<Rightarrow> float64 option" where
  "ParseFloat s =
     (let neg = prefix ''-'' s; t = (if prefix ''-'' s \<or> prefix ''+'' s then tl s else s)
      in if t = ''inf'' \<or> t = ''infinity'' then Some (Infinite neg)
         else if s = ''nan'' then Some NaN
         else (case (if prefix ''0x'' t then read_hex (drop 2 t) else read_decimal t) of
             None \<Rightarrow> None
           | Some x \<Rightarrow> (case round64 (if neg then - x else x) of Finite v \<Rightarrow> Some (Finite v) | _ \<Rightarrow> None)))"

section \<open>Whole numbers below 2 to the 53rd\<close>

lemma half_even_int [simp]: "half_even (of_int n) = n"
  by (simp add: half_even_def Let_def)

lemma last_place_nat: "0 < n \<Longrightarrow> n < 2 ^ 53 \<Longrightarrow> last_place (of_nat n) \<le> 0"
proof -
  assume n: "0 < n" "n < 2 ^ 53"
  have "of_nat n = Fract (int n) 1" by (simp add: Fract_of_int_eq)
  then have "quotient_of (of_nat n) = (int n, 1)" by (simp add: quotient_of_Fract normalize_def)
  moreover have "bitlen (int n) \<le> 53"
  proof -
    have "(2 :: int) ^ nat (bitlen (int n) - 1) \<le> int n" using n(1) bitlen_bounds [of "int n"] by simp
    also have "\<dots> < 2 ^ 53" using n(2) by (metis of_nat_less_iff of_nat_numeral of_nat_power)
    finally have "nat (bitlen (int n) - 1) < 53" by (rule power_less_imp_less_exp [rotated]) simp
    then show ?thesis by arith
  qed
  moreover have "bitlen 1 = 1" by (simp add: bitlen_alt_def)
  ultimately show ?thesis by (simp add: last_place_def Let_def)
qed

lemma round64_nat:
  assumes "n < 2 ^ 53" shows "round64 (of_nat n) = Finite (of_nat n)"
proof (cases "n = 0")
  case False
  let ?q = "last_place (of_nat n)"
  from False assms have q: "?q \<le> 0" by (intro last_place_nat) auto
  then have u: "(2 :: rat) powi ?q = 1 / 2 ^ nat (- ?q)" by (simp add: power_int_def power_one_over)
  have "(of_nat n :: rat) / 2 powi ?q = of_int (int n * 2 ^ nat (- ?q))" unfolding u by simp
  then have "of_int (half_even (of_nat n / 2 powi ?q)) * 2 powi ?q = (of_int (int n * 2 ^ nat (- ?q)) * 2 powi ?q :: rat)"
    by (simp only: half_even_int)
  also have "\<dots> = of_nat n" unfolding u by simp
  finally have "of_int (half_even (of_nat n / 2 powi ?q)) * 2 powi ?q = (of_nat n :: rat)" .
  moreover have "(of_nat n :: rat) < 2 ^ 1024"
  proof -
    have "n < 2 ^ 1024" using assms by (rule less_le_trans) (simp add: power_increasing)
    then show ?thesis by (metis of_nat_less_iff of_nat_numeral of_nat_power)
  qed
  ultimately show ?thesis using False by (simp add: round64_def Let_def)
qed (simp add: round64_def)

lemma to_int64_nat: "n < 2 ^ 63 \<Longrightarrow> to_int64 machine (Finite (of_nat n)) = int n"
proof -
  assume "n < 2 ^ 63"
  then have "int n < 2 ^ 63" by (metis of_nat_less_iff of_nat_numeral of_nat_power)
  then show ?thesis by (simp add: to_int64_def)
qed

text \<open>64-bit integers wrap around.\<close>

definition wrap64 :: "int \<Rightarrow> int" where
  "wrap64 n = (n + 2 ^ 63) mod 2 ^ 64 - 2 ^ 63"

end
