(* ===== verification/JsonDoc.thy ===== *)
theory JsonDoc
  imports GoFloat
begin

text \<open>
  Decoded JSON as the program handles it: \<^verbatim>\<open>map[string]any\<close> is an object, its type assertions are the
  readers below, and \<^verbatim>\<open>deepMerge\<close> of \<^verbatim>\<open>internal/opencode/opencode.go\<close> merges one object into another. A
  number is the rational it stands for.
\<close>

section \<open>Values\<close>

datatype json =
    JNumber rat
  | JString string
  | JBool bool
  | JNull
  | JArray "json list"
  | JObject "(string \<times> json) list"

type_synonym json_object = "(string, json) gomap"

definition object_of :: "json option \<Rightarrow> json_object" where
  "object_of v = (case v of Some (JObject m) \<Rightarrow> m | _ \<Rightarrow> [])"

definition as_object :: "json option \<Rightarrow> json_object option" where
  "as_object v = (case v of Some (JObject m) \<Rightarrow> Some m | _ \<Rightarrow> None)"

definition as_string :: "json option \<Rightarrow> string option" where
  "as_string v = (case v of Some (JString s) \<Rightarrow> Some s | _ \<Rightarrow> None)"

definition string_or_empty :: "json option \<Rightarrow> string" where
  "string_or_empty v = (case v of Some (JString s) \<Rightarrow> s | _ \<Rightarrow> '''')"

definition as_array :: "json option \<Rightarrow> json list" where
  "as_array v = (case v of Some (JArray xs) \<Rightarrow> xs | _ \<Rightarrow> [])"

definition as_number :: "json option \<Rightarrow> rat option" where
  "as_number v = (case v of Some (JNumber r) \<Rightarrow> Some r | _ \<Rightarrow> None)"

lemmas json_readers = object_of_def as_object_def as_string_def string_or_empty_def as_array_def as_number_def

text \<open>Every object's keys are distinct, as in a Go map.\<close>

fun json_ok :: "json \<Rightarrow> bool" where
  "json_ok (JArray xs) \<longleftrightarrow> list_all json_ok xs"
| "json_ok (JObject m) \<longleftrightarrow> keys_distinct m \<and> list_all (\<lambda>(k, v). json_ok v) m"
| "json_ok _ \<longleftrightarrow> True"

lemma json_ok_lookup: "json_ok (JObject m) \<Longrightarrow> map_of m k = Some v \<Longrightarrow> json_ok v"
  by (auto simp: list_all_iff dest!: map_of_SomeD)

lemma all_values_update:
  "list_all (\<lambda>(k, v). P v) m \<Longrightarrow> P w \<Longrightarrow> list_all (\<lambda>(k, v). P v) (AList.update x w m)"
  by (induction m) auto

lemma json_ok_update [intro]: "json_ok (JObject m) \<Longrightarrow> json_ok v \<Longrightarrow> json_ok (JObject (AList.update k v m))"
  by (simp add: all_values_update)

lemma all_values_delete:
  "list_all (\<lambda>(k, v). P v) m \<Longrightarrow> list_all (\<lambda>(k, v). P v) (AList.delete x m)"
  by (induction m) auto

lemma json_ok_delete [intro]: "json_ok (JObject m) \<Longrightarrow> json_ok (JObject (AList.delete k m))"
  by (simp add: all_values_delete)

section \<open>Merging\<close>

fun deepMerge :: "json_object \<Rightarrow> json_object \<Rightarrow> json_object"
  and merge_value :: "json option \<Rightarrow> json \<Rightarrow> json" where
  "deepMerge dst [] = dst"
| "deepMerge dst ((k, v) # src) = deepMerge (AList.update k (merge_value (map_of dst k) v) dst) src"
| "merge_value old (JObject sv) =
     (case old of Some (JObject dv) \<Rightarrow> JObject (deepMerge dv sv) | _ \<Rightarrow> JObject sv)"
| "merge_value old (JNumber r) = JNumber r"
| "merge_value old (JString s) = JString s"
| "merge_value old (JBool b) = JBool b"
| "merge_value old JNull = JNull"
| "merge_value old (JArray xs) = JArray xs"

text \<open>What stands at a key after a merge: the merged value where the source has the key, what stood before elsewhere.\<close>

lemma deepMerge_lookup:
  "keys_distinct src \<Longrightarrow> map_of (deepMerge dst src) k =
     (case map_of src k of None \<Rightarrow> map_of dst k | Some v \<Rightarrow> Some (merge_value (map_of dst k) v))"
proof (induction src arbitrary: dst)
  case (Cons a src)
  obtain x v where a: "a = (x, v)" by (cases a)
  show ?case using Cons.prems Cons.IH [of "AList.update x (merge_value (map_of dst x) v) dst"]
    by (cases "x = k") (simp_all add: a split: option.split)
qed simp

lemma keys_distinct_deepMerge [simp]: "keys_distinct dst \<Longrightarrow> keys_distinct (deepMerge dst src)"
proof (induction src arbitrary: dst)
  case (Cons a src)
  then show ?case by (cases a) simp
qed simp

end
