(* ===== verification/ContextSize.thy ===== *)
theory ContextSize
  imports JsonDoc
begin

text \<open>
  \<^verbatim>\<open>internal/contextsize/contextsize.go\<close>: context sizes as people write them. \<open>machine\<close> is what the conversion
  of a float outside the integer range gives, which the language leaves open.
\<close>

datatype size_error = InvalidSize string | SizeTooSmall string

definition drop_word :: "string \<Rightarrow> string" where
  "drop_word s =
     (case find (\<lambda>suf. has_suffix s suf) [''tokens'', ''token'', ''toks'', ''tok''] of
        None \<Rightarrow> s
      | Some suf \<Rightarrow> take (length s - length suf) s)"

definition size_suffix :: "char \<Rightarrow> nat option" where
  "size_suffix c =
     (if c = CHR ''k'' then Some 1000 else if c = CHR ''m'' then Some 1000000
      else if c = CHR ''g'' \<or> c = CHR ''b'' then Some 1000000000
      else if c = CHR ''t'' then Some 1000000000000 else None)"

definition normal_size :: "string \<Rightarrow> string" where
  "normal_size s =
     drop_word (filter (\<lambda>c. c \<noteq> CHR '','' \<and> c \<noteq> CHR ''_'' \<and> c \<noteq> CHR '' '') (to_lower (trim_space s)))"

definition split_size :: "string \<Rightarrow> nat \<times> string" where
  "split_size s =
     (if s = '''' then (1, s)
      else (case size_suffix (last s) of None \<Rightarrow> (1, s) | Some m \<Rightarrow> (m, butlast s)))"

definition ParseSize :: "(float64 \<Rightarrow> int) \<Rightarrow> string \<Rightarrow> size_error + int" where
  "ParseSize machine orig =
     (case split_size (normal_size orig) of (factor, s) \<Rightarrow>
        if s = '''' then Inl (InvalidSize orig)
        else (case ParseFloat s of
            None \<Rightarrow> Inl (InvalidSize orig)
          | Some v \<Rightarrow>
              (let tokens = times64 v (Finite (of_nat factor)) in
               if less64 tokens 1 then Inl (SizeTooSmall orig) else Inr (to_int64 machine tokens))))"

definition DefaultOutput :: "int \<Rightarrow> int" where
  "DefaultOutput ctx = (let out = (if ctx < 0 then - (- ctx div 4) else ctx div 4) in if out < 1 then 1 else out)"

text \<open>The model blocks that the limits are written to.\<close>

definition limited :: "int \<Rightarrow> int \<Rightarrow> json \<Rightarrow> json" where
  "limited ctx out v =
     (let m = object_of (Some v);
          limit = object_of (map_of m ''limit'')
      in JObject (AList.update ''limit''
           (JObject (AList.update ''output'' (JNumber (of_int out)) (AList.update ''context'' (JNumber (of_int ctx)) limit))) m))"

definition ApplyLimits :: "int \<Rightarrow> int \<Rightarrow> (string, json) gomap \<Rightarrow> (string, json) gomap" where
  "ApplyLimits ctx out models = map (\<lambda>(k, v). (k, limited ctx out v)) models"

section \<open>What is read\<close>

lemma digits_text:
  assumes "list_all is_digit ds"
  shows "to_lower ds = ds" "filter (\<lambda>c. c \<noteq> CHR '','' \<and> c \<noteq> CHR ''_'' \<and> c \<noteq> CHR '' '') ds = ds"
    "trimmed ds" "CHR ''e'' \<notin> set ds" "CHR ''.'' \<notin> set ds"
proof -
  have "lower_char c = c" if "is_digit c" for c using that by (simp add: lower_char_def is_digit_def)
  with assms show "to_lower ds = ds" unfolding to_lower_def list_all_iff by (intro map_idI) blast
  show "filter (\<lambda>c. c \<noteq> CHR '','' \<and> c \<noteq> CHR ''_'' \<and> c \<noteq> CHR '' '') ds = ds"
    using assms by (auto simp: filter_id_conv list_all_iff is_digit_def)
  have "\<not> is_space c" if "is_digit c" for c using that by (auto simp: is_digit_def is_space_def)
  with assms show "trimmed ds" by (cases ds rule: rev_cases) (auto simp: trimmed_def list_all_iff hd_append)
  show "CHR ''e'' \<notin> set ds" "CHR ''.'' \<notin> set ds" using assms by (auto simp: list_all_iff is_digit_def)
qed

lemma read_decimal_digits:
  assumes "list_all is_digit ds" and "ds \<noteq> []"
  shows "read_decimal ds = Some (of_nat (digits_val ds))"
proof -
  let ?val = "\<lambda>c. if is_digit c then Some (digit_val c) else None"
  have "foldl (\<lambda>n c. 10 * n + the (?val c)) a ds = foldl (\<lambda>n c. 10 * n + digit_val c) a ds" for a
    using assms(1) by (induction ds arbitrary: a) auto
  moreover have "\<not> list_ex (\<lambda>c. ?val c = None) ds" using assms(1) by (auto simp: list_ex_iff list_all_iff)
  ultimately show ?thesis
    using assms digits_text [OF assms(1)] by (simp add: read_decimal_def read_mantissa_def digits_val_def)
qed

lemma ParseFloat_digits:
  assumes "list_all is_digit ds" and "ds \<noteq> []" and "digits_val ds < 2 ^ 53"
  shows "ParseFloat ds = Some (Finite (of_nat (digits_val ds)))"
proof -
  obtain c cs where c: "ds = c # cs" using assms(2) by (cases ds) auto
  with assms(1) have "is_digit c" "list_all is_digit cs" by simp_all
  then have h: "c \<noteq> CHR ''-''" "c \<noteq> CHR ''+''" "c \<noteq> CHR ''i''" "c \<noteq> CHR ''n''" "\<not> prefix ''x'' cs"
    by (auto simp: is_digit_def prefix_def)
  then have "\<not> prefix ''-'' ds" "\<not> prefix ''+'' ds" "ds \<noteq> ''inf''" "ds \<noteq> ''infinity''" "ds \<noteq> ''nan''" "\<not> prefix ''0x'' ds"
    using c by auto
  then show ?thesis
    using read_decimal_digits [OF assms(1,2)] round64_nat [OF assms(3)] by (simp add: ParseFloat_def)
qed

text \<open>What is left of digits and at most one suffix after them.\<close>

definition suffixes :: "(string \<times> nat) list" where
  "suffixes = ('''', 1) # map (\<lambda>c. ([c], the (size_suffix c))) ''kmgbt''"

lemma sized_digits:
  assumes ds: "list_all is_digit ds" "ds \<noteq> []" and s: "(suf, factor) \<in> set suffixes"
  shows "split_size (normal_size (ds @ suf)) = (factor, ds)"
proof -
  have last: "is_digit (last ds)" using ds by (simp add: list_all_iff)
  have suf: "suf = [] \<or> (\<exists>c \<in> set ''kmgbt''. suf = [c])" using s by (auto simp: suffixes_def)
  then have "to_lower suf = suf" by (auto simp: to_lower_def lower_char_def)
  moreover have "filter (\<lambda>c. c \<noteq> CHR '','' \<and> c \<noteq> CHR ''_'' \<and> c \<noteq> CHR '' '') suf = suf" using suf by auto
  moreover have "trimmed (ds @ suf)"
    using digits_text(3) [OF ds(1)] ds(2) suf by (auto simp: trimmed_def is_space_def)
  ultimately have n: "normal_size (ds @ suf) = drop_word (ds @ suf)"
    using digits_text [OF ds(1)] by (simp add: normal_size_def to_lower_def)
  have "\<not> suffix w (ds @ suf)" if "w \<in> {''tokens'', ''token'', ''toks'', ''tok''}" for w
  proof
    assume "suffix w (ds @ suf)"
    then obtain u where u: "ds @ suf = u @ w" by (auto simp: suffix_def)
    obtain ds' d where d: "ds = ds' @ [d]" "is_digit d" using ds last by (cases ds rule: rev_cases) auto
    show False
      using that u suf d by (auto simp: is_digit_def append_eq_append_conv2 Cons_eq_append_conv append_eq_Cons_conv)
  qed
  then have w: "drop_word (ds @ suf) = ds @ suf" by (simp add: drop_word_def has_suffix_def)
  show ?thesis
  proof (cases "suf = []")
    case True
    then have "size_suffix (last ds) = None" "factor = 1"
      using last s by (auto simp: size_suffix_def is_digit_def suffixes_def)
    with True ds n w show ?thesis by (simp add: split_size_def)
  next
    case False
    with suf s have "size_suffix (last suf) = Some factor" "length suf = 1"
      by (auto simp: suffixes_def size_suffix_def)
    then show ?thesis using False n w by (cases suf) (auto simp: split_size_def)
  qed
qed

lemma ParseSize_sized:
  assumes "list_all is_digit ds" and "ds \<noteq> ''''" and "(suf, factor) \<in> set suffixes"
    and "digits_val ds < 2 ^ 53" and "digits_val ds * factor < 2 ^ 53"
  shows "ParseSize machine (ds @ suf) =
     (if digits_val ds = 0 then Inl (SizeTooSmall (ds @ suf)) else Inr (int (digits_val ds * factor)))"
proof -
  let ?n = "digits_val ds"
  have m: "0 < factor" using assms(3) by (auto simp: suffixes_def size_suffix_def)
  have "times64 (Finite (of_nat ?n)) (Finite (of_nat factor)) = Finite (of_nat (?n * factor))"
    using round64_nat [OF assms(5)] by simp
  moreover have "less64 (Finite (of_nat (?n * factor))) 1 \<longleftrightarrow> ?n = 0"
    using m of_nat_less_iff [of "?n * factor" 1, where 'a = rat] by (simp del: of_nat_less_iff)
  moreover have "to_int64 machine (Finite (of_nat (?n * factor))) = int (?n * factor)"
    using assms(5) by (intro to_int64_nat) simp
  ultimately show ?thesis
    using sized_digits [OF assms(1-3)] ParseFloat_digits [OF assms(1,2,4)] assms(2)
    by (simp add: ParseSize_def del: times64.simps less64.simps)
qed

lemma ParseSize_show:
  assumes "0 < n" and "n < 2 ^ 53" shows "ParseSize machine (show_nat n) = Inr (int n)"
  using ParseSize_sized [of "show_nat n" "[]" 1 machine] assms
  by (simp add: list_all_iff show_nat_digits suffixes_def)

text \<open>
  A whole number, with a unit or without, is read as exactly the tokens it says, as long as it and
  its product with the unit are below 2 to the 53rd; none is accepted below one token.
\<close>

theorem ParseSize_exact:
  assumes "list_all is_digit ds" and "ds \<noteq> ''''" and "(suf, factor) \<in> set suffixes"
    and "digits_val ds < 2 ^ 53" and "digits_val ds * factor < 2 ^ 53"
  shows "ParseSize machine (ds @ suf) =
     (if digits_val ds = 0 then Inl (SizeTooSmall (ds @ suf)) else Inr (int (digits_val ds * factor)))"
  by (rule ParseSize_sized [OF assms])

text \<open>
  C0: text that names no size is accepted all the same: of \<^verbatim>\<open>nan\<close> and of \<^verbatim>\<open>inf\<close> the number read is whatever
  the machine makes of a float that is no integer.
\<close>

theorem ParseSize_nan:
  "ParseSize machine ''nan'' = Inr (machine NaN) \<and> ParseSize machine ''inf'' = Inr (machine (Infinite False)) \<and>
   ParseSize machine ''Infinity'' = Inr (machine (Infinite False))"
proof -
  have "split_size (normal_size ''nan'') = (1, ''nan'')" "split_size (normal_size ''inf'') = (1, ''inf'')"
    "split_size (normal_size ''Infinity'') = (1, ''infinity'')" by code_simp+
  then show ?thesis by (simp add: ParseSize_def ParseFloat_def to_int64_def)
qed

text \<open>The output limit is a quarter of the window and never less than one token.\<close>

lemma DefaultOutput_bounds: "1 \<le> DefaultOutput ctx \<and> (4 \<le> ctx \<longrightarrow> 4 * DefaultOutput ctx \<le> ctx)"
  by (auto simp: DefaultOutput_def Let_def)

text \<open>The limits are written to every model, and nothing else of a model changes.\<close>

lemma ApplyLimits_spec:
  "map fst (ApplyLimits ctx out models) = map fst models \<and>
   (\<forall>(k, v) \<in> set (ApplyLimits ctx out models). \<exists>w. (k, w) \<in> set models \<and>
      (\<forall>x. x \<noteq> ''limit'' \<longrightarrow> map_of (object_of (Some v)) x = map_of (object_of (Some w)) x))"
proof -
  have "map_of (object_of (Some (limited ctx out w))) x = map_of (object_of (Some w)) x" if "x \<noteq> ''limit''" for w x
    using that by (simp add: limited_def object_of_def Let_def)
  then show ?thesis by (fastforce simp: ApplyLimits_def)
qed

theorem ParseSize_exact_witness: "ParseSize (\<lambda>_. 0) ''128k'' = Inr 128000"
proof -
  have "ParseSize (\<lambda>_. 0) (''128'' @ ''k'') = Inr (int (128 * 1000))"
    using ParseSize_exact [of "''128''" "''k''" 1000 "\<lambda>_. 0"]
    by (simp add: is_digit_def digits_val_def digit_val_def suffixes_def size_suffix_def)
  then show ?thesis by simp
qed

end
