(* ===== verification/Preset.thy ===== *)
theory Preset
  imports TextLines
begin

text \<open>
  \<^verbatim>\<open>internal/preset/preset.go\<close>: preset files, the merge of layers of flags, the rendering of flags in an
  engine's dialect and of a command for a shell.
\<close>

section \<open>Presets\<close>

type_synonym param = "string \<times> string"

record preset_section =
  ps_Name :: string
  ps_Params :: "param list"

record preset =
  pr_Global :: "param list"
  pr_Sections :: "preset_section list"

definition globalSections :: "string list" where
  "globalSections = [''*'', ''global'']"

datatype preset_error =
    MalformedHeader nat string
  | EmptySection nat
  | NoKeyValue nat string
  | PresetLineTooLong

fun cut_comment :: "bool \<Rightarrow> string \<Rightarrow> string" where
  "cut_comment begins [] = []"
| "cut_comment begins (c # s) =
     (if (c = CHR ''#'' \<or> c = CHR '';'') \<and> begins then []
      else c # cut_comment (c = CHR '' '' \<or> c = CHR 0x09) s)"

definition stripIniComment :: "string \<Rightarrow> string" where
  "stripIniComment s = cut_comment True s"

definition splitKeyValue :: "string \<Rightarrow> param option" where
  "splitKeyValue s =
     (case index_any s ''=:'' of
        None \<Rightarrow> None
      | Some i \<Rightarrow>
          (let key = trim_space (take i s); v = trim_space (drop (Suc i) s)
           in if key = '''' then None else Some (key, v)))"

text \<open>The preset so far and the section that entries go to, none standing for the shared defaults.\<close>

type_synonym preset_state = "preset \<times> nat option"

definition add_param :: "param \<Rightarrow> preset_state \<Rightarrow> preset_state" where
  "add_param q = (\<lambda>(p, cur).
     ((case cur of
        None \<Rightarrow> p\<lparr>pr_Global := pr_Global p @ [q]\<rparr>
      | Some i \<Rightarrow>
          p\<lparr>pr_Sections := (pr_Sections p)[i := (pr_Sections p ! i)\<lparr>ps_Params := ps_Params (pr_Sections p ! i) @ [q]\<rparr>]\<rparr>),
      cur))"

definition preset_line :: "nat \<Rightarrow> string \<Rightarrow> preset_state \<Rightarrow> preset_error + preset_state" where
  "preset_line line raw st =
     (let text = trim_space (stripIniComment raw); p = fst st in
      if text = '''' then Inr st
      else if prefix ''['' text then
        (if \<not> has_suffix text '']'' then Inl (MalformedHeader line text)
         else
           (let name = trim_space (butlast (tl text)) in
            if name = '''' then Inl (EmptySection line)
            else if to_lower name \<in> set globalSections then Inr (p, None)
            else Inr (p\<lparr>pr_Sections := pr_Sections p @ [\<lparr>ps_Name = name, ps_Params = []\<rparr>]\<rparr>,
                      Some (length (pr_Sections p)))))
      else (case splitKeyValue text of
          None \<Rightarrow> Inl (NoKeyValue line text)
        | Some q \<Rightarrow> Inr (add_param q st)))"

fun preset_lines :: "nat \<Rightarrow> string list \<Rightarrow> preset_state \<Rightarrow> preset_error + preset_state" where
  "preset_lines n [] st = Inr st"
| "preset_lines n (l # ls) st =
     (case preset_line n l st of Inl e \<Rightarrow> Inl e | Inr st' \<Rightarrow> preset_lines (Suc n) ls st')"

definition ParsePreset :: "string \<Rightarrow> preset_error + preset" where
  "ParsePreset data =
     (case scan_lines (1024 * 1024) data of (ls, tooLong) \<Rightarrow>
      case preset_lines 1 ls (\<lparr>pr_Global = [], pr_Sections = []\<rparr>, None) of
        Inl e \<Rightarrow> Inl e
      | Inr (p, _) \<Rightarrow> if tooLong then Inl PresetLineTooLong else Inr p)"

definition SectionNames :: "preset \<Rightarrow> string list" where
  "SectionNames p = map ps_Name (pr_Sections p)"

datatype section_error = NoSections | NoSuchSection string "string list" | SeveralSections nat "string list"

definition SelectSection :: "string \<Rightarrow> preset \<Rightarrow> section_error + preset_section" where
  "SelectSection model p =
     (case pr_Sections p of
        [] \<Rightarrow> Inl NoSections
      | s # rest \<Rightarrow>
          if model \<noteq> '''' then
            (case find (\<lambda>s. equal_fold (ps_Name s) model) (s # rest) of
               Some s' \<Rightarrow> Inr s'
             | None \<Rightarrow> if rest = [] then Inr s else Inl (NoSuchSection model (SectionNames p)))
          else if rest = [] then Inr s
          else Inl (SeveralSections (length (s # rest)) (SectionNames p)))"

section \<open>Dialects and flags\<close>

record dialect =
  di_Aliases :: "(string, string) gomap"
  di_Boolean :: "string list"

definition llama_aliases :: "(string, string) gomap" where
  "llama_aliases =
     [(''hf'', ''hf-repo''), (''hfr'', ''hf-repo''), (''hff'', ''hf-file''), (''hft'', ''hf-token''),
      (''ngl'', ''n-gpu-layers''), (''fa'', ''flash-attn''),
      (''ctk'', ''cache-type-k''), (''ctv'', ''cache-type-v''),
      (''ub'', ''ubatch-size''), (''np'', ''parallel''), (''ns'', ''sequences''),
      (''cb'', ''cont-batching''), (''dt'', ''defrag-thold''), (''dev'', ''device''),
      (''ot'', ''override-tensor''), (''sm'', ''split-mode''), (''ts'', ''tensor-split''),
      (''mg'', ''main-gpu''), (''mm'', ''mmproj''), (''mmu'', ''mmproj-url''),
      (''mu'', ''model-url''), (''tb'', ''threads-batch''), (''to'', ''timeout''),
      (''kvu'', ''kv-unified''),
      (''md'', ''spec-draft-model''), (''model-draft'', ''spec-draft-model''),
      (''hfd'', ''spec-draft-hf''), (''hfrd'', ''spec-draft-hf''), (''hf-repo-draft'', ''spec-draft-hf''),
      (''ngld'', ''spec-draft-ngl''), (''gpu-layers-draft'', ''spec-draft-ngl''),
      (''n-gpu-layers-draft'', ''spec-draft-ngl''),
      (''t'', ''threads''), (''c'', ''ctx-size''), (''n'', ''n-predict''), (''b'', ''batch-size''),
      (''s'', ''seed''), (''m'', ''model''), (''a'', ''alias''), (''v'', ''verbose''), (''p'', ''prompt'')]"

definition llama_boolean :: "string list" where
  "llama_boolean =
     [''mmap'', ''no-mmap'', ''jinja'', ''kv-unified'', ''spec-default'', ''cont-batching'', ''no-cont-batching'',
      ''mlock'', ''embedding'', ''embeddings'', ''verbose'', ''cpu-moe'', ''color'', ''mmproj-auto'', ''no-mmproj'']"

definition LlamaCpp :: dialect where
  "LlamaCpp = \<lparr>di_Aliases = llama_aliases, di_Boolean = llama_boolean\<rparr>"

definition VLLM :: dialect where "VLLM = \<lparr>di_Aliases = [], di_Boolean = []\<rparr>"
definition OMLX :: dialect where "OMLX = \<lparr>di_Aliases = [], di_Boolean = []\<rparr>"
definition MTPLX :: dialect where "MTPLX = \<lparr>di_Aliases = [], di_Boolean = []\<rparr>"

definition CanonicalKey :: "dialect \<Rightarrow> string \<Rightarrow> string" where
  "CanonicalKey d key =
     (let name = to_lower (trim_space key) in get_or name (map_of (di_Aliases d)) name)"

text \<open>The merge: the parameters in order, and the place of each flag among them.\<close>

definition merge_param :: "dialect \<Rightarrow> param \<Rightarrow> param list \<times> (string, nat) gomap \<Rightarrow> param list \<times> (string, nat) gomap" where
  "merge_param d kv = (\<lambda>(ordered, at).
     (case map_of at (CanonicalKey d (fst kv)) of
        Some i \<Rightarrow> (ordered[i := kv], at)
      | None \<Rightarrow> (ordered @ [kv], AList.update (CanonicalKey d (fst kv)) (length ordered) at)))"

definition Merge :: "dialect \<Rightarrow> param list list \<Rightarrow> param list" where
  "Merge d layers = fst (fold (\<lambda>layer st. fold (merge_param d) layer st) layers ([], []))"

definition isFalsy :: "string \<Rightarrow> bool" where
  "isFalsy v \<longleftrightarrow> to_lower v \<in> {''0'', ''false'', ''off'', ''no''}"

definition flagFor :: "dialect \<Rightarrow> param \<Rightarrow> string list" where
  "flagFor d = (\<lambda>(key, val).
     (let name = CanonicalKey d key;
          flag = (if length name = 1 then ''-'' @ name else ''--'' @ name);
          v = trim_space val
      in if name \<in> set (di_Boolean d) then (if isFalsy v then [] else [flag])
         else if v = '''' then [flag] else [flag, v]))"

definition Flags :: "dialect \<Rightarrow> param list list \<Rightarrow> string list" where
  "Flags d layers = concat (map (flagFor d) (Merge d layers))"

definition CommandIn :: "dialect \<Rightarrow> string \<Rightarrow> string list \<Rightarrow> preset_section \<Rightarrow> param list list \<Rightarrow> preset \<Rightarrow> string list" where
  "CommandIn d binary subcommand sec overrides p =
     (binary # subcommand) @ Flags d (pr_Global p # ps_Params sec # overrides)"

section \<open>Commands for a shell\<close>

definition safe_char :: "char \<Rightarrow> bool" where
  "safe_char c \<longleftrightarrow> is_digit c \<or> (let n = (of_char c :: nat) in 65 \<le> n \<and> n \<le> 90 \<or> 97 \<le> n \<and> n \<le> 122) \<or> c \<in> set ''_@%+=:,./-''"

definition quote_sign :: char where
  "quote_sign = CHR 0x27"

definition backslash :: char where
  "backslash = CHR 0x5C"

definition escape_quotes :: "string \<Rightarrow> string" where
  "escape_quotes s =
     concat (map (\<lambda>c. if c = quote_sign then [quote_sign, backslash, quote_sign, quote_sign] else [c]) s)"

definition shellQuote :: "string \<Rightarrow> string" where
  "shellQuote s =
     (if s \<noteq> '''' \<and> list_all safe_char s then s else quote_sign # escape_quotes s @ [quote_sign])"

definition FormatCommand :: "string list \<Rightarrow> string" where
  "FormatCommand argv = join_with '' '' (map shellQuote argv)"

section \<open>What a merge comes to\<close>

text \<open>The keys of a list in the order they first occur in.\<close>

definition first_keys :: "'k list \<Rightarrow> 'k list" where
  "first_keys ks = rev (remdups (rev ks))"

definition last_of :: "dialect \<Rightarrow> param list \<Rightarrow> string \<Rightarrow> param" where
  "last_of d ps k = last (filter (\<lambda>q. CanonicalKey d (fst q) = k) ps)"

definition merged :: "dialect \<Rightarrow> param list \<Rightarrow> param list" where
  "merged d ps = map (last_of d ps) (first_keys (map (CanonicalKey d \<circ> fst) ps))"

definition places :: "dialect \<Rightarrow> param list \<Rightarrow> (string, nat) gomap" where
  "places d ps = (let ks = first_keys (map (CanonicalKey d \<circ> fst) ps) in zip ks [0..<length ks])"

lemma set_first_keys [simp]: "set (first_keys ks) = set ks"
  by (simp add: first_keys_def)

lemma distinct_first_keys [simp]: "distinct (first_keys ks)"
  by (simp add: first_keys_def)

lemma first_keys_snoc: "first_keys (ks @ [k]) = (if k \<in> set ks then first_keys ks else first_keys ks @ [k])"
  by (simp add: first_keys_def)

lemma last_of_snoc:
  "last_of d (ps @ [q]) k = (if CanonicalKey d (fst q) = k then q else last_of d ps k)"
  by (simp add: last_of_def)

lemma last_of_key: "k \<in> CanonicalKey d ` fst ` set ps \<Longrightarrow> CanonicalKey d (fst (last_of d ps k)) = k"
proof -
  assume "k \<in> CanonicalKey d ` fst ` set ps"
  then have "filter (\<lambda>q. CanonicalKey d (fst q) = k) ps \<noteq> []" by (auto simp: filter_empty_conv)
  then show ?thesis unfolding last_of_def using last_in_set by fastforce
qed

lemma places_at:
  assumes "map_of (places d ps) k = Some i"
  shows "i < length (merged d ps) \<and> first_keys (map (CanonicalKey d \<circ> fst) ps) ! i = k"
  using map_of_SomeD [OF assms] by (auto simp: places_def merged_def Let_def set_zip)

lemma places_None: "map_of (places d ps) k = None \<longleftrightarrow> k \<notin> CanonicalKey d ` fst ` set ps"
  by (simp add: places_def Let_def map_of_zip_is_None image_comp comp_def)

lemma merge_step:
  "merge_param d q (merged d ps, places d ps) = (merged d (ps @ [q]), places d (ps @ [q]))"
proof -
  let ?k = "CanonicalKey d (fst q)" and ?ks = "first_keys (map (CanonicalKey d \<circ> fst) ps)"
  show ?thesis
  proof (cases "map_of (places d ps) ?k")
    case None
    then have new: "?k \<notin> set (map (CanonicalKey d \<circ> fst) ps)" by (auto simp: places_None)
    then have "map (last_of d (ps @ [q])) ?ks = map (last_of d ps) ?ks"
      by (intro map_cong) (auto simp: last_of_snoc)
    with new have "merged d (ps @ [q]) = merged d ps @ [q]"
      by (simp add: merged_def first_keys_snoc last_of_snoc)
    moreover from new have "places d (ps @ [q]) = places d ps @ [(?k, length (merged d ps))]"
      by (simp add: places_def merged_def first_keys_snoc Let_def)
    ultimately show ?thesis using None by (simp add: merge_param_def update_new)
  next
    case (Some i)
    then have k: "?k \<in> set (map (CanonicalKey d \<circ> fst) ps)" by (metis option.distinct(1) places_None set_map image_comp)
    from places_at [OF Some] have i: "i < length ?ks" "?ks ! i = ?k" by (auto simp: merged_def)
    have "(map (last_of d ps) ?ks)[i := q] = map (last_of d (ps @ [q])) ?ks"
      using i distinct_first_keys [of "map (CanonicalKey d \<circ> fst) ps"]
      by (intro nth_equalityI) (auto simp: nth_list_update last_of_snoc nth_eq_iff_index_eq)
    with k Some show ?thesis by (simp add: merge_param_def merged_def places_def first_keys_snoc)
  qed
qed

lemma merge_layer:
  "fold (merge_param d) qs (merged d ps, places d ps) = (merged d (ps @ qs), places d (ps @ qs))"
  by (induction qs arbitrary: ps) (simp_all add: merge_step)

lemma merge_layers:
  "fold (\<lambda>layer st. fold (merge_param d) layer st) layers (merged d ps, places d ps) =
     (merged d (ps @ concat layers), places d (ps @ concat layers))"
  by (induction layers arbitrary: ps) (simp_all add: merge_layer)

lemma Merge_merged: "Merge d layers = merged d (concat layers)"
  using merge_layers [of d layers "[]"]
  by (simp add: Merge_def merged_def places_def first_keys_def)

lemma Merge_keys:
  "map (CanonicalKey d \<circ> fst) (Merge d layers) = first_keys (map (CanonicalKey d \<circ> fst) (concat layers))"
  by (auto simp: Merge_merged merged_def last_of_key image_comp intro!: map_idI)

lemma Merge_distinct: "distinct (map (CanonicalKey d \<circ> fst) (Merge d layers))"
  unfolding Merge_keys by simp

lemma last_of_last:
  "CanonicalKey d (fst q) \<notin> CanonicalKey d ` fst ` set after \<Longrightarrow>
    last_of d (before @ q # after) (CanonicalKey d (fst q)) = q"
proof -
  assume "CanonicalKey d (fst q) \<notin> CanonicalKey d ` fst ` set after"
  then have "filter (\<lambda>p. CanonicalKey d (fst p) = CanonicalKey d (fst q)) after = []"
    by (auto simp: filter_empty_conv image_iff)
  then show ?thesis by (simp add: last_of_def)
qed

lemma Merge_last_set:
  "concat layers = before @ q # after \<Longrightarrow> CanonicalKey d (fst q) \<notin> CanonicalKey d ` fst ` set after \<Longrightarrow>
    q \<in> set (Merge d layers)"
  using last_of_last [of d q after before] by (force simp: Merge_merged merged_def)

text \<open>A layer that names no flag twice stands over the layers before it, and alone is its own merge.\<close>

lemma distinct_keys_split:
  assumes "distinct (map (CanonicalKey d \<circ> fst) ps)" and "q \<in> set ps"
  obtains before after where "ps = before @ q # after" "CanonicalKey d (fst q) \<notin> CanonicalKey d ` fst ` set after"
proof -
  obtain before after where ps: "ps = before @ q # after" using assms(2) by (metis split_list)
  with assms(1) have "CanonicalKey d (fst q) \<notin> (CanonicalKey d \<circ> fst) ` set after" by simp
  with ps show ?thesis using that by (simp add: image_comp)
qed

lemma Merge_last_layer:
  assumes "distinct (map (CanonicalKey d \<circ> fst) ps)" and "q \<in> set ps"
  shows "q \<in> set (Merge d (layers @ [ps]))"
proof -
  obtain before after where "ps = before @ q # after" "CanonicalKey d (fst q) \<notin> CanonicalKey d ` fst ` set after"
    using distinct_keys_split [OF assms] .
  then show ?thesis by (intro Merge_last_set [of _ "concat layers @ before" q after]) auto
qed

lemma first_keys_distinct: "distinct ks \<Longrightarrow> first_keys ks = ks"
  by (simp add: first_keys_def distinct_remdups_id)

lemma Merge_single:
  assumes "distinct (map (CanonicalKey d \<circ> fst) ps)" shows "Merge d [ps] = ps"
proof -
  have "last_of d ps (CanonicalKey d (fst q)) = q" if q: "q \<in> set ps" for q
  proof -
    obtain before after where ps: "ps = before @ q # after" "CanonicalKey d (fst q) \<notin> CanonicalKey d ` fst ` set after"
      using distinct_keys_split [OF assms q] .
    then show ?thesis using last_of_last [of d q after before] by simp
  qed
  then show ?thesis using assms by (simp add: Merge_merged merged_def first_keys_distinct map_idI)
qed

text \<open>
  A merge of layers of flags holds every flag that some layer names exactly once, whatever
  spelling it was written in; each stands where it was first named and has the value it was last given.
\<close>

theorem Merge_spec:
  "map (CanonicalKey d \<circ> fst) (Merge d layers) = first_keys (map (CanonicalKey d \<circ> fst) (concat layers)) \<and>
   distinct (map (CanonicalKey d \<circ> fst) (Merge d layers)) \<and>
   set (Merge d layers) = {q. \<exists>before after. concat layers = before @ q # after \<and>
     CanonicalKey d (fst q) \<notin> CanonicalKey d ` fst ` set after}"
proof (intro conjI set_eqI iffI)
  let ?ps = "concat layers"
  fix q assume "q \<in> set (Merge d layers)"
  then obtain p where p: "p \<in> set ?ps" "q = last_of d ?ps (CanonicalKey d (fst p))"
    by (auto simp: Merge_merged merged_def)
  obtain before x after where x: "?ps = before @ x # after" "CanonicalKey d (fst x) = CanonicalKey d (fst p)"
    "\<forall>z \<in> set after. CanonicalKey d (fst z) \<noteq> CanonicalKey d (fst p)"
    using split_list_last_propE [of ?ps "\<lambda>x. CanonicalKey d (fst x) = CanonicalKey d (fst p)"] p(1) by metis
  then have new: "CanonicalKey d (fst x) \<notin> CanonicalKey d ` fst ` set after" by force
  with x p(2) have "q = x" using last_of_last [of d x after before] by simp
  with x(1) new show "q \<in> {q. \<exists>before after. ?ps = before @ q # after \<and>
      CanonicalKey d (fst q) \<notin> CanonicalKey d ` fst ` set after}" by blast
qed (auto simp: Merge_keys Merge_distinct intro: Merge_last_set simp del: map_map)

section \<open>What a shell reads\<close>

text \<open>
  How a POSIX shell splits a line into words, of what the commands use: blanks, single quotes and
  backslashes. A character that could mean anything else outside quotes is not read.
\<close>

function sh_read :: "string option \<Rightarrow> string \<Rightarrow> string list option" where
  "sh_read cur [] = Some (case cur of None \<Rightarrow> [] | Some w \<Rightarrow> [w])"
| "sh_read cur (c # s) =
     (let w = (case cur of None \<Rightarrow> [] | Some w \<Rightarrow> w) in
      if c = CHR '' '' then map_option ((case cur of None \<Rightarrow> id | Some w \<Rightarrow> Cons w)) (sh_read None s)
      else if c = quote_sign then
        (case index_byte s quote_sign of
           None \<Rightarrow> None
         | Some i \<Rightarrow> sh_read (Some (w @ take i s)) (drop (Suc i) s))
      else if c = backslash then
        (case s of [] \<Rightarrow> None | x # t \<Rightarrow> sh_read (Some (w @ [x])) t)
      else if safe_char c then sh_read (Some (w @ [c])) s
      else None)"
  by pat_completeness auto
termination by (relation "measure (\<lambda>(_, s). length s)") auto

declare sh_read.simps(2) [simp del]

abbreviation word_so_far :: "string option \<Rightarrow> string" where
  "word_so_far cur \<equiv> (case cur of None \<Rightarrow> [] | Some w \<Rightarrow> w)"

lemma shell_signs: "quote_sign \<noteq> CHR '' ''" "backslash \<noteq> CHR '' ''" "backslash \<noteq> quote_sign" "quote_sign \<noteq> backslash"
  by (simp_all add: quote_sign_def backslash_def)

lemma safe_char_plain: "safe_char c \<Longrightarrow> c \<noteq> CHR '' '' \<and> c \<noteq> quote_sign \<and> c \<noteq> backslash"
  by (auto simp: safe_char_def is_digit_def quote_sign_def backslash_def)

lemma sh_read_step:
  "sh_read (Some w) (CHR '' '' # s) = map_option (Cons w) (sh_read None s)"
  "quote_sign \<notin> set a \<Longrightarrow> sh_read cur (quote_sign # a @ quote_sign # t) = sh_read (Some (word_so_far cur @ a)) t"
  "sh_read cur (backslash # x # t) = sh_read (Some (word_so_far cur @ [x])) t"
  "safe_char c \<Longrightarrow> sh_read cur (c # s) = sh_read (Some (word_so_far cur @ [c])) s"
  using shell_signs safe_char_plain [of c] by (simp_all add: sh_read.simps(2) Let_def index_byte_append)

lemma sh_read_safe:
  assumes "list_all safe_char s"
  shows "sh_read (Some w) (s @ t) = sh_read (Some (w @ s)) t"
  using assms by (induction s arbitrary: w) (auto simp: sh_read_step)

lemma escape_append [simp]: "escape_quotes (a @ b) = escape_quotes a @ escape_quotes b"
  by (simp add: escape_quotes_def)

lemma escape_plain [simp]: "quote_sign \<notin> set a \<Longrightarrow> escape_quotes a = a"
  by (induction a) (auto simp: escape_quotes_def)

lemma sh_read_quoted:
  "sh_read cur (quote_sign # escape_quotes s @ quote_sign # t) = sh_read (Some (word_so_far cur @ s)) t"
proof (induction "length s" arbitrary: s cur rule: less_induct)
  case less
  show ?case
  proof (cases "quote_sign \<in> set s")
    case True
    then obtain a b where s: "s = a @ quote_sign # b" "quote_sign \<notin> set a" by (metis split_list_first)
    have "escape_quotes (quote_sign # b) = quote_sign # backslash # quote_sign # quote_sign # escape_quotes b"
      by (simp add: escape_quotes_def)
    then have "sh_read cur (quote_sign # escape_quotes s @ quote_sign # t) =
        sh_read (Some (word_so_far cur @ a @ [quote_sign])) (quote_sign # escape_quotes b @ quote_sign # t)"
      using s by (simp add: sh_read_step)
    also have "\<dots> = sh_read (Some (word_so_far cur @ a @ [quote_sign] @ b)) t"
      using less [of b "Some (word_so_far cur @ a @ [quote_sign])"] s by simp
    finally show ?thesis using s by simp
  qed (simp add: sh_read_step)
qed

lemma sh_read_shellQuote: "sh_read None (shellQuote s @ t) = sh_read (Some s) t"
proof (cases "s \<noteq> [] \<and> list_all safe_char s")
  case True
  then obtain c r where "s = c # r" "safe_char c" "list_all safe_char r" by (cases s) auto
  then show ?thesis by (simp add: shellQuote_def sh_read_step sh_read_safe)
next
  case False
  then show ?thesis using sh_read_quoted [of None s t] by (auto simp: shellQuote_def)
qed


section \<open>Sections\<close>

lemma preset_sections_ok:
  "preset_line n l (p, cur) = Inr (p', cur') \<Longrightarrow> (\<forall>i. cur = Some i \<longrightarrow> Suc i = length (pr_Sections p)) \<Longrightarrow>
    (\<forall>i. cur' = Some i \<longrightarrow> Suc i = length (pr_Sections p'))"
  by (auto simp: preset_line_def add_param_def Let_def split: if_splits option.splits)

text \<open>The section that is served is one of the preset, and where a name is asked for, one of that name if there is any.\<close>

lemma SelectSection_spec:
  assumes "SelectSection model p = Inr s"
  shows "s \<in> set (pr_Sections p) \<and>
     (model \<noteq> '''' \<and> (\<exists>x \<in> set (pr_Sections p). equal_fold (ps_Name x) model) \<longrightarrow> equal_fold (ps_Name s) model)"
  using assms
  by (auto simp: SelectSection_def find_None_iff split: list.splits if_splits option.splits dest: find_SomeD)

end
