(* ===== verification/Engines.thy ===== *)
theory Engines
  imports SpinloopFile ContextSize Preset FleetSelect Deploy
begin

text \<open>
  \<^verbatim>\<open>cmd/spinloop/serve.go\<close> and \<^verbatim>\<open>serve_daemon.go\<close>: the table of engines, how a Spinloop or a deploy config
  becomes an engine's command, and what is read back out of a command: where the engine listens and
  whether it is gated. Parsing a URL, reading a file, recognising an IP and looking up a binary are
  arguments.
\<close>

section \<open>The engines\<close>

datatype serve_error =
    NotServed string
  | BadParallel string
  | BadContext size_error
  | BadBaseURL string
  | NoModelPositional string
  | NoModel
  | DeployNoModel
  | NothingToServe
  | ForegroundManaged
  | UnknownEngineKey
  | NoKeyFile string
  | PresetUnread string string
  | PresetBroken string preset_error
  | PresetSection string section_error

record surroundings_cli =
  cl_parse_url :: url_parser
  cl_loopback_ip :: "string \<Rightarrow> bool option"
  cl_machine :: "float64 \<Rightarrow> int"
  cl_read_file :: "string \<Rightarrow> string option"
  cl_omlx :: "string option"

definition parseParallel :: "string \<Rightarrow> serve_error + int" where
  "parseParallel s =
     (case parse_int (trim_space s) of
        None \<Rightarrow> Inl (BadParallel s)
      | Some n \<Rightarrow> if n \<le> 0 then Inl (BadParallel s) else Inr n)"

definition hostPortFromURL :: "url_parser \<Rightarrow> string \<Rightarrow> serve_error + string \<times> string" where
  "hostPortFromURL parse_url raw =
     (let raw = (if contains raw ''://'' then raw else ''http://'' @ raw) in
      case parse_url raw of None \<Rightarrow> Inl (BadBaseURL raw) | Some u \<Rightarrow> Inr (up_Hostname u, up_Port u))"

definition bindAddressParams :: "surroundings_cli \<Rightarrow> selection \<Rightarrow> serve_error + param list" where
  "bindAddressParams env sel =
     (if sel_BaseURL sel = '''' then Inr []
      else (case hostPortFromURL (cl_parse_url env) (sel_BaseURL sel) of
          Inl e \<Rightarrow> Inl e
        | Inr (host, port) \<Rightarrow>
            Inr ((if host \<noteq> '''' then [(''host'', host)] else []) @ (if port \<noteq> '''' then [(''port'', port)] else []))))"

definition isModelPath :: "string \<Rightarrow> bool" where
  "isModelPath model \<longleftrightarrow>
     has_suffix (to_lower model) ''.gguf'' \<or> prefix ''/'' model \<or> prefix ''./'' model \<or> prefix ''../'' model \<or>
     prefix ''~'' model"

text \<open>A setting of the Spinloop as a flag with a number, where it states it.\<close>

definition parallel_param :: "string \<Rightarrow> selection \<Rightarrow> serve_error + param list" where
  "parallel_param key sel =
     (if sel_Parallel sel = '''' then Inr []
      else map_sum id (\<lambda>n. [(key, show_int n)]) (parseParallel (sel_Parallel sel)))"

definition context_param :: "surroundings_cli \<Rightarrow> string \<Rightarrow> (int \<Rightarrow> int) \<Rightarrow> selection \<Rightarrow> serve_error + param list" where
  "context_param env key scale sel =
     (if sel_Context sel = '''' then Inr []
      else map_sum BadContext (\<lambda>n. [(key, show_int (scale n))]) (ParseSize (cl_machine env) (sel_Context sel)))"

definition after :: "param list \<Rightarrow> serve_error + param list \<Rightarrow> serve_error + param list" where
  "after ps r = map_sum id (\<lambda>qs. ps @ qs) r"

definition vllm_named :: "selection \<Rightarrow> param list" where
  "vllm_named sel = (if sel_Alias sel \<noteq> '''' then [(''served-model-name'', sel_Alias sel)] else [])"

definition vllmServeParams :: "surroundings_cli \<Rightarrow> selection \<Rightarrow> serve_error + param list" where
  "vllmServeParams env sel =
     (case context_param env ''max-model-len'' id sel of
        Inl e \<Rightarrow> Inl e
      | Inr ctx \<Rightarrow>
          (case parallel_param ''max-num-seqs'' sel of
             Inl e \<Rightarrow> Inl e
           | Inr par \<Rightarrow> after (vllm_named sel @ ctx @ par) (bindAddressParams env sel)))"

definition omlxServeParams :: "surroundings_cli \<Rightarrow> selection \<Rightarrow> serve_error + param list" where
  "omlxServeParams env sel =
     (case parallel_param ''max-concurrent-requests'' sel of
        Inl e \<Rightarrow> Inl e
      | Inr par \<Rightarrow> after par (bindAddressParams env sel))"

definition mtplx_named :: "selection \<Rightarrow> param list" where
  "mtplx_named sel =
     (if sel_Model sel \<noteq> '''' then [(''model'', sel_Model sel)] else []) @ [(''download'', '''')] @
     (if sel_Alias sel \<noteq> '''' then [(''model-id'', sel_Alias sel)] else [])"

definition mtplxServeParams :: "surroundings_cli \<Rightarrow> selection \<Rightarrow> serve_error + param list" where
  "mtplxServeParams env sel =
     (case context_param env ''context-window'' id sel of
        Inl e \<Rightarrow> Inl e
      | Inr ctx \<Rightarrow>
          (case parallel_param ''max-active-requests'' sel of
             Inl e \<Rightarrow> Inl e
           | Inr par \<Rightarrow> after (mtplx_named sel @ ctx @ par) (bindAddressParams env sel)))"

text \<open>A product in a 64-bit integer.\<close>

definition llama_named :: "selection \<Rightarrow> param list" where
  "llama_named sel =
     (if sel_Model sel = '''' then []
      else if isModelPath (sel_Model sel) then [(''model'', sel_Model sel)] else [(''hf'', sel_Model sel)]) @
     (if sel_Alias sel \<noteq> '''' then [(''alias'', sel_Alias sel)] else [])"

definition llama_slots :: "selection \<Rightarrow> int" where
  "llama_slots sel =
     (if sel_Parallel sel = '''' then 0 else (case parseParallel (sel_Parallel sel) of Inr n \<Rightarrow> n | Inl _ \<Rightarrow> 0))"

definition llamacppServeParams :: "surroundings_cli \<Rightarrow> selection \<Rightarrow> serve_error + param list" where
  "llamacppServeParams env sel =
     (case parallel_param ''parallel'' sel of
        Inl e \<Rightarrow> Inl e
      | Inr par \<Rightarrow>
          (case context_param env ''ctx-size''
                  (\<lambda>n. if llama_slots sel > 0 then wrap64 (n * llama_slots sel) else n) sel of
             Inl e \<Rightarrow> Inl e
           | Inr ctx \<Rightarrow> after (llama_named sel @ par @ ctx) (bindAddressParams env sel)))"

record serve_engine =
  en_binary :: string
  en_subcommand :: "string list"
  en_dialect :: dialect
  en_params :: "selection \<Rightarrow> serve_error + param list"
  en_needsModel :: bool
  en_modelFlags :: "string list"
  en_metricsArgs :: "string list"
  en_metricsEngine :: string
  en_defaultBaseURL :: string
  en_apiKeyFileFlag :: string
  en_defaultBindLoopback :: bool
  en_positional :: "selection \<Rightarrow> string list"

definition modelSourceFlags :: "string \<Rightarrow> string list" where
  "modelSourceFlags runner =
     (if runner = ''llamacpp'' then [''hf-repo'', ''model'', ''hf-file'']
      else if runner = ''mtplx'' then [''model''] else [])"

definition resolveOMLXBinary :: "string option \<Rightarrow> string" where
  "resolveOMLXBinary found =
     (case found of Some p \<Rightarrow> p | None \<Rightarrow> ''/Applications/oMLX.app/Contents/MacOS/omlx-cli'')"

definition engines :: "surroundings_cli \<Rightarrow> (string \<times> serve_engine) list" where
  "engines env =
     [(''llamacpp'', \<lparr>en_binary = ''llama-server'', en_subcommand = [], en_dialect = LlamaCpp,
         en_params = llamacppServeParams env, en_needsModel = True, en_modelFlags = modelSourceFlags ''llamacpp'',
         en_metricsArgs = [''--metrics''], en_metricsEngine = ''llamacpp'',
         en_defaultBaseURL = ''http://127.0.0.1:8080'', en_apiKeyFileFlag = ''--api-key-file'',
         en_defaultBindLoopback = True, en_positional = (\<lambda>_. [])\<rparr>),
      (''omlx'', \<lparr>en_binary = resolveOMLXBinary (cl_omlx env), en_subcommand = [''serve''], en_dialect = OMLX,
         en_params = omlxServeParams env, en_needsModel = False, en_modelFlags = [], en_metricsArgs = [],
         en_metricsEngine = '''', en_defaultBaseURL = '''', en_apiKeyFileFlag = '''',
         en_defaultBindLoopback = False, en_positional = (\<lambda>_. [])\<rparr>),
      (''mtplx'', \<lparr>en_binary = ''mtplx'', en_subcommand = [''serve''], en_dialect = MTPLX,
         en_params = mtplxServeParams env, en_needsModel = True, en_modelFlags = modelSourceFlags ''mtplx'',
         en_metricsArgs = [], en_metricsEngine = '''', en_defaultBaseURL = ''http://127.0.0.1:8000'',
         en_apiKeyFileFlag = ''--api-key-file'', en_defaultBindLoopback = True, en_positional = (\<lambda>_. [])\<rparr>),
      (''vllm'', \<lparr>en_binary = ''vllm'', en_subcommand = [''serve''], en_dialect = VLLM,
         en_params = vllmServeParams env, en_needsModel = True, en_modelFlags = [], en_metricsArgs = [],
         en_metricsEngine = ''vllm'', en_defaultBaseURL = ''http://127.0.0.1:8000'', en_apiKeyFileFlag = '''',
         en_defaultBindLoopback = False,
         en_positional = (\<lambda>sel. if sel_Model sel = '''' then [] else [sel_Model sel])\<rparr>)]"

definition engineFor :: "surroundings_cli \<Rightarrow> string \<Rightarrow> serve_error + serve_engine" where
  "engineFor env provider =
     (case map_of (engines env) provider of None \<Rightarrow> Inl (NotServed provider) | Some e \<Rightarrow> Inr e)"

section \<open>Commands\<close>

definition subcommandFor :: "serve_engine \<Rightarrow> selection \<Rightarrow> string list" where
  "subcommandFor engine sel = en_subcommand engine @ en_positional engine sel"

definition assembleEngineArgv :: "serve_engine \<Rightarrow> string list \<Rightarrow> param list \<Rightarrow> string list \<Rightarrow> string list" where
  "assembleEngineArgv engine subcommand params trailing =
     (en_binary engine # subcommand) @ Flags (en_dialect engine) [params] @ trailing"

definition paramModel :: "serve_engine \<Rightarrow> param list \<Rightarrow> string" where
  "paramModel engine params =
     fold (\<lambda>(k, v) model. if CanonicalKey (en_dialect engine) k \<in> set (en_modelFlags engine) \<and> v \<noteq> '''' then v else model)
       params ''''"

text \<open>\<open>read_preset\<close>: the path of the preset and what fetching it gave.\<close>

definition buildServeArgv ::
  "(string \<Rightarrow> string + string) \<Rightarrow> serve_engine \<Rightarrow> selection \<Rightarrow> serve_error + string list" where
  "buildServeArgv fetch engine sel =
     (case en_params engine sel of
        Inl e \<Rightarrow> Inl e
      | Inr params \<Rightarrow>
          if sel_Preset sel \<noteq> '''' then
            (case fetch (sel_Preset sel) of
               Inl e \<Rightarrow> Inl (PresetUnread (sel_Preset sel) e)
             | Inr data \<Rightarrow>
                 (case ParsePreset data of
                    Inl e \<Rightarrow> Inl (PresetBroken (sel_Preset sel) e)
                  | Inr pre \<Rightarrow>
                      (case SelectSection (sel_Alias sel) pre of
                         Inl e \<Rightarrow> Inl (PresetSection (sel_Preset sel) e)
                       | Inr sec \<Rightarrow>
                           Inr (CommandIn (en_dialect engine) (en_binary engine) (subcommandFor engine sel) sec
                                  [sel_Params sel, params] pre))))
          else
            (let model = (if sel_Model sel = '''' then paramModel engine (sel_Params sel) else sel_Model sel) in
             if en_needsModel engine \<and> model = '''' then
               Inl (if en_modelFlags engine = [] then NoModelPositional (sel_Provider sel) else NoModel)
             else Inr (assembleEngineArgv engine (subcommandFor engine sel)
                         (Merge (en_dialect engine) [sel_Params sel, params]) [])))"

definition deploy_selection :: "deploy_config \<Rightarrow> selection" where
  "deploy_selection dc = empty_selection\<lparr>
     sel_Provider := dc_Runner dc,
     sel_Model := dc_ModelID dc @ (if dc_Quant dc \<noteq> '''' then '':'' @ dc_Quant dc else ''''),
     sel_Alias := dc_ServedModelName dc,
     sel_Context := (if dc_ContextSize dc > 0 then show_int (dc_ContextSize dc) else ''''),
     sel_Parallel := (if dc_Parallel dc > 0 then show_int (dc_Parallel dc) else '''')\<rparr>"

definition argvFromDeployConfig :: "serve_engine \<Rightarrow> deploy_config \<Rightarrow> serve_error + string list" where
  "argvFromDeployConfig engine dc =
     (let sel = deploy_selection dc in
      case en_params engine sel of
        Inl e \<Rightarrow> Inl e
      | Inr params \<Rightarrow> Inr (assembleEngineArgv engine (subcommandFor engine sel) params (dc_ServeArgs dc)))"

definition validateDeployConfig :: "surroundings_cli \<Rightarrow> deploy_config \<Rightarrow> serve_error option" where
  "validateDeployConfig env dc =
     (case engineFor env (dc_Runner dc) of
        Inl e \<Rightarrow> Some e
      | Inr engine \<Rightarrow> if en_needsModel engine \<and> dc_ModelID dc = '''' then Some DeployNoModel else None)"

definition withMetricsArgs :: "string list \<Rightarrow> serve_engine \<Rightarrow> string list" where
  "withMetricsArgs argv engine =
     (case en_metricsArgs engine of
        [] \<Rightarrow> argv
      | a # _ \<Rightarrow> if a \<in> set argv then argv else argv @ en_metricsArgs engine)"

section \<open>Reading a command\<close>

record engine_bind =
  eb_host :: string
  eb_port :: string
  eb_key :: string

definition bind_arg :: "surroundings_cli \<Rightarrow> string \<Rightarrow> string \<Rightarrow> engine_bind \<Rightarrow> engine_bind" where
  "bind_arg env a v b =
     (if a = ''--api-key'' then b\<lparr>eb_key := v\<rparr>
      else if a = ''--api-key-file'' then
        (case cl_read_file env v of None \<Rightarrow> b | Some data \<Rightarrow> b\<lparr>eb_key := trim_space data\<rparr>)
      else if a = ''--host'' then b\<lparr>eb_host := v\<rparr>
      else if a = ''--port'' then b\<lparr>eb_port := v\<rparr> else b)"

fun bind_args :: "surroundings_cli \<Rightarrow> string list \<Rightarrow> engine_bind \<Rightarrow> engine_bind" where
  "bind_args env (a # v # rest) b = bind_args env (v # rest) (bind_arg env a v b)"
| "bind_args env _ b = b"

definition engineBindFrom :: "surroundings_cli \<Rightarrow> string list \<Rightarrow> engine_bind" where
  "engineBindFrom env argv = bind_args env argv \<lparr>eb_host = '''', eb_port = '''', eb_key = ''''\<rparr>"

definition wildcard_host :: "string \<Rightarrow> bool" where
  "wildcard_host host \<longleftrightarrow> host \<in> {''0.0.0.0'', ''::'', ''[::]'', ''*''}"

definition bindIsLoopback :: "surroundings_cli \<Rightarrow> string \<Rightarrow> bool \<Rightarrow> bool" where
  "bindIsLoopback env host byDefault =
     (if host = '''' then byDefault
      else if wildcard_host host then False
      else (case cl_loopback_ip env (trim_right_by (\<lambda>c. c \<in> set ''[]'') (trim_left_by (\<lambda>c. c \<in> set ''[]'') host)) of
          Some loopback \<Rightarrow> loopback
        | None \<Rightarrow> host = ''localhost''))"

definition bindBaseURL :: "string \<Rightarrow> string \<Rightarrow> string" where
  "bindBaseURL host port =
     (if host = '''' \<and> port = '''' then ''''
      else
        (let host = (if host = '''' \<or> wildcard_host host then ''127.0.0.1'' else host)
         in if port = '''' then ''http://'' @ host else ''http://'' @ join_host_port host port))"

definition scrapeTargetFor :: "surroundings_cli \<Rightarrow> serve_engine \<Rightarrow> string \<Rightarrow> string list \<Rightarrow> string \<times> string \<times> string" where
  "scrapeTargetFor env engine baseURL argv =
     (let bind = engineBindFrom env argv;
          stated = bindBaseURL (eb_host bind) (eb_port bind);
          url = (if stated \<noteq> '''' then stated else if baseURL = '''' then en_defaultBaseURL engine else baseURL)
      in (url, en_metricsEngine engine, eb_key bind))"

definition engineEndpointFor ::
  "surroundings_cli \<Rightarrow> serve_engine \<Rightarrow> string \<Rightarrow> string list \<Rightarrow> engine_endpoint option" where
  "engineEndpointFor env engine baseURL argv =
     (let bind = engineBindFrom env argv;
          (port, path) =
            (if eb_port bind = '''' \<and> baseURL \<noteq> '''' then
               (case cl_parse_url env baseURL of None \<Rightarrow> (eb_port bind, '''') | Some u \<Rightarrow> (up_Port u, up_Path u))
             else (eb_port bind, ''''));
          port = (if port = '''' \<and> en_defaultBaseURL engine \<noteq> '''' then
               (case cl_parse_url env (en_defaultBaseURL engine) of None \<Rightarrow> port | Some u \<Rightarrow> up_Port u)
             else port)
      in case parse_int port of
           None \<Rightarrow> None
         | Some n \<Rightarrow>
             if n \<le> 0 then None
             else Some \<lparr>ep_Host = '''', ep_Port = n, ep_Path = (if path = ''/'' \<or> path = ''/v1'' then '''' else path),
               ep_LoopbackOnly = bindIsLoopback env (eb_host bind) (en_defaultBindLoopback engine),
               ep_RequiresKey = eb_key bind \<noteq> ''''\<rparr>)"

definition engineKeyArgs :: "surroundings_cli \<Rightarrow> deploy_config option \<Rightarrow> string \<Rightarrow> serve_error + string list" where
  "engineKeyArgs env dc keyPath =
     (case dc of
        None \<Rightarrow> Inl UnknownEngineKey
      | Some c \<Rightarrow>
          (case engineFor env (dc_Runner c) of
             Inl e \<Rightarrow> Inl e
           | Inr engine \<Rightarrow>
               if en_apiKeyFileFlag engine = '''' then Inl (NoKeyFile (dc_Runner c))
               else Inr [en_apiKeyFileFlag engine, keyPath]))"

section \<open>The daemon's own flags\<close>

definition daemonAPIAddr :: "string \<Rightarrow> bool \<Rightarrow> bool \<Rightarrow> string option" where
  "daemonAPIAddr apiAddr addrExplicit loopback =
     (if loopback \<and> addrExplicit then None
      else if loopback then Some ''127.0.0.1:4242'' else Some apiAddr)"

datatype token_error = TwoTokens | TokenUnread string | TokenEmpty string

definition daemonToken :: "(string \<Rightarrow> string option) \<Rightarrow> string \<Rightarrow> string \<Rightarrow> string \<Rightarrow> token_error + string" where
  "daemonToken read_file getenv literal path =
     (if literal \<noteq> '''' \<and> path \<noteq> '''' then Inl TwoTokens
      else if path \<noteq> '''' then
        (case read_file path of
           None \<Rightarrow> Inl (TokenUnread path)
         | Some data \<Rightarrow> if trim_space data = '''' then Inl (TokenEmpty path) else Inr (trim_space data))
      else if literal \<noteq> '''' then Inr literal
      else Inr getenv)"

section \<open>The command of a deploy config\<close>

lemma engineFor_cases:
  assumes "engineFor env provider = Inr engine"
  obtains "provider = ''llamacpp''" "en_params engine = llamacppServeParams env" "en_dialect engine = LlamaCpp"
  | "provider = ''omlx''" "en_params engine = omlxServeParams env" "en_dialect engine = OMLX"
  | "provider = ''mtplx''" "en_params engine = mtplxServeParams env" "en_dialect engine = MTPLX"
  | "provider = ''vllm''" "en_params engine = vllmServeParams env" "en_dialect engine = VLLM"
  using assms by (auto simp: engineFor_def engines_def split: option.splits if_splits)

definition llama_engine :: "surroundings_cli \<Rightarrow> serve_engine" where
  "llama_engine env = the (map_of (engines env) ''llamacpp'')"

lemma engineFor_llama: "engineFor env ''llamacpp'' = Inr (llama_engine env)"
  by (simp add: engineFor_def llama_engine_def engines_def)

lemma llama_engine_fields [simp]:
  "en_binary (llama_engine env) = ''llama-server''" "en_subcommand (llama_engine env) = []"
  "en_params (llama_engine env) = llamacppServeParams env" "en_dialect (llama_engine env) = LlamaCpp"
  "en_positional (llama_engine env) sel = []" "en_defaultBaseURL (llama_engine env) = ''http://127.0.0.1:8080''"
  "en_metricsEngine (llama_engine env) = ''llamacpp''" "en_apiKeyFileFlag (llama_engine env) = ''--api-key-file''"
  "en_metricsArgs (llama_engine env) = [''--metrics'']" "en_needsModel (llama_engine env)"
  "en_defaultBindLoopback (llama_engine env)"
  by (simp_all add: llama_engine_def engines_def)

lemma llama_keys [simp]:
  "CanonicalKey LlamaCpp ''hf'' = ''hf-repo''" "CanonicalKey LlamaCpp ''model'' = ''model''"
  "CanonicalKey LlamaCpp ''alias'' = ''alias''" "CanonicalKey LlamaCpp ''parallel'' = ''parallel''"
  "CanonicalKey LlamaCpp ''ctx-size'' = ''ctx-size''" "CanonicalKey LlamaCpp ''host'' = ''host''"
  "CanonicalKey LlamaCpp ''port'' = ''port''"
  by code_simp+

lemma flagFor_value:
  "trimmed v \<Longrightarrow> v \<noteq> '''' \<Longrightarrow> CanonicalKey d k \<notin> set (di_Boolean d) \<Longrightarrow> length (CanonicalKey d k) \<noteq> 1 \<Longrightarrow>
    flagFor d (k, v) = [''--'' @ CanonicalKey d k, v]"
  by (simp add: flagFor_def Let_def)

lemma trimmed_show_nat [simp]: "trimmed (show_nat n)"
  by (rule digits_text(3)) (simp add: list_all_iff show_nat_digits)

lemma parseParallel_show:
  "0 < n \<Longrightarrow> n < 2 ^ 63 \<Longrightarrow> parseParallel (show_nat n) = Inr (int n)"
  using parse_show_int [of "int n"] by (simp add: parseParallel_def show_int_def)

lemma llama_deploy_argv:
  assumes "dc_Runner dc = ''llamacpp''" and "dc_Quant dc = ''''"
    and "dc_ModelID dc \<noteq> ''''" and "trimmed (dc_ModelID dc)"
    and "dc_ServedModelName dc \<noteq> ''''" and "trimmed (dc_ServedModelName dc)"
    and "dc_Parallel dc = int par" and "dc_ContextSize dc = int ctx" and "0 < par" and "0 < ctx"
    and "ctx < 2 ^ 53" and "ctx * par < 2 ^ 63"
  shows "argvFromDeployConfig (llama_engine env) dc =
     Inr ([''llama-server'', if isModelPath (dc_ModelID dc) then ''--model'' else ''--hf-repo'', dc_ModelID dc,
       ''--alias'', dc_ServedModelName dc, ''--parallel'', show_nat par, ''--ctx-size'', show_nat (ctx * par)] @
       dc_ServeArgs dc)"
proof -
  have "par * 1 \<le> ctx * par" using assms(9,10) by simp
  then have par: "par < 2 ^ 63" using assms(12) by linarith
  have wrap: "wrap64 (int ctx * int par) = int (ctx * par)"
  proof -
    have "int (ctx * par) < 2 ^ 63" using assms(12) by (metis of_nat_less_iff of_nat_numeral of_nat_power)
    then show ?thesis by (simp add: wrap64_def mod_pos_pos_trivial)
  qed
  let ?ps = "[(if isModelPath (dc_ModelID dc) then ''model'' else ''hf'', dc_ModelID dc), (''alias'', dc_ServedModelName dc),
      (''parallel'', show_nat par), (''ctx-size'', show_nat (ctx * par))]"
  have "llamacppServeParams env (deploy_selection dc) = Inr ?ps"
    using assms par wrap
    by (simp add: llamacppServeParams_def llama_named_def llama_slots_def deploy_selection_def empty_selection_def parallel_param_def context_param_def
        parseParallel_show ParseSize_show show_int_def after_def bindAddressParams_def nat_mult_distrib Let_def
        mult_less_0_iff)
  moreover have "Merge LlamaCpp [?ps] = ?ps" by (rule Merge_single) simp
  moreover have "Flags LlamaCpp [?ps] = [if isModelPath (dc_ModelID dc) then ''--model'' else ''--hf-repo'', dc_ModelID dc,
       ''--alias'', dc_ServedModelName dc, ''--parallel'', show_nat par, ''--ctx-size'', show_nat (ctx * par)]"
    unfolding Flags_def calculation(2) using assms
    by (simp add: flagFor_value LlamaCpp_def [THEN arg_cong [where f = di_Boolean]] llama_boolean_def)
  ultimately show ?thesis
    by (simp add: argvFromDeployConfig_def Let_def assembleEngineArgv_def subcommandFor_def)
qed

text \<open>
  A deploy config of a llama.cpp model becomes exactly this command: the repository or the path, the
  name it is served under, the number of slots, and as context the window of one request times the
  slots; then the arguments the config carries, unchanged and last.
\<close>

theorem deploy_command:
  assumes "dc_Runner dc = ''llamacpp''" and "dc_Quant dc = ''''"
    and "dc_ModelID dc \<noteq> ''''" and "trimmed (dc_ModelID dc)"
    and "dc_ServedModelName dc \<noteq> ''''" and "trimmed (dc_ServedModelName dc)"
    and "dc_Parallel dc = int par" and "dc_ContextSize dc = int ctx" and "0 < par" and "0 < ctx"
    and "ctx < 2 ^ 53" and "ctx * par < 2 ^ 63"
  shows "argvFromDeployConfig (llama_engine env) dc =
     Inr ([''llama-server'', if isModelPath (dc_ModelID dc) then ''--model'' else ''--hf-repo'', dc_ModelID dc,
       ''--alias'', dc_ServedModelName dc, ''--parallel'', show_nat par, ''--ctx-size'', show_nat (ctx * par)] @
       dc_ServeArgs dc)"
  by (rule llama_deploy_argv [OF assms])

section \<open>What a Spinloop states stands over its preset\<close>

lemma plain_keys [simp]:
  "CanonicalKey \<lparr>di_Aliases = [], di_Boolean = []\<rparr> k = to_lower (trim_space k)"
  by (simp add: CanonicalKey_def Let_def)

lemma key_names:
  "to_lower (trim_space ''host'') = ''host''" "to_lower (trim_space ''port'') = ''port''"
  "to_lower (trim_space ''model'') = ''model''" "to_lower (trim_space ''download'') = ''download''"
  "to_lower (trim_space ''model-id'') = ''model-id''" "to_lower (trim_space ''context-window'') = ''context-window''"
  "to_lower (trim_space ''max-active-requests'') = ''max-active-requests''"
  "to_lower (trim_space ''max-concurrent-requests'') = ''max-concurrent-requests''"
  "to_lower (trim_space ''served-model-name'') = ''served-model-name''"
  "to_lower (trim_space ''max-model-len'') = ''max-model-len''" "to_lower (trim_space ''max-num-seqs'') = ''max-num-seqs''"
  by code_simp+

lemma subseq_distinct: "subseq xs ys \<Longrightarrow> distinct ys \<Longrightarrow> distinct xs"
proof (induction rule: list_emb.induct)
  case (list_emb_Cons2 x y xs ys)
  have "set xs \<subseteq> set ys" using list_emb_set [OF list_emb_Cons2.hyps(2)] by blast
  with list_emb_Cons2 show ?case by auto
qed auto

lemma parallel_keys: "parallel_param key sel = Inr ps \<Longrightarrow> subseq (map fst ps) [key]"
  by (auto simp: parallel_param_def map_sum_def split: if_splits sum.splits)

lemma context_keys: "context_param env key f sel = Inr ps \<Longrightarrow> subseq (map fst ps) [key]"
  by (auto simp: context_param_def map_sum_def split: if_splits sum.splits)

lemma bind_keys: "bindAddressParams env sel = Inr ps \<Longrightarrow> subseq (map fst ps) [''host'', ''port'']"
  by (auto simp: bindAddressParams_def split: if_splits sum.splits)

lemma named_keys:
  "subseq (map fst (llama_named sel)) [if isModelPath (sel_Model sel) then ''model'' else ''hf'', ''alias'']"
  "subseq (map fst (mtplx_named sel)) [''model'', ''download'', ''model-id'']"
  "subseq (map fst (vllm_named sel)) [''served-model-name'']"
  by (simp_all add: llama_named_def mtplx_named_def vllm_named_def)

text \<open>Flags drawn from a list of flags without repetition have none.\<close>

lemma drawn_keys:
  "subseq ks all \<Longrightarrow> distinct (map f all) \<Longrightarrow> distinct (map f ks)"
  using subseq_distinct subseq_map by blast

lemma after_keys: "after ps r = Inr qs \<Longrightarrow> \<exists>rs. r = Inr rs \<and> map fst qs = map fst ps @ map fst rs"
  by (cases r) (auto simp: after_def)

lemma params_keys:
  assumes "engineFor env provider = Inr engine" and "en_params engine sel = Inr ps"
  shows "distinct (map (CanonicalKey (en_dialect engine)) (map fst ps))"
  using assms(1)
proof (cases rule: engineFor_cases)
  case 1
  let ?f = "\<lambda>n. if llama_slots sel > 0 then wrap64 (n * llama_slots sel) else n"
  from assms(2) 1(2) obtain par ctx where c: "parallel_param ''parallel'' sel = Inr par"
    "context_param env ''ctx-size'' ?f sel = Inr ctx"
    "after (llama_named sel @ par @ ctx) (bindAddressParams env sel) = Inr ps"
    unfolding llamacppServeParams_def by (simp split: sum.splits)
  from after_keys [OF c(3)] obtain rs where rs: "bindAddressParams env sel = Inr rs"
    "map fst ps = map fst (llama_named sel) @ map fst par @ map fst ctx @ map fst rs" by auto
  show ?thesis
    unfolding rs(2) 1(3)
    by (rule drawn_keys [OF list_emb_append_mono [OF named_keys(1) list_emb_append_mono [OF parallel_keys [OF c(1)]
          list_emb_append_mono [OF context_keys [OF c(2)] bind_keys [OF rs(1)]]]]]) simp
next
  case 2
  from assms(2) 2(2) obtain par where c: "parallel_param ''max-concurrent-requests'' sel = Inr par"
    "after par (bindAddressParams env sel) = Inr ps"
    unfolding omlxServeParams_def by (simp split: sum.splits)
  from after_keys [OF c(2)] obtain rs where rs: "bindAddressParams env sel = Inr rs" "map fst ps = map fst par @ map fst rs"
    by auto
  show ?thesis
    unfolding rs(2) 2(3)
    by (rule drawn_keys [OF list_emb_append_mono [OF parallel_keys [OF c(1)] bind_keys [OF rs(1)]]])
       (simp add: OMLX_def key_names)
next
  case 3
  from assms(2) 3(2) obtain par ctx where c: "context_param env ''context-window'' id sel = Inr ctx"
    "parallel_param ''max-active-requests'' sel = Inr par"
    "after (mtplx_named sel @ ctx @ par) (bindAddressParams env sel) = Inr ps"
    unfolding mtplxServeParams_def by (simp split: sum.splits)
  from after_keys [OF c(3)] obtain rs where rs: "bindAddressParams env sel = Inr rs"
    "map fst ps = map fst (mtplx_named sel) @ map fst ctx @ map fst par @ map fst rs" by auto
  show ?thesis
    unfolding rs(2) 3(3)
    by (rule drawn_keys [OF list_emb_append_mono [OF named_keys(2) list_emb_append_mono [OF context_keys [OF c(1)]
          list_emb_append_mono [OF parallel_keys [OF c(2)] bind_keys [OF rs(1)]]]]]) (simp add: MTPLX_def key_names)
next
  case 4
  from assms(2) 4(2) obtain par ctx where c: "context_param env ''max-model-len'' id sel = Inr ctx"
    "parallel_param ''max-num-seqs'' sel = Inr par"
    "after (vllm_named sel @ ctx @ par) (bindAddressParams env sel) = Inr ps"
    unfolding vllmServeParams_def by (simp split: sum.splits)
  from after_keys [OF c(3)] obtain rs where rs: "bindAddressParams env sel = Inr rs"
    "map fst ps = map fst (vllm_named sel) @ map fst ctx @ map fst par @ map fst rs" by auto
  show ?thesis
    unfolding rs(2) 4(3)
    by (rule drawn_keys [OF list_emb_append_mono [OF named_keys(3) list_emb_append_mono [OF context_keys [OF c(1)]
          list_emb_append_mono [OF parallel_keys [OF c(2)] bind_keys [OF rs(1)]]]]]) (simp add: VLLM_def key_names)
qed


section \<open>Where an engine listens\<close>

lemma bind_args_append:
  "bind_args env (xs @ a # v # ys) b = bind_args env (v # ys) (bind_arg env a v (bind_args env (xs @ [a]) b))"
proof (induction xs arbitrary: b)
  case (Cons x xs)
  then show ?case by (cases xs) simp_all
qed simp

lemma bind_arg_frame:
  "a \<noteq> ''--port'' \<Longrightarrow> eb_port (bind_arg env a v b) = eb_port b"
  "a \<noteq> ''--host'' \<Longrightarrow> eb_host (bind_arg env a v b) = eb_host b"
  "a \<noteq> ''--api-key'' \<Longrightarrow> a \<noteq> ''--api-key-file'' \<Longrightarrow> eb_key (bind_arg env a v b) = eb_key b"
  by (simp_all add: bind_arg_def split: option.splits)

lemma bind_args_frame:
  "''--port'' \<notin> set xs \<Longrightarrow> eb_port (bind_args env xs b) = eb_port b"
  "''--host'' \<notin> set xs \<Longrightarrow> eb_host (bind_args env xs b) = eb_host b"
  "''--api-key'' \<notin> set xs \<Longrightarrow> ''--api-key-file'' \<notin> set xs \<Longrightarrow> eb_key (bind_args env xs b) = eb_key b"
  by (induction env xs b rule: bind_args.induct) (auto simp: bind_arg_frame)

text \<open>
  An engine whose command names its port is scraped and advertised at that port, the last one where
  the command names several.
\<close>

theorem stated_port:
  assumes "argv = xs @ [''--port'', show_nat n] @ ys" and "''--port'' \<notin> set ys" and "0 < n" and "n < 2 ^ 63"
  shows "\<exists>host ep. fst (scrapeTargetFor env engine baseURL argv) = ''http://'' @ join_host_port host (show_nat n) \<and>
     (host = eb_host (engineBindFrom env argv) \<or>
      host = ''127.0.0.1'' \<and> (eb_host (engineBindFrom env argv) = '''' \<or> wildcard_host (eb_host (engineBindFrom env argv)))) \<and>
     engineEndpointFor env engine baseURL argv = Some ep \<and> ep_Port ep = int n"
proof -
  have port: "eb_port (engineBindFrom env argv) = show_nat n"
  proof -
    have "show_nat n \<noteq> ''--port''" using show_nat_digits [of "CHR ''-''" n] by (auto simp: is_digit_def)
    with assms(2) show ?thesis
      by (simp add: assms(1) engineBindFrom_def bind_args_append bind_args_frame bind_arg_def)
  qed
  moreover have "parse_int (show_nat n) = Some (int n)"
    using parse_show_int [of "int n"] assms(3,4) by (simp add: show_int_def)
  ultimately show ?thesis
    using assms(3) by (auto simp: scrapeTargetFor_def engineEndpointFor_def bindBaseURL_def Let_def)
qed

text \<open>
  An engine whose command names a host and no port is advertised at the engine's own port and
  scraped at the port of plain HTTP: the two disagree about the same engine, and no sample of its
  counters and no check of its readiness reaches it.
\<close>

theorem host_without_port:
  assumes "eb_port (engineBindFrom env argv) = ''''" and "eb_host (engineBindFrom env argv) = host"
    and "wildcard_host host" and "cl_parse_url env ''http://127.0.0.1:8080'' = Some u" and "up_Port u = ''8080''"
  shows "fst (scrapeTargetFor env (llama_engine env) '''' argv) = ''http://127.0.0.1'' \<and>
     (\<exists>ep. engineEndpointFor env (llama_engine env) '''' argv = Some ep \<and> ep_Port ep = 8080 \<and> \<not> ep_LoopbackOnly ep)"
proof -
  have "parse_int ''8080'' = Some 8080" by code_simp
  with assms show ?thesis
    by (auto simp: scrapeTargetFor_def engineEndpointFor_def bindBaseURL_def bindIsLoopback_def wildcard_host_def Let_def)
qed

section \<open>Examples\<close>

definition demo_cli :: surroundings_cli where
  "demo_cli = \<lparr>cl_parse_url = (\<lambda>_. Some \<lparr>up_Scheme = ''http'', up_Hostname = ''127.0.0.1'', up_Port = ''8080'', up_Path = ''''\<rparr>),
     cl_loopback_ip = (\<lambda>_. None), cl_machine = (\<lambda>_. 0), cl_read_file = (\<lambda>_. None), cl_omlx = None\<rparr>"

definition demo_deploy :: deploy_config where
  "demo_deploy = empty_deploy\<lparr>dc_Runner := ''llamacpp'', dc_ModelID := ''o/m'', dc_ServedModelName := ''m'',
     dc_Parallel := 2, dc_ContextSize := 4096, dc_ServeArgs := [''--jinja'']\<rparr>"

lemma demo_paths: "\<not> isModelPath ''o/m''"
  by code_simp

theorem deploy_command_witness:
  "argvFromDeployConfig (llama_engine demo_cli) demo_deploy =
     Inr [''llama-server'', ''--hf-repo'', ''o/m'', ''--alias'', ''m'', ''--parallel'', show_nat 2, ''--ctx-size'', show_nat 8192, ''--jinja'']"
  using deploy_command [of demo_deploy 2 4096 demo_cli] demo_paths
  by (simp add: demo_deploy_def empty_deploy_def trimmed_def is_space_def)

lemma demo_argv:
  "argvFromDeployConfig (llama_engine demo_cli) demo_deploy =
     Inr [''llama-server'', ''--hf-repo'', ''o/m'', ''--alias'', ''m'', ''--parallel'', show_nat 2, ''--ctx-size'', show_nat 8192, ''--jinja'']"
  using llama_deploy_argv [of demo_deploy 2 4096 demo_cli] demo_paths
  by (simp add: demo_deploy_def empty_deploy_def trimmed_def is_space_def)

definition demo_served :: selection where
  "demo_served = empty_selection\<lparr>sel_Provider := ''llamacpp'', sel_Model := ''o/m'', sel_Parallel := ''2'', sel_Preset := ''p.ini''\<rparr>"

definition demo_preset :: string where
  "demo_preset = concat (map (\<lambda>l. l @ [CHR 0x0A]) [''[m]'', ''np = 8'', ''ctx-size = 4096''])"

lemma demo_params: "llamacppServeParams env demo_served = Inr [(''hf'', ''o/m''), (''parallel'', ''2'')]"
proof -
  have "parseParallel ''2'' = Inr 2" "show_int 2 = ''2''" "\<not> isModelPath ''o/m''" by code_simp+
  then show ?thesis
    by (simp add: demo_served_def empty_selection_def llamacppServeParams_def llama_named_def parallel_param_def
        context_param_def after_def bindAddressParams_def)
qed

lemma demo_preset_read:
  "ParsePreset demo_preset = Inr \<lparr>pr_Global = [], pr_Sections = [\<lparr>ps_Name = ''m'', ps_Params = [(''np'', ''8''), (''ctx-size'', ''4096'')]\<rparr>]\<rparr>"
proof -
  have "scan_lines (1024 * 1024) demo_preset = ([''[m]'', ''np = 8'', ''ctx-size = 4096''], False)"
    unfolding demo_preset_def by (rule scan_lines_concat) (simp add: text_line_def)
  moreover have "preset_lines 1 [''[m]'', ''np = 8'', ''ctx-size = 4096''] (\<lparr>pr_Global = [], pr_Sections = []\<rparr>, None) =
      Inr (\<lparr>pr_Global = [], pr_Sections = [\<lparr>ps_Name = ''m'', ps_Params = [(''np'', ''8''), (''ctx-size'', ''4096'')]\<rparr>]\<rparr>, Some 0)"
    by code_simp
  ultimately show ?thesis by (simp add: ParsePreset_def)
qed


theorem stated_port_witness:
  "\<exists>ep. engineEndpointFor demo_cli (llama_engine demo_cli) '''' [''llama-server'', ''--port'', show_nat 9000] = Some ep \<and>
     ep_Port ep = 9000"
  using stated_port [of "[''llama-server'', ''--port'', show_nat 9000]" "[''llama-server'']" 9000 "[]" demo_cli
      "llama_engine demo_cli" "''''"] by auto

theorem host_without_port_witness:
  "fst (scrapeTargetFor demo_cli (llama_engine demo_cli) '''' [''llama-server'', ''--host'', ''0.0.0.0'']) = ''http://127.0.0.1''"
  using host_without_port [of demo_cli "[''llama-server'', ''--host'', ''0.0.0.0'']" "''0.0.0.0''"
      "\<lparr>up_Scheme = ''http'', up_Hostname = ''127.0.0.1'', up_Port = ''8080'', up_Path = ''''\<rparr>"]
  by (simp add: engineBindFrom_def bind_arg_def demo_cli_def wildcard_host_def)

end
