(* ===== verification/Supervisor.thy ===== *)
theory Supervisor
  imports Prelude
begin

text \<open>
  \<^verbatim>\<open>internal/daemon/supervisor.go\<close>: at most one engine process, started on request, its exit recorded and
  never acted on. A step is one critical section of the supervisor's lock, or something that happens
  outside it: a process that ends, a channel that is closed, a call that returns. Processes are numbered
  in the order of their launch. The capture of the output and the log's records are not part of the
  state; the failures of a launch (the log's directory, the log, the process) are one argument.
\<close>

section \<open>The supervisor\<close>

datatype sup_state = SupIdle | SupRunning | SupStopped | SupCrashed

definition state_text :: "sup_state \<Rightarrow> string" where
  "state_text st =
     (case st of SupIdle \<Rightarrow> ''idle'' | SupRunning \<Rightarrow> ''running''
      | SupStopped \<Rightarrow> ''stopped'' | SupCrashed \<Rightarrow> ''crashed'')"

text \<open>\<open>sv_cmd\<close> is the number of the process launched last; it stands for \<^verbatim>\<open>cmd\<close> and its channel \<^verbatim>\<open>done\<close>.\<close>

record supervisor =
  sv_LogPath :: string
  sv_state :: sup_state
  sv_argv :: "string list"
  sv_started :: int
  sv_stopping :: bool
  sv_cmd :: "nat option"
  sv_waitErr :: "string option"

definition NewSupervisor :: "string \<Rightarrow> supervisor" where
  "NewSupervisor logPath =
     \<lparr>sv_LogPath = logPath, sv_state = SupIdle, sv_argv = [], sv_started = 0, sv_stopping = False,
      sv_cmd = None, sv_waitErr = None\<rparr>"

datatype start_error = EmptyCommand | AlreadyRunning string | LaunchFailed string

text \<open>A start, up to the release of the lock: the refusal, or the supervisor with process \<open>c\<close> launched.\<close>

definition Start_sup ::
  "string list \<Rightarrow> string option \<Rightarrow> int \<Rightarrow> nat \<Rightarrow> supervisor \<Rightarrow> start_error + supervisor" where
  "Start_sup argv fault now c s =
     (if argv = [] then Inl EmptyCommand
      else if sv_state s = SupRunning then Inl (AlreadyRunning (hd (sv_argv s)))
      else (case fault of
          Some e \<Rightarrow> Inl (LaunchFailed e)
        | None \<Rightarrow>
            Inr (s\<lparr>sv_cmd := Some c, sv_argv := argv, sv_state := SupRunning, sv_started := now,
                   sv_stopping := False\<rparr>)))"

text \<open>What the goroutine beside the process records under the lock once the process is gone.\<close>

definition classify_exit :: "string option \<Rightarrow> supervisor \<Rightarrow> supervisor" where
  "classify_exit err s =
     s\<lparr>sv_waitErr := err,
       sv_state := (if sv_stopping s \<or> err = None then SupStopped else SupCrashed)\<rparr>"

text \<open>A stop, up to the release of the lock: the process to end and to wait for, where one runs.\<close>

definition Stop_begin :: "supervisor \<Rightarrow> nat option \<times> supervisor" where
  "Stop_begin s =
     (if sv_state s \<noteq> SupRunning then (None, s) else (sv_cmd s, s\<lparr>sv_stopping := True\<rparr>))"

definition Status_sup :: "int \<Rightarrow> supervisor \<Rightarrow> sup_state \<times> string \<times> int" where
  "Status_sup now s =
     (sv_state s, (case sv_argv s of [] \<Rightarrow> '''' | a # _ \<Rightarrow> a),
      if sv_state s = SupRunning then (now - sv_started s) div 1000000000 else 0)"

text \<open>A wait: the process it is for, and its answer once that process's channel is closed.\<close>

definition Wait_begin :: "supervisor \<Rightarrow> nat option" where
  "Wait_begin s = sv_cmd s"

definition Wait_end :: "supervisor \<Rightarrow> string option" where
  "Wait_end s = sv_waitErr s"

section \<open>The supervisor and its processes\<close>

text \<open>
  \<open>sw_alive\<close>: the processes that run. \<open>sw_gone\<close>: those that ended, with their exit error, and of which
  the goroutine has not taken the lock yet. \<open>sw_unclosed\<close>: those whose exit is recorded and whose
  channel is still open; \<open>sw_done\<close>: those whose channel is closed. \<open>sw_stops\<close>: the processes that calls
  of \<^verbatim>\<open>Stop\<close> and \<^verbatim>\<open>Wait\<close> wait for. \<open>sw_asked\<close> and \<open>sw_log\<close> keep, for the properties, which processes
  a stop was asked for and which exits were recorded.
\<close>

record sup_world =
  sw_sup :: supervisor
  sw_next :: nat
  sw_alive :: "nat list"
  sw_gone :: "(nat \<times> string option) list"
  sw_unclosed :: "nat list"
  sw_done :: "nat list"
  sw_stops :: "nat list"
  sw_asked :: "nat list"
  sw_log :: "(nat \<times> string option) list"

definition sup_begin :: "string \<Rightarrow> sup_world" where
  "sup_begin logPath =
     \<lparr>sw_sup = NewSupervisor logPath, sw_next = 0, sw_alive = [], sw_gone = [], sw_unclosed = [],
      sw_done = [], sw_stops = [], sw_asked = [], sw_log = []\<rparr>"

datatype sup_event =
    EvStart "string list" "string option" int
  | EvExit nat "string option"
  | EvRecord nat
  | EvClose nat
  | EvStop
  | EvReturn nat

inductive sup_step :: "sup_world \<Rightarrow> sup_event \<Rightarrow> sup_world \<Rightarrow> bool" where
  refuse: "Start_sup argv fault now (sw_next w) (sw_sup w) = Inl e \<Longrightarrow>
     sup_step w (EvStart argv fault now) w"
| launch: "Start_sup argv fault now (sw_next w) (sw_sup w) = Inr s \<Longrightarrow>
     sup_step w (EvStart argv fault now)
       (w\<lparr>sw_sup := s, sw_alive := sw_next w # sw_alive w, sw_next := Suc (sw_next w)\<rparr>)"
| exit: "c \<in> set (sw_alive w) \<Longrightarrow>
     sup_step w (EvExit c err)
       (w\<lparr>sw_alive := removeAll c (sw_alive w), sw_gone := (c, err) # sw_gone w\<rparr>)"
| record_exit: "map_of (sw_gone w) c = Some err \<Longrightarrow>
     sup_step w (EvRecord c)
       (w\<lparr>sw_sup := classify_exit err (sw_sup w), sw_gone := filter (\<lambda>(d, _). d \<noteq> c) (sw_gone w),
          sw_unclosed := c # sw_unclosed w, sw_log := (c, err) # sw_log w\<rparr>)"
| close_done: "c \<in> set (sw_unclosed w) \<Longrightarrow>
     sup_step w (EvClose c)
       (w\<lparr>sw_unclosed := removeAll c (sw_unclosed w), sw_done := c # sw_done w\<rparr>)"
| stop_idle: "Stop_begin (sw_sup w) = (None, s) \<Longrightarrow> sup_step w EvStop w"
| stop: "Stop_begin (sw_sup w) = (Some c, s) \<Longrightarrow>
     sup_step w EvStop (w\<lparr>sw_sup := s, sw_stops := c # sw_stops w, sw_asked := c # sw_asked w\<rparr>)"
| return: "c \<in> set (sw_stops w) \<Longrightarrow> c \<in> set (sw_done w) \<Longrightarrow>
     sup_step w (EvReturn c) (w\<lparr>sw_stops := remove1 c (sw_stops w)\<rparr>)"

inductive_cases sup_stepE: "sup_step w ev w'"
inductive_simps sup_step_stop: "sup_step w EvStop w'"
inductive_simps sup_step_return: "sup_step w (EvReturn c) w'"

inductive sup_run :: "sup_world \<Rightarrow> sup_event list \<Rightarrow> sup_world \<Rightarrow> bool" where
  none: "sup_run w [] w"
| more: "sup_run w evs v \<Longrightarrow> sup_step v ev v' \<Longrightarrow> sup_run w (evs @ [ev]) v'"

section \<open>What holds in every reachable state\<close>

definition exit_state :: "nat list \<Rightarrow> nat \<Rightarrow> string option \<Rightarrow> sup_state" where
  "exit_state asked c err = (if c \<in> set asked \<or> err = None then SupStopped else SupCrashed)"

text \<open>The process launched last: alive, gone but not recorded, or recorded.\<close>

definition current_ok :: "sup_world \<Rightarrow> nat \<Rightarrow> bool" where
  "current_ok w c \<longleftrightarrow> c < sw_next w \<and> (\<forall>d \<in> set (sw_asked w). d \<noteq> c \<longrightarrow> d \<in> fst ` set (sw_log w)) \<and>
     (case map_of (sw_log w) c of
        None \<Rightarrow> sv_state (sw_sup w) = SupRunning \<and> sv_argv (sw_sup w) \<noteq> [] \<and>
          sv_stopping (sw_sup w) = (c \<in> set (sw_asked w)) \<and>
          (sw_alive w = [c] \<and> sw_gone w = [] \<or> sw_alive w = [] \<and> (\<exists>err. sw_gone w = [(c, err)]))
      | Some err \<Rightarrow> sv_state (sw_sup w) = exit_state (sw_asked w) c err \<and>
          sw_alive w = [] \<and> sw_gone w = [])"

definition sup_inv :: "sup_world \<Rightarrow> bool" where
  "sup_inv w \<longleftrightarrow>
     (\<forall>c \<in> set (sw_asked w) \<union> fst ` set (sw_log w). c < sw_next w) \<and>
     set (sw_unclosed w) \<union> set (sw_done w) = fst ` set (sw_log w) \<and>
     set (sw_stops w) \<subseteq> set (sw_asked w) \<and>
     (case sv_cmd (sw_sup w) of
        None \<Rightarrow> sv_state (sw_sup w) = SupIdle \<and> sw_alive w = [] \<and> sw_gone w = [] \<and>
          sw_log w = [] \<and> sw_asked w = []
      | Some c \<Rightarrow> current_ok w c)"

lemma sup_inv_begin: "sup_inv (sup_begin p)"
  by (simp add: sup_inv_def sup_begin_def NewSupervisor_def)

lemma exit_state_not_running [simp]: "exit_state asked c err \<noteq> SupRunning"
  by (simp add: exit_state_def)

lemma Start_sup_Inr:
  "Start_sup argv fault now c s = Inr s' \<longleftrightarrow>
     argv \<noteq> [] \<and> sv_state s \<noteq> SupRunning \<and> fault = None \<and>
     s' = s\<lparr>sv_cmd := Some c, sv_argv := argv, sv_state := SupRunning, sv_started := now, sv_stopping := False\<rparr>"
  by (auto simp: Start_sup_def split: option.splits)

lemma map_of_fresh: "(\<forall>c \<in> fst ` set xs. c < n) \<Longrightarrow> map_of xs (n :: nat) = None"
  by (force simp: map_of_eq_None_iff)

lemma sup_inv_launch:
  assumes "sup_inv w" and "Start_sup argv fault now (sw_next w) (sw_sup w) = Inr s"
  shows "sup_inv (w\<lparr>sw_sup := s, sw_alive := sw_next w # sw_alive w, sw_next := Suc (sw_next w)\<rparr>)"
proof -
  have bound: "\<forall>c \<in> set (sw_asked w) \<union> fst ` set (sw_log w). c < sw_next w" using assms(1) by (simp add: sup_inv_def)
  then have fresh: "map_of (sw_log w) (sw_next w) = None" "sw_next w \<notin> set (sw_asked w)"
    by (force simp: map_of_eq_None_iff)+
  have idle: "sw_alive w = [] \<and> sw_gone w = [] \<and> (\<forall>d \<in> set (sw_asked w). d \<in> fst ` set (sw_log w))"
  proof (cases "sv_cmd (sw_sup w)")
    case None
    with assms(1) show ?thesis by (simp add: sup_inv_def)
  next
    case (Some c)
    with assms have ok: "current_ok w c" and "sv_state (sw_sup w) \<noteq> SupRunning"
      by (simp_all add: sup_inv_def Start_sup_Inr)
    then obtain err where "map_of (sw_log w) c = Some err"
      by (auto simp: current_ok_def split: option.splits)
    moreover from this have "c \<in> fst ` set (sw_log w)" by (force dest: map_of_SomeD)
    ultimately show ?thesis
      using ok by (auto simp: current_ok_def)
  qed
  from assms idle fresh bound show ?thesis
    by (simp add: sup_inv_def current_ok_def Start_sup_Inr less_SucI)
qed

lemma sup_inv_record:
  assumes "sup_inv w" and "map_of (sw_gone w) c = Some err"
  shows "sup_inv (w\<lparr>sw_sup := classify_exit err (sw_sup w), sw_gone := filter (\<lambda>(d, _). d \<noteq> c) (sw_gone w),
          sw_unclosed := c # sw_unclosed w, sw_log := (c, err) # sw_log w\<rparr>)"
proof -
  have "sv_cmd (sw_sup w) = Some c" and "map_of (sw_log w) c = None" and "sw_gone w = [(c, err)]"
    using assms by (auto simp: sup_inv_def current_ok_def split: option.splits if_splits)
  with assms show ?thesis
    by (auto simp: sup_inv_def current_ok_def classify_exit_def exit_state_def)
qed

lemma sup_inv_step: "sup_step w ev w' \<Longrightarrow> sup_inv w \<Longrightarrow> sup_inv w'"
proof (induction rule: sup_step.cases)
  case (launch w argv fault now s)
  then show ?case by (simp only: sup_inv_launch)
next
  case (exit c w err)
  then show ?case by (auto simp: sup_inv_def current_ok_def split: option.splits)
next
  case (record_exit w c err)
  then show ?case by (simp add: sup_inv_record)
next
  case (close_done c w)
  then show ?case by (auto simp: sup_inv_def current_ok_def split: option.splits)
next
  case (stop w c s)
  then have "sv_state (sw_sup w) = SupRunning" "sv_cmd (sw_sup w) = Some c"
    and s: "s = (sw_sup w)\<lparr>sv_stopping := True\<rparr>"
    by (auto simp: Stop_begin_def split: if_splits)
  moreover from this stop have "map_of (sw_log w) c = None"
    by (auto simp: sup_inv_def current_ok_def split: option.splits)
  ultimately show ?case
    using stop by (simp add: sup_inv_def current_ok_def) blast
next
  case (return c w)
  then show ?case
    by (auto simp: sup_inv_def current_ok_def split: option.splits dest!: set_remove1_subset [THEN subsetD])
qed simp_all

lemma sup_inv_run: "sup_run w evs w' \<Longrightarrow> sup_inv w \<Longrightarrow> sup_inv w'"
  by (induction rule: sup_run.induct) (auto intro: sup_inv_step)

text \<open>
  C4: however starts, stops, exits and the recording of exits interleave, at most one engine process
  lives, and while one lives the supervisor is running and that process is the one it launched last.
\<close>

theorem one_engine:
  assumes "sup_run (sup_begin logPath) evs w"
  shows "length (sw_alive w) \<le> 1 \<and>
     (\<forall>c. c \<in> set (sw_alive w) \<longrightarrow> sv_state (sw_sup w) = SupRunning \<and> sv_cmd (sw_sup w) = Some c)"
proof -
  have "sup_inv w" using assms sup_inv_begin by (rule sup_inv_run)
  then show ?thesis
    by (auto simp: sup_inv_def current_ok_def split: option.splits)
qed

definition accepted_starts :: "sup_event list \<Rightarrow> sup_world \<Rightarrow> bool" where
  "accepted_starts evs w \<longleftrightarrow>
     sw_next w \<le> length (filter (\<lambda>ev. \<exists>argv now. ev = EvStart argv None now \<and> argv \<noteq> []) evs)"

lemma accepted_starts_run: "sup_run w0 evs w \<Longrightarrow> sw_next w0 = 0 \<Longrightarrow> accepted_starts evs w"
  by (induction rule: sup_run.induct)
     (auto simp: accepted_starts_def Start_sup_Inr elim!: sup_stepE)

lemma state_spec:
  assumes "sup_inv w"
  shows "sv_state (sw_sup w) =
     (case sv_cmd (sw_sup w) of
        None \<Rightarrow> SupIdle
      | Some c \<Rightarrow> (case map_of (sw_log w) c of None \<Rightarrow> SupRunning | Some err \<Rightarrow> exit_state (sw_asked w) c err))"
  using assms by (auto simp: sup_inv_def current_ok_def split: option.splits)

text \<open>
  C17: the state reported is a function of what happened to the process launched last: idle where there
  was none, running until its exit is recorded, stopped where it ended without an error or a stop was
  asked for it, crashed exactly where it ended with an error that nobody asked for. No exit is followed
  by a launch of the supervisor's own: the processes launched are those of the accepted starts.
\<close>

theorem engine_state:
  assumes "sup_run (sup_begin logPath) evs w"
  shows "sv_state (sw_sup w) =
     (case sv_cmd (sw_sup w) of
        None \<Rightarrow> SupIdle
      | Some c \<Rightarrow>
          (case map_of (sw_log w) c of
             None \<Rightarrow> SupRunning
           | Some err \<Rightarrow> if c \<in> set (sw_asked w) \<or> err = None then SupStopped else SupCrashed)) \<and>
     accepted_starts evs w"
  using state_spec [OF sup_inv_run [OF assms sup_inv_begin]] accepted_starts_run [OF assms]
  by (simp add: exit_state_def sup_begin_def cong: option.case_cong)

section \<open>Stopping\<close>

lemma sup_run_append: "sup_run w evs v \<Longrightarrow> sup_run v evs' v' \<Longrightarrow> sup_run w (evs @ evs') v'"
  by (rotate_tac, induction rule: sup_run.induct)
     (auto intro: sup_run.more simp flip: append_assoc)

text \<open>The events that end a process and make its end known, from wherever it stands.\<close>

definition wind_up :: "sup_world \<Rightarrow> nat \<Rightarrow> sup_event list" where
  "wind_up w c =
     (if c \<in> set (sw_alive w) then [EvExit c (Some ''killed''), EvRecord c, EvClose c]
      else if c \<in> fst ` set (sw_gone w) then [EvRecord c, EvClose c]
      else if c \<in> set (sw_unclosed w) then [EvClose c] else [])"


lemma stopped_process:
  assumes "sup_inv w" and "c \<in> set (sw_stops w)"
  shows "c \<in> set (sw_asked w) \<and> (c \<in> fst ` set (sw_log w) \<or> sv_cmd (sw_sup w) = Some c \<and> map_of (sw_log w) c = None)"
proof (cases "sv_cmd (sw_sup w)")
  case None
  with assms show ?thesis by (auto simp: sup_inv_def)
next
  case (Some d)
  with assms have "current_ok w d" "c \<in> set (sw_asked w)" by (auto simp: sup_inv_def)
  with Some show ?thesis
    by (cases "c = d") (auto simp: current_ok_def map_of_eq_None_iff)
qed

lemma recorded_not_alive:
  assumes "sup_inv w" and "c \<in> fst ` set (sw_log w)"
  shows "c \<notin> set (sw_alive w) \<and> c \<notin> fst ` set (sw_gone w)"
proof (cases "sv_cmd (sw_sup w)")
  case None
  with assms show ?thesis by (simp add: sup_inv_def)
next
  case (Some d)
  with assms have d: "current_ok w d" by (simp add: sup_inv_def)
  show ?thesis
  proof (cases "map_of (sw_log w) d")
    case None
    with assms(2) have "c \<noteq> d" by (auto simp: map_of_eq_None_iff)
    with d None show ?thesis by (auto simp: current_ok_def)
  qed (use d in \<open>simp add: current_ok_def\<close>)
qed

lemma wind_up_ends:
  assumes "sup_inv w" and "c \<in> fst ` set (sw_log w) \<or> sv_cmd (sw_sup w) = Some c \<and> map_of (sw_log w) c = None"
  shows "\<exists>w'. sup_run w (wind_up w c) w' \<and> c \<in> set (sw_done w') \<and> sw_stops w' = sw_stops w"
proof -
  have closed: "\<exists>w'. sup_run v [EvClose c] w' \<and> c \<in> set (sw_done w') \<and> sw_stops w' = sw_stops v"
    if "c \<in> set (sw_unclosed v)" for v
    using sup_run.more [OF sup_run.none sup_step.close_done [OF that]] by fastforce
  have recorded: "\<exists>w'. sup_run v [EvRecord c, EvClose c] w' \<and> c \<in> set (sw_done w') \<and> sw_stops w' = sw_stops v"
    if "map_of (sw_gone v) c = Some err" for v err
  proof -
    let ?v = "v\<lparr>sw_sup := classify_exit err (sw_sup v), sw_gone := filter (\<lambda>(d, _). d \<noteq> c) (sw_gone v),
          sw_unclosed := c # sw_unclosed v, sw_log := (c, err) # sw_log v\<rparr>"
    from closed [of ?v] obtain w' where "sup_run ?v [EvClose c] w'" "c \<in> set (sw_done w')" "sw_stops w' = sw_stops v"
      by auto
    with sup_run_append [OF sup_run.more [OF sup_run.none sup_step.record_exit [OF that]]]
    show ?thesis by fastforce
  qed
  consider "c \<in> fst ` set (sw_log w)" | err where "sw_gone w = [(c, err)]" "sw_alive w = []" | "sw_alive w = [c]" "sw_gone w = []"
    using assms by (auto simp: sup_inv_def current_ok_def split: option.splits)
  then show ?thesis
  proof cases
    case 1
    with assms(1) have "c \<in> set (sw_unclosed w) \<union> set (sw_done w)" by (simp add: sup_inv_def)
    with closed recorded_not_alive [OF assms(1) 1] show ?thesis
      by (auto simp: wind_up_def intro: sup_run.none)
  next
    case 2
    with recorded [of w err] show ?thesis by (simp add: wind_up_def)
  next
    case 3
    let ?v = "w\<lparr>sw_alive := removeAll c (sw_alive w), sw_gone := (c, Some ''killed'') # sw_gone w\<rparr>"
    from recorded [of ?v "Some ''killed''"] obtain w' where
      "sup_run ?v [EvRecord c, EvClose c] w'" "c \<in> set (sw_done w')" "sw_stops w' = sw_stops w"
      by auto
    with sup_run_append [OF sup_run.more [OF sup_run.none sup_step.exit [of c w "Some ''killed''"]], of "[EvRecord c, EvClose c]" w'] 3
    show ?thesis by (fastforce simp: wind_up_def)
  qed
qed


section \<open>Small runs\<close>

definition demo_stop :: "sup_event list" where
  "demo_stop = [EvStart [''engine'', ''--port''] None 5, EvStop]"

lemmas sup_evaluation = sup_begin_def NewSupervisor_def Start_sup_def Stop_begin_def classify_exit_def

lemma demo_stop_run:
  "\<exists>w. sup_run (sup_begin ''log'') demo_stop w \<and> sw_stops w = [0] \<and> sw_alive w = [0] \<and>
     sv_cmd (sw_sup w) = Some 0 \<and> sw_log w = []"
proof -
  have "sup_step (sup_begin ''log'') (EvStart [''engine'', ''--port''] None 5)
      ((sup_begin ''log'')\<lparr>sw_sup := \<lparr>sv_LogPath = ''log'', sv_state = SupRunning, sv_argv = [''engine'', ''--port''],
         sv_started = 5, sv_stopping = False, sv_cmd = Some 0, sv_waitErr = None\<rparr>, sw_alive := [0], sw_next := 1\<rparr>)"
    (is "sup_step _ _ ?v")
    using sup_step.launch [of "[''engine'', ''--port'']" None 5 "sup_begin ''log''"]
    by (simp add: sup_evaluation)
  moreover have "sup_step ?v EvStop (?v\<lparr>sw_sup := (sw_sup ?v)\<lparr>sv_stopping := True\<rparr>, sw_stops := [0], sw_asked := [0]\<rparr>)"
    using sup_step.stop [of ?v 0] by (simp add: sup_evaluation)
  ultimately have "sup_run (sup_begin ''log'') demo_stop
      (?v\<lparr>sw_sup := (sw_sup ?v)\<lparr>sv_stopping := True\<rparr>, sw_stops := [0], sw_asked := [0]\<rparr>)"
    using sup_run.more [OF sup_run.more [OF sup_run.none]] by (fastforce simp: demo_stop_def)
  then show ?thesis by - (rule exI, rule conjI, assumption, simp add: sup_begin_def)
qed

theorem one_engine_witness:
  "\<exists>w. sup_run (sup_begin ''log'') demo_stop w \<and> sw_alive w = [0] \<and> sv_state (sw_sup w) = SupRunning"
proof -
  from demo_stop_run obtain w where w: "sup_run (sup_begin ''log'') demo_stop w" "sw_alive w = [0]" by blast
  with one_engine [OF w(1)] show ?thesis by auto
qed

theorem engine_state_witness:
  "\<exists>w. sup_run (sup_begin ''log'') demo_stop w \<and> sv_state (sw_sup w) = SupRunning"
proof -
  from demo_stop_run obtain w where w: "sup_run (sup_begin ''log'') demo_stop w" "sv_cmd (sw_sup w) = Some 0" "sw_log w = []"
    by blast
  with engine_state [OF w(1)] show ?thesis by auto
qed


end
