(* ===== verification/Readings.thy ===== *)
theory Readings
  imports Prelude
begin

text \<open>
  What the daemon keeps of its engine's counters, readiness, speed, activity and host figures:
  \<^verbatim>\<open>internal/daemon/activity.go\<close>, \<^verbatim>\<open>readiness.go\<close>, \<^verbatim>\<open>speed.go\<close> and \<^verbatim>\<open>history.go\<close>, with the types of
  \<^verbatim>\<open>internal/metrics/metrics.go\<close>. Each holder is a value behind one mutex, so each of its methods is a
  function on that value. Times are nanoseconds; the zero \<^verbatim>\<open>time.Time\<close> is 0, before every reading of the
  clock. A floating point figure is a value of the type \<^typ>\<open>'f\<close>; the one computation on them, a percentage,
  is an argument.
\<close>

section \<open>The figures\<close>

record token_stats =
  tk_Running :: int
  tk_Counter :: int
  tk_PromptTokens :: int
  tk_GenerationTokens :: int
  tk_Requests :: "int option"

record gpu_stat =
  gs_Index :: int
  gs_Name :: string
  gs_Utilization :: int
  gs_MemoryUsed :: int
  gs_MemoryTotal :: int
  gs_Temperature :: int

record memory_stat =
  ms_Total :: int
  ms_Used :: int

record 'f history_gpu =
  hg_Index :: int
  hg_Util :: int
  hg_Mem :: "'f option"

record 'f history_sample =
  hs_Time :: int
  hs_CPU :: "'f option"
  hs_Mem :: "'f option"
  hs_Speed :: "'f option"
  hs_GPUs :: "'f history_gpu list"

record 'f host_figures =
  hf_GPUs :: "gpu_stat list"
  hf_CPU :: "'f option"
  hf_Memory :: "memory_stat option"
  hf_Errors :: "string list"

record 'f stats =
  st_EngineState :: string
  st_Runner :: string
  st_ModelID :: string
  st_ServedName :: string
  st_UptimeSeconds :: int
  st_Tokens :: "token_stats option"
  st_GPUs :: "gpu_stat list"
  st_CPU :: "'f option"
  st_Memory :: "memory_stat option"
  st_Errors :: "string list"
  st_Speed :: "'f option"
  st_History :: "'f history_sample list"
  st_LastActiveAt :: string
  st_IdleSeconds :: int
  st_Ready :: string

section \<open>Readings that are recorded, read and forgotten\<close>

text \<open>
  What every holder of one reading promises: a read gives the reading recorded last, and nothing after
  it was forgotten.
\<close>

datatype 'v cell_op = Recorded 'v | Forgotten

locale reading_cell =
  fixes put :: "'v \<Rightarrow> 'c \<Rightarrow> 'c" and get :: "'c \<Rightarrow> 'v option" and drop_it :: "'c \<Rightarrow> 'c"
  assumes get_put: "get (put v c) = Some v"
    and get_drop: "get (drop_it c) = None"
begin

definition apply_op :: "'v cell_op \<Rightarrow> 'c \<Rightarrow> 'c" where
  "apply_op op c = (case op of Recorded v \<Rightarrow> put v c | Forgotten \<Rightarrow> drop_it c)"

lemma get_last: "get (fold apply_op (ops @ [Recorded v]) c) = Some v"
  by (simp add: apply_op_def get_put)

lemma get_forgotten: "get (fold apply_op (ops @ [Forgotten]) c) = None"
  by (simp add: apply_op_def get_drop)

text \<open>A reading that is there was recorded after everything that was forgotten.\<close>

lemma get_recorded:
  "get (fold apply_op ops c) = Some v \<Longrightarrow> get c = None \<Longrightarrow> ops \<noteq> [] \<and> last ops = Recorded v"
proof (induction ops rule: rev_induct)
  case (snoc op ops)
  then show ?case by (cases op) (simp_all add: apply_op_def get_put get_drop)
qed simp

end

record engine_sample =
  es_tokens :: "token_stats option"
  es_err :: "string option"
  es_baseURL :: string
  es_have :: bool

definition record_sample :: "token_stats option \<times> string option \<times> string \<Rightarrow> engine_sample \<Rightarrow> engine_sample" where
  "record_sample = (\<lambda>(tokens, err, baseURL) e.
     e\<lparr>es_tokens := tokens, es_err := err, es_baseURL := baseURL, es_have := True\<rparr>)"

definition read_sample :: "engine_sample \<Rightarrow> token_stats option \<times> string option \<times> string" where
  "read_sample e = (if \<not> es_have e then (None, None, '''') else (es_tokens e, es_err e, es_baseURL e))"

definition haveTokens :: "engine_sample \<Rightarrow> bool" where
  "haveTokens e \<longleftrightarrow> es_tokens e \<noteq> None"

definition forget_sample :: "engine_sample \<Rightarrow> engine_sample" where
  "forget_sample e = e\<lparr>es_tokens := None, es_err := None, es_baseURL := '''', es_have := False\<rparr>"

interpretation sample_cell: reading_cell record_sample "\<lambda>e. if es_have e then Some (read_sample e) else None" forget_sample
  by unfold_locales (auto simp: record_sample_def read_sample_def forget_sample_def)

record readiness =
  rd_ready :: bool
  rd_have :: bool

definition record_ready :: "bool \<Rightarrow> readiness \<Rightarrow> readiness" where
  "record_ready b r = r\<lparr>rd_ready := b, rd_have := True\<rparr>"

definition read_ready :: "readiness \<Rightarrow> bool \<times> bool" where
  "read_ready r = (rd_ready r, rd_have r)"

definition forget_ready :: "readiness \<Rightarrow> readiness" where
  "forget_ready r = r\<lparr>rd_ready := False, rd_have := False\<rparr>"

interpretation ready_cell: reading_cell record_ready
    "\<lambda>r. if snd (read_ready r) then Some (fst (read_ready r)) else None" forget_ready
  by unfold_locales (auto simp: record_ready_def read_ready_def forget_ready_def)

definition readinessCheckedRunners :: "string list" where
  "readinessCheckedRunners = [''llamacpp'', ''vllm'', ''mtplx'']"

record 'f system_sample =
  sy_reading :: "'f host_figures"
  sy_have :: bool

definition no_figures :: "'f host_figures" where
  "no_figures = \<lparr>hf_GPUs = [], hf_CPU = None, hf_Memory = None, hf_Errors = []\<rparr>"

definition record_system :: "'f host_figures \<Rightarrow> 'f system_sample \<Rightarrow> 'f system_sample" where
  "record_system figures s = s\<lparr>sy_reading := figures, sy_have := True\<rparr>"

definition apply_system :: "'f system_sample \<Rightarrow> 'f stats \<Rightarrow> 'f stats" where
  "apply_system s stats =
     (if \<not> sy_have s then stats
      else stats\<lparr>st_GPUs := hf_GPUs (sy_reading s), st_CPU := hf_CPU (sy_reading s),
                 st_Memory := hf_Memory (sy_reading s), st_Errors := st_Errors stats @ hf_Errors (sy_reading s)\<rparr>)"

definition forget_system :: "'f system_sample \<Rightarrow> 'f system_sample" where
  "forget_system s = s\<lparr>sy_reading := no_figures, sy_have := False\<rparr>"

interpretation system_cell: reading_cell record_system
    "\<lambda>s. if sy_have s then Some (sy_reading s) else None" forget_system
  by unfold_locales (auto simp: record_system_def forget_system_def)

section \<open>The engine's own account of its speed\<close>

record 'f engine_speed =
  sp_value :: "'f option"
  sp_observed :: int
  sp_lastTick :: int

definition observe_speed :: "'f \<times> int \<Rightarrow> 'f engine_speed \<Rightarrow> 'f engine_speed" where
  "observe_speed = (\<lambda>(v, now) s. s\<lparr>sp_value := Some v, sp_observed := now\<rparr>)"

definition sampleTick :: "int \<Rightarrow> 'f engine_speed \<Rightarrow> 'f option \<times> 'f engine_speed" where
  "sampleTick now s =
     (if sp_lastTick s < sp_observed s then sp_value s else None, s\<lparr>sp_lastTick := now\<rparr>)"

definition current_speed :: "int \<Rightarrow> int \<Rightarrow> 'f engine_speed \<Rightarrow> 'f option" where
  "current_speed now staleAfter s =
     (if sp_value s = None \<or> now - sp_observed s > staleAfter then None else sp_value s)"

definition forget_speed :: "'f engine_speed \<Rightarrow> 'f engine_speed" where
  "forget_speed s = s\<lparr>sp_value := None, sp_observed := 0, sp_lastTick := 0\<rparr>"

interpretation speed_cell: reading_cell observe_speed
    "\<lambda>s. map_option (\<lambda>v. (v, sp_observed s)) (sp_value s)" forget_speed
  by unfold_locales (auto simp: observe_speed_def forget_speed_def)

definition DefaultSampleInterval :: int where
  "DefaultSampleInterval = 15 * 1000000000"

definition speedStaleAfter :: "int \<Rightarrow> int" where
  "speedStaleAfter sampleInterval = (if sampleInterval > 0 then sampleInterval else DefaultSampleInterval)"

text \<open>
  Figures and ticks in the order of the clock: a tick's point is the figure that came last since the
  tick before, and there is none where none came.
\<close>

datatype 'f speed_event = Figure 'f int | Tick int

fun speed_time :: "'f speed_event \<Rightarrow> int" where
  "speed_time (Figure v t) = t"
| "speed_time (Tick t) = t"

fun speed_step :: "'f speed_event \<Rightarrow> 'f option list \<times> 'f engine_speed \<Rightarrow> 'f option list \<times> 'f engine_speed" where
  "speed_step (Figure v t) (points, s) = (points, observe_speed (v, t) s)"
| "speed_step (Tick t) (points, s) = (case sampleTick t s of (p, s') \<Rightarrow> (points @ [p], s'))"

fun expected_points :: "'f option \<Rightarrow> 'f speed_event list \<Rightarrow> 'f option list" where
  "expected_points seen [] = []"
| "expected_points seen (Figure v t # evs) = expected_points (Some v) evs"
| "expected_points seen (Tick t # evs) = seen # expected_points None evs"

lemma speed_points:
  assumes "sorted_wrt (<) (map speed_time evs)" and "\<forall>ev \<in> set evs. max (sp_observed s) (sp_lastTick s) < speed_time ev"
    and "seen = (if sp_lastTick s < sp_observed s then sp_value s else None)"
  shows "fst (fold speed_step evs (points, s)) = points @ expected_points seen evs"
  using assms
proof (induction evs arbitrary: s seen points)
  case (Cons ev evs)
  show ?case
  proof (cases ev)
    case (Figure v t)
    with Cons show ?thesis by (simp add: observe_speed_def)
  next
    case (Tick t)
    with Cons show ?thesis
      by (simp add: sampleTick_def)
  qed
qed simp

section \<open>Activity\<close>

record activity =
  ac_lastActive :: "int option"
  ac_lastCounter :: "int option"

definition observe :: "token_stats option \<Rightarrow> int \<Rightarrow> activity \<Rightarrow> activity" where
  "observe tokens now a =
     (case tokens of
        None \<Rightarrow> a
      | Some tk \<Rightarrow>
          (let moved = (case ac_lastCounter a of None \<Rightarrow> False | Some n \<Rightarrow> tk_Counter tk \<noteq> n);
               a' = a\<lparr>ac_lastCounter := Some (tk_Counter tk)\<rparr>
           in if tk_Running tk > 0 \<or> moved then a'\<lparr>ac_lastActive := Some now\<rparr> else a'))"

definition markActive :: "int \<Rightarrow> activity \<Rightarrow> activity" where
  "markActive now a = a\<lparr>ac_lastActive := Some now, ac_lastCounter := None\<rparr>"

definition snapshot_activity :: "activity \<Rightarrow> int option" where
  "snapshot_activity a = ac_lastActive a"

definition no_activity :: activity where
  "no_activity = \<lparr>ac_lastActive = None, ac_lastCounter = None\<rparr>"

datatype activity_event = Sampled "token_stats option" int | EngineStarted int

fun activity_step :: "activity_event \<Rightarrow> activity \<Rightarrow> activity" where
  "activity_step (Sampled tokens now) a = observe tokens now a"
| "activity_step (EngineStarted now) a = markActive now a"

fun event_time :: "activity_event \<Rightarrow> int" where
  "event_time (Sampled tokens now) = now"
| "event_time (EngineStarted now) = now"

text \<open>
  Whether an event is work after the events before it: a start is, and a sample that sees requests
  running or a counter other than that of the last sample that succeeded, where there was one since the
  last start.
\<close>

definition failed_sample :: "activity_event \<Rightarrow> bool" where
  "failed_sample ev \<longleftrightarrow> (\<exists>t. ev = Sampled None t)"

definition baseline :: "activity_event list \<Rightarrow> int \<Rightarrow> bool" where
  "baseline evs n \<longleftrightarrow>
     (\<exists>before tk t after. evs = before @ Sampled (Some tk) t # after \<and> tk_Counter tk = n \<and>
        list_all failed_sample after)"

definition is_work :: "activity_event list \<Rightarrow> activity_event \<Rightarrow> bool" where
  "is_work before ev \<longleftrightarrow>
     (case ev of
        EngineStarted t \<Rightarrow> True
      | Sampled None t \<Rightarrow> False
      | Sampled (Some tk) t \<Rightarrow> tk_Running tk > 0 \<or> (\<exists>n. baseline before n \<and> n \<noteq> tk_Counter tk))"

lemma baseline_Nil [simp]: "\<not> baseline [] n"
  by (simp add: baseline_def)

lemma baseline_snoc [simp]:
  "baseline (evs @ [EngineStarted t]) n \<longleftrightarrow> False"
  "baseline (evs @ [Sampled (Some tk) t]) n \<longleftrightarrow> tk_Counter tk = n"
  "baseline (evs @ [Sampled None t]) n \<longleftrightarrow> baseline evs n"
proof -
  have split: "baseline (evs @ [ev]) n \<longleftrightarrow>
      (\<exists>tk t. ev = Sampled (Some tk) t \<and> tk_Counter tk = n) \<or> failed_sample ev \<and> baseline evs n" for ev
  proof
    assume "baseline (evs @ [ev]) n"
    then obtain before tk t after where "evs @ [ev] = before @ Sampled (Some tk) t # after"
      and "tk_Counter tk = n" "list_all failed_sample after"
      unfolding baseline_def by blast
    then show "(\<exists>tk t. ev = Sampled (Some tk) t \<and> tk_Counter tk = n) \<or> failed_sample ev \<and> baseline evs n"
      by (cases after rule: rev_cases) (auto simp: baseline_def)
  next
    assume "(\<exists>tk t. ev = Sampled (Some tk) t \<and> tk_Counter tk = n) \<or> failed_sample ev \<and> baseline evs n"
    then show "baseline (evs @ [ev]) n"
    proof (elim disjE exE conjE)
      fix tk t assume "ev = Sampled (Some tk) t" "tk_Counter tk = n"
      then show ?thesis by (force simp: baseline_def)
    next
      assume "failed_sample ev" "baseline evs n"
      then obtain before tk t after where "evs = before @ Sampled (Some tk) t # after"
        and "tk_Counter tk = n" "list_all failed_sample (after @ [ev])"
        by (auto simp: baseline_def)
      then show ?thesis
        unfolding baseline_def by (metis append.assoc append_Cons)
    qed
  qed
  show "baseline (evs @ [EngineStarted t]) n \<longleftrightarrow> False"
    "baseline (evs @ [Sampled (Some tk) t]) n \<longleftrightarrow> tk_Counter tk = n"
    "baseline (evs @ [Sampled None t]) n \<longleftrightarrow> baseline evs n"
    by (simp_all add: split failed_sample_def)
qed

lemma baseline_state:
  "ac_lastCounter (fold activity_step evs no_activity) = Some n \<longleftrightarrow> baseline evs n"
proof (induction evs arbitrary: n rule: rev_induct)
  case (snoc ev evs)
  show ?case
  proof (cases ev)
    case (Sampled tokens t)
    with snoc show ?thesis by (cases tokens) (simp_all add: observe_def Let_def)
  qed (simp add: markActive_def)
qed (simp add: no_activity_def)

lemma work_state:
  "ac_lastActive (activity_step ev (fold activity_step evs no_activity)) =
     (if is_work evs ev then Some (event_time ev) else ac_lastActive (fold activity_step evs no_activity))"
proof (cases ev)
  case (Sampled tokens t)
  show ?thesis
  proof (cases tokens)
    case (Some tk)
    with Sampled show ?thesis
      by (cases "ac_lastCounter (fold activity_step evs no_activity)")
         (auto simp: observe_def is_work_def Let_def simp flip: baseline_state)
  qed (simp add: Sampled observe_def is_work_def)
qed (simp add: markActive_def is_work_def)

definition last_work :: "activity_event list \<Rightarrow> int \<Rightarrow> bool" where
  "last_work evs t \<longleftrightarrow>
     (\<exists>i < length evs. event_time (evs ! i) = t \<and> is_work (take i evs) (evs ! i) \<and>
        (\<forall>j. i < j \<and> j < length evs \<longrightarrow> \<not> is_work (take j evs) (evs ! j)))"

lemma last_work_snoc:
  "last_work (evs @ [ev]) t \<longleftrightarrow> (if is_work evs ev then event_time ev = t else last_work evs t)"
proof (cases "is_work evs ev")
  case True
  have "last_work (evs @ [ev]) t" if "event_time ev = t"
    using True that unfolding last_work_def by (intro exI [of _ "length evs"]) auto
  moreover have "event_time ev = t" if "last_work (evs @ [ev]) t"
  proof -
    from that obtain i where i: "i < Suc (length evs)" "event_time ((evs @ [ev]) ! i) = t"
      "\<forall>j. i < j \<and> j < Suc (length evs) \<longrightarrow> \<not> is_work (take j (evs @ [ev])) ((evs @ [ev]) ! j)"
      by (auto simp: last_work_def)
    with True i(3) [rule_format, of "length evs"] have "i = length evs" by force
    with i(2) show ?thesis by simp
  qed
  ultimately show ?thesis using True by auto
next
  case False
  have "last_work evs t" if "last_work (evs @ [ev]) t"
  proof -
    from that obtain i where i: "i < Suc (length evs)" "event_time ((evs @ [ev]) ! i) = t"
      "is_work (take i (evs @ [ev])) ((evs @ [ev]) ! i)"
      "\<forall>j. i < j \<and> j < Suc (length evs) \<longrightarrow> \<not> is_work (take j (evs @ [ev])) ((evs @ [ev]) ! j)"
      by (auto simp: last_work_def)
    with False have "i < length evs" by (cases "i = length evs") auto
    moreover have "\<not> is_work (take j evs) (evs ! j)" if "i < j" "j < length evs" for j
      using i(4) [rule_format, of j] that by (simp add: nth_append)
    ultimately show ?thesis
      using i(2,3) unfolding last_work_def by (auto simp: nth_append)
  qed
  moreover have "last_work (evs @ [ev]) t" if "last_work evs t"
  proof -
    from that obtain i where i: "i < length evs" "event_time (evs ! i) = t" "is_work (take i evs) (evs ! i)"
      "\<forall>j. i < j \<and> j < length evs \<longrightarrow> \<not> is_work (take j evs) (evs ! j)"
      by (auto simp: last_work_def)
    have "\<not> is_work (take j (evs @ [ev])) ((evs @ [ev]) ! j)" if "i < j" "j < Suc (length evs)" for j
      using i(4) that False by (cases "j = length evs") (auto simp: nth_append)
    then show ?thesis
      using i(1-3) unfolding last_work_def by (intro exI [of _ i]) (auto simp: nth_append)
  qed
  ultimately show ?thesis using False by auto
qed

lemma last_work_state:
  "ac_lastActive (fold activity_step evs no_activity) = Some t \<longleftrightarrow> last_work evs t"
proof (induction evs rule: rev_induct)
  case (snoc ev evs)
  then show ?case by (auto simp: last_work_snoc work_state)
qed (simp add: no_activity_def last_work_def)

text \<open>
  The time the engine was last active is the time of the last event that was work: a start, or a
  sample that saw a request running or a counter that changed since the last sample that succeeded. A
  sample that failed is neither work nor evidence against it, and the first counter of an engine is only
  a baseline.
\<close>

theorem activity_spec:
  "snapshot_activity (fold activity_step evs no_activity) = Some t \<longleftrightarrow>
     (\<exists>i < length evs. event_time (evs ! i) = t \<and> is_work (take i evs) (evs ! i) \<and>
        (\<forall>j. i < j \<and> j < length evs \<longrightarrow> \<not> is_work (take j evs) (evs ! j)))"
  using last_work_state [of evs t] by (simp add: snapshot_activity_def last_work_def)

section \<open>The history of the host's figures\<close>

definition historyWindow :: int where
  "historyWindow = 10 * 60"

definition historyLimit :: nat where
  "historyLimit = 40"

text \<open>Sample times are whole seconds, so the cutoff is compared in seconds.\<close>

definition add_history :: "'f history_sample \<Rightarrow> 'f history_sample list \<Rightarrow> 'f history_sample list" where
  "add_history s h =
     (let samples = dropWhile (\<lambda>x. hs_Time x < hs_Time s - historyWindow) h @ [s]
      in if length samples > historyLimit then drop (length samples - historyLimit) samples else samples)"

definition clear_history :: "'f history_sample list \<Rightarrow> 'f history_sample list" where
  "clear_history h = []"

definition snapshot_history :: "'f history_sample list \<Rightarrow> 'f history_sample list" where
  "snapshot_history h = h"

definition keep_last :: "nat \<Rightarrow> 'a list \<Rightarrow> 'a list" where
  "keep_last n xs = drop (length xs - n) xs"

lemma rev_keep_last: "rev (keep_last n xs) = take n (rev xs)"
  by (cases "n \<le> length xs") (simp_all add: keep_last_def rev_drop)

lemma takeWhile_take: "takeWhile P (take n xs) = take n (takeWhile P xs)"
  by (induction xs arbitrary: n) (auto simp: take_Cons split: nat.splits)

lemma takeWhile_takeWhile: "(\<And>x. P x \<Longrightarrow> Q x) \<Longrightarrow> takeWhile P (takeWhile Q xs) = takeWhile P xs"
  by (induction xs) auto

lemma takeWhile_falling:
  "sorted_wrt (\<lambda>x y. (f y :: int) \<le> f x) xs \<Longrightarrow> takeWhile (\<lambda>x. c \<le> f x) xs = filter (\<lambda>x. c \<le> f x) xs"
  by (induction xs) (auto simp: empty_filter_conv)

lemma dropWhile_rising:
  "sorted (map f xs) \<Longrightarrow> dropWhile (\<lambda>x. f x < (c :: int)) xs = filter (\<lambda>x. c \<le> f x) xs"
proof (induction xs)
  case (Cons x xs)
  show ?case
  proof (cases "f x < c")
    case False
    with Cons.prems have "\<forall>y \<in> set (x # xs). c \<le> f y" by auto
    with False show ?thesis by (simp only: filter_True) simp
  qed (use Cons in simp)
qed simp

lemma dropWhile_falling:
  assumes "sorted_wrt (\<lambda>x y. (f y :: int) \<le> f x) (rev xs)"
  shows "rev (dropWhile (\<lambda>x. f x < c) xs) = takeWhile (\<lambda>x. c \<le> f x) (rev xs)"
proof -
  have "sorted (map f xs)" using assms by (simp add: sorted_map sorted_wrt_rev)
  then show ?thesis
    using takeWhile_falling [OF assms] by (simp add: dropWhile_rising rev_filter)
qed

lemma add_history_keep:
  "add_history s h = keep_last historyLimit (dropWhile (\<lambda>x. hs_Time x < hs_Time s - historyWindow) h @ [s])"
  by (simp add: add_history_def keep_last_def Let_def)

lemma history_rev:
  assumes "sorted (map hs_Time (xs @ [s]))"
  shows "rev (fold add_history (xs @ [s]) []) =
     take historyLimit (takeWhile (\<lambda>x. hs_Time s - historyWindow \<le> hs_Time x) (rev (xs @ [s])))"
  using assms
proof (induction xs arbitrary: s rule: rev_induct)
  case Nil
  then show ?case by (simp add: add_history_keep keep_last_def historyLimit_def historyWindow_def)
next
  case (snoc x xs)
  let ?h = "fold add_history (xs @ [x]) []"
  have le: "hs_Time x \<le> hs_Time s" using snoc.prems by (simp add: sorted_append)
  have h: "rev ?h = take historyLimit (takeWhile (\<lambda>y. hs_Time x - historyWindow \<le> hs_Time y) (rev (xs @ [x])))"
    using snoc.prems by (intro snoc.IH) (simp add: sorted_append)
  have "sorted_wrt (\<lambda>x y. hs_Time y \<le> hs_Time x) (rev (xs @ [x]))"
    using snoc.prems by (simp add: sorted_append sorted_map sorted_wrt_rev sorted_wrt_append)
  then have "sorted_wrt (\<lambda>x y. hs_Time y \<le> hs_Time x) (rev ?h)"
    unfolding h by (intro sorted_wrt_take sorted_wrt_takeWhile)
  then have "rev (dropWhile (\<lambda>y. hs_Time y < hs_Time s - historyWindow) ?h)
      = takeWhile (\<lambda>y. hs_Time s - historyWindow \<le> hs_Time y) (rev ?h)"
    by (rule dropWhile_falling)
  also have "\<dots> = take historyLimit (takeWhile (\<lambda>y. hs_Time s - historyWindow \<le> hs_Time y) (rev (xs @ [x])))"
    unfolding h using le by (simp only: takeWhile_take) (subst takeWhile_takeWhile; simp)
  finally show ?case
    by (simp only: fold_append comp_def fold_simps add_history_keep [of s] rev_keep_last rev_append)
      (simp add: historyWindow_def historyLimit_def)
qed

text \<open>
  Where the clock does not run backwards, the history after any number of samples is exactly the
  last forty of those taken within ten minutes of the newest, in the order they were taken; whatever
  the clock does, it never holds more than forty and always ends with the newest.
\<close>

theorem history_spec:
  "(sorted (map hs_Time (xs @ [s])) \<longrightarrow>
      snapshot_history (fold add_history (xs @ [s]) []) =
        keep_last historyLimit (filter (\<lambda>x. hs_Time s - historyWindow \<le> hs_Time x) (xs @ [s]))) \<and>
   length (fold add_history (xs @ [s]) []) \<le> historyLimit \<and> last (fold add_history (xs @ [s]) []) = s"
proof (intro conjI impI)
  assume a: "sorted (map hs_Time (xs @ [s]))"
  then have "sorted_wrt (\<lambda>x y. hs_Time y \<le> hs_Time x) (rev (xs @ [s]))"
    by (simp add: sorted_append sorted_map sorted_wrt_rev sorted_wrt_append)
  from takeWhile_falling [OF this] history_rev [OF a]
  have "rev (fold add_history (xs @ [s]) []) =
      rev (keep_last historyLimit (filter (\<lambda>x. hs_Time s - historyWindow \<le> hs_Time x) (xs @ [s])))"
    by (simp only: rev_keep_last rev_filter)
  then show "snapshot_history (fold add_history (xs @ [s]) []) =
        keep_last historyLimit (filter (\<lambda>x. hs_Time s - historyWindow \<le> hs_Time x) (xs @ [s]))"
    by (simp only: snapshot_history_def rev_is_rev_conv)
qed (simp_all add: add_history_keep keep_last_def historyLimit_def last_drop)

definition demo_sample :: "int \<Rightarrow> string history_sample" where
  "demo_sample t = \<lparr>hs_Time = t, hs_CPU = None, hs_Mem = None, hs_Speed = None, hs_GPUs = []\<rparr>"

theorem history_spec_witness:
  "snapshot_history (fold add_history ([demo_sample 0, demo_sample 300] @ [demo_sample 700]) []) =
     [demo_sample 300, demo_sample 700]"
  using history_spec [of "[demo_sample 0, demo_sample 300]" "demo_sample 700"]
  by (simp add: demo_sample_def historyWindow_def historyLimit_def keep_last_def)

definition demo_tokens :: "int \<Rightarrow> int \<Rightarrow> token_stats" where
  "demo_tokens r n = \<lparr>tk_Running = r, tk_Counter = n, tk_PromptTokens = 0, tk_GenerationTokens = n, tk_Requests = None\<rparr>"

definition demo_events :: "activity_event list" where
  "demo_events = [EngineStarted 1, Sampled (Some (demo_tokens 0 0)) 2, Sampled None 3, Sampled (Some (demo_tokens 0 7)) 4]"

lemma demo_events_active: "snapshot_activity (fold activity_step demo_events no_activity) = Some 4"
  by (simp add: demo_events_def snapshot_activity_def observe_def markActive_def no_activity_def demo_tokens_def)

theorem activity_spec_witness:
  "\<exists>i < length demo_events. event_time (demo_events ! i) = 4 \<and> is_work (take i demo_events) (demo_events ! i)"
  using activity_spec [of demo_events 4] demo_events_active by blast

end
