(* ===== verification/EngineLog.thy ===== *)
theory EngineLog
  imports GoStrings
begin

text \<open>
  The engine's captured output once it is in a file: \<^verbatim>\<open>internal/daemon/logs.go\<close>, the bounded reads by
  which a client follows it, and \<^verbatim>\<open>tee.go\<close>, which hands its lines to a hook while they are written.
\<close>

section \<open>Reading the log\<close>

definition DefaultLogRead :: int where
  "DefaultLogRead = 64 * 1024"

definition MaxLogRead :: int where
  "MaxLogRead = 256 * 1024"

definition TailLog :: int where
  "TailLog = -1"

record logs_response =
  lr_Content :: string
  lr_NextOffset :: int
  lr_Size :: int
  lr_Path :: string
  lr_Missing :: bool
  lr_StaleOffset :: bool

definition clampLogRead :: "int \<Rightarrow> int" where
  "clampLogRead limit =
     (if limit \<le> 0 then DefaultLogRead else if limit > MaxLogRead then MaxLogRead else limit)"

text \<open>What opening, sizing and reading the file come to: a file that is not there, a failure, its bytes.\<close>

datatype log_file = NoFile | FileFails string | FileHolds string

definition newline :: char where
  "newline = CHR 0x0A"

text \<open>The start of a read once it is known to lie within the file, and the bytes read from there.\<close>

definition log_start :: "int \<Rightarrow> int \<Rightarrow> int \<Rightarrow> int" where
  "log_start offset limit len =
     (let start = (if offset = TailLog then max 0 (len - limit) else offset)
      in if start < 0 then 0 else start)"

definition slice :: "string \<Rightarrow> int \<Rightarrow> int \<Rightarrow> string" where
  "slice file start n = take (nat n) (drop (nat start) file)"

definition skip_fragment :: "bool \<Rightarrow> int \<times> string \<Rightarrow> int \<times> string" where
  "skip_fragment tail = (\<lambda>(start, buf).
     if tail \<and> start > 0
     then (case index_byte buf newline of
         None \<Rightarrow> (start, buf)
       | Some i \<Rightarrow> (start + int (Suc i), drop (Suc i) buf))
     else (start, buf))"

definition whole_lines :: "int \<Rightarrow> int \<times> string \<Rightarrow> string" where
  "whole_lines len = (\<lambda>(start, buf).
     if start + int (length buf) < len
     then (case last_index_byte buf newline of None \<Rightarrow> buf | Some i \<Rightarrow> take (Suc i) buf)
     else buf)"

definition ReadLog :: "string \<Rightarrow> log_file \<Rightarrow> int \<Rightarrow> int \<Rightarrow> string + logs_response" where
  "ReadLog path f offset limit =
     (let none = \<lparr>lr_Content = '''', lr_NextOffset = 0, lr_Size = 0, lr_Path = '''', lr_Missing = False,
            lr_StaleOffset = False\<rparr>
      in if path = '''' then Inr (none\<lparr>lr_Missing := True\<rparr>)
      else case f of
        NoFile \<Rightarrow> Inr (none\<lparr>lr_Missing := True, lr_Path := path\<rparr>)
      | FileFails e \<Rightarrow> Inl e
      | FileHolds file \<Rightarrow>
          (let len = int (length file); limit' = clampLogRead limit; start = log_start offset limit' len
           in if start > len
              then Inr (none\<lparr>lr_NextOffset := len, lr_Size := len, lr_Path := path, lr_StaleOffset := True\<rparr>)
              else
                (let (start', buf) = skip_fragment (offset = TailLog) (start, slice file start (min (len - start) limit'));
                     content = whole_lines len (start', buf)
                 in Inr (none\<lparr>lr_Content := content, lr_NextOffset := start' + int (length content),
                      lr_Size := len, lr_Path := path\<rparr>))))"

section \<open>A read from a known position\<close>

lemma clampLogRead_bounds: "0 < clampLogRead limit" "clampLogRead limit \<le> MaxLogRead"
  by (auto simp: clampLogRead_def DefaultLogRead_def MaxLogRead_def)

lemma last_index_byte_Some:
  assumes "last_index_byte s c = Some i"
  shows "i < length s \<and> s ! i = c"
proof -
  from assms obtain j where j: "index_byte (rev s) c = Some j" "i = length s - Suc j"
    by (auto simp: last_index_byte_def)
  with index_byte_Some [OF j(1)] show ?thesis by (auto simp: rev_nth)
qed

lemma last_index_byte_None: "last_index_byte s c = None \<longleftrightarrow> c \<notin> set s"
  by (simp add: last_index_byte_def)

lemma length_slice: "0 \<le> n \<Longrightarrow> n \<le> int (length file) - start \<Longrightarrow> 0 \<le> start \<Longrightarrow> int (length (slice file start n)) = n"
  by (auto simp: slice_def)

lemma take_slice: "take k (slice file start n) = slice file start (int (length (take k (slice file start n))))"
  by (auto simp: slice_def min_def)

text \<open>What one read from a position within the file gives: a part of the file that begins there.\<close>

definition good_read :: "string \<Rightarrow> int \<Rightarrow> int \<Rightarrow> string \<Rightarrow> bool" where
  "good_read file offset limit content \<longleftrightarrow>
     content = slice file offset (int (length content)) \<and>
     (offset < int (length file) \<longrightarrow> content \<noteq> '''') \<and>
     offset + int (length content) \<le> int (length file) \<and> int (length content) \<le> clampLogRead limit \<and>
     (offset + int (length content) < int (length file) \<longrightarrow>
        last content = newline \<or> newline \<notin> set content \<and> int (length content) = clampLogRead limit)"

lemma ReadLog_good:
  assumes "path \<noteq> ''''" and "0 \<le> offset" and "offset \<le> int (length file)"
  shows "\<exists>content. good_read file offset limit content \<and>
     ReadLog path (FileHolds file) offset limit = Inr \<lparr>lr_Content = content,
        lr_NextOffset = offset + int (length content), lr_Size = int (length file), lr_Path = path,
        lr_Missing = False, lr_StaleOffset = False\<rparr>"
proof -
  let ?k = "min (int (length file) - offset) (clampLogRead limit)"
  let ?buf = "slice file offset ?k"
  let ?content = "whole_lines (int (length file)) (offset, ?buf)"
  have start: "log_start offset (clampLogRead limit) (int (length file)) = offset"
    using assms by (simp add: log_start_def TailLog_def)
  have tail: "skip_fragment (offset = TailLog) (offset, ?buf) = (offset, ?buf)"
    using assms by (simp add: skip_fragment_def TailLog_def)
  have buf: "int (length ?buf) = ?k"
    using assms clampLogRead_bounds(1) [of limit] by (intro length_slice) auto
  have "good_read file offset limit ?content"
  proof (cases "offset + int (length ?buf) < int (length file)")
    case False
    with buf have "?content = ?buf" by (simp add: whole_lines_def)
    moreover have "?buf = slice file offset (int (length ?buf))" by (simp add: buf)
    ultimately show ?thesis
      using assms(3) buf False clampLogRead_bounds(1) [of limit] by (auto simp: good_read_def simp del: length_0_conv)
  next
    case cut: True
    with buf have k: "?k = clampLogRead limit" by auto
    show ?thesis
    proof (cases "last_index_byte ?buf newline")
      case None
      with cut have "?content = ?buf" by (simp add: whole_lines_def)
      moreover have "newline \<notin> set ?buf" using None by (simp add: last_index_byte_None)
      ultimately show ?thesis
        using buf k clampLogRead_bounds(1) [of limit] assms(3) by (auto simp: good_read_def)
    next
      case (Some i)
      note i = last_index_byte_Some [OF Some]
      from Some cut have c: "?content = take (Suc i) ?buf" by (simp add: whole_lines_def)
      define C where "C = take (Suc i) ?buf"
      have "last C = newline" using i by (simp add: C_def take_Suc_conv_app_nth)
      moreover have "C = slice file offset (int (length C))" unfolding C_def by (rule take_slice)
      moreover have "int (length C) \<le> ?k"
        unfolding C_def using buf by (metis length_take min.cobounded1 of_nat_mono)
      moreover have "C \<noteq> []" using i by (auto simp: C_def)
      ultimately show ?thesis
        unfolding good_read_def c C_def [symmetric] by auto
    qed
  qed
  then show ?thesis
    using assms by (intro exI [of _ ?content]) (simp add: ReadLog_def start tail Let_def)
qed

section \<open>Following the log\<close>

text \<open>A follower holds the position after what it has received; between its reads the file grows.\<close>

datatype follow_event = Grows string | Polls int

record follower =
  fo_file :: string
  fo_offset :: int
  fo_got :: string

fun follow_step :: "string \<Rightarrow> follow_event \<Rightarrow> follower \<Rightarrow> follower" where
  "follow_step path (Grows out) s = s\<lparr>fo_file := fo_file s @ out\<rparr>"
| "follow_step path (Polls limit) s =
     (case ReadLog path (FileHolds (fo_file s)) (fo_offset s) limit of
        Inl e \<Rightarrow> s
      | Inr r \<Rightarrow> s\<lparr>fo_offset := lr_NextOffset r, fo_got := fo_got s @ lr_Content r\<rparr>)"

definition in_step :: "follower \<Rightarrow> bool" where
  "in_step s \<longleftrightarrow> 0 \<le> fo_offset s \<and> fo_offset s \<le> int (length (fo_file s)) \<and>
     fo_got s = take (nat (fo_offset s)) (fo_file s)"

definition behind :: "follower \<Rightarrow> nat" where
  "behind s = length (fo_file s) - length (fo_got s)"

lemma in_step_got: "in_step s \<Longrightarrow> int (length (fo_got s)) = fo_offset s"
  by (auto simp: in_step_def)

lemma take_slice_append:
  "0 \<le> start \<Longrightarrow> 0 \<le> n \<Longrightarrow> take (nat start) file @ slice file start n = take (nat (start + n)) file"
  by (simp add: slice_def nat_add_distrib take_add)

lemma poll_in_step:
  assumes "in_step s" and "path \<noteq> ''''"
  shows "in_step (follow_step path (Polls limit) s) \<and>
     (behind s = 0 \<or> behind (follow_step path (Polls limit) s) < behind s)"
proof -
  have bounds: "0 \<le> fo_offset s" "fo_offset s \<le> int (length (fo_file s))"
    and got: "fo_got s = take (nat (fo_offset s)) (fo_file s)" using assms(1) by (simp_all add: in_step_def)
  obtain content where good: "good_read (fo_file s) (fo_offset s) limit content"
    and read: "follow_step path (Polls limit) s =
        s\<lparr>fo_offset := fo_offset s + int (length content), fo_got := fo_got s @ content\<rparr>"
    using ReadLog_good [OF assms(2) bounds, of limit] by auto
  have "fo_got s @ content = take (nat (fo_offset s + int (length content))) (fo_file s)"
    using good got take_slice_append [OF bounds(1), of "int (length content)" "fo_file s"]
    by (metis good_read_def of_nat_0_le_iff)
  then have "in_step (follow_step path (Polls limit) s)"
    unfolding read using good bounds by (auto simp: in_step_def good_read_def)
  moreover have "behind s = 0 \<or> content \<noteq> ''''"
    using good in_step_got [OF assms(1)] bounds by (auto simp: behind_def good_read_def)
  ultimately show ?thesis
    unfolding read by (cases content) (auto simp: behind_def)
qed

lemma follow_in_step: "in_step s \<Longrightarrow> path \<noteq> '''' \<Longrightarrow> in_step (fold (follow_step path) evs s)"
proof (induction evs arbitrary: s)
  case (Cons ev evs)
  have "in_step (follow_step path ev s)"
  proof (cases ev)
    case (Grows out)
    with Cons.prems show ?thesis by (auto simp: in_step_def)
  qed (use poll_in_step [OF Cons.prems] in simp)
  with Cons.IH Cons.prems(2) show ?case by simp
qed simp

lemma polls_catch_up:
  "in_step s \<Longrightarrow> path \<noteq> '''' \<Longrightarrow> behind s \<le> length limits \<Longrightarrow>
     behind (fold (follow_step path) (map Polls limits) s) = 0"
proof (induction limits arbitrary: s)
  case (Cons limit limits)
  let ?t = "follow_step path (Polls limit) s"
  have t: "in_step ?t" "behind s = 0 \<or> behind ?t < behind s"
    using poll_in_step [OF Cons.prems(1,2), of limit] by (simp_all del: follow_step.simps)
  have "behind ?t \<le> length limits"
  proof (cases "behind s = 0")
    case True
    moreover have "fo_file ?t = fo_file s" by (auto split: sum.splits)
    moreover have "length (fo_got s) \<le> length (fo_got ?t)" by (auto split: sum.splits)
    ultimately show ?thesis by (simp add: behind_def del: follow_step.simps)
  qed (use t(2) Cons.prems(3) in \<open>simp del: follow_step.simps\<close>)
  with Cons.IH [OF t(1) Cons.prems(2)] show ?case by (simp del: follow_step.simps)
qed simp

text \<open>
  C24: a client that follows the log from its beginning receives exactly the file's bytes, in order,
  nothing missed and nothing twice, whatever limits it asks for and however the file grows between its
  reads; and every read makes progress, so that once the file rests, as many reads as there are bytes
  left bring it to the end at the latest.
\<close>

theorem follow_exact:
  assumes "path \<noteq> ''''" and "s = fold (follow_step path) evs \<lparr>fo_file = file, fo_offset = 0, fo_got = ''''\<rparr>"
  shows "fo_got s = take (nat (fo_offset s)) (fo_file s) \<and>
     (length (fo_file s) \<le> length (fo_got s) + length limits \<longrightarrow>
        fo_got (fold (follow_step path) (map Polls limits) s) = fo_file s)"
proof -
  have s: "in_step s" unfolding assms(2) by (rule follow_in_step) (simp_all add: in_step_def assms(1))
  let ?t = "fold (follow_step path) (map Polls limits) s"
  have same: "fo_file (fold (follow_step path) (map Polls ls) u) = fo_file u" for ls u
    by (induction ls arbitrary: u) (auto split: sum.splits)
  have "fo_got ?t = fo_file s" if "length (fo_file s) \<le> length (fo_got s) + length limits"
  proof -
    have "behind ?t = 0" using that s assms(1) by (intro polls_catch_up) (auto simp: behind_def)
    moreover have "in_step ?t" using s assms(1) by (rule follow_in_step)
    ultimately show ?thesis by (auto simp: behind_def in_step_def same)
  qed
  with s show ?thesis by (simp add: in_step_def)
qed

theorem follow_exact_witness:
  "fo_got (fold (follow_step ''p'') (map Polls [5, 0, 1, 9])
     (fold (follow_step ''p'') [Grows ''b'', Grows ''c''] \<lparr>fo_file = ''ab'', fo_offset = 0, fo_got = ''''\<rparr>)) = ''abbc''"
proof -
  have "fold (follow_step ''p'') [Grows ''b'', Grows ''c''] \<lparr>fo_file = ''ab'', fo_offset = 0, fo_got = ''''\<rparr>
      = \<lparr>fo_file = ''abbc'', fo_offset = 0, fo_got = ''''\<rparr>" (is "?s = ?t") by simp
  moreover have "fo_file ?t = ''abbc''" "fo_got ?t = ''''" by simp_all
  ultimately show ?thesis
    using follow_exact [of "''p''" ?s "[Grows ''b'', Grows ''c'']" "''ab''" "[5, 0, 1, 9]"]
    by (simp del: follow_step.simps fold_simps)
qed

section \<open>The line tee\<close>

definition teeLineCap :: nat where
  "teeLineCap = 64 * 1024"

record line_tee =
  lt_buf :: string
  lt_skip :: bool

text \<open>The loop of a write over the bytes still to take in: the lines it hands over, and the buffer after it.\<close>

function tee_loop :: "string \<Rightarrow> line_tee \<Rightarrow> string list \<times> line_tee" where
  "tee_loop p t =
     (if p = [] then ([], t)
      else (case index_byte p newline of
          None \<Rightarrow>
            ([], if lt_skip t then t
                 else if length (lt_buf t) + length p > teeLineCap then \<lparr>lt_buf = [], lt_skip = True\<rparr>
                 else t\<lparr>lt_buf := lt_buf t @ p\<rparr>)
        | Some i \<Rightarrow>
            (let handed = (if lt_skip t then []
                   else if length (lt_buf t) + i > teeLineCap then []
                   else if lt_buf t @ take i p \<noteq> [] then [lt_buf t @ take i p] else []);
                 (rest, t') = tee_loop (drop (Suc i) p) \<lparr>lt_buf = [], lt_skip = False\<rparr>
             in (handed @ rest, t'))))"
  by pat_completeness auto
termination
  by (relation "measure (length \<circ> fst)") (auto dest: index_byte_Some)

declare tee_loop.simps [simp del]

text \<open>A write: the bytes appended to the file, the lines handed to the hook, the tee after it.\<close>

definition tee_write :: "string \<Rightarrow> string \<times> string list \<times> line_tee \<Rightarrow> string \<times> string list \<times> line_tee" where
  "tee_write p = (\<lambda>(kept, handed, t). case tee_loop p t of (lines, t') \<Rightarrow> (kept @ p, handed @ lines, t'))"

definition new_tee :: line_tee where
  "new_tee = \<lparr>lt_buf = [], lt_skip = False\<rparr>"

text \<open>What the bytes so far come to: the lines that are complete, and the tee's account of the one that is not.\<close>

definition worth_handing :: "string \<Rightarrow> bool" where
  "worth_handing l \<longleftrightarrow> l \<noteq> [] \<and> length l \<le> teeLineCap"

definition complete_lines :: "string \<Rightarrow> string list" where
  "complete_lines s = butlast (split_on newline s)"

definition tee_of :: "string \<Rightarrow> line_tee" where
  "tee_of partial =
     (if length partial > teeLineCap then \<lparr>lt_buf = [], lt_skip = True\<rparr> else \<lparr>lt_buf = partial, lt_skip = False\<rparr>)"

lemma tee_loop_spec:
  "newline \<notin> set partial \<Longrightarrow>
   tee_loop p (tee_of partial) =
     (filter worth_handing (complete_lines (partial @ p)), tee_of (last (split_on newline (partial @ p))))"
proof (induction "length p" arbitrary: p partial rule: less_induct)
  case less
  show ?case
  proof (cases "index_byte p newline")
    case None
    with less.prems have "split_on newline (partial @ p) = [partial @ p]" by simp
    with None show ?thesis
      by (subst tee_loop.simps) (auto simp: complete_lines_def tee_of_def simp del: index_byte_None)
  next
    case (Some i)
    note i = index_byte_Some [OF Some]
    then have p: "p = take i p @ newline # drop (Suc i) p" by (metis id_take_nth_drop)
    have split: "split_on newline (partial @ p) = (partial @ take i p) # split_on newline (drop (Suc i) p)"
      using less.prems i by (subst p) (simp only: append_assoc [symmetric], rule split_on_append, auto)
    have "\<lparr>lt_buf = [], lt_skip = False\<rparr> = tee_of []" by (simp add: tee_of_def)
    moreover have "length (drop (Suc i) p) < length p" using i by (simp, linarith)
    ultimately have rest: "tee_loop (drop (Suc i) p) \<lparr>lt_buf = [], lt_skip = False\<rparr> =
        (filter worth_handing (complete_lines (drop (Suc i) p)), tee_of (last (split_on newline (drop (Suc i) p))))"
      using less.hyps [of "drop (Suc i) p" "[]"] by simp
    have "p \<noteq> []" using i by auto
    with Some i rest show ?thesis
      by (subst tee_loop.simps)
        (auto simp: complete_lines_def split worth_handing_def Let_def tee_of_def min_def)
  qed
qed

lemma split_on_last_append:
  "split_on c (s @ p) = butlast (split_on c s) @ split_on c (last (split_on c s) @ p)"
proof (induction "split_on c s" arbitrary: s)
  case (Cons x xs)
  show ?case
  proof (cases "index_byte s c")
    case None
    then show ?thesis by simp
  next
    case (Some i)
    note i = index_byte_Some [OF Some]
    then have s: "s = take i s @ c # drop (Suc i) s" by (metis id_take_nth_drop)
    have split: "split_on c s = take i s # split_on c (drop (Suc i) s)"
      using split_on_append [of c "take i s" "drop (Suc i) s"] i s by metis
    have "split_on c (s @ p) = take i s # split_on c (drop (Suc i) s @ p)"
      using split_on_append [of c "take i s" "drop (Suc i) s @ p"] i s by (metis append.assoc append_Cons)
    moreover have "xs = split_on c (drop (Suc i) s)" using Cons.hyps(2) split by simp
    ultimately show ?thesis
      using Cons.hyps(1) [of "drop (Suc i) s"] split by simp
  qed
qed (metis split_on_ne)

lemma complete_lines_append:
  "complete_lines (s @ p) = complete_lines s @ complete_lines (last (split_on newline s) @ p)"
  by (simp add: complete_lines_def split_on_last_append [of newline s p] butlast_append)

lemma tee_fold:
  "fold tee_write ps (kept, filter worth_handing (complete_lines s), tee_of (last (split_on newline s))) =
     (kept @ concat ps, filter worth_handing (complete_lines (s @ concat ps)),
      tee_of (last (split_on newline (s @ concat ps))))"
proof (induction ps arbitrary: s kept)
  case (Cons p ps)
  have "newline \<notin> set (last (split_on newline s))"
    by (rule split_on_no_sep [OF last_in_set]) simp
  from tee_loop_spec [OF this, of p]
  have "tee_write p (kept, filter worth_handing (complete_lines s), tee_of (last (split_on newline s))) =
      (kept @ p, filter worth_handing (complete_lines (s @ p)), tee_of (last (split_on newline (s @ p))))"
    by (simp add: tee_write_def complete_lines_append [of s p] split_on_last_append [of newline s p])
  with Cons.IH [of "kept @ p" "s @ p"] show ?case by simp
qed simp

lemma tee_split:
  "fold tee_write ps ('''', [], new_tee) =
     (concat ps, filter worth_handing (complete_lines (concat ps)), tee_of (last (split_on newline (concat ps))))"
  using tee_fold [of ps "''''" "''''"] by (simp add: complete_lines_def tee_of_def new_tee_def)

text \<open>
  However the output is cut into writes, the file receives its bytes unchanged and the hook exactly
  the complete lines of it, in order, other than the blank ones and those longer than the cap; a line
  that is not complete is never handed over, and the tee never keeps more than the cap.
\<close>

theorem tee_lines:
  "fold tee_write ps ('''', [], new_tee) = (kept, handed, t) \<longleftrightarrow>
     kept = concat ps \<and> handed = filter worth_handing (complete_lines (concat ps)) \<and>
     t = tee_of (last (split_on newline (concat ps)))"
  by (auto simp: tee_split)

lemma tee_bounded: "length (lt_buf (tee_of partial)) \<le> teeLineCap"
  by (simp add: tee_of_def)

text \<open>
  Lines of two writers that share the tee can run together: the engine's errors come in as they are
  read, not by the line, so a line the hook is handed may be of neither stream.
\<close>

theorem tee_mixes_streams:
  "let err = ''loading''; out = ''tg = 9 t/s'' @ [newline]; rest = '' done'' @ [newline] in
   fst (snd (fold tee_write [err, out, rest] ('''', [], new_tee))) = [''loadingtg = 9 t/s'', '' done''] \<and>
   complete_lines (err @ rest) = [''loading done''] \<and> complete_lines out = [''tg = 9 t/s'']"
proof -
  have "fold tee_write [''loading'', ''tg = 9 t/s'' @ [newline], '' done'' @ [newline]] ('''', [], new_tee) =
      (''loadingtg = 9 t/s'' @ [newline] @ '' done'' @ [newline],
       filter worth_handing (complete_lines (''loadingtg = 9 t/s'' @ [newline] @ '' done'' @ [newline])),
       tee_of (last (split_on newline (''loadingtg = 9 t/s'' @ [newline] @ '' done'' @ [newline]))))"
    unfolding tee_split by simp
  moreover have "complete_lines (''loadingtg = 9 t/s'' @ [newline] @ '' done'' @ [newline]) = [''loadingtg = 9 t/s'', '' done'']"
    "complete_lines (''loading'' @ '' done'' @ [newline]) = [''loading done'']"
    "complete_lines (''tg = 9 t/s'' @ [newline]) = [''tg = 9 t/s'']"
    by (simp_all add: complete_lines_def newline_def)
  moreover have "filter worth_handing [''loadingtg = 9 t/s'', '' done''] = [''loadingtg = 9 t/s'', '' done'']"
    by (simp add: worth_handing_def teeLineCap_def)
  ultimately show ?thesis
    by (simp only: Let_def fst_conv snd_conv)
qed

end
