(* ===== verification/DaemonCore.thy ===== *)
theory DaemonCore
  imports Supervisor Readings EngineLog FleetSelect Deploy
begin

text \<open>
  \<^verbatim>\<open>internal/daemon/daemon.go\<close> and the sampling of \<^verbatim>\<open>activity.go\<close> and \<^verbatim>\<open>history.go\<close>: the supervisor, what
  is stored to be served, and the readings, in one state. What the command line injects (how a config
  becomes a command, how an engine is gated, which configs this host refuses) is the record \<open>hooks\<close>;
  the calls to the disk and to the process that may fail are arguments.
\<close>

section \<open>The state\<close>

record scrape_target =
  sc_BaseURL :: string
  sc_Engine :: string
  sc_APIKey :: string

definition no_target :: scrape_target where
  "no_target = \<lparr>sc_BaseURL = '''', sc_Engine = '''', sc_APIKey = ''''\<rparr>"

datatype stored_config = NothingStored | StoredBroken string | Stored deploy_config

record 'f daemon =
  dm_world :: sup_world
  dm_Version :: string
  dm_SampleInterval :: int
  dm_stored :: stored_config
  dm_key :: "string option"
  dm_act :: activity
  dm_sample :: engine_sample
  dm_ready :: readiness
  dm_hist :: "'f history_sample list"
  dm_system :: "'f system_sample"
  dm_speed :: "'f engine_speed"
  dm_runner :: string
  dm_model :: string
  dm_servedName :: string
  dm_scrape :: scrape_target
  dm_endpoint :: "engine_endpoint option"

text \<open>
  The command of a config, with the addresses that building it records: \<^verbatim>\<open>BuildArgv\<close> of the command line
  calls \<^verbatim>\<open>SetScrape\<close> and \<^verbatim>\<open>SetEngineEndpoint\<close> before it returns.
\<close>

record built_command =
  bu_argv :: "string list"
  bu_scrape :: scrape_target
  bu_endpoint :: "engine_endpoint option"

record hooks =
  hk_BuildArgv :: "deploy_config option \<Rightarrow> string + built_command"
  hk_EngineKeyArgs :: "(deploy_config option \<Rightarrow> string \<Rightarrow> string + string list) option"
  hk_ValidateConfig :: "deploy_config \<Rightarrow> string option"
  hk_Dir :: string

datatype daemon_error =
    ConfigRefused string
  | StoreFailed string
  | StoredUnreadable string
  | BuildFailed string
  | CannotBeGated
  | GateFailed string
  | EngineRefused start_error

definition SetScrape :: "scrape_target \<Rightarrow> 'f daemon \<Rightarrow> 'f daemon" where
  "SetScrape t d = d\<lparr>dm_scrape := t\<rparr>"

definition SetEngineEndpoint :: "engine_endpoint option \<Rightarrow> 'f daemon \<Rightarrow> 'f daemon" where
  "SetEngineEndpoint ep d = d\<lparr>dm_endpoint := ep\<rparr>"

definition SetServed :: "string \<Rightarrow> string \<Rightarrow> string \<Rightarrow> 'f daemon \<Rightarrow> 'f daemon" where
  "SetServed runner model name d = d\<lparr>dm_runner := runner, dm_model := model, dm_servedName := name\<rparr>"

definition served :: "'f daemon \<Rightarrow> string \<times> string \<times> string" where
  "served d = (dm_runner d, dm_model d, dm_servedName d)"

definition sup_of :: "'f daemon \<Rightarrow> supervisor" where
  "sup_of d = sw_sup (dm_world d)"

definition is_up :: "'f daemon \<Rightarrow> bool" where
  "is_up d \<longleftrightarrow> sv_state (sup_of d) = SupRunning"

section \<open>What is stored\<close>

text \<open>The error of a write, where it has one, comes with what the file holds after it.\<close>

definition Push ::
  "hooks \<Rightarrow> (string \<times> stored_config) option \<Rightarrow> deploy_config \<Rightarrow> 'f daemon \<Rightarrow> daemon_error option \<times> 'f daemon" where
  "Push hk fault dc d =
     (case hk_ValidateConfig hk dc of
        Some e \<Rightarrow> (Some (ConfigRefused e), d)
      | None \<Rightarrow>
          (case fault of
             Some (e, left) \<Rightarrow> (Some (StoreFailed e), d\<lparr>dm_stored := left\<rparr>)
           | None \<Rightarrow> (None, SetServed (dc_Runner dc) (dc_ModelID dc) (dc_ServedModelName dc) (d\<lparr>dm_stored := Stored dc\<rparr>))))"

definition engineKeyFile :: "hooks \<Rightarrow> string" where
  "engineKeyFile hk = path_join [hk_Dir hk, ''engine-api-key'']"

definition SetEngineKey ::
  "(string \<times> string option) option \<Rightarrow> string \<Rightarrow> 'f daemon \<Rightarrow> daemon_error option \<times> 'f daemon" where
  "SetEngineKey fault key d =
     (case fault of
        Some (e, left) \<Rightarrow> (Some (StoreFailed e), d\<lparr>dm_key := left\<rparr>)
      | None \<Rightarrow> (None, d\<lparr>dm_key := (if key = '''' then None else Some key)\<rparr>))"

definition storedEngineKeyPath :: "hooks \<Rightarrow> 'f daemon \<Rightarrow> string" where
  "storedEngineKeyPath hk d = (if dm_key d = None then '''' else engineKeyFile hk)"

section \<open>Starting and stopping\<close>

definition start_world :: "string list \<Rightarrow> string option \<Rightarrow> int \<Rightarrow> sup_world \<Rightarrow> start_error option \<times> sup_world" where
  "start_world argv fault now w =
     (case Start_sup argv fault now (sw_next w) (sw_sup w) of
        Inl e \<Rightarrow> (Some e, w)
      | Inr s \<Rightarrow>
          (None, w\<lparr>sw_sup := s, sw_alive := sw_next w # sw_alive w, sw_next := Suc (sw_next w)\<rparr>))"

definition forget_engine :: "'f daemon \<Rightarrow> 'f daemon" where
  "forget_engine d =
     d\<lparr>dm_sample := forget_sample (dm_sample d), dm_ready := forget_ready (dm_ready d),
       dm_system := forget_system (dm_system d), dm_hist := clear_history (dm_hist d),
       dm_speed := forget_speed (dm_speed d)\<rparr>"

definition key_args :: "hooks \<Rightarrow> deploy_config option \<Rightarrow> 'f daemon \<Rightarrow> daemon_error + string list" where
  "key_args hk dc d =
     (if storedEngineKeyPath hk d = '''' then Inr []
      else (case hk_EngineKeyArgs hk of
          None \<Rightarrow> Inl CannotBeGated
        | Some f \<Rightarrow> map_sum GateFailed id (f dc (storedEngineKeyPath hk d))))"

definition serve_config :: "deploy_config option \<Rightarrow> 'f daemon \<Rightarrow> 'f daemon" where
  "serve_config dc d =
     (case dc of None \<Rightarrow> d | Some c \<Rightarrow> SetServed (dc_Runner c) (dc_ModelID c) (dc_ServedModelName c) d)"

definition launch_engine ::
  "string list \<Rightarrow> string option \<Rightarrow> int \<Rightarrow> 'f daemon \<Rightarrow> daemon_error option \<times> 'f daemon" where
  "launch_engine argv fault now d =
     (let d = forget_engine d in
      case start_world argv fault now (dm_world d) of
        (Some e, w) \<Rightarrow> (Some (EngineRefused e), d\<lparr>dm_world := w\<rparr>)
      | (None, w) \<Rightarrow> (None, d\<lparr>dm_world := w, dm_act := markActive now (dm_act d)\<rparr>))"

definition start_config ::
  "hooks \<Rightarrow> string option \<Rightarrow> int \<Rightarrow> deploy_config option \<Rightarrow> 'f daemon \<Rightarrow> daemon_error option \<times> 'f daemon" where
  "start_config hk fault now dc d =
     (case hk_BuildArgv hk dc of
        Inl e \<Rightarrow> (Some (BuildFailed e), d)
      | Inr b \<Rightarrow>
          (let d = SetEngineEndpoint (bu_endpoint b) (SetScrape (bu_scrape b) d) in
           case key_args hk dc d of
             Inl e \<Rightarrow> (Some e, d)
           | Inr args \<Rightarrow> launch_engine (bu_argv b @ args) fault now (serve_config dc d)))"

definition StartEngine :: "hooks \<Rightarrow> string option \<Rightarrow> int \<Rightarrow> 'f daemon \<Rightarrow> daemon_error option \<times> 'f daemon" where
  "StartEngine hk fault now d =
     (case dm_stored d of
        StoredBroken e \<Rightarrow> (Some (StoredUnreadable e), d)
      | NothingStored \<Rightarrow> start_config hk fault now None d
      | Stored dc \<Rightarrow> start_config hk fault now (Some dc) d)"

text \<open>
  A stop, from its request to its return: the engine ends with \<open>err\<close>, its exit is recorded and its
  channel closed. Where nothing runs it returns at once.
\<close>

definition stop_world :: "string option \<Rightarrow> sup_world \<Rightarrow> sup_world" where
  "stop_world err w =
     (case Stop_begin (sw_sup w) of
        (None, s) \<Rightarrow> w
      | (Some c, s) \<Rightarrow>
          (let err = (case map_of (sw_gone w) c of None \<Rightarrow> err | Some e \<Rightarrow> e)
           in w\<lparr>sw_sup := classify_exit err s, sw_alive := removeAll c (sw_alive w),
                sw_gone := filter (\<lambda>(k, _). k \<noteq> c) (sw_gone w), sw_done := c # sw_done w,
                sw_asked := c # sw_asked w, sw_log := (c, err) # sw_log w\<rparr>))"

definition Stop_daemon :: "string option \<Rightarrow> 'f daemon \<Rightarrow> 'f daemon" where
  "Stop_daemon err d = d\<lparr>dm_world := stop_world err (dm_world d)\<rparr>"

section \<open>Sampling\<close>

definition MarkActive :: "int \<Rightarrow> 'f daemon \<Rightarrow> 'f daemon" where
  "MarkActive now d = d\<lparr>dm_act := markActive now (dm_act d)\<rparr>"

text \<open>A sample of the counters: the target it takes under the lock, and what it does once that answered.\<close>

definition sample_begin :: "'f daemon \<Rightarrow> scrape_target option" where
  "sample_begin d =
     (if \<not> is_up d then None
      else if sc_BaseURL (dm_scrape d) = '''' \<or> sc_Engine (dm_scrape d) = '''' then None
      else Some (dm_scrape d))"

definition sample_end :: "scrape_target \<Rightarrow> string + token_stats \<Rightarrow> int \<Rightarrow> 'f daemon \<Rightarrow> 'f daemon" where
  "sample_end t answer now d =
     (let (tokens, err) = (case answer of Inl e \<Rightarrow> (None, Some e) | Inr tk \<Rightarrow> (Some tk, None))
      in d\<lparr>dm_sample := record_sample (tokens, err, sc_BaseURL t) (dm_sample d),
           dm_act := observe tokens now (dm_act d)\<rparr>)"

definition ready_begin :: "'f daemon \<Rightarrow> scrape_target option" where
  "ready_begin d =
     (if \<not> is_up d then None
      else if sc_BaseURL (dm_scrape d) = '''' \<or> dm_runner d \<notin> set readinessCheckedRunners then None
      else Some (dm_scrape d))"

definition ready_end :: "bool \<Rightarrow> 'f daemon \<Rightarrow> 'f daemon" where
  "ready_end b d = d\<lparr>dm_ready := record_ready b (dm_ready d)\<rparr>"

definition history_of :: "(int \<Rightarrow> int \<Rightarrow> 'f) \<Rightarrow> int \<Rightarrow> 'f option \<Rightarrow> 'f host_figures \<Rightarrow> 'f history_sample" where
  "history_of percent secs speed hf =
     \<lparr>hs_Time = secs, hs_CPU = hf_CPU hf,
      hs_Mem = (case hf_Memory hf of
          None \<Rightarrow> None
        | Some m \<Rightarrow> if ms_Total m > 0 then Some (percent (ms_Used m) (ms_Total m)) else None),
      hs_Speed = speed,
      hs_GPUs = map (\<lambda>g. \<lparr>hg_Index = gs_Index g, hg_Util = gs_Utilization g,
          hg_Mem = (if gs_MemoryTotal g > 0 then Some (percent (gs_MemoryUsed g) (gs_MemoryTotal g)) else None)\<rparr>)
        (hf_GPUs hf)\<rparr>"

text \<open>\<open>collected\<close>: what the collector read, where there is one; \<open>tick\<close>, \<open>at\<close>: the clock at the two points it is read.\<close>

definition systemSampleOnce ::
  "(int \<Rightarrow> int \<Rightarrow> 'f) \<Rightarrow> 'f host_figures option \<Rightarrow> int \<Rightarrow> int \<Rightarrow> 'f daemon \<Rightarrow> 'f daemon" where
  "systemSampleOnce percent collected tick at d =
     (if \<not> is_up d then d
      else
        (let (speed, sp) = sampleTick tick (dm_speed d);
             d = d\<lparr>dm_speed := sp\<rparr>;
             d = (case collected of None \<Rightarrow> d | Some hf \<Rightarrow> d\<lparr>dm_system := record_system hf (dm_system d)\<rparr>);
             sample = history_of percent (at div 1000000000) speed
               (case collected of None \<Rightarrow> no_figures | Some hf \<Rightarrow> hf)
         in if hs_CPU sample = None \<and> hs_Mem sample = None \<and> hs_GPUs sample = [] \<and> hs_Speed sample = None
            then d else d\<lparr>dm_hist := add_history sample (dm_hist d)\<rparr>))"

definition catchUpInterval :: int where
  "catchUpInterval = 1000000000"

definition awaitingFirstSample :: "'f daemon \<Rightarrow> bool" where
  "awaitingFirstSample d \<longleftrightarrow>
     \<not> haveTokens (dm_sample d) \<and> sc_BaseURL (dm_scrape d) \<noteq> '''' \<and> sc_Engine (dm_scrape d) \<noteq> ''''"

definition sample_wait :: "'f daemon \<Rightarrow> int" where
  "sample_wait d =
     (if awaitingFirstSample d then catchUpInterval
      else if dm_SampleInterval d \<le> 0 then DefaultSampleInterval else dm_SampleInterval d)"

text \<open>\<open>parse\<close> reads the rate an engine's line carries, if it carries one.\<close>

definition ObserveEngineLine :: "(string \<Rightarrow> 'f option) \<Rightarrow> string \<Rightarrow> int \<Rightarrow> 'f daemon \<Rightarrow> 'f daemon" where
  "ObserveEngineLine parse line now d =
     (case parse line of None \<Rightarrow> d | Some v \<Rightarrow> d\<lparr>dm_speed := observe_speed (v, now) (dm_speed d)\<rparr>)"

section \<open>What is reported\<close>

definition readinessField :: "'f daemon \<Rightarrow> string" where
  "readinessField d =
     (case read_ready (dm_ready d) of (ready, have) \<Rightarrow> if \<not> have then '''' else if ready then ReadyYes else ReadyNo)"

definition activity_field :: "int \<Rightarrow> 'f daemon \<Rightarrow> string \<times> int" where
  "activity_field now d =
     (case snapshot_activity (dm_act d) of
        None \<Rightarrow> ('''', 0)
      | Some t \<Rightarrow> (let idle = (now - t) div 1000000000 in (rfc3339 t, if idle > 0 then idle else 0)))"

definition Status :: "int \<Rightarrow> 'f daemon \<Rightarrow> node_status" where
  "Status now d =
     (case Status_sup now (sup_of d) of (state, _, uptime) \<Rightarrow>
      case activity_field now d of (lastActiveAt, idleSeconds) \<Rightarrow>
        \<lparr>ns_State = state_text state, ns_Runner = dm_runner d, ns_Model = dm_model d,
         ns_ServedName = dm_servedName d, ns_UptimeSeconds = uptime, ns_LogPath = sv_LogPath (sup_of d),
         ns_LastActiveAt = lastActiveAt, ns_IdleSeconds = idleSeconds,
         ns_Engine = (if state = SupRunning
             then map_option (\<lambda>ep. if dm_key d \<noteq> None then ep\<lparr>ep_RequiresKey := True\<rparr> else ep) (dm_endpoint d)
             else None),
         ns_Ready = (if state = SupRunning then readinessField d else ''''),
         ns_Version = dm_Version d\<rparr>)"

definition scrape_failure :: "string \<Rightarrow> string \<Rightarrow> string" where
  "scrape_failure baseURL e = ''engine metrics scrape ('' @ baseURL @ ''): '' @ e"

definition running_stats :: "int \<Rightarrow> 'f daemon \<Rightarrow> 'f stats \<Rightarrow> 'f stats" where
  "running_stats now d st =
     (let st = apply_system (dm_system d) st in
      case read_sample (dm_sample d) of (tokens, err, baseURL) \<Rightarrow>
        st\<lparr>st_Errors := st_Errors st @ (case err of None \<Rightarrow> [] | Some e \<Rightarrow> [scrape_failure baseURL e]),
           st_Tokens := tokens,
           st_Speed := current_speed now (speedStaleAfter (dm_SampleInterval d)) (dm_speed d),
           st_Ready := readinessField d\<rparr>)"

definition Metrics :: "int \<Rightarrow> 'f daemon \<Rightarrow> 'f stats" where
  "Metrics now d =
     (case Status_sup now (sup_of d) of (state, _, uptime) \<Rightarrow>
      case activity_field now d of (lastActiveAt, idleSeconds) \<Rightarrow>
        (let st = \<lparr>st_EngineState = state_text state, st_Runner = dm_runner d, st_ModelID = dm_model d,
               st_ServedName = dm_servedName d, st_UptimeSeconds = uptime, st_Tokens = None, st_GPUs = [],
               st_CPU = None, st_Memory = None, st_Errors = [], st_Speed = None, st_History = [],
               st_LastActiveAt = '''', st_IdleSeconds = 0, st_Ready = ''''\<rparr>;
             st = (if state = SupRunning then running_stats now d st else st)
         in st\<lparr>st_LastActiveAt := lastActiveAt, st_IdleSeconds := idleSeconds,
               st_History := snapshot_history (dm_hist d)\<rparr>))"

section \<open>The daemon and the supervisor's steps\<close>

lemma start_world_step: "start_world argv fault now w = (r, w') \<Longrightarrow> sup_step w (EvStart argv fault now) w'"
  by (auto simp: start_world_def intro: sup_step.intros split: sum.splits)

lemma sup_inv_start: "sup_inv w \<Longrightarrow> sup_inv (snd (start_world argv fault now w))"
  using start_world_step [of argv fault now w] sup_inv_step by (metis prod.collapse)

lemma sup_inv_stop:
  assumes "sup_inv w" shows "sup_inv (stop_world err w)"
proof (cases "sv_state (sw_sup w) = SupRunning")
  case True
  with assms obtain c where c: "sv_cmd (sw_sup w) = Some c" "current_ok w c"
    by (cases "sv_cmd (sw_sup w)") (simp_all add: sup_inv_def)
  with True have live: "map_of (sw_log w) c = None" "set (sw_alive w) \<subseteq> {c}" "fst ` set (sw_gone w) \<subseteq> {c}"
    by (auto simp: current_ok_def split: option.splits)
  then have "removeAll c (sw_alive w) = []" "filter (\<lambda>(k, _). k \<noteq> c) (sw_gone w) = []"
    by (auto simp: removeAll_filter_not_eq filter_empty_conv)
  with assms True c show ?thesis
    by (auto simp: sup_inv_def current_ok_def stop_world_def Stop_begin_def classify_exit_def exit_state_def Let_def)
qed (use assms in \<open>simp add: stop_world_def Stop_begin_def\<close>)

lemma stop_world_down: "sv_state (sw_sup (stop_world err w)) \<noteq> SupRunning" if "sup_inv w"
  using that by (auto simp: stop_world_def Stop_begin_def classify_exit_def sup_inv_def split: option.splits)

section \<open>What a start leaves\<close>

lemma launch_engine_ok:
  "launch_engine argv fault now d = (None, d') \<Longrightarrow>
     is_up d' \<and> \<not> is_up d \<and> sv_cmd (sup_of d') = Some (sw_next (dm_world d)) \<and> d' = (forget_engine d)\<lparr>dm_world := dm_world d', dm_act := markActive now (dm_act d)\<rparr>"
  by (auto simp: launch_engine_def start_world_def Start_sup_Inr is_up_def sup_of_def forget_engine_def Let_def
      split: sum.splits prod.splits)

lemma launch_engine_refused:
  "launch_engine argv fault now d = (Some e, d') \<Longrightarrow> d' = forget_engine d"
  by (auto simp: launch_engine_def start_world_def forget_engine_def Let_def split: sum.splits prod.splits)

lemma serve_config_frame [simp]:
  "dm_world (serve_config dc d) = dm_world d" "dm_act (serve_config dc d) = dm_act d"
  "dm_key (serve_config dc d) = dm_key d" "dm_stored (serve_config dc d) = dm_stored d"
  by (simp_all add: serve_config_def SetServed_def split: option.splits)

text \<open>An engine that was started is reported with nothing of the engine before it.\<close>

definition fresh_readings :: "int \<Rightarrow> 'f daemon \<Rightarrow> bool" where
  "fresh_readings now d \<longleftrightarrow>
     \<not> es_have (dm_sample d) \<and> es_tokens (dm_sample d) = None \<and> \<not> rd_have (dm_ready d) \<and> \<not> sy_have (dm_system d) \<and>
     dm_hist d = [] \<and> sp_value (dm_speed d) = None \<and>
     ac_lastActive (dm_act d) = Some now \<and> ac_lastCounter (dm_act d) = None"

lemma forget_engine_fresh:
  "fresh_readings now ((forget_engine d)\<lparr>dm_world := w, dm_act := markActive now a\<rparr>)"
  by (simp add: fresh_readings_def forget_engine_def forget_sample_def forget_ready_def forget_system_def
      forget_speed_def clear_history_def markActive_def)

lemma start_config_ok:
  assumes "start_config hk fault now dc d = (None, d')"
  shows "is_up d' \<and> \<not> is_up d \<and> fresh_readings now d' \<and> sv_cmd (sup_of d') = Some (sw_next (dm_world d))"
proof -
  from assms obtain argv d1 where "launch_engine argv fault now d1 = (None, d')" "dm_world d1 = dm_world d"
    by (auto simp: start_config_def SetScrape_def SetEngineEndpoint_def Let_def split: sum.splits)
  with launch_engine_ok [of argv fault now d1 d'] show ?thesis
    using forget_engine_fresh [where now = now and d = d1 and w = "dm_world d'" and a = "dm_act d1"]
    by (auto simp: is_up_def sup_of_def)
qed

lemma StartEngine_ok:
  "StartEngine hk fault now d = (None, d') \<Longrightarrow>
     is_up d' \<and> \<not> is_up d \<and> fresh_readings now d' \<and> sv_cmd (sup_of d') = Some (sw_next (dm_world d))"
  by (auto simp: StartEngine_def dest: start_config_ok split: stored_config.splits)

lemma fresh_metrics:
  "fresh_readings now d \<Longrightarrow>
     st_Tokens (Metrics t d) = None \<and> st_Speed (Metrics t d) = None \<and> st_History (Metrics t d) = [] \<and>
     st_Errors (Metrics t d) = [] \<and> st_CPU (Metrics t d) = None \<and> st_Memory (Metrics t d) = None \<and>
     st_GPUs (Metrics t d) = [] \<and> st_Ready (Metrics t d) = '''' \<and> ns_Ready (Status t d) = '''' \<and>
     ns_LastActiveAt (Status t d) = rfc3339 now \<and> st_LastActiveAt (Metrics t d) = rfc3339 now"
  by (auto simp: fresh_readings_def Metrics_def Status_def running_stats_def apply_system_def read_sample_def
      current_speed_def readinessField_def read_ready_def activity_field_def snapshot_activity_def
      markActive_def snapshot_history_def Let_def Status_sup_def split: prod.splits)

end
