(* ===== verification/DaemonApi.thy ===== *)
theory DaemonApi
  imports DaemonCore HttpGate
begin

text \<open>
  \<^verbatim>\<open>internal/daemon/api.go\<close>: the control API over the daemon. The JSON decoders are arguments, as is what
  the calls a request makes to the disk and to the engine's process come to. A path is one the mux does
  not redirect: it holds no empty and no dot element.
\<close>

section \<open>Requests and replies\<close>

record daemon_request =
  dq_method :: string
  dq_path :: string
  dq_query :: "(string \<times> string) list"
  dq_auth :: string
  dq_body :: "string + string"

record daemon_io =
  io_hooks :: hooks
  io_now :: int
  io_push :: "(string \<times> stored_config) option"
  io_key :: "(string \<times> string option) option"
  io_launch :: "string option"
  io_exit :: "string option"
  io_log :: log_file
  io_decode_start :: "string \<Rightarrow> string + deploy_config \<times> string"
  io_decode_config :: "string \<Rightarrow> string + deploy_config"

datatype api_failure =
    Unauthenticated
  | MuxNotFound
  | MuxNotAllowed
  | BodyUnread string
  | NotDecoded string
  | EngineUp string
  | Failed daemon_error
  | BadNumber string string
  | NegativeOffset
  | LogUnread string

datatype 'f daemon_body =
    StatusBody node_status
  | StatsBody "'f stats"
  | LogsBody logs_response
  | MessageBody string
  | ErrorBody api_failure

type_synonym 'f daemon_reply = "nat \<times> 'f daemon_body"

definition startBodyLimit :: nat where
  "startBodyLimit = 1024 * 1024"

section \<open>The handlers\<close>

definition handleStatus :: "daemon_io \<Rightarrow> 'f daemon \<Rightarrow> 'f daemon_reply \<times> 'f daemon" where
  "handleStatus io d = ((200, StatusBody (Status (io_now io) d)), d)"

definition start_stored :: "daemon_io \<Rightarrow> 'f daemon \<Rightarrow> 'f daemon_reply \<times> 'f daemon" where
  "start_stored io d =
     (case StartEngine (io_hooks io) (io_launch io) (io_now io) d of
        (Some e, d') \<Rightarrow> ((if is_up d' then 409 else 400, ErrorBody (Failed e)), d')
      | (None, d') \<Rightarrow> ((200, StatusBody (Status (io_now io) d')), d'))"

definition engine_name :: "'f daemon \<Rightarrow> string" where
  "engine_name d = (case sv_argv (sup_of d) of [] \<Rightarrow> '''' | a # _ \<Rightarrow> a)"

definition handleStart :: "daemon_io \<Rightarrow> daemon_request \<Rightarrow> 'f daemon \<Rightarrow> 'f daemon_reply \<times> 'f daemon" where
  "handleStart io r d =
     (case dq_body r of
        Inl e \<Rightarrow> ((400, ErrorBody (BodyUnread e)), d)
      | Inr bytes \<Rightarrow>
          (let body = take startBodyLimit bytes in
           if trim_space body = '''' then start_stored io d
           else if is_up d then ((409, ErrorBody (EngineUp (engine_name d))), d)
           else (case io_decode_start io body of
               Inl e \<Rightarrow> ((400, ErrorBody (NotDecoded e)), d)
             | Inr (dc, key) \<Rightarrow>
                 (case Push (io_hooks io) (io_push io) dc d of
                    (Some e, d') \<Rightarrow> ((400, ErrorBody (Failed e)), d')
                  | (None, d') \<Rightarrow>
                      (case SetEngineKey (io_key io) key d' of
                         (Some e, d'') \<Rightarrow> ((500, ErrorBody (Failed e)), d'')
                       | (None, d'') \<Rightarrow> start_stored io d'')))))"

definition handleStop :: "daemon_io \<Rightarrow> 'f daemon \<Rightarrow> 'f daemon_reply \<times> 'f daemon" where
  "handleStop io d =
     (let d' = Stop_daemon (io_exit io) d in ((200, StatusBody (Status (io_now io) d')), d'))"

definition handleMetrics :: "daemon_io \<Rightarrow> 'f daemon \<Rightarrow> 'f daemon_reply \<times> 'f daemon" where
  "handleMetrics io d = ((200, StatsBody (Metrics (io_now io) d)), d)"

definition int64Param :: "daemon_request \<Rightarrow> string \<Rightarrow> int \<Rightarrow> api_failure + int" where
  "int64Param r name missing =
     (let raw = get_or '''' (map_of (dq_query r)) name in
      if raw = '''' then Inr missing
      else (case parse_int raw of None \<Rightarrow> Inl (BadNumber name raw) | Some v \<Rightarrow> Inr v))"

definition handleLogs :: "daemon_io \<Rightarrow> daemon_request \<Rightarrow> 'f daemon \<Rightarrow> 'f daemon_reply \<times> 'f daemon" where
  "handleLogs io r d =
     (case int64Param r ''offset'' TailLog of
        Inl e \<Rightarrow> ((400, ErrorBody e), d)
      | Inr offset \<Rightarrow>
          (case int64Param r ''limit'' 0 of
             Inl e \<Rightarrow> ((400, ErrorBody e), d)
           | Inr limit \<Rightarrow>
               if offset < 0 \<and> offset \<noteq> TailLog then ((400, ErrorBody NegativeOffset), d)
               else (case ReadLog (sv_LogPath (sup_of d)) (io_log io) offset limit of
                   Inl e \<Rightarrow> ((500, ErrorBody (LogUnread e)), d)
                 | Inr out \<Rightarrow> ((200, LogsBody out), d))))"

definition handleDeployConfig :: "daemon_io \<Rightarrow> daemon_request \<Rightarrow> 'f daemon \<Rightarrow> 'f daemon_reply \<times> 'f daemon" where
  "handleDeployConfig io r d =
     (case dq_body r of
        Inl e \<Rightarrow> ((400, ErrorBody (NotDecoded e)), d)
      | Inr bytes \<Rightarrow>
          (case io_decode_config io bytes of
             Inl e \<Rightarrow> ((400, ErrorBody (NotDecoded e)), d)
           | Inr dc \<Rightarrow>
               (case Push (io_hooks io) (io_push io) dc d of
                  (Some e, d') \<Rightarrow> ((400, ErrorBody (Failed e)), d')
                | (None, d') \<Rightarrow>
                    ((200, MessageBody (if is_up d'
                        then ''stored; the running engine is untouched '' @ [CHR 0xE2, CHR 0x80, CHR 0x94] @
                          '' it takes effect on next start''
                        else ''stored'')), d'))))"

text \<open>The table of routes, and the mux over it: a \<^verbatim>\<open>GET\<close> pattern takes \<^verbatim>\<open>HEAD\<close> as well.\<close>

definition Routes :: "(string \<times> string) list" where
  "Routes = [(''GET'', ''/v1/status''), (''POST'', ''/v1/start''), (''POST'', ''/v1/stop''),
     (''GET'', ''/v1/metrics''), (''GET'', ''/v1/logs''), (''PUT'', ''/v1/deploy-config'')]"

definition mux :: "string \<Rightarrow> string \<Rightarrow> api_failure + string" where
  "mux method path =
     (if (method, path) \<in> set Routes \<or> method = ''HEAD'' \<and> (''GET'', path) \<in> set Routes then Inr path
      else if path \<in> snd ` set Routes then Inl MuxNotAllowed else Inl MuxNotFound)"

definition route_daemon :: "daemon_io \<Rightarrow> daemon_request \<Rightarrow> 'f daemon \<Rightarrow> 'f daemon_reply \<times> 'f daemon" where
  "route_daemon io r d =
     (case mux (dq_method r) (dq_path r) of
        Inl e \<Rightarrow> ((if e = MuxNotAllowed then 405 else 404, ErrorBody e), d)
      | Inr path \<Rightarrow>
          if path = ''/v1/status'' then handleStatus io d
          else if path = ''/v1/start'' then handleStart io r d
          else if path = ''/v1/stop'' then handleStop io d
          else if path = ''/v1/metrics'' then handleMetrics io d
          else if path = ''/v1/logs'' then handleLogs io r d
          else handleDeployConfig io r d)"

definition authenticated :: "daemon_io \<Rightarrow> string \<Rightarrow> daemon_request \<Rightarrow> 'f daemon \<Rightarrow> 'f daemon_reply \<times> 'f daemon" where
  "authenticated io token r d =
     (if authorized token (dq_auth r) then route_daemon io r d else ((401, ErrorBody Unauthenticated), d))"

interpretation daemon_api: bearer_gate "authenticated io" dq_auth "(401, ErrorBody Unauthenticated)" for io
  by unfold_locales (simp add: authenticated_def)

section \<open>Starts\<close>


text \<open>
  A start that carries a config while an engine runs is refused and changes nothing, neither what is
  stored nor what is reported.
\<close>

theorem start_beside_engine_refused:
  assumes "is_up d" and "dq_body r = Inr bytes" and "trim_space (take startBodyLimit bytes) \<noteq> ''''"
  shows "handleStart io r d = ((409, ErrorBody (EngineUp (engine_name d))), d)"
  using assms by (simp add: handleStart_def)

text \<open>
  A start without a body while an engine runs is refused as well, but the running engine's readings
  are dropped before the refusal: its counters, its history and its readiness are no longer reported.
\<close>

theorem bare_start_drops_readings:
  assumes "is_up d" and "dq_body r = Inr ''''" and "dm_stored d = Stored dc"
    and "hk_BuildArgv (io_hooks io) (Some dc) = Inr b" and "dm_key d = None" and "bu_argv b \<noteq> []"
  shows "\<exists>d'. handleStart io r d = ((409, ErrorBody (Failed (EngineRefused (AlreadyRunning (hd (sv_argv (sup_of d))))))), d') \<and>
     dm_world d' = dm_world d \<and> st_Tokens (Metrics t d') = None \<and> st_History (Metrics t d') = [] \<and>
     ns_Ready (Status t d') = ''''"
proof -
  let ?v = "serve_config (Some dc) (SetEngineEndpoint (bu_endpoint b) (SetScrape (bu_scrape b) d))"
  have "start_world (bu_argv b) (io_launch io) (io_now io) (dm_world d) =
      (Some (AlreadyRunning (hd (sv_argv (sup_of d)))), dm_world d)"
    using assms(1,6) by (simp add: start_world_def Start_sup_def is_up_def sup_of_def)
  then have "launch_engine (bu_argv b) (io_launch io) (io_now io) ?v =
      (Some (EngineRefused (AlreadyRunning (hd (sv_argv (sup_of d))))), forget_engine ?v)"
    by (simp add: launch_engine_def forget_engine_def SetScrape_def SetEngineEndpoint_def Let_def)
  then have "StartEngine (io_hooks io) (io_launch io) (io_now io) d =
      (Some (EngineRefused (AlreadyRunning (hd (sv_argv (sup_of d))))), forget_engine ?v)"
    using assms(3-5)
    by (simp add: StartEngine_def start_config_def key_args_def storedEngineKeyPath_def SetScrape_def
        SetEngineEndpoint_def Let_def)
  moreover have "is_up (forget_engine ?v)"
    using assms(1) by (simp add: is_up_def sup_of_def forget_engine_def SetScrape_def SetEngineEndpoint_def)
  ultimately have "handleStart io r d =
      ((409, ErrorBody (Failed (EngineRefused (AlreadyRunning (hd (sv_argv (sup_of d))))))), forget_engine ?v)"
    using assms(2) by (simp add: handleStart_def start_stored_def trim_space_def trim_left_by_def trim_right_by_def)
  moreover have "dm_world (forget_engine ?v) = dm_world d"
    by (simp add: forget_engine_def SetScrape_def SetEngineEndpoint_def)
  moreover have "st_Tokens (Metrics t (forget_engine v)) = None" "st_History (Metrics t (forget_engine v)) = []"
    "ns_Ready (Status t (forget_engine v)) = ''''" for v :: "'a daemon"
    by (simp_all add: Metrics_def Status_def running_stats_def read_sample_def readinessField_def read_ready_def
        forget_engine_def forget_sample_def forget_ready_def clear_history_def snapshot_history_def Let_def
        Status_sup_def split: prod.splits)
  ultimately show ?thesis by blast
qed

section \<open>What is said of the engine that runs\<close>

text \<open>
  Storing a config while an engine runs leaves the engine as it is, but from then on the daemon
  reports the new config's model as the one that is running, and a caller that selects a node by model
  takes the node for one that serves it.
\<close>

theorem push_misreports_model:
  assumes "is_up d" and "dq_body r = Inr bytes" and "io_decode_config io bytes = Inr dc"
    and "hk_ValidateConfig (io_hooks io) dc = None" and "io_push io = None"
    and "dc_ModelID dc = w_Model w" and "w_Model w \<noteq> ''''"
  shows "\<exists>b d'. handleDeployConfig io r d = ((200, b), d') \<and> dm_world d' = dm_world d \<and>
     ns_Model (Status t d') = w_Model w \<and>
     serves w \<lparr>ca_entry = n, ca_index = k,
       ca_result = \<lparr>nr_Name = nc_Name n, nr_Outcome = OutcomeOK, nr_Err = None, nr_Status = Status t d'\<rparr>\<rparr>"
  using assms
  by (auto simp: handleDeployConfig_def Push_def SetServed_def serves_def matches_def servingNames_def nr_OK_def
      Status_def Status_sup_def is_up_def sup_of_def state_text_def split: prod.splits)

section \<open>The key\<close>

text \<open>Two daemons that differ in nothing but the key, and both have one or both have none.\<close>

definition alike :: "'f daemon \<Rightarrow> 'f daemon \<Rightarrow> bool" where
  "alike d e \<longleftrightarrow> (\<exists>k. e = d\<lparr>dm_key := k\<rparr> \<and> (k = None) = (dm_key d = None))"

lemma alike_refl: "alike d d"
  unfolding alike_def by (rule exI [of _ "dm_key d"]) simp

lemma key_frame [simp]:
  "activity_field t (d\<lparr>dm_key := k\<rparr>) = activity_field t d" "readinessField (d\<lparr>dm_key := k\<rparr>) = readinessField d"
  "sup_of (d\<lparr>dm_key := k\<rparr>) = sup_of d" "running_stats t (d\<lparr>dm_key := k\<rparr>) st = running_stats t d st"
  by (simp_all add: activity_field_def readinessField_def sup_of_def running_stats_def)

lemma alike_Status: "alike d e \<Longrightarrow> Status t e = Status t d"
  by (auto simp: alike_def Status_def split: prod.splits)

lemma alike_Metrics: "alike d e \<Longrightarrow> Metrics t e = Metrics t d"
  by (auto simp: alike_def Metrics_def Let_def split: prod.splits)

lemma alike_frame: "alike d e \<Longrightarrow> is_up e = is_up d \<and> engine_name e = engine_name d \<and> sup_of e = sup_of d \<and> dm_world e = dm_world d"
  by (auto simp: alike_def is_up_def engine_name_def sup_of_def)

text \<open>What an operation of two such daemons comes to: the same answer, and two such daemons again.\<close>

definition alike_outcome :: "'r \<times> 'f daemon \<Rightarrow> 'r \<times> 'f daemon \<Rightarrow> bool" where
  "alike_outcome x y \<longleftrightarrow> fst x = fst y \<and> alike (snd x) (snd y)"

lemma alike_outcome_simp [simp]: "alike_outcome (a, d) (b, e) \<longleftrightarrow> a = b \<and> alike d e"
  by (simp add: alike_outcome_def)

lemma alike_Push: "alike d e \<Longrightarrow> alike_outcome (Push hk f dc d) (Push hk f dc e)"
  by (cases d) (auto simp: alike_def Push_def SetServed_def split: option.splits)

lemma alike_SetEngineKey: "alike d e \<Longrightarrow> alike_outcome (SetEngineKey f key d) (SetEngineKey f key e)"
  by (cases d) (auto simp: alike_def SetEngineKey_def split: option.splits)

lemma alike_launch: "alike d e \<Longrightarrow> alike_outcome (launch_engine argv f now d) (launch_engine argv f now e)"
  by (cases d) (auto simp: alike_def launch_engine_def forget_engine_def Let_def split: prod.splits option.splits)

lemma alike_serve: "alike d e \<Longrightarrow> alike (serve_config dc d) (serve_config dc e)"
  by (cases d) (auto simp: alike_def serve_config_def SetServed_def split: option.splits)

lemma alike_start_config:
  assumes "alike d e" shows "alike_outcome (start_config hk f now dc d) (start_config hk f now dc e)"
proof (cases "hk_BuildArgv hk dc")
  case (Inl err)
  with assms show ?thesis by (simp add: start_config_def)
next
  case (Inr b)
  let ?d = "SetEngineEndpoint (bu_endpoint b) (SetScrape (bu_scrape b) d)"
    and ?e = "SetEngineEndpoint (bu_endpoint b) (SetScrape (bu_scrape b) e)"
  have s: "alike ?d ?e" using assms by (cases d) (auto simp: alike_def SetEngineEndpoint_def SetScrape_def)
  then have same: "key_args hk dc ?e = key_args hk dc ?d"
    unfolding key_args_def by (auto simp: alike_def storedEngineKeyPath_def split: option.splits)
  show ?thesis
  proof (cases "key_args hk dc ?d")
    case (Inl err)
    with Inr s same show ?thesis by (simp add: start_config_def)
  next
    case args: (Inr args)
    with Inr same alike_launch [OF alike_serve [OF s]] show ?thesis by (simp add: start_config_def)
  qed
qed

lemma alike_StartEngine: "alike d e \<Longrightarrow> alike_outcome (StartEngine hk f now d) (StartEngine hk f now e)"
proof -
  assume a: "alike d e"
  then have "dm_stored e = dm_stored d" by (auto simp: alike_def)
  with a alike_start_config [OF a] show ?thesis
    by (simp add: StartEngine_def split: stored_config.splits)
qed

lemma alike_start_stored: "alike d e \<Longrightarrow> alike_outcome (start_stored io d) (start_stored io e)"
  using alike_StartEngine [of d e "io_hooks io" "io_launch io" "io_now io"]
  by (auto simp: start_stored_def alike_Status alike_frame split: prod.splits option.splits)

lemma alike_handleStart: "alike d e \<Longrightarrow> alike_outcome (handleStart io r d) (handleStart io r e)"
proof -
  assume a: "alike d e"
  have keyed: "alike_outcome
      (case SetEngineKey (io_key io) key u of (Some er, v) \<Rightarrow> ((500, ErrorBody (Failed er)), v) | (None, v) \<Rightarrow> start_stored io v)
      (case SetEngineKey (io_key io) key w of (Some er, v) \<Rightarrow> ((500, ErrorBody (Failed er)), v) | (None, v) \<Rightarrow> start_stored io v)"
    if "alike u w" for key and u w :: "'a daemon"
    using alike_SetEngineKey [OF that, of "io_key io" key]
    by (auto simp: alike_start_stored split: prod.splits option.splits)
  have pushed: "alike_outcome
      (case Push (io_hooks io) (io_push io) dc d of (Some er, v) \<Rightarrow> ((400, ErrorBody (Failed er)), v)
       | (None, v) \<Rightarrow> (case SetEngineKey (io_key io) key v of
            (Some er, v) \<Rightarrow> ((500, ErrorBody (Failed er)), v) | (None, v) \<Rightarrow> start_stored io v))
      (case Push (io_hooks io) (io_push io) dc e of (Some er, v) \<Rightarrow> ((400, ErrorBody (Failed er)), v)
       | (None, v) \<Rightarrow> (case SetEngineKey (io_key io) key v of
            (Some er, v) \<Rightarrow> ((500, ErrorBody (Failed er)), v) | (None, v) \<Rightarrow> start_stored io v))" for dc key
    using alike_Push [OF a, of "io_hooks io" "io_push io" dc]
    by (cases "Push (io_hooks io) (io_push io) dc d"; cases "Push (io_hooks io) (io_push io) dc e")
       (auto simp: keyed split: option.splits)
  show ?thesis
    using a pushed alike_start_stored [OF a] alike_frame [OF a]
    by (auto simp: handleStart_def Let_def split: sum.splits)
qed

lemma alike_Stop: "alike d e \<Longrightarrow> alike (Stop_daemon err d) (Stop_daemon err e)"
  by (cases d) (auto simp: alike_def Stop_daemon_def)

lemma alike_handleStop: "alike d e \<Longrightarrow> alike_outcome (handleStop io d) (handleStop io e)"
  by (auto simp: handleStop_def Let_def alike_Stop alike_Status [OF alike_Stop])

lemma alike_handleDeployConfig:
  assumes "alike d e" shows "alike_outcome (handleDeployConfig io r d) (handleDeployConfig io r e)"
proof (cases "dq_body r")
  case (Inr bytes)
  show ?thesis
  proof (cases "io_decode_config io bytes")
    case dc: (Inr dc)
    from alike_Push [OF assms, of "io_hooks io" "io_push io" dc] Inr dc show ?thesis
      by (cases "Push (io_hooks io) (io_push io) dc d"; cases "Push (io_hooks io) (io_push io) dc e")
         (auto simp: handleDeployConfig_def alike_frame split: option.splits)
  qed (use assms Inr in \<open>simp add: handleDeployConfig_def\<close>)
qed (use assms in \<open>simp add: handleDeployConfig_def\<close>)

lemma alike_handleLogs: "alike d e \<Longrightarrow> alike_outcome (handleLogs io r d) (handleLogs io r e)"
  by (auto simp: handleLogs_def alike_frame split: sum.splits)

lemma alike_authenticated: "alike d e \<Longrightarrow> alike_outcome (authenticated io token r d) (authenticated io token r e)"
  by (simp add: authenticated_def route_daemon_def handleStatus_def handleMetrics_def alike_handleStop
      alike_handleStart alike_handleDeployConfig alike_handleLogs alike_Status alike_Metrics alike_Stop
      split: sum.splits)

text \<open>A sequence of requests, each with what it meets: the answers in order and the daemon after them.\<close>

fun answers :: "string \<Rightarrow> (daemon_io \<times> daemon_request) list \<Rightarrow> 'f daemon \<Rightarrow> 'f daemon_reply list \<times> 'f daemon" where
  "answers token [] d = ([], d)"
| "answers token ((io, r) # rs) d =
     (case authenticated io token r d of (rp, d') \<Rightarrow> case answers token rs d' of (rps, d'') \<Rightarrow> (rp # rps, d''))"

lemma alike_answers: "alike d e \<Longrightarrow> alike_outcome (answers token rs d) (answers token rs e)"
proof (induction rs arbitrary: d e)
  case (Cons x rs)
  obtain io r where x: "x = (io, r)" by fastforce
  from alike_authenticated [OF Cons.prems, of io token r]
  have "fst (authenticated io token r d) = fst (authenticated io token r e)"
    and "alike (snd (authenticated io token r d)) (snd (authenticated io token r e))"
    by (simp_all add: alike_outcome_def)
  with Cons.IH show ?case
    unfolding x by (auto simp: alike_outcome_def split: prod.splits) (metis fst_conv snd_conv)+
qed simp

text \<open>
  The key an engine is gated with never shows. Whatever sequence of requests comes, the answers and
  the processes launched are the same for every stored key; only whether there is one makes a
  difference.
\<close>

theorem key_never_shown:
  assumes "(k = None) = (dm_key d = None)"
  shows "fst (answers token rs (d\<lparr>dm_key := k\<rparr>)) = fst (answers token rs d) \<and>
     dm_world (snd (answers token rs (d\<lparr>dm_key := k\<rparr>))) = dm_world (snd (answers token rs d))"
proof -
  have "alike d (d\<lparr>dm_key := k\<rparr>)" using assms by (auto simp: alike_def)
  from alike_answers [OF this, of token rs] show ?thesis
    by (auto simp: alike_outcome_def dest: alike_frame)
qed

section \<open>One engine\<close>

lemma world_of_Push [simp]: "dm_world (snd (Push hk f dc d)) = dm_world d"
  by (auto simp: Push_def SetServed_def split: option.splits)

lemma world_of_SetEngineKey [simp]: "dm_world (snd (SetEngineKey f k d)) = dm_world d"
  by (auto simp: SetEngineKey_def split: option.splits)

lemma sup_inv_launch_engine: "sup_inv (dm_world d) \<Longrightarrow> sup_inv (dm_world (snd (launch_engine argv f now d)))"
  using sup_inv_start [of "dm_world d" argv f now]
  by (auto simp: launch_engine_def forget_engine_def Let_def split: prod.splits option.splits)

lemma sup_inv_StartEngine: "sup_inv (dm_world d) \<Longrightarrow> sup_inv (dm_world (snd (StartEngine hk f now d)))"
proof -
  assume a: "sup_inv (dm_world d)"
  have "sup_inv (dm_world (snd (start_config hk f now dc d)))" for dc
    using a by (auto simp: start_config_def SetScrape_def SetEngineEndpoint_def Let_def
        intro!: sup_inv_launch_engine split: sum.splits)
  with a show ?thesis by (simp add: StartEngine_def split: stored_config.splits)
qed

lemma sup_inv_start_stored: "sup_inv (dm_world d) \<Longrightarrow> sup_inv (dm_world (snd (start_stored io d)))"
  using sup_inv_StartEngine [of d "io_hooks io" "io_launch io" "io_now io"]
  by (auto simp: start_stored_def split: prod.splits option.splits)

lemma sup_inv_handleStart:
  assumes "sup_inv (dm_world d)" shows "sup_inv (dm_world (snd (handleStart io r d)))"
proof -
  have "sup_inv (dm_world (snd (start_stored io v)))"
    if "Push hk f dc d = (x, u)" "SetEngineKey g k u = (y, v)" for hk f dc x u g k y v
    using assms that world_of_Push [of hk f dc d] world_of_SetEngineKey [of g k u]
    by (intro sup_inv_start_stored) simp
  moreover have "sup_inv (dm_world u)" if "Push hk f dc d = (x, u)" for hk f dc x u
    using assms that world_of_Push [of hk f dc d] by simp
  moreover have "sup_inv (dm_world v)" if "SetEngineKey g k u = (y, v)" "sup_inv (dm_world u)" for g k and u v :: "'a daemon" and y
    using that world_of_SetEngineKey [of g k u] by simp
  ultimately show ?thesis
    using assms sup_inv_start_stored [OF assms]
    by (auto simp: handleStart_def Let_def split: sum.splits prod.splits option.splits)
qed

lemma sup_inv_authenticated:
  assumes "sup_inv (dm_world d)" shows "sup_inv (dm_world (snd (authenticated io token r d)))"
proof -
  have "sup_inv (dm_world (snd (handleDeployConfig io r d)))"
  proof -
    have "sup_inv (dm_world u)" if "Push (io_hooks io) (io_push io) dc d = (x, u)" for dc x u
      using assms that world_of_Push [of "io_hooks io" "io_push io" dc d] by simp
    with assms show ?thesis
      by (auto simp: handleDeployConfig_def split: sum.splits prod.splits option.splits)
  qed
  with assms show ?thesis
    by (auto simp: authenticated_def route_daemon_def handleStatus_def handleMetrics_def handleStop_def handleLogs_def
        Stop_daemon_def Let_def sup_inv_handleStart sup_inv_stop split: sum.splits)
qed

lemma sup_inv_answers: "sup_inv (dm_world d) \<Longrightarrow> sup_inv (dm_world (snd (answers token rs d)))"
proof (induction rs arbitrary: d)
  case (Cons x rs)
  obtain io r where x: "x = (io, r)" by fastforce
  from Cons.IH [OF sup_inv_authenticated [OF Cons.prems, of io token r]] show ?case
    by (cases "authenticated io token r d"; cases "answers token rs (snd (authenticated io token r d))") (simp add: x)
qed simp

text \<open>
  Whatever sequence of requests a daemon is sent, there is never more than one engine process, and
  after a stop there is none.
\<close>

theorem api_one_engine:
  assumes "sup_inv (dm_world d)"
  shows "length (sw_alive (dm_world (snd (answers token rs d)))) \<le> 1 \<and>
     sw_alive (dm_world (snd (handleStop io (snd (answers token rs d))))) = []"
proof -
  have inv: "sup_inv (dm_world (snd (answers token rs d)))" using assms by (rule sup_inv_answers)
  have "length (sw_alive w) \<le> 1 \<and> (sv_state (sw_sup w) \<noteq> SupRunning \<longrightarrow> sw_alive w = [])" if "sup_inv w" for w
    using that by (auto simp: sup_inv_def current_ok_def split: option.splits)
  with inv sup_inv_stop [OF inv] stop_world_down [OF inv] show ?thesis
    by (simp add: handleStop_def Stop_daemon_def Let_def)
qed

section \<open>A sample that outlives its engine\<close>

text \<open>
  A sample whose engine is stopped and replaced while the engine's answer is under way is recorded
  all the same: the daemon then reports the counters of the engine before as those of the new one.
\<close>

theorem sample_outlives_engine:
  assumes "sup_inv (dm_world d)" and "sample_begin d = Some target"
    and "StartEngine hk fault now (Stop_daemon err d) = (None, d')"
  shows "st_Tokens (Metrics t (sample_end target (Inr tk) later d')) = Some tk \<and>
     sv_cmd (sup_of (sample_end target (Inr tk) later d')) \<noteq> sv_cmd (sup_of d)"
proof -
  have next_same: "sw_next (stop_world err w) = sw_next w" for w
    by (auto simp: stop_world_def Let_def split: prod.splits option.splits)
  have "is_up d'" "sv_cmd (sup_of d') = Some (sw_next (dm_world d))"
    using StartEngine_ok [OF assms(3)] by (simp_all add: Stop_daemon_def next_same)
  moreover have "sv_cmd (sup_of d) \<noteq> Some (sw_next (dm_world d))"
    using assms(1) by (auto simp: sup_inv_def current_ok_def sup_of_def split: option.splits)
  ultimately show ?thesis
    by (auto simp: Metrics_def running_stats_def sample_end_def record_sample_def read_sample_def sup_of_def is_up_def
        Status_sup_def Let_def split: prod.splits)
qed

section \<open>A small daemon\<close>

definition new_daemon :: "string \<Rightarrow> 'f daemon" where
  "new_daemon logPath =
     \<lparr>dm_world = sup_begin logPath, dm_Version = '''', dm_SampleInterval = 0, dm_stored = NothingStored, dm_key = None,
      dm_act = no_activity,
      dm_sample = \<lparr>es_tokens = None, es_err = None, es_baseURL = '''', es_have = False\<rparr>,
      dm_ready = \<lparr>rd_ready = False, rd_have = False\<rparr>, dm_hist = [],
      dm_system = \<lparr>sy_reading = no_figures, sy_have = False\<rparr>,
      dm_speed = \<lparr>sp_value = None, sp_observed = 0, sp_lastTick = 0\<rparr>, dm_runner = '''', dm_model = '''',
      dm_servedName = '''', dm_scrape = no_target, dm_endpoint = None\<rparr>"

definition demo_config :: deploy_config where
  "demo_config = empty_deploy\<lparr>dc_Runner := ''llamacpp'', dc_ModelID := ''m''\<rparr>"

definition demo_hooks :: hooks where
  "demo_hooks =
     \<lparr>hk_BuildArgv = (\<lambda>dc. case dc of None \<Rightarrow> Inl ''nothing to serve''
          | Some c \<Rightarrow> Inr \<lparr>bu_argv = [''llama-server'', dc_ModelID c],
              bu_scrape = \<lparr>sc_BaseURL = ''http://127.0.0.1:8080'', sc_Engine = ''llamacpp'', sc_APIKey = ''''\<rparr>,
              bu_endpoint = None\<rparr>),
      hk_EngineKeyArgs = None, hk_ValidateConfig = (\<lambda>_. None), hk_Dir = ''/d''\<rparr>"

definition demo_io :: daemon_io where
  "demo_io = \<lparr>io_hooks = demo_hooks, io_now = 5000000000, io_push = None, io_key = None, io_launch = None, io_exit = None,
     io_log = NoFile, io_decode_start = (\<lambda>_. Inr (demo_config, '''')), io_decode_config = (\<lambda>_. Inr demo_config)\<rparr>"

definition demo_request :: "string \<Rightarrow> daemon_request" where
  "demo_request body = \<lparr>dq_method = ''POST'', dq_path = ''/v1/start'', dq_query = [], dq_auth = '''', dq_body = Inr body\<rparr>"

lemmas demo_daemon = new_daemon_def demo_config_def empty_deploy_def demo_hooks_def demo_io_def demo_request_def

definition up_daemon :: "string daemon" where
  "up_daemon = snd (StartEngine demo_hooks None 5000000000 ((new_daemon ''log'')\<lparr>dm_stored := Stored demo_config\<rparr>))"

lemmas start_evaluation = StartEngine_def start_config_def key_args_def storedEngineKeyPath_def launch_engine_def
  start_world_def Start_sup_def serve_config_def SetServed_def SetScrape_def SetEngineEndpoint_def forget_engine_def
  sup_begin_def NewSupervisor_def

lemma up_daemon:
  "StartEngine demo_hooks None 5000000000 ((new_daemon ''log'')\<lparr>dm_stored := Stored demo_config\<rparr>) = (None, up_daemon)"
  "is_up up_daemon" "dm_stored up_daemon = Stored demo_config" "dm_key up_daemon = None"
  "sample_begin up_daemon = Some \<lparr>sc_BaseURL = ''http://127.0.0.1:8080'', sc_Engine = ''llamacpp'', sc_APIKey = ''''\<rparr>"
  "sv_argv (sup_of up_daemon) = [''llama-server'', ''m'']"
  by (simp_all add: up_daemon_def demo_daemon start_evaluation is_up_def sup_of_def sample_begin_def Let_def)

lemma up_daemon_inv: "sup_inv (dm_world up_daemon)"
  using sup_inv_StartEngine [of "(new_daemon ''log'')\<lparr>dm_stored := Stored demo_config\<rparr>" demo_hooks None 5000000000]
  by (simp add: up_daemon_def new_daemon_def sup_inv_begin)

lemma demo_start:
  "handleStart demo_io (demo_request '''') ((new_daemon ''log'')\<lparr>dm_stored := Stored demo_config\<rparr>) =
     ((200, StatusBody (Status 5000000000 up_daemon)), up_daemon)"
  by (simp add: handleStart_def demo_request_def start_stored_def demo_io_def up_daemon
      trim_space_def trim_left_by_def trim_right_by_def)


lemma start_beside_engine_refused_witness:
  "handleStart demo_io (demo_request ''{}'') up_daemon = ((409, ErrorBody (EngineUp ''llama-server'')), up_daemon)"
  using start_beside_engine_refused [of up_daemon "demo_request ''{}''" "''{}''" demo_io] up_daemon
  by (simp add: demo_request_def engine_name_def startBodyLimit_def trim_space_def trim_left_by_def trim_right_by_def is_space_def)

lemma bare_start_drops_readings_witness:
  "\<exists>d'. handleStart demo_io (demo_request '''') up_daemon =
       ((409, ErrorBody (Failed (EngineRefused (AlreadyRunning ''llama-server'')))), d') \<and>
     dm_world d' = dm_world up_daemon \<and> st_Tokens (Metrics 7 d') = None \<and> st_History (Metrics 7 d') = [] \<and>
     ns_Ready (Status 7 d') = ''''"
  using bare_start_drops_readings [of up_daemon "demo_request ''''" demo_config demo_io
      "\<lparr>bu_argv = [''llama-server'', ''m''],
        bu_scrape = \<lparr>sc_BaseURL = ''http://127.0.0.1:8080'', sc_Engine = ''llamacpp'', sc_APIKey = ''''\<rparr>,
        bu_endpoint = None\<rparr>" 7] up_daemon
  by (simp add: demo_request_def demo_io_def demo_hooks_def demo_config_def)

lemma push_misreports_model_witness:
  "\<exists>b d'. handleDeployConfig demo_io (demo_request ''{}'') up_daemon = ((200, b), d') \<and>
     dm_world d' = dm_world up_daemon \<and> ns_Model (Status 7 d') = ''m''"
proof -
  have "dq_body (demo_request ''{}'') = Inr ''{}''" "io_decode_config demo_io ''{}'' = Inr demo_config"
    "hk_ValidateConfig (io_hooks demo_io) demo_config = None" "io_push demo_io = None" "dc_ModelID demo_config = ''m''"
    by (simp_all add: demo_request_def demo_io_def demo_hooks_def demo_config_def)
  then show ?thesis
    using push_misreports_model [OF up_daemon(2), of "demo_request ''{}''" "''{}''" demo_io demo_config
        "\<lparr>w_Model = ''m'', w_Alias = '''', w_ModelID = '''', w_Node = '''', w_Prefer = ''''\<rparr>" 7] by simp blast
qed

lemma key_never_shown_witness:
  "fst (answers '''' [(demo_io, demo_request '''')] (up_daemon\<lparr>dm_key := Some ''a''\<rparr>)) =
   fst (answers '''' [(demo_io, demo_request '''')] (up_daemon\<lparr>dm_key := Some ''b''\<rparr>))"
  using key_never_shown [of "Some ''a''" "up_daemon\<lparr>dm_key := Some ''b''\<rparr>" "''''" "[(demo_io, demo_request '''')]"]
  by (simp del: answers.simps)

lemma api_one_engine_witness:
  "length (sw_alive (dm_world (snd (answers '''' [(demo_io, demo_request '''')] up_daemon)))) \<le> 1"
  using api_one_engine [OF up_daemon_inv] by blast

lemma sample_outlives_engine_witness:
  "\<exists>d' target. StartEngine demo_hooks None 9000000000 (Stop_daemon None up_daemon) = (None, d') \<and>
     st_Tokens (Metrics 9000000000 (sample_end target (Inr (demo_tokens 1 7)) 9000000000 d')) = Some (demo_tokens 1 7)"
proof -
  have s: "StartEngine demo_hooks None 9000000000 (Stop_daemon None up_daemon) =
      (None, snd (StartEngine demo_hooks None 9000000000 (Stop_daemon None up_daemon)))"
    by (simp add: up_daemon_def demo_daemon start_evaluation Stop_daemon_def stop_world_def Let_def Stop_begin_def
        classify_exit_def)
  show ?thesis
    using sample_outlives_engine [OF up_daemon_inv up_daemon(5) s] s by blast
qed

end
