(* ===== verification/NodeDaemon.thy ===== *)
theory NodeDaemon
  imports Engines DaemonApi
begin

text \<open>
  The daemon as the command line puts it together (\<^verbatim>\<open>cmd/spinloop/serve_daemon.go\<close>): \<^verbatim>\<open>spinloop daemon\<close>,
  which serves what a start request or the stored config says, and \<^verbatim>\<open>spinloop serve\<close>, which runs one
  engine of a Spinloop in the foreground under the same supervisor.
\<close>

section \<open>The daemon's hooks\<close>

definition quoted :: "string \<Rightarrow> string" where
  "quoted s = [CHR 0x22] @ s @ [CHR 0x22]"

definition servedProviders :: "surroundings_cli \<Rightarrow> string list" where
  "servedProviders env = insertion_sort (elementwise (<)) (map fst (engines env))"

definition orList :: "string list \<Rightarrow> string" where
  "orList names =
     (if length names = 1 then hd names
      else join_with '', '' (butlast names) @ '' or '' @ last names)"

text \<open>The errors that a start request gets to see, as text.\<close>

definition serve_error_text :: "surroundings_cli \<Rightarrow> serve_error \<Rightarrow> string" where
  "serve_error_text env e =
     (case e of
        NotServed p \<Rightarrow> ''PROVIDER '' @ quoted p @ '' cannot be served locally: serve runs a self-hosted engine, so use '' @
          orList (servedProviders env)
      | BadParallel s \<Rightarrow> ''invalid PARALLEL '' @ quoted s @ '': must be a positive integer''
      | BadContext (InvalidSize s) \<Rightarrow> ''invalid context size '' @ quoted s
      | BadContext (SizeTooSmall s) \<Rightarrow> ''context size '' @ quoted s @ '' must be at least 1 token''
      | DeployNoModel \<Rightarrow> ''deploy config names no model: set modelId''
      | NothingToServe \<Rightarrow> ''nothing to serve: no deploy config has been pushed to this daemon.''
      | ForegroundManaged \<Rightarrow> ''the engine is foreground-managed by this serve; restart `spinloop serve` to change it''
      | UnknownEngineKey \<Rightarrow> ''cannot gate an engine without knowing which one it is''
      | NoKeyFile r \<Rightarrow> r @ '' cannot be gated with an API key: it has no option to read one from a file, '' @
          ''and spinloop will not pass a key on a command line where any local user can read it''
      | _ \<Rightarrow> ''the command cannot be built'')"

definition built_for :: "surroundings_cli \<Rightarrow> serve_engine \<Rightarrow> string \<Rightarrow> string list \<Rightarrow> built_command" where
  "built_for env engine baseURL argv =
     (case scrapeTargetFor env engine baseURL argv of (url, dialect, key) \<Rightarrow>
        \<lparr>bu_argv = argv, bu_scrape = \<lparr>sc_BaseURL = url, sc_Engine = dialect, sc_APIKey = key\<rparr>,
         bu_endpoint = engineEndpointFor env engine baseURL argv\<rparr>)"

definition daemon_BuildArgv :: "surroundings_cli \<Rightarrow> deploy_config option \<Rightarrow> serve_error + built_command" where
  "daemon_BuildArgv env dc =
     (case dc of
        None \<Rightarrow> Inl NothingToServe
      | Some c \<Rightarrow>
          (case engineFor env (dc_Runner c) of
             Inl e \<Rightarrow> Inl e
           | Inr engine \<Rightarrow>
               (case argvFromDeployConfig engine c of
                  Inl e \<Rightarrow> Inl e
                | Inr argv \<Rightarrow> Inr (built_for env engine '''' (withMetricsArgs argv engine)))))"

definition daemon_hooks :: "surroundings_cli \<Rightarrow> string \<Rightarrow> hooks" where
  "daemon_hooks env dir =
     \<lparr>hk_BuildArgv = (\<lambda>dc. map_sum (serve_error_text env) id (daemon_BuildArgv env dc)),
      hk_EngineKeyArgs = Some (\<lambda>dc path. map_sum (serve_error_text env) id (engineKeyArgs env dc path)),
      hk_ValidateConfig = (\<lambda>dc. map_option (serve_error_text env) (validateDeployConfig env dc)),
      hk_Dir = dir\<rparr>"

text \<open>
  What the command checks before it listens: the address and the token of its flags, and the exposure
  rule. \<open>None\<close> is that it ends with an error.
\<close>

definition daemon_listens ::
  "(string \<Rightarrow> bool) \<Rightarrow> (string \<Rightarrow> string option) \<Rightarrow> string \<Rightarrow> string list \<Rightarrow> string \<Rightarrow> bool \<Rightarrow> bool \<Rightarrow> string \<Rightarrow> string \<Rightarrow>
     (string \<times> string) option" where
  "daemon_listens loopback_ip read_file getenv args apiAddr addrExplicit loopback literal path =
     (if args \<noteq> [] then None
      else (case daemonAPIAddr apiAddr addrExplicit loopback of
          None \<Rightarrow> None
        | Some addr \<Rightarrow>
            (case daemonToken read_file getenv literal path of
               Inl e \<Rightarrow> None
             | Inr token \<Rightarrow> if Listen_allowed loopback_ip addr token then Some (addr, token) else None)))"

section \<open>An engine in the foreground\<close>

definition foreground_hooks :: "surroundings_cli \<Rightarrow> string \<Rightarrow> hooks" where
  "foreground_hooks env dir =
     \<lparr>hk_BuildArgv = (\<lambda>_. Inl (serve_error_text env ForegroundManaged)), hk_EngineKeyArgs = None,
      hk_ValidateConfig = (\<lambda>dc. map_option (serve_error_text env) (validateDeployConfig env dc)), hk_Dir = dir\<rparr>"

definition foreground_start ::
  "surroundings_cli \<Rightarrow> selection \<Rightarrow> serve_engine \<Rightarrow> string list \<Rightarrow> string option \<Rightarrow> int \<Rightarrow> 'f daemon \<Rightarrow>
     start_error + 'f daemon" where
  "foreground_start env sel engine argv fault now d =
     (let model = (if sel_Model sel = '''' then sel_Alias sel else sel_Model sel);
          b = built_for env engine (sel_BaseURL sel) (withMetricsArgs argv engine);
          d = SetEngineEndpoint (bu_endpoint b) (SetScrape (bu_scrape b) (SetServed (sel_Provider sel) model (sel_Alias sel) d))
      in case start_world (bu_argv b) fault now (dm_world d) of
           (Some e, _) \<Rightarrow> Inl e
         | (None, w) \<Rightarrow> Inr (MarkActive now (d\<lparr>dm_world := w\<rparr>)))"

text \<open>What the run ends with once the engine is gone: nothing where it was stopped or ended cleanly.\<close>

definition foreground_result :: "'f daemon \<Rightarrow> string option" where
  "foreground_result d = (if sv_state (sup_of d) = SupStopped then None else Wait_end (sup_of d))"

section \<open>A start runs what is stored\<close>

lemma path_clean_ne [simp]: "path_clean p \<noteq> ''''"
  by (simp add: path_clean_def Let_def)

lemma key_path_ne: "path_join [dir, ''engine-api-key''] \<noteq> ''''"
  by (simp add: path_join_def)

lemma launched:
  "launch_engine argv fault now d = (None, d') \<Longrightarrow>
     sv_argv (sup_of d') = argv \<and> sv_state (sup_of d') = SupRunning \<and> dm_runner d' = dm_runner d \<and>
     dm_model d' = dm_model d \<and> dm_key d' = dm_key d \<and> dm_scrape d' = dm_scrape d \<and> dm_endpoint d' = dm_endpoint d"
  by (auto simp: launch_engine_def start_world_def Start_sup_Inr sup_of_def forget_engine_def Let_def
      split: sum.splits prod.splits)

text \<open>The command a start from a stored config runs, and what the daemon then knows of it.\<close>

lemma started_from_config:
  assumes "StartEngine (daemon_hooks env dir) fault now d = (None, d')" and "dm_stored d = Stored dc"
  shows "\<exists>engine argv. engineFor env (dc_Runner dc) = Inr engine \<and> argvFromDeployConfig engine dc = Inr argv \<and>
     sv_argv (sup_of d') = withMetricsArgs argv engine @
       (if dm_key d = None then [] else [en_apiKeyFileFlag engine, path_join [dir, ''engine-api-key'']]) \<and>
     (dm_key d \<noteq> None \<longrightarrow> en_apiKeyFileFlag engine \<noteq> '''') \<and> sv_state (sup_of d') = SupRunning \<and>
     dm_runner d' = dc_Runner dc \<and> dm_model d' = dc_ModelID dc \<and> dm_key d' = dm_key d \<and>
     dm_scrape d' = bu_scrape (built_for env engine '''' (withMetricsArgs argv engine)) \<and>
     dm_endpoint d' = engineEndpointFor env engine '''' (withMetricsArgs argv engine)"
proof -
  let ?hk = "daemon_hooks env dir"
  from assms obtain b args where b: "hk_BuildArgv ?hk (Some dc) = Inr b"
    and args: "key_args ?hk (Some dc) (SetEngineEndpoint (bu_endpoint b) (SetScrape (bu_scrape b) d)) = Inr args"
    and l: "launch_engine (bu_argv b @ args) fault now
      (serve_config (Some dc) (SetEngineEndpoint (bu_endpoint b) (SetScrape (bu_scrape b) d))) = (None, d')"
    by (auto simp: StartEngine_def start_config_def Let_def split: sum.splits)
  from b obtain engine argv where e: "engineFor env (dc_Runner dc) = Inr engine" "argvFromDeployConfig engine dc = Inr argv"
    "b = built_for env engine '''' (withMetricsArgs argv engine)"
    by (auto simp: daemon_hooks_def daemon_BuildArgv_def map_sum_def split: sum.splits)
  have "args = (if dm_key d = None then [] else [en_apiKeyFileFlag engine, path_join [dir, ''engine-api-key'']]) \<and>
      (dm_key d \<noteq> None \<longrightarrow> en_apiKeyFileFlag engine \<noteq> '''')"
    using args e(1) key_path_ne [of dir]
    by (auto simp: key_args_def storedEngineKeyPath_def SetEngineEndpoint_def SetScrape_def daemon_hooks_def engineKeyFile_def
        engineKeyArgs_def map_sum_def split: if_splits sum.splits)
  with e launched [OF l] show ?thesis
    by (auto simp: built_for_def serve_config_def SetServed_def SetEngineEndpoint_def SetScrape_def split: prod.splits)
qed

text \<open>
  C7: A start that is accepted runs the command that the stored config's engine makes of that config,
  with the engine's metrics switched on and, where there is a key, the path of its file and never the
  key; what is reported as served is that config, and the port reported is the one of that command.
\<close>

theorem start_runs_stored_config:
  assumes "StartEngine (daemon_hooks env dir) fault now d = (None, d')" and "dm_stored d = Stored dc"
  shows "\<exists>engine argv. engineFor env (dc_Runner dc) = Inr engine \<and> argvFromDeployConfig engine dc = Inr argv \<and>
     sv_argv (sup_of d') = withMetricsArgs argv engine @
       (if dm_key d = None then [] else [en_apiKeyFileFlag engine, path_join [dir, ''engine-api-key'']]) \<and>
     ns_Runner (Status t d') = dc_Runner dc \<and> ns_Model (Status t d') = dc_ModelID dc \<and>
     map_option ep_Port (ns_Engine (Status t d')) =
       map_option ep_Port (engineEndpointFor env engine '''' (withMetricsArgs argv engine)) \<and>
     (\<forall>ep. ns_Engine (Status t d') = Some ep \<longrightarrow> dm_key d \<noteq> None \<longrightarrow> ep_RequiresKey ep)"
proof -
  have gate: "ep_Port (e\<lparr>ep_RequiresKey := True\<rparr>) = ep_Port e" "ep_RequiresKey (e\<lparr>ep_RequiresKey := True\<rparr>)" for e :: engine_endpoint
    by simp_all
  have "ns_Runner (Status t d') = dm_runner d' \<and> ns_Model (Status t d') = dm_model d' \<and>
      (sv_state (sup_of d') = SupRunning \<longrightarrow> map_option ep_Port (ns_Engine (Status t d')) = map_option ep_Port (dm_endpoint d') \<and>
        (\<forall>ep. ns_Engine (Status t d') = Some ep \<longrightarrow> dm_key d' \<noteq> None \<longrightarrow> ep_RequiresKey ep))"
    using gate by (cases "dm_endpoint d'"; cases "dm_key d'") (auto simp: Status_def Status_sup_def split: prod.splits)
  with started_from_config [OF assms] show ?thesis by metis
qed

text \<open>
  An engine gated with the key of a start request is scraped without a key: the target of the scrape
  is read out of the command before the key's file is added to it.
\<close>

theorem gated_engine_scraped_without_key:
  assumes "StartEngine (daemon_hooks env dir) fault now d = (None, d')" and "dm_stored d = Stored dc"
    and "dm_key d = Some k" and "engineFor env (dc_Runner dc) = Inr engine" and "argvFromDeployConfig engine dc = Inr argv"
    and "''--api-key'' \<notin> set argv" and "''--api-key-file'' \<notin> set argv"
  shows "sc_APIKey (dm_scrape d') = '''' \<and>
     (\<exists>rest. sv_argv (sup_of d') = rest @ [en_apiKeyFileFlag engine, path_join [dir, ''engine-api-key'']])"
proof -
  have metrics: "en_metricsArgs engine \<in> {[], [''--metrics'']}"
    using assms(4) by (auto simp: engineFor_def engines_def split: option.splits if_splits)
  then have "''--api-key'' \<notin> set (withMetricsArgs argv engine)" "''--api-key-file'' \<notin> set (withMetricsArgs argv engine)"
    using assms(6,7) by (auto simp: withMetricsArgs_def split: if_splits)
  then have "eb_key (engineBindFrom env (withMetricsArgs argv engine)) = ''''"
    by (simp add: engineBindFrom_def bind_args_frame)
  with started_from_config [OF assms(1,2)] assms(3-5) show ?thesis
    by (auto simp: built_for_def scrapeTargetFor_def Let_def)
qed

section \<open>A foreground engine is not started over the API\<close>

lemma foreground_StartEngine:
  "\<exists>e. StartEngine (foreground_hooks env dir) fault now d = (Some e, d)"
  by (auto simp: StartEngine_def start_config_def foreground_hooks_def split: stored_config.splits)

text \<open>
  The API of an engine that runs in the foreground never launches another: every start is refused,
  and while the engine runs a refused start changes nothing at all.
\<close>

theorem foreground_never_started:
  assumes "io_hooks io = foreground_hooks env dir"
  shows "dm_world (snd (handleStart io r d)) = dm_world d \<and> fst (fst (handleStart io r d)) \<noteq> 200 \<and>
     (is_up d \<and> (\<exists>bytes. dq_body r = Inr bytes) \<longrightarrow> snd (handleStart io r d) = d \<and> fst (fst (handleStart io r d)) = 409)"
proof -
  have stored: "\<exists>e. start_stored io v = ((if is_up v then 409 else 400, ErrorBody (Failed e)), v)" for v :: "'a daemon"
    using foreground_StartEngine [of env dir "io_launch io" "io_now io" v] assms
    by (auto simp: start_stored_def)
  then have world: "dm_world (snd (start_stored io v)) = dm_world v \<and> fst (fst (start_stored io v)) \<noteq> 200" for v :: "'a daemon"
  proof -
    obtain e where "start_stored io v = ((if is_up v then 409 else 400, ErrorBody (Failed e)), v)" using stored [of v] by blast
    then show ?thesis by simp
  qed
  have pushed: "dm_world u = dm_world d" if "Push (io_hooks io) (io_push io) dc d = (x, u)" for dc x u
    using that world_of_Push [of "io_hooks io" "io_push io" dc d] by simp
  have keyed: "dm_world v = dm_world d"
    if "SetEngineKey (io_key io) key u = (y, v)" "Push (io_hooks io) (io_push io) dc d = (x, u)" for dc x key y u v
    using that(1) pushed [OF that(2)] world_of_SetEngineKey [of "io_key io" key u] by simp
  show ?thesis
    using stored [of d] world
    by (auto simp: handleStart_def Let_def split: sum.splits prod.splits option.splits dest: pushed keyed)
qed

section \<open>Examples\<close>

definition demo_stored :: "string option \<Rightarrow> string daemon" where
  "demo_stored key = (new_daemon ''log'')\<lparr>dm_stored := Stored demo_deploy, dm_key := key\<rparr>"

lemma demo_gated_start:
  "\<exists>d'. StartEngine (daemon_hooks demo_cli ''/d'') None 5000000000 (demo_stored key) = (None, d')"
proof -
  obtain b where b: "hk_BuildArgv (daemon_hooks demo_cli ''/d'') (Some demo_deploy) = Inr b" "bu_argv b \<noteq> []"
    using demo_argv by (auto simp: daemon_hooks_def daemon_BuildArgv_def demo_deploy_def empty_deploy_def engineFor_llama
        built_for_def withMetricsArgs_def split: prod.splits)
  obtain args where args: "key_args (daemon_hooks demo_cli ''/d'') (Some demo_deploy)
      (SetEngineEndpoint (bu_endpoint b) (SetScrape (bu_scrape b) (demo_stored key))) = Inr args"
  proof -
    have "engineKeyArgs demo_cli (Some demo_deploy) path = Inr [''--api-key-file'', path]" for path
      by (simp add: engineKeyArgs_def demo_deploy_def empty_deploy_def engineFor_llama)
    then obtain f where "hk_EngineKeyArgs (daemon_hooks demo_cli ''/d'') = Some f"
      "\<And>path. f (Some demo_deploy) path = Inr [''--api-key-file'', path]"
      by (simp add: daemon_hooks_def)
    then have "\<exists>args. key_args (daemon_hooks demo_cli ''/d'') (Some demo_deploy) v = Inr args" for v :: "string daemon"
      by (cases "storedEngineKeyPath (daemon_hooks demo_cli ''/d'') v = ''''") (simp_all add: key_args_def)
    then show ?thesis using that by blast
  qed
  show ?thesis
    using b args
    by (auto simp: StartEngine_def demo_stored_def start_config_def launch_engine_def start_world_def Start_sup_def
        forget_engine_def serve_config_def SetServed_def SetScrape_def SetEngineEndpoint_def new_daemon_def sup_begin_def
        NewSupervisor_def Let_def)
qed

theorem start_runs_stored_config_witness:
  "\<exists>d'. StartEngine (daemon_hooks demo_cli ''/d'') None 5000000000 (demo_stored None) = (None, d') \<and>
     ns_Runner (Status 7 d') = ''llamacpp'' \<and> ns_Model (Status 7 d') = ''o/m''"
proof -
  obtain d' where d: "StartEngine (daemon_hooks demo_cli ''/d'') None 5000000000 (demo_stored None) = (None, d')"
    using demo_gated_start by blast
  from start_runs_stored_config [OF d, of demo_deploy 7] d show ?thesis
    by (auto simp: demo_stored_def demo_deploy_def empty_deploy_def)
qed

theorem gated_engine_scraped_without_key_witness:
  "\<exists>d'. StartEngine (daemon_hooks demo_cli ''/d'') None 5000000000 (demo_stored (Some ''k'')) = (None, d') \<and>
     sc_APIKey (dm_scrape d') = ''''"
proof -
  obtain d' where d: "StartEngine (daemon_hooks demo_cli ''/d'') None 5000000000 (demo_stored (Some ''k'')) = (None, d')"
    using demo_gated_start by blast
  have "''--api-key'' \<noteq> show_nat n" "''--api-key-file'' \<noteq> show_nat n" for n
  proof -
    have "CHR ''-'' \<notin> set (show_nat n)" using show_nat_digits [of "CHR ''-''" n] by (auto simp: is_digit_def)
    then show "''--api-key'' \<noteq> show_nat n" "''--api-key-file'' \<noteq> show_nat n" by (metis list.set_intros(1))+
  qed
  then show ?thesis
    using gated_engine_scraped_without_key [OF d, of demo_deploy "''k''" "llama_engine demo_cli"] demo_argv engineFor_llama d
    by (auto simp: demo_stored_def demo_deploy_def empty_deploy_def)
qed

theorem foreground_never_started_witness:
  "fst (fst (handleStart (demo_io\<lparr>io_hooks := foreground_hooks demo_cli ''/d''\<rparr>) (demo_request '''') up_daemon)) = 409"
  using foreground_never_started [of "demo_io\<lparr>io_hooks := foreground_hooks demo_cli ''/d''\<rparr>" demo_cli "''/d''"
      "demo_request ''''" up_daemon] up_daemon
  by (simp add: demo_request_def)

end
