(* ===== verification/PtyLog.thy ===== *)
theory PtyLog
  imports GoStrings
begin

text \<open>
  \<^verbatim>\<open>internal/daemon/ptylog.go\<close>: the normaliser that turns an engine's terminal output into the lines of
  its log. The screen's lines are records, what is written to the log is the list \<open>pt_out\<close> of its lines,
  and one byte is one step; the clock's reading while a byte is taken in is the step's \<open>now\<close>. An
  operation on a line gives the line after it and the lines it writes to the log.
\<close>

section \<open>A line of the screen\<close>

record pty_line =
  pl_content :: string
  pl_drawing :: bool
  pl_pendingCR :: bool
  pl_replacing :: bool
  pl_committed :: bool
  pl_recorded :: bool
  pl_last :: string
  pl_lastAt :: int

definition empty_line :: pty_line where
  "empty_line = \<lparr>pl_content = [], pl_drawing = False, pl_pendingCR = False, pl_replacing = False,
     pl_committed = False, pl_recorded = False, pl_last = [], pl_lastAt = 0\<rparr>"

definition ptyRedrawInterval :: int where
  "ptyRedrawInterval = 2 * 1000000000"

type_synonym line_op = "pty_line \<Rightarrow> pty_line \<times> string list"

definition record_state :: "int \<Rightarrow> line_op" where
  "record_state now l =
     (l\<lparr>pl_last := pl_content l, pl_lastAt := now, pl_recorded := True\<rparr>, [pl_content l])"

definition considerState :: "int \<Rightarrow> line_op" where
  "considerState now l =
     (if pl_content l = [] then (l, [])
      else if pl_recorded l \<and> pl_content l = pl_last l then (l, [])
      else if \<not> pl_recorded l \<or> now - pl_lastAt l \<ge> ptyRedrawInterval then record_state now l
      else (l, []))"

definition recordFinal :: "int \<Rightarrow> line_op" where
  "recordFinal now l =
     (if pl_content l = [] then (l, [])
      else if pl_recorded l \<and> pl_content l = pl_last l then (l, [])
      else record_state now l)"

definition settle :: "int \<Rightarrow> line_op" where
  "settle now l = (if pl_drawing l then considerState now l else (l, []))"

text \<open>A change of the line's flags and content after an operation on it.\<close>

definition then_set :: "(pty_line \<Rightarrow> pty_line) \<Rightarrow> line_op \<Rightarrow> line_op" where
  "then_set f g l = (case g l of (l', out) \<Rightarrow> (f l', out))"

definition settle_redraw :: "int \<Rightarrow> line_op" where
  "settle_redraw now = then_set (\<lambda>l. l\<lparr>pl_pendingCR := False, pl_replacing := True\<rparr>) (settle now)"

definition carriage_return :: "int \<Rightarrow> line_op" where
  "carriage_return now =
     then_set (\<lambda>l. l\<lparr>pl_pendingCR := True\<rparr>)
       (\<lambda>l. if pl_pendingCR l then settle_redraw now l else (l, []))"

definition text_byte :: "int \<Rightarrow> char \<Rightarrow> line_op" where
  "text_byte now c =
     then_set (\<lambda>l. l\<lparr>pl_content := (if pl_replacing l then [] else pl_content l) @ [c],
         pl_replacing := False, pl_committed := False\<rparr>)
       (\<lambda>l. if pl_pendingCR l then then_set (\<lambda>l. l\<lparr>pl_drawing := True\<rparr>) (settle_redraw now) l else (l, []))"

definition erase :: "int \<Rightarrow> line_op" where
  "erase now =
     then_set (\<lambda>l. l\<lparr>pl_pendingCR := False, pl_replacing := False, pl_content := []\<rparr>) (settle now)"

definition escape_done :: "int \<Rightarrow> line_op" where
  "escape_done now l = (if pl_pendingCR l then settle_redraw now l else (l, []))"

definition land_line :: "int \<Rightarrow> line_op" where
  "land_line now = then_set (\<lambda>l. if pl_content l \<noteq> [] then l\<lparr>pl_replacing := True\<rparr> else l) (settle now)"

definition commitLine :: "int \<Rightarrow> bool \<Rightarrow> line_op" where
  "commitLine now atEOF l =
     (if pl_committed l then (l, [])
      else then_set (\<lambda>l. l\<lparr>pl_committed := True\<rparr>)
        (\<lambda>l. if pl_drawing l then recordFinal now l
             else if pl_content l \<noteq> [] \<or> \<not> atEOF then (l, [pl_content l])
             else (l, [])) l)"

section \<open>The screen\<close>

datatype esc_state = EscNone | EscStart | EscCSI | EscOSC | EscOSCST

record pty_log =
  pt_lines :: "pty_line list"
  pt_row :: nat
  pt_esc :: esc_state
  pt_csiParam :: char
  pt_out :: "string list"

definition newPTYLog :: pty_log where
  "newPTYLog = \<lparr>pt_lines = [empty_line], pt_row = 0, pt_esc = EscNone, pt_csiParam = CHR 0x00, pt_out = []\<rparr>"

definition on_line :: "line_op \<Rightarrow> pty_log \<Rightarrow> pty_log" where
  "on_line f p =
     (case f (pt_lines p ! pt_row p) of
        (l, out) \<Rightarrow> p\<lparr>pt_lines := (pt_lines p)[pt_row p := l], pt_out := pt_out p @ out\<rparr>)"

definition move_to :: "nat \<Rightarrow> pty_log \<Rightarrow> pty_log" where
  "move_to row p =
     p\<lparr>pt_row := row, pt_lines := pt_lines p @ replicate (Suc row - length (pt_lines p)) empty_line\<rparr>"

definition commit :: "int \<Rightarrow> pty_log \<Rightarrow> pty_log" where
  "commit now p = (let p' = on_line (commitLine now False) p in move_to (Suc (pt_row p')) p')"

definition settleOnEscape :: "int \<Rightarrow> pty_log \<Rightarrow> pty_log" where
  "settleOnEscape now = on_line (escape_done now)"

definition csiCount :: "pty_log \<Rightarrow> nat" where
  "csiCount p =
     (if CHR ''1'' \<le> pt_csiParam p \<and> pt_csiParam p \<le> CHR ''9''
      then of_char (pt_csiParam p) - of_char CHR ''0'' else 1)"

definition csiFinal :: "int \<Rightarrow> char \<Rightarrow> pty_log \<Rightarrow> pty_log" where
  "csiFinal now c p =
     (if c = CHR ''A'' then on_line (land_line now) (move_to (pt_row p - csiCount p) p)
      else if c = CHR ''B'' then on_line (land_line now) (move_to (pt_row p + csiCount p) p)
      else if c = CHR ''H'' then on_line (land_line now) (move_to 0 p)
      else if c = CHR ''K'' then (if pt_csiParam p = CHR ''2'' then on_line (erase now) p else p)
      else if c = CHR ''J'' then on_line (erase now) p
      else settleOnEscape now p)"

definition plain_byte :: "int \<Rightarrow> char \<Rightarrow> pty_log \<Rightarrow> pty_log" where
  "plain_byte now c p =
     (if c = CHR 0x1B then p\<lparr>pt_esc := EscStart\<rparr>
      else if c = CHR 0x0D then on_line (carriage_return now) p
      else if c = CHR 0x0A
        then commit now (on_line (\<lambda>l. (l\<lparr>pl_pendingCR := False, pl_replacing := False\<rparr>, [])) p)
      else on_line (text_byte now c) p)"

definition within :: "nat \<Rightarrow> nat \<Rightarrow> char \<Rightarrow> bool" where
  "within a b c \<longleftrightarrow> a \<le> of_char c \<and> of_char c \<le> b"

definition pty_byte :: "int \<Rightarrow> char \<Rightarrow> pty_log \<Rightarrow> pty_log" where
  "pty_byte now c p =
     (case pt_esc p of
        EscNone \<Rightarrow> plain_byte now c p
      | EscStart \<Rightarrow>
          if c = CHR ''['' then p\<lparr>pt_esc := EscCSI, pt_csiParam := CHR 0x00\<rparr>
          else if c = CHR '']'' then p\<lparr>pt_esc := EscOSC\<rparr>
          else (settleOnEscape now p)\<lparr>pt_esc := EscNone\<rparr>
      | EscCSI \<Rightarrow>
          if within 0x30 0x3F c then (if within 0x30 0x39 c then p\<lparr>pt_csiParam := c\<rparr> else p)
          else if within 0x20 0x2F c then p
          else if within 0x40 0x7E c then (csiFinal now c p)\<lparr>pt_esc := EscNone\<rparr>
          else (settleOnEscape now p)\<lparr>pt_esc := EscNone\<rparr>
      | EscOSC \<Rightarrow>
          if c = CHR 0x07 then (settleOnEscape now p)\<lparr>pt_esc := EscNone\<rparr>
          else if c = CHR 0x1B then p\<lparr>pt_esc := EscOSCST\<rparr>
          else p
      | EscOSCST \<Rightarrow> (settleOnEscape now p)\<lparr>pt_esc := EscNone\<rparr>)"

text \<open>A write: its bytes with the clock's reading at each.\<close>

definition pty_write :: "(int \<times> char) list \<Rightarrow> pty_log \<Rightarrow> pty_log" where
  "pty_write = fold (\<lambda>(now, c). pty_byte now c)"

text \<open>An operation on every line of the column, top down.\<close>

definition on_every_line :: "line_op \<Rightarrow> pty_log \<Rightarrow> pty_log" where
  "on_every_line f p =
     p\<lparr>pt_lines := map (fst \<circ> f) (pt_lines p), pt_out := pt_out p @ concat (map (snd \<circ> f) (pt_lines p))\<rparr>"

definition tick :: "int \<Rightarrow> pty_log \<Rightarrow> pty_log" where
  "tick now = on_every_line (settle now)"

definition finalize :: "int \<Rightarrow> pty_log \<Rightarrow> pty_log" where
  "finalize now = on_every_line (\<lambda>l. commitLine now True (l\<lparr>pl_pendingCR := False\<rparr>))"

section \<open>No control byte reaches the log\<close>

definition clean :: "string \<Rightarrow> bool" where
  "clean s \<longleftrightarrow> set s \<inter> {CHR 0x1B, CHR 0x0D, CHR 0x0A} = {}"

lemma clean_simps [simp]:
  "clean []" "clean (c # s) \<longleftrightarrow> c \<noteq> CHR 0x1B \<and> c \<noteq> CHR 0x0D \<and> c \<noteq> CHR 0x0A \<and> clean s"
  "clean (s @ t) \<longleftrightarrow> clean s \<and> clean t"
  by (auto simp: clean_def)

definition line_clean :: "pty_line \<Rightarrow> bool" where
  "line_clean l \<longleftrightarrow> clean (pl_content l)"

definition op_clean :: "line_op \<Rightarrow> bool" where
  "op_clean f \<longleftrightarrow> (\<forall>l. line_clean l \<longrightarrow> line_clean (fst (f l)) \<and> list_all clean (snd (f l)))"

named_theorems pty_ops

lemmas [pty_ops] = record_state_def considerState_def recordFinal_def settle_def then_set_def
  settle_redraw_def carriage_return_def text_byte_def erase_def escape_done_def land_line_def commitLine_def

lemma op_clean_settle: "op_clean (settle now)"
  by (simp add: op_clean_def line_clean_def pty_ops)

lemma op_clean_then_set:
  "op_clean g \<Longrightarrow> (\<And>l. line_clean l \<Longrightarrow> line_clean (f l)) \<Longrightarrow> op_clean (then_set f g)"
  by (auto simp: op_clean_def then_set_def split: prod.splits)

lemma op_clean_if: "op_clean g \<Longrightarrow> op_clean (\<lambda>l. if P l then g l else (l, []))"
  by (simp add: op_clean_def)

lemma op_clean_redraw: "op_clean (settle_redraw now)"
  unfolding settle_redraw_def by (rule op_clean_then_set [OF op_clean_settle]) (simp add: line_clean_def)

lemma op_clean_ops:
  "op_clean (carriage_return now)" "clean [c] \<Longrightarrow> op_clean (text_byte now c)" "op_clean (erase now)"
  "op_clean (escape_done now)" "op_clean (land_line now)" "op_clean (commitLine now atEOF)"
  "op_clean (\<lambda>l. (l\<lparr>pl_pendingCR := False, pl_replacing := False\<rparr>, []))"
  "op_clean (\<lambda>l. commitLine now atEOF (l\<lparr>pl_pendingCR := False\<rparr>))"
proof -
  show "op_clean (carriage_return now)"
    unfolding carriage_return_def by (intro op_clean_then_set op_clean_if op_clean_redraw) (simp add: line_clean_def)
  show "clean [c] \<Longrightarrow> op_clean (text_byte now c)"
    unfolding text_byte_def by (intro op_clean_then_set op_clean_if op_clean_redraw) (simp_all add: line_clean_def)
  show "op_clean (erase now)" "op_clean (land_line now)"
    unfolding erase_def land_line_def by (intro op_clean_then_set op_clean_settle; simp add: line_clean_def)+
  show "op_clean (escape_done now)"
    using op_clean_if [OF op_clean_redraw] by (simp add: op_clean_def escape_done_def)
  show "op_clean (commitLine now atEOF)"
    "op_clean (\<lambda>l. commitLine now atEOF (l\<lparr>pl_pendingCR := False\<rparr>))"
    by (simp_all add: op_clean_def line_clean_def pty_ops)
qed (simp add: op_clean_def line_clean_def)

definition log_clean :: "pty_log \<Rightarrow> bool" where
  "log_clean p \<longleftrightarrow> pt_row p < length (pt_lines p) \<and> list_all line_clean (pt_lines p) \<and> list_all clean (pt_out p)"

lemma log_clean_on_line:
  assumes "op_clean f" and "log_clean p"
  shows "log_clean (on_line f p)"
proof -
  obtain l out where f: "f (pt_lines p ! pt_row p) = (l, out)" by fastforce
  have "line_clean (pt_lines p ! pt_row p)" using assms(2) by (simp add: log_clean_def list_all_length)
  with assms(1) f have "line_clean l" "list_all clean out" by (force simp: op_clean_def)+
  moreover have "list_all line_clean ((pt_lines p)[pt_row p := l])"
    using assms(2) \<open>line_clean l\<close> by (simp add: log_clean_def list_all_length nth_list_update)
  ultimately show ?thesis
    using assms(2) f by (simp add: log_clean_def on_line_def)
qed

lemma log_clean_move: "log_clean p \<Longrightarrow> log_clean (move_to row p)"
  by (auto simp: log_clean_def move_to_def list_all_iff line_clean_def empty_line_def)

lemma log_clean_esc [simp]:
  "log_clean (p\<lparr>pt_esc := e\<rparr>) = log_clean p" "log_clean (p\<lparr>pt_csiParam := c\<rparr>) = log_clean p"
  by (simp_all add: log_clean_def)

lemmas log_clean_rules = log_clean_on_line log_clean_move op_clean_ops

lemma log_clean_plain: "log_clean p \<Longrightarrow> log_clean (plain_byte now c p)"
  by (simp add: plain_byte_def commit_def Let_def log_clean_rules)

lemma log_clean_csi: "log_clean p \<Longrightarrow> log_clean (csiFinal now c p)"
  by (simp add: csiFinal_def settleOnEscape_def log_clean_rules)

lemma log_clean_byte: "log_clean p \<Longrightarrow> log_clean (pty_byte now c p)"
  by (cases "pt_esc p")
     (simp_all add: pty_byte_def settleOnEscape_def log_clean_plain log_clean_csi log_clean_rules)

lemma log_clean_every: "op_clean f \<Longrightarrow> log_clean p \<Longrightarrow> log_clean (on_every_line f p)"
  by (auto simp: log_clean_def on_every_line_def op_clean_def list_all_iff)

datatype pty_event = PtyBytes "(int \<times> char) list" | PtyTick int

fun pty_step :: "pty_event \<Rightarrow> pty_log \<Rightarrow> pty_log" where
  "pty_step (PtyBytes xs) p = pty_write xs p"
| "pty_step (PtyTick now) p = tick now p"

lemma log_clean_write: "log_clean p \<Longrightarrow> log_clean (pty_write xs p)"
  unfolding pty_write_def by (induction xs arbitrary: p) (auto simp: log_clean_byte)

lemma log_clean_step: "log_clean p \<Longrightarrow> log_clean (pty_step ev p)"
  by (cases ev) (simp_all add: log_clean_write tick_def log_clean_every op_clean_settle)

lemma log_clean_steps: "log_clean p \<Longrightarrow> log_clean (fold pty_step evs p)"
  by (induction evs arbitrary: p) (simp_all add: log_clean_step)

lemma log_clean_new: "log_clean newPTYLog"
  by (simp add: log_clean_def newPTYLog_def line_clean_def empty_line_def)

text \<open>
  Whatever bytes the engine writes to its terminal, in whatever pieces and with whatever ticks of the
  clock between them, no line of the log ever contains an escape, a carriage return or a line feed.
\<close>

theorem pty_log_clean:
  "list_all clean (pt_out (fold pty_step evs newPTYLog)) \<and>
   list_all clean (pt_out (finalize now (fold pty_step evs newPTYLog)))"
  using log_clean_steps [OF log_clean_new, of evs]
    log_clean_every [OF op_clean_ops(8) log_clean_steps [OF log_clean_new], of now True evs]
  by (simp add: log_clean_def finalize_def)

section \<open>Plain output\<close>

lemma on_line_last:
  "on_line f \<lparr>pt_lines = upper @ [l], pt_row = length upper, pt_esc = e, pt_csiParam = c, pt_out = out\<rparr> =
     (case f l of (l', out') \<Rightarrow>
        \<lparr>pt_lines = upper @ [l'], pt_row = length upper, pt_esc = e, pt_csiParam = c, pt_out = out @ out'\<rparr>)"
  by (simp add: on_line_def split: prod.splits)

text \<open>The drawing is on the last line, which holds \<open>content\<close>; the lines above it are committed.\<close>

definition plain_state :: "nat \<Rightarrow> string \<Rightarrow> string list \<Rightarrow> pty_log \<Rightarrow> bool" where
  "plain_state n content out p \<longleftrightarrow>
     (\<exists>upper c. n = length upper \<and> list_all pl_committed upper \<and>
        p = \<lparr>pt_lines = upper @ [empty_line\<lparr>pl_content := content\<rparr>], pt_row = length upper, pt_esc = EscNone,
             pt_csiParam = c, pt_out = out\<rparr>)"

lemma plain_state_byte:
  assumes "plain_state n content out p" and "clean [c]"
  shows "plain_state n (content @ [c]) out (pty_byte now c p)"
proof -
  from assms(1) obtain upper d where p: "n = length upper" "list_all pl_committed upper"
    "p = \<lparr>pt_lines = upper @ [empty_line\<lparr>pl_content := content\<rparr>], pt_row = length upper, pt_esc = EscNone,
             pt_csiParam = d, pt_out = out\<rparr>"
    by (auto simp: plain_state_def)
  have "pty_byte now c p = \<lparr>pt_lines = upper @ [empty_line\<lparr>pl_content := content @ [c]\<rparr>], pt_row = length upper,
      pt_esc = EscNone, pt_csiParam = d, pt_out = out\<rparr>"
    using assms(2) by (simp add: p(3) pty_byte_def plain_byte_def on_line_last text_byte_def then_set_def empty_line_def)
  with p(1,2) show ?thesis by (auto simp: plain_state_def)
qed

lemma plain_state_text:
  "plain_state n content out p \<Longrightarrow> clean (map snd xs) \<Longrightarrow>
     plain_state n (content @ map snd xs) out (pty_write xs p)"
proof (induction xs arbitrary: p content)
  case (Cons x xs)
  obtain now c where x: "x = (now, c)" by fastforce
  with plain_state_byte [OF Cons.prems(1)] Cons.prems(2)
  have "plain_state n (content @ [c]) out (pty_byte now c p)" by simp
  with Cons.IH [of "content @ [c]" "pty_byte now c p"] Cons.prems(2) x show ?case
    by (simp add: pty_write_def)
qed (simp add: pty_write_def)

lemma plain_state_newline:
  assumes "plain_state n content out p"
  shows "plain_state (Suc n) [] (out @ [content]) (pty_byte now CHR 0x0A p)"
    and "plain_state (Suc n) [] (out @ [content]) (pty_byte now CHR 0x0A (pty_byte before CHR 0x0D p))"
proof -
  from assms obtain upper d where p: "n = length upper" "list_all pl_committed upper"
    "p = \<lparr>pt_lines = upper @ [empty_line\<lparr>pl_content := content\<rparr>], pt_row = length upper, pt_esc = EscNone,
             pt_csiParam = d, pt_out = out\<rparr>"
    by (auto simp: plain_state_def)
  let ?upper = "upper @ [empty_line\<lparr>pl_content := content, pl_committed := True\<rparr>]"
  let ?q = "\<lparr>pt_lines = ?upper @ [empty_line\<lparr>pl_content := []\<rparr>],
      pt_row = length ?upper, pt_esc = EscNone, pt_csiParam = d, pt_out = out @ [content]\<rparr>"
  have lf: "pty_byte now CHR 0x0A p = ?q"
    by (simp add: p(3) pty_byte_def plain_byte_def on_line_last commit_def move_to_def Let_def
        commitLine_def then_set_def empty_line_def)
  have crlf: "pty_byte now CHR 0x0A (pty_byte before CHR 0x0D p) = ?q"
    by (simp add: p(3) pty_byte_def plain_byte_def on_line_last commit_def move_to_def Let_def
        carriage_return_def commitLine_def then_set_def empty_line_def)
  have q: "plain_state (Suc n) [] (out @ [content]) ?q"
    using p(1,2) unfolding plain_state_def by (intro exI [of _ ?upper] exI [of _ d]) simp
  show "plain_state (Suc n) [] (out @ [content]) (pty_byte now CHR 0x0A p)"
    "plain_state (Suc n) [] (out @ [content]) (pty_byte now CHR 0x0A (pty_byte before CHR 0x0D p))"
    using q by (simp_all only: lf crlf)
qed

text \<open>Lines, each with whether it ends in a carriage return too, and what comes after the last.\<close>

definition line_end :: "bool \<Rightarrow> string" where
  "line_end cr = (if cr then [CHR 0x0D] else []) @ [CHR 0x0A]"

fun terminal_text :: "(string \<times> bool) list \<Rightarrow> string \<Rightarrow> string" where
  "terminal_text [] rest = rest"
| "terminal_text ((l, cr) # ls) rest = l @ line_end cr @ terminal_text ls rest"

lemma plain_state_end:
  assumes "plain_state n content out p" and "map snd xs = line_end cr"
  shows "plain_state (Suc n) [] (out @ [content]) (pty_write xs p)"
proof (cases cr)
  case True
  with assms(2) obtain t u where "xs = [(t, CHR 0x0D), (u, CHR 0x0A)]"
    by (auto simp: line_end_def)
  with plain_state_newline(2) [OF assms(1)] show ?thesis by (simp add: pty_write_def)
next
  case False
  with assms(2) obtain t where "xs = [(t, CHR 0x0A)]" by (auto simp: line_end_def)
  with plain_state_newline(1) [OF assms(1)] show ?thesis by (simp add: pty_write_def)
qed

lemma pty_write_append [simp]: "pty_write (xs @ ys) p = pty_write ys (pty_write xs p)"
  by (simp add: pty_write_def)

lemma plain_state_lines:
  "plain_state n [] out p \<Longrightarrow> map snd xs = terminal_text ls rest \<Longrightarrow> list_all (clean \<circ> fst) ls \<Longrightarrow> clean rest \<Longrightarrow>
     plain_state (n + length ls) rest (out @ map fst ls) (pty_write xs p)"
proof (induction ls arbitrary: n out p xs)
  case Nil
  with plain_state_text [OF Nil(1), of xs] show ?case by simp
next
  case (Cons lcr ls)
  obtain l cr where lcr: "lcr = (l, cr)" by fastforce
  from Cons.prems(2) lcr obtain xs1 xs2 xs3 where xs: "xs = xs1 @ xs2 @ xs3" "map snd xs1 = l"
    "map snd xs2 = line_end cr" "map snd xs3 = terminal_text ls rest"
    by (simp add: map_eq_append_conv) (metis (no_types, lifting) map_eq_append_conv)
  have "plain_state n l out (pty_write xs1 p)"
    using plain_state_text [OF Cons.prems(1), of xs1] xs(2) Cons.prems(3) lcr by simp
  from plain_state_end [OF this xs(3)]
  have "plain_state (Suc n) [] (out @ [l]) (pty_write xs2 (pty_write xs1 p))" .
  from Cons.IH [OF this xs(4)] Cons.prems(3,4) lcr xs(1) show ?case by simp
qed

lemma finalize_plain:
  assumes "plain_state n content out p"
  shows "pt_out (finalize now p) = out @ (if content = [] then [] else [content])"
proof -
  from assms obtain upper where p: "pt_out p = out" "list_all pl_committed upper"
    "pt_lines p = upper @ [empty_line\<lparr>pl_content := content\<rparr>]"
    by (auto simp: plain_state_def)
  have "concat (map (snd \<circ> (\<lambda>l. commitLine now True (l\<lparr>pl_pendingCR := False\<rparr>))) upper) = []"
    using p(2) by (induction upper) (simp_all add: commitLine_def)
  then show ?thesis
    by (simp add: finalize_def on_every_line_def p commitLine_def then_set_def empty_line_def)
qed

text \<open>
  Output that is plain lines, each ended by a line feed or by a carriage return and a line feed, is
  logged line by line as it was written, with what comes after the last line end once the stream ends.
  The column of lines the normaliser keeps then has one line for each line written: it is never
  shortened while the engine runs.
\<close>

theorem plain_output:
  assumes "map snd xs = terminal_text ls rest" and "list_all (clean \<circ> fst) ls" and "clean rest"
  shows "pt_out (finalize now (pty_write xs newPTYLog)) = map fst ls @ (if rest = [] then [] else [rest]) \<and>
     length (pt_lines (pty_write xs newPTYLog)) = Suc (length ls)"
proof -
  have "plain_state 0 [] [] newPTYLog"
    by (simp add: plain_state_def newPTYLog_def empty_line_def)
  from plain_state_lines [OF this assms]
  have p: "plain_state (length ls) rest (map fst ls) (pty_write xs newPTYLog)" by simp
  then have "length (pt_lines (pty_write xs newPTYLog)) = Suc (length ls)"
    by (auto simp: plain_state_def)
  with finalize_plain [OF p] show ?thesis by simp
qed

theorem plain_output_witness:
  "pt_out (finalize 9 (pty_write (map (Pair 0) (''ab'' @ [CHR 0x0D, CHR 0x0A] @ ''c'' @ [CHR 0x0A] @ ''d'')) newPTYLog))
     = [''ab'', ''c'', ''d'']"
  using plain_output [of "map (Pair 0) (''ab'' @ [CHR 0x0D, CHR 0x0A] @ ''c'' @ [CHR 0x0A] @ ''d'')"
      "[(''ab'', True), (''c'', False)]" "''d''" 9]
  by (simp add: line_end_def comp_def)

section \<open>A redraw\<close>

text \<open>
  The count of a cursor move is its last digit: a move of twelve lines up moves two, where a terminal
  moves twelve.
\<close>

theorem csi_count_last_digit:
  "csiCount (fold (\<lambda>c. pty_byte 0 c) ([CHR 0x1B] @ ''[12'') newPTYLog) = 2"
  by (simp add: pty_byte_def plain_byte_def within_def newPTYLog_def csiCount_def less_eq_char_def)

text \<open>
  A redrawn line in one instant: text, and then states each of which a carriage return begins. The line
  while it holds the state \<open>s\<close>, the state recorded first being \<open>r\<close> if there is one.
\<close>

fun redraw_text :: "string list \<Rightarrow> string" where
  "redraw_text [] = []"
| "redraw_text (s # ss) = CHR 0x0D # s @ redraw_text ss"

definition drawn_line :: "int \<Rightarrow> string \<Rightarrow> string option \<Rightarrow> pty_line" where
  "drawn_line now s r =
     (case r of
        None \<Rightarrow> empty_line\<lparr>pl_content := s, pl_drawing := True\<rparr>
      | Some first \<Rightarrow> empty_line\<lparr>pl_content := s, pl_drawing := True, pl_recorded := True, pl_last := first,
          pl_lastAt := now\<rparr>)"

definition one_line :: "pty_line \<Rightarrow> string list \<Rightarrow> pty_log" where
  "one_line l out = \<lparr>pt_lines = [l], pt_row = 0, pt_esc = EscNone, pt_csiParam = CHR 0x00, pt_out = out\<rparr>"

lemma on_one_line: "on_line f (one_line l out) = (case f l of (l', out') \<Rightarrow> one_line l' (out @ out'))"
  by (simp add: on_line_def one_line_def split: prod.splits)

lemma one_line_byte:
  "clean [c] \<Longrightarrow> pty_byte now c (one_line l out) = on_line (text_byte now c) (one_line l out)"
  "pty_byte now CHR 0x0D (one_line l out) = on_line (carriage_return now) (one_line l out)"
  by (simp_all add: pty_byte_def plain_byte_def one_line_def)

lemma extend_state:
  assumes "clean t" and "\<not> pl_pendingCR l" "\<not> pl_replacing l" "\<not> pl_committed l"
  shows "fold (pty_byte now) t (one_line l out) = one_line (l\<lparr>pl_content := pl_content l @ t\<rparr>) out"
  using assms
proof (induction t arbitrary: l)
  case (Cons c t)
  have "pty_byte now c (one_line l out) = one_line (l\<lparr>pl_content := pl_content l @ [c]\<rparr>) out"
    using Cons.prems by (cases l) (simp add: one_line_byte on_one_line text_byte_def then_set_def)
  with Cons.IH [of "l\<lparr>pl_content := pl_content l @ [c]\<rparr>"] Cons.prems show ?case by simp
qed simp

lemma new_state:
  assumes "clean t" and "t \<noteq> []" and "\<not> pl_pendingCR l"
    and "settle now (l\<lparr>pl_pendingCR := True\<rparr>) = (l', out')"
  shows "fold (pty_byte now) (CHR 0x0D # t) (one_line l out) =
     one_line (l'\<lparr>pl_pendingCR := False, pl_replacing := False, pl_drawing := True, pl_committed := False,
       pl_content := t\<rparr>) (out @ out')"
proof (cases t)
  case (Cons c u)
  with assms have "fold (pty_byte now) [CHR 0x0D, c] (one_line l out) =
      one_line (l'\<lparr>pl_pendingCR := False, pl_replacing := False, pl_drawing := True, pl_committed := False,
        pl_content := [c]\<rparr>) (out @ out')"
    by (cases l') (simp add: one_line_byte on_one_line carriage_return_def text_byte_def then_set_def settle_redraw_def)
  with extend_state [of u] assms(1) Cons show ?thesis by simp
qed (use assms(2) in simp)

lemma redraw_from:
  assumes "list_all clean ss" "[] \<notin> set ss" "s \<noteq> []" "ss \<noteq> []"
  shows "fold (pty_byte now) (redraw_text ss) (one_line (drawn_line now s r) out) =
     one_line (drawn_line now (last ss) (Some (case r of None \<Rightarrow> s | Some f \<Rightarrow> f))) (out @ (case r of None \<Rightarrow> [s] | Some f \<Rightarrow> []))"
  using assms
proof (induction ss arbitrary: s r out)
  case (Cons t ss)
  let ?r = "Some (case r of None \<Rightarrow> s | Some f \<Rightarrow> f)" and ?out = "out @ (case r of None \<Rightarrow> [s] | Some f \<Rightarrow> [])"
  have "settle now ((drawn_line now s r)\<lparr>pl_pendingCR := True\<rparr>) =
      ((drawn_line now s ?r)\<lparr>pl_pendingCR := True\<rparr>, case r of None \<Rightarrow> [s] | Some f \<Rightarrow> [])"
    using Cons.prems(3)
    by (simp add: drawn_line_def settle_def considerState_def record_state_def empty_line_def ptyRedrawInterval_def
        split: option.splits)
  moreover have "\<not> pl_pendingCR (drawn_line now s r)" by (simp add: drawn_line_def empty_line_def split: option.splits)
  moreover have "clean t" "t \<noteq> []" using Cons.prems(1,2) by auto
  moreover have "(drawn_line now s ?r)\<lparr>pl_pendingCR := True, pl_pendingCR := False, pl_replacing := False,
      pl_drawing := True, pl_committed := False, pl_content := t\<rparr> = drawn_line now t ?r"
    by (simp add: drawn_line_def empty_line_def)
  ultimately have
    "fold (pty_byte now) (CHR 0x0D # t) (one_line (drawn_line now s r) out) = one_line (drawn_line now t ?r) ?out"
    using new_state [of t "drawn_line now s r" now] by metis
  then have step: "fold (pty_byte now) (redraw_text (t # ss)) (one_line (drawn_line now s r) out) =
      fold (pty_byte now) (redraw_text ss) (one_line (drawn_line now t ?r) ?out)"
    by (simp flip: append_Cons)
  show ?case
  proof (cases "ss = []")
    case False
    with Cons.IH [of t ?r ?out] Cons.prems step show ?thesis by auto
  qed (use step in simp)
qed simp

lemma redraw_first:
  assumes "clean s0" "clean s" "s \<noteq> []"
  shows "fold (pty_byte now) (s0 @ CHR 0x0D # s) newPTYLog = one_line (drawn_line now s None) []"
proof -
  have new: "newPTYLog = one_line empty_line []" by (simp add: newPTYLog_def one_line_def)
  have "fold (pty_byte now) s0 newPTYLog = one_line (empty_line\<lparr>pl_content := s0\<rparr>) []"
    unfolding new using extend_state [OF assms(1), of empty_line] by (simp add: empty_line_def)
  moreover have "settle now (empty_line\<lparr>pl_content := s0, pl_pendingCR := True\<rparr>) =
      (empty_line\<lparr>pl_content := s0, pl_pendingCR := True\<rparr>, [])"
    by (simp add: settle_def empty_line_def)
  ultimately show ?thesis
    using new_state [OF assms(2,3), of "empty_line\<lparr>pl_content := s0\<rparr>" now]
    by (simp del: fold_simps add: fold_append) (simp add: drawn_line_def empty_line_def)
qed

text \<open>
  A line that is redrawn in place is logged, while less than the interval passes, by the first and
  the last of the states that a carriage return began, and by one line where those are the same. The
  text that stood on the line before its first carriage return is not logged at all.
\<close>

theorem redraw_states:
  assumes "clean s0" and "ss \<noteq> []" and "list_all (\<lambda>s. clean s \<and> s \<noteq> []) ss"
  shows "pt_out (fold (pty_byte now) (s0 @ redraw_text ss @ [CHR 0x0A]) newPTYLog) =
     (if last ss = hd ss then [hd ss] else [hd ss, last ss])"
proof (cases ss)
  case (Cons s rest)
  with assms have s: "clean s" "s \<noteq> []" and rest: "list_all clean rest" "[] \<notin> set rest"
    by (auto simp: list_all_iff)
  have "pt_out (pty_byte now CHR 0x0A (one_line (drawn_line now t r) out)) =
      out @ (if r = Some t then [] else [t])" if "t \<noteq> []" for t r out
    using that by (cases r)
      (auto simp: one_line_def pty_byte_def plain_byte_def commit_def on_line_def move_to_def commitLine_def
        then_set_def recordFinal_def record_state_def drawn_line_def empty_line_def Let_def)
  moreover have "fold (pty_byte now) (s0 @ redraw_text ss @ [CHR 0x0A]) newPTYLog =
      pty_byte now CHR 0x0A (fold (pty_byte now) (redraw_text rest) (one_line (drawn_line now s None) []))"
    using redraw_first [OF assms(1) s, of now] Cons by simp
  moreover have "last rest \<noteq> []" if "rest \<noteq> []" using rest(2) last_in_set [OF that] by metis
  ultimately show ?thesis
    using redraw_from [OF rest s(2), of now None "[]"] s(2) rest Cons
    by (cases "rest = []") auto
qed (use assms in simp)

theorem redraw_states_witness:
  "pt_out (fold (pty_byte 5) (''m.gguf'' @ redraw_text [''1%'', ''50%'', ''100%''] @ [CHR 0x0A]) newPTYLog) = [''1%'', ''100%'']"
  using redraw_states [of "''m.gguf''" "[''1%'', ''50%'', ''100%'']" 5] by simp

end
