(* ===== verification/RequestLog.thy ===== *)
theory RequestLog
  imports GoStrings
begin

text \<open>
  \<^verbatim>\<open>internal/daemon/logging.go\<close>: the level a server logs at and the record of each request. \<open>slog\<close> writes
  a record where its level is at least the configured one.
\<close>

section \<open>Levels\<close>

datatype slog_level = LogDebug | LogInfo | LogWarn | LogError

definition slog_rank :: "slog_level \<Rightarrow> int" where
  "slog_rank l = (case l of LogDebug \<Rightarrow> -4 | LogInfo \<Rightarrow> 0 | LogWarn \<Rightarrow> 4 | LogError \<Rightarrow> 8)"

definition levelNames :: "string list" where
  "levelNames = [''debug'', ''info'', ''warn'', ''error'']"

definition ParseLevel :: "string \<Rightarrow> slog_level option" where
  "ParseLevel name =
     (let n = to_lower (trim_space name) in
      if n = '''' \<or> n = ''info'' then Some LogInfo
      else if n = ''debug'' then Some LogDebug
      else if n = ''warn'' then Some LogWarn
      else if n = ''error'' then Some LogError
      else None)"

text \<open>\<open>getenv\<close>: the value of \<^verbatim>\<open>SPINLOOP_LOG_LEVEL\<close>, empty where it is not set.\<close>

definition ResolveLevel :: "string \<Rightarrow> string \<Rightarrow> slog_level option" where
  "ResolveLevel getenv flagValue =
     ParseLevel (if trim_space flagValue = '''' then getenv else flagValue)"

section \<open>The record of a request\<close>

datatype answer_call = WriteHeader nat | WriteBody nat

text \<open>The status and the bytes after what a handler did with the reply; zero stands for no status yet.\<close>

record recorder =
  rc_status :: nat
  rc_bytes :: nat

fun record_call :: "answer_call \<Rightarrow> recorder \<Rightarrow> recorder" where
  "record_call (WriteHeader status) r = (if rc_status r = 0 then r\<lparr>rc_status := status\<rparr> else r)"
| "record_call (WriteBody n) r =
     (let r = (if rc_status r = 0 then r\<lparr>rc_status := 200\<rparr> else r) in r\<lparr>rc_bytes := rc_bytes r + n\<rparr>)"

definition slog_for_status :: "nat \<Rightarrow> slog_level" where
  "slog_for_status status = (if status \<ge> 500 then LogError else if status \<ge> 400 then LogWarn else LogDebug)"

record request_record =
  rr_level :: slog_level
  rr_method :: string
  rr_path :: string
  rr_status :: nat
  rr_bytes :: nat
  rr_remote :: string

text \<open>The records the log holds of one request, at the configured level.\<close>

definition summarize ::
  "slog_level \<Rightarrow> string \<Rightarrow> string \<Rightarrow> string \<Rightarrow> answer_call list \<Rightarrow> request_record list" where
  "summarize level method uri remote calls =
     (let rec = fold record_call calls \<lparr>rc_status = 0, rc_bytes = 0\<rparr>;
          status = (if rc_status rec = 0 then 200 else rc_status rec);
          r = \<lparr>rr_level = slog_for_status status, rr_method = method, rr_path = uri, rr_status = status,
               rr_bytes = rc_bytes rec, rr_remote = remote\<rparr>
      in if slog_rank (rr_level r) \<ge> slog_rank level then [r] else [])"

section \<open>What is logged\<close>

text \<open>The status on the wire: that of the first call, as net/http sends it.\<close>

fun sent_status :: "answer_call list \<Rightarrow> nat" where
  "sent_status [] = 200"
| "sent_status (WriteHeader status # _) = status"
| "sent_status (WriteBody _ # _) = 200"

definition sent_bytes :: "answer_call list \<Rightarrow> nat" where
  "sent_bytes calls = sum_list (map (\<lambda>c. case c of WriteHeader _ \<Rightarrow> 0 | WriteBody n \<Rightarrow> n) calls)"

lemma recorded_bytes: "rc_bytes (fold record_call calls r) = rc_bytes r + sent_bytes calls"
  by (induction calls arbitrary: r) (auto simp: sent_bytes_def Let_def split: answer_call.split)

lemma recorded_kept: "rc_status r \<noteq> 0 \<Longrightarrow> rc_status (fold record_call calls r) = rc_status r"
proof (induction calls arbitrary: r)
  case (Cons c calls)
  then show ?case by (cases c) (auto simp: Let_def)
qed simp

lemma recorded_first:
  assumes "WriteHeader 0 \<notin> set calls"
  shows "(let s = rc_status (fold record_call calls \<lparr>rc_status = 0, rc_bytes = n\<rparr>) in if s = 0 then 200 else s) =
     sent_status calls"
proof (cases calls)
  case (Cons c rest)
  with assms show ?thesis by (cases c) (auto simp: recorded_kept Let_def)
qed simp

text \<open>
  A request is logged with the status and the number of bytes that were sent, at the default level
  exactly where it failed, and at the level \<^verbatim>\<open>error\<close> exactly where the failure was the server's.
\<close>

theorem summarize_spec:
  assumes "WriteHeader 0 \<notin> set calls"
  shows "(\<forall>r \<in> set (summarize level m u a calls). rr_status r = sent_status calls \<and> rr_bytes r = sent_bytes calls) \<and>
     (summarize LogInfo m u a calls \<noteq> [] \<longleftrightarrow> 400 \<le> sent_status calls) \<and>
     (summarize LogError m u a calls \<noteq> [] \<longleftrightarrow> 500 \<le> sent_status calls)"
  using recorded_first [OF assms, of 0]
  by (auto simp: summarize_def Let_def recorded_bytes slog_for_status_def slog_rank_def)

theorem summarize_spec_witness:
  "summarize LogInfo ''GET'' ''/v1/x'' ''c'' [WriteHeader 404, WriteBody 7] \<noteq> []"
  using summarize_spec [of "[WriteHeader 404, WriteBody 7]" LogInfo "''GET''" "''/v1/x''" "''c''"] by simp

text \<open>The names listed in the refusal are exactly the levels that are accepted, beside the empty name.\<close>

theorem levels_listed:
  "ParseLevel name \<noteq> None \<longleftrightarrow> to_lower (trim_space name) \<in> set ('''' # levelNames)"
  by (auto simp: ParseLevel_def levelNames_def Let_def)

end
