(* ===== verification/Catalog.thy ===== *)
theory Catalog
  imports JsonDoc FleetSelect EnvFile
begin

text \<open>
  \<^verbatim>\<open>internal/catalog/catalog.go\<close>: the providers of the catalogue and what a selection makes of one in each
  harness's terms. \<open>resolve\<close> looks up a variable and answers the empty string where it is not set;
  reading a file, decoding YAML and parsing a URL are arguments. An option is a decoded value.
\<close>

section \<open>The catalogue\<close>

record pi_config =
  pc_API :: string
  pc_BaseURL :: string

record provider =
  pv_Description :: string
  pv_Name :: string
  pv_NPM :: string
  pv_APIKeyEnv :: string
  pv_APIKeyRequired :: bool
  pv_APIKeyOptional :: bool
  pv_APIKeyPrefix :: string
  pv_Options :: json_object
  pv_OptionsFromEnv :: "(string, string) gomap"
  pv_OptionsRequired :: "string list"
  pv_Pi :: "pi_config option"
  pv_Lucinate :: "string option"

type_synonym catalog = "(string, provider) gomap"

type_synonym resolver = "string \<Rightarrow> string"

abbreviation ProvidersEnv :: string where "ProvidersEnv \<equiv> ''SPINLOOP_PROVIDERS''"
abbreviation baseURLEnv :: string where "baseURLEnv \<equiv> ''SPINLOOP_BASE_URL''"

datatype catalog_error =
    ReadingCatalog string string
  | ParsingCatalog string
  | OptionRequiredEnv string string string
  | OptionRequired string string
  | KeyNotSet string
  | KeyPrefixWrong string string
  | PiUnsupported string
  | LucinateUnsupported string

definition ResolveCatalogPath :: "(string \<Rightarrow> string) \<Rightarrow> string \<Rightarrow> string" where
  "ResolveCatalogPath getenv flagPath = (if flagPath \<noteq> '''' then flagPath else getenv ProvidersEnv)"

definition LoadFrom ::
  "(string \<Rightarrow> string + string) \<Rightarrow> (string \<Rightarrow> string + catalog) \<Rightarrow> string \<Rightarrow> string \<Rightarrow> catalog_error + catalog" where
  "LoadFrom read_file unmarshal embedded path =
     (case (if path = '''' then Inr embedded else map_sum (ReadingCatalog path) id (read_file path)) of
        Inl e \<Rightarrow> Inl e
      | Inr text \<Rightarrow> map_sum ParsingCatalog id (unmarshal text))"

definition Load :: "(string \<Rightarrow> string + string) \<Rightarrow> (string \<Rightarrow> string + catalog) \<Rightarrow> string \<Rightarrow> catalog_error + catalog" where
  "Load read_file unmarshal embedded = LoadFrom read_file unmarshal embedded ''''"

definition SortedProviderNames :: "catalog \<Rightarrow> string list" where
  "SortedProviderNames c = insertion_sort (elementwise (<)) (map fst c)"

section \<open>Options\<close>

fun env_options :: "resolver \<Rightarrow> (string, string) gomap \<Rightarrow> json_object \<Rightarrow> json_object" where
  "env_options resolve [] options = options"
| "env_options resolve ((optKey, envVar) # fromEnv) options =
     (let v = resolve envVar
      in env_options resolve fromEnv
           (if v \<noteq> '''' then AList.update optKey (JString v) options else options))"

definition ResolveOptions :: "resolver \<Rightarrow> provider \<Rightarrow> json_object" where
  "ResolveOptions resolve p = env_options resolve (pv_OptionsFromEnv p) (pv_Options p)"

definition option_missing :: "json_object \<Rightarrow> string \<Rightarrow> bool" where
  "option_missing options optKey \<longleftrightarrow>
     map_of options optKey \<in> set [None, Some JNull, Some (JString '''')]"

definition RequireOptions :: "provider \<Rightarrow> string \<Rightarrow> json_object \<Rightarrow> catalog_error option" where
  "RequireOptions p name options =
     (case find (option_missing options) (pv_OptionsRequired p) of
        None \<Rightarrow> None
      | Some optKey \<Rightarrow>
          (let env = get_or '''' (map_of (pv_OptionsFromEnv p)) optKey
           in Some (if env \<noteq> '''' then OptionRequiredEnv optKey name env else OptionRequired optKey name)))"

definition EnvRef :: "string \<Rightarrow> string" where
  "EnvRef name = ''{env:'' @ name @ ''}''"

definition IsLocalEndpoint :: "url_parser \<Rightarrow> string \<Rightarrow> bool" where
  "IsLocalEndpoint parse_url baseURL =
     (if baseURL = '''' then True
      else (case parse_url baseURL of
          None \<Rightarrow> True
        | Some u \<Rightarrow> up_Hostname u \<in> set ['''', ''localhost'', ''127.0.0.1'', ''0.0.0.0'', ''::1'']))"

section \<open>The opencode block\<close>

definition base_override :: "resolver \<Rightarrow> string \<Rightarrow> string" where
  "base_override resolve flag = (if flag = '''' then resolve baseURLEnv else flag)"

definition key_option ::
  "url_parser \<Rightarrow> resolver \<Rightarrow> provider \<Rightarrow> json_object \<Rightarrow> catalog_error + json_object" where
  "key_option parse_url resolve p options =
     (if pv_APIKeyEnv p = '''' then Inr options
      else
        (let key = resolve (pv_APIKeyEnv p); baseURL = string_or_empty (map_of options ''baseURL'')
         in if key = '''' \<and> pv_APIKeyRequired p then Inl (KeyNotSet (pv_APIKeyEnv p))
            else if key \<noteq> '''' \<and> pv_APIKeyPrefix p \<noteq> '''' \<and> \<not> prefix (pv_APIKeyPrefix p) key
              then Inl (KeyPrefixWrong (pv_APIKeyEnv p) (pv_APIKeyPrefix p))
            else if key = '''' \<and> pv_APIKeyOptional p \<and> IsLocalEndpoint parse_url baseURL then Inr options
            else Inr (AList.update ''apiKey'' (JString (EnvRef (pv_APIKeyEnv p))) options)))"

definition BuildProviderBlock ::
  "url_parser \<Rightarrow> string \<Rightarrow> provider \<Rightarrow> string \<Rightarrow> string \<Rightarrow> resolver \<Rightarrow> catalog_error + json_object \<times> string" where
  "BuildProviderBlock parse_url name p modelOverride baseURLOverride resolve =
     (let named = (if pv_Name p \<noteq> '''' then [(''name'', JString (pv_Name p))] else []);
          block = (if pv_NPM p \<noteq> '''' then AList.update ''npm'' (JString (pv_NPM p)) named else named);
          base = base_override resolve baseURLOverride;
          resolved = ResolveOptions resolve p;
          options = (if base \<noteq> '''' then AList.update ''baseURL'' (JString base) resolved else resolved)
      in case RequireOptions p name options of
           Some e \<Rightarrow> Inl e
         | None \<Rightarrow>
             (case key_option parse_url resolve p options of
                Inl e \<Rightarrow> Inl e
              | Inr options \<Rightarrow>
                  (let block = (if options \<noteq> [] then AList.update ''options'' (JObject options) block else block);
                       block = (if modelOverride \<noteq> ''''
                         then AList.update ''models'' (JObject [(modelOverride, JObject [(''name'', JString modelOverride)])]) block
                         else block)
                   in Inr (block, if modelOverride \<noteq> '''' then name @ ''/'' @ modelOverride else ''''))))"

definition CloudProviderLabel :: "string \<Rightarrow> string \<Rightarrow> string" where
  "CloudProviderLabel engine env = (if engine = '''' then env else engine @ '' ('' @ env @ '')'')"

section \<open>The Pi provider and the lucinate connection\<close>

record pi_model =
  pm_ID :: string
  pm_Name :: string
  pm_ContextWindow :: int
  pm_MaxTokens :: int

record pi_provider =
  pp_BaseURL :: string
  pp_API :: string
  pp_APIKey :: string
  pp_Models :: "pi_model list"

abbreviation piPlaceholderAPIKey :: string where "piPlaceholderAPIKey \<equiv> ''local''"

text \<open>The endpoint both builders choose: the override, the provider's own variable, the harness's entry, the options.\<close>

definition endpoint_for :: "resolver \<Rightarrow> provider \<Rightarrow> string \<Rightarrow> string \<Rightarrow> string" where
  "endpoint_for resolve p own baseURLOverride =
     (let base = base_override resolve baseURLOverride;
          v = get_or '''' (map_of (pv_OptionsFromEnv p)) ''baseURL'';
          envBaseURL = (if v \<noteq> '''' then resolve v else '''')
      in if base \<noteq> '''' then base
         else if envBaseURL \<noteq> '''' then envBaseURL
         else if own \<noteq> '''' then own
         else string_or_empty (map_of (pv_Options p) ''baseURL''))"

definition options_at :: "resolver \<Rightarrow> provider \<Rightarrow> string \<Rightarrow> json_object" where
  "options_at resolve p url =
     (if url \<noteq> '''' then AList.update ''baseURL'' (JString url) (ResolveOptions resolve p)
      else ResolveOptions resolve p)"

definition pi_key :: "url_parser \<Rightarrow> resolver \<Rightarrow> provider \<Rightarrow> string \<Rightarrow> string" where
  "pi_key parse_url resolve p url =
     (if pv_APIKeyEnv p \<noteq> '''' \<and> pv_APIKeyOptional p \<and> resolve (pv_APIKeyEnv p) = '''' \<and> IsLocalEndpoint parse_url url
      then piPlaceholderAPIKey
      else if pv_APIKeyEnv p \<noteq> '''' then ''$'' @ pv_APIKeyEnv p
      else piPlaceholderAPIKey)"

definition pi_model_for :: "string \<Rightarrow> pi_model" where
  "pi_model_for name = \<lparr>pm_ID = name, pm_Name = '''', pm_ContextWindow = 0, pm_MaxTokens = 0\<rparr>"

definition BuildPiProvider ::
  "url_parser \<Rightarrow> string \<Rightarrow> provider \<Rightarrow> string \<Rightarrow> string \<Rightarrow> resolver \<Rightarrow> catalog_error + pi_provider \<times> string" where
  "BuildPiProvider parse_url name p modelOverride baseURLOverride resolve =
     (case pv_Pi p of
        None \<Rightarrow> Inl (PiUnsupported name)
      | Some pc \<Rightarrow>
          (let url = endpoint_for resolve p (pc_BaseURL pc) baseURLOverride
           in case RequireOptions p name (options_at resolve p url) of
                Some e \<Rightarrow> Inl e
              | None \<Rightarrow>
                  Inr (\<lparr>pp_BaseURL = url, pp_API = pc_API pc, pp_APIKey = pi_key parse_url resolve p url,
                        pp_Models = (if modelOverride \<noteq> '''' then [pi_model_for modelOverride] else [])\<rparr>,
                    modelOverride)))"

record lucinate_connection =
  lc_BaseURL :: string
  lc_Model :: string

definition BuildLucinateConnection ::
  "string \<Rightarrow> provider \<Rightarrow> string \<Rightarrow> string \<Rightarrow> resolver \<Rightarrow> catalog_error + lucinate_connection \<times> string" where
  "BuildLucinateConnection name p modelOverride baseURLOverride resolve =
     (case pv_Lucinate p of
        None \<Rightarrow> Inl (LucinateUnsupported name)
      | Some own \<Rightarrow>
          (let url = endpoint_for resolve p own baseURLOverride
           in case RequireOptions p name (options_at resolve p url) of
                Some e \<Rightarrow> Inl e
              | None \<Rightarrow> Inr (\<lparr>lc_BaseURL = url, lc_Model = modelOverride\<rparr>, modelOverride)))"

section \<open>What an option is\<close>

lemma env_options_lookup:
  "keys_distinct fe \<Longrightarrow> map_of (env_options resolve fe options) k =
     (case map_of fe k of
        None \<Rightarrow> map_of options k
      | Some v \<Rightarrow> if resolve v \<noteq> '''' then Some (JString (resolve v)) else map_of options k)"
proof (induction fe arbitrary: options)
  case (Cons a fe)
  obtain x v where a: "a = (x, v)" by (cases a)
  show ?case using Cons.prems by (cases "x = k") (simp_all add: a Cons.IH Let_def split: option.split)
qed simp

lemma env_options_nonempty: "env_options resolve fe options = [] \<Longrightarrow> options = []"
proof (induction fe arbitrary: options)
  case (Cons a fe)
  obtain x v where a: "a = (x, v)" by (cases a)
  from Cons.prems Cons.IH have "(if resolve v \<noteq> '''' then AList.update x (JString (resolve v)) options else options) = []"
    by (auto simp: a Let_def)
  then show ?case by (cases options) (auto split: if_splits)
qed simp

lemma env_options_cong:
  "(\<And>v. v \<in> snd ` set fe \<Longrightarrow> resolve v = resolve' v) \<Longrightarrow> env_options resolve fe options = env_options resolve' fe options"
proof (induction fe arbitrary: options)
  case (Cons a fe)
  obtain x v where a: "a = (x, v)" by (cases a)
  have "resolve v = resolve' v" by (rule Cons.prems) (simp add: a)
  moreover have "env_options resolve fe opts = env_options resolve' fe opts" for opts
    by (rule Cons.IH) (simp add: Cons.prems)
  ultimately show ?case by (simp add: a Let_def)
qed simp

text \<open>
  Two lookups that differ in the key's variable alone, where both give a key the catalogue accepts. The
  variable gives no option and no endpoint.
\<close>

definition key_like :: "provider \<Rightarrow> string \<Rightarrow> bool" where
  "key_like p key \<longleftrightarrow> key \<noteq> '''' \<and> prefix (pv_APIKeyPrefix p) key"

definition key_only :: "provider \<Rightarrow> bool" where
  "key_only p \<longleftrightarrow> pv_APIKeyEnv p \<noteq> baseURLEnv \<and> pv_APIKeyEnv p \<notin> set (map snd (pv_OptionsFromEnv p))"

lemma ResolveOptions_key: "key_only p \<Longrightarrow> ResolveOptions (resolve(pv_APIKeyEnv p := key)) p = ResolveOptions resolve p"
  unfolding ResolveOptions_def key_only_def by (intro env_options_cong) force

lemma base_override_key: "key_only p \<Longrightarrow> base_override (resolve(pv_APIKeyEnv p := key)) flag = base_override resolve flag"
  by (cases "baseURLEnv = pv_APIKeyEnv p") (simp_all add: base_override_def key_only_def)

lemma endpoint_for_key:
  assumes "key_only p"
  shows "endpoint_for (resolve(pv_APIKeyEnv p := key)) p own flag = endpoint_for resolve p own flag"
proof -
  have "(resolve(pv_APIKeyEnv p := key)) v = resolve v" if "map_of (pv_OptionsFromEnv p) ''baseURL'' = Some v" for v
    using assms map_of_SomeD [OF that] by (force simp: key_only_def)
  then have "get_or '''' (map_of (pv_OptionsFromEnv p)) ''baseURL'' \<noteq> '''' \<Longrightarrow>
      (resolve(pv_APIKeyEnv p := key)) (get_or '''' (map_of (pv_OptionsFromEnv p)) ''baseURL'') =
      resolve (get_or '''' (map_of (pv_OptionsFromEnv p)) ''baseURL'')"
    by (cases "map_of (pv_OptionsFromEnv p) ''baseURL''") simp_all
  then show ?thesis unfolding endpoint_for_def Let_def base_override_key [OF assms] by simp
qed

lemma options_at_key: "key_only p \<Longrightarrow> options_at (resolve(pv_APIKeyEnv p := key)) p url = options_at resolve p url"
  by (simp only: options_at_def ResolveOptions_key)

lemma key_option_key:
  "key_like p key \<Longrightarrow> key_option parse_url (resolve(pv_APIKeyEnv p := key)) p options =
     Inr (if pv_APIKeyEnv p = '''' then options
          else AList.update ''apiKey'' (JString (EnvRef (pv_APIKeyEnv p))) options)"
  by (auto simp: key_option_def key_like_def Let_def)

lemma BuildProviderBlock_key:
  assumes "key_only p" "key_like p key" "key_like p key'"
  shows "BuildProviderBlock parse_url name p model flag (resolve(pv_APIKeyEnv p := key)) =
    BuildProviderBlock parse_url name p model flag (resolve(pv_APIKeyEnv p := key'))"
  by (simp only: BuildProviderBlock_def ResolveOptions_key base_override_key key_option_key assms)

lemma BuildPiProvider_key:
  assumes "key_only p" "key_like p key" "key_like p key'"
  shows "BuildPiProvider parse_url name p model flag (resolve(pv_APIKeyEnv p := key)) =
    BuildPiProvider parse_url name p model flag (resolve(pv_APIKeyEnv p := key'))"
  using assms
  by (simp only: BuildPiProvider_def endpoint_for_key options_at_key pi_key_def key_like_def fun_upd_same simp_thms)

lemma BuildLucinateConnection_key:
  assumes "key_only p"
  shows "BuildLucinateConnection name p model flag (resolve(pv_APIKeyEnv p := key)) =
    BuildLucinateConnection name p model flag (resolve(pv_APIKeyEnv p := key'))"
  by (simp only: BuildLucinateConnection_def endpoint_for_key options_at_key assms)

section \<open>One endpoint\<close>

text \<open>The address that an opencode block carries.\<close>

definition block_url :: "json_object \<Rightarrow> string" where
  "block_url block = string_or_empty (map_of (object_of (map_of block ''options'')) ''baseURL'')"

lemma key_option_url:
  "key_option parse_url resolve p options = Inr options' \<Longrightarrow> map_of options' ''baseURL'' = map_of options ''baseURL''"
  by (auto simp: key_option_def Let_def split: if_splits)

lemma url_of_options:
  assumes "keys_distinct (pv_OptionsFromEnv p)" and "resolve '''' = ''''"
  shows "string_or_empty (map_of (if base_override resolve flag \<noteq> ''''
      then AList.update ''baseURL'' (JString (base_override resolve flag)) (ResolveOptions resolve p)
      else ResolveOptions resolve p) ''baseURL'') = endpoint_for resolve p '''' flag"
  by (simp add: ResolveOptions_def env_options_lookup [OF assms(1)] assms(2) endpoint_for_def Let_def string_or_empty_def get_or_def
      split: option.split)

lemma BuildProviderBlock_url:
  assumes "keys_distinct (pv_OptionsFromEnv p)" and "resolve '''' = ''''"
    and "BuildProviderBlock parse_url name p model flag resolve = Inr (block, def)"
  shows "block_url block = endpoint_for resolve p '''' flag"
proof -
  define options where "options = (if base_override resolve flag \<noteq> ''''
      then AList.update ''baseURL'' (JString (base_override resolve flag)) (ResolveOptions resolve p)
      else ResolveOptions resolve p)"
  from assms(3) obtain options' where key: "key_option parse_url resolve p options = Inr options'"
    unfolding BuildProviderBlock_def Let_def options_def [symmetric] by (auto split: option.splits sum.splits)
  with assms(3) have "block_url block = string_or_empty (map_of options' ''baseURL'')"
    unfolding BuildProviderBlock_def Let_def options_def [symmetric]
    by (auto simp: block_url_def object_of_def string_or_empty_def split: option.splits if_splits)
  with key_option_url [OF key] url_of_options [where resolve = resolve, OF assms(1,2)] show ?thesis by (simp add: options_def)
qed

text \<open>
  The three harnesses are pointed at one endpoint: where the catalogue gives a harness no address of its
  own, the block that opencode is given, Pi's provider and the lucinate connection name the same URL.
\<close>

theorem same_endpoint:
  assumes "keys_distinct (pv_OptionsFromEnv p)" and "resolve '''' = ''''"
    and "pv_Pi p = Some \<lparr>pc_API = api, pc_BaseURL = ''''\<rparr>" and "pv_Lucinate p = Some ''''"
    and "BuildProviderBlock parse_url name p model flag resolve = Inr (block, d)"
    and "BuildPiProvider parse_url name p model flag resolve = Inr (prov, d')"
    and "BuildLucinateConnection name p model flag resolve = Inr (conn, d'')"
  shows "block_url block = pp_BaseURL prov \<and> pp_BaseURL prov = lc_BaseURL conn"
  using assms(3,4,6,7) BuildProviderBlock_url [where resolve = resolve, OF assms(1,2,5)]
  by (auto simp: BuildPiProvider_def BuildLucinateConnection_def Let_def split: option.splits)

definition ollama :: provider where
  "ollama = \<lparr>pv_Description = ''Local Ollama server (OpenAI-compatible API)'', pv_Name = ''Ollama (local)'',
     pv_NPM = ''@ai-sdk/openai-compatible'', pv_APIKeyEnv = '''', pv_APIKeyRequired = False, pv_APIKeyOptional = False,
     pv_APIKeyPrefix = '''', pv_Options = [(''baseURL'', JString ''http://localhost:11434/v1'')],
     pv_OptionsFromEnv = [(''baseURL'', ''OLLAMA_BASE_URL'')], pv_OptionsRequired = [],
     pv_Pi = Some \<lparr>pc_API = ''openai-completions'', pc_BaseURL = ''''\<rparr>, pv_Lucinate = Some ''''\<rparr>"

definition ollama_block :: json_object where
  "ollama_block = [(''name'', JString ''Ollama (local)''), (''npm'', JString ''@ai-sdk/openai-compatible''),
     (''options'', JObject [(''baseURL'', JString ''http://box:11434/v1'')]),
     (''models'', JObject [(''m'', JObject [(''name'', JString ''m'')])])]"

theorem same_endpoint_witness:
  "block_url ollama_block = ''http://box:11434/v1''"
proof -
  let ?r = "(\<lambda>v. if v = ''OLLAMA_BASE_URL'' then ''http://box:11434/v1'' else '''') :: resolver"
  have block: "BuildProviderBlock (\<lambda>_. None) ''ollama'' ollama ''m'' '''' ?r = Inr (ollama_block, ''ollama/m'')"
    by (simp add: BuildProviderBlock_def ollama_def ollama_block_def ResolveOptions_def base_override_def RequireOptions_def
        key_option_def Let_def)
  have pi: "BuildPiProvider (\<lambda>_. None) ''ollama'' ollama ''m'' '''' ?r =
      Inr (\<lparr>pp_BaseURL = ''http://box:11434/v1'', pp_API = ''openai-completions'', pp_APIKey = ''local'',
        pp_Models = [pi_model_for ''m'']\<rparr>, ''m'')"
    by (simp add: BuildPiProvider_def ollama_def endpoint_for_def base_override_def get_or_def pi_key_def
        RequireOptions_def Let_def)
  have luc: "BuildLucinateConnection ''ollama'' ollama ''m'' '''' ?r =
      Inr (\<lparr>lc_BaseURL = ''http://box:11434/v1'', lc_Model = ''m''\<rparr>, ''m'')"
    by (simp add: BuildLucinateConnection_def ollama_def endpoint_for_def base_override_def get_or_def
        RequireOptions_def Let_def)
  show ?thesis using same_endpoint [where resolve = ?r, OF _ _ _ _ block pi luc] by (simp add: ollama_def)
qed

end
