(* ===== verification/DocFile.thy ===== *)
theory DocFile
  imports Catalog
begin

text \<open>
  A JSON file that a harness keeps and that the program rewrites: how \<^verbatim>\<open>internal/pi\<close> and
  \<^verbatim>\<open>internal/lucinate\<close> read one into a generic map and write it back, and what either reports of it. The
  content of a file is the value its text decodes to; what the disk does is an argument. A write that fails
  leaves the file truncated.
\<close>

section \<open>Reading and writing\<close>

datatype doc_file = NoDoc | UnreadableDoc string | JsonText json | BadText string

datatype disk = DiskOK | MkdirFails string | WriteFails string | ChmodFails string

datatype config_error =
    NoHome string
  | ReadingConfig string
  | ParsingConfig string
  | WritingConfig string
  | Catalog catalog_error
  | NeedsBaseURL string

definition load_doc :: "doc_file \<Rightarrow> config_error + json_object" where
  "load_doc f =
     (case f of
        NoDoc \<Rightarrow> Inr []
      | UnreadableDoc e \<Rightarrow> Inl (ReadingConfig e)
      | BadText e \<Rightarrow> Inl (ParsingConfig e)
      | JsonText JNull \<Rightarrow> Inr []
      | JsonText (JObject m) \<Rightarrow> Inr m
      | JsonText _ \<Rightarrow> Inl (ParsingConfig ''not an object''))"

definition write_doc :: "disk \<Rightarrow> json_object \<Rightarrow> doc_file \<Rightarrow> doc_file \<times> config_error option" where
  "write_doc d doc f =
     (case d of
        MkdirFails e \<Rightarrow> (f, Some (WritingConfig e))
      | WriteFails e \<Rightarrow> (BadText ''unexpected end of JSON input'', Some (WritingConfig e))
      | ChmodFails e \<Rightarrow> (JsonText (JObject doc), Some (WritingConfig e))
      | DiskOK \<Rightarrow> (JsonText (JObject doc), None))"

definition doc_ok :: "doc_file \<Rightarrow> bool" where
  "doc_ok f \<longleftrightarrow> (case f of JsonText j \<Rightarrow> json_ok j | _ \<Rightarrow> True)"

lemma load_doc_ok: "doc_ok f \<Longrightarrow> load_doc f = Inr doc \<Longrightarrow> json_ok (JObject doc)"
  by (auto simp: doc_ok_def load_doc_def split: doc_file.splits json.splits)

lemma load_write [simp]: "load_doc (fst (write_doc DiskOK doc f)) = Inr doc"
  by (simp add: load_doc_def write_doc_def)

lemma write_doc_None: "write_doc d doc f = (f', None) \<Longrightarrow> f' = JsonText (JObject doc)"
  by (auto simp: write_doc_def split: disk.splits)

text \<open>What an adapter reports of one configured provider.\<close>

record provider_state =
  ps_ModelKeys :: "string list"
  ps_BaseURL :: string
  ps_Contexts :: "(string, int) gomap"
  ps_Outputs :: "(string, int) gomap"

text \<open>A 64-bit integer that went through \<^verbatim>\<open>json.Unmarshal\<close> into \<^verbatim>\<open>any\<close>: a float.\<close>

definition through_float :: "int \<Rightarrow> json" where
  "through_float n = (case round64 (of_int n) of Finite r \<Rightarrow> JNumber r | _ \<Rightarrow> JNull)"

section \<open>The last of a list\<close>

lemma find_append: "find P (xs @ ys) = (case find P xs of None \<Rightarrow> find P ys | Some x \<Rightarrow> Some x)"
  by (induction xs) auto

lemma find_rev_unique:
  "distinct (map f (filter P xs)) \<Longrightarrow> (\<And>x. f x = y \<Longrightarrow> P x) \<Longrightarrow> find (\<lambda>x. f x = y) (rev xs) = find (\<lambda>x. f x = y) xs"
proof (induction xs)
  case (Cons x xs)
  have IH: "find (\<lambda>x. f x = y) (rev xs) = find (\<lambda>x. f x = y) xs" using Cons by (auto split: if_splits)
  show ?case
  proof (cases "f x = y")
    case True
    then have "P x" by (rule Cons.prems(2))
    then have "f x \<notin> f ` {z \<in> set xs. P z}" using Cons.prems(1) by simp
    then have "\<forall>z \<in> set xs. P z \<longrightarrow> f z \<noteq> y" unfolding True by blast
    then have "\<forall>z \<in> set xs. f z \<noteq> y" using Cons.prems(2) by blast
    then have "find (\<lambda>x. f x = y) xs = None" by (simp add: find_None_iff)
    with True show ?thesis by (simp add: find_append IH)
  qed (simp add: find_append IH split: option.split)
qed simp

end
