(* ===== verification/PiStore.thy ===== *)
theory PiStore
  imports DocFile
begin

text \<open>
  \<^verbatim>\<open>internal/pi/pi.go\<close>: Pi's \<^verbatim>\<open>models.json\<close>, in which one provider is merged, removed and read back while
  the rest of the file stays. \<open>home\<close> is the user's home directory, or the error of asking for it; the
  conversion of a float outside the integer range is an argument, \<open>machine\<close>.
\<close>

section \<open>Merging a provider\<close>

definition pi_ConfigPath :: "string + string \<Rightarrow> config_error + string" where
  "pi_ConfigPath home =
     (case home of
        Inl e \<Rightarrow> Inl (NoHome e)
      | Inr h \<Rightarrow> Inr (path_join [h, ''.pi'', ''agent'', ''models.json'']))"

definition providersMap :: "json_object \<Rightarrow> json_object" where
  "providersMap doc = object_of (map_of doc ''providers'')"

text \<open>The provider as the encoder writes it and the decoder reads it back: empty fields are left out, no models are null.\<close>

definition pi_model_json :: "pi_model \<Rightarrow> json" where
  "pi_model_json m =
     JObject ([(''id'', JString (pm_ID m))] @
       (if pm_Name m \<noteq> '''' then [(''name'', JString (pm_Name m))] else []) @
       (if pm_ContextWindow m \<noteq> 0 then [(''contextWindow'', through_float (pm_ContextWindow m))] else []) @
       (if pm_MaxTokens m \<noteq> 0 then [(''maxTokens'', through_float (pm_MaxTokens m))] else []))"

definition toMap :: "pi_provider \<Rightarrow> json_object" where
  "toMap prov =
     (if pp_BaseURL prov \<noteq> '''' then [(''baseUrl'', JString (pp_BaseURL prov))] else []) @
     (if pp_API prov \<noteq> '''' then [(''api'', JString (pp_API prov))] else []) @
     (if pp_APIKey prov \<noteq> '''' then [(''apiKey'', JString (pp_APIKey prov))] else []) @
     [(''models'', if pp_Models prov = [] then JNull else JArray (map pi_model_json (pp_Models prov)))]"

definition model_id :: "json \<Rightarrow> string option" where
  "model_id m = as_string (map_of (object_of (Some m)) ''id'')"

fun by_id :: "json list \<Rightarrow> (string, json) gomap \<Rightarrow> (string, json) gomap" where
  "by_id [] byID = byID"
| "by_id (m # models) byID =
     by_id models (case model_id m of None \<Rightarrow> byID | Some mid \<Rightarrow> AList.update mid m byID)"

definition mergeModels :: "json list \<Rightarrow> json list \<Rightarrow> json list" where
  "mergeModels existing incoming =
     (let byID = by_id incoming (by_id existing [])
      in map (\<lambda>mid. get_or JNull (map_of byID) mid) (sort (map fst byID)))"

fun merge_scalars :: "json_object \<Rightarrow> json_object \<Rightarrow> json_object" where
  "merge_scalars out [] = out"
| "merge_scalars out ((k, v) # incoming) =
     merge_scalars (if k = ''models'' then out else AList.update k v out) incoming"

definition mergeProvider :: "json_object \<Rightarrow> json_object \<Rightarrow> json_object" where
  "mergeProvider existing incoming =
     AList.update ''models''
       (JArray (mergeModels (as_array (map_of existing ''models'')) (as_array (map_of incoming ''models''))))
       (merge_scalars existing incoming)"

section \<open>The operations\<close>

definition with_limits :: "int \<Rightarrow> int \<Rightarrow> pi_provider \<Rightarrow> pi_provider" where
  "with_limits contextWindow outputTokens prov =
     prov\<lparr>pp_Models := map (\<lambda>m.
        (let m = (if contextWindow > 0 then m\<lparr>pm_ContextWindow := contextWindow\<rparr> else m)
         in if outputTokens > 0 then m\<lparr>pm_MaxTokens := outputTokens\<rparr> else m)) (pp_Models prov)\<rparr>"

definition merged_root :: "string \<Rightarrow> pi_provider \<Rightarrow> json_object \<Rightarrow> json_object" where
  "merged_root name prov doc =
     (let pv = providersMap doc;
          existing = object_of (map_of pv name)
      in AList.update ''providers''
           (JObject (AList.update name (JObject (mergeProvider existing (toMap prov))) pv)) doc)"

definition pi_WriteTo ::
  "disk \<Rightarrow> string \<Rightarrow> pi_provider \<Rightarrow> int \<Rightarrow> int \<Rightarrow> doc_file \<Rightarrow> doc_file \<times> config_error option" where
  "pi_WriteTo d name prov contextWindow outputTokens f =
     (case load_doc f of
        Inl e \<Rightarrow> (f, Some e)
      | Inr doc \<Rightarrow> write_doc d (merged_root name (with_limits contextWindow outputTokens prov) doc) f)"

definition pi_Write ::
  "string + string \<Rightarrow> disk \<Rightarrow> string \<Rightarrow> pi_provider \<Rightarrow> int \<Rightarrow> int \<Rightarrow> doc_file \<Rightarrow> doc_file \<times> config_error option" where
  "pi_Write home d name prov contextWindow outputTokens f =
     (case pi_ConfigPath home of
        Inl e \<Rightarrow> (f, Some e)
      | Inr path \<Rightarrow> pi_WriteTo d name prov contextWindow outputTokens f)"

definition pi_Remove ::
  "string + string \<Rightarrow> disk \<Rightarrow> string \<Rightarrow> string list \<Rightarrow> doc_file \<Rightarrow> doc_file \<times> (config_error option \<times> nat)" where
  "pi_Remove home d name modelIDs f =
     (case pi_ConfigPath home of
        Inl e \<Rightarrow> (f, Some e, 0)
      | Inr path \<Rightarrow>
          (case load_doc f of
             Inl e \<Rightarrow> (f, Some e, 0)
           | Inr doc \<Rightarrow>
               (let pv = providersMap doc
                in case as_object (map_of pv name) of
                     None \<Rightarrow> (f, None, 0)
                   | Some prov \<Rightarrow>
                       if modelIDs = [] then
                         (case write_doc d (AList.update ''providers'' (JObject (AList.delete name pv)) doc) f of
                            (f', e) \<Rightarrow> (f', e, 1))
                       else
                         (let models = as_array (map_of prov ''models'');
                              dropped = (\<lambda>m. case model_id m of None \<Rightarrow> False | Some mid \<Rightarrow> mid \<in> set modelIDs);
                              kept = filter (\<lambda>m. \<not> dropped m) models;
                              removed = length (filter dropped models)
                          in if removed = 0 then (f, None, 0)
                             else (case write_doc d
                                     (AList.update ''providers''
                                        (JObject (AList.update name (JObject (AList.update ''models'' (JArray kept) prov)) pv))
                                        doc) f of
                                 (f', e) \<Rightarrow> (f', e, removed))))))"

definition limit_of :: "(float64 \<Rightarrow> int) \<Rightarrow> json_object \<Rightarrow> string \<Rightarrow> int option" where
  "limit_of machine mm k =
     (case as_number (map_of mm k) of
        None \<Rightarrow> None
      | Some c \<Rightarrow> if c > 0 then Some (to_int64 machine (Finite c)) else None)"

definition note_limit :: "string \<Rightarrow> int option \<Rightarrow> (string, int) gomap \<Rightarrow> (string, int) gomap" where
  "note_limit mid l m = (case l of None \<Rightarrow> m | Some n \<Rightarrow> AList.update mid n m)"

fun read_models :: "(float64 \<Rightarrow> int) \<Rightarrow> json list \<Rightarrow> provider_state \<Rightarrow> provider_state" where
  "read_models machine [] st = st"
| "read_models machine (m # models) st =
     (let mid = string_or_empty (map_of (object_of (Some m)) ''id'')
      in read_models machine models
           (if mid = '''' then st
            else st\<lparr>ps_ModelKeys := ps_ModelKeys st @ [mid],
                    ps_Contexts := note_limit mid (limit_of machine (object_of (Some m)) ''contextWindow'') (ps_Contexts st),
                    ps_Outputs := note_limit mid (limit_of machine (object_of (Some m)) ''maxTokens'') (ps_Outputs st)\<rparr>))"

definition provider_read :: "(float64 \<Rightarrow> int) \<Rightarrow> json_object \<Rightarrow> provider_state" where
  "provider_read machine prov =
     (let st = read_models machine (as_array (map_of prov ''models''))
        \<lparr>ps_ModelKeys = [], ps_BaseURL = string_or_empty (map_of prov ''baseUrl''), ps_Contexts = [], ps_Outputs = []\<rparr>
      in st\<lparr>ps_ModelKeys := sort (ps_ModelKeys st)\<rparr>)"

definition pi_State ::
  "(float64 \<Rightarrow> int) \<Rightarrow> string + string \<Rightarrow> doc_file \<Rightarrow> config_error + (string, provider_state) gomap" where
  "pi_State machine home f =
     (case pi_ConfigPath home of
        Inl e \<Rightarrow> Inl e
      | Inr path \<Rightarrow>
          (case load_doc f of
             Inl e \<Rightarrow> Inl e
           | Inr doc \<Rightarrow> Inr (List.map_filter (\<lambda>(name, raw). map_option (\<lambda>prov. (name, provider_read machine prov))
                (as_object (Some raw))) (providersMap doc))))"

section \<open>The union of two model lists\<close>

text \<open>The last model of a list that has the id.\<close>

definition latest :: "json list \<Rightarrow> string \<Rightarrow> json option" where
  "latest models mid = find (\<lambda>m. model_id m = Some mid) (rev models)"

lemma latest_Nil [simp]: "latest [] mid = None"
  by (simp add: latest_def)


lemma latest_Cons: "latest (m # ms) mid = (case latest ms mid of None \<Rightarrow> if model_id m = Some mid then Some m else None | Some x \<Rightarrow> Some x)"
  by (simp add: latest_def find_append split: option.split)

lemma latest_append: "latest (ms @ ns) mid = (case latest ns mid of None \<Rightarrow> latest ms mid | Some x \<Rightarrow> Some x)"
  by (simp add: latest_def find_append split: option.split)

lemma latest_Some: "latest ms mid = Some m \<Longrightarrow> m \<in> set ms \<and> model_id m = Some mid"
  unfolding latest_def by (drule find_SomeD) simp

lemma latest_None: "latest ms mid = None \<longleftrightarrow> (\<forall>m \<in> set ms. model_id m \<noteq> Some mid)"
  by (auto simp: latest_def find_None_iff)

lemma by_id_lookup:
  "map_of (by_id ms acc) mid = (case latest ms mid of None \<Rightarrow> map_of acc mid | Some m \<Rightarrow> Some m)"
proof (induction ms arbitrary: acc)
  case (Cons m ms)
  show ?case by (auto simp: Cons.IH latest_Cons split: option.split)
qed simp

lemma keys_distinct_by_id: "keys_distinct acc \<Longrightarrow> keys_distinct (by_id ms acc)"
  by (induction ms arbitrary: acc) (auto split: option.split)

lemma by_id_append: "by_id ns (by_id ms acc) = by_id (ms @ ns) acc"
  by (induction ms arbitrary: acc) auto

lemma keys_of_by_id: "fst ` set (by_id ms []) = {mid. latest ms mid \<noteq> None}"
proof -
  have "mid \<in> fst ` set (by_id ms []) \<longleftrightarrow> latest ms mid \<noteq> None" for mid
    using map_of_eq_None_iff [of "by_id ms []" mid] by (simp add: by_id_lookup split: option.splits)
  then show ?thesis by blast
qed

definition ids_of :: "json list \<Rightarrow> string list" where
  "ids_of ms = sort (map fst (by_id ms []))"

lemma set_ids_of: "set (ids_of ms) = {mid. latest ms mid \<noteq> None}"
  by (simp add: ids_of_def keys_of_by_id)

lemma ids_of_strict: "sorted (ids_of ms) \<and> distinct (ids_of ms)"
  using keys_distinct_by_id [of "[]" ms] by (simp add: ids_of_def keys_distinct_def)

lemma mergeModels_latest:
  "mergeModels es ins = map (\<lambda>mid. get_or JNull (latest (es @ ins)) mid) (ids_of (es @ ins))"
proof -
  have "map_of (by_id (es @ ins) []) = latest (es @ ins)"
    by (rule ext) (simp add: by_id_lookup split: option.split)
  then show ?thesis by (simp add: mergeModels_def by_id_append ids_of_def Let_def)
qed

lemma model_id_merged:
  "mid \<in> set (ids_of ms) \<Longrightarrow> model_id (get_or JNull (latest ms) mid) = Some mid"
  by (cases "latest ms mid") (auto simp: set_ids_of dest: latest_Some)

lemma merged_ids: "map model_id (mergeModels es ins) = map Some (ids_of (es @ ins))"
  by (simp add: mergeModels_latest model_id_merged)

lemma latest_by_ids:
  assumes "map model_id ms = map Some ids" "distinct ids" "m \<in> set ms" "model_id m = Some mid"
  shows "latest ms mid = Some m"
proof -
  obtain x where x: "latest ms mid = Some x" using assms(3,4) latest_None [of ms mid] by (cases "latest ms mid") auto
  have "inj_on model_id (set ms)" using assms(1,2)
    by (metis distinct_map inj_Some inj_on_subset distinct_map subset_UNIV)
  then have "x = m" using latest_Some [OF x] assms(3,4) by (intro inj_onD [of model_id "set ms"]) auto
  with x show ?thesis by simp
qed

lemma latest_merged: "latest (mergeModels es ins) mid = latest (es @ ins) mid"
proof (cases "mid \<in> set (ids_of (es @ ins))")
  case True
  then obtain m where m: "latest (es @ ins) mid = Some m" by (auto simp: set_ids_of)
  then have "m \<in> set (mergeModels es ins)" using True
    by (auto simp: mergeModels_latest image_iff get_or_def intro!: bexI [of _ mid])
  then show ?thesis
    using latest_by_ids [OF merged_ids] ids_of_strict m latest_Some [OF m] by metis
next
  case False
  have "model_id m \<noteq> Some mid" if "m \<in> set (mergeModels es ins)" for m
    using that False by (auto simp: mergeModels_latest model_id_merged)
  then have "latest (mergeModels es ins) mid = None" by (simp add: latest_None)
  moreover have "latest (es @ ins) mid = None" using False by (simp add: set_ids_of)
  ultimately show ?thesis by simp
qed

lemma ids_of_cong: "(\<And>mid. latest ms mid = latest ns mid) \<Longrightarrow> ids_of ms = ids_of ns"
  using sorted_distinct_set_unique [of "ids_of ms" "ids_of ns"] ids_of_strict by (simp add: set_ids_of)

lemma mergeModels_idem: "mergeModels (mergeModels es ins) ins = mergeModels es ins"
proof -
  have same: "latest (mergeModels es ins @ ins) = latest (es @ ins)"
    by (rule ext) (simp add: latest_append latest_merged split: option.split)
  then have "ids_of (mergeModels es ins @ ins) = ids_of (es @ ins)" by (intro ids_of_cong) simp
  with same mergeModels_latest [of "mergeModels es ins" ins] mergeModels_latest [of es ins] show ?thesis by metis
qed

section \<open>What is read\<close>

definition json_id :: "json \<Rightarrow> string" where
  "json_id m = string_or_empty (map_of (object_of (Some m)) ''id'')"

lemma json_id_model_id: "json_id m = (case model_id m of None \<Rightarrow> '''' | Some mid \<Rightarrow> mid)"
  by (auto simp: json_id_def model_id_def as_string_def string_or_empty_def split: option.splits json.splits)

lemma json_id_Some: "mid \<noteq> '''' \<Longrightarrow> json_id m = mid \<longleftrightarrow> model_id m = Some mid"
  by (auto simp: json_id_model_id split: option.splits)

lemma read_keys:
  "ps_ModelKeys (read_models machine ms st) = ps_ModelKeys st @ filter (\<lambda>mid. mid \<noteq> '''') (map json_id ms)"
  by (induction machine ms st rule: read_models.induct) (auto simp: Let_def json_id_def)

lemma read_url: "ps_BaseURL (read_models machine ms st) = ps_BaseURL st"
  by (induction machine ms st rule: read_models.induct) (auto simp: Let_def)

lemma read_contexts_other:
  "mid \<notin> set (map json_id ms) \<Longrightarrow> map_of (ps_Contexts (read_models machine ms st)) mid = map_of (ps_Contexts st) mid"
  by (induction machine ms st rule: read_models.induct) (auto simp: Let_def json_id_def note_limit_def split: option.splits)

lemma read_contexts:
  "distinct (filter (\<lambda>mid. mid \<noteq> '''') (map json_id ms)) \<Longrightarrow> m \<in> set ms \<Longrightarrow> json_id m \<noteq> '''' \<Longrightarrow>
   limit_of machine (object_of (Some m)) ''contextWindow'' = Some n \<Longrightarrow>
   map_of (ps_Contexts (read_models machine ms st)) (json_id m) = Some n"
proof (induction ms arbitrary: st)
  case (Cons x ms)
  let ?st = "\<lambda>st. if json_id x = '''' then st
      else st\<lparr>ps_ModelKeys := ps_ModelKeys st @ [json_id x],
              ps_Contexts := note_limit (json_id x) (limit_of machine (object_of (Some x)) ''contextWindow'') (ps_Contexts st),
              ps_Outputs := note_limit (json_id x) (limit_of machine (object_of (Some x)) ''maxTokens'') (ps_Outputs st)\<rparr>"
  have step: "read_models machine (x # ms) st = read_models machine ms (?st st)"
    by (simp add: json_id_def Let_def)
  show ?case
  proof (cases "json_id x = json_id m")
    case True
    with Cons.prems have "json_id m \<notin> set (map json_id ms)" by (auto simp: image_iff)
    moreover from this Cons.prems have "x = m" by auto
    ultimately show ?thesis using Cons.prems unfolding step by (simp add: read_contexts_other note_limit_def)
  next
    case False
    with Cons.prems have "m \<in> set ms" "distinct (filter (\<lambda>mid. mid \<noteq> '''') (map json_id ms))" by (auto split: if_splits)
    with Cons.IH [of "?st st"] Cons.prems show ?thesis unfolding step by simp
  qed
qed simp

section \<open>One provider merged\<close>

lemma merge_scalars_lookup:
  "keys_distinct incoming \<Longrightarrow> map_of (merge_scalars out incoming) k =
     (case map_of incoming k of Some v \<Rightarrow> if k = ''models'' then map_of out k else Some v | None \<Rightarrow> map_of out k)"
proof (induction incoming arbitrary: out)
  case (Cons a incoming)
  obtain x v where a: "a = (x, v)" by (cases a)
  show ?case using Cons.prems by (cases "x = k") (simp_all add: a Cons.IH split: option.split)
qed simp

lemma merge_scalars_same:
  "(\<And>k v. (k, v) \<in> set incoming \<Longrightarrow> k \<noteq> ''models'' \<Longrightarrow> map_of out k = Some v) \<Longrightarrow> merge_scalars out incoming = out"
proof (induction incoming arbitrary: out)
  case (Cons a incoming)
  obtain x v where a: "a = (x, v)" by (cases a)
  have "x \<noteq> ''models'' \<Longrightarrow> AList.update x v out = out" using Cons.prems [of x v] by (simp add: a update_triv)
  moreover have "merge_scalars out incoming = out" using Cons.prems by (intro Cons.IH) (simp add: a)
  ultimately show ?case by (simp add: a)
qed simp

lemma keys_distinct_toMap: "keys_distinct (toMap prov)"
  by (simp add: toMap_def)

lemma mergeProvider_lookup:
  "map_of (mergeProvider existing (toMap prov)) k =
     (if k = ''models'' then Some (JArray (mergeModels (as_array (map_of existing ''models''))
          (map pi_model_json (pp_Models prov))))
      else (case map_of (toMap prov) k of Some v \<Rightarrow> Some v | None \<Rightarrow> map_of existing k))"
proof -
  have "as_array (map_of (toMap prov) ''models'') = map pi_model_json (pp_Models prov)"
    by (simp add: toMap_def as_array_def)
  then show ?thesis
    by (simp add: mergeProvider_def merge_scalars_lookup keys_distinct_toMap split: option.split)
qed

lemma mergeProvider_idem:
  "mergeProvider (mergeProvider existing (toMap prov)) (toMap prov) = mergeProvider existing (toMap prov)"
proof -
  let ?p = "mergeProvider existing (toMap prov)"
  have "merge_scalars ?p (toMap prov) = ?p"
  proof (rule merge_scalars_same)
    fix k v
    assume "(k, v) \<in> set (toMap prov)" "k \<noteq> ''models''"
    then show "map_of ?p k = Some v"
      by (simp add: mergeProvider_lookup map_of_in_set [OF keys_distinct_toMap])
  qed
  moreover have "as_array (map_of ?p ''models'') = mergeModels (as_array (map_of existing ''models''))
      (map pi_model_json (pp_Models prov))"
    by (simp add: mergeProvider_lookup as_array_def)
  moreover have "as_array (map_of (toMap prov) ''models'') = map pi_model_json (pp_Models prov)"
    by (simp add: toMap_def as_array_def)
  ultimately show ?thesis
    using mergeProvider_lookup [of existing prov "''models''"]
    unfolding mergeProvider_def [of ?p] by (simp add: mergeModels_idem update_triv)
qed

lemma merged_providers:
  "providersMap (merged_root name prov doc) =
     AList.update name (JObject (mergeProvider (object_of (map_of (providersMap doc) name)) (toMap prov))) (providersMap doc)"
  by (simp add: merged_root_def Let_def providersMap_def object_of_def)

lemma merged_root_other: "k \<noteq> ''providers'' \<Longrightarrow> map_of (merged_root name prov doc) k = map_of doc k"
  by (simp add: merged_root_def Let_def)

text \<open>Writing the same provider again changes nothing of the file.\<close>

lemma merged_root_idem: "merged_root name prov (merged_root name prov doc) = merged_root name prov doc"
proof -
  let ?d = "merged_root name prov doc"
  have "object_of (map_of (providersMap ?d) name) = mergeProvider (object_of (map_of (providersMap doc) name)) (toMap prov)"
    by (simp add: merged_providers object_of_def)
  then have "merged_root name prov ?d = AList.update ''providers'' (JObject (providersMap ?d)) ?d"
    unfolding merged_root_def [of name prov ?d] by (simp add: Let_def mergeProvider_idem merged_providers)
  moreover have "map_of ?d ''providers'' = Some (JObject (providersMap ?d))"
    by (simp add: merged_root_def Let_def providersMap_def object_of_def)
  ultimately show ?thesis by (simp add: update_triv)
qed

section \<open>Written, then read\<close>

lemma pi_State_lookup:
  assumes "pi_State machine home f = Inr sts" "load_doc f = Inr doc" "keys_distinct (providersMap doc)"
  shows "map_of sts name = map_option (provider_read machine) (as_object (map_of (providersMap doc) name))"
proof -
  let ?entry = "\<lambda>(name, raw). map_option (\<lambda>prov. (name, provider_read machine prov)) (as_object (Some raw))"
  have "map_of (List.map_filter ?entry ps) name = map_option (provider_read machine) (as_object (map_of ps name))"
    if "keys_distinct ps" for ps
    using that
  proof (induction ps)
    case Nil
    then show ?case by (simp add: as_object_def)
  next
    case (Cons a ps)
    obtain x v where a: "a = (x, v)" by (cases a)
    show ?case using Cons by (cases "x = name")
        (auto simp: a as_object_def map_filter_simps split: option.splits json.splits)
  qed
  with assms show ?thesis by (auto simp: pi_State_def split: sum.splits)
qed

lemma providersMap_distinct: "json_ok (JObject doc) \<Longrightarrow> keys_distinct (providersMap doc)"
  using json_ok_lookup [of doc "''providers''"]
  by (auto simp: providersMap_def object_of_def split: option.split json.split)

definition model_names :: "json_object \<Rightarrow> string set" where
  "model_names prov = set (filter (\<lambda>mid. mid \<noteq> '''') (map json_id (as_array (map_of prov ''models''))))"

lemma empty_model_names: "model_names [] = {}"
  by (simp add: model_names_def as_array_def)

lemma provider_read_keys: "set (ps_ModelKeys (provider_read machine prov)) = model_names prov"
  by (simp add: provider_read_def Let_def read_keys model_names_def)

lemma provider_url: "ps_BaseURL (provider_read machine prov) = string_or_empty (map_of prov ''baseUrl'')"
  by (simp add: provider_read_def Let_def read_url)

lemma json_ids_merged:
  "filter (\<lambda>mid. mid \<noteq> '''') (map json_id (mergeModels es ins)) = filter (\<lambda>mid. mid \<noteq> '''') (ids_of (es @ ins))"
proof -
  have "map json_id (mergeModels es ins) = ids_of (es @ ins)"
    by (simp add: mergeModels_latest json_id_model_id model_id_merged map_idI)
  then show ?thesis by simp
qed

lemma set_json_ids: "set (filter (\<lambda>mid. mid \<noteq> '''') (ids_of ms)) = set (filter (\<lambda>mid. mid \<noteq> '''') (map json_id ms))"
proof (rule set_eqI)
  fix mid
  show "mid \<in> set (filter (\<lambda>mid. mid \<noteq> '''') (ids_of ms)) \<longleftrightarrow> mid \<in> set (filter (\<lambda>mid. mid \<noteq> '''') (map json_id ms))"
    using json_id_Some [of mid] by (cases "mid = ''''") (auto simp: set_ids_of latest_None image_iff eq_commute [of mid])
qed

lemma json_id_pi_model [simp]: "json_id (pi_model_json m) = pm_ID m"
  by (simp add: json_id_def object_of_def pi_model_json_def string_or_empty_def)

lemma toMap_url:
  "map_of (toMap (with_limits cw ot prov)) ''baseUrl'' =
     (if pp_BaseURL prov \<noteq> '''' then Some (JString (pp_BaseURL prov)) else None)"
  by (simp add: toMap_def with_limits_def)

lemma pi_models_read:
  assumes "provider_read machine (mergeProvider existing (toMap (with_limits cw ot prov))) = st"
  shows "sorted (ps_ModelKeys st) \<and> distinct (ps_ModelKeys st)"
    and "set (ps_ModelKeys st) = model_names existing \<union> {mid \<in> pm_ID ` set (pp_Models prov). mid \<noteq> ''''}"
    and "ps_BaseURL st = (if pp_BaseURL prov \<noteq> '''' then pp_BaseURL prov else string_or_empty (map_of existing ''baseUrl''))"
proof -
  let ?es = "as_array (map_of existing ''models'')" and ?ins = "map pi_model_json (pp_Models (with_limits cw ot prov))"
  let ?p = "mergeProvider existing (toMap (with_limits cw ot prov))"
  have models: "as_array (map_of ?p ''models'') = mergeModels ?es ?ins"
    by (simp add: mergeProvider_lookup as_array_def)
  then have keys: "ps_ModelKeys st = sort (filter (\<lambda>mid. mid \<noteq> '''') (ids_of (?es @ ?ins)))"
    unfolding assms [symmetric] by (simp add: provider_read_def Let_def read_keys json_ids_merged)
  then show "sorted (ps_ModelKeys st) \<and> distinct (ps_ModelKeys st)"
    using ids_of_strict [of "?es @ ?ins"] by (simp add: distinct_filter)
  have "map json_id ?ins = map pm_ID (pp_Models prov)"
    by (simp add: with_limits_def Let_def comp_def)
  then have "set (ps_ModelKeys st) = set (filter (\<lambda>mid. mid \<noteq> '''') (map json_id ?es @ map pm_ID (pp_Models prov)))"
    unfolding keys set_sort set_json_ids map_append by (rule arg_cong)
  then show "set (ps_ModelKeys st) = model_names existing \<union> {mid \<in> pm_ID ` set (pp_Models prov). mid \<noteq> ''''}"
    by (auto simp: model_names_def)
  show "ps_BaseURL st = (if pp_BaseURL prov \<noteq> '''' then pp_BaseURL prov else string_or_empty (map_of existing ''baseUrl''))"
    unfolding assms [symmetric] by (simp add: provider_url mergeProvider_lookup toMap_url string_or_empty_def)
qed


text \<open>Applying the same selection again leaves the file as it is.\<close>

theorem pi_write_again:
  assumes "pi_Write home d name prov cw ot f = (f', None)"
  shows "pi_Write home DiskOK name prov cw ot f' = (f', None)"
proof -
  from assms obtain doc where "load_doc f = Inr doc" "f' = JsonText (JObject (merged_root name (with_limits cw ot prov) doc))"
    using write_doc_None by (auto simp: pi_Write_def pi_WriteTo_def split: sum.splits)
  with assms show ?thesis
    by (auto simp: pi_Write_def pi_WriteTo_def load_doc_def write_doc_def merged_root_idem split: sum.splits)
qed

definition demo_file :: doc_file where
  "demo_file = JsonText (JObject [(''providers'', JObject [(''p'', JObject
     [(''compat'', JBool True), (''models'', JArray [JObject [(''id'', JString ''b'')]])])])])"

definition demo_provider :: pi_provider where
  "demo_provider = \<lparr>pp_BaseURL = ''http://gw/v1'', pp_API = ''openai-completions'', pp_APIKey = ''$K'',
     pp_Models = [pi_model_for ''a'']\<rparr>"

definition demo_written :: doc_file where
  "demo_written = JsonText (JObject [(''providers'', JObject [(''p'', JObject
     [(''compat'', JBool True), (''models'', JArray [JObject [(''id'', JString ''a'')], JObject [(''id'', JString ''b'')]]),
      (''baseUrl'', JString ''http://gw/v1''), (''api'', JString ''openai-completions''), (''apiKey'', JString ''$K'')])])])"

lemma demo_write: "pi_Write (Inr ''/h'') DiskOK ''p'' demo_provider 0 0 demo_file = (demo_written, None)"
  by (simp add: pi_Write_def pi_ConfigPath_def pi_WriteTo_def load_doc_def demo_file_def write_doc_def merged_root_def
      demo_provider_def demo_written_def with_limits_def toMap_def mergeProvider_def mergeModels_def providersMap_def
      object_of_def as_array_def as_string_def model_id_def pi_model_json_def pi_model_for_def less_char_def
      get_or_def Let_def)


theorem pi_write_again_witness:
  "pi_Write (Inr ''/h'') DiskOK ''p'' demo_provider 0 0 demo_written = (demo_written, None)"
  by (rule pi_write_again [OF demo_write])

end
