(* ===== verification/LucinateStore.thy ===== *)
theory LucinateStore
  imports DocFile
begin

text \<open>
  \<^verbatim>\<open>internal/lucinate/lucinate.go\<close>: lucinate's \<^verbatim>\<open>connections.json\<close>, a list of connections in which the program
  keeps one of its own per provider, under an id made from the provider's. The data directory's variable
  and the home directory are arguments; \<open>stamp\<close> is the time a new connection is stamped with.
\<close>

section \<open>Ids and paths\<close>

abbreviation managedIDPrefix :: string where "managedIDPrefix \<equiv> ''spinloop:''"

record connection =
  cn_URL :: string
  cn_DefaultModel :: string
  cn_Name :: string

definition DataDir :: "string \<Rightarrow> string + string \<Rightarrow> config_error + string" where
  "DataDir env home =
     (if env \<noteq> '''' then Inr env
      else (case home of Inl e \<Rightarrow> Inl (NoHome e) | Inr h \<Rightarrow> Inr (path_join [h, ''.lucinate''])))"

definition lucinate_ConfigPath :: "string \<Rightarrow> string + string \<Rightarrow> config_error + string" where
  "lucinate_ConfigPath env home = map_sum id (\<lambda>dir. path_join [dir, ''connections.json'']) (DataDir env home)"

definition ManagedID :: "string \<Rightarrow> string" where
  "ManagedID providerID = managedIDPrefix @ providerID"

definition providerIDFromManaged :: "string \<Rightarrow> string option" where
  "providerIDFromManaged cid =
     (if prefix managedIDPrefix cid then Some (drop (length managedIDPrefix) cid) else None)"

definition connectionsArray :: "json_object \<Rightarrow> json list" where
  "connectionsArray doc = as_array (map_of doc ''connections'')"

text \<open>Whether an element is an object with this id.\<close>

definition has_conn_id :: "string \<Rightarrow> json \<Rightarrow> bool" where
  "has_conn_id cid raw \<longleftrightarrow> map_of (object_of (Some raw)) ''id'' = Some (JString cid)"

section \<open>The operations\<close>

definition applyConnFields :: "string \<Rightarrow> string \<Rightarrow> connection \<Rightarrow> json_object \<Rightarrow> json_object" where
  "applyConnFields stamp cid conn el =
     (let el = AList.update ''id'' (JString cid) el;
          el = AList.update ''type'' (JString ''openai'') el;
          el = AList.update ''url'' (JString (cn_URL conn)) el;
          el = AList.update ''name'' (JString (cn_Name conn)) el;
          el = (if cn_DefaultModel conn \<noteq> '''' then AList.update ''defaultModel'' (JString (cn_DefaultModel conn)) el
                else AList.delete ''defaultModel'' el)
      in if map_of el ''createdAt'' = None then AList.update ''createdAt'' (JString stamp) el else el)"

fun put_conn :: "string \<Rightarrow> string \<Rightarrow> connection \<Rightarrow> json list \<Rightarrow> json list" where
  "put_conn stamp cid conn [] = [JObject (applyConnFields stamp cid conn [])]"
| "put_conn stamp cid conn (raw # conns) =
     (if has_conn_id cid raw then JObject (applyConnFields stamp cid conn (object_of (Some raw))) # conns
      else raw # put_conn stamp cid conn conns)"

definition lucinate_doc :: "string \<Rightarrow> string \<Rightarrow> connection \<Rightarrow> json_object \<Rightarrow> json_object" where
  "lucinate_doc stamp providerID conn doc =
     AList.update ''defaultId'' (JString (ManagedID providerID))
       (AList.update ''connections'' (JArray (put_conn stamp (ManagedID providerID) conn (connectionsArray doc))) doc)"

definition lucinate_Write ::
  "string \<Rightarrow> string + string \<Rightarrow> disk \<Rightarrow> string \<Rightarrow> string \<Rightarrow> connection \<Rightarrow> doc_file \<Rightarrow> doc_file \<times> config_error option" where
  "lucinate_Write env home d stamp providerID conn f =
     (case lucinate_ConfigPath env home of
        Inl e \<Rightarrow> (f, Some e)
      | Inr path \<Rightarrow>
          (case load_doc f of
             Inl e \<Rightarrow> (f, Some e)
           | Inr doc \<Rightarrow> write_doc d (lucinate_doc stamp providerID conn doc) f))"

fun cut_conn :: "string \<Rightarrow> json list \<Rightarrow> (json \<times> json list) option" where
  "cut_conn cid [] = None"
| "cut_conn cid (raw # conns) =
     (if has_conn_id cid raw then Some (raw, conns)
      else map_option (\<lambda>(el, rest). (el, raw # rest)) (cut_conn cid conns))"

definition lucinate_Remove ::
  "string \<Rightarrow> string + string \<Rightarrow> disk \<Rightarrow> string \<Rightarrow> string list \<Rightarrow> doc_file \<Rightarrow> doc_file \<times> (config_error option \<times> nat)" where
  "lucinate_Remove env home d providerID modelKeys f =
     (case lucinate_ConfigPath env home of
        Inl e \<Rightarrow> (f, Some e, 0)
      | Inr path \<Rightarrow>
          (case load_doc f of
             Inl e \<Rightarrow> (f, Some e, 0)
           | Inr doc \<Rightarrow>
               (case cut_conn (ManagedID providerID) (connectionsArray doc) of
                  None \<Rightarrow> (f, None, 0)
                | Some (el, rest) \<Rightarrow>
                    if modelKeys \<noteq> [] \<and> string_or_empty (map_of (object_of (Some el)) ''defaultModel'') \<notin> set modelKeys
                    then (f, None, 0)
                    else
                      (let doc = AList.update ''connections'' (JArray rest) doc;
                           doc = (if map_of doc ''defaultId'' = Some (JString (ManagedID providerID))
                                  then AList.delete ''defaultId'' doc else doc)
                       in case write_doc d doc f of (f', e) \<Rightarrow> (f', e, 1)))))"

definition conn_state :: "json \<Rightarrow> provider_state" where
  "conn_state raw =
     (let el = object_of (Some raw); model = string_or_empty (map_of el ''defaultModel'')
      in \<lparr>ps_ModelKeys = (if model \<noteq> '''' then [model] else []), ps_BaseURL = string_or_empty (map_of el ''url''),
          ps_Contexts = [], ps_Outputs = []\<rparr>)"

fun conn_states :: "json list \<Rightarrow> (string, provider_state) gomap \<Rightarrow> (string, provider_state) gomap" where
  "conn_states [] out = out"
| "conn_states (raw # conns) out =
     conn_states conns
       (case providerIDFromManaged (string_or_empty (map_of (object_of (Some raw)) ''id'')) of
          None \<Rightarrow> out
        | Some providerID \<Rightarrow> AList.update providerID (conn_state raw) out)"

definition lucinate_State ::
  "string \<Rightarrow> string + string \<Rightarrow> doc_file \<Rightarrow> config_error + (string, provider_state) gomap" where
  "lucinate_State env home f =
     (case lucinate_ConfigPath env home of
        Inl e \<Rightarrow> Inl e
      | Inr path \<Rightarrow> map_sum id (\<lambda>doc. conn_states (connectionsArray doc) []) (load_doc f))"

definition DefaultProviderID :: "string \<Rightarrow> string + string \<Rightarrow> doc_file \<Rightarrow> string option" where
  "DefaultProviderID env home f =
     (case (lucinate_ConfigPath env home, load_doc f) of
        (Inr path, Inr doc) \<Rightarrow>
          (let d = string_or_empty (map_of doc ''defaultId'')
           in if d = '''' then None else providerIDFromManaged d)
      | _ \<Rightarrow> None)"

section \<open>Managed connections\<close>

definition conn_id :: "json \<Rightarrow> string" where
  "conn_id raw = string_or_empty (map_of (object_of (Some raw)) ''id'')"

definition managed :: "json \<Rightarrow> bool" where
  "managed raw \<longleftrightarrow> prefix managedIDPrefix (conn_id raw)"

text \<open>The program keeps one connection per provider.\<close>

definition one_each :: "json list \<Rightarrow> bool" where
  "one_each conns \<longleftrightarrow> distinct (map conn_id (filter managed conns))"

lemma ManagedID_inj [simp]: "ManagedID p = ManagedID q \<longleftrightarrow> p = q"
  by (simp add: ManagedID_def)

lemma from_managed [simp]: "providerIDFromManaged (ManagedID p) = Some p"
  by (simp add: providerIDFromManaged_def ManagedID_def)

lemma from_managed_Some: "providerIDFromManaged cid = Some p \<longleftrightarrow> cid = ManagedID p"
  by (auto simp: providerIDFromManaged_def ManagedID_def prefix_def split: if_splits)

lemma has_conn_id_managed: "has_conn_id (ManagedID p) raw \<longleftrightarrow> conn_id raw = ManagedID p"
  by (auto simp: has_conn_id_def conn_id_def string_or_empty_def ManagedID_def split: option.splits json.splits)

lemma managed_conn: "conn_id raw = ManagedID p \<Longrightarrow> managed raw"
  by (simp add: managed_def ManagedID_def)

lemma conn_states_lookup:
  "map_of (conn_states conns out) p =
     (case find (\<lambda>raw. conn_id raw = ManagedID p) (rev conns) of None \<Rightarrow> map_of out p | Some raw \<Rightarrow> Some (conn_state raw))"
proof (induction conns arbitrary: out)
  case (Cons raw conns)
  show ?case
    by (cases "providerIDFromManaged (conn_id raw)")
      (auto simp: Cons.IH find_append conn_id_def [symmetric] from_managed_Some split: option.split)
qed simp



lemma applied_id [simp]: "conn_id (JObject (applyConnFields stamp cid conn el)) = cid"
  by (simp add: conn_id_def object_of_def applyConnFields_def Let_def string_or_empty_def)

lemma applied_state: "conn_state (JObject (applyConnFields stamp cid conn el)) =
    \<lparr>ps_ModelKeys = (if cn_DefaultModel conn \<noteq> '''' then [cn_DefaultModel conn] else []), ps_BaseURL = cn_URL conn,
     ps_Contexts = [], ps_Outputs = []\<rparr>"
  by (simp add: conn_state_def object_of_def applyConnFields_def Let_def string_or_empty_def)

lemma put_conn_find:
  "find (\<lambda>raw. conn_id raw = ManagedID q) (put_conn stamp (ManagedID p) conn conns) =
     (if q = p then Some (JObject (applyConnFields stamp (ManagedID p) conn
        (object_of (find (\<lambda>raw. conn_id raw = ManagedID p) conns))))
      else find (\<lambda>raw. conn_id raw = ManagedID q) conns)"
  by (induction conns) (auto simp: has_conn_id_managed object_of_def)

lemma put_conn_ids:
  "map conn_id (filter managed (put_conn stamp (ManagedID p) conn conns)) =
     (let ids = map conn_id (filter managed conns) in if ManagedID p \<in> set ids then ids else ids @ [ManagedID p])"
proof (induction conns)
  case Nil
  show ?case by (simp add: managed_conn [OF applied_id])
next
  case (Cons raw conns)
  show ?case using Cons managed_conn [of raw p]
    by (auto simp: has_conn_id_managed managed_conn [OF applied_id] Let_def)
qed

lemma put_conn_foreign: "filter (\<lambda>raw. \<not> managed raw) (put_conn stamp (ManagedID p) conn conns) = filter (\<lambda>raw. \<not> managed raw) conns"
  by (induction conns) (auto simp: has_conn_id_managed managed_conn [OF applied_id] dest: managed_conn)

lemma one_each_put: "one_each conns \<Longrightarrow> one_each (put_conn stamp (ManagedID p) conn conns)"
  by (simp add: one_each_def put_conn_ids Let_def)

lemma connectionsArray_written [simp]:
  "connectionsArray (lucinate_doc stamp p conn doc) = put_conn stamp (ManagedID p) conn (connectionsArray doc)"
  by (simp add: connectionsArray_def lucinate_doc_def as_array_def)

section \<open>Written, then read and removed\<close>

lemma find_last_managed:
  "one_each conns \<Longrightarrow> find (\<lambda>raw. conn_id raw = ManagedID p) (rev conns) = find (\<lambda>raw. conn_id raw = ManagedID p) conns"
  unfolding one_each_def by (rule find_rev_unique [where P = managed]) (auto intro: managed_conn)

lemma lucinate_State_lookup:
  assumes "lucinate_State env home f = Inr sts" "load_doc f = Inr doc" "one_each (connectionsArray doc)"
  shows "map_of sts p = map_option conn_state (find (\<lambda>raw. conn_id raw = ManagedID p) (connectionsArray doc))"
proof -
  have "sts = conn_states (connectionsArray doc) []"
    using assms(1,2) by (auto simp: lucinate_State_def split: sum.splits)
  then show ?thesis
    using find_last_managed [OF assms(3)] by (simp add: conn_states_lookup split: option.split)
qed

lemma lucinate_written:
  assumes "load_doc f = Inr doc" "lucinate_Write env home d stamp p conn f = (f', None)"
  shows "load_doc f' = Inr (lucinate_doc stamp p conn doc)" "\<exists>path. lucinate_ConfigPath env home = Inr path"
proof -
  from assms show "\<exists>path. lucinate_ConfigPath env home = Inr path"
    by (auto simp: lucinate_Write_def split: sum.splits)
  with assms have "write_doc d (lucinate_doc stamp p conn doc) f = (f', None)" by (auto simp: lucinate_Write_def)
  then have "f' = JsonText (JObject (lucinate_doc stamp p conn doc))" by (rule write_doc_None)
  then show "load_doc f' = Inr (lucinate_doc stamp p conn doc)" by (simp add: load_doc_def)
qed

text \<open>
  C36: A connection that is written is read back for its provider and is the one lucinate starts with; every
  other provider reads as it did, the connections that are not the program's stay in place, and there is
  still one connection per provider.
\<close>

theorem lucinate_write_read:
  assumes "load_doc f = Inr doc" and "one_each (connectionsArray doc)" and "lucinate_State env home f = Inr sts"
    and "lucinate_Write env home d stamp p conn f = (f', None)"
  shows "\<exists>doc' sts'. load_doc f' = Inr doc' \<and> lucinate_State env home f' = Inr sts' \<and>
    map_of sts' p = Some \<lparr>ps_ModelKeys = (if cn_DefaultModel conn \<noteq> '''' then [cn_DefaultModel conn] else []),
      ps_BaseURL = cn_URL conn, ps_Contexts = [], ps_Outputs = []\<rparr> \<and>
    (\<forall>q. q \<noteq> p \<longrightarrow> map_of sts' q = map_of sts q) \<and>
    DefaultProviderID env home f' = Some p \<and>
    filter (\<lambda>raw. \<not> managed raw) (connectionsArray doc') = filter (\<lambda>raw. \<not> managed raw) (connectionsArray doc) \<and>
    one_each (connectionsArray doc')"
proof -
  let ?doc = "lucinate_doc stamp p conn doc"
  note load = lucinate_written(1) [OF assms(1,4)]
  obtain path where path: "lucinate_ConfigPath env home = Inr path" using lucinate_written(2) [OF assms(1,4)] by blast
  then obtain sts' where sts': "lucinate_State env home f' = Inr sts'" by (simp add: lucinate_State_def load)
  have one: "one_each (connectionsArray ?doc)" using assms(2) by (simp add: one_each_put)
  have "map_of ?doc ''defaultId'' = Some (JString (ManagedID p))" by (simp add: lucinate_doc_def)
  moreover have "ManagedID p \<noteq> ''''" by (simp add: ManagedID_def)
  ultimately have "DefaultProviderID env home f' = Some p"
    by (simp add: DefaultProviderID_def path load string_or_empty_def Let_def)
  then show ?thesis
    using load sts' one lucinate_State_lookup [OF sts' load one] lucinate_State_lookup [OF assms(3,1,2)]
    by (simp add: put_conn_find applied_state put_conn_foreign)
qed

text \<open>What a later write keeps of a connection: the time it was made, and every field the program does not own.\<close>

lemma applied_keeps:
  assumes "k \<notin> set [''id'', ''type'', ''url'', ''name'', ''defaultModel'']" "map_of el k = Some v"
  shows "map_of (applyConnFields stamp cid conn el) k = Some v"
proof -
  have "k \<noteq> ''id''" "k \<noteq> ''type''" "k \<noteq> ''url''" "k \<noteq> ''name''" "k \<noteq> ''defaultModel''" using assms(1) by simp_all
  with assms(2) show ?thesis by (cases "k = ''createdAt''") (simp_all add: applyConnFields_def Let_def)
qed

lemma cut_put_conn:
  "find (\<lambda>raw. conn_id raw = ManagedID p) conns = None \<Longrightarrow>
   cut_conn (ManagedID p) (put_conn stamp (ManagedID p) conn conns) =
     Some (JObject (applyConnFields stamp (ManagedID p) conn []), conns)"
  by (induction conns) (auto simp: has_conn_id_managed split: if_splits)

text \<open>
  Removing a provider that was not there before its connection was written gives the connections back as
  they were. The default is cleared, not restored.
\<close>

theorem lucinate_remove_undoes:
  assumes "load_doc f = Inr doc" and "find (\<lambda>raw. conn_id raw = ManagedID p) (connectionsArray doc) = None"
    and "lucinate_Write env home d stamp p conn f = (f', None)"
  shows "\<exists>f'' doc''. lucinate_Remove env home DiskOK p [] f' = (f'', None, 1) \<and> load_doc f'' = Inr doc'' \<and>
    connectionsArray doc'' = connectionsArray doc \<and> DefaultProviderID env home f'' = None \<and>
    (\<forall>k. k \<notin> {''connections'', ''defaultId''} \<longrightarrow> map_of doc'' k = map_of doc k)"
proof -
  let ?doc = "lucinate_doc stamp p conn doc"
  let ?doc'' = "AList.delete ''defaultId'' (AList.update ''connections'' (JArray (connectionsArray doc)) ?doc)"
  obtain path where path: "lucinate_ConfigPath env home = Inr path" using lucinate_written(2) [OF assms(1,3)] by blast
  have d: "map_of ?doc ''defaultId'' = Some (JString (ManagedID p))" by (simp add: lucinate_doc_def)
  have "lucinate_Remove env home DiskOK p [] f' = (JsonText (JObject ?doc''), None, 1)"
    by (simp add: lucinate_Remove_def path lucinate_written(1) [OF assms(1,3)] cut_put_conn [OF assms(2)] d Let_def write_doc_def)
  moreover have "connectionsArray ?doc'' = connectionsArray doc" by (simp add: connectionsArray_def as_array_def)
  moreover have "DefaultProviderID env home (JsonText (JObject ?doc'')) = None"
    by (simp add: DefaultProviderID_def path load_doc_def string_or_empty_def)
  moreover have "map_of ?doc'' k = map_of doc k" if "k \<notin> {''connections'', ''defaultId''}" for k
    using that by (simp add: lucinate_doc_def)
  moreover have "load_doc (JsonText (JObject ?doc'')) = Inr ?doc''" by (simp add: load_doc_def)
  ultimately show ?thesis by (intro exI conjI allI impI) assumption+
qed

definition demo_connections :: json_object where
  "demo_connections = [(''defaultId'', JString ''abc''), (''connections'', JArray [JObject [(''id'', JString ''abc'')]])]"

definition demo_connection :: connection where
  "demo_connection = \<lparr>cn_URL = ''http://gw/v1'', cn_DefaultModel = ''m'', cn_Name = ''vLLM''\<rparr>"

definition demo_store :: doc_file where
  "demo_store = JsonText (JObject (lucinate_doc ''2026-01-01T00:00:00Z'' ''vllm'' demo_connection demo_connections))"

lemma demo_lucinate:
  "load_doc (JsonText (JObject demo_connections)) = Inr demo_connections"
  "connectionsArray demo_connections = [JObject [(''id'', JString ''abc'')]]"
  "lucinate_Write ''/d'' (Inr ''/h'') DiskOK ''2026-01-01T00:00:00Z'' ''vllm'' demo_connection
     (JsonText (JObject demo_connections)) = (demo_store, None)"
  by (simp_all add: load_doc_def connectionsArray_def demo_connections_def as_array_def lucinate_Write_def
      lucinate_ConfigPath_def DataDir_def write_doc_def demo_store_def)

theorem lucinate_write_read_witness:
  "\<exists>sts. lucinate_State ''/d'' (Inr ''/h'') demo_store = Inr sts \<and>
     map_option ps_ModelKeys (map_of sts ''vllm'') = Some [''m''] \<and>
     DefaultProviderID ''/d'' (Inr ''/h'') demo_store = Some ''vllm''"
proof -
  have one: "one_each (connectionsArray demo_connections)"
    by (simp add: demo_lucinate(2) one_each_def)
  have "lucinate_State ''/d'' (Inr ''/h'') (JsonText (JObject demo_connections)) =
      Inr (conn_states (connectionsArray demo_connections) [])"
    by (simp add: lucinate_State_def lucinate_ConfigPath_def DataDir_def demo_lucinate(1))
  from lucinate_write_read [OF demo_lucinate(1) one this demo_lucinate(3)]
  obtain sts where "lucinate_State ''/d'' (Inr ''/h'') demo_store = Inr sts"
    "map_of sts ''vllm'' = Some \<lparr>ps_ModelKeys = (if cn_DefaultModel demo_connection \<noteq> '''' then [cn_DefaultModel demo_connection] else []),
      ps_BaseURL = cn_URL demo_connection, ps_Contexts = [], ps_Outputs = []\<rparr>"
    "DefaultProviderID ''/d'' (Inr ''/h'') demo_store = Some ''vllm''" by blast
  then show ?thesis by (simp add: demo_connection_def)
qed

theorem lucinate_remove_undoes_witness:
  "\<exists>f doc. lucinate_Remove ''/d'' (Inr ''/h'') DiskOK ''vllm'' [] demo_store = (f, None, 1) \<and> load_doc f = Inr doc \<and>
     connectionsArray doc = [JObject [(''id'', JString ''abc'')]] \<and> DefaultProviderID ''/d'' (Inr ''/h'') f = None"
proof -
  have "find (\<lambda>raw. conn_id raw = ManagedID ''vllm'') (connectionsArray demo_connections) = None"
    by (simp add: demo_lucinate(2) conn_id_def object_of_def string_or_empty_def ManagedID_def)
  from lucinate_remove_undoes [OF demo_lucinate(1) this demo_lucinate(3)] show ?thesis
    unfolding demo_lucinate(2) by blast
qed

end
