(* ===== verification/OpencodeStore.thy ===== *)
theory OpencodeStore
  imports DocFile
begin

text \<open>
  \<^verbatim>\<open>internal/opencode/opencode.go\<close>: opencode's configuration, a JSON file with comments into which one
  provider block is merged by a patch, and the lookup of variables in a \<^verbatim>\<open>.env\<close>. The library that parses,
  searches and patches such a file (\<^verbatim>\<open>hujson\<close>) is the argument \<open>hj\<close>; \<open>decode\<close> is what the standard
  decoder makes of a text, \<open>None\<close> where it is not plain JSON, comments included.
\<close>

section \<open>Variables\<close>

fun first_binding :: "string \<Rightarrow> string list \<Rightarrow> string" where
  "first_binding name [] = ''''"
| "first_binding name (raw # rest) =
     (let line = trim_space raw; pre = name @ ''=''
      in if prefix pre line then trim_quotes (trim_space (drop (length pre) line)) else first_binding name rest)"

definition readEnvFileVar :: "string file_read \<Rightarrow> string \<Rightarrow> string" where
  "readEnvFileVar r name = (case r of Bytes data \<Rightarrow> first_binding name (split_on CHR 0x0A data) | _ \<Rightarrow> '''')"

definition EnvResolver :: "(string \<Rightarrow> string) \<Rightarrow> (string \<Rightarrow> string file_read) \<Rightarrow> string \<Rightarrow> resolver" where
  "EnvResolver getenv files dir name =
     (if getenv name \<noteq> '''' then getenv name
      else readEnvFileVar (files (path_join [if dir = '''' then ''.'' else dir, ''.env''])) name)"

section \<open>The file\<close>

definition configDir :: "(string \<Rightarrow> string) \<Rightarrow> string \<Rightarrow> string" where
  "configDir getenv home =
     (let x = getenv ''XDG_CONFIG_HOME''
      in if x \<noteq> '''' then path_join [x, ''opencode''] else path_join [home, ''.config'', ''opencode''])"

definition ResolveConfigFile ::
  "(string \<Rightarrow> string) \<Rightarrow> string \<Rightarrow> (string \<Rightarrow> string option) \<Rightarrow> (string \<Rightarrow> bool) \<Rightarrow> config_error + string" where
  "ResolveConfigFile getenv home mkdir there =
     (let dir = configDir getenv home
      in case mkdir dir of
           Some e \<Rightarrow> Inl (WritingConfig e)
         | None \<Rightarrow>
             Inr (case find there (map (\<lambda>name. path_join [dir, name]) [''opencode.json'', ''opencode.jsonc'']) of
                    Some p \<Rightarrow> p
                  | None \<Rightarrow> path_join [dir, ''opencode.json'']))"

datatype patch_op = AddAt string json | RemoveAt string

record 'd hujson =
  hj_parse :: "string \<Rightarrow> string + 'd"
  hj_find :: "'d \<Rightarrow> string \<Rightarrow> string option"
  hj_patch :: "'d \<Rightarrow> patch_op list \<Rightarrow> string + 'd"
  hj_text :: "'d \<Rightarrow> string"

definition loadRoot :: "'d hujson \<Rightarrow> string file_read \<Rightarrow> config_error + 'd" where
  "loadRoot hj r =
     (case r of
        ReadError e \<Rightarrow> Inl (ReadingConfig e)
      | Missing \<Rightarrow> map_sum ParsingConfig id (hj_parse hj ''{}'')
      | Bytes data \<Rightarrow> map_sum ParsingConfig id (hj_parse hj data))"

text \<open>A write that fails leaves the file empty.\<close>

definition writeRoot :: "'d hujson \<Rightarrow> disk \<Rightarrow> 'd \<Rightarrow> string file_read \<Rightarrow> string file_read \<times> config_error option" where
  "writeRoot hj d doc r =
     (let text = hj_text hj doc;
          out = (if text = '''' \<or> last text \<noteq> CHR 0x0A then text @ [CHR 0x0A] else text)
      in case d of
           MkdirFails e \<Rightarrow> (r, Some (WritingConfig e))
         | WriteFails e \<Rightarrow> (Bytes '''', Some (WritingConfig e))
         | ChmodFails e \<Rightarrow> (Bytes out, Some (WritingConfig e))
         | DiskOK \<Rightarrow> (Bytes out, None))"

definition jsonPointerEscape :: "string \<Rightarrow> string" where
  "jsonPointerEscape s =
     concat (map (\<lambda>c. if c = CHR ''/'' then ''~1'' else [c]) (concat (map (\<lambda>c. if c = CHR ''~'' then ''~0'' else [c]) s)))"

definition provider_ptr :: "string \<Rightarrow> string" where
  "provider_ptr providerID = ''/provider/'' @ jsonPointerEscape providerID"

text \<open>Decoding into \<^verbatim>\<open>map[string]any\<close>: an object or null, with every number a float.\<close>

fun to_any :: "json \<Rightarrow> json option" where
  "to_any (JNumber r) = (case round64 r of Finite x \<Rightarrow> Some (JNumber x) | _ \<Rightarrow> None)"
| "to_any (JArray xs) = map_option JArray (those (map to_any xs))"
| "to_any (JObject m) = map_option JObject (those (map (\<lambda>(k, v). map_option (Pair k) (to_any v)) m))"
| "to_any (JString s) = Some (JString s)"
| "to_any (JBool b) = Some (JBool b)"
| "to_any JNull = Some JNull"

definition any_object :: "json \<Rightarrow> json_object option" where
  "any_object v =
     (case to_any v of Some (JObject m) \<Rightarrow> Some m | Some JNull \<Rightarrow> Some [] | _ \<Rightarrow> None)"

definition merged_block :: "(string \<Rightarrow> json option) \<Rightarrow> string option \<Rightarrow> json_object \<Rightarrow> json_object" where
  "merged_block decode existing block =
     (case existing of
        None \<Rightarrow> block
      | Some text \<Rightarrow>
          (case Option.bind (decode text) any_object of None \<Rightarrow> block | Some cur \<Rightarrow> deepMerge cur block))"

definition write_ops ::
  "(string \<Rightarrow> string option) \<Rightarrow> (string \<Rightarrow> json option) \<Rightarrow> string \<Rightarrow> json_object \<Rightarrow> string \<Rightarrow> patch_op list" where
  "write_ops lookup decode providerID block defaultModel =
     (let ptr = provider_ptr providerID
      in (if lookup ''/$schema'' = None then [AddAt ''/$schema'' (JString ''https://opencode.ai/config.json'')] else []) @
         (if lookup ''/provider'' = None then [AddAt ''/provider'' (JObject [])] else []) @
         [AddAt ptr (JObject (merged_block decode (lookup ptr) block))] @
         (if defaultModel \<noteq> '''' then [AddAt ''/model'' (JString defaultModel)] else []))"

definition patch_and_write ::
  "'d hujson \<Rightarrow> disk \<Rightarrow> 'd \<Rightarrow> patch_op list \<Rightarrow> string file_read \<Rightarrow> string file_read \<times> config_error option" where
  "patch_and_write hj d doc ops r =
     (case hj_patch hj doc ops of
        Inl e \<Rightarrow> (r, Some (ParsingConfig e))
      | Inr doc' \<Rightarrow> writeRoot hj d doc' r)"

definition WriteConfig ::
  "'d hujson \<Rightarrow> (string \<Rightarrow> json option) \<Rightarrow> disk \<Rightarrow> string \<Rightarrow> json_object \<Rightarrow> string \<Rightarrow> string file_read \<Rightarrow>
   string file_read \<times> config_error option" where
  "WriteConfig hj decode d providerID block defaultModel r =
     (case loadRoot hj r of
        Inl e \<Rightarrow> (r, Some e)
      | Inr doc \<Rightarrow> patch_and_write hj d doc (write_ops (hj_find hj doc) decode providerID block defaultModel) r)"

text \<open>The default model a document names; what does not decode to a string is none.\<close>

definition default_model :: "(string \<Rightarrow> string option) \<Rightarrow> (string \<Rightarrow> json option) \<Rightarrow> string" where
  "default_model lookup decode =
     (case lookup ''/model'' of None \<Rightarrow> '''' | Some text \<Rightarrow> string_or_empty (decode text))"

definition remove_ops ::
  "(string \<Rightarrow> string option) \<Rightarrow> (string \<Rightarrow> json option) \<Rightarrow> string \<Rightarrow> string list \<Rightarrow> patch_op list \<times> nat" where
  "remove_ops lookup decode providerID modelKeys =
     (let base = provider_ptr providerID;
          defaultModel = default_model lookup decode;
          model_ptr = (\<lambda>key. base @ ''/models/'' @ jsonPointerEscape key);
          there = filter (\<lambda>key. lookup (model_ptr key) \<noteq> None) modelKeys;
          (removals, clearDefault) =
            (if modelKeys = [] then
               (if lookup base = None then ([], False)
                else ([RemoveAt base], prefix (providerID @ ''/'') defaultModel))
             else (map (\<lambda>key. RemoveAt (model_ptr key)) there, \<exists>key \<in> set there. defaultModel = providerID @ ''/'' @ key))
      in (if removals \<noteq> [] \<and> clearDefault \<and> lookup ''/model'' \<noteq> None then removals @ [RemoveAt ''/model''] else removals,
          length removals))"

definition RemoveConfig ::
  "'d hujson \<Rightarrow> (string \<Rightarrow> json option) \<Rightarrow> disk \<Rightarrow> string \<Rightarrow> string list \<Rightarrow> string file_read \<Rightarrow>
   string file_read \<times> (config_error option \<times> nat)" where
  "RemoveConfig hj decode d providerID modelKeys r =
     (case loadRoot hj r of
        Inl e \<Rightarrow> (r, Some e, 0)
      | Inr doc \<Rightarrow>
          (case remove_ops (hj_find hj doc) decode providerID modelKeys of
             (ops, removed) \<Rightarrow>
               if removed = 0 then (r, None, 0)
               else (case patch_and_write hj d doc ops r of
                   (r', Some e) \<Rightarrow> (r', Some e, 0)
                 | (r', None) \<Rightarrow> (r', None, removed))))"

section \<open>Reading it back\<close>

text \<open>
  Decoding into the reader's struct: fields are matched without regard to case, in the order of the text;
  null leaves a field as it is; a value of another type, or a number that is no 64-bit integer, refuses the
  whole document.
\<close>

definition decode_int :: "int \<Rightarrow> json \<Rightarrow> int option" where
  "decode_int cur v =
     (case v of
        JNull \<Rightarrow> Some cur
      | JNumber r \<Rightarrow>
          (let n = \<lfloor>r\<rfloor> in if r = of_int n \<and> - (2 ^ 63) \<le> n \<and> n < 2 ^ 63 then Some n else None)
      | _ \<Rightarrow> None)"

definition decode_string :: "string \<Rightarrow> json \<Rightarrow> string option" where
  "decode_string cur v = (case v of JNull \<Rightarrow> Some cur | JString s \<Rightarrow> Some s | _ \<Rightarrow> None)"

text \<open>The fields of an object, each key handed to the decoder that the struct has for it.\<close>

fun decode_fields :: "(string \<Rightarrow> ('s \<Rightarrow> json \<Rightarrow> 's option) option) \<Rightarrow> 's \<Rightarrow> json_object \<Rightarrow> 's option" where
  "decode_fields dec s [] = Some s"
| "decode_fields dec s ((k, v) # m) =
     (case dec (to_lower k) of
        None \<Rightarrow> decode_fields dec s m
      | Some f \<Rightarrow> (case f s v of None \<Rightarrow> None | Some s' \<Rightarrow> decode_fields dec s' m))"

definition decode_struct :: "(string \<Rightarrow> ('s \<Rightarrow> json \<Rightarrow> 's option) option) \<Rightarrow> 's \<Rightarrow> json \<Rightarrow> 's option" where
  "decode_struct dec s v =
     (case v of JNull \<Rightarrow> Some s | JObject m \<Rightarrow> decode_fields dec s m | _ \<Rightarrow> None)"

fun decode_entries :: "'s \<Rightarrow> ('s \<Rightarrow> json \<Rightarrow> 's option) \<Rightarrow> (string, 's) gomap \<Rightarrow> json_object \<Rightarrow> (string, 's) gomap option" where
  "decode_entries z f out [] = Some out"
| "decode_entries z f out ((k, v) # m) =
     (case f z v of None \<Rightarrow> None | Some s \<Rightarrow> decode_entries z f (AList.update k s out) m)"

definition decode_map :: "'s \<Rightarrow> ('s \<Rightarrow> json \<Rightarrow> 's option) \<Rightarrow> (string, 's) gomap \<Rightarrow> json \<Rightarrow> (string, 's) gomap option" where
  "decode_map z f out v =
     (case v of JNull \<Rightarrow> Some [] | JObject m \<Rightarrow> decode_entries z f out m | _ \<Rightarrow> None)"

definition limit_struct :: "int \<times> int \<Rightarrow> json \<Rightarrow> (int \<times> int) option" where
  "limit_struct = decode_struct (\<lambda>k.
     if k = ''context'' then Some (\<lambda>(c, out) v. map_option (\<lambda>c. (c, out)) (decode_int c v))
     else if k = ''output'' then Some (\<lambda>(c, out) v. map_option (\<lambda>out. (c, out)) (decode_int out v))
     else None)"

definition model_struct :: "int \<times> int \<Rightarrow> json \<Rightarrow> (int \<times> int) option" where
  "model_struct = decode_struct (\<lambda>k. if k = ''limit'' then Some limit_struct else None)"

definition options_struct :: "string \<Rightarrow> json \<Rightarrow> string option" where
  "options_struct = decode_struct (\<lambda>k. if k = ''baseurl'' then Some decode_string else None)"

definition provider_struct :: "string \<times> (string, int \<times> int) gomap \<Rightarrow> json \<Rightarrow> (string \<times> (string, int \<times> int) gomap) option" where
  "provider_struct = decode_struct (\<lambda>k.
     if k = ''options'' then Some (\<lambda>(url, ms) v. map_option (\<lambda>url. (url, ms)) (options_struct url v))
     else if k = ''models'' then Some (\<lambda>(url, ms) v. map_option (\<lambda>ms. (url, ms)) (decode_map (0, 0) model_struct ms v))
     else None)"

definition opencode_state :: "string \<times> (string, int \<times> int) gomap \<Rightarrow> provider_state" where
  "opencode_state p =
     (case p of (url, ms) \<Rightarrow>
        \<lparr>ps_ModelKeys = sort (map fst ms), ps_BaseURL = url,
         ps_Contexts = map (\<lambda>(k, c, out). (k, c)) (filter (\<lambda>(k, c, out). c > 0) ms),
         ps_Outputs = map (\<lambda>(k, c, out). (k, out)) (filter (\<lambda>(k, c, out). out > 0) ms)\<rparr>)"

definition LoadConfigState ::
  "'d hujson \<Rightarrow> (string \<Rightarrow> json option) \<Rightarrow> string file_read \<Rightarrow> config_error + (string, provider_state) gomap \<times> string" where
  "LoadConfigState hj decode r =
     (case loadRoot hj r of
        Inl e \<Rightarrow> Inl e
      | Inr doc \<Rightarrow>
          (let defaultModel = default_model (hj_find hj doc) decode
           in case hj_find hj doc ''/provider'' of
                None \<Rightarrow> Inr ([], defaultModel)
              | Some text \<Rightarrow>
                  (case Option.bind (decode text) (decode_map ('''', []) provider_struct []) of
                     None \<Rightarrow> Inl (ParsingConfig ''reading providers'')
                   | Some raw \<Rightarrow> Inr (map (\<lambda>(name, p). (name, opencode_state p)) raw, defaultModel))))"

section \<open>A provider's path is its own\<close>

lemma escape_Nil [simp]: "jsonPointerEscape [] = []"
  by (simp add: jsonPointerEscape_def)

lemma escape_Cons: "jsonPointerEscape (c # s) =
    (if c = CHR ''~'' then ''~0'' else if c = CHR ''/'' then ''~1'' else [c]) @ jsonPointerEscape s"
  by (simp add: jsonPointerEscape_def)

lemma escape_no_slash: "CHR ''/'' \<notin> set (jsonPointerEscape s)"
  by (induction s) (auto simp: escape_Cons)

lemma escape_inj: "jsonPointerEscape s = jsonPointerEscape t \<Longrightarrow> s = t"
proof (induction s arbitrary: t)
  case Nil
  then show ?case by (cases t) (auto simp: escape_Cons split: if_splits)
next
  case (Cons c s)
  then show ?case by (cases t) (auto simp: escape_Cons split: if_splits)
qed

lemma provider_ptr_inj: "provider_ptr p = provider_ptr q \<longleftrightarrow> p = q"
  by (auto simp: provider_ptr_def dest: escape_inj)

primrec op_path :: "patch_op \<Rightarrow> string" where
  "op_path (AddAt p v) = p"
| "op_path (RemoveAt p) = p"

text \<open>A path lies in a provider when it is the provider's or goes on below it.\<close>

definition inside :: "string \<Rightarrow> string \<Rightarrow> bool" where
  "inside p path \<longleftrightarrow> path = provider_ptr p \<or> prefix (provider_ptr p @ ''/'') path"

lemma within_models: "inside p (provider_ptr p @ ''/models/'' @ x)"
  by (simp add: inside_def)

lemma inside_segment:
  assumes "inside p path"
  shows "takeWhile (\<lambda>c. c \<noteq> CHR ''/'') (drop (length ''/provider/'') path) = jsonPointerEscape p"
proof -
  from assms obtain rest where path: "path = ''/provider/'' @ jsonPointerEscape p @ rest"
    and rest: "rest = [] \<or> (\<exists>x. rest = CHR ''/'' # x)"
    unfolding inside_def provider_ptr_def prefix_def by fastforce
  have "takeWhile (\<lambda>c. c \<noteq> CHR ''/'') (jsonPointerEscape p @ rest) = jsonPointerEscape p"
    using escape_no_slash [of p] rest by (subst takeWhile_append2) auto
  then show ?thesis by (simp add: path)
qed

lemma inside_unique: "inside p path \<Longrightarrow> inside q path \<Longrightarrow> p = q"
  using inside_segment [of p path] inside_segment [of q path] by (metis escape_inj)

text \<open>
  What a write asks of the document: the schema and the provider table where they are missing, the
  provider's own path, and the default model only where there is one to set. Every key of the block the
  program made stands in the value that is put there, and so does every key that stood there before and
  that the block does not have. No other provider is touched.
\<close>

theorem write_ops_spec:
  assumes "keys_distinct block"
  shows "\<exists>merged.
    (\<forall>op \<in> set (write_ops lookup decode p block defaultModel).
       op = AddAt (provider_ptr p) (JObject merged) \<or>
       (op_path op = ''/$schema'' \<and> lookup ''/$schema'' = None) \<or>
       (op = AddAt ''/provider'' (JObject []) \<and> lookup ''/provider'' = None) \<or>
       (op = AddAt ''/model'' (JString defaultModel) \<and> defaultModel \<noteq> '''')) \<and>
    AddAt (provider_ptr p) (JObject merged) \<in> set (write_ops lookup decode p block defaultModel) \<and>
    (\<forall>k v. map_of block k = Some v \<and> (\<forall>m. v \<noteq> JObject m) \<longrightarrow> map_of merged k = Some v) \<and>
    (\<forall>text old k. lookup (provider_ptr p) = Some text \<and> Option.bind (decode text) any_object = Some old \<and>
       map_of block k = None \<longrightarrow> map_of merged k = map_of old k) \<and>
    (\<forall>q. q \<noteq> p \<longrightarrow> (\<forall>op \<in> set (write_ops lookup decode p block defaultModel). \<not> inside q (op_path op)))"
proof -
  let ?m = "merged_block decode (lookup (provider_ptr p)) block"
  have ops: "op = AddAt (provider_ptr p) (JObject ?m) \<or>
       (op_path op = ''/$schema'' \<and> lookup ''/$schema'' = None) \<or>
       (op = AddAt ''/provider'' (JObject []) \<and> lookup ''/provider'' = None) \<or>
       (op = AddAt ''/model'' (JString defaultModel) \<and> defaultModel \<noteq> '''')"
    if "op \<in> set (write_ops lookup decode p block defaultModel)" for op
    using that unfolding write_ops_def Let_def set_append Un_iff by (elim disjE) (simp_all split: if_split_asm)
  have own: "inside p (provider_ptr p)" by (simp add: inside_def)
  have short: "\<not> inside q ''/$schema''" "\<not> inside q ''/provider''" "\<not> inside q ''/model''" for q
    by (simp_all add: inside_def provider_ptr_def)
  have "\<not> inside q (op_path op)" if "op \<in> set (write_ops lookup decode p block defaultModel)" "q \<noteq> p" for q op
    using ops [OF that(1)] that(2) short inside_unique [of q "provider_ptr p" p] own by (elim disjE) auto
  moreover have "map_of ?m k = Some v" if "map_of block k = Some v" "\<forall>m. v \<noteq> JObject m" for k v
    using that by (cases v) (auto simp: merged_block_def deepMerge_lookup [OF assms] split: option.split)
  moreover have "map_of ?m k = map_of old k"
    if "lookup (provider_ptr p) = Some src" "Option.bind (decode src) any_object = Some old" "map_of block k = None" for src old k
    using that by (simp add: merged_block_def deepMerge_lookup [OF assms])
  moreover have "AddAt (provider_ptr p) (JObject ?m) \<in> set (write_ops lookup decode p block defaultModel)"
    by (simp add: write_ops_def Let_def)
  ultimately show ?thesis using ops by (intro exI [of _ ?m] conjI ballI allI impI) (assumption | blast)+
qed

text \<open>
  What a removal asks: nothing outside the provider but the default model, and that only where the model
  it names is one that goes.
\<close>

theorem remove_ops_spec:
  assumes "remove_ops lookup decode p modelKeys = (ops, removed)"
  shows "(removed = 0 \<longleftrightarrow> ops = []) \<and>
    (\<forall>op \<in> set ops. inside p (op_path op) \<and> lookup (op_path op) \<noteq> None \<or>
       op = RemoveAt ''/model'' \<and> lookup ''/model'' \<noteq> None \<and>
       (if modelKeys = [] then prefix (p @ ''/'') (default_model lookup decode)
        else \<exists>key \<in> set modelKeys. default_model lookup decode = p @ ''/'' @ key)) \<and>
    (\<forall>q. q \<noteq> p \<longrightarrow> (\<forall>op \<in> set ops. \<not> inside q (op_path op)))"
proof -
  have own: "inside p (provider_ptr p)" by (simp add: inside_def)
  have ops: "inside p (op_path op) \<and> lookup (op_path op) \<noteq> None \<or>
       op = RemoveAt ''/model'' \<and> lookup ''/model'' \<noteq> None \<and>
       (if modelKeys = [] then prefix (p @ ''/'') (default_model lookup decode)
        else \<exists>key \<in> set modelKeys. default_model lookup decode = p @ ''/'' @ key)" if "op \<in> set ops" for op
    using assms that own within_models [of p]
    by (auto simp: remove_ops_def Let_def split: if_splits)
  have short: "\<not> inside q ''/model''" for q by (simp add: inside_def provider_ptr_def)
  have "\<not> inside q (op_path op)" if "op \<in> set ops" "q \<noteq> p" for q op
    using ops [OF that(1)] that(2) short inside_unique [of q "op_path op" p] by auto
  moreover have "removed = 0 \<longleftrightarrow> ops = []"
    using assms by (auto simp: remove_ops_def Let_def split: if_splits)
  ultimately show ?thesis using ops by blast
qed

text \<open>
  The two readers of a \<^verbatim>\<open>.env\<close> agree where every line binds a name of its own with no blank around the
  sign; a name that is bound twice is read from its first line by the one and from its last by the other.
\<close>

definition plain_binding :: "string \<times> string \<Rightarrow> bool" where
  "plain_binding b \<longleftrightarrow> fst b \<noteq> '''' \<and> snd b \<noteq> '''' \<and> CHR ''='' \<notin> set (fst b) \<and> hd (fst b) \<noteq> CHR ''#'' \<and>
     (\<forall>c \<in> set (fst b @ snd b). \<not> is_space c \<and> c \<noteq> CHR 0x22)"

definition binding_line :: "string \<times> string \<Rightarrow> string" where
  "binding_line b = fst b @ ''='' @ snd b"

lemma nothing_to_drop: "\<forall>c \<in> set s. \<not> P c \<Longrightarrow> dropWhile P s = s"
  by (cases s) auto

lemma no_space_trim: "\<forall>c \<in> set s. \<not> is_space c \<Longrightarrow> trim_space s = s"
  by (simp add: trim_space_def trim_left_by_def trim_right_by_def nothing_to_drop)

lemma no_quote_trim: "\<forall>c \<in> set s. c \<noteq> CHR 0x22 \<Longrightarrow> trim_quotes s = s"
  by (simp add: trim_quotes_def trim_left_by_def trim_right_by_def nothing_to_drop)

lemma env_line_plain: "plain_binding b \<Longrightarrow> env_line (binding_line b) = Some b"
proof -
  assume b: "plain_binding b"
  obtain k v where kv: "b = (k, v)" by (cases b)
  have k: "k \<noteq> ''''" "v \<noteq> ''''" "CHR ''='' \<notin> set k" "hd k \<noteq> CHR ''#''"
    and plain: "\<forall>c \<in> set k. \<not> is_space c" "\<forall>c \<in> set v. \<not> is_space c" "\<forall>c \<in> set v. c \<noteq> CHR 0x22"
    using b by (simp_all add: plain_binding_def kv ball_Un)
  have "\<not> is_space CHR ''=''" by (simp add: is_space_def)
  with plain have "\<forall>c \<in> set (k @ ''='' @ v). \<not> is_space c" by (simp add: ball_Un)
  then have "trim_space (k @ ''='' @ v) = k @ ''='' @ v" by (rule no_space_trim)
  moreover have "\<not> prefix ''#'' (k @ ''='' @ v)" using k by (cases k) simp_all
  ultimately show ?thesis using k plain
    by (simp add: kv binding_line_def env_line_def Let_def index_byte_append no_space_trim no_quote_trim)
qed

lemma first_binding_plain:
  "list_all plain_binding bs \<Longrightarrow> CHR ''='' \<notin> set name \<Longrightarrow>
   first_binding name (map binding_line bs) = get_or '''' (map_of bs) name"
proof (induction bs)
  case (Cons b bs)
  obtain k v where kv: "b = (k, v)" by (cases b)
  have b: "plain_binding b" using Cons.prems by simp
  then have k: "CHR ''='' \<notin> set k" and plain: "\<forall>c \<in> set k. \<not> is_space c" "\<forall>c \<in> set v. \<not> is_space c"
    "\<forall>c \<in> set v. c \<noteq> CHR 0x22" by (simp_all add: plain_binding_def kv ball_Un)
  have "\<not> is_space CHR ''=''" by (simp add: is_space_def)
  with plain have "\<forall>c \<in> set (binding_line b). \<not> is_space c" by (simp add: binding_line_def kv ball_Un)
  then have trim: "trim_space (binding_line b) = binding_line b" "trim_quotes (trim_space v) = v"
    using plain by (simp_all add: no_space_trim no_quote_trim)
  have "prefix (name @ ''='') (binding_line b) \<longleftrightarrow> name = k"
  proof
    assume "prefix (name @ ''='') (binding_line b)"
    then obtain x where "name @ CHR ''='' # x = k @ CHR ''='' # v" by (auto simp: binding_line_def kv prefix_def)
    then have "takeWhile (\<lambda>c. c \<noteq> CHR ''='') (name @ CHR ''='' # x) = takeWhile (\<lambda>c. c \<noteq> CHR ''='') (k @ CHR ''='' # v)" by simp
    moreover have "takeWhile (\<lambda>c. c \<noteq> CHR ''='') (y @ CHR ''='' # z) = y" if "CHR ''='' \<notin> set y" for y z
      using that by (subst takeWhile_append2) auto
    ultimately show "name = k" using k Cons.prems(2) by simp
  qed (simp add: binding_line_def kv)
  then show ?case using Cons trim by (auto simp: kv binding_line_def get_or_def)
qed simp

lemma env_lines_plain:
  "list_all plain_binding bs \<Longrightarrow> env_lines vars (map binding_line bs) = fold (\<lambda>(k, v). AList.update k v) bs vars"
  by (induction bs arbitrary: vars) (auto simp: env_line_plain)

lemma map_of_fold_update:
  "map_of (fold (\<lambda>(k, v). AList.update k v) bs vars) name =
     (case map_of (rev bs) name of None \<Rightarrow> map_of vars name | Some v \<Rightarrow> Some v)"
  by (induction bs arbitrary: vars) (auto split: option.splits)

theorem env_readers:
  assumes "list_all plain_binding bs" and "CHR ''='' \<notin> set name" and "split_on CHR 0x0A data = map binding_line bs"
  shows "readEnvFileVar (Bytes data) name = get_or '''' (map_of bs) name \<and>
    (\<exists>vars. ParseEnvFile (Bytes data) = Inr vars \<and> get_or '''' (map_of vars) name = get_or '''' (map_of (rev bs)) name)"
proof
  show "readEnvFileVar (Bytes data) name = get_or '''' (map_of bs) name"
    by (simp add: readEnvFileVar_def assms(3) first_binding_plain [OF assms(1,2)])
  have "map_of (env_lines [] (map binding_line bs)) name = map_of (rev bs) name"
    unfolding env_lines_plain [OF assms(1)] map_of_fold_update by (simp split: option.split)
  then show "\<exists>vars. ParseEnvFile (Bytes data) = Inr vars \<and> get_or '''' (map_of vars) name = get_or '''' (map_of (rev bs)) name"
    by (simp add: ParseEnvFile_def assms(3) get_or_def)
qed

theorem env_readers_witness:
  "readEnvFileVar (Bytes (''K=a'' @ [CHR 0x0A] @ ''K=b'')) ''K'' = ''a'' \<and>
   (\<exists>vars. ParseEnvFile (Bytes (''K=a'' @ [CHR 0x0A] @ ''K=b'')) = Inr vars \<and> get_or '''' (map_of vars) ''K'' = ''b'')"
proof -
  let ?bs = "[(''K'', ''a''), (''K'', ''b'')]"
  have "list_all plain_binding ?bs" by (simp add: plain_binding_def is_space_def)
  moreover have "CHR ''='' \<notin> set ''K''" by simp
  moreover have "split_on CHR 0x0A (''K=a'' @ [CHR 0x0A] @ ''K=b'') = map binding_line ?bs"
    by (simp add: binding_line_def)
  ultimately have "readEnvFileVar (Bytes (''K=a'' @ [CHR 0x0A] @ ''K=b'')) ''K'' = get_or '''' (map_of ?bs) ''K'' \<and>
    (\<exists>vars. ParseEnvFile (Bytes (''K=a'' @ [CHR 0x0A] @ ''K=b'')) = Inr vars \<and>
       get_or '''' (map_of vars) ''K'' = get_or '''' (map_of (rev ?bs)) ''K'')"
    by (rule env_readers)
  moreover have "get_or '''' (map_of ?bs) ''K'' = ''a''" "get_or '''' (map_of (rev ?bs)) ''K'' = ''b''"
    by (simp_all add: get_or_def)
  ultimately show ?thesis by (simp only:)
qed

text \<open>A document that holds one provider with a key option, the block that no longer has one, and what is put there.\<close>

definition demo_lookup :: "string \<Rightarrow> string option" where
  "demo_lookup = map_of [(''/provider'', ''P''), (''/provider/vllm'', ''B''), (''/model'', ''M'')]"

definition demo_decode :: "string \<Rightarrow> json option" where
  "demo_decode = map_of
     [(''B'', JObject [(''name'', JString ''old''), (''apiKey'', JString ''{env:K}'')]), (''M'', JString ''vllm/m'')]"

definition demo_block :: json_object where
  "demo_block = [(''name'', JString ''vLLM'')]"

theorem write_ops_spec_witness:
  "\<exists>merged. AddAt ''/provider/vllm'' (JObject merged) \<in> set (write_ops demo_lookup demo_decode ''vllm'' demo_block '''') \<and>
     map_of merged ''name'' = Some (JString ''vLLM'') \<and> map_of merged ''apiKey'' = Some (JString ''{env:K}'')"
proof -
  have block: "keys_distinct demo_block" by (simp add: demo_block_def)
  have ptr: "provider_ptr ''vllm'' = ''/provider/vllm''" by (simp add: provider_ptr_def jsonPointerEscape_def)
  have old: "Option.bind (demo_decode ''B'') any_object =
      Some [(''name'', JString ''old''), (''apiKey'', JString ''{env:K}'')]"
    by (simp add: demo_decode_def any_object_def)
  obtain merged where
    "AddAt (provider_ptr ''vllm'') (JObject merged) \<in> set (write_ops demo_lookup demo_decode ''vllm'' demo_block '''')"
    and own: "\<forall>k v. map_of demo_block k = Some v \<and> (\<forall>m. v \<noteq> JObject m) \<longrightarrow> map_of merged k = Some v"
    and kept: "\<forall>src old k. demo_lookup (provider_ptr ''vllm'') = Some src \<and> Option.bind (demo_decode src) any_object = Some old \<and>
       map_of demo_block k = None \<longrightarrow> map_of merged k = map_of old k"
    using write_ops_spec [OF block, of demo_lookup demo_decode "''vllm''" "''''"] by (elim exE conjE) (rule that, assumption+)
  moreover have "map_of merged ''name'' = Some (JString ''vLLM'')" using own by (simp add: demo_block_def)
  moreover have "map_of merged ''apiKey'' = Some (JString ''{env:K}'')"
    using kept [rule_format, of "''B''" _ "''apiKey''"] old by (simp add: demo_lookup_def demo_block_def ptr)
  ultimately show ?thesis unfolding ptr by (intro exI [of _ merged] conjI)
qed

theorem remove_ops_spec_witness:
  "fst (remove_ops demo_lookup demo_decode ''vllm'' []) = [RemoveAt ''/provider/vllm'', RemoveAt ''/model''] \<and>
   (\<forall>op \<in> set (fst (remove_ops demo_lookup demo_decode ''vllm'' [])). \<not> inside ''pi'' (op_path op))"
proof -
  have ops: "remove_ops demo_lookup demo_decode ''vllm'' [] = ([RemoveAt ''/provider/vllm'', RemoveAt ''/model''], 1)"
    by (simp add: remove_ops_def demo_lookup_def demo_decode_def default_model_def provider_ptr_def jsonPointerEscape_def
        string_or_empty_def Let_def)
  show ?thesis using remove_ops_spec [OF ops] by (simp add: ops)
qed

text \<open>
  An option that a block no longer has stays where the document had it: a key reference that the builder
  leaves out for a local server is still there after the merge.
\<close>

lemma dropped_option_stays:
  assumes "keys_distinct block" "map_of block ''options'' = Some (JObject options)" "keys_distinct options"
    and "map_of options k = None"
    and "Option.bind (decode src) any_object = Some old" "map_of old ''options'' = Some (JObject old_options)"
  shows "\<exists>merged_options. map_of (merged_block decode (Some src) block) ''options'' = Some (JObject merged_options) \<and>
    map_of merged_options k = map_of old_options k"
  using assms(2-6) by (simp add: merged_block_def deepMerge_lookup [OF assms(1)] deepMerge_lookup [OF assms(3)])

end
