(* ===== verification/Harness.thy ===== *)
theory Harness
  imports SpinloopFile ContextSize PiStore LucinateStore OpencodeStore
begin

text \<open>
  \<^verbatim>\<open>internal/harness/adapters.go\<close> and \<^verbatim>\<open>harness.go\<close>: what applying a selection does to each harness's
  configuration, and which harness is the active one. The record \<open>host\<close> holds what the adapters ask of the
  machine; the notes for the user are constructors.
\<close>

section \<open>The host and its files\<close>

record 'd host =
  ho_url :: url_parser
  ho_hj :: "'d hujson"
  ho_decode :: "string \<Rightarrow> json option"
  ho_disk :: disk
  ho_getenv :: "string \<Rightarrow> string"
  ho_home :: "string + string"
  ho_mkdir :: "string \<Rightarrow> string option"
  ho_there :: "string \<Rightarrow> bool"
  ho_stamp :: string

record harness_files =
  hf_opencode :: "string file_read"
  hf_pi :: doc_file
  hf_lucinate :: doc_file

datatype advice =
    KeyReadFrom string
  | BaseURLNote json
  | NoKeyWarning string string
  | KeyReferenced string
  | SelectModel string
  | LucinateKey
  | RunNote string

record summary =
  su_ConfigPath :: string
  su_DefaultModel :: string
  su_Notes :: "advice list"

definition modelKey :: "selection \<Rightarrow> string" where
  "modelKey sel = (if sel_Alias sel \<noteq> '''' then sel_Alias sel else sel_Model sel)"

definition missingKeyWarning :: "url_parser \<Rightarrow> provider \<Rightarrow> string \<Rightarrow> resolver \<Rightarrow> advice option" where
  "missingKeyWarning parse_url p baseURL resolve =
     (if pv_APIKeyEnv p = '''' \<or> resolve (pv_APIKeyEnv p) \<noteq> '''' \<or> IsLocalEndpoint parse_url baseURL then None
      else Some (NoKeyWarning baseURL (pv_APIKeyEnv p)))"

definition home_or_empty :: "string + string \<Rightarrow> string" where
  "home_or_empty home = (case home of Inl e \<Rightarrow> '''' | Inr h \<Rightarrow> h)"

definition opencode_file :: "'d host \<Rightarrow> config_error + string" where
  "opencode_file h = ResolveConfigFile (ho_getenv h) (home_or_empty (ho_home h)) (ho_mkdir h) (ho_there h)"

section \<open>opencode\<close>

fun add_discovered :: "string list \<Rightarrow> json_object \<Rightarrow> json_object" where
  "add_discovered [] models = models"
| "add_discovered (name # names) models =
     add_discovered names
       (if map_of models name = None then AList.update name (JObject [(''name'', JString name)]) models else models)"

definition opencodeBlock ::
  "url_parser \<Rightarrow> provider \<Rightarrow> selection \<Rightarrow> int \<Rightarrow> int \<Rightarrow> bool \<Rightarrow> resolver \<Rightarrow> catalog_error + json_object \<times> string" where
  "opencodeBlock parse_url p sel contextWindow outputTokens setDefaultModel resolve =
     (case BuildProviderBlock parse_url (sel_Provider sel) p (modelKey sel) (sel_BaseURL sel) resolve of
        Inl e \<Rightarrow> Inl e
      | Inr (block, defaultModel) \<Rightarrow>
          (let block = (if sel_DisplayName sel \<noteq> '''' then AList.update ''name'' (JString (sel_DisplayName sel)) block else block);
               block = (if contextWindow > 0
                 then (case as_object (map_of block ''models'') of
                     None \<Rightarrow> block
                   | Some models \<Rightarrow>
                       AList.update ''models'' (JObject (ApplyLimits contextWindow outputTokens models)) block)
                 else block);
               block = (if sel_DiscoveredModels sel \<noteq> []
                 then AList.update ''models''
                   (JObject (add_discovered (sel_DiscoveredModels sel) (object_of (map_of block ''models'')))) block
                 else block)
           in Inr (block, if setDefaultModel then defaultModel else '''')))"

definition opencode_notes :: "url_parser \<Rightarrow> provider \<Rightarrow> json_object \<Rightarrow> resolver \<Rightarrow> advice list" where
  "opencode_notes parse_url p block resolve =
     (case as_object (map_of block ''options'') of
        None \<Rightarrow> []
      | Some opts \<Rightarrow>
          (case missingKeyWarning parse_url p (string_or_empty (map_of opts ''baseURL'')) resolve of
             Some w \<Rightarrow> [w]
           | None \<Rightarrow> if map_of opts ''apiKey'' \<noteq> None then [KeyReadFrom (pv_APIKeyEnv p)] else []) @
          (case map_of opts ''baseURL'' of None \<Rightarrow> [] | Some b \<Rightarrow> [BaseURLNote b])) @
     [RunNote ''opencode'']"

definition opencode_Apply ::
  "'d host \<Rightarrow> provider \<Rightarrow> selection \<Rightarrow> int \<Rightarrow> int \<Rightarrow> bool \<Rightarrow> resolver \<Rightarrow> harness_files \<Rightarrow>
   harness_files \<times> (config_error + summary)" where
  "opencode_Apply h p sel contextWindow outputTokens setDefaultModel resolve fs =
     (case opencodeBlock (ho_url h) p sel contextWindow outputTokens setDefaultModel resolve of
        Inl e \<Rightarrow> (fs, Inl (Catalog e))
      | Inr (block, defaultModel) \<Rightarrow>
          (case opencode_file h of
             Inl e \<Rightarrow> (fs, Inl e)
           | Inr path \<Rightarrow>
               (case WriteConfig (ho_hj h) (ho_decode h) (ho_disk h) (sel_Provider sel) block defaultModel (hf_opencode fs) of
                  (r, Some e) \<Rightarrow> (fs\<lparr>hf_opencode := r\<rparr>, Inl e)
                | (r, None) \<Rightarrow>
                    (fs\<lparr>hf_opencode := r\<rparr>, Inr \<lparr>su_ConfigPath = path, su_DefaultModel = defaultModel,
                        su_Notes = opencode_notes (ho_url h) p block resolve\<rparr>))))"

definition opencode_Render ::
  "'d host \<Rightarrow> provider \<Rightarrow> selection \<Rightarrow> resolver \<Rightarrow> config_error + string" where
  "opencode_Render h p sel resolve =
     (case opencodeBlock (ho_url h) p sel 0 0 False resolve of
        Inl e \<Rightarrow> Inl (Catalog e)
      | Inr (block, defaultModel) \<Rightarrow>
          (case WriteConfig (ho_hj h) (ho_decode h) (ho_disk h) (sel_Provider sel) block defaultModel Missing of
             (r, Some e) \<Rightarrow> Inl e
           | (Bytes data, None) \<Rightarrow> Inr data
           | (ReadError e, None) \<Rightarrow> Inl (ReadingConfig e)
           | (Missing, None) \<Rightarrow> Inl (ReadingConfig ''no such file'')))"

section \<open>Pi\<close>

definition piProvider ::
  "url_parser \<Rightarrow> provider \<Rightarrow> selection \<Rightarrow> resolver \<Rightarrow> catalog_error + pi_provider \<times> string" where
  "piProvider parse_url p sel resolve =
     (case BuildPiProvider parse_url (sel_Provider sel) p (modelKey sel) (sel_BaseURL sel) resolve of
        Inl e \<Rightarrow> Inl e
      | Inr (prov, defaultModel) \<Rightarrow>
          (let existing = map pm_ID (pp_Models prov)
           in Inr (prov\<lparr>pp_Models := pp_Models prov @
                map pi_model_for (filter (\<lambda>name. name \<notin> set existing) (sel_DiscoveredModels sel))\<rparr>, defaultModel)))"

definition pi_notes :: "url_parser \<Rightarrow> provider \<Rightarrow> pi_provider \<Rightarrow> string \<Rightarrow> resolver \<Rightarrow> advice list" where
  "pi_notes parse_url p prov defaultModel resolve =
     (case missingKeyWarning parse_url p (pp_BaseURL prov) resolve of
        Some w \<Rightarrow> [w]
      | None \<Rightarrow> if pp_APIKey prov \<noteq> '''' then [KeyReferenced (pp_APIKey prov)] else []) @
     (if pp_BaseURL prov \<noteq> '''' then [BaseURLNote (JString (pp_BaseURL prov))] else []) @
     (if defaultModel \<noteq> '''' then [SelectModel defaultModel] else []) @ [RunNote ''pi'']"

definition pi_Apply ::
  "'d host \<Rightarrow> provider \<Rightarrow> selection \<Rightarrow> int \<Rightarrow> int \<Rightarrow> resolver \<Rightarrow> harness_files \<Rightarrow>
   harness_files \<times> (config_error + summary)" where
  "pi_Apply h p sel contextWindow outputTokens resolve fs =
     (case piProvider (ho_url h) p sel resolve of
        Inl e \<Rightarrow> (fs, Inl (Catalog e))
      | Inr (prov, defaultModel) \<Rightarrow>
          (case pi_Write (ho_home h) (ho_disk h) (sel_Provider sel) prov contextWindow outputTokens (hf_pi fs) of
             (f, Some e) \<Rightarrow> (fs\<lparr>hf_pi := f\<rparr>, Inl e)
           | (f, None) \<Rightarrow>
               (fs\<lparr>hf_pi := f\<rparr>,
                map_sum id (\<lambda>path. \<lparr>su_ConfigPath = path, su_DefaultModel = '''',
                    su_Notes = pi_notes (ho_url h) p prov defaultModel resolve\<rparr>) (pi_ConfigPath (ho_home h)))))"

definition pi_Render :: "'d host \<Rightarrow> provider \<Rightarrow> selection \<Rightarrow> resolver \<Rightarrow> config_error + json_object" where
  "pi_Render h p sel resolve =
     (case piProvider (ho_url h) p sel resolve of
        Inl e \<Rightarrow> Inl (Catalog e)
      | Inr (prov, defaultModel) \<Rightarrow>
          (case pi_WriteTo (ho_disk h) (sel_Provider sel) prov 0 0 NoDoc of
             (f, Some e) \<Rightarrow> Inl e
           | (f, None) \<Rightarrow> load_doc f))"

section \<open>lucinate\<close>

definition connection_name :: "provider \<Rightarrow> selection \<Rightarrow> string" where
  "connection_name p sel =
     (if sel_DisplayName sel \<noteq> '''' then sel_DisplayName sel
      else if pv_Name p = '''' then sel_Provider sel else pv_Name p)"

definition lucinate_notes :: "url_parser \<Rightarrow> provider \<Rightarrow> string \<Rightarrow> resolver \<Rightarrow> advice list" where
  "lucinate_notes parse_url p url resolve =
     (case missingKeyWarning parse_url p url resolve of
        Some w \<Rightarrow> [w]
      | None \<Rightarrow>
          if pv_APIKeyEnv p \<noteq> '''' \<and> \<not> (pv_APIKeyOptional p \<and> IsLocalEndpoint parse_url url) then [LucinateKey] else []) @
     [BaseURLNote (JString url), RunNote ''lucinate'']"

definition lucinate_Apply ::
  "'d host \<Rightarrow> provider \<Rightarrow> selection \<Rightarrow> bool \<Rightarrow> resolver \<Rightarrow> harness_files \<Rightarrow>
   harness_files \<times> (config_error + summary)" where
  "lucinate_Apply h p sel setDefaultModel resolve fs =
     (case BuildLucinateConnection (sel_Provider sel) p (modelKey sel) (sel_BaseURL sel) resolve of
        Inl e \<Rightarrow> (fs, Inl (Catalog e))
      | Inr (conn, defaultModel) \<Rightarrow>
          if lc_BaseURL conn = '''' then (fs, Inl (NeedsBaseURL (sel_Provider sel)))
          else
            (let env = ho_getenv h ''LUCINATE_DATA_DIR''
             in case lucinate_Write env (ho_home h) (ho_disk h) (ho_stamp h) (sel_Provider sel)
                    \<lparr>cn_URL = lc_BaseURL conn, cn_DefaultModel = lc_Model conn, cn_Name = connection_name p sel\<rparr> (hf_lucinate fs) of
                  (f, Some e) \<Rightarrow> (fs\<lparr>hf_lucinate := f\<rparr>, Inl e)
                | (f, None) \<Rightarrow>
                    (fs\<lparr>hf_lucinate := f\<rparr>,
                     map_sum id (\<lambda>path. \<lparr>su_ConfigPath = path,
                         su_DefaultModel = (if setDefaultModel then defaultModel else ''''),
                         su_Notes = lucinate_notes (ho_url h) p (lc_BaseURL conn) resolve\<rparr>)
                       (lucinate_ConfigPath env (ho_home h)))))"

section \<open>The active harness\<close>

datatype harness = Opencode | Pi | Lucinate

primrec harness_name :: "harness \<Rightarrow> string" where
  "harness_name Opencode = ''opencode''"
| "harness_name Pi = ''pi''"
| "harness_name Lucinate = ''lucinate''"

definition harness_command :: "harness \<Rightarrow> string" where
  "harness_command hn = harness_name hn"

definition registry :: "(string, harness) gomap" where
  "registry = map (\<lambda>hn. (harness_name hn, hn)) [Opencode, Pi, Lucinate]"

definition harness_names :: "string list" where
  "harness_names = sort (map fst registry)"

definition Lookup :: "string \<Rightarrow> harness option" where
  "Lookup name = map_of registry name"

datatype harness_source = FromFlag | FromEnv | FromPreference | FromDefault

definition harness_choice :: "string \<Rightarrow> string \<Rightarrow> string + string \<Rightarrow> string \<times> harness_source" where
  "harness_choice flag env preference =
     (if flag \<noteq> '''' then (flag, FromFlag)
      else if env \<noteq> '''' then (env, FromEnv)
      else (case preference of
          Inr pref \<Rightarrow> if pref \<noteq> '''' then (pref, FromPreference) else (''opencode'', FromDefault)
        | Inl e \<Rightarrow> (''opencode'', FromDefault)))"

definition resolve_harness :: "string \<Rightarrow> string \<Rightarrow> string + string \<Rightarrow> string + harness \<times> harness_source" where
  "resolve_harness flag env preference =
     (case harness_choice flag env preference of
        (name, source) \<Rightarrow> (case Lookup name of None \<Rightarrow> Inl name | Some hn \<Rightarrow> Inr (hn, source)))"


definition harness_Apply ::
  "'d host \<Rightarrow> harness \<Rightarrow> provider \<Rightarrow> selection \<Rightarrow> int \<Rightarrow> int \<Rightarrow> bool \<Rightarrow> resolver \<Rightarrow> harness_files \<Rightarrow>
   harness_files \<times> (config_error + summary)" where
  "harness_Apply h hn p sel contextWindow outputTokens setDefaultModel resolve fs =
     (case hn of
        Opencode \<Rightarrow> opencode_Apply h p sel contextWindow outputTokens setDefaultModel resolve fs
      | Pi \<Rightarrow> pi_Apply h p sel contextWindow outputTokens resolve fs
      | Lucinate \<Rightarrow> lucinate_Apply h p sel setDefaultModel resolve fs)"

definition harness_ConfigPath :: "'d host \<Rightarrow> harness \<Rightarrow> config_error + string" where
  "harness_ConfigPath h hn =
     (case hn of
        Opencode \<Rightarrow> opencode_file h
      | Pi \<Rightarrow> pi_ConfigPath (ho_home h)
      | Lucinate \<Rightarrow> lucinate_ConfigPath (ho_getenv h ''LUCINATE_DATA_DIR'') (ho_home h))"

definition opencode_Remove ::
  "'d host \<Rightarrow> string \<Rightarrow> string list \<Rightarrow> string file_read \<Rightarrow> string file_read \<times> (config_error option \<times> nat)" where
  "opencode_Remove h providerID modelKeys r =
     (case opencode_file h of
        Inl e \<Rightarrow> (r, Some e, 0)
      | Inr path \<Rightarrow> RemoveConfig (ho_hj h) (ho_decode h) (ho_disk h) providerID modelKeys r)"

definition opencode_State ::
  "'d host \<Rightarrow> string file_read \<Rightarrow> config_error + (string, provider_state) gomap \<times> string" where
  "opencode_State h r =
     (case opencode_file h of
        Inl e \<Rightarrow> Inl e
      | Inr path \<Rightarrow> LoadConfigState (ho_hj h) (ho_decode h) r)"

definition harness_Remove ::
  "'d host \<Rightarrow> harness \<Rightarrow> string \<Rightarrow> string list \<Rightarrow> harness_files \<Rightarrow> harness_files \<times> (config_error option \<times> nat)" where
  "harness_Remove h hn providerID modelKeys fs =
     (case hn of
        Opencode \<Rightarrow>
          (case opencode_Remove h providerID modelKeys (hf_opencode fs) of (r, res) \<Rightarrow> (fs\<lparr>hf_opencode := r\<rparr>, res))
      | Pi \<Rightarrow>
          (case pi_Remove (ho_home h) (ho_disk h) providerID modelKeys (hf_pi fs) of
             (f, res) \<Rightarrow> (fs\<lparr>hf_pi := f\<rparr>, res))
      | Lucinate \<Rightarrow>
          (case lucinate_Remove (ho_getenv h ''LUCINATE_DATA_DIR'') (ho_home h) (ho_disk h) providerID modelKeys (hf_lucinate fs) of
             (f, res) \<Rightarrow> (fs\<lparr>hf_lucinate := f\<rparr>, res)))"

text \<open>What each provider of a harness is, and the harness's default model where it has such a setting.\<close>

definition harness_State ::
  "(float64 \<Rightarrow> int) \<Rightarrow> 'd host \<Rightarrow> harness \<Rightarrow> harness_files \<Rightarrow> config_error + (string, provider_state) gomap \<times> string" where
  "harness_State machine h hn fs =
     (case hn of
        Opencode \<Rightarrow> opencode_State h (hf_opencode fs)
      | Pi \<Rightarrow> map_sum id (\<lambda>sts. (sts, '''')) (pi_State machine (ho_home h) (hf_pi fs))
      | Lucinate \<Rightarrow>
          map_sum id (\<lambda>sts. (sts, '''')) (lucinate_State (ho_getenv h ''LUCINATE_DATA_DIR'') (ho_home h) (hf_lucinate fs)))"

section \<open>The key stays in the environment\<close>

lemma missingKeyWarning_key: "key_like p key \<Longrightarrow> missingKeyWarning parse_url p url (resolve(pv_APIKeyEnv p := key)) = None"
  by (simp add: missingKeyWarning_def key_like_def)

lemma opencodeBlock_key:
  assumes "key_only p" "key_like p key" "key_like p key'"
  shows "opencodeBlock parse_url p sel cw ot sd (resolve(pv_APIKeyEnv p := key)) =
    opencodeBlock parse_url p sel cw ot sd (resolve(pv_APIKeyEnv p := key'))"
  by (simp only: opencodeBlock_def BuildProviderBlock_key [OF assms])

lemma piProvider_key:
  assumes "key_only p" "key_like p key" "key_like p key'"
  shows "piProvider parse_url p sel (resolve(pv_APIKeyEnv p := key)) =
    piProvider parse_url p sel (resolve(pv_APIKeyEnv p := key'))"
  by (simp only: piProvider_def BuildPiProvider_key [OF assms])

text \<open>
  C28: No harness writes the key: two keys that the catalogue accepts leave the same files and the same report,
  whichever harness is applied. (The key's variable is not one that gives an option or the address.)
\<close>

theorem applied_hides_key:
  assumes "key_only p" and "key_like p key" and "key_like p key'"
  shows "harness_Apply h hn p sel cw ot sd (resolve(pv_APIKeyEnv p := key)) fs =
    harness_Apply h hn p sel cw ot sd (resolve(pv_APIKeyEnv p := key')) fs"
proof (cases hn)
  case Opencode
  then show ?thesis
    by (simp only: harness_Apply_def harness.case opencode_Apply_def opencodeBlock_key [OF assms] opencode_notes_def
        missingKeyWarning_key [OF assms(2)] missingKeyWarning_key [OF assms(3)])
next
  case Pi
  then show ?thesis
    by (simp only: harness_Apply_def harness.case pi_Apply_def piProvider_key [OF assms] pi_notes_def
        missingKeyWarning_key [OF assms(2)] missingKeyWarning_key [OF assms(3)])
next
  case Lucinate
  then show ?thesis
    by (simp only: harness_Apply_def harness.case lucinate_Apply_def
        BuildLucinateConnection_key [OF assms(1), where key = key and key' = key'] lucinate_notes_def
        missingKeyWarning_key [OF assms(2)] missingKeyWarning_key [OF assms(3)])
qed

section \<open>A rendered configuration\<close>

text \<open>A configuration rendered for one launch carries its provider and nothing else.\<close>

theorem pi_Render_alone:
  assumes "pi_Render h p sel resolve = Inr doc"
  shows "\<exists>prov. doc = [(''providers'', JObject [(sel_Provider sel, JObject prov)])] \<and>
    (\<forall>name \<in> model_names prov. name = modelKey sel \<or> name \<in> set (sel_DiscoveredModels sel))"
proof -
  obtain prov d where prov: "piProvider (ho_url h) p sel resolve = Inr (prov, d)"
    using assms by (auto simp: pi_Render_def split: sum.splits)
  have names: "pm_ID ` set (pp_Models prov) \<subseteq> {modelKey sel} \<union> set (sel_DiscoveredModels sel)"
    using prov by (auto simp: piProvider_def BuildPiProvider_def Let_def pi_model_for_def split: sum.splits option.splits if_splits)
  let ?prov = "with_limits 0 0 prov"
  obtain f where "pi_WriteTo (ho_disk h) (sel_Provider sel) prov 0 0 NoDoc = (f, None)" and "load_doc f = Inr doc"
    using assms by (auto simp: pi_Render_def prov split: prod.splits option.splits)
  moreover from this have "f = JsonText (JObject (merged_root (sel_Provider sel) ?prov []))"
    using write_doc_None by (auto simp: pi_WriteTo_def load_doc_def [of NoDoc])
  ultimately have doc: "doc = [(''providers'', JObject [(sel_Provider sel, JObject (mergeProvider [] (toMap ?prov)))])]"
    by (simp add: load_doc_def merged_root_def Let_def providersMap_def object_of_def)
  have "model_names (mergeProvider [] (toMap ?prov)) = {mid \<in> pm_ID ` set (pp_Models prov). mid \<noteq> ''''}"
    using pi_models_read(2) [OF refl, of "\<lambda>_. 0" "[]" 0 0 prov] provider_read_keys
    by (metis (no_types, lifting) Un_empty_left empty_model_names)
  then show ?thesis using doc names by auto
qed

section \<open>Which harness\<close>

lemma Lookup_name: "Lookup name = Some hn \<longleftrightarrow> name = harness_name hn"
  by (cases hn) (auto simp: Lookup_def registry_def)

text \<open>The first of flag, variable, preference and default that names one is taken, and it must be known.\<close>

theorem resolve_harness_spec:
  "resolve_harness flag env preference = Inr (hn, source) \<longleftrightarrow>
     harness_name hn = hd (filter (\<lambda>s. s \<noteq> '''') [flag, env, case preference of Inl e \<Rightarrow> '''' | Inr pref \<Rightarrow> pref, ''opencode'']) \<and>
     source = (if flag \<noteq> '''' then FromFlag else if env \<noteq> '''' then FromEnv
       else if (case preference of Inl e \<Rightarrow> '''' | Inr pref \<Rightarrow> pref) \<noteq> '''' then FromPreference else FromDefault)"
proof -
  let ?pref = "case preference of Inl e \<Rightarrow> '''' | Inr pref \<Rightarrow> pref"
  let ?name = "hd (filter (\<lambda>s. s \<noteq> '''') [flag, env, ?pref, ''opencode''])"
  let ?source = "if flag \<noteq> '''' then FromFlag else if env \<noteq> '''' then FromEnv
       else if ?pref \<noteq> '''' then FromPreference else FromDefault"
  have "harness_choice flag env preference = (?name, ?source)"
    by (cases preference; simp add: harness_choice_def)
  moreover have "resolve_harness flag env preference = Inr (hn, source) \<longleftrightarrow> harness_name hn = name \<and> source = source'"
    if "harness_choice flag env preference = (name, source')" for name source'
  proof (cases "Lookup name")
    case None
    with Lookup_name [of name hn] that show ?thesis by (auto simp: resolve_harness_def)
  next
    case (Some hn')
    then have "name = harness_name hn'" by (simp add: Lookup_name)
    moreover have "harness_name hn = harness_name hn' \<longleftrightarrow> hn = hn'" by (cases hn; cases hn') simp_all
    ultimately show ?thesis using that Some by (auto simp: resolve_harness_def)
  qed
  ultimately show ?thesis by blast
qed

section \<open>Concrete instances\<close>

definition keyed :: provider where
  "keyed = \<lparr>pv_Description = ''vLLM server'', pv_Name = ''vLLM'', pv_NPM = '''', pv_APIKeyEnv = ''OPENAI_API_KEY'',
     pv_APIKeyRequired = False, pv_APIKeyOptional = False, pv_APIKeyPrefix = ''sk-'',
     pv_Options = [(''baseURL'', JString ''http://localhost:8000/v1'')],
     pv_OptionsFromEnv = [(''baseURL'', ''VLLM_BASE_URL'')], pv_OptionsRequired = [],
     pv_Pi = Some \<lparr>pc_API = ''openai-completions'', pc_BaseURL = ''''\<rparr>, pv_Lucinate = Some ''''\<rparr>"

definition plain_host :: "unit host" where
  "plain_host = \<lparr>ho_url = (\<lambda>_. None),
     ho_hj = \<lparr>hj_parse = (\<lambda>_. Inr ()), hj_find = (\<lambda>_ _. None), hj_patch = (\<lambda>_ _. Inr ()), hj_text = (\<lambda>_. ''{}'')\<rparr>,
     ho_decode = (\<lambda>_. None), ho_disk = DiskOK, ho_getenv = (\<lambda>_. ''''), ho_home = Inr ''/h'', ho_mkdir = (\<lambda>_. None),
     ho_there = (\<lambda>_. False), ho_stamp = ''2026-01-01T00:00:00Z''\<rparr>"

definition keyed_selection :: selection where
  "keyed_selection = empty_selection\<lparr>sel_Provider := ''vllm'', sel_Model := ''m''\<rparr>"

theorem applied_hides_key_witness:
  "harness_Apply plain_host Pi keyed keyed_selection 0 0 False ((\<lambda>_. '''')(''OPENAI_API_KEY'' := ''sk-1''))
     \<lparr>hf_opencode = Missing, hf_pi = NoDoc, hf_lucinate = NoDoc\<rparr> =
   harness_Apply plain_host Pi keyed keyed_selection 0 0 False ((\<lambda>_. '''')(''OPENAI_API_KEY'' := ''sk-2''))
     \<lparr>hf_opencode = Missing, hf_pi = NoDoc, hf_lucinate = NoDoc\<rparr>"
proof -
  have "key_only keyed" by (simp add: key_only_def keyed_def)
  moreover have "key_like keyed ''sk-1''" "key_like keyed ''sk-2''" by (simp_all add: key_like_def keyed_def)
  ultimately show ?thesis
    using applied_hides_key [of keyed "''sk-1''" "''sk-2''"] by (simp add: keyed_def)
qed

theorem pi_Render_alone_witness:
  "\<exists>prov. pi_Render plain_host keyed keyed_selection (\<lambda>_. '''') = Inr [(''providers'', JObject [(''vllm'', JObject prov)])]"
proof -
  obtain doc where doc: "pi_Render plain_host keyed keyed_selection (\<lambda>_. '''') = Inr doc"
    by (simp add: pi_Render_def piProvider_def BuildPiProvider_def keyed_def keyed_selection_def empty_selection_def
        plain_host_def endpoint_for_def base_override_def get_or_def RequireOptions_def pi_WriteTo_def load_doc_def
        write_doc_def Let_def)
  from pi_Render_alone [OF doc] show ?thesis
    unfolding doc by (auto simp: keyed_selection_def)
qed

end
