(* ===== verification/Dispatch.thy ===== *)
theory Dispatch
  imports WorkStore Harness
begin

text \<open>
  \<^verbatim>\<open>internal/orchestrator/dispatch.go\<close>, \<^verbatim>\<open>dispatch_docker.go\<close>, \<^verbatim>\<open>wrapper.go\<close>, \<^verbatim>\<open>harnessconfig.go\<close> and
  \<^verbatim>\<open>gateway.go\<close>: how an admitted item becomes a process or a container. What the operating system and
  Docker answer are arguments (the record \<open>machine\<close>); a started process is the record of what it was
  started with. A shell's scripts are their exit codes.
\<close>

section \<open>The harness's own file\<close>

record harness_config =
  hc_Env :: "(string, string) gomap"
  hc_Dispatch :: string
  hc_Harness :: string
  hc_BaseDir :: string
  hc_Startup :: string
  hc_Shutdown :: string

definition no_harness_config :: harness_config where
  "no_harness_config = \<lparr>hc_Env = [], hc_Dispatch = '''', hc_Harness = '''', hc_BaseDir = '''', hc_Startup = '''', hc_Shutdown = ''''\<rparr>"

definition hasLifecycle :: "harness_config \<Rightarrow> bool" where
  "hasLifecycle hc \<longleftrightarrow> hc_Startup hc \<noteq> '''' \<or> hc_Shutdown hc \<noteq> ''''"

datatype launch_error =
    ReadingHarnessConfig string string
  | ParsingHarnessConfig string string
  | CatalogFails catalog_error
  | NoPlumbing
  | EnvCollision string
  | NoDirectory string string
  | CreatingDirectory string string string
  | CreatingWorkspace string string
  | NoOneShotForm string
  | NoModelToRun string string
  | ApplyFails string string config_error
  | OpeningLog string
  | ResolvingDirectory string string
  | StartingAgent string
  | CannotRender string
  | NoConfigMount string
  | RenderFails string config_error
  | CreatingConfigDirectory string string
  | WritingConfigFile string string
  | DockerFails string string

definition LoadHarnessConfig ::
  "(string \<Rightarrow> string file_read) \<Rightarrow> (string \<Rightarrow> string + harness_config) \<Rightarrow> string \<Rightarrow> string \<Rightarrow> launch_error + harness_config" where
  "LoadHarnessConfig read_file unmarshal flagPath itemsPath =
     (let path = (if flagPath = '''' then path_join [path_dir itemsPath, ''harness.yaml''] else flagPath)
      in case read_file path of
           Missing \<Rightarrow> Inr no_harness_config
         | ReadError e \<Rightarrow> Inl (ReadingHarnessConfig path e)
         | Bytes data \<Rightarrow>
             (case unmarshal data of
                Inl e \<Rightarrow> Inl (ParsingHarnessConfig path e)
              | Inr cfg \<Rightarrow>
                  Inr (if hc_BaseDir cfg \<noteq> '''' \<and> \<not> is_abs (hc_BaseDir cfg)
                       then cfg\<lparr>hc_BaseDir := path_join [path_dir path, hc_BaseDir cfg]\<rparr> else cfg)))"

abbreviation plumbingProvider :: string where "plumbingProvider \<equiv> ''openai-compatible''"

definition CheckHarnessEnvCollision :: "catalog_error + catalog \<Rightarrow> (string, string) gomap \<Rightarrow> launch_error option" where
  "CheckHarnessEnvCollision cat env =
     (case cat of
        Inl e \<Rightarrow> Some (CatalogFails e)
      | Inr c \<Rightarrow>
          (case map_of c plumbingProvider of
             None \<Rightarrow> Some NoPlumbing
           | Some p \<Rightarrow>
               if pv_APIKeyEnv p \<noteq> '''' \<and> map_of env (pv_APIKeyEnv p) \<noteq> None then Some (EnvCollision (pv_APIKeyEnv p))
               else None))"

section \<open>The plan of a launch\<close>

definition providerKey :: "topo_node \<Rightarrow> string" where
  "providerKey node = ''spinloop-orchestrator-'' @ tn_Name node"

definition oneShot :: "string \<Rightarrow> (string \<Rightarrow> string \<Rightarrow> string \<Rightarrow> string list) option" where
  "oneShot name =
     (if name = ''opencode'' then
        Some (\<lambda>key model instructions. [''run'', ''-m'', key @ ''/'' @ model, ''--auto'', instructions])
      else if name = ''pi'' then
        Some (\<lambda>key model instructions. [''--print'', ''--model'', key @ ''/'' @ model, instructions])
      else None)"

definition HasOneShotForm :: "string \<Rightarrow> bool" where
  "HasOneShotForm harnessName \<longleftrightarrow> oneShot harnessName \<noteq> None"

record dispatch_config =
  dc_h :: harness
  dc_gateway :: string
  dc_token :: string
  dc_createItemDirs :: bool
  dc_baseDir :: string
  dc_harnessConfig :: harness_config

record launch_plan =
  lp_dir :: string
  lp_args :: "string list"
  lp_provider :: provider
  lp_sel :: selection

text \<open>What a launch asks of the machine.\<close>

record machine =
  ma_catalog :: "catalog_error + catalog"
  ma_is_dir :: "string \<Rightarrow> bool"
  ma_mkdir :: "string \<Rightarrow> string option"
  ma_environ :: "string list"
  ma_abs :: "string \<Rightarrow> string + string"
  ma_open_log :: "string \<Rightarrow> string option"
  ma_start :: "string \<Rightarrow> string option"
  ma_write :: "string \<Rightarrow> string option"

definition dispatch_selection :: "url_parser \<Rightarrow> dispatch_config \<Rightarrow> topo_node \<Rightarrow> selection" where
  "dispatch_selection parse_url cfg node =
     empty_selection\<lparr>sel_Provider := providerKey node, sel_Model := ModelName node,
       sel_BaseURL := EndpointBaseURL parse_url (dc_gateway cfg),
       sel_DisplayName := ''Spinloop fleet ('' @ tn_Name node @ '')''\<rparr>"

text \<open>The answer comes with the directories that were made.\<close>

definition resolvePlan ::
  "url_parser \<Rightarrow> machine \<Rightarrow> dispatch_config \<Rightarrow> item \<Rightarrow> topo_node \<Rightarrow> string list \<times> (launch_error + launch_plan)" where
  "resolvePlan parse_url ma cfg it node =
     (let dir = ResolveItemDir (dc_baseDir cfg) (it_Dir it); work = ItemWorkspaceDir dir
      in if \<not> ma_is_dir ma dir \<and> \<not> dc_createItemDirs cfg then ([], Inl (NoDirectory (it_ID it) dir))
         else if \<not> ma_is_dir ma dir \<and> ma_mkdir ma dir \<noteq> None
           then ([], Inl (CreatingDirectory (it_ID it) dir (the (ma_mkdir ma dir))))
         else
           (let made = (if ma_is_dir ma dir then [] else [dir])
            in if ma_mkdir ma work \<noteq> None then (made, Inl (CreatingWorkspace (it_ID it) (the (ma_mkdir ma work))))
               else
                 (made @ [work],
                  case oneShot (harness_name (dc_h cfg)) of
                    None \<Rightarrow> Inl (NoOneShotForm (harness_name (dc_h cfg)))
                  | Some form \<Rightarrow>
                      if ModelName node = '''' then Inl (NoModelToRun (tn_Name node) (it_ID it))
                      else (case ma_catalog ma of
                          Inl e \<Rightarrow> Inl (CatalogFails e)
                        | Inr c \<Rightarrow>
                            (case map_of c plumbingProvider of
                               None \<Rightarrow> Inl NoPlumbing
                             | Some p \<Rightarrow>
                                 Inr \<lparr>lp_dir = dir, lp_args = form (providerKey node) (ModelName node) (it_Instructions it),
                                   lp_provider = p, lp_sel = dispatch_selection parse_url cfg node\<rparr>)))))"

definition env_pair :: "string \<times> string \<Rightarrow> string" where
  "env_pair b = fst b @ ''='' @ snd b"

definition sortedEnvPairs :: "(string, string) gomap \<Rightarrow> string list" where
  "sortedEnvPairs m = map (\<lambda>k. env_pair (k, get_or '''' (map_of m) k)) (sort (map fst m))"

definition providerEnv :: "dispatch_config \<Rightarrow> launch_plan \<Rightarrow> string list" where
  "providerEnv cfg plan =
     (if pv_APIKeyEnv (lp_provider plan) \<noteq> '''' then [env_pair (pv_APIKeyEnv (lp_provider plan), dc_token cfg)] else []) @
     sortedEnvPairs (hc_Env (dc_harnessConfig cfg))"

section \<open>The lifecycle wrapper\<close>

abbreviation wrapperSentinelExit :: int where "wrapperSentinelExit \<equiv> 97"

text \<open>
  The script as what it runs and how it exits. \<open>startup\<close> is the exit code of the startup script, \<open>first\<close> what
  waiting for the harness answers and \<open>again\<close> what waiting a second time does: a first answer of 128 or
  more may be the trap's and is asked again.
\<close>

datatype script_step = RunStartup | RunHarness | RunShutdown

definition wrapperScript :: "int \<Rightarrow> int \<Rightarrow> int \<Rightarrow> script_step list \<times> int" where
  "wrapperScript startup first again =
     (if startup \<noteq> 0 then ([RunStartup, RunShutdown], wrapperSentinelExit)
      else ([RunStartup, RunHarness, RunShutdown], if first \<ge> 128 then again else first))"

definition wrapCommand ::
  "string \<Rightarrow> string \<Rightarrow> string list \<Rightarrow> harness_config \<Rightarrow> string \<times> string list \<times> string list" where
  "wrapCommand script bin args hc =
     (if \<not> hasLifecycle hc then (bin, args, [])
      else (''/bin/sh'', [''-c'', script, ''spinloop-wrapper'', bin] @ args,
        [env_pair (''STARTUP'', hc_Startup hc), env_pair (''SHUTDOWN'', hc_Shutdown hc)]))"

text \<open>How waiting for a child ends: cleanly, with an exit code, otherwise, or in the wrapper's words.\<close>

datatype wait_result = Clean | Exited int | WaitFails string | StartupFailed

definition sentinel_wait :: "wait_result \<Rightarrow> wait_result" where
  "sentinel_wait r = (if r = Exited wrapperSentinelExit then StartupFailed else r)"

definition wrapChild :: "harness_config \<Rightarrow> wait_result \<Rightarrow> wait_result" where
  "wrapChild hc r = (if hasLifecycle hc then sentinel_wait r else r)"

text \<open>The copy of the log, made when the child has ended; its failures are nobody's.\<close>

definition logCopy_wait ::
  "faults \<Rightarrow> string \<Rightarrow> string \<Rightarrow> wait_result \<Rightarrow> files \<Rightarrow> wait_result \<times> files" where
  "logCopy_wait fault logPath itemLogPath r fs =
     (r, case read_path fault logPath fs of
           Inl e \<Rightarrow> fs
         | Inr c \<Rightarrow> snd (write_path fault itemLogPath c fs))"

section \<open>The bare launch\<close>

record started =
  pr_bin :: string
  pr_args :: "string list"
  pr_dir :: string
  pr_env :: "string list"
  pr_log :: string

text \<open>An environment as the system reads it: the first entry of a name for this process, the last for a child.\<close>

definition env_name :: "string \<Rightarrow> string" where
  "env_name e = takeWhile (\<lambda>c. c \<noteq> CHR ''='') e"

definition env_value :: "string \<Rightarrow> string" where
  "env_value e = drop (Suc (length (env_name e))) e"

definition binds :: "string \<Rightarrow> string \<Rightarrow> bool" where
  "binds name e \<longleftrightarrow> CHR ''='' \<in> set e \<and> env_name e = name"

definition getenv_of :: "string list \<Rightarrow> string \<Rightarrow> string" where
  "getenv_of env name = (case find (binds name) env of None \<Rightarrow> '''' | Some e \<Rightarrow> env_value e)"

definition child_env :: "string list \<Rightarrow> string \<Rightarrow> string option" where
  "child_env env name = map_option env_value (find (binds name) (rev env))"

definition token_resolver :: "machine \<Rightarrow> dispatch_config \<Rightarrow> provider \<Rightarrow> resolver" where
  "token_resolver ma cfg p name = (if name = pv_APIKeyEnv p then dc_token cfg else getenv_of (ma_environ ma) name)"

definition startChild ::
  "machine \<Rightarrow> string \<Rightarrow> string list \<Rightarrow> string \<Rightarrow> string \<Rightarrow> string list \<Rightarrow> launch_error + started" where
  "startChild ma bin args dir logPath env =
     (case ma_open_log ma logPath of
        Some e \<Rightarrow> Inl (OpeningLog e)
      | None \<Rightarrow>
          (case ma_abs ma dir of
             Inl e \<Rightarrow> Inl (ResolvingDirectory dir e)
           | Inr absdir \<Rightarrow>
               (let env = map (\<lambda>e. if binds ''PWD'' e then env_pair (''PWD'', absdir) else e) env
                in case ma_start ma bin of
                     Some e \<Rightarrow> Inl (StartingAgent e)
                   | None \<Rightarrow> Inr \<lparr>pr_bin = bin, pr_args = args, pr_dir = absdir, pr_env = env, pr_log = logPath\<rparr>)))"

definition bare_env :: "machine \<Rightarrow> dispatch_config \<Rightarrow> provider \<Rightarrow> string list" where
  "bare_env ma cfg p =
     (if pv_APIKeyEnv p \<noteq> '''' \<and> getenv_of (ma_environ ma) (pv_APIKeyEnv p) = ''''
      then ma_environ ma @ [env_pair (pv_APIKeyEnv p, dc_token cfg)] else ma_environ ma) @
     sortedEnvPairs (hc_Env (dc_harnessConfig cfg))"

definition Launch ::
  "'d host \<Rightarrow> machine \<Rightarrow> string \<Rightarrow> dispatch_config \<Rightarrow> item \<Rightarrow> topo_node \<Rightarrow> string \<Rightarrow> harness_files \<Rightarrow>
   harness_files \<times> string list \<times> (launch_error + started)" where
  "Launch h ma script cfg it node logPath fs =
     (case resolvePlan (ho_url h) ma cfg it node of
        (made, Inl e) \<Rightarrow> (fs, made, Inl e)
      | (made, Inr plan) \<Rightarrow>
          (case harness_Apply h (dc_h cfg) (lp_provider plan) (lp_sel plan) 0 0 False
                  (token_resolver ma cfg (lp_provider plan)) fs of
             (fs', Inl e) \<Rightarrow> (fs', made, Inl (ApplyFails (tn_Name node) (it_ID it) e))
           | (fs', Inr summary) \<Rightarrow>
               (case wrapCommand script (harness_command (dc_h cfg)) (lp_args plan) (dc_harnessConfig cfg) of
                  (bin, args, extraEnv) \<Rightarrow>
                    (fs', made, startChild ma bin args (ItemWorkspaceDir (lp_dir plan)) logPath
                       (bare_env ma cfg (lp_provider plan) @ extraEnv)))))"

text \<open>The signals that stop a process group: the group's, and the lead process's where that fails.\<close>

datatype signal = SIGTERM | SIGKILL

definition terminateGroup :: "(int \<Rightarrow> signal \<Rightarrow> bool) \<Rightarrow> int \<Rightarrow> (int \<times> signal) list" where
  "terminateGroup sent pid = (if sent (- pid) SIGTERM then [(- pid, SIGTERM)] else [(- pid, SIGTERM), (pid, SIGTERM)])"

definition killGroup :: "(int \<Rightarrow> signal \<Rightarrow> bool) \<Rightarrow> int \<Rightarrow> (int \<times> signal) list" where
  "killGroup sent pid = (if sent (- pid) SIGKILL then [(- pid, SIGKILL)] else [(- pid, SIGKILL), (pid, SIGKILL)])"

section \<open>The environment of a launched agent\<close>

lemma env_pair_name: "CHR ''='' \<notin> set k \<Longrightarrow> env_name (env_pair (k, v)) = k"
  unfolding env_name_def env_pair_def by (subst takeWhile_append2) auto

lemma env_pair_value: "CHR ''='' \<notin> set k \<Longrightarrow> env_value (env_pair (k, v)) = v"
  by (simp add: env_value_def env_pair_name) (simp add: env_pair_def)

lemma binds_env_pair: "CHR ''='' \<notin> set k \<Longrightarrow> binds name (env_pair (k, v)) \<longleftrightarrow> name = k"
  by (auto simp: binds_def env_pair_name) (simp add: env_pair_def)

lemma child_env_append:
  "child_env (xs @ ys) name = (case child_env ys name of None \<Rightarrow> child_env xs name | Some v \<Rightarrow> Some v)"
  by (simp add: child_env_def find_append split: option.split)

lemma child_env_Nil [simp]: "child_env [] name = None"
  by (simp add: child_env_def)

lemma child_env_single:
  "CHR ''='' \<notin> set k \<Longrightarrow> child_env [env_pair (k, v)] name = (if name = k then Some v else None)"
  by (simp add: child_env_def binds_env_pair env_pair_value)

lemma child_env_pairs:
  "\<forall>k \<in> set ks. CHR ''='' \<notin> set k \<Longrightarrow>
   child_env (map (\<lambda>k. env_pair (k, f k)) ks) name = (if name \<in> set ks then Some (f name) else None)"
proof (induction ks)
  case (Cons k ks)
  have "child_env (map (\<lambda>k. env_pair (k, f k)) (k # ks)) name =
      child_env ([env_pair (k, f k)] @ map (\<lambda>k. env_pair (k, f k)) ks) name" by simp
  also have "\<dots> = (if name \<in> set (k # ks) then Some (f name) else None)"
    unfolding child_env_append using Cons by (simp add: child_env_single)
  finally show ?case .
qed simp

lemma child_env_sorted:
  "\<forall>k \<in> fst ` set m. CHR ''='' \<notin> set k \<Longrightarrow> child_env (sortedEnvPairs m) name = map_of m name"
proof -
  assume "\<forall>k \<in> fst ` set m. CHR ''='' \<notin> set k"
  then have "child_env (sortedEnvPairs m) name = (if name \<in> fst ` set m then Some (get_or '''' (map_of m) name) else None)"
    unfolding sortedEnvPairs_def by (subst child_env_pairs) simp_all
  then show ?thesis using map_of_eq_None_iff [of m name] by (cases "map_of m name") auto
qed

lemma binds_unique: "binds a e \<Longrightarrow> binds b e \<Longrightarrow> a = b"
  by (simp add: binds_def)

lemma child_env_pwd:
  "child_env (map (\<lambda>e. if binds ''PWD'' e then env_pair (''PWD'', d) else e) env) name =
     (if name = ''PWD'' then map_option (\<lambda>_. d) (child_env env name) else child_env env name)"
proof (induction env rule: rev_induct)
  case (snoc e env)
  let ?f = "\<lambda>e. if binds ''PWD'' e then env_pair (''PWD'', d) else e"
  have "child_env [?f e] name = (if name = ''PWD'' then map_option (\<lambda>_. d) (child_env [e] name) else child_env [e] name)"
    by (auto simp: child_env_single child_env_def [of "[e]"] dest: binds_unique)
  with snoc show ?case unfolding map_append list.map child_env_append by (auto split: option.split)
qed simp

lemma getenv_child: "distinct (map env_name (filter (\<lambda>e. CHR ''='' \<in> set e) env)) \<Longrightarrow>
    getenv_of env name \<noteq> '''' \<Longrightarrow> child_env env name = Some (getenv_of env name)"
proof (induction env)
  case (Cons e env)
  show ?case
  proof (cases "binds name e")
    case True
    with Cons.prems(1) have "\<forall>x \<in> set env. \<not> binds name x" by (auto simp: binds_def image_iff)
    then have "find (binds name) (rev env) = None" by (simp add: find_None_iff)
    with True show ?thesis by (simp add: child_env_def getenv_of_def find_append)
  next
    case False
    have "child_env (e # env) name = child_env ([e] @ env) name" by simp
    also have "\<dots> = child_env env name"
      unfolding child_env_append using False by (simp add: child_env_def [of "[e]"] split: option.split)
    finally show ?thesis using Cons False by (auto simp: getenv_of_def split: if_splits)
  qed
qed (simp add: getenv_of_def)

text \<open>The environment before the scripts are added and the working directory is put in.\<close>

lemma bare_env_child:
  assumes "\<forall>k \<in> fst ` set (hc_Env (dc_harnessConfig cfg)). CHR ''='' \<notin> set k" "CHR ''='' \<notin> set (pv_APIKeyEnv p)"
  shows "child_env (bare_env ma cfg p) name =
    (case map_of (hc_Env (dc_harnessConfig cfg)) name of
       Some v \<Rightarrow> Some v
     | None \<Rightarrow>
         if name = pv_APIKeyEnv p \<and> pv_APIKeyEnv p \<noteq> '''' \<and> getenv_of (ma_environ ma) name = '''' then Some (dc_token cfg)
         else child_env (ma_environ ma) name)"
  by (auto simp: bare_env_def child_env_append child_env_sorted [OF assms(1)] child_env_single [OF assms(2)] split: option.split)

lemma wrapped_env:
  assumes "wrapCommand script bin args hc = (bin', args', extra)"
  shows "child_env extra name = (if hasLifecycle hc \<and> name = ''STARTUP'' then Some (hc_Startup hc)
      else if hasLifecycle hc \<and> name = ''SHUTDOWN'' then Some (hc_Shutdown hc) else None)"
proof -
  have "child_env [env_pair (''STARTUP'', s), env_pair (''SHUTDOWN'', d)] name =
      (if name = ''STARTUP'' then Some s else if name = ''SHUTDOWN'' then Some d else None)" for s d
    using child_env_append [of "[env_pair (''STARTUP'', s)]" "[env_pair (''SHUTDOWN'', d)]" name]
    by (simp add: child_env_single)
  with assms show ?thesis by (auto simp: wrapCommand_def split: if_splits)
qed

lemma Launch_started:
  assumes "Launch h ma script cfg it node logPath fs = (fs', made, Inr pr)"
  obtains plan bin args extra absdir summary where
    "resolvePlan (ho_url h) ma cfg it node = (made, Inr plan)"
    "harness_Apply h (dc_h cfg) (lp_provider plan) (lp_sel plan) 0 0 False (token_resolver ma cfg (lp_provider plan)) fs =
       (fs', Inr summary)"
    "wrapCommand script (harness_command (dc_h cfg)) (lp_args plan) (dc_harnessConfig cfg) = (bin, args, extra)"
    "ma_abs ma (ItemWorkspaceDir (lp_dir plan)) = Inr absdir"
    "pr = \<lparr>pr_bin = bin, pr_args = args, pr_dir = absdir,
       pr_env = map (\<lambda>e. if binds ''PWD'' e then env_pair (''PWD'', absdir) else e) (bare_env ma cfg (lp_provider plan) @ extra),
       pr_log = logPath\<rparr>"
  using assms
  by (auto simp: Launch_def startChild_def Let_def split: prod.splits sum.splits option.splits)

lemma resolvePlan_plan:
  assumes "resolvePlan parse_url ma cfg it node = (made, Inr plan)"
  shows "\<exists>c. ma_catalog ma = Inr c \<and> map_of c plumbingProvider = Some (lp_provider plan)"
    and "lp_sel plan = dispatch_selection parse_url cfg node" and "lp_dir plan = ResolveItemDir (dc_baseDir cfg) (it_Dir it)"
    and "ModelName node \<noteq> ''''"
    and "\<exists>form. oneShot (harness_name (dc_h cfg)) = Some form \<and>
      lp_args plan = form (providerKey node) (ModelName node) (it_Instructions it)"
    and "ItemWorkspaceDir (lp_dir plan) \<in> set made"
    and "ma_is_dir ma (lp_dir plan) \<or> dc_createItemDirs cfg \<and> lp_dir plan \<in> set made"
  using assms by (auto simp: resolvePlan_def Let_def split: if_splits option.splits sum.splits)

text \<open>
  C9: What a launched agent finds in its environment: the gateway's token under the provider's variable, unless
  the orchestrator's own environment has a value there, which then stands; the harness's file over the
  inherited environment for every other name; the two scripts where there is one; and as its working
  directory, wherever one is named, the item's workspace.
\<close>

theorem launch_environment:
  assumes "Launch h ma script cfg it node logPath fs = (fs', made, Inr pr)"
    and "ma_catalog ma = Inr c" and "map_of c plumbingProvider = Some p"
    and "CheckHarnessEnvCollision (Inr c) (hc_Env (dc_harnessConfig cfg)) = None"
    and "\<forall>k \<in> {pv_APIKeyEnv p} \<union> fst ` set (hc_Env (dc_harnessConfig cfg)). CHR ''='' \<notin> set k"
    and "distinct (map env_name (filter (\<lambda>e. CHR ''='' \<in> set e) (ma_environ ma)))"
    and "pv_APIKeyEnv p \<notin> set ['''', ''PWD'', ''STARTUP'', ''SHUTDOWN'']"
  shows "child_env (pr_env pr) (pv_APIKeyEnv p) = Some
      (if getenv_of (ma_environ ma) (pv_APIKeyEnv p) = '''' then dc_token cfg else getenv_of (ma_environ ma) (pv_APIKeyEnv p)) \<and>
    (\<forall>name. name \<noteq> pv_APIKeyEnv p \<and> name \<noteq> ''PWD'' \<longrightarrow> child_env (pr_env pr) name =
      (if hasLifecycle (dc_harnessConfig cfg) \<and> name = ''STARTUP'' then Some (hc_Startup (dc_harnessConfig cfg))
       else if hasLifecycle (dc_harnessConfig cfg) \<and> name = ''SHUTDOWN'' then Some (hc_Shutdown (dc_harnessConfig cfg))
       else (case map_of (hc_Env (dc_harnessConfig cfg)) name of Some v \<Rightarrow> Some v | None \<Rightarrow> child_env (ma_environ ma) name))) \<and>
    (\<forall>d. child_env (pr_env pr) ''PWD'' = Some d \<longrightarrow> d = pr_dir pr) \<and>
    ma_abs ma (ItemWorkspaceDir (ResolveItemDir (dc_baseDir cfg) (it_Dir it))) = Inr (pr_dir pr)"
proof -
  let ?hc = "dc_harnessConfig cfg" and ?K = "pv_APIKeyEnv p"
  obtain plan bin args extra absdir summary where plan: "resolvePlan (ho_url h) ma cfg it node = (made, Inr plan)"
    and wrap: "wrapCommand script (harness_command (dc_h cfg)) (lp_args plan) ?hc = (bin, args, extra)"
    and dir: "ma_abs ma (ItemWorkspaceDir (lp_dir plan)) = Inr absdir"
    and pr: "pr = \<lparr>pr_bin = bin, pr_args = args, pr_dir = absdir,
       pr_env = map (\<lambda>e. if binds ''PWD'' e then env_pair (''PWD'', absdir) else e) (bare_env ma cfg (lp_provider plan) @ extra),
       pr_log = logPath\<rparr>"
    by (rule Launch_started [OF assms(1)])
  have p: "lp_provider plan = p" using resolvePlan_plan(1) [OF plan] assms(2,3) by auto
  note names = assms(5) and K = assms(7)
  have env: "child_env (bare_env ma cfg p @ extra) name =
      (case child_env extra name of Some v \<Rightarrow> Some v | None \<Rightarrow> child_env (bare_env ma cfg p) name)" for name
    by (simp add: child_env_append split: option.split)
  have bare: "child_env (bare_env ma cfg p) name = (case map_of (hc_Env ?hc) name of Some v \<Rightarrow> Some v
     | None \<Rightarrow> if name = ?K \<and> ?K \<noteq> '''' \<and> getenv_of (ma_environ ma) name = '''' then Some (dc_token cfg)
         else child_env (ma_environ ma) name)" for name
    using names by (intro bare_env_child) simp_all
  have look: "child_env (pr_env pr) name = (if name = ''PWD'' then map_option (\<lambda>_. absdir) (child_env (bare_env ma cfg p @ extra) name)
      else child_env (bare_env ma cfg p @ extra) name)" for name
    by (simp only: pr started.simps p child_env_pwd)
  note all = look env wrapped_env [OF wrap] bare
  have "map_of (hc_Env ?hc) ?K = None"
    using assms(3,4) K by (auto simp: CheckHarnessEnvCollision_def split: if_splits)
  then have "child_env (pr_env pr) ?K = Some (if getenv_of (ma_environ ma) ?K = '''' then dc_token cfg else getenv_of (ma_environ ma) ?K)"
    using K getenv_child [OF assms(6)] by (simp add: all)
  moreover have "child_env (pr_env pr) name =
      (if hasLifecycle ?hc \<and> name = ''STARTUP'' then Some (hc_Startup ?hc)
       else if hasLifecycle ?hc \<and> name = ''SHUTDOWN'' then Some (hc_Shutdown ?hc)
       else (case map_of (hc_Env ?hc) name of Some v \<Rightarrow> Some v | None \<Rightarrow> child_env (ma_environ ma) name))"
    if "name \<noteq> ?K" "name \<noteq> ''PWD''" for name
    using that by (simp add: all)
  moreover have "d = pr_dir pr" if "child_env (pr_env pr) ''PWD'' = Some d" for d
    using that unfolding look by (simp add: pr)
  ultimately show ?thesis using dir pr resolvePlan_plan(3) [OF plan] by simp
qed

text \<open>
  The wrapper runs the shutdown script whatever happened, the harness exactly where the startup script
  succeeded, and the child is reported as failed to start exactly where the script exited with its own
  code: that is also what an agent that itself exits with 97 is reported as.
\<close>

theorem wrapper_outcome:
  assumes "hasLifecycle hc" and "wrapperScript startup first again = (steps, code)"
  shows "last steps = RunShutdown \<and> hd steps = RunStartup \<and> (RunHarness \<in> set steps \<longleftrightarrow> startup = 0) \<and>
    (code < 128 \<longrightarrow> first < 128 \<longrightarrow> startup = 0 \<longrightarrow> code = first) \<and>
    (wrapChild hc (Exited code) = StartupFailed \<longleftrightarrow>
       startup \<noteq> 0 \<or> (if first < 128 then first else again) = wrapperSentinelExit)"
  using assms by (auto simp: wrapperScript_def wrapChild_def sentinel_wait_def split: if_splits)

theorem wrapper_outcome_witness:
  "wrapChild (no_harness_config\<lparr>hc_Shutdown := ''make clean''\<rparr>) (Exited (snd (wrapperScript 0 97 0))) = StartupFailed \<and>
   fst (wrapperScript 0 97 0) = [RunStartup, RunHarness, RunShutdown]"
proof -
  let ?hc = "no_harness_config\<lparr>hc_Shutdown := ''make clean''\<rparr>"
  have "hasLifecycle ?hc" by (simp add: hasLifecycle_def)
  moreover have run: "wrapperScript 0 97 0 = ([RunStartup, RunHarness, RunShutdown], 97)" by (simp add: wrapperScript_def)
  ultimately have "wrapChild ?hc (Exited 97) = StartupFailed" using wrapper_outcome [of ?hc 0 97 0] by simp
  with run show ?thesis by simp
qed

section \<open>Nodes apart\<close>

lemma providerKey_inj: "providerKey a = providerKey b \<longleftrightarrow> tn_Name a = tn_Name b"
  by (simp add: providerKey_def)


section \<open>Concrete launches\<close>

definition plain_machine :: "string list \<Rightarrow> machine" where
  "plain_machine environ = \<lparr>ma_catalog = Inr [(plumbingProvider, keyed)], ma_is_dir = (\<lambda>_. True), ma_mkdir = (\<lambda>_. None),
     ma_environ = environ, ma_abs = (\<lambda>d. Inr d), ma_open_log = (\<lambda>_. None), ma_start = (\<lambda>_. None), ma_write = (\<lambda>_. None)\<rparr>"

definition plain_dispatch :: dispatch_config where
  "plain_dispatch = \<lparr>dc_h = Pi, dc_gateway = ''http://gw/v1'', dc_token = ''sk-gw'', dc_createItemDirs = False,
     dc_baseDir = '''', dc_harnessConfig = no_harness_config\<lparr>hc_Env := [(''CI'', ''1'')], hc_Startup := ''make''\<rparr>\<rparr>"

definition no_files :: harness_files where
  "no_files = \<lparr>hf_opencode = Missing, hf_pi = NoDoc, hf_lucinate = NoDoc\<rparr>"

definition launch_item :: item where
  "launch_item = \<lparr>it_ID = ''a'', it_Instructions = ''do it'', it_Dir = ''/w'', it_Tags = [], it_Priority = 0\<rparr>"

definition launch_node :: topo_node where
  "launch_node = \<lparr>tn_Name = ''n'', tn_Kind = ''daemon'', tn_Tags = [], tn_State = StateRunning, tn_Detail = '''',
     tn_Model = ''m'', tn_ServedName = '''', tn_Ready = '''', tn_LastActiveAt = '''', tn_WakeableModel = ''''\<rparr>"

lemma plain_launch:
  "\<exists>fs made pr. Launch plain_host (plain_machine environ) ''sh'' plain_dispatch launch_item launch_node ''/l'' no_files =
     (fs, made, Inr pr)"
  by (simp add: Launch_def resolvePlan_def plain_machine_def plain_dispatch_def launch_item_def launch_node_def plain_host_def
      no_files_def ResolveItemDir_def oneShot_def ModelName_def is_abs_def harness_Apply_def pi_Apply_def piProvider_def
      BuildPiProvider_def keyed_def endpoint_for_def base_override_def dispatch_selection_def EndpointBaseURL_def
      empty_selection_def RequireOptions_def pi_Write_def pi_ConfigPath_def pi_WriteTo_def load_doc_def write_doc_def
      wrapCommand_def hasLifecycle_def startChild_def Let_def)

theorem launch_environment_witness:
  "\<exists>pr :: started. child_env (pr_env pr) ''OPENAI_API_KEY'' = Some ''sk-host'' \<and> child_env (pr_env pr) ''CI'' = Some ''1'' \<and>
     child_env (pr_env pr) ''STARTUP'' = Some ''make'' \<and> dc_token plain_dispatch = ''sk-gw''"
proof -
  let ?env = "[''OPENAI_API_KEY=sk-host'', ''PWD=/old'']"
  let ?ma = "plain_machine ?env" and ?cat = "[(plumbingProvider, keyed)]"
  obtain fs made pr where launched: "Launch plain_host ?ma ''sh'' plain_dispatch launch_item launch_node ''/l'' no_files =
      (fs, made, Inr pr)" using plain_launch [of ?env] by blast
  have cat: "ma_catalog ?ma = Inr ?cat" "map_of ?cat plumbingProvider = Some keyed" by (simp_all add: plain_machine_def)
  have K: "pv_APIKeyEnv keyed = ''OPENAI_API_KEY''" by (simp add: keyed_def)
  have env: "hc_Env (dc_harnessConfig plain_dispatch) = [(''CI'', ''1'')]" by (simp add: plain_dispatch_def)
  have environ: "ma_environ ?ma = ?env" by (simp add: plain_machine_def)
  have checked: "CheckHarnessEnvCollision (Inr ?cat) (hc_Env (dc_harnessConfig plain_dispatch)) = None"
    by (simp add: CheckHarnessEnvCollision_def env K)
  have names: "\<forall>k \<in> {pv_APIKeyEnv keyed} \<union> fst ` set (hc_Env (dc_harnessConfig plain_dispatch)). CHR ''='' \<notin> set k"
    by (simp add: env K)
  have once: "distinct (map env_name (filter (\<lambda>e. CHR ''='' \<in> set e) (ma_environ ?ma)))"
    by (simp add: environ env_name_def)
  have host: "getenv_of (ma_environ ?ma) ''OPENAI_API_KEY'' = ''sk-host''"
    by (simp add: environ getenv_of_def binds_def env_name_def env_value_def)
  have "pv_APIKeyEnv keyed \<notin> set ['''', ''PWD'', ''STARTUP'', ''SHUTDOWN'']" by (simp add: K)
  from launch_environment [OF launched cat checked names once this]
  have key: "child_env (pr_env pr) (pv_APIKeyEnv keyed) = Some (if getenv_of (ma_environ ?ma) (pv_APIKeyEnv keyed) = ''''
      then dc_token plain_dispatch else getenv_of (ma_environ ?ma) (pv_APIKeyEnv keyed))"
    and other: "\<And>name. name \<noteq> pv_APIKeyEnv keyed \<and> name \<noteq> ''PWD'' \<Longrightarrow> child_env (pr_env pr) name =
      (if hasLifecycle (dc_harnessConfig plain_dispatch) \<and> name = ''STARTUP'' then Some (hc_Startup (dc_harnessConfig plain_dispatch))
       else if hasLifecycle (dc_harnessConfig plain_dispatch) \<and> name = ''SHUTDOWN'' then Some (hc_Shutdown (dc_harnessConfig plain_dispatch))
       else (case map_of (hc_Env (dc_harnessConfig plain_dispatch)) name of Some v \<Rightarrow> Some v
         | None \<Rightarrow> child_env (ma_environ ?ma) name))"
    by (auto simp only:)
  have "child_env (pr_env pr) ''OPENAI_API_KEY'' = Some ''sk-host''" using key by (simp add: K host)
  moreover have "child_env (pr_env pr) ''CI'' = Some ''1''" using other [of "''CI''"] by (simp add: K env)
  moreover have "child_env (pr_env pr) ''STARTUP'' = Some ''make''"
    using other [of "''STARTUP''"] by (simp add: K plain_dispatch_def hasLifecycle_def)
  moreover have "dc_token plain_dispatch = ''sk-gw''" by (simp add: plain_dispatch_def)
  ultimately show ?thesis by blast
qed


end
