(* ===== verification/DispatchDocker.thy ===== *)
theory DispatchDocker
  imports Dispatch
begin

text \<open>
  \<^verbatim>\<open>internal/orchestrator/dispatch_docker.go\<close>, the launch of an item in a container, and \<^verbatim>\<open>gateway.go\<close>, the
  reading of the topology from the gateway. Replacing the host of a URL (\<open>rehost\<close>) and encoding a JSON
  document (\<open>encode\<close>) are arguments.
\<close>

section \<open>The container's parts\<close>

record docker_redirect =
  rd_envVar :: string
  rd_file :: string

definition dockerHarnessRedirects :: "(string, docker_redirect) gomap" where
  "dockerHarnessRedirects =
     [(''opencode'', \<lparr>rd_envVar = ''XDG_CONFIG_HOME'', rd_file = ''opencode/opencode.json''\<rparr>),
      (''pi'', \<lparr>rd_envVar = ''PI_CODING_AGENT_DIR'', rd_file = ''models.json''\<rparr>)]"

abbreviation dockerItemRoot :: string where "dockerItemRoot \<equiv> ''/item''"

definition dockerConfigRoot :: string where "dockerConfigRoot = dockerItemRoot @ ''/config''"

definition dockerWorkspaceRoot :: string where "dockerWorkspaceRoot = dockerItemRoot @ ''/workspace''"

definition DefaultDockerImage :: "string \<Rightarrow> string" where
  "DefaultDockerImage version =
     ''ghcr.io/spinloop-ai/agent:'' @ (if version = '''' \<or> version = ''dev'' then ''latest'' else version)"

text \<open>The answer of \<^verbatim>\<open>docker version\<close>: none, or its error and what it printed.\<close>

definition CheckDockerReachable :: "(string \<times> string) option \<Rightarrow> string option" where
  "CheckDockerReachable failed =
     (case failed of
        None \<Rightarrow> None
      | Some (err, stderr) \<Rightarrow> Some (let msg = trim_space stderr in if msg = '''' then err else msg))"

definition dockerReachableGateway :: "url_parser \<Rightarrow> (string \<Rightarrow> string \<Rightarrow> string) \<Rightarrow> string \<Rightarrow> string" where
  "dockerReachableGateway parse_url rehost gateway =
     (case parse_url gateway of
        None \<Rightarrow> gateway
      | Some u \<Rightarrow>
          if up_Hostname u \<in> set [''localhost'', ''127.0.0.1'', ''::1'']
          then rehost gateway (''host.docker.internal'' @ (if up_Port u \<noteq> '''' then '':'' @ up_Port u else ''''))
          else gateway)"

definition dockerContainerName :: "string \<Rightarrow> string" where
  "dockerContainerName itemID = ''spinloop-'' @ itemID"

text \<open>A rendered configuration as the bytes of a file; lucinate renders none.\<close>

definition harness_Render ::
  "'d host \<Rightarrow> (json_object \<Rightarrow> string) \<Rightarrow> harness \<Rightarrow> provider \<Rightarrow> selection \<Rightarrow> resolver \<Rightarrow> (config_error + string) option" where
  "harness_Render h encode hn p sel resolve =
     (case hn of
        Opencode \<Rightarrow> Some (opencode_Render h p sel resolve)
      | Pi \<Rightarrow> Some (map_sum id encode (pi_Render h p sel resolve))
      | Lucinate \<Rightarrow> None)"

section \<open>The launch\<close>

record docker_run =
  dr_args :: "string list"
  dr_name :: string
  dr_log :: string

definition path_base :: "string \<Rightarrow> string" where
  "path_base p = (case last_index_byte p CHR ''/'' of None \<Rightarrow> p | Some i \<Rightarrow> drop (Suc i) p)"

definition with_flag :: "string list \<Rightarrow> string list" where
  "with_flag es = concat (map (\<lambda>e. [''-e'', e]) es)"

definition docker_args ::
  "string \<Rightarrow> string \<Rightarrow> string \<Rightarrow> docker_redirect \<Rightarrow> string list \<Rightarrow> string \<Rightarrow> string \<Rightarrow> string list \<Rightarrow> string list" where
  "docker_args name workspace configFile redirect env img bin runArgs =
     [''run'', ''--rm'', ''--name'', name, ''--add-host'', ''host.docker.internal:host-gateway'',
      ''-v'', workspace @ '':'' @ dockerWorkspaceRoot, ''-w'', dockerWorkspaceRoot,
      ''-v'', configFile @ '':'' @ dockerConfigRoot @ ''/'' @ rd_file redirect,
      ''-e'', env_pair (rd_envVar redirect, dockerConfigRoot)] @
     with_flag env @ [img, bin] @ runArgs"

definition runDockerContainer :: "machine \<Rightarrow> string list \<Rightarrow> string \<Rightarrow> string \<Rightarrow> string + docker_run" where
  "runDockerContainer ma args name logPath =
     (case ma_open_log ma logPath of
        Some e \<Rightarrow> Inl e
      | None \<Rightarrow>
          (case ma_start ma ''docker'' of
             Some e \<Rightarrow> Inl e
           | None \<Rightarrow> Inr \<lparr>dr_args = args, dr_name = name, dr_log = logPath\<rparr>))"

text \<open>The answer comes with the directories that were made and the files that were written.\<close>

definition docker_Launch ::
  "'d host \<Rightarrow> machine \<Rightarrow> (json_object \<Rightarrow> string) \<Rightarrow> (string \<Rightarrow> string \<Rightarrow> string) \<Rightarrow> string \<Rightarrow> string \<Rightarrow> dispatch_config \<Rightarrow>
   item \<Rightarrow> topo_node \<Rightarrow> string \<Rightarrow> string list \<times> (string \<times> string) list \<times> (launch_error + docker_run)" where
  "docker_Launch h ma encode rehost script img cfg it node logPath =
     (case resolvePlan (ho_url h) ma
         (cfg\<lparr>dc_gateway := dockerReachableGateway (ho_url h) rehost (dc_gateway cfg)\<rparr>) it node of
        (made, Inl e) \<Rightarrow> (made, [], Inl e)
      | (made, Inr plan) \<Rightarrow>
          (case (harness_Render h encode (dc_h cfg) (lp_provider plan) (lp_sel plan) (token_resolver ma cfg (lp_provider plan)),
                 map_of dockerHarnessRedirects (harness_name (dc_h cfg))) of
             (None, _) \<Rightarrow> (made, [], Inl (CannotRender (harness_name (dc_h cfg))))
           | (_, None) \<Rightarrow> (made, [], Inl (NoConfigMount (harness_name (dc_h cfg))))
           | (Some (Inl e), _) \<Rightarrow> (made, [], Inl (RenderFails (it_ID it) e))
           | (Some (Inr rendered), Some redirect) \<Rightarrow>
               (let configDir = ItemConfigDir (lp_dir plan);
                    configFile = path_join [configDir, path_base (rd_file redirect)]
                in case ma_mkdir ma configDir of
                     Some e \<Rightarrow> (made, [], Inl (CreatingConfigDirectory (it_ID it) e))
                   | None \<Rightarrow>
                       (case ma_write ma configFile of
                          Some e \<Rightarrow> (made @ [configDir], [], Inl (WritingConfigFile (it_ID it) e))
                        | None \<Rightarrow>
                            (made @ [configDir], [(configFile, rendered)],
                             case ma_abs ma (ItemWorkspaceDir (lp_dir plan)) of
                               Inl e \<Rightarrow> Inl (ResolvingDirectory (ItemWorkspaceDir (lp_dir plan)) e)
                             | Inr workspace \<Rightarrow>
                                 (case ma_abs ma configFile of
                                    Inl e \<Rightarrow> Inl (ResolvingDirectory configFile e)
                                  | Inr absConfigFile \<Rightarrow>
                                      (case wrapCommand script (harness_command (dc_h cfg)) (lp_args plan) (dc_harnessConfig cfg) of
                                         (bin, runArgs, wrapEnv) \<Rightarrow>
                                           map_sum (DockerFails (it_ID it)) id
                                             (runDockerContainer ma
                                                (docker_args (dockerContainerName (it_ID it)) workspace absConfigFile redirect
                                                   (providerEnv cfg plan @ wrapEnv) img bin runArgs)
                                                (dockerContainerName (it_ID it)) logPath))))))))"

text \<open>What ending a container runs.\<close>

definition docker_Stop :: "string \<Rightarrow> string list" where
  "docker_Stop name = [''docker'', ''stop'', ''--time'', ''0'', name]"

definition docker_Kill :: "string \<Rightarrow> string list" where
  "docker_Kill name = [''docker'', ''kill'', name]"

section \<open>Reading the topology\<close>

datatype topology_error =
    NotAnAddress string string
  | NoAnswer string
  | AnsweredStatus string string
  | NotATopology string string

text \<open>What came of the request: none could be made, none came back, or a status and a body.\<close>

datatype gateway_reply = NoRequest string | NoReply string | Reply int string string

definition Topology :: "string \<Rightarrow> (string \<Rightarrow> string + topology) \<Rightarrow> (string \<Rightarrow> string \<Rightarrow> gateway_reply) \<Rightarrow> string \<Rightarrow> topology_error + topology" where
  "Topology gateway decode ask token =
     (case ask (gateway @ ''/v1/fleet'') (''Bearer '' @ token) of
        NoRequest e \<Rightarrow> Inl (NotAnAddress gateway e)
      | NoReply e \<Rightarrow> Inl (NoAnswer e)
      | Reply status text body \<Rightarrow>
          if status \<noteq> 200 then Inl (AnsweredStatus gateway text)
          else map_sum (NotATopology gateway) id (decode (take (4 * 2 ^ 20) body)))"

section \<open>The token of a container\<close>

lemma token_resolver_upd: "token_resolver ma cfg p = (getenv_of (ma_environ ma))(pv_APIKeyEnv p := dc_token cfg)"
  by (rule ext) (simp add: token_resolver_def)

lemma opencode_Render_key:
  assumes "key_only p" "key_like p key" "key_like p key'"
  shows "opencode_Render h p sel (resolve(pv_APIKeyEnv p := key)) = opencode_Render h p sel (resolve(pv_APIKeyEnv p := key'))"
  by (simp only: opencode_Render_def opencodeBlock_key [OF assms])

lemma pi_Render_key:
  assumes "key_only p" "key_like p key" "key_like p key'"
  shows "pi_Render h p sel (resolve(pv_APIKeyEnv p := key)) = pi_Render h p sel (resolve(pv_APIKeyEnv p := key'))"
  by (simp only: pi_Render_def piProvider_key [OF assms])

lemma harness_Render_key:
  assumes "key_only p" "key_like p key" "key_like p key'"
  shows "harness_Render h encode hn p sel (resolve(pv_APIKeyEnv p := key)) =
    harness_Render h encode hn p sel (resolve(pv_APIKeyEnv p := key'))"
  by (simp only: harness_Render_def opencode_Render_key [OF assms] pi_Render_key [OF assms])

lemma resolvePlan_token: "resolvePlan parse_url ma (cfg\<lparr>dc_token := t\<rparr>) it node = resolvePlan parse_url ma cfg it node"
proof -
  have sel: "dispatch_selection parse_url (cfg\<lparr>dc_token := t\<rparr>) node = dispatch_selection parse_url cfg node"
    by (simp add: dispatch_selection_def)
  have same: "dc_baseDir (cfg\<lparr>dc_token := t\<rparr>) = dc_baseDir cfg" "dc_h (cfg\<lparr>dc_token := t\<rparr>) = dc_h cfg"
    "dc_createItemDirs (cfg\<lparr>dc_token := t\<rparr>) = dc_createItemDirs cfg" by simp_all
  show ?thesis unfolding resolvePlan_def sel same by (rule refl)
qed

lemma with_flag_append: "with_flag (xs @ ys) = with_flag xs @ with_flag ys"
  by (simp add: with_flag_def)

lemma docker_args_token:
  "\<exists>pre post. \<forall>t'. docker_args name ws cf rd
       (providerEnv (cfg\<lparr>dc_token := t'\<rparr>) plan @ wrapEnv) img bin runArgs =
     (if pv_APIKeyEnv (lp_provider plan) = '''' then pre @ post
      else pre @ env_pair (pv_APIKeyEnv (lp_provider plan), t') # post)"
proof -
  let ?head = "docker_args name ws cf rd [] img bin []"
  let ?n = "length ?head - 2"
  let ?rest = "with_flag (sortedEnvPairs (hc_Env (dc_harnessConfig cfg)) @ wrapEnv) @ [img, bin] @ runArgs"
  have "docker_args name ws cf rd (providerEnv (cfg\<lparr>dc_token := t'\<rparr>) plan @ wrapEnv) img bin runArgs =
      (if pv_APIKeyEnv (lp_provider plan) = '''' then take ?n ?head @ ?rest
       else take ?n ?head @ [''-e'', env_pair (pv_APIKeyEnv (lp_provider plan), t')] @ ?rest)" for t'
    by (simp add: docker_args_def providerEnv_def with_flag_def)
  note args = this
  show ?thesis
  proof (cases "pv_APIKeyEnv (lp_provider plan) = ''''")
    case True
    show ?thesis unfolding args using True by (intro exI [of _ "take ?n ?head"] exI [of _ ?rest]) simp
  next
    case False
    show ?thesis unfolding args using False by (intro exI [of _ "take ?n ?head @ [''-e'']"] exI [of _ ?rest]) simp
  qed
qed

text \<open>
  The token of a container's launch: the configuration written for it does not depend on the token, and of
  the arguments that Docker is run with exactly one carries it, the one that sets the provider's variable.
\<close>

theorem docker_token:
  assumes "docker_Launch h ma encode rehost script img (cfg\<lparr>dc_token := t\<rparr>) it node logPath = (made, writes, Inr run)"
    and "ma_catalog ma = Inr c" and "map_of c plumbingProvider = Some p"
    and "key_only p" and "key_like p t" and "pv_APIKeyEnv p \<noteq> ''''"
  shows "\<exists>pre post. dr_args run = pre @ env_pair (pv_APIKeyEnv p, t) # post \<and>
    (\<forall>t'. key_like p t' \<longrightarrow>
      docker_Launch h ma encode rehost script img (cfg\<lparr>dc_token := t'\<rparr>) it node logPath =
        (made, writes, Inr (run\<lparr>dr_args := pre @ env_pair (pv_APIKeyEnv p, t') # post\<rparr>)))"
proof -
  let ?cfg = "cfg\<lparr>dc_gateway := dockerReachableGateway (ho_url h) rehost (dc_gateway cfg)\<rparr>"
  have plan_eq: "resolvePlan (ho_url h) ma (cfg\<lparr>dc_token := t', dc_gateway := g\<rparr>) it node =
      resolvePlan (ho_url h) ma (cfg\<lparr>dc_gateway := g\<rparr>) it node" for t' g
  proof -
    have "cfg\<lparr>dc_token := t', dc_gateway := g\<rparr> = (cfg\<lparr>dc_gateway := g\<rparr>)\<lparr>dc_token := t'\<rparr>" by simp
    then show ?thesis by (simp only: resolvePlan_token)
  qed
  obtain made0 plan where plan: "resolvePlan (ho_url h) ma ?cfg it node = (made0, Inr plan)"
    using assms(1) by (auto simp: docker_Launch_def plan_eq split: prod.splits sum.splits)
  have p: "lp_provider plan = p" using resolvePlan_plan(1) [OF plan] assms(2,3) by auto
  have render: "harness_Render h encode (dc_h cfg) p (lp_sel plan) (token_resolver ma (cfg\<lparr>dc_token := t'\<rparr>) p) =
      harness_Render h encode (dc_h cfg) p (lp_sel plan) (token_resolver ma (cfg\<lparr>dc_token := t\<rparr>) p)" if "key_like p t'" for t'
    unfolding token_resolver_upd using harness_Render_key [OF assms(4) that assms(5)] by simp
  from assms(1) obtain rendered redirect ws cf bin runArgs wrapEnv where
    r: "harness_Render h encode (dc_h cfg) p (lp_sel plan) (token_resolver ma (cfg\<lparr>dc_token := t\<rparr>) p) = Some (Inr rendered)"
    and rd: "map_of dockerHarnessRedirects (harness_name (dc_h cfg)) = Some redirect"
    and dirs: "ma_mkdir ma (ItemConfigDir (lp_dir plan)) = None"
      "ma_write ma (path_join [ItemConfigDir (lp_dir plan), path_base (rd_file redirect)]) = None"
      "ma_abs ma (ItemWorkspaceDir (lp_dir plan)) = Inr ws"
      "ma_abs ma (path_join [ItemConfigDir (lp_dir plan), path_base (rd_file redirect)]) = Inr cf"
    and wrap: "wrapCommand script (harness_command (dc_h cfg)) (lp_args plan) (dc_harnessConfig cfg) = (bin, runArgs, wrapEnv)"
    and os: "ma_open_log ma logPath = None" "ma_start ma ''docker'' = None"
    and run: "made = made0 @ [ItemConfigDir (lp_dir plan)]"
      "writes = [(path_join [ItemConfigDir (lp_dir plan), path_base (rd_file redirect)], rendered)]"
      "run = \<lparr>dr_args = docker_args (dockerContainerName (it_ID it)) ws cf redirect
          (providerEnv (cfg\<lparr>dc_token := t\<rparr>) plan @ wrapEnv) img bin runArgs,
        dr_name = dockerContainerName (it_ID it), dr_log = logPath\<rparr>"
    by (auto simp: docker_Launch_def plan_eq plan p runDockerContainer_def Let_def map_sum_Inr
        split: option.splits sum.splits prod.splits)
  obtain pre post where args: "\<And>t'. docker_args (dockerContainerName (it_ID it)) ws cf redirect
      (providerEnv (cfg\<lparr>dc_token := t'\<rparr>) plan @ wrapEnv) img bin runArgs = pre @ env_pair (pv_APIKeyEnv p, t') # post"
    using docker_args_token [of "dockerContainerName (it_ID it)" ws cf redirect cfg plan wrapEnv img bin runArgs] assms(6)
    by (auto simp: p)
  have "docker_Launch h ma encode rehost script img (cfg\<lparr>dc_token := t'\<rparr>) it node logPath =
        (made, writes, Inr (run\<lparr>dr_args := pre @ env_pair (pv_APIKeyEnv p, t') # post\<rparr>))" if "key_like p t'" for t'
    by (simp add: docker_Launch_def plan_eq plan p render [OF that] r rd dirs wrap os run runDockerContainer_def args Let_def)
  moreover have "dr_args run = pre @ env_pair (pv_APIKeyEnv p, t) # post" by (simp add: run args)
  ultimately show ?thesis by blast
qed

theorem docker_token_witness:
  "\<exists>run pre post. docker_Launch plain_host (plain_machine []) (\<lambda>_. ''{}'') (\<lambda>g _. g) ''sh'' ''img''
       (plain_dispatch\<lparr>dc_token := ''sk-other''\<rparr>) launch_item launch_node ''/l'' =
     ([''/w/workspace'', ''/w/config''], [(''/w/config/models.json'', ''{}'')], Inr run) \<and>
     dr_args run = pre @ ''OPENAI_API_KEY=sk-other'' # post"
proof -
  have "\<exists>run. docker_Launch plain_host (plain_machine []) (\<lambda>_. ''{}'') (\<lambda>g _. g) ''sh'' ''img''
       (plain_dispatch\<lparr>dc_token := ''sk-gw''\<rparr>) launch_item launch_node ''/l'' =
     ([''/w/workspace'', ''/w/config''], [(''/w/config/models.json'', ''{}'')], Inr run)"
    by (simp add: docker_Launch_def dockerReachableGateway_def resolvePlan_def plain_machine_def plain_dispatch_def launch_item_def
        launch_node_def plain_host_def ResolveItemDir_def ItemWorkspaceDir_def ItemConfigDir_def path_join_def path_clean_def
        path_base_def last_index_byte_def
        oneShot_def ModelName_def is_abs_def harness_Render_def pi_Render_def piProvider_def
        BuildPiProvider_def keyed_def endpoint_for_def base_override_def dispatch_selection_def EndpointBaseURL_def
        empty_selection_def RequireOptions_def pi_WriteTo_def load_doc_def write_doc_def dockerHarnessRedirects_def
        wrapCommand_def hasLifecycle_def runDockerContainer_def Let_def)
  then obtain run where run: "docker_Launch plain_host (plain_machine []) (\<lambda>_. ''{}'') (\<lambda>g _. g) ''sh'' ''img''
       (plain_dispatch\<lparr>dc_token := ''sk-gw''\<rparr>) launch_item launch_node ''/l'' =
     ([''/w/workspace'', ''/w/config''], [(''/w/config/models.json'', ''{}'')], Inr run)" by blast
  have cat: "ma_catalog (plain_machine []) = Inr [(plumbingProvider, keyed)]"
    "map_of [(plumbingProvider, keyed)] plumbingProvider = Some keyed" by (simp_all add: plain_machine_def)
  have keyed: "key_only keyed" "key_like keyed ''sk-gw''" "pv_APIKeyEnv keyed \<noteq> ''''"
    by (simp_all add: key_only_def key_like_def keyed_def)
  obtain pre post where "\<forall>t'. key_like keyed t' \<longrightarrow>
      docker_Launch plain_host (plain_machine []) (\<lambda>_. ''{}'') (\<lambda>g _. g) ''sh'' ''img''
        (plain_dispatch\<lparr>dc_token := t'\<rparr>) launch_item launch_node ''/l'' =
      ([''/w/workspace'', ''/w/config''], [(''/w/config/models.json'', ''{}'')],
       Inr (run\<lparr>dr_args := pre @ env_pair (pv_APIKeyEnv keyed, t') # post\<rparr>))"
    using docker_token [OF run cat keyed] by (elim exE conjE)
  moreover have "key_like keyed ''sk-other''" by (simp add: key_like_def keyed_def)
  moreover have "env_pair (pv_APIKeyEnv keyed, ''sk-other'') = ''OPENAI_API_KEY=sk-other''" by (simp add: env_pair_def keyed_def)
  ultimately show ?thesis
    by (intro exI [of _ "run\<lparr>dr_args := pre @ ''OPENAI_API_KEY=sk-other'' # post\<rparr>"] exI [of _ pre] exI [of _ post] conjI) simp_all
qed

end
