(* ===== verification/GoRegexp.thy ===== *)
theory GoRegexp
  imports GoStrings
begin

text \<open>
  The patterns of Go's \<^verbatim>\<open>regexp\<close> package that the program uses, and its leftmost-first search: of the places
  where a pattern matches the leftmost is taken, and there the match that a backtracking search in the
  order of preference finds first.
\<close>

section \<open>Patterns\<close>

datatype re =
    Cls "char \<Rightarrow> bool"
  | Lit string
  | Repeat "char \<Rightarrow> bool" bool
  | Cat re re
  | Maybe re
  | Alt re re
  | Many re
  | Cap nat re
  | WordB
  | LineStart bool
  | LineEnd bool

definition digit_class :: "char \<Rightarrow> bool" where
  "digit_class c \<longleftrightarrow> is_digit c"

definition blank_class :: "char \<Rightarrow> bool" where
  "blank_class c \<longleftrightarrow> c \<in> set [CHR '' '', CHR 0x09, CHR 0x0A, CHR 0x0C, CHR 0x0D]"

definition lower_class :: "char \<Rightarrow> bool" where
  "lower_class c \<longleftrightarrow> (97 :: nat) \<le> of_char c \<and> (of_char c :: nat) \<le> 122"

definition word_class :: "char \<Rightarrow> bool" where
  "word_class c \<longleftrightarrow> is_digit c \<or> lower_class c \<or> c = CHR ''_'' \<or> ((65 :: nat) \<le> of_char c \<and> (of_char c :: nat) \<le> 90)"

text \<open>\<open>Repeat p True\<close> is \<^verbatim>\<open>p*\<close>, \<open>Repeat p False\<close> is \<^verbatim>\<open>p*?\<close>.\<close>

abbreviation Star :: "(char \<Rightarrow> bool) \<Rightarrow> re" where "Star p \<equiv> Repeat p True"
abbreviation StarLazy :: "(char \<Rightarrow> bool) \<Rightarrow> re" where "StarLazy p \<equiv> Repeat p False"

definition Plus :: "(char \<Rightarrow> bool) \<Rightarrow> re" where
  "Plus p = Cat (Cls p) (Star p)"

definition PlusLazy :: "(char \<Rightarrow> bool) \<Rightarrow> re" where
  "PlusLazy p = Cat (Cls p) (StarLazy p)"

fun seq :: "re list \<Rightarrow> re" where
  "seq [] = Lit ''''"
| "seq [r] = r"
| "seq (r # rs) = Cat r (seq rs)"

section \<open>Matching\<close>

text \<open>A place in the text: the byte before it, what follows, and what the groups have taken so far.\<close>

type_synonym place = "char option \<times> string \<times> (nat \<times> string) list"

fun runs :: "(char \<Rightarrow> bool) \<Rightarrow> char option \<Rightarrow> string \<Rightarrow> (nat \<times> string) list \<Rightarrow> place list" where
  "runs p prev [] caps = [(prev, [], caps)]"
| "runs p prev (c # s) caps = (prev, c # s, caps) # (if p c then runs p (Some c) s caps else [])"

definition is_word :: "char option \<Rightarrow> bool" where
  "is_word c = (case c of None \<Rightarrow> False | Some c \<Rightarrow> word_class c)"

definition ahead :: "string \<Rightarrow> char option" where
  "ahead s = (case s of [] \<Rightarrow> None | c # _ \<Rightarrow> Some c)"

text \<open>Any number of matches in a row, each of at least one byte, more of them preferred.\<close>

fun iterated :: "nat \<Rightarrow> (place \<Rightarrow> place list) \<Rightarrow> place \<Rightarrow> place list" where
  "iterated 0 f pl = [pl]"
| "iterated (Suc n) f pl =
     concat (map (\<lambda>pl'. if length (fst (snd pl')) < length (fst (snd pl)) then iterated n f pl' else []) (f pl)) @ [pl]"

text \<open>The places a match may end at, the preferred first.\<close>

fun matches :: "re \<Rightarrow> place \<Rightarrow> place list" where
  "matches (Cls p) (prev, s, caps) =
     (case s of [] \<Rightarrow> [] | c # s' \<Rightarrow> if p c then [(Some c, s', caps)] else [])"
| "matches (Lit w) (prev, s, caps) =
     (if prefix w s then [(if w = [] then prev else Some (last w), drop (length w) s, caps)] else [])"
| "matches (Repeat p greedy) (prev, s, caps) =
     (if greedy then rev (runs p prev s caps) else runs p prev s caps)"
| "matches (Cat r q) pl = concat (map (matches q) (matches r pl))"
| "matches (Maybe r) pl = matches r pl @ [pl]"
| "matches (Alt r q) pl = matches r pl @ matches q pl"
| "matches (Many r) pl = iterated (length (fst (snd pl))) (matches r) pl"
| "matches (Cap n r) (prev, s, caps) =
     map (\<lambda>(prev', s', caps'). (prev', s', (n, take (length s - length s') s) # caps')) (matches r (prev, s, caps))"
| "matches WordB (prev, s, caps) = (if is_word prev \<noteq> is_word (ahead s) then [(prev, s, caps)] else [])"
| "matches (LineStart multi) (prev, s, caps) =
     (if prev = None \<or> (multi \<and> prev = Some CHR 0x0A) then [(prev, s, caps)] else [])"
| "matches (LineEnd multi) (prev, s, caps) =
     (if s = [] \<or> (multi \<and> ahead s = Some CHR 0x0A) then [(prev, s, caps)] else [])"

fun search :: "re \<Rightarrow> char option \<Rightarrow> string \<Rightarrow> (nat \<times> string) list option" where
  "search r prev s =
     (case matches r (prev, s, []) of
        (_, _, caps) # _ \<Rightarrow> Some caps
      | [] \<Rightarrow> (case s of [] \<Rightarrow> None | c # s' \<Rightarrow> search r (Some c) s'))"

declare search.simps [simp del]

text \<open>\<^verbatim>\<open>FindStringSubmatch\<close>: the groups by number; one that took no part is empty.\<close>

definition find_groups :: "re \<Rightarrow> string \<Rightarrow> (nat \<Rightarrow> string) option" where
  "find_groups r s = map_option (\<lambda>caps n. get_or '''' (map_of caps) n) (search r None s)"

section \<open>What a match has read\<close>

text \<open>
  The texts a pattern stands for, with what its groups took of them; its conditions on the place are left
  aside.
\<close>

inductive reads :: "re \<Rightarrow> string \<Rightarrow> (nat \<times> string) list \<Rightarrow> bool" where
  reads_Cls: "p c \<Longrightarrow> reads (Cls p) [c] []"
| reads_Lit: "reads (Lit w) w []"
| reads_Repeat: "list_all p w \<Longrightarrow> reads (Repeat p greedy) w []"
| reads_Cat: "reads r v cs \<Longrightarrow> reads q w ds \<Longrightarrow> reads (Cat r q) (v @ w) (ds @ cs)"
| reads_Maybe: "reads r w cs \<Longrightarrow> reads (Maybe r) w cs"
| reads_MaybeNot: "reads (Maybe r) '''' []"
| reads_AltL: "reads r w cs \<Longrightarrow> reads (Alt r q) w cs"
| reads_AltR: "reads q w cs \<Longrightarrow> reads (Alt r q) w cs"
| reads_ManyNil: "reads (Many r) '''' []"
| reads_ManyCons: "reads r v cs \<Longrightarrow> reads (Many r) w ds \<Longrightarrow> reads (Many r) (v @ w) (ds @ cs)"
| reads_Cap: "reads r w cs \<Longrightarrow> reads (Cap n r) w ((n, w) # cs)"
| reads_WordB: "reads WordB '''' []"
| reads_LineStart: "reads (LineStart multi) '''' []"
| reads_LineEnd: "reads (LineEnd multi) '''' []"

inductive_simps reads_simps [simp]:
  "reads (Cls p) w cs" "reads (Lit v) w cs" "reads (Repeat p greedy) w cs" "reads (Cat r q) w cs"
  "reads (Maybe r) w cs" "reads (Alt r q) w cs" "reads (Cap n r) w cs" "reads WordB w cs"
  "reads (LineStart multi) w cs" "reads (LineEnd multi) w cs"

lemma runs_reads:
  "(prev', s', caps') \<in> set (runs p prev s caps) \<Longrightarrow> \<exists>w. s = w @ s' \<and> list_all p w \<and> caps' = caps"
proof (induction p prev s caps rule: runs.induct)
  case (2 p prev c s caps)
  from "2.prems" consider "s' = c # s" "caps' = caps" | "p c" "(prev', s', caps') \<in> set (runs p (Some c) s caps)"
    by (auto split: if_splits)
  then show ?case
  proof cases
    case 2
    then obtain w where "s = w @ s' \<and> list_all p w \<and> caps' = caps" using "2.IH" by blast
    with 2 show ?thesis by (intro exI [of _ "c # w"]) simp
  qed simp
qed simp

lemma iterated_reads:
  assumes "\<And>prev s caps prev' s' caps'. (prev', s', caps') \<in> set (f (prev, s, caps)) \<Longrightarrow>
      \<exists>w cs. s = w @ s' \<and> reads r w cs \<and> caps' = cs @ caps"
    and "(prev', s', caps') \<in> set (iterated n f (prev, s, caps))"
  shows "\<exists>w cs. s = w @ s' \<and> reads (Many r) w cs \<and> caps' = cs @ caps"
  using assms(2)
proof (induction n arbitrary: prev s caps)
  case 0
  then show ?case using reads_ManyNil by auto
next
  case (Suc n)
  then consider "s' = s" "caps' = caps"
    | prev1 s1 caps1 where "(prev1, s1, caps1) \<in> set (f (prev, s, caps))" "(prev', s', caps') \<in> set (iterated n f (prev1, s1, caps1))"
    by (auto split: if_splits)
  then show ?case
  proof cases
    case 1
    then show ?thesis using reads_ManyNil by auto
  next
    case 2
    from assms(1) [OF 2(1)] obtain v cs where v: "s = v @ s1" "reads r v cs" "caps1 = cs @ caps" by blast
    from Suc.IH [OF 2(2)] obtain w ds where "s1 = w @ s'" "reads (Many r) w ds" "caps' = ds @ caps1" by blast
    with v show ?thesis by (intro exI [of _ "v @ w"] exI [of _ "ds @ cs"]) (auto intro: reads_ManyCons)
  qed
qed

text \<open>A match reads a text of the pattern off the front of what follows.\<close>

lemma matches_reads:
  "(prev', s', caps') \<in> set (matches r (prev, s, caps)) \<Longrightarrow> \<exists>w cs. s = w @ s' \<and> reads r w cs \<and> caps' = cs @ caps"
proof (induction r arbitrary: prev s caps prev' s' caps')
  case (Cls p)
  then show ?case by (cases s) (auto split: if_splits)
next
  case (Lit w)
  then show ?case by (auto simp: prefix_def split: if_splits)
next
  case (Repeat p greedy)
  then have "(prev', s', caps') \<in> set (runs p prev s caps)" by (auto split: if_splits)
  then show ?case by (auto dest!: runs_reads)
next
  case (Cat r q)
  then obtain prev1 s1 caps1 where m: "(prev1, s1, caps1) \<in> set (matches r (prev, s, caps))"
    "(prev', s', caps') \<in> set (matches q (prev1, s1, caps1))" by auto
  obtain v cs where "s = v @ s1" "reads r v cs" "caps1 = cs @ caps" using Cat.IH(1) [OF m(1)] by (elim exE conjE)
  moreover obtain w ds where "s1 = w @ s'" "reads q w ds" "caps' = ds @ caps1" using Cat.IH(2) [OF m(2)] by (elim exE conjE)
  ultimately show ?case by (intro exI [of _ "v @ w"] exI [of _ "ds @ cs"]) (auto simp del: reads_simps intro: reads.intros)
next
  case (Maybe r)
  then consider "(prev', s', caps') \<in> set (matches r (prev, s, caps))" | "s' = s" "caps' = caps" by auto
  then show ?case
  proof cases
    case 1
    then show ?thesis using Maybe.IH reads_Maybe by blast
  next
    case 2
    then show ?thesis by (intro exI [of _ "[]"]) simp
  qed
next
  case (Alt r q)
  then consider "(prev', s', caps') \<in> set (matches r (prev, s, caps))" | "(prev', s', caps') \<in> set (matches q (prev, s, caps))"
    by auto
  then show ?case
  proof cases
    case 1
    then show ?thesis using Alt.IH(1) [OF 1] by (elim exE conjE) (intro exI conjI reads_AltL, assumption+)
  next
    case 2
    then show ?thesis using Alt.IH(2) [OF 2] by (elim exE conjE) (intro exI conjI reads_AltR, assumption+)
  qed
next
  case (Many r)
  then have "(prev', s', caps') \<in> set (iterated (length s) (matches r) (prev, s, caps))" by simp
  then show ?case by (rule iterated_reads [rotated]) (rule Many.IH)
next
  case (Cap n r)
  then obtain caps1 where m: "(prev', s', caps1) \<in> set (matches r (prev, s, caps))"
    and c: "caps' = (n, take (length s - length s') s) # caps1" by auto
  from Cap.IH [OF m] obtain w cs where "s = w @ s'" "reads r w cs" "caps1 = cs @ caps" by blast
  with c show ?case by (intro exI [of _ w] exI [of _ "(n, w) # cs"]) simp
qed (auto split: if_splits)

lemma search_place:
  "search r prev s = Some caps \<Longrightarrow>
   \<exists>u v pl pls. s = u @ v \<and> matches r (if u = [] then prev else Some (last u), v, []) = pl # pls \<and> snd (snd pl) = caps"
proof (induction s arbitrary: prev)
  case Nil
  then show ?case by (intro exI [of _ "[]"]) (auto simp: search.simps [of r prev "[]"] split: list.splits)
next
  case (Cons c s)
  show ?case
  proof (cases "matches r (prev, c # s, [])")
    case Nil
    then have "search r (Some c) s = Some caps" using Cons.prems by (simp add: search.simps [of r prev "c # s"])
    from Cons.IH [OF this] obtain u v pl pls where u: "s = u @ v"
      "matches r (if u = [] then Some c else Some (last u), v, []) = pl # pls" "snd (snd pl) = caps" by blast
    moreover have "(if c # u = [] then prev else Some (last (c # u))) = (if u = [] then Some c else Some (last u))" by simp
    ultimately show ?thesis by (intro exI [of _ "c # u"] exI [of _ v] exI [of _ pl] exI [of _ pls]) (simp only: append_Cons)
  next
    case (Cons pl pls)
    obtain a b d where "pl = (a, b, d)" by (cases pl)
    then show ?thesis using Cons \<open>search r prev (c # s) = Some caps\<close>
      by (intro exI [of _ "[]"] exI [of _ "c # s"]) (simp add: search.simps [of r prev "c # s"])
  qed
qed

lemma search_reads:
  assumes "search r prev s = Some caps"
  shows "\<exists>u w v. s = u @ w @ v \<and> reads r w caps"
proof -
  from search_place [OF assms] obtain u v pl pls where s: "s = u @ v"
    "matches r (if u = [] then prev else Some (last u), v, []) = pl # pls" "snd (snd pl) = caps" by blast
  obtain a b where "pl = (a, b, caps)" using s(3) by (cases pl) simp
  with s(2) have "(a, b, caps) \<in> set (matches r (if u = [] then prev else Some (last u), v, []))" by simp
  from matches_reads [OF this] obtain w where "v = w @ b" "reads r w caps" by auto
  with s(1) show ?thesis by (intro exI [of _ u] exI [of _ w] exI [of _ b]) simp
qed

text \<open>No match anywhere is what no result means.\<close>

lemma search_None: "search r prev s = None \<Longrightarrow> matches r (prev, s, []) = []"
  by (auto simp: search.simps [of r prev s] split: list.splits)

end
