(* ===== verification/Metrics.thy ===== *)
theory Metrics
  imports GoRegexp GoFloat DaemonCore
begin

text \<open>
  \<^verbatim>\<open>internal/metrics\<close>: what is read of an engine's counters, of its generation rate and of the host's
  figures. The text a command printed, or the reply of the engine, is an argument; floats are those of
  \<open>GoFloat\<close>, and \<open>machine\<close> is the conversion of a float outside the integer range.
\<close>

section \<open>Numbers\<close>

fun plus64 :: "float64 \<Rightarrow> float64 \<Rightarrow> float64" where
  "plus64 (Finite x) (Finite y) = round64 (x + y)"
| "plus64 (Infinite s) (Finite y) = Infinite s"
| "plus64 (Finite x) (Infinite t) = Infinite t"
| "plus64 (Infinite s) (Infinite t) = (if s = t then Infinite s else NaN)"
| "plus64 NaN _ = NaN"
| "plus64 _ NaN = NaN"

fun minus_from :: "rat \<Rightarrow> float64 \<Rightarrow> float64" where
  "minus_from x (Finite y) = round64 (x - y)"
| "minus_from x (Infinite s) = Infinite (\<not> s)"
| "minus_from x NaN = NaN"

definition at_least_zero :: "float64 \<Rightarrow> float64" where
  "at_least_zero v = (if less64 v 0 then Finite 0 else v)"

definition atoiOrZero :: "string \<Rightarrow> int" where
  "atoiOrZero s = (case parse_int s of None \<Rightarrow> 0 | Some n \<Rightarrow> n)"

definition read_float :: "string \<Rightarrow> float64 option" where
  "read_float s = ParseFloat (to_lower s)"

section \<open>The GPU\<close>

definition gpu_line :: "string \<Rightarrow> gpu_stat option" where
  "gpu_line raw =
     (let line = trim_space raw; parts = map trim_space (split_on CHR '','' line)
      in if line = '''' \<or> length parts < 6 then None
         else (case parse_int (parts ! 0) of
             None \<Rightarrow> None
           | Some idx \<Rightarrow>
               Some \<lparr>gs_Index = idx, gs_Name = parts ! 1, gs_Utilization = atoiOrZero (parts ! 2),
                 gs_MemoryUsed = wrap64 (atoiOrZero (parts ! 3) * 2 ^ 20),
                 gs_MemoryTotal = wrap64 (atoiOrZero (parts ! 4) * 2 ^ 20), gs_Temperature = atoiOrZero (parts ! 5)\<rparr>))"

definition ParseGPUStats :: "string \<Rightarrow> gpu_stat list" where
  "ParseGPUStats out = List.map_filter gpu_line (split_on CHR 0x0A out)"

definition ioregServiceHeader :: re where
  "ioregServiceHeader =
     seq [LineStart False, Star blank_class, Lit ''+-o'', Plus blank_class, Cap 1 (Plus (\<lambda>c. \<not> blank_class c))]"

definition ioregModel :: re where
  "ioregModel = seq [LineStart False, Star blank_class, Lit ([CHR 0x22] @ ''model'' @ [CHR 0x22]), Star blank_class, Lit ''='',
     Star blank_class, Lit [CHR 0x22], Cap 1 (Star (\<lambda>c. c \<noteq> CHR 0x22)), Lit [CHR 0x22]]"

definition ioregUtilisation :: re where
  "ioregUtilisation = seq [Lit (CHR 0x22 # ''Device Utilization ''), Alt (Lit ''%'') (Lit ''(%)''), Lit [CHR 0x22],
     Star blank_class, Lit ''='', Star blank_class, Cap 1 (Plus digit_class)]"

text \<open>The reader's state: the service's name, its model, its utilisation (-1 for none) and the GPUs so far.\<close>

record ioreg_state =
  io_service :: string
  io_model :: string
  io_util :: int
  io_gpus :: "gpu_stat list"

definition ioreg_flush :: "ioreg_state \<Rightarrow> ioreg_state" where
  "ioreg_flush st =
     st\<lparr>io_service := '''', io_model := '''', io_util := -1,
        io_gpus := (if io_util st \<ge> 0 then io_gpus st @
            [\<lparr>gs_Index = int (length (io_gpus st)), gs_Name = (if io_model st = '''' then io_service st else io_model st),
              gs_Utilization = io_util st, gs_MemoryUsed = 0, gs_MemoryTotal = 0, gs_Temperature = 0\<rparr>]
          else io_gpus st)\<rparr>"

definition ioreg_line :: "string \<Rightarrow> ioreg_state \<Rightarrow> ioreg_state" where
  "ioreg_line line st =
     (case find_groups ioregServiceHeader line of
        Some g \<Rightarrow> (ioreg_flush st)\<lparr>io_service := g 1\<rparr>
      | None \<Rightarrow>
          (let st = (case find_groups ioregModel line of Some g \<Rightarrow> st\<lparr>io_model := g 1\<rparr> | None \<Rightarrow> st)
           in if \<not> contains line ''erformance'' then st
              else (case find_groups ioregUtilisation line of
                  Some g \<Rightarrow> st\<lparr>io_util := atoiOrZero (g 1)\<rparr>
                | None \<Rightarrow> st)))"

definition ParseIOAcceleratorGPU :: "string \<Rightarrow> gpu_stat list" where
  "ParseIOAcceleratorGPU out =
     io_gpus (ioreg_flush (fold ioreg_line (split_on CHR 0x0A out)
       \<lparr>io_service = '''', io_model = '''', io_util = -1, io_gpus = []\<rparr>))"

section \<open>The processor and the memory\<close>

definition ParseVmstatCPU :: "string \<Rightarrow> float64 option" where
  "ParseVmstatCPU out =
     (let line = trim_space (last (split_on CHR 0x0A (trim_space out))); fs = str_fields line
      in if line = '''' \<or> length fs < 15 then None
         else (case parse_int (fs ! 14) of
             None \<Rightarrow> None
           | Some idl \<Rightarrow> Some (at_least_zero (round64 (of_int (wrap64 (100 - idl)))))))"

definition ParseFreeMemory :: "string \<Rightarrow> memory_stat option" where
  "ParseFreeMemory out =
     (case find (\<lambda>line. prefix ''Mem:'' line) (split_on CHR 0x0A out) of
        None \<Rightarrow> None
      | Some line \<Rightarrow>
          (let fs = str_fields line
           in if length fs < 3 then None
              else (case (parse_int (fs ! 1), parse_int (fs ! 2)) of
                  (Some tot, Some used) \<Rightarrow> Some \<lparr>ms_Total = tot, ms_Used = used\<rparr>
                | _ \<Rightarrow> None)))"

definition topCPULine :: re where
  "topCPULine = seq [Lit ''CPU usage:'', StarLazy (\<lambda>c. c \<noteq> CHR 0x0A), Cap 1 (Plus (\<lambda>c. is_digit c \<or> c = CHR ''.'')), Lit ''% idle'']"

definition ParseTopCPU :: "string \<Rightarrow> float64 option" where
  "ParseTopCPU out =
     (case find_groups topCPULine out of
        None \<Rightarrow> None
      | Some g \<Rightarrow> map_option (\<lambda>v. at_least_zero (minus_from 100 v)) (read_float (g 1)))"

definition vmStatPage :: re where
  "vmStatPage = seq [LineStart False, Lit ''Pages '', Cap 1 (PlusLazy (\<lambda>c. lower_class c \<or> c = CHR '' '')), Lit '':'',
     Plus blank_class, Cap 2 (Plus digit_class), Maybe (Lit ''.''), LineEnd False]"

definition vmStatPageSize :: re where
  "vmStatPageSize = seq [Lit ''page size of '', Cap 1 (Plus digit_class), Lit '' bytes'']"

definition counted :: "string list" where
  "counted = [''active'', ''wired down'', ''occupied by compressor'']"

definition counted_pages :: "string \<Rightarrow> int option" where
  "counted_pages line =
     (case find_groups vmStatPage (trim_space line) of
        None \<Rightarrow> None
      | Some g \<Rightarrow> if g 1 \<in> set counted then parse_int (g 2) else None)"

definition ParseVMStatMemory :: "string \<Rightarrow> string \<Rightarrow> memory_stat option" where
  "ParseVMStatMemory memsize vmStat =
     (case parse_int (trim_space memsize) of
        None \<Rightarrow> None
      | Some tot \<Rightarrow>
          if tot \<le> 0 then None
          else
            (let pageSize = (case find_groups vmStatPageSize vmStat of
                     None \<Rightarrow> 0
                   | Some g \<Rightarrow> (case parse_int (g 1) of Some n \<Rightarrow> n | None \<Rightarrow> 2 ^ 63 - 1));
                 found = List.map_filter counted_pages (split_on CHR 0x0A vmStat);
                 pages = fold (\<lambda>n acc. wrap64 (acc + n)) found 0
             in if pageSize \<le> 0 \<or> found = [] then None
                else Some \<lparr>ms_Total = tot, ms_Used = wrap64 (pages * pageSize)\<rparr>))"

section \<open>The engine's counters\<close>

record engine_spec =
  es_prefix :: string
  es_running :: "string list"
  es_counters :: "string list"
  es_generation :: string
  es_requests :: string

definition engineSpecs :: "(string, engine_spec) gomap" where
  "engineSpecs =
     [(''vllm'', \<lparr>es_prefix = ''vllm'', es_running = [''num_requests_running'', ''num_requests_waiting''],
        es_counters = [''prompt_tokens_total'', ''generation_tokens_total'', ''request_success_total''],
        es_generation = ''generation_tokens_total'', es_requests = ''request_success_total''\<rparr>),
      (''llamacpp'', \<lparr>es_prefix = ''llamacpp'', es_running = [''requests_processing'', ''requests_deferred''],
        es_counters = [''prompt_tokens_total'', ''tokens_predicted_total'', ''n_decode_total''],
        es_generation = ''tokens_predicted_total'', es_requests = ''''\<rparr>)]"

definition labels :: re where
  "labels = Maybe (seq [Lit ''{'', Star (\<lambda>c. c \<noteq> CHR ''}''), Lit ''}''])"

definition value_class :: "char \<Rightarrow> bool" where
  "value_class c \<longleftrightarrow> is_digit c \<or> c \<in> set ''.eE+-''"

definition metricLine :: "string \<Rightarrow> re" where
  "metricLine pre = seq [LineStart False, Lit (pre @ '':''), Cap 1 (Plus (\<lambda>c. lower_class c \<or> c = CHR ''_'')), labels,
     Plus blank_class, Cap 2 (Plus value_class), LineEnd False]"

definition counterLine :: "string \<Rightarrow> string \<Rightarrow> re" where
  "counterLine pre name = seq [LineStart True, Lit (pre @ '':'' @ name), labels, Plus blank_class,
     Cap 1 (Plus value_class), LineEnd True]"

definition extractCounter :: "(float64 \<Rightarrow> int) \<Rightarrow> string \<Rightarrow> engine_spec \<Rightarrow> string \<Rightarrow> int" where
  "extractCounter machine out spec name =
     (case find_groups (counterLine (es_prefix spec) name) out of
        None \<Rightarrow> 0
      | Some g \<Rightarrow> (case read_float (g 1) of None \<Rightarrow> 0 | Some v \<Rightarrow> to_int64 machine v))"

text \<open>One sample: which sum it adds to (the running ones or the counters), and its value.\<close>

definition sample_line :: "engine_spec \<Rightarrow> string \<Rightarrow> (bool \<times> float64) option" where
  "sample_line spec raw =
     (case find_groups (metricLine (es_prefix spec)) (trim_space raw) of
        None \<Rightarrow> None
      | Some g \<Rightarrow>
          (case read_float (g 2) of
             None \<Rightarrow> None
           | Some v \<Rightarrow>
               if g 1 \<in> set (es_running spec) then Some (True, v)
               else if g 1 \<in> set (es_counters spec) then Some (False, v) else None))"

definition sum_of :: "bool \<Rightarrow> (bool \<times> float64) list \<Rightarrow> float64" where
  "sum_of kind samples = fold (\<lambda>(k, v) acc. if k = kind then plus64 acc v else acc) samples (Finite 0)"

definition ParseTokenStats :: "(float64 \<Rightarrow> int) \<Rightarrow> string \<Rightarrow> string \<Rightarrow> token_stats option" where
  "ParseTokenStats machine out engine =
     (case map_of engineSpecs engine of
        None \<Rightarrow> None
      | Some spec \<Rightarrow>
          (let samples = List.map_filter (sample_line spec) (split_on CHR 0x0A out)
           in if samples = [] then None
              else Some \<lparr>tk_Running = to_int64 machine (sum_of True samples), tk_Counter = to_int64 machine (sum_of False samples),
                tk_PromptTokens = extractCounter machine out spec ''prompt_tokens_total'',
                tk_GenerationTokens = extractCounter machine out spec (es_generation spec),
                tk_Requests = (if es_requests spec \<noteq> '''' then Some (extractCounter machine out spec (es_requests spec)) else None)\<rparr>))"

section \<open>The rate\<close>

definition rateLine :: "string \<Rightarrow> re" where
  "rateLine key = seq [WordB, Lit key, Star blank_class, Lit ''='', Star blank_class,
     Cap 1 (Cat (Plus digit_class) (Maybe (Cat (Lit ''.'') (Plus digit_class)))), Star blank_class, Lit ''t/s'']"

definition generationSpeed3s :: re where "generationSpeed3s = rateLine ''tg_3s''"

definition generationSpeed :: re where "generationSpeed = rateLine ''tg''"

definition firstRate :: "string \<Rightarrow> re \<Rightarrow> float64 option" where
  "firstRate line r =
     (case find_groups r line of
        None \<Rightarrow> None
      | Some g \<Rightarrow>
          (case read_float (g 1) of
             Some (Finite x) \<Rightarrow> if x \<le> 0 then None else Some (Finite x)
           | _ \<Rightarrow> None))"

definition ParseGenerationSpeed :: "string \<Rightarrow> float64 option" where
  "ParseGenerationSpeed line =
     (case firstRate line generationSpeed3s of Some v \<Rightarrow> Some v | None \<Rightarrow> firstRate line generationSpeed)"

section \<open>Collecting\<close>

datatype run_error = CommandNotFound string | CommandFails string

definition reportable :: "run_error \<Rightarrow> bool" where
  "reportable e = (case e of CommandNotFound m \<Rightarrow> False | CommandFails m \<Rightarrow> True)"

definition run_error_text :: "run_error \<Rightarrow> string" where
  "run_error_text e = (case e of CommandNotFound m \<Rightarrow> m | CommandFails m \<Rightarrow> m)"

type_synonym runner = "string \<Rightarrow> string list \<Rightarrow> run_error + string"

definition nvidiaSMIArgs :: "string list" where
  "nvidiaSMIArgs = [''--query-gpu=index,name,utilization.gpu,memory.used,memory.total,temperature.gpu'',
     ''--format=csv,noheader,nounits'']"

definition ioregAcceleratorArgs :: "string list" where
  "ioregAcceleratorArgs = [''-rd1'', ''-c'', ''IOAccelerator'', ''-w'', ''0'']"

definition collect_gpus :: "string \<Rightarrow> runner \<Rightarrow> run_error + gpu_stat list" where
  "collect_gpus goos run =
     (if goos = ''darwin'' then map_sum id ParseIOAcceleratorGPU (run ''ioreg'' ioregAcceleratorArgs)
      else if goos = ''linux'' then map_sum id ParseGPUStats (run ''nvidia-smi'' nvidiaSMIArgs)
      else Inr [])"

definition collect_cpu :: "string \<Rightarrow> runner \<Rightarrow> run_error + float64 option" where
  "collect_cpu goos run =
     (if goos = ''darwin'' then map_sum id ParseTopCPU (run ''top'' [''-l'', ''1'', ''-n'', ''0''])
      else map_sum id ParseVmstatCPU (run ''vmstat'' [''1'', ''2'']))"

definition collect_memory :: "string \<Rightarrow> runner \<Rightarrow> run_error + memory_stat option" where
  "collect_memory goos run =
     (if goos = ''darwin'' then
        (case run ''sysctl'' [''-n'', ''hw.memsize''] of
           Inl e \<Rightarrow> Inl e
         | Inr memsize \<Rightarrow> map_sum id (ParseVMStatMemory memsize) (run ''vm_stat'' []))
      else map_sum id ParseFreeMemory (run ''free'' [''-b'']))"

text \<open>What one collection leaves of a figure and of the errors: a missing command leaves neither.\<close>

definition collected :: "string \<Rightarrow> 'a \<Rightarrow> run_error + 'a \<Rightarrow> 'a \<times> string list" where
  "collected what none r =
     (case r of
        Inl e \<Rightarrow> (none, if reportable e then [what @ '': '' @ run_error_text e] else [])
      | Inr v \<Rightarrow> (v, []))"

definition System :: "string \<Rightarrow> runner \<Rightarrow> float64 host_figures" where
  "System goos run =
     (let gpus = collected ''gpu'' [] (collect_gpus goos run);
          cpu = collected ''cpu'' None (collect_cpu goos run);
          mem = collected ''memory'' None (collect_memory goos run)
      in \<lparr>hf_GPUs = fst gpus, hf_CPU = fst cpu, hf_Memory = fst mem, hf_Errors = snd gpus @ snd cpu @ snd mem\<rparr>)"

section \<open>Asking the engine\<close>

datatype scrape_error =
    BadEngineURL string
  | ScrapeFails string
  | ScrapeStatus int
  | NoMetrics string

text \<open>The address below the engine's root: \<open>repath\<close> prints a URL with another path.\<close>

definition trim_suffix :: "string \<Rightarrow> string \<Rightarrow> string" where
  "trim_suffix s suf = (if has_suffix s suf then take (length s - length suf) s else s)"

definition engine_url :: "url_parser \<Rightarrow> (string \<Rightarrow> string \<Rightarrow> string) \<Rightarrow> string \<Rightarrow> string \<Rightarrow> string option" where
  "engine_url parse_url repath base path =
     (let url = trim_suffix base ''/''
      in map_option (\<lambda>u. repath url (trim_suffix (up_Path u) ''/v1'' @ path)) (parse_url url))"

definition ScrapeTokenStats ::
  "(float64 \<Rightarrow> int) \<Rightarrow> url_parser \<Rightarrow> (string \<Rightarrow> string \<Rightarrow> string) \<Rightarrow> (string \<Rightarrow> string option \<Rightarrow> string + int \<times> string) \<Rightarrow>
   scrape_target \<Rightarrow> scrape_error + token_stats" where
  "ScrapeTokenStats machine parse_url repath get target =
     (case engine_url parse_url repath (sc_BaseURL target) ''/metrics'' of
        None \<Rightarrow> Inl (BadEngineURL (sc_BaseURL target))
      | Some url \<Rightarrow>
          (case get url (if sc_APIKey target \<noteq> '''' then Some (''Bearer '' @ sc_APIKey target) else None) of
             Inl e \<Rightarrow> Inl (ScrapeFails e)
           | Inr (status, body) \<Rightarrow>
               if status \<noteq> 200 then Inl (ScrapeStatus status)
               else (case ParseTokenStats machine (take (2 ^ 20) body) (sc_Engine target) of
                   None \<Rightarrow> Inl (NoMetrics (sc_Engine target))
                 | Some tokens \<Rightarrow> Inr tokens)))"

definition CheckEngineReady ::
  "url_parser \<Rightarrow> (string \<Rightarrow> string \<Rightarrow> string) \<Rightarrow> (string \<Rightarrow> string option \<Rightarrow> string + int \<times> string) \<Rightarrow> scrape_target \<Rightarrow> bool" where
  "CheckEngineReady parse_url repath get target =
     (case engine_url parse_url repath (sc_BaseURL target) ''/health'' of
        None \<Rightarrow> False
      | Some url \<Rightarrow> (case get url None of Inl e \<Rightarrow> False | Inr (status, body) \<Rightarrow> status = 200 \<or> status = 401))"

section \<open>A rate that is reported stands on the line\<close>

text \<open>A decimal figure: digits, and a point with digits after it where there is one.\<close>

definition decimal :: "string \<Rightarrow> bool" where
  "decimal n \<longleftrightarrow> (\<exists>a b. a \<noteq> [] \<and> list_all is_digit a \<and> (n = a \<or> b \<noteq> [] \<and> list_all is_digit b \<and> n = a @ ''.'' @ b))"

text \<open>The line has the key, an equals sign, the figure and the unit in this order, with only blanks between.\<close>

definition states_rate :: "string \<Rightarrow> string \<Rightarrow> string \<Rightarrow> bool" where
  "states_rate key line n \<longleftrightarrow> decimal n \<and>
     (\<exists>u b1 b2 b3 v. line = u @ key @ b1 @ ''='' @ b2 @ n @ b3 @ ''t/s'' @ v \<and> list_all blank_class (b1 @ b2 @ b3))"

lemma reads_Plus: "reads (Plus p) w cs \<longleftrightarrow> w \<noteq> [] \<and> list_all p w \<and> cs = []"
proof
  assume "reads (Plus p) w cs"
  then show "w \<noteq> [] \<and> list_all p w \<and> cs = []" by (auto simp: Plus_def)
next
  assume "w \<noteq> [] \<and> list_all p w \<and> cs = []"
  then obtain c v where w: "w = [c] @ v" "p c" "list_all p v" "cs = [] @ []" by (cases w) auto
  show "reads (Plus p) w cs"
    unfolding w Plus_def by (intro reads_Cat reads_Cls reads_Repeat) (use w in simp_all)
qed

lemma reads_figure:
  "reads (Cat (Plus digit_class) (Maybe (Cat (Lit ''.'') (Plus digit_class)))) w cs \<Longrightarrow> decimal w \<and> cs = []"
  by (auto simp: reads_Plus decimal_def digit_class_def [abs_def] simp del: append_assoc)

lemma reads_rateLine:
  assumes "reads (rateLine key) w cs"
  shows "\<exists>b1 b2 n b3. w = key @ b1 @ ''='' @ b2 @ n @ b3 @ ''t/s'' \<and> list_all blank_class (b1 @ b2 @ b3) \<and> decimal n \<and> cs = [(1, n)]"
proof -
  from assms obtain b1 b2 n b3 ds where w: "w = key @ b1 @ ''='' @ b2 @ n @ b3 @ ''t/s''"
    and b: "list_all blank_class b1" "list_all blank_class b2" "list_all blank_class b3"
    and n: "reads (Cat (Plus digit_class) (Maybe (Cat (Lit ''.'') (Plus digit_class)))) n ds" and cs: "cs = [(1, n)] @ ds"
    unfolding rateLine_def seq.simps by (fastforce simp del: reads_simps(5))
  from reads_figure [OF n] show ?thesis using w b cs
    by (intro exI [of _ b1] exI [of _ b2] exI [of _ n] exI [of _ b3] conjI) auto
qed

lemma firstRate_states:
  assumes "firstRate line (rateLine key) = Some v"
  shows "\<exists>n x. v = Finite x \<and> 0 < x \<and> read_float n = Some v \<and> states_rate key line n"
proof -
  from assms obtain caps x where s: "search (rateLine key) None line = Some caps"
    and v: "v = Finite x" "0 < x" "read_float (get_or '''' (map_of caps) 1) = Some v"
    by (auto simp: firstRate_def find_groups_def split: option.splits float64.splits if_splits)
  from search_reads [OF s] obtain u w t where line: "line = u @ w @ t" and r: "reads (rateLine key) w caps" by blast
  from reads_rateLine [OF r] obtain b1 b2 n b3 where w: "w = key @ b1 @ ''='' @ b2 @ n @ b3 @ ''t/s''"
    "list_all blank_class (b1 @ b2 @ b3)" "decimal n" "caps = [(1, n)]" by blast
  have "line = u @ key @ b1 @ ''='' @ b2 @ n @ b3 @ ''t/s'' @ t" by (simp add: line w(1))
  then have "states_rate key line n" unfolding states_rate_def using w(2,3) by blast
  moreover have "read_float n = Some v" using v(3) w(4) by simp
  ultimately show ?thesis using v(1,2) by blast
qed

text \<open>
  A rate that is reported is finite, positive and what the line states, under the three-second key or under
  the plain one. Under the plain key the figure follows the letters, blanks and the sign: the three-second
  figure is never read for it.
\<close>

theorem speed_stated:
  assumes "ParseGenerationSpeed line = Some v"
  shows "\<exists>key n x. v = Finite x \<and> 0 < x \<and> read_float n = Some v \<and> key \<in> {''tg_3s'', ''tg''} \<and> states_rate key line n \<and>
    (firstRate line generationSpeed3s \<noteq> None \<longrightarrow> key = ''tg_3s'')"
proof (cases "firstRate line generationSpeed3s")
  case None
  then have "firstRate line (rateLine ''tg'') = Some v"
    using assms by (simp add: ParseGenerationSpeed_def generationSpeed_def)
  from firstRate_states [OF this] show ?thesis using None by blast
next
  case (Some w)
  then have "firstRate line (rateLine ''tg_3s'') = Some v"
    using assms by (simp add: ParseGenerationSpeed_def generationSpeed3s_def)
  from firstRate_states [OF this] show ?thesis by blast
qed

section \<open>A host that has not every source\<close>

text \<open>
  Each figure is collected on its own: one whose command failed is absent and is named among the errors,
  in the order of the figures; one whose command is not installed is absent and is no error; the others
  are reported all the same.
\<close>

theorem System_partial:
  "hf_GPUs (System goos run) = (case collect_gpus goos run of Inr gpus \<Rightarrow> gpus | Inl e \<Rightarrow> []) \<and>
   hf_CPU (System goos run) = (case collect_cpu goos run of Inr cpu \<Rightarrow> cpu | Inl e \<Rightarrow> None) \<and>
   hf_Memory (System goos run) = (case collect_memory goos run of Inr mem \<Rightarrow> mem | Inl e \<Rightarrow> None) \<and>
   hf_Errors (System goos run) =
     (case collect_gpus goos run of Inl (CommandFails m) \<Rightarrow> [''gpu: '' @ m] | _ \<Rightarrow> []) @
     (case collect_cpu goos run of Inl (CommandFails m) \<Rightarrow> [''cpu: '' @ m] | _ \<Rightarrow> []) @
     (case collect_memory goos run of Inl (CommandFails m) \<Rightarrow> [''memory: '' @ m] | _ \<Rightarrow> [])"
proof -
  have absent: "fst (collected what none r) = (case r of Inr v \<Rightarrow> v | Inl e \<Rightarrow> none)" for what none and r :: "run_error + 'z"
    by (simp add: collected_def split: sum.split)
  have errors: "snd (collected what none r) = (case r of Inl (CommandFails m) \<Rightarrow> [what @ '': '' @ m] | _ \<Rightarrow> [])"
    for what none and r :: "run_error + 'z"
    by (simp add: collected_def reportable_def run_error_text_def split: sum.split run_error.split)
  have names: "''gpu'' @ '': '' = ''gpu: ''" "''cpu'' @ '': '' = ''cpu: ''" "''memory'' @ '': '' = ''memory: ''" by simp_all
  show ?thesis unfolding System_def Let_def host_figures.simps absent errors append_assoc [symmetric] names by simp
qed

theorem speed_stated_witness:
  "ParseGenerationSpeed ''id 0, tg = 3.5 t/s'' = Some (Finite (7 / 2)) \<and>
   (\<exists>key n x. Finite (7 / 2) = Finite x \<and> 0 < x \<and> read_float n = Some (Finite (7 / 2)) \<and> key \<in> {''tg_3s'', ''tg''} \<and>
     states_rate key ''id 0, tg = 3.5 t/s'' n \<and>
     (firstRate ''id 0, tg = 3.5 t/s'' generationSpeed3s \<noteq> None \<longrightarrow> key = ''tg_3s''))"
proof -
  have "ParseGenerationSpeed ''id 0, tg = 3.5 t/s'' = Some (Finite (7 / 2))" by code_simp
  from this speed_stated [OF this] show ?thesis by blast
qed

section \<open>Series of one counter\<close>

text \<open>
  Where an engine reports a counter in several series, one for each set of labels, the sum of the counters
  takes all of them and the figure read by name only the first.
\<close>

definition two_series :: string where
  "two_series = ''vllm:request_success_total{r} 3'' @ [CHR 0x0A] @ ''vllm:request_success_total{s} 4''"

lemma requests_of_first_series:
  "map_option (\<lambda>spec. extractCounter (\<lambda>_. 0) two_series spec (es_requests spec)) (map_of engineSpecs ''vllm'') = Some 3"
  by code_simp

end
