(* ===== verification/ProgramConfig.thy ===== *)
theory ProgramConfig
  imports Harness
begin

text \<open>
  \<^verbatim>\<open>internal/config/config.go\<close>: the program's own configuration file, with the preferred harness and the
  aliases of Spinloops, read and rewritten as a whole. A field the program does not know is kept. Two
  fields that are both refused are reported in the order harness, aliases.
\<close>

section \<open>Where it is\<close>

definition Dir :: "(string \<Rightarrow> string) \<Rightarrow> string + string \<Rightarrow> config_error + string" where
  "Dir getenv home =
     (if getenv ''SPINLOOP_CONFIG_DIR'' \<noteq> '''' then Inr (getenv ''SPINLOOP_CONFIG_DIR'')
      else if getenv ''XDG_CONFIG_HOME'' \<noteq> '''' then Inr (path_join [getenv ''XDG_CONFIG_HOME'', ''spinloop''])
      else (case home of
          Inl e \<Rightarrow> Inl (NoHome e)
        | Inr h \<Rightarrow> if h = '''' then Inl (NoHome '''') else Inr (path_join [h, ''.config'', ''spinloop''])))"

definition Path :: "(string \<Rightarrow> string) \<Rightarrow> string + string \<Rightarrow> config_error + string" where
  "Path getenv home = map_sum id (\<lambda>dir. path_join [dir, ''config.json'']) (Dir getenv home)"

section \<open>The document\<close>

record program_file =
  pf_Harness :: string
  pf_Aliases :: "(string, string) gomap"
  pf_extra :: json_object

definition own_key :: "string \<Rightarrow> bool" where
  "own_key k \<longleftrightarrow> k \<in> {''harness'', ''aliases''}"

definition program_read :: "json_object \<Rightarrow> config_error + program_file" where
  "program_read doc =
     (case (case map_of doc ''harness'' of None \<Rightarrow> Some '''' | Some v \<Rightarrow> decode_string '''' v) of
        None \<Rightarrow> Inl (ParsingConfig ''harness'')
      | Some h \<Rightarrow>
          (case (case map_of doc ''aliases'' of None \<Rightarrow> Some [] | Some v \<Rightarrow> decode_map '''' decode_string [] v) of
             None \<Rightarrow> Inl (ParsingConfig ''aliases'')
           | Some aliases \<Rightarrow>
               Inr \<lparr>pf_Harness = h, pf_Aliases = aliases, pf_extra = filter (\<lambda>(k, v). \<not> own_key k) doc\<rparr>))"

definition program_load :: "config_error + string \<Rightarrow> doc_file \<Rightarrow> config_error + program_file" where
  "program_load path f =
     (case path of
        Inl e \<Rightarrow> Inl e
      | Inr p \<Rightarrow> (case load_doc f of Inl e \<Rightarrow> Inl e | Inr doc \<Rightarrow> program_read doc))"

definition config_field :: "string \<Rightarrow> json \<Rightarrow> bool \<Rightarrow> json_object \<Rightarrow> json_object" where
  "config_field k v keep doc = (if keep then AList.update k v doc else AList.delete k doc)"

definition aliases_json :: "(string, string) gomap \<Rightarrow> json" where
  "aliases_json aliases = JObject (map (\<lambda>(k, v). (k, JString v)) aliases)"

definition program_doc :: "program_file \<Rightarrow> json_object" where
  "program_doc pf =
     config_field ''aliases'' (aliases_json (pf_Aliases pf)) (pf_Aliases pf \<noteq> [])
       (config_field ''harness'' (JString (pf_Harness pf)) (pf_Harness pf \<noteq> '''') (pf_extra pf))"

text \<open>The file is written with its mode, no call changes it afterwards.\<close>

definition program_save :: "config_error + string \<Rightarrow> disk \<Rightarrow> program_file \<Rightarrow> doc_file \<Rightarrow> doc_file \<times> config_error option" where
  "program_save path d pf f =
     (case path of
        Inl e \<Rightarrow> (f, Some e)
      | Inr p \<Rightarrow> write_doc (case d of ChmodFails e \<Rightarrow> DiskOK | _ \<Rightarrow> d) (program_doc pf) f)"

definition program_update ::
  "config_error + string \<Rightarrow> disk \<Rightarrow> (program_file \<Rightarrow> config_error + program_file) \<Rightarrow> doc_file \<Rightarrow>
   doc_file \<times> config_error option" where
  "program_update path d mutate f =
     (case program_load path f of
        Inl e \<Rightarrow> (f, Some e)
      | Inr pf \<Rightarrow>
          (case mutate pf of
             Inl e \<Rightarrow> (f, Some e)
           | Inr pf' \<Rightarrow> program_save path d pf' f))"

section \<open>Aliases\<close>

definition Alias :: "program_file \<Rightarrow> string \<Rightarrow> string option" where
  "Alias pf name = map_of (pf_Aliases pf) name"

definition SetAlias :: "string \<Rightarrow> string \<Rightarrow> program_file \<Rightarrow> program_file" where
  "SetAlias name path pf = pf\<lparr>pf_Aliases := AList.update name path (pf_Aliases pf)\<rparr>"

definition RemoveAlias :: "string \<Rightarrow> program_file \<Rightarrow> program_file \<times> bool" where
  "RemoveAlias name pf =
     (if map_of (pf_Aliases pf) name = None then (pf, False)
      else (pf\<lparr>pf_Aliases := AList.delete name (pf_Aliases pf)\<rparr>, True))"

definition AliasNames :: "program_file \<Rightarrow> string list" where
  "AliasNames pf = sort (map fst (pf_Aliases pf))"

datatype alias_fault = EmptyAlias | AliasHasSeparator | AliasIsPath | AliasIsFlag | AliasHasBlank

definition ValidAliasName :: "string \<Rightarrow> alias_fault option" where
  "ValidAliasName name =
     (if name = '''' then Some EmptyAlias
      else if contains_any name [CHR ''/'', CHR 0x5C] then Some AliasHasSeparator
      else if name = ''.'' \<or> name = ''..'' then Some AliasIsPath
      else if prefix ''-'' name then Some AliasIsFlag
      else if list_ex is_space name then Some AliasHasBlank
      else None)"

definition NameShaped :: "string \<Rightarrow> bool" where
  "NameShaped s \<longleftrightarrow> ValidAliasName s = None"

definition LoadPreference :: "config_error + string \<Rightarrow> doc_file \<Rightarrow> config_error + string" where
  "LoadPreference path f = map_sum id pf_Harness (program_load path f)"

text \<open>A name that is no harness's is refused with the name.\<close>

definition SavePreference ::
  "config_error + string \<Rightarrow> disk \<Rightarrow> string \<Rightarrow> doc_file \<Rightarrow> doc_file \<times> (string + config_error) option" where
  "SavePreference path d name f =
     (if Lookup name = None then (f, Some (Inl name))
      else (case program_update path d (\<lambda>pf. Inr (pf\<lparr>pf_Harness := name\<rparr>)) f of
          (f', e) \<Rightarrow> (f', map_option Inr e)))"

section \<open>What is written is read back\<close>

definition program_ok :: "program_file \<Rightarrow> bool" where
  "program_ok pf \<longleftrightarrow> keys_distinct (pf_Aliases pf) \<and> json_ok (JObject (pf_extra pf)) \<and>
     list_all (\<lambda>(k, v). \<not> own_key k) (pf_extra pf)"

lemma decode_aliases:
  "keys_distinct (out @ aliases) \<Longrightarrow>
   decode_entries '''' decode_string out (map (\<lambda>(k, v). (k, JString v)) aliases) = Some (out @ aliases)"
proof (induction aliases arbitrary: out)
  case (Cons a aliases)
  obtain k v where a: "a = (k, v)" by (cases a)
  have "map_of out k = None" using Cons.prems by (auto simp: a keys_distinct_def map_of_eq_None_iff)
  then have "AList.update k v out = out @ [(k, v)]" by (rule update_new)
  with Cons.IH [of "out @ [(k, v)]"] Cons.prems show ?case by (simp add: a decode_string_def)
qed simp

lemma no_own_key: "list_all (\<lambda>(k, v). \<not> own_key k) m \<Longrightarrow> own_key k \<Longrightarrow> map_of m k = None"
  by (auto simp: map_of_eq_None_iff list_all_iff)

lemma program_read_doc:
  assumes "program_ok pf"
  shows "program_read (program_doc pf) = Inr pf"
proof -
  have x: "map_of (pf_extra pf) ''harness'' = None" "map_of (pf_extra pf) ''aliases'' = None"
    using assms no_own_key [of "pf_extra pf"] by (simp_all add: program_ok_def own_key_def)
  have e: "filter (\<lambda>(k, v). \<not> own_key k) (pf_extra pf) = pf_extra pf"
    using assms by (simp add: program_ok_def list_all_iff filter_id_conv)
  let ?h = "if pf_Harness pf \<noteq> '''' then [(''harness'', JString (pf_Harness pf))] else []"
  let ?a = "if pf_Aliases pf \<noteq> [] then [(''aliases'', aliases_json (pf_Aliases pf))] else []"
  have "config_field ''harness'' (JString (pf_Harness pf)) (pf_Harness pf \<noteq> '''') (pf_extra pf) = pf_extra pf @ ?h"
    using x(1) by (auto simp: config_field_def update_new delete_absent)
  moreover have "map_of (pf_extra pf @ ?h) ''aliases'' = None" using x(2) by (simp add: map_add_def)
  ultimately have doc: "program_doc pf = pf_extra pf @ ?h @ ?a"
    by (auto simp: program_doc_def config_field_def update_new delete_absent)
  have "map_of (program_doc pf) ''harness'' = map_of ?h ''harness''" "map_of (program_doc pf) ''aliases'' = map_of ?a ''aliases''"
    unfolding doc using x by (auto simp: map_add_def split: option.split)
  moreover have "filter (\<lambda>(k, v). \<not> own_key k) (program_doc pf) = pf_extra pf"
    unfolding doc using e by (simp add: own_key_def)
  moreover have "decode_map '''' decode_string [] (aliases_json (pf_Aliases pf)) = Some (pf_Aliases pf)"
    using decode_aliases [of "[]" "pf_Aliases pf"] assms by (simp add: decode_map_def aliases_json_def program_ok_def)
  ultimately show ?thesis by (auto simp: program_read_def decode_string_def)
qed

lemma decode_entries_distinct: "keys_distinct out \<Longrightarrow> decode_entries z f out m = Some out' \<Longrightarrow> keys_distinct out'"
  by (induction z f out m rule: decode_entries.induct) (auto split: option.splits)

lemma program_read_ok:
  assumes "json_ok (JObject doc)" and "program_read doc = Inr pf"
  shows "program_ok pf"
proof -
  have "keys_distinct (pf_Aliases pf)"
    using assms(2) decode_entries_distinct [of "[]" "''''" decode_string]
    by (auto simp: program_read_def decode_map_def split: option.splits json.splits)
  moreover have "pf_extra pf = filter (\<lambda>(k, v). \<not> own_key k) doc"
    using assms(2) by (auto simp: program_read_def split: option.splits)
  moreover have "keys_distinct (filter P m)" if "keys_distinct m" for P and m :: json_object using that by simp
  ultimately show ?thesis using assms(1) by (auto simp: program_ok_def list_all_iff)
qed

lemma program_load_ok: "doc_ok f \<Longrightarrow> program_load path f = Inr pf \<Longrightarrow> program_ok pf"
  by (auto simp: program_load_def split: sum.splits dest: load_doc_ok program_read_ok)

lemma program_doc_ok:
  assumes "program_ok pf"
  shows "json_ok (JObject (program_doc pf))"
proof -
  have "json_ok (aliases_json (pf_Aliases pf))"
    using assms by (auto simp: aliases_json_def program_ok_def keys_distinct_def list_all_iff comp_def case_prod_beta)
  moreover have "json_ok (JString s)" for s by simp
  ultimately show ?thesis
    using assms unfolding program_doc_def config_field_def program_ok_def by (auto intro: json_ok_update json_ok_delete simp del: json_ok.simps)
qed

text \<open>
  An update that succeeds leaves a well-formed file that reads as what the change made of the one before;
  one that fails leaves the file as it was, unless it was the write itself that failed.
\<close>

theorem program_update_spec:
  assumes "doc_ok f" and "\<forall>pf pf'. program_ok pf \<longrightarrow> mutate pf = Inr pf' \<longrightarrow> program_ok pf'"
    and "program_update path d mutate f = (f', e)"
  shows "doc_ok f' \<and>
    (e = None \<longrightarrow> (\<exists>pf pf'. program_load path f = Inr pf \<and> mutate pf = Inr pf' \<and> program_load path f' = Inr pf')) \<and>
    (e \<noteq> None \<longrightarrow> f' = f \<or> (\<exists>w. d = WriteFails w))"
proof (cases "program_load path f")
  case (Inl er)
  then have "f' = f" "e = Some er" using assms(3) by (simp_all add: program_update_def)
  then show ?thesis using assms(1) by simp
next
  case (Inr pf)
  then have ok: "program_ok pf" using assms(1) program_load_ok by blast
  show ?thesis
  proof (cases "mutate pf")
    case (Inl er)
    then have "f' = f" "e = Some er" using assms(3) \<open>program_load path f = Inr pf\<close> by (simp_all add: program_update_def)
    then show ?thesis using assms(1) by simp
  next
    case (Inr pf')
    then have ok': "program_ok pf'" using assms(2) ok by blast
    obtain p where p: "path = Inr p" using \<open>program_load path f = Inr pf\<close> by (cases path) (simp_all add: program_load_def)
    have s: "program_save path d pf' f = (f', e)"
      using assms(3) Inr \<open>program_load path f = Inr pf\<close> by (simp add: program_update_def)
    have r: "program_load path (JsonText (JObject (program_doc pf'))) = Inr pf'"
      by (simp add: program_load_def p load_doc_def program_read_doc [OF ok'])
    have "doc_ok (JsonText (JObject (program_doc pf')))" unfolding doc_ok_def using program_doc_ok [OF ok'] by simp
    moreover have "doc_ok (BadText t)" for t by (simp add: doc_ok_def)
    ultimately show ?thesis using s r assms(1) Inr \<open>program_load path f = Inr pf\<close>
      by (cases d) (auto simp: program_save_def p write_doc_def)
  qed
qed

lemma program_ok_Harness [simp]: "program_ok (pf\<lparr>pf_Harness := h\<rparr>) = program_ok pf"
  by (simp add: program_ok_def)

lemma program_ok_SetAlias [simp]: "program_ok pf \<Longrightarrow> program_ok (SetAlias name path pf)"
  by (simp add: program_ok_def SetAlias_def)

lemma program_ok_RemoveAlias [simp]: "program_ok pf \<Longrightarrow> program_ok (fst (RemoveAlias name pf))"
  by (simp add: program_ok_def RemoveAlias_def)

section \<open>The settings apart\<close>

text \<open>
  Storing the preferred harness and registering an alias, in this order, lose nothing of each other or of
  the file: the alias is found, every other alias is what it was, fields the program does not know stay, and
  with no flag and no variable the stored harness is the one that is used.
\<close>

theorem settings_apart:
  assumes "doc_ok f" and "program_load path f = Inr pf"
    and "SavePreference path d name f = (f1, None)"
    and "program_update path d (\<lambda>pf. Inr (SetAlias alias target pf)) f1 = (f2, None)"
  shows "\<exists>pf2 hn. program_load path f2 = Inr pf2 \<and> Alias pf2 alias = Some target \<and>
    (\<forall>a. a \<noteq> alias \<longrightarrow> Alias pf2 a = Alias pf a) \<and> pf_extra pf2 = pf_extra pf \<and>
    harness_name hn = name \<and> resolve_harness '''' '''' (map_sum (\<lambda>_. '''') id (LoadPreference path f2)) = Inr (hn, FromPreference)"
proof -
  have look: "Lookup name \<noteq> None" using assms(3) by (auto simp: SavePreference_def split: if_splits)
  then obtain hn where hn: "Lookup name = Some hn" "harness_name hn = name"
    by (auto simp: Lookup_def registry_def split: if_splits)
  have u: "program_update path d (\<lambda>pf. Inr (pf\<lparr>pf_Harness := name\<rparr>)) f = (f1, None)"
    using assms(3) look by (auto simp: SavePreference_def split: prod.splits)
  obtain pf1 where f1: "doc_ok f1" "program_load path f1 = Inr (pf\<lparr>pf_Harness := name\<rparr>)"
    using program_update_spec [OF assms(1) _ u] assms(2) by auto
  have f2: "program_load path f2 = Inr (SetAlias alias target (pf\<lparr>pf_Harness := name\<rparr>))"
    using program_update_spec [OF f1(1) _ assms(4)] f1(2) by auto
  have "name \<noteq> ''''" using hn(2) by (cases hn) auto
  then have "resolve_harness '''' '''' (map_sum (\<lambda>_. '''') id (LoadPreference path f2)) = Inr (hn, FromPreference)"
    using hn(1) by (simp add: resolve_harness_def harness_choice_def LoadPreference_def f2 SetAlias_def)
  then show ?thesis using f2 hn(2)
    by (intro exI [of _ "SetAlias alias target (pf\<lparr>pf_Harness := name\<rparr>)"] exI [of _ hn]) (simp add: Alias_def SetAlias_def)
qed

definition demo_program :: doc_file where
  "demo_program = JsonText (JObject [(''theme'', JString ''dark''), (''harness'', JString ''pi'')])"

definition demo_program_file :: program_file where
  "demo_program_file = \<lparr>pf_Harness = ''pi'', pf_Aliases = [], pf_extra = [(''theme'', JString ''dark'')]\<rparr>"

lemma demo_program_facts:
  "doc_ok demo_program" "program_load (Inr ''config.json'') demo_program = Inr demo_program_file"
  by code_simp+

theorem program_update_spec_witness:
  "doc_ok (JsonText (JObject (program_doc (SetAlias ''qwen'' ''/srv/Spinloop'' demo_program_file))))"
proof -
  have "program_update (Inr ''config.json'') DiskOK (\<lambda>pf. Inr (SetAlias ''qwen'' ''/srv/Spinloop'' pf)) demo_program =
      (JsonText (JObject (program_doc (SetAlias ''qwen'' ''/srv/Spinloop'' demo_program_file))), None)"
    by (simp add: program_update_def demo_program_facts program_save_def write_doc_def)
  from program_update_spec [OF demo_program_facts(1) _ this] show ?thesis by simp
qed

theorem settings_apart_witness:
  "\<exists>pf2. program_load (Inr ''config.json'') (JsonText (JObject (program_doc (SetAlias ''qwen'' ''/srv/Spinloop''
      (demo_program_file\<lparr>pf_Harness := ''opencode''\<rparr>))))) = Inr pf2 \<and> pf_extra pf2 = [(''theme'', JString ''dark'')]"
proof -
  let ?f1 = "JsonText (JObject (program_doc (demo_program_file\<lparr>pf_Harness := ''opencode''\<rparr>)))"
  have 1: "SavePreference (Inr ''config.json'') DiskOK ''opencode'' demo_program = (?f1, None)"
    by (simp add: SavePreference_def Lookup_def registry_def program_update_def demo_program_facts program_save_def write_doc_def)
  have "program_load (Inr ''config.json'') ?f1 = Inr (demo_program_file\<lparr>pf_Harness := ''opencode''\<rparr>)" by code_simp
  then have 2: "program_update (Inr ''config.json'') DiskOK (\<lambda>pf. Inr (SetAlias ''qwen'' ''/srv/Spinloop'' pf)) ?f1 =
      (JsonText (JObject (program_doc (SetAlias ''qwen'' ''/srv/Spinloop'' (demo_program_file\<lparr>pf_Harness := ''opencode''\<rparr>)))), None)"
    by (simp add: program_update_def program_save_def write_doc_def)
  from settings_apart [OF demo_program_facts 1 2] show ?thesis by (auto simp: demo_program_file_def)
qed

end
