(* ===== verification/Paths.thy ===== *)
theory Paths
  imports GoStrings
begin

text \<open>
  The elements of a cleaned path: what \<^verbatim>\<open>filepath.Clean\<close> and \<^verbatim>\<open>filepath.Join\<close> keep of one, and when one path
  is below another.
\<close>

section \<open>Elements\<close>

definition path_elems :: "string \<Rightarrow> string list" where
  "path_elems p = clean_elems (is_abs p) [] (split_on CHR ''/'' p)"

lemma split_join:
  "es \<noteq> [] \<Longrightarrow> \<forall>e \<in> set es. c \<notin> set e \<Longrightarrow> split_on c (join_with [c] es) = es"
proof (induction es)
  case (Cons e es)
  show ?case
  proof (cases "es = []")
    case False
    then have "join_with [c] (e # es) = e @ c # join_with [c] es" by (cases es) simp_all
    moreover have "split_on c (join_with [c] es) = es" using Cons.IH Cons.prems(2) False by simp
    moreover have "c \<notin> set e" using Cons.prems(2) by simp
    ultimately show ?thesis using split_on_append [of c e "join_with [c] es"] by simp
  qed (use Cons.prems in simp)
qed simp

lemma join_inj:
  assumes "join_with [c] es = join_with [c] fs" "es \<noteq> []" "fs \<noteq> []"
    and "\<forall>e \<in> set es. c \<notin> set e" "\<forall>e \<in> set fs. c \<notin> set e"
  shows "es = fs"
proof -
  have "es = split_on c (join_with [c] es)" by (rule split_join [OF assms(2,4), symmetric])
  also have "\<dots> = split_on c (join_with [c] fs)" by (simp only: assms(1))
  also have "\<dots> = fs" by (rule split_join [OF assms(3,5)])
  finally show ?thesis .
qed

text \<open>What cleaning leaves: no empty element, no dot, no separator; two dots only at the front of a relative path.\<close>

definition kept_elem :: "string \<Rightarrow> bool" where
  "kept_elem e \<longleftrightarrow> e \<noteq> '''' \<and> e \<noteq> ''.'' \<and> CHR ''/'' \<notin> set e"

lemma clean_elems_kept:
  "list_all kept_elem acc \<Longrightarrow> \<forall>e \<in> set es. CHR ''/'' \<notin> set e \<Longrightarrow> list_all kept_elem (clean_elems rooted acc es)"
proof (induction es arbitrary: acc)
  case (Cons e es)
  have up: "kept_elem ''..''" by (simp add: kept_elem_def)
  have e: "kept_elem e" if "e \<noteq> ''''" "e \<noteq> ''.''" using that Cons.prems(2) by (simp add: kept_elem_def)
  have IH: "list_all kept_elem (clean_elems rooted a es)" if "list_all kept_elem a" for a
    using Cons.IH [OF that] Cons.prems(2) by simp
  show ?case
  proof (cases acc)
    case Nil
    then show ?thesis using IH [of "[]"] IH [of "[e]"] e up by auto
  next
    case (Cons a acc')
    then show ?thesis using IH [of acc] IH [of acc'] IH [of "e # acc"] e up \<open>list_all kept_elem acc\<close> by auto
  qed
qed simp

lemma clean_elems_rooted:
  "list_all plain_elem acc \<Longrightarrow> \<forall>e \<in> set es. CHR ''/'' \<notin> set e \<Longrightarrow> list_all plain_elem (clean_elems True acc es)"
proof (induction es arbitrary: acc)
  case (Cons e es)
  have e: "plain_elem e" if "e \<noteq> ''''" "e \<noteq> ''.''" "e \<noteq> ''..''" using that Cons.prems(2) by (simp add: plain_elem_def)
  have IH: "list_all plain_elem (clean_elems True a es)" if "list_all plain_elem a" for a
    using Cons.IH [OF that] Cons.prems(2) by simp
  show ?case
  proof (cases acc)
    case Nil
    then show ?thesis using IH [of "[]"] IH [of "[e]"] e by simp
  next
    case (Cons a acc')
    then have "a \<noteq> ''..''" using \<open>list_all plain_elem acc\<close> by (simp add: plain_elem_def)
    with Cons show ?thesis using IH [of acc] IH [of acc'] IH [of "e # acc"] e \<open>list_all plain_elem acc\<close> by simp
  qed
qed simp

lemma path_elems_kept: "list_all kept_elem (path_elems p)"
  unfolding path_elems_def by (rule clean_elems_kept) (auto dest: split_on_no_sep)

lemma path_elems_plain: "is_abs p \<Longrightarrow> list_all plain_elem (path_elems p)"
  unfolding path_elems_def using clean_elems_rooted [of "[]" "split_on CHR ''/'' p"] by (auto dest: split_on_no_sep)

lemma path_clean_elems:
  "path_clean p = (if is_abs p then CHR ''/'' # join_with ''/'' (path_elems p)
     else if path_elems p = [] then ''.'' else join_with ''/'' (path_elems p))"
proof -
  have "join_with ''/'' (path_elems p) \<noteq> []" if ne: "path_elems p \<noteq> []"
  proof -
    obtain e es where e: "path_elems p = e # es" using ne by (cases "path_elems p") simp_all
    then have "e \<noteq> ''''" using path_elems_kept [of p] by (simp add: kept_elem_def)
    then show ?thesis unfolding e by (cases es) (auto simp: join_with_Cons_cons)
  qed
  moreover have "path_elems p = [] \<Longrightarrow> join_with ''/'' (path_elems p) = []" by simp
  ultimately show ?thesis unfolding path_clean_def path_elems_def [symmetric] Let_def by (cases "path_elems p = []") simp_all
qed

lemma is_abs_clean [simp]: "is_abs (path_clean p) = is_abs p"
proof (cases "is_abs p")
  case False
  have "\<not> is_abs (join_with ''/'' (path_elems p))" if ne: "path_elems p \<noteq> []"
  proof -
    obtain e es where e: "path_elems p = e # es" using ne by (cases "path_elems p") simp_all
    then have "e \<noteq> ''''" "CHR ''/'' \<notin> set e" using path_elems_kept [of p] by (auto simp: kept_elem_def)
    then obtain c s where "e = c # s" "c \<noteq> CHR ''/''" by (cases e) auto
    then show ?thesis unfolding e by (cases es) (auto simp: is_abs_def join_with_Cons_cons)
  qed
  with False show ?thesis by (auto simp: path_clean_elems is_abs_def)
qed (simp add: path_clean_elems is_abs_def)

section \<open>Below a directory\<close>

lemma split_on_two: "split_on c (d @ c # s) = split_on c d @ split_on c s"
proof (induction d)
  case (Cons x d)
  obtain p ps where "split_on c d = p # ps" by (cases "split_on c d") auto
  with Cons show ?case by simp
qed simp

lemma path_join_elem:
  assumes "d \<noteq> ''''" and "plain_elem e"
  shows "path_join [d, e] = path_clean (d @ ''/'' @ e)" "path_elems (d @ ''/'' @ e) = path_elems d @ [e]"
    "is_abs (d @ ''/'' @ e) = is_abs d"
proof -
  have a: "is_abs (d @ ''/'' @ e) = is_abs d" using assms(1) by (cases d) (simp_all add: is_abs_def)
  show "is_abs (d @ ''/'' @ e) = is_abs d" by (rule a)
  show "path_join [d, e] = path_clean (d @ ''/'' @ e)" using assms by (simp add: path_join_def plain_elem_def)
  show "path_elems (d @ ''/'' @ e) = path_elems d @ [e]"
    unfolding path_elems_def a using assms(2) by (simp add: split_on_two clean_elems_snoc)
qed

lemma path_join_inj:
  assumes "d \<noteq> ''''" and "plain_elem e" and "plain_elem f" and "path_join [d, e] = path_join [d, f]"
  shows "e = f"
proof -
  note je = path_join_elem [OF assms(1,2)] and jf = path_join_elem [OF assms(1,3)]
  have "join_with ''/'' (path_elems d @ [e]) = join_with ''/'' (path_elems d @ [f])"
    using assms(4) unfolding je(1) jf(1) path_clean_elems je(2,3) jf(2,3) by (auto split: if_splits)
  moreover have "\<forall>x \<in> set (path_elems d @ [g]). CHR ''/'' \<notin> set x" if "plain_elem g" for g
    using that path_elems_kept [of d] by (auto simp: plain_elem_def kept_elem_def list_all_iff)
  ultimately have "path_elems d @ [e] = path_elems d @ [f]"
    using join_inj [of "CHR ''/''" "path_elems d @ [e]" "path_elems d @ [f]"] assms(2,3) by simp
  then show ?thesis by simp
qed


lemma path_elems_clean:
  assumes "is_abs p"
  shows "path_elems (path_clean p) = path_elems p"
proof -
  let ?es = "path_elems p"
  have plain: "\<forall>e \<in> set ?es. plain_elem e" using path_elems_plain [OF assms] by (simp add: list_all_iff)
  have "split_on CHR ''/'' (path_clean p) = [] # (if ?es = [] then [[]] else ?es)"
    using plain split_join [of ?es "CHR ''/''"] by (simp add: path_clean_elems assms)
  moreover have "clean_elems True [] ?es = ?es" using clean_elems_plain [OF plain, of True "[]"] by simp
  ultimately show ?thesis using assms by (simp add: path_elems_def [of "path_clean p"])
qed

lemma path_join_abs:
  assumes "is_abs d" and "plain_elem e"
  shows "path_elems (path_join [d, e]) = path_elems d @ [e]" "is_abs (path_join [d, e])"
proof -
  have d: "d \<noteq> ''''" using assms(1) by (auto simp: is_abs_def)
  note j = path_join_elem [OF d assms(2)]
  show "is_abs (path_join [d, e])" unfolding j(1) using assms(1) j(3) by simp
  show "path_elems (path_join [d, e]) = path_elems d @ [e]" unfolding j(1) using assms(1) j(2,3) path_elems_clean by simp
qed

end
