(* ===== verification/CloudConfig.thy ===== *)
theory CloudConfig
  imports ProgramConfig Paths
begin

text \<open>
  \<^verbatim>\<open>internal/cloud/environments.go\<close> and the configuration part of \<^verbatim>\<open>cloud.go\<close>: the registry of cloud
  environments, one directory with one file each, and how an environment's configuration is put together
  from its file and the process's variables. The registry is the list of its entries in the order of their
  names; decoding a file is an argument.
\<close>

section \<open>A configuration\<close>

record cloud_config =
  cc_StartURL :: string
  cc_StopURL :: string
  cc_DeployURL :: string
  cc_StatsURL :: string
  cc_EnvURL :: string
  cc_SeedURL :: string
  cc_UpdateURL :: string
  cc_ScheduleURL :: string
  cc_Region :: string
  cc_BaseURL :: string
  cc_Environment :: string

definition no_cloud_config :: cloud_config where
  "no_cloud_config =
     \<lparr>cc_StartURL = '''', cc_StopURL = '''', cc_DeployURL = '''', cc_StatsURL = '''', cc_EnvURL = '''', cc_SeedURL = '''',
      cc_UpdateURL = '''', cc_ScheduleURL = '''', cc_Region = '''', cc_BaseURL = '''', cc_Environment = ''''\<rparr>"

datatype cloud_error =
    NoConfigDir config_error
  | BadCloudFile string
  | UnreadableCloudFile string
  | NotConfigured string
  | NoRegion string

definition override :: "(string \<Rightarrow> string) \<Rightarrow> string \<Rightarrow> string \<Rightarrow> string" where
  "override getenv name v = (if getenv name \<noteq> '''' then getenv name else v)"

text \<open>The region in the host of a function URL: the label after the one that reads \<^verbatim>\<open>lambda-url\<close>.\<close>

fun after_label :: "string \<Rightarrow> string list \<Rightarrow> string" where
  "after_label l (p # q # ps) = (if p = l then q else after_label l (q # ps))"
| "after_label l _ = ''''"

definition regionFromURL :: "url_parser \<Rightarrow> string \<Rightarrow> string" where
  "regionFromURL parse_url url =
     (case parse_url url of
        None \<Rightarrow> ''''
      | Some u \<Rightarrow> after_label ''lambda-url'' (split_on CHR ''.'' (up_Hostname u)))"

definition overridden :: "(string \<Rightarrow> string) \<Rightarrow> cloud_config \<Rightarrow> cloud_config" where
  "overridden getenv cfg = cfg
     \<lparr>cc_StartURL := override getenv ''SPINLOOP_CLOUD_START_URL'' (cc_StartURL cfg),
      cc_StopURL := override getenv ''SPINLOOP_CLOUD_STOP_URL'' (cc_StopURL cfg),
      cc_DeployURL := override getenv ''SPINLOOP_CLOUD_DEPLOY_URL'' (cc_DeployURL cfg),
      cc_StatsURL := override getenv ''SPINLOOP_CLOUD_STATS_URL'' (cc_StatsURL cfg),
      cc_EnvURL := override getenv ''SPINLOOP_CLOUD_ENV_URL'' (cc_EnvURL cfg),
      cc_SeedURL := override getenv ''SPINLOOP_CLOUD_SEED_URL'' (cc_SeedURL cfg),
      cc_UpdateURL := override getenv ''SPINLOOP_CLOUD_UPDATE_URL'' (cc_UpdateURL cfg),
      cc_ScheduleURL := override getenv ''SPINLOOP_CLOUD_SCHEDULE_URL'' (cc_ScheduleURL cfg),
      cc_Region := override getenv ''SPINLOOP_CLOUD_REGION'' (cc_Region cfg)\<rparr>"

definition finishConfig ::
  "url_parser \<Rightarrow> (string \<Rightarrow> string) \<Rightarrow> string \<Rightarrow> cloud_config \<Rightarrow> cloud_error + cloud_config" where
  "finishConfig parse_url getenv source cfg =
     (let cfg = overridden getenv cfg
      in if cc_StartURL cfg = '''' \<or> cc_StopURL cfg = '''' then Inl (NotConfigured source)
         else
           (let r = (if cc_Region cfg = '''' then getenv ''AWS_REGION'' else cc_Region cfg);
                r = (if r = '''' then regionFromURL parse_url (cc_StartURL cfg) else r)
            in if r = '''' then Inl (NoRegion source) else Inr (cfg\<lparr>cc_Region := r\<rparr>)))"

section \<open>The registry\<close>

definition remotesRoot :: "cloud_error + string \<Rightarrow> cloud_error + string" where
  "remotesRoot home = map_sum id (\<lambda>h. path_join [h, ''clouds'']) home"

definition ConfigHome :: "(string \<Rightarrow> string) \<Rightarrow> string + string \<Rightarrow> cloud_error + string" where
  "ConfigHome getenv home = map_sum NoConfigDir id (Dir getenv home)"

definition EnvDir :: "cloud_error + string \<Rightarrow> string \<Rightarrow> cloud_error + string" where
  "EnvDir home name = map_sum id (\<lambda>r. path_join [r, name]) (remotesRoot home)"

definition EnvConfigPath :: "cloud_error + string \<Rightarrow> string \<Rightarrow> cloud_error + string" where
  "EnvConfigPath home name = map_sum id (\<lambda>dir. path_join [dir, ''cloud.json'']) (EnvDir home name)"

text \<open>The files by their path.\<close>

type_synonym files = "string \<Rightarrow> string file_read"

definition LoadEnvironment ::
  "url_parser \<Rightarrow> (string \<Rightarrow> cloud_config option) \<Rightarrow> cloud_error + string \<Rightarrow> (string \<Rightarrow> string) \<Rightarrow> files \<Rightarrow> string \<Rightarrow>
   cloud_error + cloud_config" where
  "LoadEnvironment parse_url decode home getenv fs name =
     (case EnvConfigPath home name of
        Inl e \<Rightarrow> Inl e
      | Inr path \<Rightarrow>
          (case fs path of
             Bytes b \<Rightarrow>
               (case decode b of
                  None \<Rightarrow> Inl (BadCloudFile path)
                | Some cfg \<Rightarrow> finishConfig parse_url getenv path cfg)
           | Missing \<Rightarrow> finishConfig parse_url getenv path (no_cloud_config\<lparr>cc_Environment := name\<rparr>)
           | ReadError e \<Rightarrow> Inl (UnreadableCloudFile e)))"

record env_info =
  ei_Name :: string
  ei_BaseURL :: string
  ei_Region :: string
  ei_OK :: bool

definition listed_env :: "(string \<Rightarrow> cloud_config option) \<Rightarrow> string file_read \<Rightarrow> string \<Rightarrow> env_info" where
  "listed_env decode r name =
     (case r of
        Bytes b \<Rightarrow>
          (case decode b of
             Some cfg \<Rightarrow> \<lparr>ei_Name = name, ei_BaseURL = cc_BaseURL cfg, ei_Region = cc_Region cfg, ei_OK = True\<rparr>
           | None \<Rightarrow> \<lparr>ei_Name = name, ei_BaseURL = '''', ei_Region = '''', ei_OK = False\<rparr>)
      | _ \<Rightarrow> \<lparr>ei_Name = name, ei_BaseURL = '''', ei_Region = '''', ei_OK = False\<rparr>)"

text \<open>The entries of the registry's directory, each with whether it is a directory; \<open>Missing\<close> is none at all.\<close>

definition ListEnvironments ::
  "(string \<Rightarrow> cloud_config option) \<Rightarrow> cloud_error + string \<Rightarrow> (string \<times> bool) list file_read \<Rightarrow> files \<Rightarrow>
   cloud_error + env_info list" where
  "ListEnvironments decode home entries fs =
     (case remotesRoot home of
        Inl e \<Rightarrow> Inl e
      | Inr r \<Rightarrow>
          (case entries of
             Missing \<Rightarrow> Inr []
           | ReadError e \<Rightarrow> Inl (UnreadableCloudFile e)
           | Bytes es \<Rightarrow>
               Inr (map (\<lambda>(name, d). listed_env decode
                   (fs (path_join [path_join [r, name], ''cloud.json''])) name) (filter snd es))))"

definition SaveEnvironment ::
  "(cloud_config \<Rightarrow> string) \<Rightarrow> cloud_error + string \<Rightarrow> disk \<Rightarrow> string \<Rightarrow> cloud_config \<Rightarrow> files \<Rightarrow> files \<times> cloud_error option" where
  "SaveEnvironment encode home d name cfg fs =
     (case EnvDir home name of
        Inl e \<Rightarrow> (fs, Some e)
      | Inr dir \<Rightarrow>
          (case d of
             MkdirFails e \<Rightarrow> (fs, Some (UnreadableCloudFile e))
           | WriteFails e \<Rightarrow> (fs(path_join [dir, ''cloud.json''] := Bytes ''''), Some (UnreadableCloudFile e))
           | _ \<Rightarrow> (fs(path_join [dir, ''cloud.json''] := Bytes (encode cfg @ [CHR 0x0A])), None)))"

section \<open>Environments apart\<close>

text \<open>A name that is neither of the two that a path gives a meaning of its own.\<close>

definition own_dir :: "string \<Rightarrow> bool" where
  "own_dir name \<longleftrightarrow> IsEnvName name \<and> name \<noteq> ''.'' \<and> name \<noteq> ''..''"

lemma own_dir_plain: "own_dir name \<Longrightarrow> plain_elem name"
  by (auto simp: own_dir_def IsEnvName_def plain_elem_def contains_any_def list_ex_iff)

lemma EnvConfigPath_elems:
  assumes "is_abs h" and "own_dir name"
  shows "\<exists>path. EnvConfigPath (Inr h) name = Inr path \<and> path_elems path = path_elems h @ [''clouds'', name, ''cloud.json'']"
proof -
  have e: "plain_elem ''clouds''" "plain_elem ''cloud.json''" by (simp_all add: plain_elem_def)
  note r = path_join_abs [OF assms(1) e(1)]
  note n = path_join_abs [OF r(2) own_dir_plain [OF assms(2)]]
  show ?thesis using path_join_abs [OF n(2) e(2)] r n by (simp add: EnvConfigPath_def EnvDir_def remotesRoot_def)
qed

lemma EnvConfigPath_inj:
  assumes "is_abs h" "own_dir a" "own_dir b" "EnvConfigPath (Inr h) a = EnvConfigPath (Inr h) b"
  shows "a = b"
  using EnvConfigPath_elems [OF assms(1,2)] EnvConfigPath_elems [OF assms(1,3)] assms(4) by auto

text \<open>
  An environment that is registered loads as it was saved, under the process's variables, and every other
  environment loads as it did.
\<close>

theorem environments_apart:
  assumes "is_abs h" and "own_dir name" and "decode (encode cfg @ [CHR 0x0A]) = Some cfg"
    and "SaveEnvironment encode (Inr h) d name cfg fs = (fs', None)"
  shows "(\<exists>path. EnvConfigPath (Inr h) name = Inr path \<and>
       LoadEnvironment parse_url decode (Inr h) getenv fs' name = finishConfig parse_url getenv path cfg) \<and>
    (\<forall>other. own_dir other \<and> other \<noteq> name \<longrightarrow>
       LoadEnvironment parse_url decode (Inr h) getenv fs' other = LoadEnvironment parse_url decode (Inr h) getenv fs other)"
proof -
  obtain path where path: "EnvConfigPath (Inr h) name = Inr path" using EnvConfigPath_elems [OF assms(1,2)] by blast
  then obtain dir where dir: "EnvDir (Inr h) name = Inr dir" "path = path_join [dir, ''cloud.json'']"
    by (auto simp: EnvConfigPath_def map_sum_Inr)
  have fs': "fs' = fs(path := Bytes (encode cfg @ [CHR 0x0A]))"
    using assms(4) dir by (auto simp: SaveEnvironment_def split: disk.splits)
  have "LoadEnvironment parse_url decode (Inr h) getenv fs' other = LoadEnvironment parse_url decode (Inr h) getenv fs other"
    if o: "own_dir other" "other \<noteq> name" for other
  proof -
    obtain p where p: "EnvConfigPath (Inr h) other = Inr p" using EnvConfigPath_elems [OF assms(1) o(1)] by blast
    have "p \<noteq> path" using EnvConfigPath_inj [OF assms(1) o(1) assms(2)] o(2) p path by auto
    then show ?thesis by (simp add: LoadEnvironment_def p fs')
  qed
  moreover have "LoadEnvironment parse_url decode (Inr h) getenv fs' name = finishConfig parse_url getenv path cfg"
    using assms(3) by (simp add: LoadEnvironment_def path fs')
  ultimately show ?thesis using path by blast
qed

theorem environments_apart_witness:
  "LoadEnvironment (\<lambda>_. None) (\<lambda>_. Some (no_cloud_config\<lparr>cc_StartURL := ''s'', cc_StopURL := ''t'', cc_Region := ''eu-west-1''\<rparr>))
     (Inr ''/home'') (\<lambda>_. '''') ((\<lambda>_. Missing)(''/home/clouds/gpu/cloud.json'' := Bytes ([] @ [CHR 0x0A]))) ''gpu'' =
   Inr (no_cloud_config\<lparr>cc_StartURL := ''s'', cc_StopURL := ''t'', cc_Region := ''eu-west-1''\<rparr>)"
proof -
  let ?cfg = "no_cloud_config\<lparr>cc_StartURL := ''s'', cc_StopURL := ''t'', cc_Region := ''eu-west-1''\<rparr>"
  let ?fs = "(\<lambda>_. Missing)(''/home/clouds/gpu/cloud.json'' := Bytes ([] @ [CHR 0x0A]))"
  have dir: "EnvDir (Inr ''/home'') ''gpu'' = Inr ''/home/clouds/gpu''"
    "path_join [''/home/clouds/gpu'', ''cloud.json''] = ''/home/clouds/gpu/cloud.json''" by code_simp+
  then have s: "SaveEnvironment (\<lambda>_. []) (Inr ''/home'') DiskOK ''gpu'' ?cfg (\<lambda>_. Missing) = (?fs, None)"
    unfolding SaveEnvironment_def by simp
  have o: "own_dir ''gpu''" by code_simp
  have a: "is_abs ''/home''" by (simp add: is_abs_def)
  from environments_apart [OF a o _ s, of "\<lambda>_. Some ?cfg" "\<lambda>_. None" "\<lambda>_. ''''"] obtain path where
    "LoadEnvironment (\<lambda>_. None) (\<lambda>_. Some ?cfg) (Inr ''/home'') (\<lambda>_. '''') ?fs ''gpu'' = finishConfig (\<lambda>_. None) (\<lambda>_. '''') path ?cfg"
    by auto
  moreover have "finishConfig (\<lambda>_. None) (\<lambda>_. '''') path ?cfg = Inr ?cfg"
    by (simp add: finishConfig_def overridden_def override_def no_cloud_config_def)
  ultimately show ?thesis by simp
qed

text \<open>
  Two dots pass for the name of an environment, and what they name is not in the registry but the file in
  the directory above it.
\<close>

lemma dots_leave_registry:
  "IsEnvName ''..''" "EnvConfigPath (Inr ''/home'') ''..'' = Inr ''/home/cloud.json''"
  by code_simp+

section \<open>What a configuration is completed with\<close>

text \<open>
  A configuration is accepted exactly where both control addresses are known and a region is, from the
  variable, the file, the variable of the provider or the start address in this order; a variable that is
  set stands over what the file has, and nothing else of the file is changed.
\<close>

theorem finishConfig_spec:
  "(case finishConfig parse_url getenv source cfg of
      Inr c \<Rightarrow>
        c = (overridden getenv cfg)\<lparr>cc_Region := cc_Region c\<rparr> \<and> cc_StartURL c \<noteq> '''' \<and> cc_StopURL c \<noteq> '''' \<and>
        cc_Region c \<noteq> '''' \<and>
        find (\<lambda>r. r \<noteq> '''') [getenv ''SPINLOOP_CLOUD_REGION'', cc_Region cfg, getenv ''AWS_REGION'',
          regionFromURL parse_url (cc_StartURL c)] = Some (cc_Region c)
    | Inl (NotConfigured s) \<Rightarrow>
        s = source \<and>
        (cc_StartURL cfg = '''' \<and> getenv ''SPINLOOP_CLOUD_START_URL'' = '''' \<or>
         cc_StopURL cfg = '''' \<and> getenv ''SPINLOOP_CLOUD_STOP_URL'' = '''')
    | Inl (NoRegion s) \<Rightarrow> s = source \<and> cc_Region cfg = '''' \<and> getenv ''SPINLOOP_CLOUD_REGION'' = '''' \<and> getenv ''AWS_REGION'' = ''''
    | Inl e \<Rightarrow> False)"
proof (cases "cc_StartURL (overridden getenv cfg) = '''' \<or> cc_StopURL (overridden getenv cfg) = ''''")
  case True
  then have "finishConfig parse_url getenv source cfg = Inl (NotConfigured source)" by (simp add: finishConfig_def Let_def)
  then show ?thesis using True by (auto simp: overridden_def override_def split: if_splits)
next
  case False
  let ?c = "overridden getenv cfg"
  let ?r = "if cc_Region ?c = '''' then getenv ''AWS_REGION'' else cc_Region ?c"
  let ?q = "if ?r = '''' then regionFromURL parse_url (cc_StartURL ?c) else ?r"
  have f: "finishConfig parse_url getenv source cfg = (if ?q = '''' then Inl (NoRegion source) else Inr (?c\<lparr>cc_Region := ?q\<rparr>))"
    using False by (simp add: finishConfig_def Let_def)
  have r: "cc_Region ?c = override getenv ''SPINLOOP_CLOUD_REGION'' (cc_Region cfg)" by (simp add: overridden_def)
  show ?thesis
  proof (cases "?q = ''''")
    case True
    then show ?thesis using f by (simp add: r override_def split: if_splits)
  next
    case False
    have "find (\<lambda>r. r \<noteq> '''') [getenv ''SPINLOOP_CLOUD_REGION'', cc_Region cfg, getenv ''AWS_REGION'',
        regionFromURL parse_url (cc_StartURL ?c)] = Some ?q"
      using False by (simp add: r override_def split: if_splits)
    then show ?thesis using f False \<open>\<not> (cc_StartURL ?c = '''' \<or> cc_StopURL ?c = '''')\<close> by simp
  qed
qed

end
