(* ===== verification/CloudControl.thy ===== *)
theory CloudControl
  imports CloudConfig
begin

text \<open>
  The calls of \<^verbatim>\<open>internal/cloud/cloud.go\<close> on an environment's control plane, and how its refusals are read.
  A transport takes a method, an address and a body and gives a status with the reply's text, or why there
  is none; \<open>decode\<close> reads a reply. The start, which repeats its call until the model serves or the caller's
  deadline passes, is a function of the list of what becomes of each attempt; a list that ends before
  the start does leaves it under way.
\<close>

section \<open>Replies\<close>

record control_reply =
  rp_StatusCode :: int
  rp_State :: string
  rp_Healthy :: "bool option"
  rp_BaseURL :: string
  rp_APIKey :: string
  rp_Environment :: string
  rp_Message :: string
  rp_RetryAfterSeconds :: int
  rp_LastActiveAt :: string
  rp_IdleSeconds :: int
  rp_Deployed :: bool
  rp_Seeding :: bool
  rp_SeedID :: string
  rp_ServedName :: string
  rp_Runner :: string
  rp_ModelID :: string
  rp_ContextSize :: int
  rp_WeightsPrefix :: string
  rp_APIKeyAction :: string
  rp_RetainUntil :: string
  rp_Error :: string

text \<open>A fault of the address or the connection, and any other.\<close>

datatype send_fault = UrlFault string | OtherFault string

type_synonym transport = "string \<Rightarrow> string \<Rightarrow> string option \<Rightarrow> send_fault + int \<times> string"

datatype refresh = StoreNewKey | RefreshAmbient

datatype hint = NoHint | CredentialsHint refresh | PermissionHint

datatype control_error =
    MissingURL string
  | CallFails send_fault
  | BadReply string int hint string
  | DeployRefused int hint string
  | StartRefused int string hint string
  | GaveUp "string option"
  | Refused string int hint string
  | EnvRefused int string
  | WakeFails control_error

section \<open>Reading a refusal\<close>

definition truncate_text :: "string \<Rightarrow> nat \<Rightarrow> string" where
  "truncate_text s n = (let t = trim_space s in if length t \<le> n then t else take n t @ ''...'')"

definition credentialErrorCodes :: "string list" where
  "credentialErrorCodes = [''ExpiredToken'', ''ExpiredTokenException'', ''InvalidClientTokenId'', ''RequestExpired'',
     ''UnrecognizedClientException'']"

definition expiredCredsMarker :: "string \<Rightarrow> bool" where
  "expiredCredsMarker s \<longleftrightarrow>
     list_ex (contains s) credentialErrorCodes \<or>
     (contains (to_lower s) ''security token'' \<and> contains (to_lower s) ''expired'')"

text \<open>An error of the provider's library has a code, any other only its text.\<close>

definition credentialError :: "string option \<Rightarrow> string \<Rightarrow> bool" where
  "credentialError code msg \<longleftrightarrow> (case code of Some c \<Rightarrow> c \<in> set credentialErrorCodes | None \<Rightarrow> False) \<or> expiredCredsMarker msg"

text \<open>Whether a key is stored for a region, and whether the process's own credentials come before it.\<close>

record signer =
  si_stored :: "string \<Rightarrow> bool"
  si_ambient :: bool

definition credsRefreshHint :: "signer \<Rightarrow> string \<Rightarrow> refresh" where
  "credsRefreshHint si region = (if si_stored si region \<and> \<not> si_ambient si then StoreNewKey else RefreshAmbient)"

definition forbiddenHint :: "signer \<Rightarrow> string \<Rightarrow> string \<Rightarrow> hint" where
  "forbiddenHint si region detail =
     (if expiredCredsMarker detail then CredentialsHint (credsRefreshHint si region) else PermissionHint)"

definition hint_for :: "signer \<Rightarrow> cloud_config \<Rightarrow> int \<Rightarrow> string \<Rightarrow> hint" where
  "hint_for si cfg status detail = (if status = 403 then forbiddenHint si (cc_Region cfg) detail else NoHint)"

definition reply_detail :: "control_reply \<Rightarrow> string" where
  "reply_detail r = (if rp_Error r = '''' then rp_Message r else rp_Error r)"

definition controlReplyError :: "signer \<Rightarrow> cloud_config \<Rightarrow> string \<Rightarrow> control_reply \<Rightarrow> control_error" where
  "controlReplyError si cfg what r =
     Refused what (rp_StatusCode r) (hint_for si cfg (rp_StatusCode r) (reply_detail r)) (truncate_text (reply_detail r) 200)"

section \<open>One call\<close>

text \<open>Addresses: parsing one, setting a parameter of its query, and printing it.\<close>

record 'u url_ops =
  uo_parse :: "string \<Rightarrow> string + 'u"
  uo_set :: "string \<times> string \<Rightarrow> 'u \<Rightarrow> 'u"
  uo_string :: "'u \<Rightarrow> string"

definition set_query :: "'u url_ops \<Rightarrow> (string \<times> string) list \<Rightarrow> string \<Rightarrow> string + string" where
  "set_query ops kvs url = map_sum id (\<lambda>u. uo_string ops (fold (uo_set ops) kvs u)) (uo_parse ops url)"

definition control_call ::
  "'u url_ops \<Rightarrow> (string \<Rightarrow> control_reply option) \<Rightarrow> signer \<Rightarrow> cloud_config \<Rightarrow> transport \<Rightarrow> string \<Rightarrow> string \<Rightarrow> string option \<Rightarrow>
   control_error + control_reply" where
  "control_call ops decode si cfg send method url body =
     (case (if cc_Environment cfg \<noteq> '''' then set_query ops [(''env'', cc_Environment cfg)] url else Inr url) of
        Inl e \<Rightarrow> Inl (CallFails (UrlFault e))
      | Inr target \<Rightarrow>
          (case send method target body of
             Inl e \<Rightarrow> Inl (CallFails e)
           | Inr (status, text) \<Rightarrow>
               (case decode text of
                  None \<Rightarrow> Inl (BadReply method status (hint_for si cfg status text) (truncate_text text 200))
                | Some r \<Rightarrow> Inr (r\<lparr>rp_StatusCode := status\<rparr>))))"

text \<open>A call whose success is the status 200.\<close>

definition ok_reply :: "signer \<Rightarrow> cloud_config \<Rightarrow> string \<Rightarrow> control_error + control_reply \<Rightarrow> control_error + control_reply" where
  "ok_reply si cfg what res =
     (case res of
        Inl e \<Rightarrow> Inl e
      | Inr r \<Rightarrow> if rp_StatusCode r = 200 then Inr r else Inl (controlReplyError si cfg what r))"

definition cloud_Status ::
  "'u url_ops \<Rightarrow> (string \<Rightarrow> control_reply option) \<Rightarrow> signer \<Rightarrow> transport \<Rightarrow> cloud_config \<Rightarrow> control_error + control_reply" where
  "cloud_Status ops decode si send cfg = ok_reply si cfg ''status'' (control_call ops decode si cfg send ''GET'' (cc_StartURL cfg) None)"

definition cloud_Stop ::
  "'u url_ops \<Rightarrow> (string \<Rightarrow> control_reply option) \<Rightarrow> signer \<Rightarrow> transport \<Rightarrow> cloud_config \<Rightarrow> control_error + control_reply" where
  "cloud_Stop ops decode si send cfg = ok_reply si cfg ''stop'' (control_call ops decode si cfg send ''POST'' (cc_StopURL cfg) None)"

definition pauseURL :: "'u url_ops \<Rightarrow> string \<Rightarrow> bool \<Rightarrow> string" where
  "pauseURL ops stopURL force =
     (case set_query ops ((''action'', ''pause'') # (if force then [(''force'', ''true'')] else [])) stopURL of
        Inl e \<Rightarrow> stopURL
      | Inr u \<Rightarrow> u)"

definition Pause ::
  "'u url_ops \<Rightarrow> (string \<Rightarrow> control_reply option) \<Rightarrow> signer \<Rightarrow> transport \<Rightarrow> cloud_config \<Rightarrow> bool \<Rightarrow> control_error + control_reply" where
  "Pause ops decode si send cfg force =
     ok_reply si cfg ''pause'' (control_call ops decode si cfg send ''POST'' (pauseURL ops (cc_StopURL cfg) force) None)"

definition Keep ::
  "'u url_ops \<Rightarrow> (string \<Rightarrow> control_reply option) \<Rightarrow> signer \<Rightarrow> transport \<Rightarrow> cloud_config \<Rightarrow> string \<Rightarrow> control_error + control_reply" where
  "Keep ops decode si send cfg retainUntil =
     (if cc_UpdateURL cfg = '''' then Inl (MissingURL ''update_url'')
      else (case set_query ops [(''cmd'', ''set-keep''), (''retainUntil'', retainUntil)] (cc_UpdateURL cfg) of
          Inl e \<Rightarrow> Inl (CallFails (UrlFault e))
        | Inr u \<Rightarrow> ok_reply si cfg ''keep'' (control_call ops decode si cfg send ''POST'' u None)))"

definition cloud_Env ::
  "'u url_ops \<Rightarrow> (string \<Rightarrow> control_reply option) \<Rightarrow> signer \<Rightarrow> transport \<Rightarrow> cloud_config \<Rightarrow> control_error + control_reply" where
  "cloud_Env ops decode si send cfg =
     (if cc_EnvURL cfg = '''' then Inl (MissingURL ''env_url'')
      else (case control_call ops decode si cfg send ''GET'' (cc_EnvURL cfg) None of
          Inl e \<Rightarrow> Inl e
        | Inr r \<Rightarrow> if rp_StatusCode r = 200 then Inr r else Inl (EnvRefused (rp_StatusCode r) (rp_Message r))))"

text \<open>The body of a deploy: what the environment serves, and what only this request asks; \<open>encode\<close> prints it.\<close>

record 'c deploy_body =
  db_Config :: 'c
  db_AllowedCidr :: string
  db_Reseed :: bool
  db_APIKey :: string

definition cloud_Deploy ::
  "'u url_ops \<Rightarrow> (string \<Rightarrow> control_reply option) \<Rightarrow> signer \<Rightarrow> transport \<Rightarrow> ('c deploy_body \<Rightarrow> string) \<Rightarrow> cloud_config \<Rightarrow>
   'c \<Rightarrow> string \<Rightarrow> bool \<Rightarrow> string \<Rightarrow> control_error + control_reply" where
  "cloud_Deploy ops decode si send encode cfg dc allowedCidr reseed apiKey =
     (if cc_DeployURL cfg = '''' then Inl (MissingURL ''deploy_url'')
      else
        (case control_call ops decode si cfg send ''POST'' (cc_DeployURL cfg)
            (Some (encode \<lparr>db_Config = dc, db_AllowedCidr = allowedCidr, db_Reseed = reseed, db_APIKey = apiKey\<rparr>)) of
           Inl e \<Rightarrow> Inl e
         | Inr r \<Rightarrow>
             if rp_StatusCode r = 200 then Inr r
             else Inl (DeployRefused (rp_StatusCode r) (hint_for si cfg (rp_StatusCode r) (reply_detail r)) (reply_detail r))))"

section \<open>Starting\<close>

text \<open>
  What becomes of one attempt: what the transport answers, the times at which it is sent and answered,
  whether the caller had given up by then, and whether its deadline passes in the wait that follows.
\<close>

record attempt =
  at_answer :: "send_fault + int \<times> string"
  at_sent :: int
  at_back :: int
  at_cancelled :: bool
  at_expires :: bool

text \<open>What the start tells its caller: the state it is in, and a line before each wait.\<close>

datatype start_event = OnState string | Progress string

definition start_url :: "'u url_ops \<Rightarrow> cloud_config \<Rightarrow> string option \<Rightarrow> string" where
  "start_url ops cfg retainUntil =
     (case retainUntil of
        None \<Rightarrow> cc_StartURL cfg
      | Some t \<Rightarrow> (case set_query ops [(''retainUntil'', t)] (cc_StartURL cfg) of Inl e \<Rightarrow> cc_StartURL cfg | Inr u \<Rightarrow> u))"

definition giveUpWaiting :: "string \<Rightarrow> string \<Rightarrow> control_error" where
  "giveUpWaiting state seedID = GaveUp (if state = ''seeding'' \<and> seedID \<noteq> '''' then Some seedID else None)"

definition retry_wait :: "control_reply \<Rightarrow> int" where
  "retry_wait r = (if rp_RetryAfterSeconds r \<le> 0 then 1 else rp_RetryAfterSeconds r)"

definition refusal_line :: "control_reply \<Rightarrow> string" where
  "refusal_line r =
     (if rp_State r = ''seeding'' \<and> rp_SeedID r \<noteq> ''''
      then ''seeding the weights (seed '' @ rp_SeedID r @ ''); retrying in '' @ show_int (retry_wait r) @ ''s''
      else ''instance '' @ rp_State r @ ''; retrying in '' @ show_int (retry_wait r) @ ''s'')"

definition dropped_line :: "string \<Rightarrow> string" where
  "dropped_line e = ''connection dropped ('' @ e @ ''); retrying in 5s''"

definition attempt_reply ::
  "'u url_ops \<Rightarrow> (string \<Rightarrow> control_reply option) \<Rightarrow> signer \<Rightarrow> cloud_config \<Rightarrow> string \<Rightarrow> attempt \<Rightarrow> control_error + control_reply" where
  "attempt_reply ops decode si cfg url a = control_call ops decode si cfg (\<lambda>_ _ _. at_answer a) ''POST'' url None"

fun start_loop ::
  "(attempt \<Rightarrow> control_error + control_reply) \<Rightarrow> signer \<Rightarrow> cloud_config \<Rightarrow> string \<Rightarrow> string \<Rightarrow> attempt list \<Rightarrow>
   (int \<times> start_event) list \<times> (control_error + control_reply) option" where
  "start_loop answer si cfg lastState lastSeed [] = ([], None)"
| "start_loop answer si cfg lastState lastSeed (a # as) =
     (let sent = (at_sent a, OnState ''in-flight'')
      in case answer a of
           Inl (CallFails (UrlFault e)) \<Rightarrow>
             if at_cancelled a then ([sent], Some (Inl (CallFails (UrlFault e))))
             else
               (let told = [sent, (at_back a, Progress (dropped_line e))]
                in if at_expires a then (told, Some (Inl (giveUpWaiting lastState lastSeed)))
                   else (case start_loop answer si cfg lastState lastSeed as of (evs, res) \<Rightarrow> (told @ evs, res)))
         | Inl e \<Rightarrow> ([sent], Some (Inl e))
         | Inr r \<Rightarrow>
             (let told = [sent, (at_back a, OnState (rp_State r))]
              in if rp_StatusCode r = 200 \<and> rp_State r = ''ready'' then (told, Some (Inr r))
                 else if rp_StatusCode r = 503 then
                   (let told = told @ [(at_back a, Progress (refusal_line r))]
                    in if at_expires a then (told, Some (Inl (giveUpWaiting (rp_State r) (rp_SeedID r))))
                       else (case start_loop answer si cfg (rp_State r) (rp_SeedID r) as of (evs, res) \<Rightarrow> (told @ evs, res)))
                 else (told, Some (Inl (StartRefused (rp_StatusCode r) (rp_State r)
                         (hint_for si cfg (rp_StatusCode r) (rp_Message r)) (rp_Message r))))))"

definition cloud_Start ::
  "'u url_ops \<Rightarrow> (string \<Rightarrow> control_reply option) \<Rightarrow> signer \<Rightarrow> cloud_config \<Rightarrow> string option \<Rightarrow> attempt list \<Rightarrow>
   (int \<times> start_event) list \<times> (control_error + control_reply) option" where
  "cloud_Start ops decode si cfg retainUntil as =
     start_loop (attempt_reply ops decode si cfg (start_url ops cfg retainUntil)) si cfg '''' '''' as"

definition Restart ::
  "'u url_ops \<Rightarrow> (string \<Rightarrow> control_reply option) \<Rightarrow> signer \<Rightarrow> transport \<Rightarrow> cloud_config \<Rightarrow> bool \<Rightarrow> int \<Rightarrow> attempt list \<Rightarrow>
   (int \<times> start_event) list \<times> (control_error + control_reply) option" where
  "Restart ops decode si send cfg force now as =
     (case Pause ops decode si send cfg force of
        Inl e \<Rightarrow> ([], Some (Inl e))
      | Inr r \<Rightarrow>
          (case cloud_Start ops decode si cfg None as of
             (evs, res) \<Rightarrow> ((now, Progress ''stopped; waking it'') # evs, map_option (map_sum WakeFails id) res)))"

section \<open>When a start ends\<close>

text \<open>An attempt after which the start waits and tries again.\<close>

definition tried_again :: "(attempt \<Rightarrow> control_error + control_reply) \<Rightarrow> attempt \<Rightarrow> bool" where
  "tried_again answer a \<longleftrightarrow> \<not> at_expires a \<and>
     (case answer a of
        Inl (CallFails (UrlFault e)) \<Rightarrow> \<not> at_cancelled a
      | Inl e \<Rightarrow> False
      | Inr r \<Rightarrow> rp_StatusCode r = 503)"

text \<open>The state and seed of the last attempt that was refused for now.\<close>

definition last_refusal :: "(attempt \<Rightarrow> control_error + control_reply) \<Rightarrow> attempt list \<Rightarrow> string \<times> string \<Rightarrow> string \<times> string" where
  "last_refusal answer as z =
     foldl (\<lambda>acc a. case answer a of Inr r \<Rightarrow> if rp_StatusCode r = 503 then (rp_State r, rp_SeedID r) else acc | Inl e \<Rightarrow> acc) z as"

text \<open>What an attempt that is not tried again ends the start with.\<close>

definition settled ::
  "(attempt \<Rightarrow> control_error + control_reply) \<Rightarrow> signer \<Rightarrow> cloud_config \<Rightarrow> string \<times> string \<Rightarrow> attempt \<Rightarrow> control_error + control_reply" where
  "settled answer si cfg known a =
     (case answer a of
        Inl (CallFails (UrlFault e)) \<Rightarrow>
          if at_cancelled a then Inl (CallFails (UrlFault e)) else Inl (giveUpWaiting (fst known) (snd known))
      | Inl e \<Rightarrow> Inl e
      | Inr r \<Rightarrow>
          if rp_StatusCode r = 200 \<and> rp_State r = ''ready'' then Inr r
          else if rp_StatusCode r = 503 then Inl (giveUpWaiting (rp_State r) (rp_SeedID r))
          else Inl (StartRefused (rp_StatusCode r) (rp_State r) (hint_for si cfg (rp_StatusCode r) (rp_Message r)) (rp_Message r)))"

definition attempt_events :: "(attempt \<Rightarrow> control_error + control_reply) \<Rightarrow> attempt \<Rightarrow> (int \<times> start_event) list" where
  "attempt_events answer a =
     (at_sent a, OnState ''in-flight'') #
     (case answer a of
        Inl (CallFails (UrlFault e)) \<Rightarrow> if at_cancelled a then [] else [(at_back a, Progress (dropped_line e))]
      | Inl e \<Rightarrow> []
      | Inr r \<Rightarrow> (at_back a, OnState (rp_State r)) #
          (if rp_StatusCode r = 503 then [(at_back a, Progress (refusal_line r))] else []))"

lemma start_loop_settles:
  "\<not> tried_again answer a \<Longrightarrow>
   start_loop answer si cfg (fst known) (snd known) (a # as) = (attempt_events answer a, Some (settled answer si cfg known a))"
  by (auto simp: tried_again_def settled_def attempt_events_def Let_def
      split: sum.split control_error.split send_fault.split)

lemma start_loop_tries:
  "tried_again answer a \<Longrightarrow>
   start_loop answer si cfg (fst known) (snd known) (a # as) =
     (attempt_events answer a @
        fst (start_loop answer si cfg (fst (last_refusal answer [a] known)) (snd (last_refusal answer [a] known)) as),
      snd (start_loop answer si cfg (fst (last_refusal answer [a] known)) (snd (last_refusal answer [a] known)) as))"
proof -
  assume t: "tried_again answer a"
  then consider e where "answer a = Inl (CallFails (UrlFault e))" "\<not> at_cancelled a"
    | r where "answer a = Inr r" "rp_StatusCode r = 503"
    by (auto simp: tried_again_def split: sum.splits control_error.splits send_fault.splits)
  then show ?thesis
  proof cases
    case 1
    then show ?thesis using t
      by (simp add: tried_again_def attempt_events_def last_refusal_def Let_def split: prod.split)
  next
    case 2
    obtain evs res where rest: "start_loop answer si cfg (rp_State r) (rp_SeedID r) as = (evs, res)" by fastforce
    have x: "\<not> at_expires a" using t by (simp add: tried_again_def)
    have k: "last_refusal answer [a] known = (rp_State r, rp_SeedID r)" using 2 by (simp add: last_refusal_def)
    have ev: "attempt_events answer a = [(at_sent a, OnState ''in-flight''), (at_back a, OnState (rp_State r)),
        (at_back a, Progress (refusal_line r))]" using 2 by (simp add: attempt_events_def)
    have "start_loop answer si cfg (fst known) (snd known) (a # as) = (attempt_events answer a @ evs, res)"
      unfolding ev start_loop.simps Let_def 2(1) sum.case rest prod.case using x 2(2) by simp
    then show ?thesis by (simp only: k fst_conv snd_conv rest)
  qed
qed

lemma last_refusal_Cons: "last_refusal answer (a # as) z = last_refusal answer as (last_refusal answer [a] z)"
  by (simp add: last_refusal_def)

lemma start_loop_spec:
  "start_loop answer si cfg (fst known) (snd known) as =
     (let waited = takeWhile (tried_again answer) as; rest = dropWhile (tried_again answer) as
      in (concat (map (attempt_events answer) (waited @ take 1 rest)),
          case rest of [] \<Rightarrow> None | a # _ \<Rightarrow> Some (settled answer si cfg (last_refusal answer waited known) a)))"
proof (induction as arbitrary: known)
  case Nil
  then show ?case by (simp add: Let_def)
next
  case (Cons a as)
  show ?case
  proof (cases "tried_again answer a")
    case False
    then show ?thesis unfolding start_loop_settles [OF False] by (simp add: Let_def last_refusal_def)
  next
    case True
    then show ?thesis unfolding start_loop_tries [OF True] Cons.IH [of "last_refusal answer [a] known"]
      by (cases "dropWhile (tried_again answer) as")
        (simp_all del: dropWhile_eq_Nil_conv add: Let_def last_refusal_Cons [of answer a "takeWhile (tried_again answer) as"])
  qed
qed

lemma Start_loop_outcome:
  "cloud_Start ops decode si cfg retainUntil as =
     (let answer = attempt_reply ops decode si cfg (start_url ops cfg retainUntil);
          waited = takeWhile (tried_again answer) as; rest = dropWhile (tried_again answer) as
      in (concat (map (attempt_events answer) (waited @ take 1 rest)),
          case rest of [] \<Rightarrow> None | a # _ \<Rightarrow> Some (settled answer si cfg (last_refusal answer waited ('''', '''')) a)))"
  unfolding cloud_Start_def Let_def using start_loop_spec [of _ si cfg "('''', '''')" as] by (simp add: Let_def)

text \<open>
  C20: A start ends with the first attempt that is not tried again: with the reply that says the model serves,
  with the refusal, or with the caller's deadline, and a deadline that passes while the weights are fetched
  names the seed of the last reply. What it tells the caller is what each attempt up to that one gave rise
  to, in order; while every attempt is tried again it has not ended.
\<close>

theorem Start_outcome:
  "cloud_Start ops decode si cfg retainUntil as =
     (let answer = attempt_reply ops decode si cfg (start_url ops cfg retainUntil);
          waited = takeWhile (tried_again answer) as; rest = dropWhile (tried_again answer) as
      in (concat (map (attempt_events answer) (waited @ take 1 rest)),
          case rest of [] \<Rightarrow> None | a # _ \<Rightarrow> Some (settled answer si cfg (last_refusal answer waited ('''', '''')) a)))"
  by (rule Start_loop_outcome)

text \<open>
  A start whose address does not parse is taken for a dropped connection: it is tried again at every
  attempt, and nothing but the caller ends it.
\<close>

theorem start_retries_bad_url:
  assumes "uo_parse ops (cc_StartURL cfg) = Inl e" and "cc_Environment cfg \<noteq> ''''"
    and "\<forall>a \<in> set as. \<not> at_cancelled a \<and> \<not> at_expires a"
  shows "snd (cloud_Start ops decode si cfg None as) = None \<and>
    (\<forall>ev \<in> set (fst (cloud_Start ops decode si cfg None as)).
       snd ev = OnState ''in-flight'' \<or> snd ev = Progress (dropped_line e))"
proof -
  let ?answer = "attempt_reply ops decode si cfg (start_url ops cfg None)"
  have a: "?answer a = Inl (CallFails (UrlFault e))" for a
    using assms(1,2) by (simp add: attempt_reply_def control_call_def set_query_def start_url_def)
  then have t: "\<forall>a \<in> set as. tried_again ?answer a" using assms(3) by (simp add: tried_again_def)
  then have w: "takeWhile (tried_again ?answer) as = as" "dropWhile (tried_again ?answer) as = []"
    by (simp_all add: takeWhile_eq_all_conv dropWhile_eq_Nil_conv)
  show ?thesis unfolding Start_loop_outcome Let_def w by (auto simp: attempt_events_def a)
qed

end
