(* ===== verification/GoTime.thy ===== *)
theory GoTime
  imports GoFloat
begin

text \<open>
  What the program uses of the package \<^verbatim>\<open>time\<close>: durations as 64-bit counts of nanoseconds, and
  \<^verbatim>\<open>time.ParseDuration\<close>. A time is a count of nanoseconds, the zero time where there may be one is \<open>None\<close>.
\<close>

section \<open>Reading a duration\<close>

definition second :: int where
  "second = 10 ^ 9"

definition duration_units :: "(string, nat) gomap" where
  "duration_units =
     [(''ns'', 1), (''us'', 10 ^ 3), ([CHR 0xC2, CHR 0xB5, CHR ''s''], 10 ^ 3), ([CHR 0xCE, CHR 0xBC, CHR ''s''], 10 ^ 3),
      (''ms'', 10 ^ 6), (''s'', 10 ^ 9), (''m'', 60 * 10 ^ 9), (''h'', 3600 * 10 ^ 9)]"

text \<open>The digits after the point as a number and the power of ten below it, as far as 64 bits hold them.\<close>

fun fraction_of :: "string \<Rightarrow> nat \<Rightarrow> float64 \<Rightarrow> nat \<times> float64" where
  "fraction_of [] x scale = (x, scale)"
| "fraction_of (c # cs) x scale =
     (let y = 10 * x + digit_val c
      in if x > (2 ^ 63 - 1) div 10 \<or> y > 2 ^ 63 then (x, scale) else fraction_of cs y (times64 scale (Finite 10)))"

fun over64 :: "float64 \<Rightarrow> float64 \<Rightarrow> float64" where
  "over64 (Finite x) (Finite y) = (if y = 0 then NaN else round64 (x / y))"
| "over64 _ _ = NaN"

definition fraction_nanos :: "nat \<Rightarrow> string \<Rightarrow> nat" where
  "fraction_nanos u ds =
     (case fraction_of ds 0 (Finite 1) of
        (f, scale) \<Rightarrow>
          if f = 0 then 0
          else (case times64 (round64 (of_nat f)) (over64 (Finite (of_nat u)) scale) of
              Finite r \<Rightarrow> nat \<lfloor>r\<rfloor>
            | _ \<Rightarrow> 0))"

text \<open>One number with its unit: its nanoseconds and the text after it.\<close>

definition duration_part :: "string \<Rightarrow> (nat \<times> string) option" where
  "duration_part s =
     (let pre = takeWhile is_digit s; r = dropWhile is_digit s;
          dotted = (r \<noteq> [] \<and> hd r = CHR ''.'');
          post = (if dotted then takeWhile is_digit (tl r) else []);
          r = (if dotted then dropWhile is_digit (tl r) else r);
          u = takeWhile (\<lambda>c. c \<noteq> CHR ''.'' \<and> \<not> is_digit c) r;
          v = digits_val pre
      in if v > 2 ^ 63 \<or> (pre = [] \<and> post = []) \<or> u = [] then None
         else (case map_of duration_units u of
             None \<Rightarrow> None
           | Some k \<Rightarrow>
               (let w = v * k + fraction_nanos k post
                in if v > 2 ^ 63 div k \<or> w > 2 ^ 63 then None else Some (w, drop (length u) r))))"

lemma duration_part_shorter: "duration_part s = Some (v, rest) \<Longrightarrow> length rest < length s"
proof -
  assume a: "duration_part s = Some (v, rest)"
  let ?r = "dropWhile is_digit s"
  let ?q = "if ?r \<noteq> [] \<and> hd ?r = CHR ''.'' then dropWhile is_digit (tl ?r) else ?r"
  let ?u = "takeWhile (\<lambda>c. c \<noteq> CHR ''.'' \<and> \<not> is_digit c) ?q"
  have u: "?u \<noteq> []" "rest = drop (length ?u) ?q"
    using a by (auto simp: duration_part_def Let_def split: if_splits option.splits)
  have "length ?q \<le> length s"
    using length_dropWhile_le [of is_digit s] length_dropWhile_le [of is_digit "tl ?r"] by (auto split: if_splits)
  moreover have "length ?u \<le> length ?q" by (rule length_takeWhile_le)
  moreover have "0 < length ?u" using u(1) by blast
  ultimately show ?thesis unfolding u(2) length_drop by linarith
qed

function duration_parts :: "string \<Rightarrow> nat \<Rightarrow> nat option" where
  "duration_parts s d =
     (if s = [] then Some d
      else (case duration_part s of
          None \<Rightarrow> None
        | Some (v, rest) \<Rightarrow>
            (let d = (d + v) mod 2 ^ 64 in if d > 2 ^ 63 then None else duration_parts rest d)))"
  by auto
termination by (relation "measure (\<lambda>(s, d). length s)") (auto dest: duration_part_shorter)

declare duration_parts.simps [simp del]

definition ParseDuration :: "string \<Rightarrow> int option" where
  "ParseDuration s =
     (let neg = (s \<noteq> [] \<and> hd s = CHR ''-'');
          t = (if s \<noteq> [] \<and> hd s \<in> {CHR ''-'', CHR ''+''} then tl s else s)
      in if t = ''0'' then Some 0
         else if t = [] then None
         else (case duration_parts t 0 of
             None \<Rightarrow> None
           | Some d \<Rightarrow> if neg then Some (- int d) else if d > 2 ^ 63 - 1 then None else Some (int d)))"

section \<open>Whole seconds\<close>

lemma duration_part_seconds:
  assumes "n * 10 ^ 9 \<le> 2 ^ 63"
  shows "duration_part (show_nat n @ ''s'') = Some (n * 10 ^ 9, [])"
proof -
  have d: "takeWhile is_digit (show_nat n @ ''s'') = show_nat n" "dropWhile is_digit (show_nat n @ ''s'') = ''s''"
    by (subst takeWhile_append2, simp_all add: show_nat_digits) (simp add: is_digit_def)+
  have n: "\<not> n > 2 ^ 63 div 10 ^ 9" "\<not> n > 2 ^ 63" using assms by simp_all
  have u: "takeWhile (\<lambda>c. c \<noteq> CHR ''.'' \<and> \<not> is_digit c) ''s'' = ''s''" by (simp add: is_digit_def)
  have k: "map_of duration_units ''s'' = Some (10 ^ 9)" by (simp add: duration_units_def)
  have f: "fraction_nanos k [] = 0" for k by (simp add: fraction_nanos_def)
  have s: "\<not> is_digit CHR ''s''" by (simp add: is_digit_def)
  show ?thesis unfolding duration_part_def Let_def d using n assms s by (simp add: u k f)
qed

lemma ParseDuration_seconds:
  assumes "n * 10 ^ 9 < 2 ^ 63"
  shows "ParseDuration (show_nat n @ ''s'') = Some (int n * second)"
proof -
  obtain c cs where c: "show_nat n = c # cs" by (cases "show_nat n") auto
  then have "is_digit c" by (rule show_nat_head)
  then have h: "c \<noteq> CHR ''-''" "c \<noteq> CHR ''+''" by (auto simp: is_digit_def)
  have "show_nat n @ ''s'' \<noteq> ''0''" using c by auto
  moreover have "duration_parts (show_nat n @ ''s'') 0 = Some (n * 10 ^ 9)"
    by (subst duration_parts.simps) (use assms in \<open>simp add: duration_part_seconds duration_parts.simps [of "[]"]\<close>)
  ultimately show ?thesis using h c assms by (auto simp: ParseDuration_def Let_def second_def)
qed

end
