(* ===== verification/WorkClient.thy ===== *)
theory WorkClient
  imports WorkList TextLines
begin

text \<open>
  \<^verbatim>\<open>cmd/spinloop/work.go\<close> and \<^verbatim>\<open>work_logs.go\<close>: the commands that work the orchestrator's list as clients of
  its API. One HTTP exchange is an argument, as are the decoders of the replies' JSON; what a command prints
  is its result.
\<close>

section \<open>One call\<close>

datatype work_error =
    NeedsURL string
  | BadToken string
  | BadAddress string
  | CallingAPI string
  | ReadingAnswer string
  | APIAnswers int string
  | BadAnswer string

text \<open>An exchange: the method, the address, the bearer and the body, and the status with the text of the answer.\<close>

datatype exchange_fault = NoRequest string | NoAnswer string | CutShort string

type_synonym exchange = "string \<Rightarrow> string \<Rightarrow> string option \<Rightarrow> string option \<Rightarrow> exchange_fault + int \<times> string"

definition workTarget :: "string \<Rightarrow> string \<Rightarrow> string + string \<Rightarrow> work_error + string \<times> string" where
  "workTarget use base token =
     (if base = '''' then Inl (NeedsURL use)
      else (case token of Inl e \<Rightarrow> Inl (BadToken e) | Inr t \<Rightarrow> Inr (base, t)))"

text \<open>The message a refusal states, and the status and the address where it states none.\<close>

definition workAPIError :: "(string \<Rightarrow> string option) \<Rightarrow> string \<Rightarrow> int \<Rightarrow> string \<Rightarrow> work_error" where
  "workAPIError message base status data =
     APIAnswers status
       (case message data of
          Some m \<Rightarrow> if m \<noteq> '''' then m else ''the work list API at '' @ base @ '' answered '' @ show_int status
        | None \<Rightarrow> ''the work list API at '' @ base @ '' answered '' @ show_int status)"

definition without_slash :: "string \<Rightarrow> string" where
  "without_slash base = (if base \<noteq> [] \<and> last base = CHR ''/'' then butlast base else base)"

definition workRequest ::
  "(string \<Rightarrow> string option) \<Rightarrow> exchange \<Rightarrow> string \<Rightarrow> string \<Rightarrow> string \<Rightarrow> string \<Rightarrow> string option \<Rightarrow> work_error + string" where
  "workRequest message ex base token method path body =
     (case ex method (without_slash base @ path) (if token \<noteq> '''' then Some (''Bearer '' @ token) else None) body of
        Inl (NoRequest e) \<Rightarrow> Inl (BadAddress e)
      | Inl (NoAnswer e) \<Rightarrow> Inl (CallingAPI e)
      | Inl (CutShort e) \<Rightarrow> Inl (ReadingAnswer e)
      | Inr (status, text) \<Rightarrow>
          (let data = take (2 ^ 20) text
           in if status < 200 \<or> status \<ge> 300 then Inl (workAPIError message base status data) else Inr data))"

section \<open>The list\<close>

definition ansiGreen :: string where "ansiGreen = CHR 0x1B # ''[92m''"
definition ansiRed :: string where "ansiRed = CHR 0x1B # ''[31m''"
definition ansiYellow :: string where "ansiYellow = CHR 0x1B # ''[33m''"
definition ansiGrey :: string where "ansiGrey = CHR 0x1B # ''[90m''"
definition ansiReset :: string where "ansiReset = CHR 0x1B # ''[0m''"

definition dash_or :: "string \<Rightarrow> string" where
  "dash_or s = (if s = '''' then ''-'' else s)"

definition workListDashed :: "item_view \<Rightarrow> string \<times> string \<times> string" where
  "workListDashed v = (dash_or (iv_Node v), dash_or (iv_StartedAt v), dash_or (iv_EndedAt v))"

definition workListColouredState :: "string \<Rightarrow> bool \<Rightarrow> string" where
  "workListColouredState st tty =
     (if \<not> tty then st
      else if st = StateDone then ansiGreen @ st @ ansiReset
      else if st = StateFailed then ansiRed @ st @ ansiReset
      else if st = StateRunning then ansiYellow @ st @ ansiReset
      else st)"

definition workListLine :: "item_view \<Rightarrow> bool \<Rightarrow> string" where
  "workListLine v tty =
     (case workListDashed v of
        (node, started, ended) \<Rightarrow>
          join_with [CHR 0x09] [iv_ID v, workListColouredState (iv_State v) tty, node, started, ended])"

definition workListHeadings :: "string list" where
  "workListHeadings = [''ID'', ''STATE'', ''NODE'', ''STARTED'', ''ENDED'']"

definition list_row :: "item_view \<Rightarrow> string list" where
  "list_row v = (case workListDashed v of (node, started, ended) \<Rightarrow> [iv_ID v, iv_State v, node, started, ended])"

text \<open>The widths of the columns but the last, which is not padded.\<close>

definition column_widths :: "string list list \<Rightarrow> nat list" where
  "column_widths rows =
     map (\<lambda>k. foldl (\<lambda>w row. max w (length (row ! k))) (length (workListHeadings ! k)) rows) [0..<4]"

definition padded_cell :: "nat \<Rightarrow> string \<Rightarrow> nat \<Rightarrow> string" where
  "padded_cell w shown len = shown @ replicate (w - len + 2) (CHR '' '')"

definition table_heading :: "nat list \<Rightarrow> string" where
  "table_heading ws =
     ansiGrey @ concat (map (\<lambda>k. padded_cell (ws ! k) (workListHeadings ! k) (length (workListHeadings ! k))) [0..<4]) @
     workListHeadings ! 4 @ ansiReset @ [CHR 0x0A]"

definition table_row :: "nat list \<Rightarrow> string list \<Rightarrow> string" where
  "table_row ws row =
     concat (map (\<lambda>k. padded_cell (ws ! k) (if k = 1 then workListColouredState (row ! 1) True else row ! k) (length (row ! k))) [0..<4]) @
     row ! 4 @ [CHR 0x0A]"

definition workListTable :: "item_view list \<Rightarrow> string" where
  "workListTable items =
     (let rows = map list_row items; ws = column_widths rows
      in table_heading ws @ concat (map (table_row ws) rows))"

definition list_items ::
  "(string \<Rightarrow> string option) \<Rightarrow> (string \<Rightarrow> item_view list option) \<Rightarrow> exchange \<Rightarrow> string \<Rightarrow> string \<Rightarrow> work_error + item_view list" where
  "list_items message decode ex base token =
     (case workRequest message ex base token ''GET'' ''/v1/items'' None of
        Inl e \<Rightarrow> Inl e
      | Inr data \<Rightarrow> (case decode data of None \<Rightarrow> Inl (BadAnswer ''items'') | Some items \<Rightarrow> Inr items))"

definition workList_print ::
  "(string \<Rightarrow> string option) \<Rightarrow> (string \<Rightarrow> item_view list option) \<Rightarrow> exchange \<Rightarrow> bool \<Rightarrow> string \<Rightarrow> string \<Rightarrow> work_error + string" where
  "workList_print message decode ex tty base token =
     map_sum id (\<lambda>items. if tty then workListTable items
         else concat (map (\<lambda>v. workListLine v False @ [CHR 0x0A]) items))
       (list_items message decode ex base token)"

section \<open>An item's log\<close>

text \<open>\<open>escape\<close> is \<^verbatim>\<open>url.PathEscape\<close>.\<close>

definition workLogFetch ::
  "(string \<Rightarrow> string option) \<Rightarrow> (string \<Rightarrow> string) \<Rightarrow> (string \<Rightarrow> string option option) \<Rightarrow> exchange \<Rightarrow> string \<Rightarrow> string \<Rightarrow> string \<Rightarrow>
   work_error + string" where
  "workLogFetch message escape decode ex base token iid =
     (case workRequest message ex base token ''GET'' (''/v1/items/'' @ escape iid @ ''/log'') None of
        Inl e \<Rightarrow> Inl e
      | Inr data \<Rightarrow>
          (case decode data of
             None \<Rightarrow> Inl (BadAnswer iid)
           | Some None \<Rightarrow> Inr ''''
           | Some (Some log) \<Rightarrow> Inr log))"

definition workItemGone :: "work_error \<Rightarrow> bool" where
  "workItemGone e \<longleftrightarrow> (case e of APIAnswers status m \<Rightarrow> status = 404 | _ \<Rightarrow> False)"

definition workItemState ::
  "(string \<Rightarrow> string option) \<Rightarrow> (string \<Rightarrow> item_view list option) \<Rightarrow> exchange \<Rightarrow> string \<Rightarrow> string \<Rightarrow> string \<Rightarrow>
   work_error + string option" where
  "workItemState message decode ex base token iid =
     map_sum id (\<lambda>items. map_option iv_State (find (\<lambda>v. iv_ID v = iid) items)) (list_items message decode ex base token)"

text \<open>What is new of a log since it was last read: all of it where it does not go on from there.\<close>

definition log_suffix :: "string \<Rightarrow> string \<Rightarrow> string" where
  "log_suffix log seen = (if prefix seen log then drop (length seen) log else log)"

text \<open>
  One round of the follow: what the fetch of the log and the reading of the state answer, and whether the
  command is interrupted in the wait after it. A list of rounds that ends first leaves the follow going.
\<close>

record follow_round =
  fo_log :: "work_error + string"
  fo_state :: "work_error + string option"
  fo_stopped :: bool

definition goes_on :: "string option \<Rightarrow> bool" where
  "goes_on st \<longleftrightarrow> (case st of None \<Rightarrow> False | Some s \<Rightarrow> s = StateBacklog \<or> s = StateRunning)"

fun follow_log :: "string \<Rightarrow> follow_round list \<Rightarrow> string \<times> work_error option option" where
  "follow_log seen [] = ('''', None)"
| "follow_log seen (r # rs) =
     (case fo_log r of
        Inl e \<Rightarrow> ('''', Some (if workItemGone e then None else Some e))
      | Inr log \<Rightarrow>
          (let new = log_suffix log seen
           in case fo_state r of
                Inl e \<Rightarrow> (new, Some (Some e))
              | Inr st \<Rightarrow>
                  if \<not> goes_on st \<or> fo_stopped r then (new, Some None)
                  else (case follow_log log rs of (out, res) \<Rightarrow> (new @ out, res))))"

definition follow_start :: "follow_round list \<Rightarrow> string \<times> work_error option option" where
  "follow_start rs = follow_log '''' rs"

section \<open>Acting on an item\<close>

definition item_path :: "(string \<Rightarrow> string) \<Rightarrow> string \<Rightarrow> string \<Rightarrow> string" where
  "item_path escape iid tail = ''/v1/items/'' @ escape iid @ tail"

definition workAbort_request ::
  "(string \<Rightarrow> string option) \<Rightarrow> (string \<Rightarrow> string) \<Rightarrow> exchange \<Rightarrow> string \<Rightarrow> string \<Rightarrow> string \<Rightarrow> work_error option" where
  "workAbort_request message escape ex base token iid =
     (case workRequest message ex base token ''POST'' (item_path escape iid ''/abort'') None of Inl e \<Rightarrow> Some e | Inr d \<Rightarrow> None)"

definition workRetry_request ::
  "(string \<Rightarrow> string option) \<Rightarrow> (string \<Rightarrow> string) \<Rightarrow> exchange \<Rightarrow> string \<Rightarrow> string \<Rightarrow> string \<Rightarrow> work_error option" where
  "workRetry_request message escape ex base token iid =
     (case workRequest message ex base token ''POST'' (item_path escape iid ''/retry'') None of Inl e \<Rightarrow> Some e | Inr d \<Rightarrow> None)"

definition workRemove_request ::
  "(string \<Rightarrow> string option) \<Rightarrow> (string \<Rightarrow> string) \<Rightarrow> exchange \<Rightarrow> string \<Rightarrow> string \<Rightarrow> string \<Rightarrow> work_error option" where
  "workRemove_request message escape ex base token iid =
     (case workRequest message ex base token ''DELETE'' (item_path escape iid '''') None of Inl e \<Rightarrow> Some e | Inr d \<Rightarrow> None)"

record add_body =
  ab_ID :: string
  ab_Instructions :: string
  ab_Dir :: string
  ab_Tags :: "string list"
  ab_Priority :: int

definition workAdd_request ::
  "(string \<Rightarrow> string option) \<Rightarrow> (add_body \<Rightarrow> string) \<Rightarrow> exchange \<Rightarrow> string \<Rightarrow> string \<Rightarrow> add_body \<Rightarrow> work_error option" where
  "workAdd_request message encode ex base token body =
     (case workRequest message ex base token ''POST'' ''/v1/items'' (Some (encode body)) of Inl e \<Rightarrow> Some e | Inr d \<Rightarrow> None)"

section \<open>A follow prints each byte once\<close>

text \<open>The logs that the rounds of a follow fetch, up to the one that ends it.\<close>

fun fetched :: "follow_round list \<Rightarrow> string list" where
  "fetched [] = []"
| "fetched (r # rs) =
     (case fo_log r of
        Inl e \<Rightarrow> []
      | Inr log \<Rightarrow> log # (case fo_state r of Inl e \<Rightarrow> [] | Inr st \<Rightarrow> if \<not> goes_on st \<or> fo_stopped r then [] else fetched rs))"

lemma log_suffix_grown [simp]: "log_suffix (seen @ new) seen = new"
  by (simp add: log_suffix_def)

lemma follow_log_grows:
  "sorted_wrt prefix (seen # fetched rs) \<Longrightarrow> last (seen # fetched rs) = seen @ fst (follow_log seen rs)"
proof (induction seen rs rule: follow_log.induct)
  case (1 seen)
  then show ?case by simp
next
  case (2 seen r rs)
  show ?case
  proof (cases "fo_log r")
    case (Inl e)
    then show ?thesis by simp
  next
    case (Inr log)
    then obtain new where new: "log = seen @ new" using "2.prems" by (auto simp: prefix_def split: sum.splits if_splits)
    show ?thesis
    proof (cases "\<exists>st. fo_state r = Inr st \<and> goes_on st \<and> \<not> fo_stopped r")
      case True
      then obtain st where st: "fo_state r = Inr st" "goes_on st" "\<not> fo_stopped r" by blast
      have f: "fetched (r # rs) = log # fetched rs" using st by (simp add: Inr)
      have "last (log # fetched rs) = log @ fst (follow_log log rs)"
        using "2.IH" [OF Inr _ st(1)] st "2.prems" f by simp
      moreover have "fst (follow_log seen (r # rs)) = new @ fst (follow_log log rs)"
        using st by (simp add: Inr new split: prod.split)
      ultimately show ?thesis unfolding f by (simp add: new)
    next
      case False
      then show ?thesis using Inr new by (auto split: sum.splits)
    qed
  qed
qed

text \<open>
  As long as each log that is fetched goes on from the one before it, what a follow has printed is the log it
  last fetched: no byte of it twice and none left out.
\<close>

theorem follow_prints_once:
  assumes "sorted_wrt prefix (fetched rs)" and "fetched rs \<noteq> []"
  shows "fst (follow_start rs) = last (fetched rs)"
  using follow_log_grows [of "''''" rs] assms by (simp add: follow_start_def)

theorem follow_prints_once_witness:
  "fst (follow_start [\<lparr>fo_log = Inr ''one'', fo_state = Inr (Some StateRunning), fo_stopped = False\<rparr>,
      \<lparr>fo_log = Inr ''one, two'', fo_state = Inr (Some StateDone), fo_stopped = False\<rparr>]) = ''one, two''"
proof -
  let ?rs = "[\<lparr>fo_log = Inr ''one'', fo_state = Inr (Some StateRunning), fo_stopped = False\<rparr>,
      \<lparr>fo_log = Inr ''one, two'', fo_state = Inr (Some StateDone), fo_stopped = False\<rparr>]"
  have "fetched ?rs = [''one'', ''one, two'']" by (simp add: goes_on_def)
  then show ?thesis using follow_prints_once [of ?rs] by simp
qed

section \<open>The table stands in columns\<close>

text \<open>Where a column begins, and the escape codes that stand before it in a row.\<close>

definition column_start :: "nat list \<Rightarrow> nat \<Rightarrow> nat" where
  "column_start ws k = sum_list (map (\<lambda>w. w + 2) (take k ws))"

definition shown_cell :: "string list \<Rightarrow> nat \<Rightarrow> string" where
  "shown_cell row k = (if k = 1 then workListColouredState (row ! 1) True else row ! k)"

definition codes_before :: "string list \<Rightarrow> nat \<Rightarrow> nat" where
  "codes_before row k = (if k > 1 then length (shown_cell row 1) - length (row ! 1) else 0)"

lemma foldl_max_start: "(w :: nat) \<le> foldl (\<lambda>w r. max w (f r)) w rs"
  by (induction rs arbitrary: w) (simp, force intro: order_trans [OF max.cobounded1])

lemma foldl_max_ge: "r \<in> set rs \<Longrightarrow> f r \<le> foldl (\<lambda>w r. max w (f r)) (w :: nat) rs"
proof (induction rs arbitrary: w)
  case (Cons a rs)
  have "f a \<le> foldl (\<lambda>w r. max w (f r)) (max w (f a)) rs"
    using foldl_max_start [of "max w (f a)" f rs] by (rule order_trans [OF max.cobounded2])
  with Cons show ?case by auto
qed simp

lemma list_row_length: "length (list_row v) = 5"
  by (simp add: list_row_def workListDashed_def)

lemma column_widths_cover:
  "row \<in> set rows \<Longrightarrow> k < 4 \<Longrightarrow> length (row ! k) \<le> column_widths rows ! k"
  unfolding column_widths_def using foldl_max_ge [of row rows "\<lambda>row. length (row ! k)"] by simp

lemma column_widths_length: "length (column_widths rows) = 4"
  by (simp add: column_widths_def)

lemma length_coloured: "length st \<le> length (workListColouredState st True)"
  by (simp add: workListColouredState_def)

lemma four_cells: "concat (map f [0..<4]) = f 0 @ f 1 @ f 2 @ f (3 :: nat)"
  by (simp add: upt_rec numeral_2_eq_2 numeral_3_eq_3)

lemma below_five: "(k :: nat) < 5 \<Longrightarrow> k \<in> {0, 1, 2, 3, 4}"
  by auto

text \<open>Four padded cells and a last one: where each begins, given how much longer the text of a cell is than it shows.\<close>

lemma laid_out:
  assumes "length ws = 4" and "\<forall>j < 4. ln j \<le> ws ! j \<and> ln j \<le> length (sh j)" and "k < 5"
  shows "\<exists>pre post. concat (map (\<lambda>k. padded_cell (ws ! k) (sh k) (ln k)) [0..<4]) @ sh 4 @ fin = pre @ sh k @ post \<and>
    length pre = column_start ws k + (\<Sum>j < k. length (sh j) - ln j)"
proof -
  let ?cell = "\<lambda>k. padded_cell (ws ! k) (sh k) (ln k)"
  obtain w0 w1 w2 w3 where ws: "ws = [w0, w1, w2, w3]"
    using assms(1) by (auto simp: numeral_eq_Suc length_Suc_conv)
  have le: "ln 0 \<le> w0" "ln 1 \<le> w1" "ln 2 \<le> w2" "ln 3 \<le> w3"
    "ln 0 \<le> length (sh 0)" "ln 1 \<le> length (sh 1)" "ln 2 \<le> length (sh 2)" "ln 3 \<le> length (sh 3)"
    using assms(2) [THEN spec, of 0] assms(2) [THEN spec, of 1] assms(2) [THEN spec, of 2] assms(2) [THEN spec, of 3]
    unfolding ws by simp_all
  have c: "length (?cell 0) = w0 + 2 + (length (sh 0) - ln 0)" "length (?cell 1) = w1 + 2 + (length (sh 1) - ln 1)"
    "length (?cell 2) = w2 + 2 + (length (sh 2) - ln 2)" "length (?cell 3) = w3 + 2 + (length (sh 3) - ln 3)"
    using le by (simp_all add: padded_cell_def ws)
  let ?pad = "\<lambda>k. replicate (ws ! k - ln k + 2) (CHR '' '')" and ?tail = "sh 4 @ fin"
  have cell: "?cell k = sh k @ ?pad k" for k by (simp add: padded_cell_def)
  have t: "concat (map ?cell [0..<4]) @ sh 4 @ fin = ?cell 0 @ ?cell 1 @ ?cell 2 @ ?cell 3 @ ?tail"
    unfolding four_cells by simp
  note s = column_start_def ws lessThan_Suc numeral_eq_Suc
  from below_five [OF assms(3)] consider "k = 0" | "k = 1" | "k = 2" | "k = 3" | "k = 4" by blast
  then show ?thesis
  proof cases
    case 1
    show ?thesis unfolding t cell [of 0] 1
      by (intro exI [of _ "[]"] exI [of _ "?pad 0 @ ?cell 1 @ ?cell 2 @ ?cell 3 @ ?tail"]) (simp add: column_start_def)
  next
    case 2
    show ?thesis unfolding t cell [of 1] 2
      by (intro exI [of _ "?cell 0"] exI [of _ "?pad 1 @ ?cell 2 @ ?cell 3 @ ?tail"]) (use c in \<open>simp add: s\<close>)
  next
    case 3
    show ?thesis unfolding t cell [of 2] 3
      by (intro exI [of _ "?cell 0 @ ?cell 1"] exI [of _ "?pad 2 @ ?cell 3 @ ?tail"]) (use c in \<open>simp add: s\<close>)
  next
    case 4
    show ?thesis unfolding t cell [of 3] 4
      by (intro exI [of _ "?cell 0 @ ?cell 1 @ ?cell 2"] exI [of _ "?pad 3 @ ?tail"]) (use c in \<open>simp add: s\<close>)
  next
    case 5
    show ?thesis unfolding t 5
      by (intro exI [of _ "?cell 0 @ ?cell 1 @ ?cell 2 @ ?cell 3"] exI [of _ fin]) (use c in \<open>simp add: s\<close>)
  qed
qed

text \<open>
  The table has a heading and a line for each item, in their order, and each column begins at the same place
  in all of them, however long the values are; only a state's colour, which takes no room on the screen,
  stands between.
\<close>

theorem table_aligned:
  "\<exists>ws lines. workListTable items = table_heading ws @ concat lines \<and> length lines = length items \<and> length ws = 4 \<and>
     (\<forall>i < length items. \<forall>k < 5. \<exists>pre post. lines ! i = pre @ shown_cell (list_row (items ! i)) k @ post \<and>
        length pre = column_start ws k + codes_before (list_row (items ! i)) k) \<and>
     (\<forall>k < 5. \<exists>pre post. table_heading ws = ansiGrey @ pre @ workListHeadings ! k @ post \<and> length pre = column_start ws k)"
proof -
  let ?rows = "map list_row items"
  let ?ws = "column_widths ?rows"
  have rows: "\<exists>pre post. table_row ?ws (list_row (items ! i)) = pre @ shown_cell (list_row (items ! i)) k @ post \<and>
        length pre = column_start ?ws k + codes_before (list_row (items ! i)) k" if i: "i < length items" and k: "k < 5" for i k
  proof -
    let ?row = "list_row (items ! i)"
    have fit: "\<forall>j < 4. length (?row ! j) \<le> ?ws ! j \<and> length (?row ! j) \<le> length (shown_cell ?row j)"
      using column_widths_cover [of ?row ?rows] i length_coloured by (auto simp: shown_cell_def)
    have "table_row ?ws ?row = concat (map (\<lambda>k. padded_cell (?ws ! k) (shown_cell ?row k) (length (?row ! k))) [0..<4]) @ shown_cell ?row 4 @ [CHR 0x0A]"
      by (simp add: table_row_def shown_cell_def)
    moreover have "(\<Sum>j < k. length (shown_cell ?row j) - length (?row ! j)) = codes_before ?row k"
    proof -
      have "length (shown_cell ?row j) - length (?row ! j) = (if j = 1 then length (shown_cell ?row 1) - length (?row ! 1) else 0)" for j
        by (simp add: shown_cell_def)
      then show ?thesis by (simp add: codes_before_def)
    qed
    ultimately show ?thesis using laid_out [OF column_widths_length fit k, of "[CHR 0x0A]"] by simp
  qed
  have head: "\<exists>pre post. table_heading ?ws = ansiGrey @ pre @ workListHeadings ! k @ post \<and> length pre = column_start ?ws k"
    if k: "k < 5" for k
  proof -
    have "x \<le> foldl (\<lambda>w r. max w (length (r ! j))) x ?rows" for x j by (rule foldl_max_start)
    then have fit: "\<forall>j < 4. length (workListHeadings ! j) \<le> ?ws ! j \<and> length (workListHeadings ! j) \<le> length (workListHeadings ! j)"
      by (simp add: column_widths_def)
    show ?thesis unfolding table_heading_def
      using laid_out [OF column_widths_length fit k, of "ansiReset @ [CHR 0x0A]"] by auto
  qed
  show ?thesis unfolding workListTable_def Let_def
    by (intro exI [of _ ?ws] exI [of _ "map (table_row ?ws) ?rows"]) (use rows head in \<open>simp add: column_widths_length\<close>)
qed


definition one_item :: item_view where
  "one_item = \<lparr>iv_ID = ''a'', iv_Instructions = ''x'', iv_Dir = ''/d'', iv_Tags = [], iv_Priority = 0, iv_State = StateDone,
     iv_Node = ''n1'', iv_Why = '''', iv_StartedAt = '''', iv_EndedAt = ''''\<rparr>"

theorem table_aligned_witness:
  "\<exists>ws line pre post. workListTable [one_item] = table_heading ws @ line \<and> line = pre @ ''n1'' @ post \<and>
     length pre = column_start ws 2 + codes_before (list_row one_item) 2"
proof -
  obtain ws lines where t: "workListTable [one_item] = table_heading ws @ concat lines" "length lines = length [one_item]"
    and cells: "\<forall>i < length [one_item]. \<forall>k < 5. \<exists>pre post. lines ! i = pre @ shown_cell (list_row ([one_item] ! i)) k @ post \<and>
        length pre = column_start ws k + codes_before (list_row ([one_item] ! i)) k"
    using table_aligned [of "[one_item]"] by blast
  obtain l where l: "lines = [l]" using t(2) by (cases lines) auto
  have "\<exists>pre post. l = pre @ shown_cell (list_row one_item) 2 @ post \<and>
      length pre = column_start ws 2 + codes_before (list_row one_item) 2"
    using cells [rule_format, of 0 2] l by simp
  moreover have "shown_cell (list_row one_item) 2 = ''n1''"
    by (simp add: shown_cell_def list_row_def one_item_def workListDashed_def dash_or_def)
  ultimately show ?thesis using t(1) l by auto
qed

end
