(* ===== verification/WorkBoard.thy ===== *)
theory WorkBoard
  imports WorkClient
begin

text \<open>
  \<^verbatim>\<open>cmd/spinloop/work_board_model.go\<close>: the screen of \<^verbatim>\<open>work board\<close> as a state and what each key and each
  answer does to it. What the program has running beside the screen (a tick, a round of reading, a call, a
  poll of a log) is a command that the update returns; its answer comes back as a message. The text inputs
  and the room that the drawing leaves for a log are arguments. Times are counts of nanoseconds.
\<close>

section \<open>The state\<close>

datatype verb = Abort | Retry | Remove | Add

primrec verb_name :: "verb \<Rightarrow> string" where
  "verb_name Abort = ''abort''"
| "verb_name Retry = ''retry''"
| "verb_name Remove = ''remove''"
| "verb_name Add = ''add''"

text \<open>The one call that is out: what it does, to which item, since when.\<close>

record board_action =
  ba_verb :: verb
  ba_id :: string
  ba_since :: int

text \<open>A key: its name, and the characters it types where it types any.\<close>

record key =
  k_name :: string
  k_runes :: "string option"

record 't inputs =
  in_new :: "int \<Rightarrow> 't"
  in_value :: "'t \<Rightarrow> string"
  in_clear :: "'t \<Rightarrow> 't"
  in_focus :: "'t \<Rightarrow> 't"
  in_blur :: "'t \<Rightarrow> 't"
  in_key :: "key \<Rightarrow> 't \<Rightarrow> 't"

record 't board_form =
  bf_fields :: "'t list"
  bf_cursor :: nat
  bf_err :: string

record 't board =
  bd_items :: "item_view list"
  bd_readingAt :: "int option"
  bd_readErr :: string
  bd_column :: int
  bd_row :: int
  bd_scrolls :: "int list"
  bd_busy :: bool
  bd_action :: "board_action option"
  bd_status :: string
  bd_detail :: bool
  bd_detailItem :: "item_view option"
  bd_detailGen :: nat
  bd_detailBusy :: bool
  bd_detailSeen :: string
  bd_detailLog :: string
  bd_detailNote :: string
  bd_formOpen :: bool
  bd_formAsk :: bool
  bd_form :: "'t board_form"
  bd_confirm :: "verb option"
  bd_width :: int
  bd_height :: int

datatype cmd =
    TickCmd
  | SpinCmd
  | ReadCmd
  | ActCmd verb string
  | AddCmd add_body
  | TailTickCmd
  | TailCmd nat string
  | QuitCmd

datatype msg =
    WindowSize int int
  | TickMsg
  | SpinMsg
  | TailTickMsg
  | ReadMsg "string + item_view list" int
  | ActionMsg verb string "string option"
  | TailMsg nat "(bool \<times> string) + string"
  | KeyMsg key

section \<open>The form\<close>

definition workFormLabels :: "string list" where
  "workFormLabels = [''id*'', ''instructions*'', ''dir*'', ''tags'', ''priority'']"

definition workFormPriority :: nat where
  "workFormPriority = 4"

definition form_focus :: "'t inputs \<Rightarrow> int \<Rightarrow> 't board_form \<Rightarrow> 't board_form" where
  "form_focus io i f =
     (if i < 0 \<or> i \<ge> int (length (bf_fields f)) then f
      else
        (let fields = (bf_fields f)[bf_cursor f := in_blur io (bf_fields f ! bf_cursor f)]
         in f\<lparr>bf_fields := fields[nat i := in_focus io (fields ! nat i)], bf_cursor := nat i\<rparr>))"

definition newWorkBoardForm :: "'t inputs \<Rightarrow> int \<Rightarrow> 't board_form" where
  "newWorkBoardForm io width =
     form_focus io 0 \<lparr>bf_fields = replicate (length workFormLabels) (in_new io width), bf_cursor = 0, bf_err = ''''\<rparr>"

definition dirty :: "'t inputs \<Rightarrow> 't board_form \<Rightarrow> bool" where
  "dirty io f \<longleftrightarrow> list_ex (\<lambda>t. in_value io t \<noteq> '''') (bf_fields f)"

definition form_values :: "'t inputs \<Rightarrow> 't board_form \<Rightarrow> string + add_body" where
  "form_values io f =
     (let field = (\<lambda>i. in_value io (bf_fields f ! i)); v = trim_space (field workFormPriority)
      in case (if v = '''' then Some 0 else parse_int v) of
           None \<Rightarrow> Inl v
         | Some p \<Rightarrow>
             Inr \<lparr>ab_ID = field 0, ab_Instructions = field 1, ab_Dir = field 2, ab_Tags = str_fields (field 3), ab_Priority = p\<rparr>)"

definition form_clear :: "'t inputs \<Rightarrow> 't board_form \<Rightarrow> 't board_form" where
  "form_clear io f = form_focus io 0 (f\<lparr>bf_fields := map (in_clear io) (bf_fields f), bf_cursor := 0, bf_err := ''''\<rparr>)"

section \<open>The columns\<close>

definition workBoardColumns :: "string list" where
  "workBoardColumns = [StateBacklog, StateRunning, StateDone, StateFailed]"

definition column_of :: "item_view list \<Rightarrow> string \<Rightarrow> nat list" where
  "column_of items st = filter (\<lambda>i. iv_State (items ! i) = st) [0..<length items]"

definition columnIndexes :: "item_view list \<Rightarrow> nat list list" where
  "columnIndexes items = map (column_of items) workBoardColumns"

definition selectedItem :: "'t board \<Rightarrow> item_view option" where
  "selectedItem m =
     (let cols = columnIndexes (bd_items m); c = bd_column m; r = bd_row m
      in if c \<ge> int (length cols) \<or> r < 0 \<or> r \<ge> int (length (cols ! nat c)) then None
         else Some (bd_items m ! (cols ! nat c ! nat r)))"

definition itemByID :: "item_view list \<Rightarrow> string \<Rightarrow> item_view option" where
  "itemByID items iid = find (\<lambda>v. iv_ID v = iid) items"

definition effWidth :: "'t board \<Rightarrow> int" where
  "effWidth m = (if bd_width m < 1 then 80 else bd_width m)"

definition effHeight :: "'t board \<Rightarrow> int" where
  "effHeight m = (if bd_height m < 1 then 24 else bd_height m)"

text \<open>Three fixed rows, and six for each card.\<close>

definition visibleCards :: "'t board \<Rightarrow> int" where
  "visibleCards m = (let r = (effHeight m - 3) div 6 in if r < 1 then 1 else r)"

definition formWidth :: "'t board \<Rightarrow> int" where
  "formWidth m = (let w = effWidth m - 4 in if w > 64 then 64 else if w < 30 then effWidth m else w)"

definition formFieldWidth :: "'t board \<Rightarrow> int" where
  "formFieldWidth m = (let w = formWidth m - 2 - 2 - 13 - 2 in if w < 10 then 10 else w)"

definition workBoardClampScroll :: "int \<Rightarrow> int \<Rightarrow> int \<Rightarrow> int" where
  "workBoardClampScroll from cards avail =
     (let limit = (if cards - avail < 0 then 0 else cards - avail)
      in if from > limit then limit else if from < 0 then 0 else from)"

definition column_length :: "'t board \<Rightarrow> int \<Rightarrow> int" where
  "column_length m c = int (length (columnIndexes (bd_items m) ! nat c))"

definition keepVisible :: "'t board \<Rightarrow> 't board" where
  "keepVisible m =
     (let c = bd_column m; r = bd_row m; avail = visibleCards m; s = bd_scrolls m ! nat c;
          s = (if r < s \<or> r \<ge> s + avail then r else s)
      in m\<lparr>bd_scrolls := (bd_scrolls m)[nat c := workBoardClampScroll s (column_length m c) avail]\<rparr>)"

definition anyCards :: "nat list list \<Rightarrow> bool" where
  "anyCards cols \<longleftrightarrow> list_ex (\<lambda>col. col \<noteq> []) cols"

text \<open>The columns at the distances 1, 2 and 3, the left one first.\<close>

definition nearestColumn :: "nat list list \<Rightarrow> int \<Rightarrow> int" where
  "nearestColumn cols from =
     (case find (\<lambda>c. 0 \<le> c \<and> c < int (length workBoardColumns) \<and> cols ! nat c \<noteq> [])
         (concat (map (\<lambda>d. [from - d, from + d]) [1, 2, 3])) of
        None \<Rightarrow> -1
      | Some c \<Rightarrow> c)"

definition fit_row :: "int \<Rightarrow> int \<Rightarrow> int" where
  "fit_row r len = (let r = (if r \<ge> len then len - 1 else r) in if r < 0 then 0 else r)"

definition clamp :: "'t board \<Rightarrow> 't board" where
  "clamp m =
     (let cols = columnIndexes (bd_items m); c = bd_column m;
          c = (if c \<ge> int (length cols) \<or> (cols ! nat c = [] \<and> anyCards cols)
               then (let next = nearestColumn cols c in if next \<ge> 0 then next else c) else c);
          m = m\<lparr>bd_column := c, bd_row := fit_row (bd_row m) (column_length m c)\<rparr>;
          m = m\<lparr>bd_scrolls := map (\<lambda>i. workBoardClampScroll (bd_scrolls m ! i) (column_length m (int i)) (visibleCards m))
                  [0..<length (bd_scrolls m)]\<rparr>
      in keepVisible m)"

definition moveRow :: "int \<Rightarrow> 't board \<Rightarrow> 't board" where
  "moveRow delta m =
     (let len = column_length m (bd_column m); r = bd_row m + delta; r = (if r < 0 then 0 else r)
      in keepVisible (m\<lparr>bd_row := fit_row r len\<rparr>))"

text \<open>The columns that a step passes, up to the edge.\<close>

definition columns_beyond :: "int \<Rightarrow> int \<Rightarrow> int list" where
  "columns_beyond c delta = (if delta < 0 then map int (rev [0..<nat c]) else map int [nat (c + 1)..<length workBoardColumns])"

definition moveColumn :: "int \<Rightarrow> 't board \<Rightarrow> 't board" where
  "moveColumn delta m =
     (case find (\<lambda>c. columnIndexes (bd_items m) ! nat c \<noteq> []) (columns_beyond (bd_column m) delta) of
        None \<Rightarrow> m
      | Some c \<Rightarrow> keepVisible (m\<lparr>bd_column := c, bd_row := 0\<rparr>))"

section \<open>Rounds, calls and polls\<close>

definition newWorkBoardModel :: "'t board_form \<Rightarrow> 't board" where
  "newWorkBoardModel form =
     \<lparr>bd_items = [], bd_readingAt = None, bd_readErr = '''', bd_column = 0, bd_row = 0, bd_scrolls = [0, 0, 0, 0],
      bd_busy = False, bd_action = None, bd_status = '''', bd_detail = False, bd_detailItem = None, bd_detailGen = 0,
      bd_detailBusy = False, bd_detailSeen = '''', bd_detailLog = '''', bd_detailNote = '''', bd_formOpen = False,
      bd_formAsk = False, bd_form = form, bd_confirm = None, bd_width = 0, bd_height = 0\<rparr>"

definition startRound :: "'t board \<Rightarrow> 't board \<times> cmd list" where
  "startRound m = (if bd_busy m then (m, []) else (m\<lparr>bd_busy := True\<rparr>, [ReadCmd]))"

definition board_Init :: "'t board \<Rightarrow> 't board \<times> cmd list" where
  "board_Init m = (case startRound m of (m', cs) \<Rightarrow> (m', TickCmd # cs))"

definition still_acting :: "board_action \<Rightarrow> string" where
  "still_acting a = ''still '' @ verb_name (ba_verb a) @ ''ing '' @ ba_id a"

definition beginAction :: "int \<Rightarrow> verb \<Rightarrow> string \<Rightarrow> 't board \<Rightarrow> 't board \<times> cmd list" where
  "beginAction now v iid m =
     (case bd_action m of
        Some a \<Rightarrow> (m\<lparr>bd_status := still_acting a\<rparr>, [])
      | None \<Rightarrow> (m\<lparr>bd_action := Some \<lparr>ba_verb = v, ba_id = iid, ba_since = now\<rparr>\<rparr>, [ActCmd v iid, SpinCmd]))"

definition beginAdd :: "int \<Rightarrow> add_body \<Rightarrow> 't board \<Rightarrow> 't board \<times> cmd list" where
  "beginAdd now body m =
     (case bd_action m of
        Some a \<Rightarrow> (m\<lparr>bd_status := still_acting a\<rparr>, [])
      | None \<Rightarrow> (m\<lparr>bd_action := Some \<lparr>ba_verb = Add, ba_id = ab_ID body, ba_since = now\<rparr>\<rparr>, [AddCmd body, SpinCmd]))"

text \<open>\<^verbatim>\<open>%q\<close> of a text that needs no escapes, as an item's id.\<close>

definition in_quotes :: "string \<Rightarrow> string" where
  "in_quotes s = [CHR 0x22] @ s @ [CHR 0x22]"

definition workBoardActionLine :: "verb \<Rightarrow> string \<Rightarrow> string option \<Rightarrow> string" where
  "workBoardActionLine v iid err =
     (case err of
        Some e \<Rightarrow> e
      | None \<Rightarrow>
          (case v of
             Abort \<Rightarrow> ''item '' @ in_quotes iid @ '' stopped: it is back in the backlog''
           | Retry \<Rightarrow> ''item '' @ in_quotes iid @ '' is back in the backlog''
           | Remove \<Rightarrow> ''item '' @ in_quotes iid @ '' removed''
           | Add \<Rightarrow> ''item '' @ in_quotes iid @ '' added''))"

definition ended :: "string \<Rightarrow> bool" where
  "ended st \<longleftrightarrow> st \<noteq> StateBacklog \<and> st \<noteq> StateRunning"

definition startTailRound :: "'t board \<Rightarrow> 't board \<times> cmd list" where
  "startTailRound m =
     (case bd_detailItem m of
        None \<Rightarrow> (m, [])
      | Some v \<Rightarrow>
          if bd_detailBusy m \<or> iv_ID v = '''' then (m, [])
          else if (case itemByID (bd_items m) (iv_ID v) of Some w \<Rightarrow> ended (iv_State w) | None \<Rightarrow> False) then (m, [])
          else (m\<lparr>bd_detailBusy := True\<rparr>, [TailCmd (bd_detailGen m) (iv_ID v)]))"

definition openDetail :: "item_view \<Rightarrow> 't board \<Rightarrow> 't board \<times> cmd list" where
  "openDetail v m =
     (case startTailRound (m\<lparr>bd_detail := True, bd_detailItem := Some v, bd_detailGen := Suc (bd_detailGen m),
          bd_detailBusy := False, bd_detailSeen := '''', bd_detailLog := '''', bd_detailNote := ''''\<rparr>) of
        (m', cs) \<Rightarrow> (m', TailTickCmd # cs))"

text \<open>\<^verbatim>\<open>lastLines\<close>: the last lines of a text, each with its line feed.\<close>

fun split_after :: "string \<Rightarrow> string list" where
  "split_after [] = []"
| "split_after (c # s) =
     (if c = CHR 0x0A then [c] # split_after s
      else (case split_after s of [] \<Rightarrow> [[c]] | l # ls \<Rightarrow> (c # l) # ls))"

definition lastLines :: "string \<Rightarrow> int \<Rightarrow> string" where
  "lastLines s n =
     (let ls = split_after s
      in if s = '''' \<or> n \<le> 0 \<or> int (length ls) \<le> n then s else concat (drop (length ls - nat n) ls))"

text \<open>The answer of a poll: that the item is gone or another fault with its text, or the log.\<close>

definition applyTail :: "('t board \<Rightarrow> int) \<Rightarrow> (bool \<times> string) + string \<Rightarrow> 't board \<Rightarrow> 't board" where
  "applyTail room ans m =
     (case ans of
        Inl (True, e) \<Rightarrow> m\<lparr>bd_detailNote := ''the item is no longer in the list''\<rparr>
      | Inl (False, e) \<Rightarrow> if bd_detailLog m = '''' then m\<lparr>bd_detailNote := e\<rparr> else m
      | Inr log \<Rightarrow>
          (let added = log_suffix log (bd_detailSeen m); m = m\<lparr>bd_detailSeen := log\<rparr>
           in if added \<noteq> '''' then m\<lparr>bd_detailLog := lastLines (bd_detailLog m @ added) (room m), bd_detailNote := ''''\<rparr>
              else if bd_detailLog m = '''' then m\<lparr>bd_detailNote := ''no kept output yet''\<rparr>
              else m))"

definition retainDetail :: "'t board \<Rightarrow> 't board" where
  "retainDetail m =
     (if \<not> bd_detail m then m
      else (case bd_detailItem m of
          None \<Rightarrow> m
        | Some v \<Rightarrow> (case itemByID (bd_items m) (iv_ID v) of None \<Rightarrow> m | Some w \<Rightarrow> m\<lparr>bd_detailItem := Some w\<rparr>)))"

section \<open>Keys\<close>

definition closeForm :: "'t inputs \<Rightarrow> string \<Rightarrow> 't board \<Rightarrow> 't board" where
  "closeForm io status m =
     m\<lparr>bd_formOpen := False, bd_formAsk := False, bd_form := form_clear io (bd_form m), bd_status := status\<rparr>"

definition sendForm :: "'t inputs \<Rightarrow> int \<Rightarrow> 't board \<Rightarrow> 't board \<times> cmd list" where
  "sendForm io now m =
     (case form_values io (bd_form m) of
        Inl v \<Rightarrow> (m\<lparr>bd_form := (bd_form m)\<lparr>bf_err := ''priority '' @ in_quotes v @ '' is not a number''\<rparr>\<rparr>, [])
      | Inr body \<Rightarrow> beginAdd now body (m\<lparr>bd_form := (bd_form m)\<lparr>bf_err := ''''\<rparr>\<rparr>))"

definition moved_focus :: "'t inputs \<Rightarrow> int \<Rightarrow> 't board \<Rightarrow> 't board" where
  "moved_focus io delta m = m\<lparr>bd_form := form_focus io (int (bf_cursor (bd_form m)) + delta) (bd_form m)\<rparr>"

definition typed :: "'t inputs \<Rightarrow> key \<Rightarrow> 't board \<Rightarrow> 't board" where
  "typed io k m =
     (let f = bd_form m; i = bf_cursor f in m\<lparr>bd_form := f\<lparr>bf_fields := (bf_fields f)[i := in_key io k (bf_fields f ! i)]\<rparr>\<rparr>)"

definition updateFormKey :: "'t inputs \<Rightarrow> int \<Rightarrow> key \<Rightarrow> 't board \<Rightarrow> 't board \<times> cmd list" where
  "updateFormKey io now k m =
     (if k_name k = ''esc'' then
        (if dirty io (bd_form m) then (m\<lparr>bd_formAsk := True\<rparr>, []) else (closeForm io ''nothing added'' m, []))
      else if k_name k = ''up'' then (moved_focus io (-1) m, [])
      else if k_name k = ''down'' \<or> k_name k = ''tab'' then (moved_focus io 1 m, [])
      else if k_name k = ''enter'' then
        (if bf_cursor (bd_form m) < length (bf_fields (bd_form m)) - 1 then (moved_focus io 1 m, []) else sendForm io now m)
      else
        (case (if bf_cursor (bd_form m) = workFormPriority then k_runes k else None) of
           None \<Rightarrow> (typed io k m, [])
         | Some rs \<Rightarrow>
             (let allowed = filter (\<lambda>c. is_digit c \<or> c = CHR ''-'') rs
              in if allowed = [] then (m, []) else (typed io \<lparr>k_name = allowed, k_runes = Some allowed\<rparr> m, []))))"

definition updateFormAsk :: "'t inputs \<Rightarrow> key \<Rightarrow> 't board \<Rightarrow> 't board \<times> cmd list" where
  "updateFormAsk io k m =
     (if k_name k = ''y'' then (closeForm io ''nothing added'' m, [])
      else if k_name k = ''n'' \<or> k_name k = ''esc'' then (m\<lparr>bd_formAsk := False\<rparr>, [])
      else if k_name k = ''q'' \<or> k_name k = ''ctrl+c'' then (m\<lparr>bd_formOpen := False, bd_formAsk := False\<rparr>, [QuitCmd])
      else (m, []))"

definition updateBoardKey :: "'t inputs \<Rightarrow> int \<Rightarrow> key \<Rightarrow> 't board \<Rightarrow> 't board \<times> cmd list" where
  "updateBoardKey io now k m =
     (let name = k_name k; sel = selectedItem m
      in if name = ''q'' \<or> name = ''ctrl+c'' then (m, [QuitCmd])
         else if name = ''up'' then (moveRow (-1) m, [])
         else if name = ''down'' then (moveRow 1 m, [])
         else if name = ''left'' then (moveColumn (-1) m, [])
         else if name = ''right'' then (moveColumn 1 m, [])
         else if name = ''enter'' then (case sel of None \<Rightarrow> (m, []) | Some v \<Rightarrow> openDetail v m)
         else if name = ''a'' then (case sel of None \<Rightarrow> (m, []) | Some v \<Rightarrow> beginAction now Abort (iv_ID v) m)
         else if name = ''t'' then (if sel = None then (m, []) else (m\<lparr>bd_confirm := Some Retry\<rparr>, []))
         else if name = ''x'' then (if sel = None then (m, []) else (m\<lparr>bd_confirm := Some Remove\<rparr>, []))
         else if name = ''n'' then
           (m\<lparr>bd_formOpen := True, bd_formAsk := False, bd_form := newWorkBoardForm io (formFieldWidth m)\<rparr>, [])
         else if name = ''r'' then startRound m
         else (m, []))"

definition updateConfirm :: "int \<Rightarrow> verb \<Rightarrow> key \<Rightarrow> 't board \<Rightarrow> 't board \<times> cmd list" where
  "updateConfirm now v k m =
     (let m' = m\<lparr>bd_confirm := None\<rparr>
      in if k_name k = ''y'' then (case selectedItem m of None \<Rightarrow> (m', []) | Some it \<Rightarrow> beginAction now v (iv_ID it) m')
         else if k_name k = ''n'' \<or> k_name k = ''esc'' then
           (m'\<lparr>bd_status := ''declined '' @ [CHR 0xE2, CHR 0x80, CHR 0x94] @ '' '' @
                (if v = Retry then ''nothing retried'' else ''nothing removed'')\<rparr>, [])
         else if k_name k = ''q'' \<or> k_name k = ''ctrl+c'' then (m', [QuitCmd])
         else (m, []))"

definition updateKey :: "'t inputs \<Rightarrow> int \<Rightarrow> key \<Rightarrow> 't board \<Rightarrow> 't board \<times> cmd list" where
  "updateKey io now k m =
     (if bd_formOpen m then (if bd_formAsk m then updateFormAsk io k m else updateFormKey io now k m)
      else (case bd_confirm m of
          Some v \<Rightarrow> updateConfirm now v k m
        | None \<Rightarrow>
            if bd_detail m then (if k_name k = ''esc'' then (m\<lparr>bd_detail := False\<rparr>, []) else (m, []))
            else updateBoardKey io now k m))"

section \<open>Messages\<close>

definition before :: "int \<Rightarrow> int option \<Rightarrow> bool" where
  "before t u \<longleftrightarrow> (case u of None \<Rightarrow> False | Some n \<Rightarrow> t < n)"

definition read_answer :: "string + item_view list \<Rightarrow> int \<Rightarrow> 't board \<Rightarrow> 't board" where
  "read_answer ans t m =
     (let m = m\<lparr>bd_busy := False\<rparr>
      in case ans of
           Inl e \<Rightarrow> m\<lparr>bd_readErr := e\<rparr>
         | Inr items \<Rightarrow>
             if before t (bd_readingAt m) then m
             else clamp (retainDetail (m\<lparr>bd_readErr := '''', bd_items := items, bd_readingAt := Some t\<rparr>)))"

definition action_answer :: "'t inputs \<Rightarrow> verb \<Rightarrow> string \<Rightarrow> string option \<Rightarrow> 't board \<Rightarrow> 't board" where
  "action_answer io v iid err m =
     (let m = m\<lparr>bd_action := None\<rparr>
      in if v = Add then
           (case err of
              None \<Rightarrow> m\<lparr>bd_formOpen := False, bd_formAsk := False, bd_form := form_clear io (bd_form m),
                  bd_status := ''item '' @ in_quotes iid @ '' added''\<rparr>
            | Some e \<Rightarrow> m\<lparr>bd_form := (bd_form m)\<lparr>bf_err := e\<rparr>\<rparr>)
         else m\<lparr>bd_status := workBoardActionLine v iid err\<rparr>)"

definition board_Update :: "'t inputs \<Rightarrow> ('t board \<Rightarrow> int) \<Rightarrow> int \<Rightarrow> msg \<Rightarrow> 't board \<Rightarrow> 't board \<times> cmd list" where
  "board_Update io room now msg m =
     (case msg of
        WindowSize w h \<Rightarrow> (clamp (m\<lparr>bd_width := w, bd_height := h\<rparr>), [])
      | TickMsg \<Rightarrow> (case startRound m of (m', cs) \<Rightarrow> (m', TickCmd # cs))
      | ReadMsg ans t \<Rightarrow> (read_answer ans t m, [])
      | SpinMsg \<Rightarrow> (m, if bd_action m = None then [] else [SpinCmd])
      | ActionMsg v iid err \<Rightarrow> startRound (action_answer io v iid err m)
      | TailTickMsg \<Rightarrow>
          if \<not> bd_detail m then (m, [])
          else (case startTailRound m of (m', cs) \<Rightarrow> (m', TailTickCmd # cs))
      | TailMsg gen ans \<Rightarrow>
          (let m = m\<lparr>bd_detailBusy := False\<rparr>
           in if \<not> bd_detail m \<or> gen \<noteq> bd_detailGen m then (m, []) else (applyTail room ans m, []))
      | KeyMsg k \<Rightarrow> updateKey io now k m)"

section \<open>The selection stands on a card\<close>

definition window_ok :: "int \<Rightarrow> int \<Rightarrow> int \<Rightarrow> bool" where
  "window_ok s cards avail \<longleftrightarrow> 0 \<le> s \<and> s \<le> max 0 (cards - avail)"

text \<open>
  The cursor is on a card wherever there is one, no column's window runs past its cards, and the cursor's
  card is in its window.
\<close>

definition view_ok :: "item_view list \<Rightarrow> int \<Rightarrow> int \<Rightarrow> int list \<Rightarrow> int \<Rightarrow> bool" where
  "view_ok items c r ss avail \<longleftrightarrow>
     (let cols = columnIndexes items; len = (\<lambda>i. int (length (cols ! i)))
      in length ss = 4 \<and> 0 \<le> c \<and> c < 4 \<and> 0 \<le> r \<and> (anyCards cols \<longrightarrow> r < len (nat c)) \<and> (\<not> anyCards cols \<longrightarrow> r = 0) \<and>
         (\<forall>i < 4. window_ok (ss ! i) (len i) avail) \<and> ss ! nat c \<le> r \<and> r < ss ! nat c + avail)"

definition board_ok :: "'t board \<Rightarrow> bool" where
  "board_ok m \<longleftrightarrow> view_ok (bd_items m) (bd_column m) (bd_row m) (bd_scrolls m) (visibleCards m)"

lemma visibleCards_pos: "1 \<le> visibleCards m"
  by (simp add: visibleCards_def Let_def)

lemma columnIndexes_length [simp]: "length (columnIndexes items) = 4"
  by (simp add: columnIndexes_def workBoardColumns_def)

lemma anyCards_iff: "anyCards (columnIndexes items) \<longleftrightarrow> (\<exists>i < 4. columnIndexes items ! i \<noteq> [])"
  using columnIndexes_length [of items] unfolding anyCards_def list_ex_iff by (metis in_set_conv_nth)

lemma clampScroll_ok: "window_ok (workBoardClampScroll s cards avail) cards avail"
  by (simp add: window_ok_def workBoardClampScroll_def Let_def)

lemma clampScroll_id: "window_ok s cards avail \<Longrightarrow> workBoardClampScroll s cards avail = s"
  by (auto simp: window_ok_def workBoardClampScroll_def Let_def max_def split: if_splits)

text \<open>Bringing the cursor's card into the window keeps what is right about the rest.\<close>

lemma keepVisible_ok:
  assumes "length (bd_scrolls m) = 4" "0 \<le> bd_column m" "bd_column m < 4" "0 \<le> bd_row m"
    and "bd_row m < column_length m (bd_column m) \<or> \<not> anyCards (columnIndexes (bd_items m)) \<and> bd_row m = 0"
    and "\<forall>i < 4. i \<noteq> nat (bd_column m) \<longrightarrow> window_ok (bd_scrolls m ! i) (column_length m (int i)) (visibleCards m)"
  shows "board_ok (keepVisible m)"
proof -
  let ?c = "nat (bd_column m)" and ?a = "visibleCards m" and ?r = "bd_row m" and ?n = "column_length m (bd_column m)"
  let ?s = "if ?r < bd_scrolls m ! ?c \<or> ?r \<ge> bd_scrolls m ! ?c + ?a then ?r else bd_scrolls m ! ?c"
  let ?t = "workBoardClampScroll ?s ?n ?a"
  have a: "1 \<le> ?a" by (rule visibleCards_pos)
  have in_window: "?t \<le> ?r" "?r < ?t + ?a"
    using a assms(4,5) by (auto simp: workBoardClampScroll_def Let_def column_length_def anyCards_iff split: if_splits)
  have n: "?n = int (length (columnIndexes (bd_items m) ! ?c))" by (simp add: column_length_def)
  have ss: "bd_scrolls (keepVisible m) = (bd_scrolls m)[?c := ?t]" by (simp add: keepVisible_def Let_def)
  have same: "bd_items (keepVisible m) = bd_items m" "bd_column (keepVisible m) = bd_column m" "bd_row (keepVisible m) = bd_row m"
    "visibleCards (keepVisible m) = ?a"
    by (simp_all add: keepVisible_def Let_def visibleCards_def effHeight_def)
  have c: "?c < 4" using assms(2,3) by simp
  have w: "window_ok ((bd_scrolls m)[?c := ?t] ! i) (int (length (columnIndexes (bd_items m) ! i))) ?a" if i: "i < 4" for i
  proof (cases "i = ?c")
    case True
    then show ?thesis using clampScroll_ok [of ?s ?n ?a] assms(1) c n by simp
  next
    case False
    then show ?thesis using assms(6) i by (simp add: column_length_def)
  qed
  have "anyCards (columnIndexes (bd_items m)) \<longrightarrow> ?r < ?n" using assms(5) by blast
  moreover have "\<not> anyCards (columnIndexes (bd_items m)) \<longrightarrow> ?r = 0"
    using assms(4,5) c by (auto simp: anyCards_iff column_length_def)
  ultimately show ?thesis
    unfolding board_ok_def view_ok_def Let_def ss same using assms(1-4) in_window w c n by simp
qed

lemma nearestColumn_any:
  assumes "anyCards (columnIndexes items)" and "0 \<le> c" "c < 4" and "columnIndexes items ! nat c = []"
  shows "0 \<le> nearestColumn (columnIndexes items) c \<and> nearestColumn (columnIndexes items) c < 4 \<and>
    columnIndexes items ! nat (nearestColumn (columnIndexes items) c) \<noteq> []"
proof -
  let ?P = "\<lambda>x. 0 \<le> x \<and> x < int (length workBoardColumns) \<and> columnIndexes items ! nat x \<noteq> []"
  let ?xs = "concat (map (\<lambda>d. [c - d, c + d]) [1, 2, 3])"
  obtain i where i: "i < 4" "columnIndexes items ! i \<noteq> []" using assms(1) by (auto simp: anyCards_iff)
  then have "int i \<noteq> c" using assms(4) by auto
  then have "int i \<in> set ?xs" using i(1) assms(2,3) by simp arith
  moreover have "?P (int i)" using i by (simp add: workBoardColumns_def)
  ultimately have "find ?P ?xs \<noteq> None" unfolding find_None_iff by blast
  then obtain x where x: "find ?P ?xs = Some x" unfolding not_None_eq by blast
  from find_SomeD [OF x] have "?P x" by blast
  then show ?thesis using x by (simp add: nearestColumn_def workBoardColumns_def)
qed

text \<open>A new reading or a new size: whatever the cursor was on, it is on a card afterwards.\<close>

lemma clamp_ok:
  assumes "length (bd_scrolls m) = 4" "0 \<le> bd_column m" "bd_column m < 4"
  shows "board_ok (clamp m)"
proof -
  let ?cols = "columnIndexes (bd_items m)"
  define c where "c = (if bd_column m \<ge> int (length ?cols) \<or> (?cols ! nat (bd_column m) = [] \<and> anyCards ?cols)
    then (let next = nearestColumn ?cols (bd_column m) in if next \<ge> 0 then next else bd_column m) else bd_column m)"
  have c: "0 \<le> c" "c < 4" "anyCards ?cols \<Longrightarrow> ?cols ! nat c \<noteq> []"
    using nearestColumn_any [of "bd_items m" "bd_column m"] assms(2,3) by (auto simp: c_def Let_def)
  define r where "r = fit_row (bd_row m) (column_length m c)"
  define ss where "ss = map (\<lambda>i. workBoardClampScroll (bd_scrolls m ! i) (column_length m (int i)) (visibleCards m)) [0..<4]"
  let ?m = "m\<lparr>bd_column := c, bd_row := r, bd_scrolls := ss\<rparr>"
  have v: "visibleCards (m\<lparr>bd_column := c, bd_row := r\<rparr>) = visibleCards m" "visibleCards ?m = visibleCards m"
    by (simp_all add: visibleCards_def effHeight_def)
  have l: "column_length (m\<lparr>bd_column := c, bd_row := r\<rparr>) i = column_length m i" "column_length ?m i = column_length m i" for i
    by (simp_all add: column_length_def)
  have k: "clamp m = keepVisible ?m"
    unfolding clamp_def Let_def c_def [unfolded Let_def, symmetric] r_def [symmetric] by (simp add: v l ss_def assms(1))
  show ?thesis unfolding k
  proof (rule keepVisible_ok)
    show "bd_row ?m < column_length ?m (bd_column ?m) \<or> \<not> anyCards (columnIndexes (bd_items ?m)) \<and> bd_row ?m = 0"
    proof (cases "anyCards ?cols")
      case True
      then have "0 < column_length m c" using c(3) by (simp add: column_length_def)
      then show ?thesis unfolding l by (simp add: r_def fit_row_def Let_def)
    next
      case False
      then have "column_length m c = 0" using c(1,2) by (auto simp: anyCards_iff column_length_def)
      then show ?thesis using False by (simp add: l r_def fit_row_def Let_def)
    qed
    show "\<forall>i < 4. i \<noteq> nat (bd_column ?m) \<longrightarrow> window_ok (bd_scrolls ?m ! i) (column_length ?m (int i)) (visibleCards ?m)"
      unfolding v l using clampScroll_ok by (simp add: ss_def)
  qed (simp_all add: c(1,2) ss_def r_def fit_row_def Let_def)
qed

lemma board_okD:
  assumes "board_ok m"
  shows "length (bd_scrolls m) = 4" "0 \<le> bd_column m" "bd_column m < 4" "0 \<le> bd_row m"
    "anyCards (columnIndexes (bd_items m)) \<Longrightarrow> bd_row m < column_length m (bd_column m)"
    "\<not> anyCards (columnIndexes (bd_items m)) \<Longrightarrow> bd_row m = 0"
    "i < 4 \<Longrightarrow> window_ok (bd_scrolls m ! i) (column_length m (int i)) (visibleCards m)"
  using assms unfolding board_ok_def view_ok_def Let_def column_length_def by auto

lemma moveRow_ok:
  assumes "board_ok m"
  shows "board_ok (moveRow delta m)"
proof -
  note ok = board_okD [OF assms]
  let ?r = "if bd_row m + delta < 0 then 0 else bd_row m + delta"
  let ?m = "m\<lparr>bd_row := fit_row ?r (column_length m (bd_column m))\<rparr>"
  have v: "visibleCards ?m = visibleCards m" "\<And>i. column_length ?m i = column_length m i"
    by (simp_all add: visibleCards_def effHeight_def column_length_def)
  have "moveRow delta m = keepVisible ?m" by (simp add: moveRow_def Let_def)
  moreover have "board_ok (keepVisible ?m)"
  proof (rule keepVisible_ok)
    show "bd_row ?m < column_length ?m (bd_column ?m) \<or> \<not> anyCards (columnIndexes (bd_items ?m)) \<and> bd_row ?m = 0"
    proof (cases "anyCards (columnIndexes (bd_items m))")
      case True
      then have "0 < column_length m (bd_column m)" using ok(4,5) by linarith
      then show ?thesis unfolding v by (simp add: fit_row_def Let_def)
    next
      case False
      have "nat (bd_column m) < 4" using ok(2,3) by simp
      then have "column_length m (bd_column m) = 0" using False by (auto simp: anyCards_iff column_length_def)
      then show ?thesis using False by (simp add: fit_row_def Let_def)
    qed
    show "\<forall>i < 4. i \<noteq> nat (bd_column ?m) \<longrightarrow> window_ok (bd_scrolls ?m ! i) (column_length ?m (int i)) (visibleCards ?m)"
      unfolding v using ok(7) by simp
  qed (use ok in \<open>simp_all add: fit_row_def Let_def\<close>)
  ultimately show ?thesis by simp
qed

lemma columns_beyond_range: "0 \<le> c \<Longrightarrow> c < 4 \<Longrightarrow> x \<in> set (columns_beyond c delta) \<Longrightarrow> 0 \<le> x \<and> x < 4"
  by (auto simp: columns_beyond_def workBoardColumns_def split: if_splits)

lemma moveColumn_ok:
  assumes "board_ok m"
  shows "board_ok (moveColumn delta m)"
proof -
  note ok = board_okD [OF assms]
  let ?P = "\<lambda>c. columnIndexes (bd_items m) ! nat c \<noteq> []"
  show ?thesis
  proof (cases "find ?P (columns_beyond (bd_column m) delta)")
    case None
    then show ?thesis using assms by (simp add: moveColumn_def)
  next
    case (Some c)
    let ?m = "m\<lparr>bd_column := c, bd_row := 0\<rparr>"
    have c: "0 \<le> c" "c < 4" "?P c" using find_SomeD [OF Some] columns_beyond_range [OF ok(2,3)] by auto
    have v: "visibleCards ?m = visibleCards m" "\<And>i. column_length ?m i = column_length m i"
      by (simp_all add: visibleCards_def effHeight_def column_length_def)
    have "board_ok (keepVisible ?m)"
    proof (rule keepVisible_ok)
      show "bd_row ?m < column_length ?m (bd_column ?m) \<or> \<not> anyCards (columnIndexes (bd_items ?m)) \<and> bd_row ?m = 0"
        unfolding v using c(3) by (simp add: column_length_def)
      show "\<forall>i < 4. i \<noteq> nat (bd_column ?m) \<longrightarrow> window_ok (bd_scrolls ?m ! i) (column_length ?m (int i)) (visibleCards ?m)"
        unfolding v using ok(7) by simp
    qed (use ok c in simp_all)
    then show ?thesis using Some by (simp add: moveColumn_def)
  qed
qed

end
