(* ===== verification/WorkBoardRun.thy ===== *)
theory WorkBoardRun
  imports WorkBoard
begin

text \<open>
  The board of theory WorkBoard at work: its states together with the commands that it has out, under any
  order of keys, sizes and answers; what always holds of them; and the pane of a log, which follows the kept
  output of its item.
\<close>

section \<open>Runs\<close>

text \<open>The messages that a command's end may bring.\<close>

definition answers :: "cmd \<Rightarrow> msg \<Rightarrow> bool" where
  "answers c msg \<longleftrightarrow>
     (case msg of
        TickMsg \<Rightarrow> c = TickCmd
      | SpinMsg \<Rightarrow> c = SpinCmd
      | TailTickMsg \<Rightarrow> c = TailTickCmd
      | ReadMsg ans t \<Rightarrow> c = ReadCmd
      | ActionMsg v iid err \<Rightarrow>
          (case c of
             ActCmd v' iid' \<Rightarrow> v' = v \<and> iid' = iid
           | AddCmd body \<Rightarrow> v = Add \<and> iid = ab_ID body
           | _ \<Rightarrow> False)
      | TailMsg gen ans \<Rightarrow> (case c of TailCmd gen' iid \<Rightarrow> gen' = gen | _ \<Rightarrow> False)
      | _ \<Rightarrow> False)"

text \<open>What comes from outside whatever the board has out.\<close>

fun from_outside :: "msg \<Rightarrow> bool" where
  "from_outside (KeyMsg k) = True"
| "from_outside (WindowSize w h) = True"
| "from_outside m = False"

inductive board_run :: "'t inputs \<Rightarrow> ('t board \<Rightarrow> int) \<Rightarrow> 't board \<Rightarrow> cmd list \<Rightarrow> bool" for io room where
  start: "board_Init (newWorkBoardModel form) = (m, out) \<Longrightarrow> board_run io room m out"
| outside: "board_run io room m out \<Longrightarrow> from_outside msg \<Longrightarrow> board_Update io room now msg m = (m', new) \<Longrightarrow>
    board_run io room m' (out @ new)"
| answer: "board_run io room m out \<Longrightarrow> c \<in> set out \<Longrightarrow> answers c msg \<Longrightarrow> board_Update io room now msg m = (m', new) \<Longrightarrow>
    board_run io room m' (remove1 c out @ new)"

section \<open>What an update does to the view\<close>

text \<open>What the selection depends on.\<close>

definition view :: "'t board \<Rightarrow> item_view list \<times> int \<times> int \<times> int list \<times> int" where
  "view m = (bd_items m, bd_column m, bd_row m, bd_scrolls m, bd_height m)"

lemma view_same: "view m' = view m \<Longrightarrow> board_ok m' = board_ok m"
  by (simp add: view_def board_ok_def visibleCards_def effHeight_def)

text \<open>An update that leaves the view alone, or moves it to one that is right.\<close>

definition keeps_view :: "'t board \<Rightarrow> 't board \<Rightarrow> bool" where
  "keeps_view m m' \<longleftrightarrow> view m' = view m \<or> (board_ok m \<longrightarrow> board_ok m')"

lemma keeps_view_same [simp]: "view m' = view m \<Longrightarrow> keeps_view m m'"
  by (simp add: keeps_view_def)

lemma startRound_view [simp]: "view (fst (startRound m)) = view m"
  by (simp add: startRound_def view_def)

lemma beginAction_view [simp]: "view (fst (beginAction now v iid m)) = view m"
  by (simp add: beginAction_def view_def split: option.split)

lemma beginAdd_view [simp]: "view (fst (beginAdd now body m)) = view m"
  by (simp add: beginAdd_def view_def split: option.split)

lemma startTailRound_view [simp]: "view (fst (startTailRound m)) = view m"
  by (simp add: startTailRound_def view_def split: option.split)

lemma openDetail_view [simp]: "view (fst (openDetail v m)) = view m"
  by (simp add: openDetail_def case_prod_beta) (simp add: view_def)

lemma form_view [simp]: "view (bd_form_update f m) = view m"
  by (simp add: view_def)

lemma sendForm_view [simp]: "view (fst (sendForm io now m)) = view m"
  by (simp add: sendForm_def split: sum.split)

lemma updateFormKey_view [simp]: "view (fst (updateFormKey io now k m)) = view m"
  by (simp add: updateFormKey_def Let_def closeForm_def moved_focus_def typed_def split: option.split) (simp add: view_def)

lemma updateFormAsk_view [simp]: "view (fst (updateFormAsk io k m)) = view m"
  by (simp add: updateFormAsk_def closeForm_def view_def)

lemma updateConfirm_view [simp]: "view (fst (updateConfirm now v k m)) = view m"
proof -
  have "view (m\<lparr>bd_confirm := None\<rparr>) = view m" by (simp add: view_def)
  then show ?thesis by (simp add: updateConfirm_def Let_def split: option.split) (simp add: view_def)
qed


lemma updateBoardKey_ok: "board_ok m \<Longrightarrow> board_ok (fst (updateBoardKey io now k m))"
proof -
  assume ok: "board_ok m"
  have v: "view (m\<lparr>bd_confirm := c\<rparr>) = view m"
    "view (m\<lparr>bd_formOpen := b, bd_formAsk := b', bd_form := f\<rparr>) = view m" for c b b' f
    by (simp_all add: view_def)
  show ?thesis
    using ok moveRow_ok [OF ok] moveColumn_ok [OF ok]
    by (auto simp: updateBoardKey_def Let_def view_same [OF beginAction_view] view_same [OF openDetail_view]
        view_same [OF startRound_view] view_same [OF v(1)] view_same [OF v(2)] split: option.splits)
qed

lemma updateKey_ok: "board_ok m \<Longrightarrow> board_ok (fst (updateKey io now k m))"
proof -
  assume ok: "board_ok m"
  have v: "view (m\<lparr>bd_detail := b\<rparr>) = view m" for b by (simp add: view_def)
  show ?thesis
    using ok updateBoardKey_ok [OF ok]
    by (auto simp: updateKey_def view_same [OF updateFormAsk_view] view_same [OF updateFormKey_view]
        view_same [OF updateConfirm_view] view_same [OF v] split: option.splits)
qed

lemma read_answer_ok: "board_ok m \<Longrightarrow> board_ok (read_answer ans t m)"
proof -
  assume ok: "board_ok m"
  note d = board_okD [OF ok]
  have v: "view (m\<lparr>bd_busy := b\<rparr>) = view m" "view (m\<lparr>bd_busy := b, bd_readErr := e\<rparr>) = view m" for b e
    by (simp_all add: view_def)
  have r: "bd_scrolls (retainDetail x) = bd_scrolls x" "bd_column (retainDetail x) = bd_column x" for x :: "'a board"
    by (simp_all add: retainDetail_def split: option.split)
  show ?thesis
  proof (cases ans)
    case (Inl e)
    then show ?thesis using ok by (simp add: read_answer_def view_same [OF v(2)])
  next
    case (Inr items)
    have "board_ok (clamp (retainDetail (m\<lparr>bd_busy := False, bd_readErr := '''', bd_items := items, bd_readingAt := Some t\<rparr>)))"
      by (rule clamp_ok) (use d in \<open>simp_all add: r\<close>)
    then show ?thesis using Inr ok by (simp add: read_answer_def Let_def view_same [OF v(1)])
  qed
qed

lemma action_answer_view [simp]: "view (action_answer io v iid err m) = view m"
  by (simp add: action_answer_def Let_def split: option.split) (simp add: view_def)

lemma applyTail_view [simp]: "view (applyTail room ans m) = view m"
  by (simp add: applyTail_def Let_def view_def split: sum.split prod.split bool.split)

lemma board_Update_ok:
  assumes "board_ok m"
  shows "board_ok (fst (board_Update io room now msg m))"
proof (cases msg)
  case (WindowSize w h)
  have "board_ok (clamp (m\<lparr>bd_width := w, bd_height := h\<rparr>))"
    by (rule clamp_ok) (use board_okD [OF assms] in simp_all)
  then show ?thesis using WindowSize by (simp add: board_Update_def)
next
  case (ReadMsg ans t)
  then show ?thesis using read_answer_ok [OF assms] by (simp add: board_Update_def)
next
  case (KeyMsg k)
  then show ?thesis using updateKey_ok [OF assms] by (simp add: board_Update_def)
next
  case (TailMsg gen ans)
  have "view (m\<lparr>bd_detailBusy := False\<rparr>) = view m" by (simp add: view_def)
  then have "view (fst (board_Update io room now msg m)) = view m" using TailMsg by (simp add: board_Update_def Let_def)
  then show ?thesis using assms view_same by blast
next
  case TickMsg
  then show ?thesis using assms by (simp add: board_Update_def case_prod_beta view_same [OF startRound_view])
next
  case SpinMsg
  then show ?thesis using assms by (simp add: board_Update_def)
next
  case TailTickMsg
  then show ?thesis using assms by (simp add: board_Update_def case_prod_beta view_same [OF startTailRound_view])
next
  case (ActionMsg v iid err)
  then show ?thesis
    using assms by (simp add: board_Update_def view_same [OF startRound_view] view_same [OF action_answer_view])
qed

lemma start_ok: "board_ok (fst (board_Init (newWorkBoardModel form)))"
proof -
  have e: "columnIndexes [] = [[], [], [], []]" by (simp add: columnIndexes_def column_of_def workBoardColumns_def)
  have "board_ok (newWorkBoardModel form)"
    using visibleCards_pos [of "newWorkBoardModel form"]
    by (auto simp: board_ok_def view_ok_def newWorkBoardModel_def Let_def e anyCards_def window_ok_def nth_Cons' less_Suc_eq
        numeral_eq_Suc)
  then show ?thesis by (simp add: board_Init_def case_prod_beta view_same [OF startRound_view])
qed


section \<open>One call at a time\<close>

fun call_of :: "cmd \<Rightarrow> (verb \<times> string) option" where
  "call_of (ActCmd v iid) = Some (v, iid)"
| "call_of (AddCmd body) = Some (Add, ab_ID body)"
| "call_of c = None"

definition calls :: "cmd list \<Rightarrow> (verb \<times> string) list" where
  "calls out = List.map_filter call_of out"

definition reads :: "cmd list \<Rightarrow> nat" where
  "reads out = count_list out ReadCmd"

definition slot :: "'t board \<Rightarrow> (verb \<times> string) list" where
  "slot m = (case bd_action m of None \<Rightarrow> [] | Some a \<Rightarrow> [(ba_verb a, ba_id a)])"

lemma calls_simps [simp]: "calls [] = []" "calls (xs @ ys) = calls xs @ calls ys"
  "calls (c # cs) = (case call_of c of None \<Rightarrow> calls cs | Some p \<Rightarrow> p # calls cs)"
  by (simp_all add: calls_def map_filter_def split: option.split)

lemma reads_simps [simp]: "reads [] = 0" "reads (xs @ ys) = reads xs + reads ys"
  "reads (c # cs) = (if c = ReadCmd then Suc (reads cs) else reads cs)"
  by (simp_all add: reads_def)

lemma calls_remove1: "c \<in> set out \<Longrightarrow>
  (case call_of c of None \<Rightarrow> calls (remove1 c out) = calls out | Some p \<Rightarrow> Suc (length (calls (remove1 c out))) = length (calls out))"
  by (induction out) (auto split: option.splits)

text \<open>What an update sets going is what it marks as under way, and it starts no second clock.\<close>

definition effect :: "'t board \<Rightarrow> 't board \<times> cmd list \<Rightarrow> bool" where
  "effect m r \<longleftrightarrow> of_bool (bd_busy m) + reads (snd r) = of_bool (bd_busy (fst r)) \<and> slot m @ calls (snd r) = slot (fst r) \<and>
     TickCmd \<notin> set (snd r)"

lemma effect_none: "bd_busy m' = bd_busy m \<Longrightarrow> bd_action m' = bd_action m \<Longrightarrow> effect m (m', [])"
  by (simp add: effect_def slot_def)

lemma effect_startRound: "effect m (startRound m)"
  by (simp add: effect_def startRound_def slot_def)

lemma effect_beginAction: "bd_busy m = bd_busy m0 \<Longrightarrow> bd_action m = bd_action m0 \<Longrightarrow> effect m0 (beginAction now v iid m)"
  by (auto simp: effect_def beginAction_def slot_def split: option.split)

lemma effect_beginAdd: "bd_busy m = bd_busy m0 \<Longrightarrow> bd_action m = bd_action m0 \<Longrightarrow> effect m0 (beginAdd now body m)"
  by (auto simp: effect_def beginAdd_def slot_def split: option.split)

lemma effect_startTailRound: "bd_busy m = bd_busy m0 \<Longrightarrow> bd_action m = bd_action m0 \<Longrightarrow> effect m0 (startTailRound m)"
  by (auto simp: effect_def startTailRound_def slot_def split: option.split)

lemma effect_more: "effect m (m', cs) \<Longrightarrow> reads [c] = 0 \<Longrightarrow> calls [c] = [] \<Longrightarrow> c \<noteq> TickCmd \<Longrightarrow> effect m (m', c # cs)"
  by (auto simp: effect_def split: option.splits)

lemma effect_openDetail: "effect m (openDetail v m)"
  by (auto simp: openDetail_def case_prod_beta intro!: effect_more effect_startTailRound)

lemma effect_sendForm: "effect m (sendForm io now m)"
  by (auto simp: sendForm_def intro!: effect_none effect_beginAdd split: sum.split)

lemma effect_if: "effect m a \<Longrightarrow> effect m b \<Longrightarrow> effect m (if c then a else b)"
  by simp

lemma effect_option: "effect m a \<Longrightarrow> (\<And>x. effect m (b x)) \<Longrightarrow> effect m (case v of None \<Rightarrow> a | Some x \<Rightarrow> b x)"
  by (simp split: option.split)

lemma effect_updateFormKey: "effect m (updateFormKey io now k m)"
  unfolding updateFormKey_def Let_def closeForm_def moved_focus_def typed_def
  by (intro effect_if effect_option effect_sendForm effect_none) simp_all

lemma effect_quit: "bd_busy m' = bd_busy m \<Longrightarrow> bd_action m' = bd_action m \<Longrightarrow> effect m (m', [QuitCmd])"
  by (simp add: effect_def slot_def)

lemma effect_updateFormAsk: "effect m (updateFormAsk io k m)"
  by (auto simp: updateFormAsk_def closeForm_def intro!: effect_none effect_quit)

lemma effect_updateConfirm: "effect m (updateConfirm now v k m)"
  by (auto simp: updateConfirm_def Let_def intro!: effect_none effect_quit effect_beginAction split: option.split)

lemma keepVisible_frame [simp]: "bd_busy (keepVisible m) = bd_busy m" "bd_action (keepVisible m) = bd_action m"
  "bd_confirm (keepVisible m) = bd_confirm m" "bd_detail (keepVisible m) = bd_detail m"
  by (simp_all add: keepVisible_def Let_def)

lemma clamp_frame [simp]: "bd_busy (clamp m) = bd_busy m" "bd_action (clamp m) = bd_action m" "bd_confirm (clamp m) = bd_confirm m"
  by (simp_all add: clamp_def Let_def)

lemma move_frame [simp]: "bd_busy (moveRow d m) = bd_busy m" "bd_action (moveRow d m) = bd_action m"
  "bd_busy (moveColumn d m) = bd_busy m" "bd_action (moveColumn d m) = bd_action m"
  "bd_confirm (moveRow d m) = bd_confirm m" "bd_confirm (moveColumn d m) = bd_confirm m"
  by (simp_all add: moveRow_def moveColumn_def Let_def split: option.split)

lemma effect_updateBoardKey: "effect m (updateBoardKey io now k m)"
  unfolding updateBoardKey_def Let_def
  by (intro effect_if effect_option effect_quit effect_none effect_beginAction effect_openDetail effect_startRound) simp_all


lemma effect_updateKey: "effect m (updateKey io now k m)"
  unfolding updateKey_def
  by (intro effect_if effect_option effect_none effect_updateFormAsk effect_updateFormKey effect_updateConfirm
      effect_updateBoardKey) simp_all

text \<open>What an answer takes off the board, and what it leaves.\<close>

lemma read_answer_idle: "bd_busy (read_answer ans t m) = False" "bd_action (read_answer ans t m) = bd_action m"
  by (simp_all add: read_answer_def Let_def retainDetail_def split: sum.split option.split)

lemma action_answer_idle: "bd_busy (action_answer io v iid err m) = bd_busy m" "bd_action (action_answer io v iid err m) = None"
  by (simp_all add: action_answer_def Let_def split: option.split)

lemma applyTail_frame: "bd_busy (applyTail room ans m) = bd_busy m" "bd_action (applyTail room ans m) = bd_action m"
  by (simp_all add: applyTail_def Let_def split: sum.split prod.split bool.split)

text \<open>
  What is out, read from a board: the round of reading and the call that it marks as under way, and the one
  clock.
\<close>

definition out_ok :: "'t board \<Rightarrow> cmd list \<Rightarrow> bool" where
  "out_ok m out \<longleftrightarrow> reads out = of_bool (bd_busy m) \<and> calls out = slot m \<and> count_list out TickCmd = 1"

lemma out_ok_effect: "out_ok m out \<Longrightarrow> effect m (m', new) \<Longrightarrow> out_ok m' (out @ new)"
  by (auto simp: out_ok_def effect_def count_list_0_iff)

text \<open>A command that is not a call, a round or the clock leaves what is marked.\<close>

lemma out_ok_other:
  assumes "out_ok m out" "c \<in> set out" "call_of c = None" "c \<noteq> ReadCmd" "c \<noteq> TickCmd"
  shows "out_ok m (remove1 c out)"
  using assms calls_remove1 [OF assms(2)] by (simp add: out_ok_def reads_def count_list_remove1)

lemma board_Update_outside:
  assumes "from_outside msg" "board_Update io room now msg m = (m', new)"
  shows "effect m (m', new)"
proof (cases msg)
  case (KeyMsg k)
  then have "updateKey io now k m = (m', new)" using assms(2) by (simp add: board_Update_def)
  then show ?thesis using effect_updateKey [of m io now k] by simp
next
  case (WindowSize w h)
  then show ?thesis using assms(2) by (auto simp: board_Update_def intro!: effect_none)
qed (use assms(1) in simp_all)


lemma out_ok_answer:
  assumes ok: "out_ok m out" and c: "c \<in> set out" "answers c msg" and u: "board_Update io room now msg m = (m', new)"
  shows "out_ok m' (remove1 c out @ new)"
proof (cases msg)
  case TickMsg
  then have "c = TickCmd" using c(2) by (simp add: answers_def)
  moreover have "m' = fst (startRound m)" "new = TickCmd # snd (startRound m)"
    using u TickMsg by (auto simp: board_Update_def case_prod_beta)
  ultimately show ?thesis
    using ok c(1) effect_startRound [of m] calls_remove1 [OF c(1)]
    by (auto simp: out_ok_def effect_def reads_def count_list_remove1 count_list_0_iff)
next
  case SpinMsg
  then have "c = SpinCmd" using c(2) by (simp add: answers_def)
  then have "out_ok m (remove1 c out)" using ok c(1) by (intro out_ok_other) simp_all
  moreover have "m' = m" "new = [] \<or> new = [SpinCmd]" using u SpinMsg by (auto simp: board_Update_def split: if_splits)
  ultimately show ?thesis by (auto simp: out_ok_def)
next
  case TailTickMsg
  then have "c = TailTickCmd" using c(2) by (simp add: answers_def)
  then have "out_ok m (remove1 c out)" using ok c(1) by (intro out_ok_other) simp_all
  moreover have "effect m (m', new)"
    using u TailTickMsg effect_startTailRound [of m m]
    by (auto simp: board_Update_def case_prod_beta intro!: effect_none effect_more split: if_splits)
  ultimately show ?thesis by (rule out_ok_effect)
next
  case (ReadMsg ans t)
  then have "c = ReadCmd" using c(2) by (simp add: answers_def)
  moreover have "m' = read_answer ans t m" "new = []" using u ReadMsg by (simp_all add: board_Update_def)
  ultimately show ?thesis
    using ok calls_remove1 [OF c(1)] c(1)
    by (auto simp: out_ok_def read_answer_idle slot_def reads_def count_list_remove1)
next
  case (ActionMsg v iid err)
  then obtain p where p: "call_of c = Some p" "c \<noteq> ReadCmd" "c \<noteq> TickCmd" using c(2) by (auto simp: answers_def split: cmd.splits)
  let ?m = "action_answer io v iid err m"
  have "length (calls out) \<le> 1" using ok by (simp add: out_ok_def slot_def split: option.split)
  moreover have "Suc (length (calls (remove1 c out))) = length (calls out)" using calls_remove1 [OF c(1)] p(1) by simp
  ultimately have "length (calls (remove1 c out)) = 0" by linarith
  then have "calls (remove1 c out) = []" by simp
  then have "out_ok ?m (remove1 c out)"
    using ok p c(1) by (simp add: out_ok_def action_answer_idle slot_def reads_def count_list_remove1)
  moreover have "startRound ?m = (m', new)" using u ActionMsg by (simp add: board_Update_def)
  ultimately show ?thesis using effect_startRound [of ?m] by (auto intro: out_ok_effect)
next
  case (TailMsg gen ans)
  then have "call_of c = None" "c \<noteq> ReadCmd" "c \<noteq> TickCmd" using c(2) by (auto simp: answers_def split: cmd.splits)
  then have "out_ok m (remove1 c out)" using ok c(1) by (intro out_ok_other)
  moreover have "bd_busy m' = bd_busy m" "bd_action m' = bd_action m" "new = []"
    using u TailMsg by (auto simp: board_Update_def Let_def applyTail_frame split: if_splits)
  ultimately show ?thesis by (simp add: out_ok_def slot_def)
qed (use c(2) in \<open>simp_all add: answers_def\<close>)

lemma board_run_ok:
  assumes "board_run io room m out"
  shows "board_ok m \<and> out_ok m out"
  using assms
proof (induction rule: board_run.induct)
  case (start form m out)
  then have "board_ok m" using start_ok [of form] by simp
  moreover have "out_ok m out"
    using start by (auto simp: board_Init_def startRound_def newWorkBoardModel_def out_ok_def slot_def)
  ultimately show ?case by blast
next
  case (outside m out msg now m' new)
  then show ?case
    using out_ok_effect [OF _ board_Update_outside] board_Update_ok [of m io room now msg] by (metis fst_conv)
next
  case (answer m out c msg now m' new)
  then show ?case using out_ok_answer [of m out c msg io room now m' new] board_Update_ok [of m io room now msg] by simp
qed


section \<open>The log pane\<close>

lemma concat_split_after [simp]: "concat (split_after s) = s"
  by (induction s) (auto split: list.splits)

lemma split_after_Nil_iff [simp]: "split_after s = [] \<longleftrightarrow> s = []"
  by (cases s) (auto split: list.splits)

lemma split_after_more:
  "split_after s = l # ls \<Longrightarrow> ls \<noteq> [] \<Longrightarrow> split_after (s @ t) = l # split_after (concat ls @ t)"
proof (induction s arbitrary: l)
  case (Cons c s)
  show ?case
  proof (cases "c = CHR 0x0A")
    case True
    then show ?thesis using Cons.prems by auto
  next
    case False
    then obtain l' where l': "split_after s = l' # ls" "l = c # l'" using Cons.prems by (auto split: list.splits)
    from Cons.IH [OF l'(1) Cons.prems(2)] show ?thesis using False l'(2) by simp
  qed
qed simp

lemma split_after_drop:
  "k < length (split_after s) \<Longrightarrow> split_after (concat (drop k (split_after s)) @ t) = drop k (split_after (s @ t))"
proof (induction k arbitrary: s)
  case (Suc k)
  from Suc.prems have "1 < length (split_after s)" by simp
  then obtain l ls where ls: "split_after s = l # ls" "ls \<noteq> []" by (cases "split_after s") auto
  have rest: "split_after (concat ls) = ls"
    using split_after_more [OF ls, of "[]"] ls(1) by simp
  have "split_after (concat (drop k ls) @ t) = drop k (split_after (concat ls @ t))"
    using Suc.IH [of "concat ls"] Suc.prems ls(1) rest by simp
  then show ?case using split_after_more [OF ls, of t] ls(1) by simp
qed simp

lemma split_after_length: "length (split_after s) \<le> length (split_after (s @ t))"
proof (induction s)
  case (Cons c s)
  then show ?case by (auto split: list.splits)
qed simp

lemma lastLines_drop: "0 < n \<Longrightarrow> lastLines s n = concat (drop (length (split_after s) - nat n) (split_after s))"
  by (auto simp: lastLines_def Let_def)

text \<open>The last lines of what is kept and what comes after are the last lines of the whole.\<close>

lemma lastLines_append: "lastLines (lastLines s n @ t) n = lastLines (s @ t) n"
proof (cases "0 < n \<and> s \<noteq> []")
  case True
  define N where "N = nat n"
  let ?L = "split_after s" and ?M = "split_after (s @ t)"
  define k where "k = length ?L - N"
  have n: "0 < n" "0 < N" using True by (simp_all add: N_def)
  have k: "k < length ?L" using True n by (simp add: k_def)
  have split: "split_after (lastLines s n @ t) = drop k ?M"
    unfolding lastLines_drop [OF n(1)] N_def [symmetric] k_def [symmetric] by (rule split_after_drop [OF k])
  have "length ?L \<le> length ?M" by (rule split_after_length)
  then have m: "length ?M - k - N + k = length ?M - N" by (simp add: k_def)
  have "lastLines (lastLines s n @ t) n = concat (drop (length (drop k ?M) - N) (drop k ?M))"
    unfolding lastLines_drop [OF n(1), of "lastLines s n @ t"] split N_def ..
  also have "\<dots> = concat (drop (length ?M - N) ?M)" using m by simp
  finally show ?thesis unfolding lastLines_drop [OF n(1)] N_def .
next
  case False
  then show ?thesis by (auto simp: lastLines_def Let_def)
qed


text \<open>The answers of the polls that the view in hand started, and the newest kept output among them.\<close>

definition kept_of :: "nat \<Rightarrow> nat \<times> ((bool \<times> string) + string) \<Rightarrow> string option" where
  "kept_of gen a = (case snd a of Inl e \<Rightarrow> None | Inr log \<Rightarrow> if fst a = gen then Some log else None)"

definition newest :: "string \<Rightarrow> string list \<Rightarrow> string" where
  "newest old logs = (if logs = [] then old else last logs)"

definition polled :: "'t inputs \<Rightarrow> int \<Rightarrow> int \<Rightarrow> nat \<times> ((bool \<times> string) + string) \<Rightarrow> 't board \<Rightarrow> 't board" where
  "polled io n now a m = fst (board_Update io (\<lambda>_. n) now (TailMsg (fst a) (snd a)) m)"

definition pane_ok :: "int \<Rightarrow> 't board \<Rightarrow> bool" where
  "pane_ok n m \<longleftrightarrow> bd_detail m \<and> bd_detailLog m = lastLines (bd_detailSeen m) n"

lemma polled_pane:
  assumes "pane_ok n m"
    and "\<And>log. kept_of (bd_detailGen m) a = Some log \<Longrightarrow> prefix (bd_detailSeen m) log"
  shows "pane_ok n (polled io n now a m) \<and> bd_detailGen (polled io n now a m) = bd_detailGen m \<and>
    bd_detailSeen (polled io n now a m) =
      (case kept_of (bd_detailGen m) a of None \<Rightarrow> bd_detailSeen m | Some log \<Rightarrow> log)"
proof (cases "kept_of (bd_detailGen m) a")
  case None
  then show ?thesis
    using assms(1) by (auto simp: kept_of_def polled_def pane_ok_def board_Update_def Let_def applyTail_def split: sum.splits if_splits bool.splits)
next
  case (Some log)
  then obtain added where l: "log = bd_detailSeen m @ added" using assms(2) by (auto simp: prefix_def)
  have a: "a = (bd_detailGen m, Inr log)" using Some by (cases a) (auto simp: kept_of_def split: sum.splits if_splits)
  have "lastLines (bd_detailLog m @ added) n = lastLines log n"
    using assms(1) l lastLines_append [of "bd_detailSeen m" n added] by (simp add: pane_ok_def)
  then show ?thesis
    using assms(1) Some l a
    by (auto simp: polled_def pane_ok_def board_Update_def Let_def applyTail_def log_suffix_def)
qed

lemma polls_pane:
  assumes "pane_ok n m" "sorted_wrt prefix (bd_detailSeen m # List.map_filter (kept_of (bd_detailGen m)) as)"
  shows "pane_ok n (fold (polled io n now) as m) \<and>
    bd_detailSeen (fold (polled io n now) as m) = newest (bd_detailSeen m) (List.map_filter (kept_of (bd_detailGen m)) as)"
  using assms
proof (induction as arbitrary: m)
  case Nil
  then show ?case by (simp add: newest_def map_filter_simps)
next
  case (Cons a as)
  let ?m = "polled io n now a m" and ?g = "bd_detailGen m"
  have s: "\<And>log. kept_of ?g a = Some log \<Longrightarrow> prefix (bd_detailSeen m) log"
    using Cons.prems(2) by (simp add: map_filter_simps)
  note p = polled_pane [OF Cons.prems(1) s]
  have "sorted_wrt prefix (bd_detailSeen ?m # List.map_filter (kept_of (bd_detailGen ?m)) as)"
    using Cons.prems(2) p by (auto simp: map_filter_simps split: option.splits)
  from Cons.IH [OF conjunct1 [OF p] this]
  show ?case using p by (auto simp: newest_def map_filter_simps split: option.splits)
qed


section \<open>What the modes do to one another\<close>

text \<open>
  The question before a removal is about the card that is under the cursor when it is answered: a reading in
  between may have moved another one there.
\<close>

lemma question_follows_cursor:
  assumes "\<not> bd_formOpen m" "bd_confirm m = Some v" "bd_action m = None" "selectedItem (read_answer (Inr items) t m) = Some b"
    and "\<not> before t (bd_readingAt m)" "k_name k = ''y''"
  shows "snd (board_Update io room now (KeyMsg k) (fst (board_Update io room now' (ReadMsg (Inr items) t) m))) =
    [ActCmd v (iv_ID b), SpinCmd]"
proof -
  let ?m = "read_answer (Inr items) t m"
  have f: "bd_formOpen (clamp x) = bd_formOpen x" "bd_formOpen (retainDetail x) = bd_formOpen x"
    "bd_confirm (retainDetail x) = bd_confirm x" for x :: "'t board"
    by (simp_all add: clamp_def keepVisible_def Let_def retainDetail_def split: option.split)
  have "\<not> bd_formOpen ?m" "bd_confirm ?m = Some v"
    using assms(1,2,5) by (simp_all add: read_answer_def Let_def f)
  moreover have "bd_action ?m = None" using assms(3) by (simp add: read_answer_idle)
  ultimately show ?thesis
    using assms(4,6) by (simp add: board_Update_def updateKey_def updateConfirm_def beginAction_def Let_def)
qed

text \<open>The detail of an item that the last reading has as ended polls nothing: its pane stays as it was opened, empty.\<close>

lemma ended_item_shows_no_log:
  assumes "itemByID (bd_items m) (iv_ID v) = Some w" "ended (iv_State w)"
  shows "snd (openDetail v m) = [TailTickCmd]" and "bd_detailLog (fst (openDetail v m)) = ''''"
    and "board_Update io room now TailTickMsg (fst (openDetail v m)) = (fst (openDetail v m), [TailTickCmd])"
  using assms by (simp_all add: openDetail_def startTailRound_def board_Update_def case_prod_beta)

text \<open>
  The answer of an earlier view's poll marks the poll of the view in hand as over, so that the next tick starts
  a second one beside it.
\<close>

lemma stale_answer_starts_a_second_poll:
  assumes "bd_detail m" "bd_detailItem m = Some v" "iv_ID v \<noteq> ''''" "itemByID (bd_items m) (iv_ID v) = Some w"
    and "\<not> ended (iv_State w)" "gen \<noteq> bd_detailGen m" "bd_detailBusy m"
  shows "TailCmd (bd_detailGen m) (iv_ID v) \<in>
    set (snd (board_Update io room now TailTickMsg (fst (board_Update io room now' (TailMsg gen ans) m))))"
  using assms by (simp add: board_Update_def startTailRound_def case_prod_beta)

text \<open>The answer of an addition closes whatever form is open, with what was typed since.\<close>

lemma add_answer_closes_form:
  "\<not> bd_formOpen (fst (board_Update io room now (ActionMsg Add iid None) m))"
  by (simp add: board_Update_def startRound_def action_answer_def)

text \<open>A detail opened again before its clock has ticked has two clocks.\<close>

lemma detail_clocks_double:
  assumes "board_run io room m out" "bd_detail m" "\<not> bd_formOpen m" "bd_confirm m = None" "selectedItem m = Some v"
    and "TailTickCmd \<in> set out"
  shows "\<exists>m' out'. board_run io room m' out' \<and> 2 \<le> count_list out' TailTickCmd"
proof -
  let ?k = "\<lambda>s. \<lparr>k_name = s, k_runes = None\<rparr>"
  let ?m = "m\<lparr>bd_detail := False\<rparr>"
  have "board_Update io room 0 (KeyMsg (?k ''esc'')) m = (?m, [])"
    using assms(2-4) by (simp add: board_Update_def updateKey_def)
  from board_run.outside [OF assms(1) _ this] have r: "board_run io room ?m out" by simp
  have "selectedItem ?m = Some v" using assms(5) by (simp add: selectedItem_def Let_def split: if_splits)
  then have "board_Update io room 0 (KeyMsg (?k ''enter'')) ?m = openDetail v ?m"
    using assms(3,4) by (simp add: board_Update_def updateKey_def updateBoardKey_def)
  moreover obtain m' cs where o: "openDetail v ?m = (m', TailTickCmd # cs)"
    by (auto simp: openDetail_def case_prod_beta)
  ultimately have e: "board_Update io room 0 (KeyMsg (?k ''enter'')) ?m = (m', TailTickCmd # cs)" by simp
  from board_run.outside [OF r _ e] have "board_run io room m' (out @ TailTickCmd # cs)" by simp
  moreover have "0 < count_list out TailTickCmd" using assms(6) by (metis count_list_0_iff gr0I)
  then have "2 \<le> count_list (out @ TailTickCmd # cs) TailTickCmd" by simp
  ultimately show ?thesis by blast
qed

section \<open>What holds of the board\<close>

definition demo_inputs :: "string inputs" where
  "demo_inputs = \<lparr>in_new = (\<lambda>_. ''''), in_value = id, in_clear = (\<lambda>_. ''''), in_focus = id, in_blur = id,
     in_key = (\<lambda>k t. t @ (case k_runes k of None \<Rightarrow> '''' | Some r \<Rightarrow> r))\<rparr>"

definition demo_view :: "string \<Rightarrow> string \<Rightarrow> item_view" where
  "demo_view iid st = \<lparr>iv_ID = iid, iv_Instructions = ''x'', iv_Dir = ''/d'', iv_Tags = [], iv_Priority = 0, iv_State = st,
     iv_Node = '''', iv_Why = '''', iv_StartedAt = '''', iv_EndedAt = ''''\<rparr>"

definition demo_start :: "string board \<times> cmd list" where
  "demo_start = board_Init (newWorkBoardModel (newWorkBoardForm demo_inputs 10))"

definition demo_read :: "string board \<times> cmd list" where
  "demo_read = board_Update demo_inputs (\<lambda>_. 5) 9 (ReadMsg (Inr [demo_view ''a'' StateRunning]) 7) (fst demo_start)"

lemma demo_run: "board_run demo_inputs (\<lambda>_. 5) (fst demo_read) (remove1 ReadCmd (snd demo_start) @ snd demo_read)"
proof (rule board_run.answer)
  show "board_run demo_inputs (\<lambda>_. 5) (fst demo_start) (snd demo_start)"
    by (rule board_run.start) (simp add: demo_start_def)
  show "ReadCmd \<in> set (snd demo_start)"
    by (simp add: demo_start_def board_Init_def startRound_def newWorkBoardModel_def)
  show "answers ReadCmd (ReadMsg (Inr [demo_view ''a'' StateRunning]) 7)" by (simp add: answers_def)
qed (simp add: demo_read_def)


text \<open>
  C31: on every run of the board, under any order of keys, sizes and answers: the cursor's row and every column's
  window are right, and wherever a column has a card the cursor is on one, of its column's state and in the window.
\<close>

theorem board_selection:
  assumes "board_run io room m out"
  shows "board_ok m \<and>
    (anyCards (columnIndexes (bd_items m)) \<longrightarrow>
       (\<exists>v. selectedItem m = Some v \<and> v \<in> set (bd_items m) \<and> iv_State v = workBoardColumns ! nat (bd_column m)))"
proof -
  have ok: "board_ok m" using board_run_ok [OF assms] by blast
  note d = board_okD [OF ok]
  have "\<exists>v. selectedItem m = Some v \<and> v \<in> set (bd_items m) \<and> iv_State v = workBoardColumns ! nat (bd_column m)"
    if any: "anyCards (columnIndexes (bd_items m))"
  proof -
    let ?col = "columnIndexes (bd_items m) ! nat (bd_column m)"
    have r: "0 \<le> bd_row m" "bd_row m < int (length ?col)" using d(4) d(5) [OF any] by (simp_all add: column_length_def)
    have c: "nat (bd_column m) < length workBoardColumns" using d(2,3) by (simp add: workBoardColumns_def)
    then have col: "?col = column_of (bd_items m) (workBoardColumns ! nat (bd_column m))" by (simp add: columnIndexes_def)
    have "?col ! nat (bd_row m) \<in> set ?col" using r by simp
    then have "?col ! nat (bd_row m) < length (bd_items m)"
      "iv_State (bd_items m ! (?col ! nat (bd_row m))) = workBoardColumns ! nat (bd_column m)"
      unfolding col by (simp_all add: column_of_def)
    then show ?thesis using r d(3) by (simp add: selectedItem_def Let_def)
  qed
  then show ?thesis using ok by blast
qed

theorem board_selection_witness:
  "board_ok (fst demo_read) \<and> map_option iv_State (selectedItem (fst demo_read)) = Some ''running''"
proof -
  have "anyCards (columnIndexes (bd_items (fst demo_read)))" "nat (bd_column (fst demo_read)) = 1" by code_simp+
  then show ?thesis using board_selection [OF demo_run] by (auto simp: workBoardColumns_def)
qed

text \<open>
  On every run of the board one round of reading is out while the board is marked as reading and none
  otherwise, the calls that are out are the one that its slot names, and there is one refresh clock.
\<close>

theorem board_one_call:
  assumes "board_run io room m out"
  shows "count_list out ReadCmd = (if bd_busy m then 1 else 0) \<and>
    List.map_filter call_of out = (case bd_action m of None \<Rightarrow> [] | Some a \<Rightarrow> [(ba_verb a, ba_id a)]) \<and>
    count_list out TickCmd = 1"
  using board_run_ok [OF assms] by (simp add: out_ok_def reads_def calls_def slot_def of_bool_def)

definition demo_aborting :: "string board \<times> cmd list" where
  "demo_aborting = board_Update demo_inputs (\<lambda>_. 5) 11 (KeyMsg \<lparr>k_name = ''a'', k_runes = Some ''a''\<rparr>) (fst demo_read)"

theorem board_one_call_witness:
  "\<exists>out. board_run demo_inputs (\<lambda>_. 5) (fst demo_aborting) out \<and> List.map_filter call_of out = [(Abort, ''a'')]"
proof -
  let ?out = "(remove1 ReadCmd (snd demo_start) @ snd demo_read) @ snd demo_aborting"
  have r: "board_run demo_inputs (\<lambda>_. 5) (fst demo_aborting) ?out"
    by (rule board_run.outside [OF demo_run]) (simp_all add: demo_aborting_def)
  have "map_option ba_verb (bd_action (fst demo_aborting)) = Some Abort" "map_option ba_id (bd_action (fst demo_aborting)) = Some ''a''"
    by code_simp+
  with board_one_call [OF r] r show ?thesis by (intro exI [of _ ?out]) auto
qed


definition demo_answers :: "(nat \<times> ((bool \<times> string) + string)) list" where
  "demo_answers = [(1, Inr [CHR ''a'', CHR 0x0A]), (1, Inl (False, ''e'')), (0, Inr ''old''),
      (1, Inr [CHR ''a'', CHR 0x0A, CHR ''b'', CHR 0x0A, CHR ''c''])]"


end
