(* ===== verification/StartPhase.thy ===== *)
theory StartPhase
  imports CloudControl GoTime
begin

text \<open>
  \<^verbatim>\<open>internal/fleet/start_phase.go\<close>: a start's situation as data, drawn from the phase and the time, and how
  the two callbacks of a start (theory CloudControl) are turned into phases. Times are counts of nanoseconds, a
  time that is not set is \<open>None\<close>.
\<close>

section \<open>A phase and its line\<close>

datatype phase_kind = PhaseAttempting | PhaseWaitingCapacity | PhaseBooting | PhaseReconnecting | PhaseSeeding

record start_phase =
  sp_Kind :: phase_kind
  sp_Since :: "int option"
  sp_RetryAt :: "int option"
  sp_Detail :: string

definition dash :: string where
  "dash = '' '' @ [CHR 0xE2, CHR 0x80, CHR 0x94] @ '' ''"

text \<open>The time between two times, held to 64 bits.\<close>

definition time_sub :: "int \<Rightarrow> int \<Rightarrow> int" where
  "time_sub t u = max (- (2 ^ 63)) (min (2 ^ 63 - 1) (t - u))"

definition formatPhaseDuration :: "int \<Rightarrow> string" where
  "formatPhaseDuration d =
     (let secs = (if d < 0 then 0 else d) div second; h = secs div 3600; m = (secs div 60) mod 60; s = secs mod 60
      in if h > 0 then show_int h @ ''h '' @ show_int m @ ''m '' @ show_int s @ ''s''
         else if m > 0 then show_int m @ ''m '' @ show_int s @ ''s''
         else show_int s @ ''s'')"

definition retryIn :: "int option \<Rightarrow> int \<Rightarrow> string" where
  "retryIn retryAt now =
     (case retryAt of
        None \<Rightarrow> ''''
      | Some t \<Rightarrow>
          (let left = time_sub t now
           in if left < second then dash @ ''retrying now'' else dash @ ''retrying in '' @ formatPhaseDuration left))"

definition elapsed :: "int option \<Rightarrow> int \<Rightarrow> string" where
  "elapsed since now = (case since of None \<Rightarrow> '''' | Some t \<Rightarrow> '' ('' @ formatPhaseDuration (time_sub now t) @ '')'')"

definition RenderPhase :: "start_phase \<Rightarrow> int \<Rightarrow> string" where
  "RenderPhase p now =
     (case sp_Kind p of
        PhaseWaitingCapacity \<Rightarrow> ''waiting for capacity'' @ retryIn (sp_RetryAt p) now
      | PhaseBooting \<Rightarrow> ''booting'' @ elapsed (sp_Since p) now
      | PhaseSeeding \<Rightarrow> ''seeding the weights'' @ elapsed (sp_Since p) now
      | PhaseReconnecting \<Rightarrow>
          ''connection dropped'' @ (if sp_Detail p \<noteq> '''' then '' ('' @ sp_Detail p @ '')'' else '''') @ retryIn (sp_RetryAt p) now
      | PhaseAttempting \<Rightarrow> ''waking the instance'' @ [CHR 0xE2, CHR 0x80, CHR 0xA6])"

section \<open>From callbacks to phases\<close>

text \<open>The phase that is held, none before the first; every change of it is reported.\<close>

definition sp_enter :: "int \<Rightarrow> phase_kind \<Rightarrow> string \<Rightarrow> start_phase option \<Rightarrow> start_phase option \<times> start_phase list" where
  "sp_enter now kind detail cur =
     (if (case cur of Some p \<Rightarrow> sp_Kind p = kind | None \<Rightarrow> False) then (cur, [])
      else (let p = \<lparr>sp_Kind = kind, sp_Since = Some now, sp_RetryAt = None, sp_Detail = detail\<rparr> in (Some p, [p])))"

definition sp_state :: "int \<Rightarrow> string \<Rightarrow> start_phase option \<Rightarrow> start_phase option \<times> start_phase list" where
  "sp_state now s cur =
     (if s = ''in-flight'' then
        (if (case cur of Some p \<Rightarrow> sp_Kind p \<noteq> PhaseBooting \<and> sp_Kind p \<noteq> PhaseSeeding | None \<Rightarrow> True)
         then sp_enter now PhaseAttempting '''' cur else (cur, []))
      else if s = ''ready'' then (cur, [])
      else if s = ''no-capacity'' then sp_enter now PhaseWaitingCapacity s cur
      else if s = ''seeding'' then sp_enter now PhaseSeeding s cur
      else sp_enter now PhaseBooting s cur)"

definition retryInMarker :: string where
  "retryInMarker = ''retrying in ''"

definition droppedPrefix :: string where
  "droppedPrefix = ''connection dropped''"

definition parseRetryIn :: "string \<Rightarrow> int option" where
  "parseRetryIn line =
     (case index_of line retryInMarker of
        None \<Rightarrow> None
      | Some i \<Rightarrow>
          (case str_fields (drop (i + length retryInMarker) line) of
             [] \<Rightarrow> None
           | f # fs \<Rightarrow>
               (case ParseDuration (trim_right_by (\<lambda>c. c = CHR ''.'') f) of
                  None \<Rightarrow> None
                | Some d \<Rightarrow> if d < 0 then None else Some d)))"

definition parenDetail :: "string \<Rightarrow> string" where
  "parenDetail line =
     (case (index_byte line CHR ''('', last_index_byte line CHR '')'') of
        (Some lo, Some hi) \<Rightarrow> if hi < lo then '''' else take (hi - (lo + 1)) (drop (lo + 1) line)
      | _ \<Rightarrow> '''')"

definition sp_progress :: "int \<Rightarrow> string \<Rightarrow> start_phase option \<Rightarrow> start_phase option \<times> start_phase list" where
  "sp_progress now line cur =
     (let wait = parseRetryIn line
      in if prefix droppedPrefix line then
           (let p = \<lparr>sp_Kind = PhaseReconnecting, sp_Since = Some now, sp_RetryAt = map_option (\<lambda>d. now + d) wait,
                  sp_Detail = parenDetail line\<rparr>
            in (Some p, [p]))
         else (case (wait, cur) of
             (Some d, Some q) \<Rightarrow>
               if sp_Kind q = PhaseWaitingCapacity then (let p = q\<lparr>sp_RetryAt := Some (now + d)\<rparr> in (Some p, [p])) else (cur, [])
           | _ \<Rightarrow> (cur, [])))"

definition sp_event :: "int \<times> start_event \<Rightarrow> start_phase option \<Rightarrow> start_phase option \<times> start_phase list" where
  "sp_event ev cur = (case ev of (t, OnState s) \<Rightarrow> sp_state t s cur | (t, Progress line) \<Rightarrow> sp_progress t line cur)"

text \<open>What a start's callbacks leave held and have reported.\<close>

fun StartPhases :: "(int \<times> start_event) list \<Rightarrow> start_phase option \<Rightarrow> start_phase option \<times> start_phase list" where
  "StartPhases [] cur = (cur, [])"
| "StartPhases (ev # evs) cur =
     (case sp_event ev cur of
        (cur', told) \<Rightarrow> (case StartPhases evs cur' of (cur'', rest) \<Rightarrow> (cur'', told @ rest)))"

lemma StartPhases_append:
  "fst (StartPhases (xs @ ys) cur) = fst (StartPhases ys (fst (StartPhases xs cur)))"
  by (induction xs arbitrary: cur) (simp_all add: case_prod_beta)


section \<open>What the lines tell\<close>

lemma prefix_before: "c \<notin> set pat \<Longrightarrow> prefix pat (p @ c # s) \<longleftrightarrow> prefix pat p"
proof
  assume c: "c \<notin> set pat" and pre: "prefix pat (p @ c # s)"
  show "prefix pat p"
  proof (rule ccontr)
    assume n: "\<not> prefix pat p"
    with pre obtain zs where "pat = p @ zs" "zs \<noteq> []" "prefix zs (c # s)"
      unfolding prefix_append by auto
    then show False using c by (cases zs) auto
  qed
qed (auto simp: prefix_def)

text \<open>A text is looked for behind a place that it cannot cover.\<close>

lemma index_of_behind:
  "c \<notin> set pat \<Longrightarrow> pat \<noteq> [] \<Longrightarrow> index_of p pat = None \<Longrightarrow>
   index_of (p @ c # s) pat = map_option (\<lambda>i. Suc (length p + i)) (index_of s pat)"
proof (induction p)
  case Nil
  have "\<not> prefix pat (c # s)" using Nil.prems(1,2) by (cases pat) auto
  then show ?case by simp
next
  case (Cons x p)
  then have n: "\<not> prefix pat (x # p)" "index_of p pat = None" by (auto split: if_splits)
  then have "\<not> prefix pat (x # p @ c # s)" using prefix_before [OF Cons.prems(1), of "x # p" s] by simp
  then show ?case using Cons.IH [OF Cons.prems(1,2) n(2)] by (simp add: option.map_comp comp_def)
qed

lemma digit_not_space: "is_digit c \<Longrightarrow> \<not> is_space c"
  by (auto simp: is_space_def is_digit_def)

lemma marker_chars: "CHR '';'' \<notin> set retryInMarker" "CHR ''('' \<notin> set retryInMarker" "CHR '')'' \<notin> set retryInMarker" "retryInMarker \<noteq> []"
  by (simp_all add: retryInMarker_def)

text \<open>A line that ends with the wait: the wait is read back, as long as nothing before it looks like one.\<close>

lemma parseRetryIn_line:
  assumes "index_of p retryInMarker = None" and "n * 10 ^ 9 < 2 ^ 63"
  shows "parseRetryIn (p @ ''; retrying in '' @ show_nat n @ ''s'') = Some (int n * second)"
proof -
  let ?w = "show_nat n @ ''s''"
  have "index_of ('' retrying in '' @ ?w) retryInMarker = Some 1" by (simp add: retryInMarker_def)
  then have i: "index_of (p @ CHR '';'' # '' retrying in '' @ ?w) retryInMarker = Some (length p + 2)"
    using index_of_behind [OF marker_chars(1,4) assms(1)] by simp
  have d: "drop (length p + 2 + length retryInMarker) (p @ CHR '';'' # '' retrying in '' @ ?w) = ?w"
    by (simp add: retryInMarker_def)
  have "list_all (\<lambda>c. \<not> is_space c) ?w"
    using show_nat_digits [of _ n] digit_not_space by (auto simp: list_all_iff is_space_def [of "CHR ''s''"])
  then have "a_word ?w" by (simp add: a_word_def)
  then have f: "str_fields ?w = [?w]" by simp
  have t: "trim_right_by (\<lambda>c. c = CHR ''.'') ?w = ?w" by (simp add: trim_right_by_def)
  have "parseRetryIn (p @ CHR '';'' # '' retrying in '' @ ?w) = Some (int n * second)"
    unfolding parseRetryIn_def i option.case d f list.case t ParseDuration_seconds [OF assms(2)] by (simp add: second_def)
  then show ?thesis by simp
qed

lemma dropped_line_wait:
  assumes "index_of e retryInMarker = None"
  shows "parseRetryIn (dropped_line e) = Some (5 * second)"
proof -
  let ?p = "''connection dropped ('' @ e @ '')''"
  have "index_of ''connection dropped '' retryInMarker = None" by (simp add: retryInMarker_def)
  from index_of_behind [OF marker_chars(2,4) this, of e] have "index_of (''connection dropped ('' @ e) retryInMarker = None"
    using assms by simp
  from index_of_behind [OF marker_chars(3,4) this, of "''''"] have "index_of ?p retryInMarker = None"
    by (simp add: retryInMarker_def)
  moreover have "show_nat 5 = ''5''" by code_simp
  moreover have "dropped_line e = ?p @ ''; retrying in '' @ ''5'' @ ''s''" by (simp add: dropped_line_def)
  ultimately show ?thesis using parseRetryIn_line [of ?p 5] by (simp del: append_Cons)
qed

lemma dropped_line_detail: "parenDetail (dropped_line e) = e"
proof -
  let ?line = "''connection dropped ('' @ e @ ''); retrying in 5s''"
  have "index_byte (''connection dropped '' @ CHR ''('' # e @ ''); retrying in 5s'') CHR ''('' = Some (length ''connection dropped '')"
    by (rule index_byte_append) simp
  then have lo: "index_byte ?line CHR ''('' = Some 19" by simp
  have "index_byte (rev ''; retrying in 5s'' @ CHR '')'' # rev (''connection dropped ('' @ e)) CHR '')'' = Some (length (rev ''; retrying in 5s''))"
    by (rule index_byte_append) simp
  then have "index_byte (rev ?line) CHR '')'' = Some 16" by simp
  then have hi: "last_index_byte ?line CHR '')'' = Some (length e + 20)" by (simp add: last_index_byte_def)
  show ?thesis unfolding dropped_line_def parenDetail_def lo hi by simp
qed


section \<open>A start's situation, from its attempts\<close>

text \<open>What an attempt that is tried again leaves as the situation, read from the attempt and not from any line.\<close>

definition running_phase :: "phase_kind \<Rightarrow> int \<Rightarrow> string \<Rightarrow> start_phase option \<Rightarrow> start_phase option" where
  "running_phase kind back s cur =
     (if (case cur of Some p \<Rightarrow> sp_Kind p = kind | None \<Rightarrow> False) then cur
      else Some \<lparr>sp_Kind = kind, sp_Since = Some back, sp_RetryAt = None, sp_Detail = s\<rparr>)"

definition attempt_phase ::
  "(attempt \<Rightarrow> control_error + control_reply) \<Rightarrow> attempt \<Rightarrow> start_phase option \<Rightarrow> start_phase option" where
  "attempt_phase answer a cur =
     (case answer a of
        Inl (CallFails (UrlFault e)) \<Rightarrow>
          Some \<lparr>sp_Kind = PhaseReconnecting, sp_Since = Some (at_back a), sp_RetryAt = Some (at_back a + 5 * second), sp_Detail = e\<rparr>
      | Inl e \<Rightarrow> cur
      | Inr r \<Rightarrow>
          if rp_State r = ''no-capacity'' then
            Some \<lparr>sp_Kind = PhaseWaitingCapacity, sp_Since = Some (at_back a),
              sp_RetryAt = Some (at_back a + retry_wait r * second), sp_Detail = ''no-capacity''\<rparr>
          else running_phase (if rp_State r = ''seeding'' then PhaseSeeding else PhaseBooting) (at_back a) (rp_State r) cur)"

text \<open>
  An attempt whose lines can be read: no error that itself names a wait, no state that stands for none, no wait
  that a duration cannot hold.
\<close>

definition legible :: "(attempt \<Rightarrow> control_error + control_reply) \<Rightarrow> attempt \<Rightarrow> bool" where
  "legible answer a \<longleftrightarrow>
     (case answer a of
        Inl (CallFails (UrlFault e)) \<Rightarrow> index_of e retryInMarker = None
      | Inl e \<Rightarrow> True
      | Inr r \<Rightarrow> rp_State r \<noteq> ''in-flight'' \<and> rp_State r \<noteq> ''ready'' \<and> retry_wait r * 10 ^ 9 < 2 ^ 63)"

lemma refusal_line_plain: "\<not> prefix droppedPrefix (refusal_line r)"
  by (simp add: refusal_line_def droppedPrefix_def)

lemma no_capacity_wait:
  assumes "rp_State r = ''no-capacity''" "retry_wait r * 10 ^ 9 < 2 ^ 63"
  shows "parseRetryIn (refusal_line r) = Some (retry_wait r * second)"
proof -
  have w: "0 < retry_wait r" by (simp add: retry_wait_def)
  then have "int (nat (retry_wait r) * 10 ^ 9) < int (2 ^ 63)" using assms(2) by simp
  then have "nat (retry_wait r) * 10 ^ 9 < 2 ^ 63" by (simp only: of_nat_less_iff)
  moreover have "index_of ''instance no-capacity'' retryInMarker = None" by (simp add: retryInMarker_def)
  ultimately have "parseRetryIn (''instance no-capacity'' @ ''; retrying in '' @ show_nat (nat (retry_wait r)) @ ''s'') =
      Some (int (nat (retry_wait r)) * second)" by (intro parseRetryIn_line)
  moreover have "refusal_line r = ''instance no-capacity'' @ ''; retrying in '' @ show_nat (nat (retry_wait r)) @ ''s''"
    using w by (simp add: refusal_line_def assms(1) show_int_def)
  ultimately show ?thesis using w by (simp del: append_Cons)
qed

lemma sp_state_in_flight:
  "fst (sp_state t ''in-flight'' cur) =
     (case cur of
        Some p \<Rightarrow> if sp_Kind p \<in> {PhaseBooting, PhaseSeeding, PhaseAttempting} then cur
          else Some \<lparr>sp_Kind = PhaseAttempting, sp_Since = Some t, sp_RetryAt = None, sp_Detail = ''''\<rparr>
      | None \<Rightarrow> Some \<lparr>sp_Kind = PhaseAttempting, sp_Since = Some t, sp_RetryAt = None, sp_Detail = ''''\<rparr>)"
  by (simp add: sp_state_def sp_enter_def Let_def split: option.split)

lemma sp_progress_refusal:
  assumes "case cur of Some p \<Rightarrow> sp_Kind p \<noteq> PhaseWaitingCapacity | None \<Rightarrow> True"
  shows "fst (sp_progress t (refusal_line r) cur) = cur"
  using assms by (simp add: sp_progress_def refusal_line_plain split: option.split option.splits)

lemma attempt_phases:
  assumes "tried_again answer a" "legible answer a"
  shows "fst (StartPhases (attempt_events answer a) cur) = attempt_phase answer a cur"
proof -
  from assms(1) consider e where "answer a = Inl (CallFails (UrlFault e))" "\<not> at_cancelled a"
    | r where "answer a = Inr r" "rp_StatusCode r = 503"
    by (auto simp: tried_again_def split: sum.splits control_error.splits send_fault.splits)
  then show ?thesis
  proof cases
    case 1
    then have "index_of e retryInMarker = None" using assms(2) by (simp add: legible_def)
    note dropped_line_wait [OF this]
    moreover have "prefix droppedPrefix (dropped_line e)" by (simp add: droppedPrefix_def dropped_line_def)
    ultimately have "sp_progress (at_back a) (dropped_line e) c = (attempt_phase answer a cur,
        [the (attempt_phase answer a cur)])" for c
      by (simp add: sp_progress_def dropped_line_detail attempt_phase_def Let_def 1)
    then show ?thesis using 1 by (simp add: attempt_events_def sp_event_def case_prod_beta)
  next
    case 2
    let ?s = "rp_State r"
    define mid where "mid = fst (sp_state (at_sent a) ''in-flight'' cur)"
    have l: "?s \<noteq> ''in-flight''" "?s \<noteq> ''ready''" "retry_wait r * 10 ^ 9 < 2 ^ 63"
      using assms(2) 2 by (simp_all add: legible_def)
    have ev: "fst (StartPhases (attempt_events answer a) cur) =
        fst (sp_progress (at_back a) (refusal_line r) (fst (sp_state (at_back a) ?s mid)))"
      using 2 by (simp add: attempt_events_def sp_event_def case_prod_beta mid_def)
    show ?thesis
    proof (cases "?s = ''no-capacity''")
      case True
      have "case mid of Some p \<Rightarrow> sp_Kind p \<noteq> PhaseWaitingCapacity | None \<Rightarrow> True"
        by (simp add: mid_def sp_state_in_flight split: option.split)
      then have "fst (sp_state (at_back a) ?s mid) =
          Some \<lparr>sp_Kind = PhaseWaitingCapacity, sp_Since = Some (at_back a), sp_RetryAt = None, sp_Detail = ''no-capacity''\<rparr>"
        by (auto simp: True sp_state_def sp_enter_def Let_def split: option.splits)
      then show ?thesis
        unfolding ev using no_capacity_wait [OF True l(3)] 2(1) True
        by (simp add: sp_progress_def refusal_line_plain attempt_phase_def Let_def)
    next
      case False
      let ?k = "if ?s = ''seeding'' then PhaseSeeding else PhaseBooting"
      have "fst (sp_state (at_back a) ?s mid) = running_phase ?k (at_back a) ?s mid"
        using l(1,2) False by (simp add: sp_state_def sp_enter_def running_phase_def Let_def)
      also have "\<dots> = running_phase ?k (at_back a) ?s cur"
        by (auto simp: mid_def sp_state_in_flight running_phase_def split: option.split)
      finally have st: "fst (sp_state (at_back a) ?s mid) = running_phase ?k (at_back a) ?s cur" .
      have "case running_phase ?k (at_back a) ?s cur of Some p \<Rightarrow> sp_Kind p \<noteq> PhaseWaitingCapacity | None \<Rightarrow> True"
        by (auto simp: running_phase_def split: option.split)
      then show ?thesis unfolding ev st using sp_progress_refusal 2(1) False by (simp add: attempt_phase_def)
    qed
  qed
qed

lemma attempts_phases:
  assumes "\<forall>a \<in> set as. tried_again answer a \<and> legible answer a"
  shows "fst (StartPhases (concat (map (attempt_events answer) as)) cur) = fold (attempt_phase answer) as cur"
  using assms by (induction as arbitrary: cur) (simp_all add: StartPhases_append attempt_phases)


text \<open>
  C19: while a start is under way, the situation that its callbacks hold is the one that its attempts tell by
  themselves: the state, its beginning, the time of the next attempt and the error are read back from the
  callbacks and the lines as the attempts had them.
\<close>

theorem start_situation:
  assumes "answer = attempt_reply ops decode si cfg (start_url ops cfg retainUntil)"
    and "\<forall>a \<in> set as. tried_again answer a \<and> legible answer a"
  shows "fst (StartPhases (fst (cloud_Start ops decode si cfg retainUntil as)) None) = fold (attempt_phase answer) as None"
proof -
  have w: "takeWhile (tried_again answer) as = as" "dropWhile (tried_again answer) as = []"
    using assms(2) by (simp_all add: takeWhile_eq_all_conv dropWhile_eq_Nil_conv)
  have "fst (cloud_Start ops decode si cfg retainUntil as) = concat (map (attempt_events answer) as)"
    unfolding Start_loop_outcome Let_def assms(1) [symmetric] w by simp
  then show ?thesis using attempts_phases [OF assms(2)] by simp
qed

definition demo_urls :: "string url_ops" where
  "demo_urls = \<lparr>uo_parse = Inr, uo_set = (\<lambda>_ u. u), uo_string = id\<rparr>"

definition no_reply :: control_reply where
  "no_reply = \<lparr>rp_StatusCode = 0, rp_State = '''', rp_Healthy = None, rp_BaseURL = '''', rp_APIKey = '''', rp_Environment = '''',
     rp_Message = '''', rp_RetryAfterSeconds = 0, rp_LastActiveAt = '''', rp_IdleSeconds = 0, rp_Deployed = False,
     rp_Seeding = False, rp_SeedID = '''', rp_ServedName = '''', rp_Runner = '''', rp_ModelID = '''', rp_ContextSize = 0,
     rp_WeightsPrefix = '''', rp_APIKeyAction = '''', rp_RetainUntil = '''', rp_Error = ''''\<rparr>"

text \<open>A reply's text is its state; each names a wait of 30 seconds.\<close>

definition demo_reply :: "string \<Rightarrow> control_reply option" where
  "demo_reply text = Some (no_reply\<lparr>rp_State := text, rp_RetryAfterSeconds := 30\<rparr>)"

definition demo_signer :: signer where
  "demo_signer = \<lparr>si_stored = (\<lambda>_. False), si_ambient = True\<rparr>"

definition demo_attempt :: "int \<Rightarrow> send_fault + int \<times> string \<Rightarrow> attempt" where
  "demo_attempt t ans = \<lparr>at_answer = ans, at_sent = t, at_back = t, at_cancelled = False, at_expires = False\<rparr>"

abbreviation demo_answer :: "attempt \<Rightarrow> control_error + control_reply" where
  "demo_answer \<equiv> attempt_reply demo_urls demo_reply demo_signer no_cloud_config (start_url demo_urls no_cloud_config None)"

lemma demo_answer_simps: "demo_answer (demo_attempt t (Inl (UrlFault e))) = Inl (CallFails (UrlFault e))"
  "demo_answer (demo_attempt t (Inr (n, s))) = Inr (no_reply\<lparr>rp_State := s, rp_RetryAfterSeconds := 30, rp_StatusCode := n\<rparr>)"
  by (simp_all add: attempt_reply_def control_call_def no_cloud_config_def demo_attempt_def demo_reply_def)

theorem start_situation_witness:
  "fst (StartPhases (fst (cloud_Start demo_urls demo_reply demo_signer no_cloud_config None
      [demo_attempt 1 (Inl (UrlFault ''EOF'')), demo_attempt 7 (Inr (503, ''no-capacity''))])) None) =
    Some \<lparr>sp_Kind = PhaseWaitingCapacity, sp_Since = Some 7, sp_RetryAt = Some (7 + 30 * second), sp_Detail = ''no-capacity''\<rparr>"
proof -
  let ?as = "[demo_attempt 1 (Inl (UrlFault ''EOF'')), demo_attempt 7 (Inr (503, ''no-capacity''))]"
  have t: "\<forall>a \<in> set ?as. tried_again demo_answer a \<and> legible demo_answer a"
    by (simp add: tried_again_def legible_def demo_answer_simps retry_wait_def retryInMarker_def)
      (simp add: demo_attempt_def no_reply_def)
  show ?thesis unfolding start_situation [OF refl t]
    by (simp add: attempt_phase_def demo_answer_simps retry_wait_def no_reply_def) (simp add: demo_attempt_def)
qed

text \<open>A connection that drops while the model boots starts the boot's clock again.\<close>

lemma dropped_connection_restarts_boot_clock:
  assumes "answer a = Inr r" "rp_State r = ''pending''" "answer b = Inl (CallFails (UrlFault e))"
    and "answer c = Inr r"
  shows "fold (attempt_phase answer) [a, b, c] None =
    Some \<lparr>sp_Kind = PhaseBooting, sp_Since = Some (at_back c), sp_RetryAt = None, sp_Detail = ''pending''\<rparr>"
  using assms by (simp add: attempt_phase_def running_phase_def)

end
