(* ===== verification/CloudLogs.thy ===== *)
theory CloudLogs
  imports CloudControl GoTime "HOL-Library.Product_Lexorder"
begin

text \<open>
  \<^verbatim>\<open>internal/cloud/logs.go\<close>: an environment's shipped logs read from the log groups of its control plane; and
  \<^verbatim>\<open>internal/cloud/follow.go\<close>: the cursor that turns repeated readings into events shown once. The log service is
  an argument that answers the number of a request and the request. Times are counts of nanoseconds, the
  service's own are counts of milliseconds.
\<close>

section \<open>Groups, queries and events\<close>

definition logGroupPrefix :: string where
  "logGroupPrefix = ''/cloud-vm-llm''"

definition Runners :: "string list" where
  "Runners = [''llamacpp'', ''vllm'']"

definition EngineLogGroup :: "string \<Rightarrow> string" where
  "EngineLogGroup runner = logGroupPrefix @ ''/'' @ runner"

definition BootLogGroup :: string where
  "BootLogGroup = logGroupPrefix @ ''/boot''"

record log_query =
  lq_Environment :: string
  lq_Source :: string
  lq_Start :: "int option"
  lq_End :: "int option"
  lq_Limit :: int
  lq_Instance :: string

record log_event =
  le_Timestamp :: int
  le_Source :: string
  le_Instance :: string
  le_Message :: string
  le_ID :: string

text \<open>An event as the service has it, a page of them, and a request for one.\<close>

record raw_event =
  re_Timestamp :: int
  re_LogStreamName :: string
  re_Message :: string
  re_EventId :: string

record log_page =
  lp_Events :: "raw_event list"
  lp_NextToken :: "string option"

record log_request =
  lr_LogGroupName :: string
  lr_LogStreamNamePrefix :: string
  lr_StartTime :: "int option"
  lr_EndTime :: "int option"
  lr_NextToken :: "string option"

text \<open>A fault of the service: whether it says that the group does not exist, its code and its text.\<close>

record api_fault =
  af_NotFound :: bool
  af_Code :: "string option"
  af_Text :: string

datatype fetch_fault = ApiFault api_fault | TooManyPages string

datatype logs_error =
    NoEnvironment
  | NoCredentials string
  | UnknownSource string
  | NoLogGroups string "string list"
  | LogCredentials refresh
  | LogDenied
  | LogFault fetch_fault

type_synonym logs_api = "nat \<Rightarrow> log_request \<Rightarrow> api_fault + log_page"

definition maxLogPages :: nat where
  "maxLogPages = 200"

definition logGroupsFor :: "string \<Rightarrow> logs_error + (string \<times> string) list" where
  "logGroupsFor source =
     (let engines = map (\<lambda>r. (EngineLogGroup r, ''engine'')) Runners; boot = [(BootLogGroup, ''boot'')]
      in if source = ''engine'' then Inr engines
         else if source = ''all'' then Inr (engines @ boot)
         else if source = ''boot'' then Inr boot
         else Inl (UnknownSource source))"

definition streamInstance :: "string \<Rightarrow> string" where
  "streamInstance stream = (case last_index_byte stream CHR ''/'' of None \<Rightarrow> stream | Some i \<Rightarrow> drop (Suc i) stream)"

definition logEventFrom :: "string \<Rightarrow> raw_event \<Rightarrow> log_event" where
  "logEventFrom source e =
     \<lparr>le_Timestamp = re_Timestamp e * 10 ^ 6, le_Source = source, le_Instance = streamInstance (re_LogStreamName e),
      le_Message = trim_right_by (\<lambda>c. c \<in> {CHR 0x0D, CHR 0x0A}) (re_Message e), le_ID = re_EventId e\<rparr>"

section \<open>Reading one group\<close>

definition log_request_for :: "log_query \<Rightarrow> string \<Rightarrow> string option \<Rightarrow> log_request" where
  "log_request_for q name token =
     \<lparr>lr_LogGroupName = name, lr_LogStreamNamePrefix = lq_Environment q @ ''/'',
      lr_StartTime = map_option (\<lambda>t. t div 10 ^ 6) (lq_Start q), lr_EndTime = map_option (\<lambda>t. t div 10 ^ 6) (lq_End q),
      lr_NextToken = token\<rparr>"

definition page_events :: "log_query \<Rightarrow> string \<Rightarrow> log_page \<Rightarrow> log_event list" where
  "page_events q source p =
     filter (\<lambda>e. lq_Instance q = '''' \<or> le_Instance e = lq_Instance q) (map (logEventFrom source) (lp_Events p))"

definition trim_block :: "int \<Rightarrow> log_event list \<Rightarrow> nat \<Rightarrow> log_event list \<times> nat" where
  "trim_block limit kept dropped =
     (if 0 < limit \<and> 2 * limit \<le> int (length kept)
      then (drop (length kept - nat limit) kept, dropped + (length kept - nat limit)) else (kept, dropped))"

text \<open>The pages of a group: how many more there may be, the token of the next one, what is kept and dropped so far.\<close>

fun group_pages ::
  "logs_api \<Rightarrow> log_query \<Rightarrow> string \<times> string \<Rightarrow> nat \<Rightarrow> string option \<Rightarrow> log_event list \<Rightarrow> nat \<Rightarrow> fetch_fault + log_event list \<times> nat" where
  "group_pages api q g more_pages token kept dropped =
     (case api (maxLogPages - more_pages) (log_request_for q (fst g) token) of
        Inl e \<Rightarrow> Inl (ApiFault e)
      | Inr p \<Rightarrow>
          (case trim_block (lq_Limit q) (kept @ page_events q (snd g) p) dropped of
             (kept, dropped) \<Rightarrow>
               if lp_NextToken p \<in> {None, Some ''''} then Inr (kept, dropped)
               else (case more_pages of
                   0 \<Rightarrow> Inl (TooManyPages (fst g))
                 | Suc n \<Rightarrow> group_pages api q g n (lp_NextToken p) kept dropped)))"

declare group_pages.simps [simp del]

definition fetchGroup :: "logs_api \<Rightarrow> log_query \<Rightarrow> string \<times> string \<Rightarrow> fetch_fault + log_event list \<times> nat" where
  "fetchGroup api q g = group_pages api q g (maxLogPages - 1) None [] 0"

section \<open>Reading an environment\<close>

definition event_key :: "log_event \<Rightarrow> int \<times> string" where
  "event_key e = (le_Timestamp e, le_ID e)"

definition sortEvents :: "log_event list \<Rightarrow> log_event list" where
  "sortEvents = sort_key event_key"

definition accessDenied :: "api_fault \<Rightarrow> bool" where
  "accessDenied e \<longleftrightarrow>
     (case af_Code e of Some c \<Rightarrow> contains c ''AccessDenied'' \<or> c = ''AuthorizationError'' | None \<Rightarrow> False) \<or>
     contains (af_Text e) ''not authorized to perform''"

text \<open>The text of a group with too many pages is the program's own, and names neither credentials nor permissions.\<close>

definition logsError :: "signer \<Rightarrow> string \<Rightarrow> fetch_fault \<Rightarrow> logs_error" where
  "logsError si region f =
     (case f of
        ApiFault e \<Rightarrow>
          if credentialError (af_Code e) (af_Text e) then LogCredentials (credsRefreshHint si region)
          else if accessDenied e then LogDenied
          else LogFault f
      | TooManyPages g \<Rightarrow> LogFault f)"

definition missing_group :: "fetch_fault + log_event list \<times> nat \<Rightarrow> bool" where
  "missing_group r = (case r of Inl (ApiFault e) \<Rightarrow> af_NotFound e | _ \<Rightarrow> False)"

text \<open>The groups in order: the first fault that is not a missing group ends the reading.\<close>

fun read_groups :: "(fetch_fault + log_event list \<times> nat) list \<Rightarrow> fetch_fault + log_event list \<times> nat" where
  "read_groups [] = Inr ([], 0)"
| "read_groups (r # rs) =
     (if missing_group r then read_groups rs
      else (case r of
          Inl e \<Rightarrow> Inl e
        | Inr (found, d) \<Rightarrow>
            (case read_groups rs of Inl e \<Rightarrow> Inl e | Inr (events, omitted) \<Rightarrow> Inr (found @ events, d + omitted))))"

definition newest_events :: "int \<Rightarrow> log_event list \<Rightarrow> nat \<Rightarrow> log_event list \<times> nat" where
  "newest_events limit events omitted =
     (if 0 < limit \<and> limit < int (length events)
      then (drop (length events - nat limit) events, omitted + (length events - nat limit)) else (events, omitted))"

definition fetchLogs :: "signer \<Rightarrow> logs_api \<Rightarrow> log_query \<Rightarrow> string \<Rightarrow> logs_error + log_event list \<times> nat" where
  "fetchLogs si api q region =
     (case logGroupsFor (lq_Source q) of
        Inl e \<Rightarrow> Inl e
      | Inr groups \<Rightarrow>
          (let rs = map (fetchGroup api q) groups
           in case read_groups rs of
                Inl e \<Rightarrow> Inl (logsError si region e)
              | Inr (events, omitted) \<Rightarrow>
                  if list_all missing_group rs then Inl (NoLogGroups (lq_Source q) (map fst groups))
                  else Inr (newest_events (lq_Limit q) (sortEvents events) omitted)))"

definition FetchLogs :: "(string \<Rightarrow> string + logs_api) \<Rightarrow> signer \<Rightarrow> cloud_config \<Rightarrow> log_query \<Rightarrow> logs_error + log_event list \<times> nat" where
  "FetchLogs load si cfg q =
     (if lq_Environment q = '''' then Inl NoEnvironment
      else (case load (cc_Region cfg) of Inl e \<Rightarrow> Inl (NoCredentials e) | Inr api \<Rightarrow> fetchLogs si api q (cc_Region cfg)))"

section \<open>Following\<close>

record follow_cursor =
  fc_overlap :: int
  fc_printed :: "(string, int) gomap"
  fc_newest :: "int option"

definition FollowOverlap :: int where
  "FollowOverlap = 10 * second"

definition NewFollowCursor :: "int \<Rightarrow> follow_cursor" where
  "NewFollowCursor overlap = \<lparr>fc_overlap = overlap, fc_printed = [], fc_newest = None\<rparr>"

definition seen_event :: "log_event \<Rightarrow> follow_cursor \<Rightarrow> follow_cursor" where
  "seen_event e c = c
     \<lparr>fc_printed := AList.update (le_ID e) (le_Timestamp e) (fc_printed c),
      fc_newest := (if (case fc_newest c of None \<Rightarrow> True | Some n \<Rightarrow> n < le_Timestamp e) then Some (le_Timestamp e) else fc_newest c)\<rparr>"

fun take_fresh :: "log_event list \<Rightarrow> follow_cursor \<Rightarrow> log_event list \<times> follow_cursor" where
  "take_fresh [] c = ([], c)"
| "take_fresh (e # es) c =
     (if map_of (fc_printed c) (le_ID e) \<noteq> None then take_fresh es c
      else (case take_fresh es (seen_event e c) of (fresh, c') \<Rightarrow> (e # fresh, c')))"

definition forget_old :: "follow_cursor \<Rightarrow> follow_cursor" where
  "forget_old c =
     (case fc_newest c of
        None \<Rightarrow> c
      | Some n \<Rightarrow> c\<lparr>fc_printed := filter (\<lambda>(i, t). \<not> t < n - 2 * fc_overlap c) (fc_printed c)\<rparr>)"

definition Advance :: "log_event list \<Rightarrow> follow_cursor \<Rightarrow> log_event list \<times> follow_cursor" where
  "Advance events c = (case take_fresh events c of (fresh, c') \<Rightarrow> (fresh, forget_old c'))"

definition cursor_Start :: "follow_cursor \<Rightarrow> int option" where
  "cursor_Start c = map_option (\<lambda>n. n - fc_overlap c) (fc_newest c)"

definition cursor_Reset :: "follow_cursor \<Rightarrow> follow_cursor" where
  "cursor_Reset c = c\<lparr>fc_printed := [], fc_newest := None\<rparr>"


section \<open>What a limit leaves out\<close>

text \<open>
  What is kept of all events, where everything left out has as many newer or equal ones kept as the limit says.
\<close>

definition kept_newest :: "nat \<Rightarrow> log_event list \<Rightarrow> log_event list \<Rightarrow> nat \<Rightarrow> bool" where
  "kept_newest L all kept omitted \<longleftrightarrow>
     mset kept \<subseteq># mset all \<and> omitted + length kept = length all \<and>
     (\<forall>x \<in># mset all - mset kept. L \<le> length (filter (\<lambda>e. le_Timestamp x \<le> le_Timestamp e) kept))"

lemma kept_newest_append:
  assumes "kept_newest L a k m" "kept_newest L b l n"
  shows "kept_newest L (a @ b) (k @ l) (m + n)"
proof -
  obtain A B where d: "mset a = mset k + A" "mset b = mset l + B"
    using assms unfolding kept_newest_def by (meson mset_subset_eq_exists_conv)
  have "mset (a @ b) = mset (k @ l) + (A + B)" by (simp add: d)
  then have "mset (a @ b) - mset (k @ l) = A + B" "mset (k @ l) \<subseteq># mset (a @ b)" by simp_all
  then show ?thesis
    using assms unfolding kept_newest_def d by (auto intro: le_add1 le_add2 le_trans)
qed

text \<open>A block that is trimmed off the front of events in their order.\<close>

definition trimmed_front :: "nat \<Rightarrow> log_event list \<Rightarrow> log_event list \<Rightarrow> nat \<Rightarrow> bool" where
  "trimmed_front L all kept dropped \<longleftrightarrow> kept = drop dropped all \<and> dropped \<le> length all \<and> (dropped = 0 \<or> L \<le> length kept)"

lemma trimmed_front_more: "trimmed_front L all kept d \<Longrightarrow> trimmed_front L (all @ more_events) (kept @ more_events) d"
  by (auto simp: trimmed_front_def)

lemma trim_block_front:
  assumes "trimmed_front (nat limit) all kept d" "trim_block limit kept d = (kept', d')"
  shows "trimmed_front (nat limit) all kept' d'"
proof (cases "0 < limit \<and> 2 * limit \<le> int (length kept)")
  case True
  then have "nat limit \<le> length kept" by linarith
  then show ?thesis using assms True by (auto simp: trimmed_front_def trim_block_def)
next
  case False
  then have "kept' = kept" "d' = d" using assms(2) by (simp_all only: trim_block_def if_False prod.inject)
  then show ?thesis using assms(1) by simp
qed

lemma group_pages_front:
  assumes "trimmed_front (nat (lq_Limit q)) all kept d"
  shows "case group_pages api (q\<lparr>lq_Limit := 0\<rparr>) g n token all 0 of
      Inl e \<Rightarrow> group_pages api q g n token kept d = Inl e
    | Inr (es, z) \<Rightarrow> z = 0 \<and> (\<exists>k m. group_pages api q g n token kept d = Inr (k, m) \<and> trimmed_front (nat (lq_Limit q)) es k m)"
  using assms
proof (induction n arbitrary: token all kept d)
  case 0
  have r: "log_request_for (q\<lparr>lq_Limit := 0\<rparr>) = log_request_for q" "page_events (q\<lparr>lq_Limit := 0\<rparr>) = page_events q"
    by (simp_all add: log_request_for_def page_events_def fun_eq_iff)
  show ?case
  proof (cases "api (maxLogPages - 0) (log_request_for q (fst g) token)")
    case (Inl e)
    then show ?thesis by (simp add: group_pages.simps r)
  next
    case (Inr p)
    obtain k m where b: "trim_block (lq_Limit q) (kept @ page_events q (snd g) p) d = (k, m)" by fastforce
    have "trimmed_front (nat (lq_Limit q)) (all @ page_events q (snd g) p) k m"
      using trim_block_front [OF trimmed_front_more [OF 0] b] .
    then show ?thesis using Inr b by (simp add: group_pages.simps r trim_block_def [of 0])
  qed
next
  case (Suc n)
  have r: "log_request_for (q\<lparr>lq_Limit := 0\<rparr>) = log_request_for q" "page_events (q\<lparr>lq_Limit := 0\<rparr>) = page_events q"
    by (simp_all add: log_request_for_def page_events_def fun_eq_iff)
  show ?case
  proof (cases "api (maxLogPages - Suc n) (log_request_for q (fst g) token)")
    case (Inl e)
    then show ?thesis by (simp add: group_pages.simps r)
  next
    case (Inr p)
    obtain k m where b: "trim_block (lq_Limit q) (kept @ page_events q (snd g) p) d = (k, m)" by fastforce
    have f: "trimmed_front (nat (lq_Limit q)) (all @ page_events q (snd g) p) k m"
      using trim_block_front [OF trimmed_front_more [OF Suc.prems] b] .
    show ?thesis
    proof (cases "lp_NextToken p \<in> {None, Some ''''}")
      case True
      then show ?thesis
        using Inr b f by (simp add: group_pages.simps [of _ _ _ "Suc n"] r trim_block_def [of 0])
    next
      case False
      then obtain tok where "lp_NextToken p = Some tok" "tok \<noteq> ''''" by (cases "lp_NextToken p") auto
      then show ?thesis
        using Inr b Suc.IH [OF f, of "lp_NextToken p"]
        by (auto simp add: group_pages.simps [of _ _ _ "Suc n"] r trim_block_def [of 0] split: sum.splits)
    qed
  qed
qed


text \<open>Of events in their order, a trimmed front leaves the newest.\<close>

definition oldest_first :: "log_event list \<Rightarrow> bool" where
  "oldest_first es \<longleftrightarrow> sorted_wrt (\<lambda>a b. le_Timestamp a \<le> le_Timestamp b) es"

lemma trimmed_front_newest:
  assumes "trimmed_front L all kept d" "oldest_first all"
  shows "kept_newest L all kept d"
proof -
  have k: "kept = drop d all" "d \<le> length all" "d = 0 \<or> L \<le> length kept" using assms(1) unfolding trimmed_front_def by blast+
  have m: "mset all = mset kept + mset (take d all)" using k(1) by (metis append_take_drop_id mset_append union_commute)
  have "L \<le> length (filter (\<lambda>e. le_Timestamp x \<le> le_Timestamp e) kept)" if x: "x \<in> set (take d all)" for x
  proof -
    have "sorted_wrt (\<lambda>a b. le_Timestamp a \<le> le_Timestamp b) (take d all @ kept)"
      using assms(2) k(1) by (simp add: oldest_first_def)
    then have "\<forall>e \<in> set kept. le_Timestamp x \<le> le_Timestamp e" using x by (auto simp: sorted_wrt_append)
    moreover have "d \<noteq> 0" using x by (cases d) auto
    ultimately show ?thesis using k(3) by (simp add: filter_id_conv [THEN iffD2])
  qed
  moreover have "mset all - mset kept = mset (take d all)" using m by simp
  moreover have "mset kept \<subseteq># mset all" using m by simp
  ultimately show ?thesis using k(1,2) by (auto simp: kept_newest_def)
qed

lemma fetchGroup_newest:
  "case fetchGroup api (q\<lparr>lq_Limit := 0\<rparr>) g of
     Inl e \<Rightarrow> fetchGroup api q g = Inl e
   | Inr (es, z) \<Rightarrow> z = 0 \<and> (\<exists>k m. fetchGroup api q g = Inr (k, m) \<and> (oldest_first es \<longrightarrow> kept_newest (nat (lq_Limit q)) es k m))"
proof -
  have "trimmed_front (nat (lq_Limit q)) [] [] 0" by (simp add: trimmed_front_def)
  from group_pages_front [OF this, of api g "maxLogPages - 1" None] show ?thesis
    unfolding fetchGroup_def by (auto split: sum.splits dest: trimmed_front_newest)
qed

text \<open>The events that a group holds for a query, whatever its limit.\<close>

definition group_in_order :: "logs_api \<Rightarrow> log_query \<Rightarrow> string \<times> string \<Rightarrow> bool" where
  "group_in_order api q g \<longleftrightarrow> (case fetchGroup api (q\<lparr>lq_Limit := 0\<rparr>) g of Inl e \<Rightarrow> True | Inr (es, d) \<Rightarrow> oldest_first es)"

lemma read_groups_newest:
  assumes "\<forall>g \<in> set gs. group_in_order api q g"
    and "read_groups (map (fetchGroup api (q\<lparr>lq_Limit := 0\<rparr>)) gs) = Inr (all, z)"
  shows "z = 0 \<and> (\<exists>k m. read_groups (map (fetchGroup api q) gs) = Inr (k, m) \<and> kept_newest (nat (lq_Limit q)) all k m)"
  using assms
proof (induction gs arbitrary: all z)
  case Nil
  then show ?case by (simp add: kept_newest_def)
next
  case (Cons g gs)
  note f = fetchGroup_newest [of api q g]
  show ?case
  proof (cases "fetchGroup api (q\<lparr>lq_Limit := 0\<rparr>) g")
    case (Inl e)
    then have "fetchGroup api q g = Inl e" using f by simp
    then show ?thesis using Cons Inl by (auto split: if_splits)
  next
    case (Inr r)
    then obtain es where es: "fetchGroup api (q\<lparr>lq_Limit := 0\<rparr>) g = Inr (es, 0)" using f by (cases r) auto
    then have o: "oldest_first es" using Cons.prems(1) by (simp add: group_in_order_def)
    then obtain k m where k: "fetchGroup api q g = Inr (k, m)" "kept_newest (nat (lq_Limit q)) es k m" using f es by auto
    from Cons.prems(2) es obtain rest where rest: "read_groups (map (fetchGroup api (q\<lparr>lq_Limit := 0\<rparr>)) gs) = Inr (rest, z)"
      "all = es @ rest" by (auto simp: missing_group_def split: sum.splits)
    from Cons.IH [OF _ rest(1)] Cons.prems(1) obtain k' m' where
      "z = 0" "read_groups (map (fetchGroup api q) gs) = Inr (k', m')" "kept_newest (nat (lq_Limit q)) rest k' m'" by auto
    then show ?thesis using k rest(2) kept_newest_append by (auto simp: missing_group_def)
  qed
qed

lemma missing_same: "missing_group (fetchGroup api (q\<lparr>lq_Limit := 0\<rparr>) g) = missing_group (fetchGroup api q g)"
  using fetchGroup_newest [of api q g] by (auto simp: missing_group_def split: sum.splits)

text \<open>Among sorted values, the last ones are at least any that enough are at least.\<close>

lemma sorted_last_ones:
  fixes x :: "'a::linorder"
  assumes "sorted xs" "L \<le> length (filter (\<lambda>z. x \<le> z) xs)" "y \<in> set (drop (length xs - L) xs)"
  shows "x \<le> y"
  using assms
proof (induction xs)
  case (Cons a xs)
  show ?case
  proof (cases "x \<le> a")
    case True
    have "y \<in> set (a # xs)" using Cons.prems(3) by (rule in_set_dropD)
    then show ?thesis using True Cons.prems(1) by auto
  next
    case False
    then have L: "L \<le> length (filter (\<lambda>z. x \<le> z) xs)" using Cons.prems(2) by simp
    also have "\<dots> \<le> length xs" by simp
    finally have "y \<in> set (drop (length xs - L) xs)" using Cons.prems(3) by (simp add: Suc_diff_le)
    then show ?thesis using Cons.IH L Cons.prems(1) by simp
  qed
qed simp


lemma newest_events_kept:
  assumes k: "kept_newest (nat limit) all kept m" and L: "0 < limit"
    and ev: "newest_events limit (sortEvents kept) m = (ev, omitted)"
  shows "length ev = min (length all) (nat limit) \<and> omitted = length all - length ev \<and> mset ev \<subseteq># mset all \<and>
    sorted (map event_key ev) \<and> (\<forall>x \<in># mset all - mset ev. \<forall>y \<in> set ev. le_Timestamp x \<le> le_Timestamp y)"
proof -
  define K where "K = sortEvents kept"
  define d where "d = length K - nat limit"
  have K: "mset K = mset kept" "length K = length kept" "sorted (map event_key K)" by (simp_all add: K_def sortEvents_def)
  have ts: "sorted (map le_Timestamp K)"
  proof -
    have "sorted_wrt (\<lambda>a b. event_key a \<le> event_key b) K" using K(3) by (simp add: sorted_map)
    then have "sorted_wrt (\<lambda>a b. le_Timestamp a \<le> le_Timestamp b) K"
      by (rule sorted_wrt_mono_rel [rotated]) (auto simp: event_key_def less_eq_prod_def)
    then show ?thesis by (simp add: sorted_map)
  qed
  have k1: "mset kept \<subseteq># mset all" "m + length kept = length all"
    "\<And>x. x \<in># mset all - mset kept \<Longrightarrow> nat limit \<le> length (filter (\<lambda>e. le_Timestamp x \<le> le_Timestamp e) kept)"
    using k by (simp_all add: kept_newest_def)
  have e: "ev = drop d K \<and> omitted = m + d"
  proof (cases "limit < int (length K)")
    case True
    then have "newest_events limit K m = (drop d K, m + d)" using L by (simp add: newest_events_def d_def)
    then show ?thesis using ev K_def by simp
  next
    case False
    then have "newest_events limit K m = (K, m)" "d = 0" using L by (simp_all add: newest_events_def d_def)
    then show ?thesis using ev K_def by simp
  qed
  have sub: "mset kept = mset ev + mset (take d K)" using e K(1) by (metis append_take_drop_id mset_append union_commute)
  have all: "mset all = mset ev + (mset (take d K) + (mset all - mset kept))"
    using k1(1) sub by (metis subset_mset.add_diff_inverse union_assoc)
  then have rest: "mset all - mset ev = mset (take d K) + (mset all - mset kept)" by (metis add_diff_cancel_left')
  have "\<forall>y \<in> set ev. le_Timestamp x \<le> le_Timestamp y" if x: "x \<in># mset all - mset ev" for x
  proof (cases "x \<in> set (take d K)")
    case True
    have "sorted_wrt (\<lambda>a b. le_Timestamp a \<le> le_Timestamp b) (take d K @ drop d K)" using ts by (simp add: sorted_map)
    then show ?thesis using True e by (auto simp del: append_take_drop_id simp: sorted_wrt_append)
  next
    case False
    then have "x \<in># mset all - mset kept" using x rest by auto
    note enough = k1(3) [OF this]
    have "mset (filter (\<lambda>e. le_Timestamp x \<le> le_Timestamp e) kept) = mset (filter (\<lambda>e. le_Timestamp x \<le> le_Timestamp e) K)"
      using K(1) by simp
    from mset_eq_length [OF this] enough have c: "nat limit \<le> length (filter (\<lambda>z. le_Timestamp x \<le> z) (map le_Timestamp K))"
      by (simp add: filter_map comp_def)
    have "le_Timestamp x \<le> le_Timestamp y" if "y \<in> set ev" for y
      using sorted_last_ones [OF ts c] that e by (auto simp: drop_map d_def)
    then show ?thesis by blast
  qed
  moreover have "length ev = min (length all) (nat limit)"
  proof (cases "mset all = mset kept")
    case True
    then have "length all = length kept" by (metis size_mset)
    then show ?thesis using e K(2) L by (simp add: d_def)
  next
    case False
    have "mset all - mset kept \<noteq> {#}"
    proof
      assume "mset all - mset kept = {#}"
      then have "mset all \<subseteq># mset kept" by (simp add: Diff_eq_empty_iff_mset)
      then have "mset kept = mset all" by (rule subset_mset.antisym [OF k1(1)])
      then show False using False by simp
    qed
    then obtain x where "x \<in># mset all - mset kept" by (rule multiset_nonemptyE)
    from k1(3) [OF this] have "nat limit \<le> length kept" using le_trans length_filter_le by blast
    then show ?thesis using e K(2) k1(2) by (simp add: d_def)
  qed
  moreover have "omitted = length all - length ev" using e K(2) k1(2) by (auto simp: d_def)
  moreover have "sorted (map event_key ev)"
    using sorted_wrt_drop [OF K(3), of d] e by (simp add: drop_map)
  moreover have "mset ev \<subseteq># mset all" using all by (metis mset_subset_eq_add_left)
  ultimately show ?thesis by blast
qed


text \<open>
  C25: reading the logs with a limit, against reading them with none: where each group answers its oldest events
  first, as the service does, the events are as many of all matching events as the limit lets, oldest first, the
  number left out is reported, and nothing left out is newer than anything shown, however the pages fall.
\<close>

theorem logs_newest:
  assumes "0 < lq_Limit q" and "fetchLogs si api (q\<lparr>lq_Limit := 0\<rparr>) region = Inr (all, z)"
    and "logGroupsFor (lq_Source q) = Inr groups" "\<forall>g \<in> set groups. group_in_order api q g"
  shows "\<exists>ev. fetchLogs si api q region = Inr (ev, length all - length ev) \<and> length ev = min (length all) (nat (lq_Limit q)) \<and>
    mset ev \<subseteq># mset all \<and> sorted (map event_key ev) \<and>
    (\<forall>x \<in># mset all - mset ev. \<forall>y \<in> set ev. le_Timestamp x \<le> le_Timestamp y)"
proof -
  let ?q = "q\<lparr>lq_Limit := 0\<rparr>"
  from assms(2,3) obtain found o' where r: "read_groups (map (fetchGroup api ?q) groups) = Inr (found, o')"
    "all = sortEvents found" "\<not> list_all missing_group (map (fetchGroup api ?q) groups)"
    by (auto simp: fetchLogs_def Let_def newest_events_def split: sum.splits if_splits)
  from read_groups_newest [OF assms(4) r(1)] obtain k m where
    k: "read_groups (map (fetchGroup api q) groups) = Inr (k, m)" "kept_newest (nat (lq_Limit q)) found k m" by blast
  have same: "mset all = mset found" "length all = length found" using r(2) by (simp_all add: sortEvents_def)
  then have k': "kept_newest (nat (lq_Limit q)) all k m" using k(2) by (simp add: kept_newest_def)
  obtain ev om where e: "newest_events (lq_Limit q) (sortEvents k) m = (ev, om)" by fastforce
  have "\<not> list_all missing_group (map (fetchGroup api q) groups)"
    using r(3) by (simp add: list.pred_map comp_def missing_same)
  then have "fetchLogs si api q region = Inr (ev, om)" using assms(3) k(1) e by (simp add: fetchLogs_def Let_def)
  then show ?thesis using newest_events_kept [OF k' assms(1) e] by auto
qed

definition log_demo_signer :: signer where
  "log_demo_signer = \<lparr>si_stored = (\<lambda>_. False), si_ambient = True\<rparr>"

definition demo_raw :: "int \<Rightarrow> string \<Rightarrow> raw_event" where
  "demo_raw t i = \<lparr>re_Timestamp = t, re_LogStreamName = ''e/i-1'', re_Message = ''m'', re_EventId = i\<rparr>"

text \<open>A service with one page in the one group and two in the boot group; the other engine's group does not exist.\<close>

definition demo_api :: logs_api where
  "demo_api n r =
     (if lr_LogGroupName r = EngineLogGroup ''vllm'' then Inl \<lparr>af_NotFound = True, af_Code = None, af_Text = ''''\<rparr>
      else if lr_LogGroupName r = BootLogGroup then
        (if lr_NextToken r = None then Inr \<lparr>lp_Events = [demo_raw 1 ''a''], lp_NextToken = Some ''t''\<rparr>
         else Inr \<lparr>lp_Events = [demo_raw 3 ''c''], lp_NextToken = None\<rparr>)
      else Inr \<lparr>lp_Events = [demo_raw 2 ''b''], lp_NextToken = None\<rparr>)"

definition demo_query :: log_query where
  "demo_query = \<lparr>lq_Environment = ''e'', lq_Source = ''all'', lq_Start = None, lq_End = None, lq_Limit = 1, lq_Instance = ''''\<rparr>"

lemma demo_groups:
  "fetchGroup demo_api (demo_query\<lparr>lq_Limit := 0\<rparr>) (EngineLogGroup ''llamacpp'', ''engine'') =
     Inr ([logEventFrom ''engine'' (demo_raw 2 ''b'')], 0)"
  "fetchGroup demo_api (demo_query\<lparr>lq_Limit := 0\<rparr>) (EngineLogGroup ''vllm'', ''engine'') =
     Inl (ApiFault \<lparr>af_NotFound = True, af_Code = None, af_Text = ''''\<rparr>)"
  "fetchGroup demo_api (demo_query\<lparr>lq_Limit := 0\<rparr>) (BootLogGroup, ''boot'') =
     Inr ([logEventFrom ''boot'' (demo_raw 1 ''a''), logEventFrom ''boot'' (demo_raw 3 ''c'')], 0)"
proof -
  have g: "EngineLogGroup ''llamacpp'' \<noteq> BootLogGroup" "EngineLogGroup ''vllm'' \<noteq> BootLogGroup"
    "EngineLogGroup ''llamacpp'' \<noteq> EngineLogGroup ''vllm''" "BootLogGroup \<noteq> EngineLogGroup ''vllm''"
    by (simp_all add: EngineLogGroup_def BootLogGroup_def)
  have p: "maxLogPages - 1 = 199" by (simp add: maxLogPages_def)
  show "fetchGroup demo_api (demo_query\<lparr>lq_Limit := 0\<rparr>) (EngineLogGroup ''llamacpp'', ''engine'') =
     Inr ([logEventFrom ''engine'' (demo_raw 2 ''b'')], 0)"
    "fetchGroup demo_api (demo_query\<lparr>lq_Limit := 0\<rparr>) (EngineLogGroup ''vllm'', ''engine'') =
     Inl (ApiFault \<lparr>af_NotFound = True, af_Code = None, af_Text = ''''\<rparr>)"
    "fetchGroup demo_api (demo_query\<lparr>lq_Limit := 0\<rparr>) (BootLogGroup, ''boot'') =
     Inr ([logEventFrom ''boot'' (demo_raw 1 ''a''), logEventFrom ''boot'' (demo_raw 3 ''c'')], 0)"
    unfolding fetchGroup_def p
    by (simp_all add: group_pages.simps [of _ _ _ 199] group_pages.simps [of _ _ _ 198] demo_api_def log_request_for_def
        page_events_def demo_query_def trim_block_def g)
qed

theorem logs_newest_witness:
  "\<exists>ev. fetchLogs log_demo_signer demo_api demo_query ''r'' = Inr (ev, 2) \<and> length ev = 1"
proof -
  have groups: "logGroupsFor (lq_Source demo_query) =
      Inr [(EngineLogGroup ''llamacpp'', ''engine''), (EngineLogGroup ''vllm'', ''engine''), (BootLogGroup, ''boot'')]"
    by (simp add: logGroupsFor_def demo_query_def Let_def Runners_def)
  have order: "\<forall>g \<in> set [(EngineLogGroup ''llamacpp'', ''engine''), (EngineLogGroup ''vllm'', ''engine''), (BootLogGroup, ''boot'')].
      group_in_order demo_api demo_query g"
    by (simp add: group_in_order_def demo_groups oldest_first_def logEventFrom_def demo_raw_def)
  obtain found where all: "fetchLogs log_demo_signer demo_api (demo_query\<lparr>lq_Limit := 0\<rparr>) ''r'' = Inr (sortEvents found, 0)"
    "length found = 3"
    using groups by (simp add: fetchLogs_def demo_groups missing_group_def newest_events_def)
  have "0 < lq_Limit demo_query" "lq_Limit demo_query = 1" by (simp_all add: demo_query_def)
  with logs_newest [OF _ all(1) groups order] all(2) show ?thesis by (auto simp: sortEvents_def)
qed


section \<open>Each event once\<close>

text \<open>A follow: the readings in turn, and what each shows.\<close>

fun follow_polls :: "log_event list list \<Rightarrow> follow_cursor \<Rightarrow> log_event list list" where
  "follow_polls [] c = []"
| "follow_polls (es # ess) c = (case Advance es c of (fresh, c') \<Rightarrow> fresh # follow_polls ess c')"

text \<open>Each reading holds no event before the bound that the cursor asked for.\<close>

fun asked_polls :: "log_event list list \<Rightarrow> follow_cursor \<Rightarrow> bool" where
  "asked_polls [] c = True"
| "asked_polls (es # ess) c \<longleftrightarrow>
     list_all (\<lambda>e. case cursor_Start c of None \<Rightarrow> True | Some t \<Rightarrow> t \<le> le_Timestamp e) es \<and> asked_polls ess (snd (Advance es c))"

text \<open>
  The cursor against what has been shown: it holds what was shown within twice the overlap, and nothing else;
  \<open>stamp\<close> is the time of the event with an id.
\<close>

definition cursor_ok :: "(string \<Rightarrow> int) \<Rightarrow> string set \<Rightarrow> follow_cursor \<Rightarrow> bool" where
  "cursor_ok stamp shown c \<longleftrightarrow>
     (\<forall>i t. map_of (fc_printed c) i = Some t \<longrightarrow> i \<in> shown \<and> t = stamp i) \<and>
     (\<forall>i \<in> shown. \<exists>n. fc_newest c = Some n \<and> stamp i \<le> n \<and>
        (n - 2 * fc_overlap c \<le> stamp i \<longrightarrow> map_of (fc_printed c) i \<noteq> None)) \<and>
     (fc_newest c \<noteq> None \<longrightarrow> shown \<noteq> {}) \<and> keys_distinct (fc_printed c)"

lemma seen_event_frame [simp]: "fc_overlap (seen_event e c) = fc_overlap c"
  by (simp add: seen_event_def)

lemma seen_event_ok:
  assumes "cursor_ok stamp shown c" "le_Timestamp e = stamp (le_ID e)"
  shows "cursor_ok stamp (insert (le_ID e) shown) (seen_event e c)"
proof -
  have "\<exists>n. fc_newest (seen_event e c) = Some n \<and> stamp i \<le> n \<and>
      (n - 2 * fc_overlap c \<le> stamp i \<longrightarrow> map_of (fc_printed (seen_event e c)) i \<noteq> None)"
    if i: "i \<in> insert (le_ID e) shown" for i
  proof (cases "i = le_ID e")
    case True
    then show ?thesis using assms by (cases "fc_newest c") (auto simp: seen_event_def)
  next
    case False
    then obtain n where "fc_newest c = Some n" "stamp i \<le> n"
      "n - 2 * fc_overlap c \<le> stamp i \<longrightarrow> map_of (fc_printed c) i \<noteq> None"
      using i assms(1) by (auto simp: cursor_ok_def)
    then show ?thesis using False by (auto simp: seen_event_def)
  qed
  then show ?thesis using assms unfolding cursor_ok_def by (auto simp: seen_event_def split: if_splits)
qed

text \<open>What a reading shows: each of its events that was not shown, once.\<close>

lemma take_fresh_ok:
  assumes "cursor_ok stamp shown c" "0 \<le> fc_overlap c" "take_fresh es c = (fresh, c')"
    and "\<forall>e \<in> set es. le_Timestamp e = stamp (le_ID e)"
    and "\<forall>e \<in> set es. le_ID e \<in> shown \<longrightarrow> map_of (fc_printed c) (le_ID e) \<noteq> None"
  shows "cursor_ok stamp (shown \<union> le_ID ` set es) c' \<and> fc_overlap c' = fc_overlap c \<and> distinct (map le_ID fresh) \<and>
    le_ID ` set fresh = le_ID ` set es - shown"
  using assms
proof (induction es arbitrary: shown c fresh)
  case Nil
  then show ?case by simp
next
  case (Cons e es)
  show ?case
  proof (cases "map_of (fc_printed c) (le_ID e) = None")
    case False
    then have e: "le_ID e \<in> shown" using Cons.prems(1) by (auto simp: cursor_ok_def)
    have "take_fresh es c = (fresh, c')" using Cons.prems(3) False by simp
    from Cons.IH [OF Cons.prems(1,2) this] Cons.prems(4,5)
    show ?thesis using e by (auto simp: insert_absorb)
  next
    case True
    then have e: "le_ID e \<notin> shown" using Cons.prems(5) by auto
    obtain fs where fs: "take_fresh es (seen_event e c) = (fs, c')" "fresh = e # fs"
      using Cons.prems(3) True by (auto split: prod.splits)
    have ok: "cursor_ok stamp (insert (le_ID e) shown) (seen_event e c)"
      using seen_event_ok [OF Cons.prems(1)] Cons.prems(4) by simp
    have p: "\<forall>x \<in> set es. le_ID x \<in> insert (le_ID e) shown \<longrightarrow> map_of (fc_printed (seen_event e c)) (le_ID x) \<noteq> None"
      using Cons.prems(5) by (auto simp: seen_event_def)
    from Cons.IH [OF ok _ fs(1) _ p] Cons.prems(2,4)
    show ?thesis using e fs(2) by auto
  qed
qed

lemma forget_old_ok:
  assumes "cursor_ok stamp shown c" "0 \<le> fc_overlap c"
  shows "cursor_ok stamp shown (forget_old c)"
proof (cases "fc_newest c")
  case None
  then show ?thesis using assms(1) by (simp add: forget_old_def)
next
  case (Some n)
  have m: "map_of (filter (\<lambda>(i, t). \<not> t < n - 2 * fc_overlap c) (fc_printed c)) i =
      (case map_of (fc_printed c) i of None \<Rightarrow> None | Some t \<Rightarrow> if t < n - 2 * fc_overlap c then None else Some t)" for i
    using assms(1) by (simp add: cursor_ok_def map_of_filter_distinct split: option.split)
  show ?thesis
    using assms(1) Some unfolding cursor_ok_def by (auto simp: forget_old_def m split: option.splits if_splits)
qed


lemma forget_old_overlap [simp]: "fc_overlap (forget_old c) = fc_overlap c"
  by (simp add: forget_old_def split: option.split)

lemma follow_ok:
  assumes "cursor_ok stamp shown c" "0 \<le> fc_overlap c" "asked_polls ess c"
    and "\<forall>es \<in> set ess. \<forall>e \<in> set es. le_Timestamp e = stamp (le_ID e)"
  shows "distinct (map le_ID (concat (follow_polls ess c))) \<and>
    le_ID ` set (concat (follow_polls ess c)) = le_ID ` set (concat ess) - shown"
  using assms
proof (induction ess arbitrary: shown c)
  case Nil
  then show ?case by simp
next
  case (Cons es ess)
  obtain fresh c1 where t: "take_fresh es c = (fresh, c1)" by fastforce
  then have a: "Advance es c = (fresh, forget_old c1)" by (simp add: Advance_def)
  have "map_of (fc_printed c) (le_ID e) \<noteq> None" if e: "e \<in> set es" "le_ID e \<in> shown" for e
  proof -
    obtain n where n: "fc_newest c = Some n" "n - 2 * fc_overlap c \<le> stamp (le_ID e) \<longrightarrow> map_of (fc_printed c) (le_ID e) \<noteq> None"
      using Cons.prems(1) e(2) by (auto simp: cursor_ok_def)
    then have "n - fc_overlap c \<le> le_Timestamp e"
      using Cons.prems(3) e(1) by (auto simp: list_all_iff cursor_Start_def)
    moreover have "le_Timestamp e = stamp (le_ID e)" using Cons.prems(4) e(1) by simp
    ultimately have "n - 2 * fc_overlap c \<le> stamp (le_ID e)" using Cons.prems(2) by linarith
    then show ?thesis using n(2) by simp
  qed
  moreover have "\<forall>e \<in> set es. le_Timestamp e = stamp (le_ID e)" using Cons.prems(4) by simp
  ultimately have f: "cursor_ok stamp (shown \<union> le_ID ` set es) c1" "fc_overlap c1 = fc_overlap c"
    "distinct (map le_ID fresh)" "le_ID ` set fresh = le_ID ` set es - shown"
    using take_fresh_ok [OF Cons.prems(1,2) t] by blast+
  have ok: "cursor_ok stamp (shown \<union> le_ID ` set es) (forget_old c1)"
    using forget_old_ok [OF f(1)] f(2) Cons.prems(2) by simp
  have rest: "distinct (map le_ID (concat (follow_polls ess (forget_old c1)))) \<and>
      le_ID ` set (concat (follow_polls ess (forget_old c1))) = le_ID ` set (concat ess) - (shown \<union> le_ID ` set es)"
    by (rule Cons.IH [OF ok]) (use Cons.prems a f(2) in simp_all)
  have "distinct (map le_ID (concat (follow_polls (es # ess) c)))"
    using f(3,4) rest by (auto simp: a)
  moreover have "le_ID ` set (concat (follow_polls (es # ess) c)) = le_ID ` set (concat (es # ess)) - shown"
  proof -
    have "le_ID ` set (concat (follow_polls (es # ess) c)) =
        le_ID ` set fresh \<union> le_ID ` set (concat (follow_polls ess (forget_old c1)))" by (simp add: a image_Un)
    also have "\<dots> = (le_ID ` set es - shown) \<union> (le_ID ` set (concat ess) - (shown \<union> le_ID ` set es))"
      using f(4) rest by simp
    finally show ?thesis by (auto simp: image_Un)
  qed
  ultimately show ?case by blast
qed

text \<open>
  C26: a follow shows every event of its readings exactly once, though each reading asks again for a while that
  was already read: no id is shown twice and none is missed, as long as no reading holds events from before the
  bound that it asked for and an id stands for one event.
\<close>

theorem follow_shows_once:
  assumes "0 \<le> overlap" "asked_polls ess (NewFollowCursor overlap)"
    and "\<forall>es \<in> set ess. \<forall>e \<in> set es. le_Timestamp e = stamp (le_ID e)"
  shows "distinct (map le_ID (concat (follow_polls ess (NewFollowCursor overlap)))) \<and>
    set (map le_ID (concat (follow_polls ess (NewFollowCursor overlap)))) = set (map le_ID (concat ess))"
proof -
  have "cursor_ok stamp {} (NewFollowCursor overlap)" by (simp add: cursor_ok_def NewFollowCursor_def)
  from follow_ok [OF this _ assms(2,3)] assms(1) show ?thesis by (simp add: NewFollowCursor_def)
qed

definition demo_polls :: "log_event list list" where
  "demo_polls =
     (let e = (\<lambda>t i. \<lparr>le_Timestamp = t, le_Source = ''engine'', le_Instance = ''i'', le_Message = ''m'', le_ID = i\<rparr>)
      in [[e 100 ''a'', e 105 ''b''], [e 98 ''late'', e 100 ''a'', e 105 ''b'', e 140 ''c''], [e 135 ''d'', e 140 ''c'']])"

theorem follow_shows_once_witness:
  "map le_ID (concat (follow_polls demo_polls (NewFollowCursor 10))) = [''a'', ''b'', ''late'', ''c'', ''d''] \<and>
   distinct (map le_ID (concat (follow_polls demo_polls (NewFollowCursor 10))))"
proof -
  let ?stamp = "(\<lambda>_. 0)(''a'' := 100, ''b'' := 105, ''late'' := 98, ''c'' := 140, ''d'' := 135 :: int)"
  have "asked_polls demo_polls (NewFollowCursor 10)" by code_simp
  moreover have "\<forall>es \<in> set demo_polls. \<forall>e \<in> set es. le_Timestamp e = ?stamp (le_ID e)" by (simp add: demo_polls_def Let_def)
  moreover have "map le_ID (concat (follow_polls demo_polls (NewFollowCursor 10))) = [''a'', ''b'', ''late'', ''c'', ''d'']"
    by code_simp
  ultimately show ?thesis using follow_shows_once [of 10 demo_polls ?stamp] by simp
qed

end
