(* ===== verification/HfModel.thy ===== *)
theory HfModel
  imports ContextSize GoRegexp Paths TextLines "HOL-Library.List_Lexorder" "HOL-Library.Char_ord"
begin

text \<open>
  \<^verbatim>\<open>internal/hf\<close>: model references (\<^verbatim>\<open>ref.go\<close>), the lookups in the local caches (\<^verbatim>\<open>cache.go\<close>) and what a
  Spinloop states of a model repository (\<^verbatim>\<open>infer.go\<close>). Parsing an address and the file system are arguments; the
  readings of the Hub come as their result.
\<close>

section \<open>References\<close>

record hf_ref =
  hf_Owner :: string
  hf_Name :: string
  hf_Revision :: string
  hf_Quant :: string
  hf_File :: string

datatype ref_fault =
    NotAReference string
  | TwoRevisions string string string
  | FileAndQuant string
  | NotAnAddress string
  | ForeignHost string string
  | BadAddressPath string

record hf_url =
  hu_Scheme :: string
  hu_Hostname :: string
  hu_Path :: string

definition cleanPart :: "string \<Rightarrow> bool" where
  "cleanPart s \<longleftrightarrow> s \<noteq> '''' \<and> \<not> contains_any s [CHR ''@'', CHR '':'', CHR ''/'', CHR '' '', CHR 0x09]"

definition cutSuffix :: "string \<Rightarrow> char \<Rightarrow> string option" where
  "cutSuffix s sep =
     (case last_index_byte s sep of
        None \<Rightarrow> None
      | Some i \<Rightarrow>
          (let token = drop (Suc i) s
           in if token = '''' \<or> contains_any token [sep, CHR ''/'', CHR ''@'', CHR '' '', CHR 0x09] then None else Some token))"

text \<open>A text with its suffix cut off, and the suffix, empty where there is none.\<close>

definition cut_token :: "char \<Rightarrow> string \<Rightarrow> string \<times> string" where
  "cut_token sep s = (case cutSuffix s sep of None \<Rightarrow> (s, '''') | Some t \<Rightarrow> (take (length s - length t - 1) s, t))"

definition trim_slashes :: "string \<Rightarrow> string" where
  "trim_slashes s = trim_right_by (\<lambda>c. c = CHR ''/'') (trim_left_by (\<lambda>c. c = CHR ''/'') s)"

definition parseURLForm :: "(string \<Rightarrow> hf_url option) \<Rightarrow> string \<Rightarrow> string \<Rightarrow> ref_fault + (string \<times> string) \<times> string \<times> string" where
  "parseURLForm parse rest original =
     (case parse rest of
        None \<Rightarrow> Inl (NotAnAddress original)
      | Some u \<Rightarrow>
          if hu_Scheme u \<notin> {''http'', ''https''} then Inl (NotAnAddress original)
          else if hu_Hostname u \<notin> {''huggingface.co'', ''hf.co''} then Inl (ForeignHost original (hu_Hostname u))
          else (case split_on CHR ''/'' (trim_slashes (hu_Path u)) of
              [a, b] \<Rightarrow> if cleanPart a \<and> cleanPart b then Inr ((a, b), '''', '''') else Inl (BadAddressPath original)
            | [a, b, t, r] \<Rightarrow>
                if t = ''tree'' \<and> cleanPart a \<and> cleanPart b \<and> cleanPart r then Inr ((a, b), r, '''') else Inl (BadAddressPath original)
            | [a, b, t, r, f] \<Rightarrow>
                if t = ''blob'' \<and> cleanPart a \<and> cleanPart b \<and> cleanPart r \<and> f \<noteq> '''' then Inr ((a, b), r, f)
                else Inl (BadAddressPath original)
            | _ \<Rightarrow> Inl (BadAddressPath original)))"

definition is_hf_host :: "string \<Rightarrow> bool" where
  "is_hf_host s \<longleftrightarrow> s \<in> {''hf.co'', ''huggingface.co''}"

definition ParseRef :: "(string \<Rightarrow> hf_url option) \<Rightarrow> string \<Rightarrow> ref_fault + hf_ref" where
  "ParseRef parse s =
     (let original = trim_space s
      in if original = '''' then Inl (NotAReference original)
         else (case cut_token CHR '':'' original of
             (rest, quant) \<Rightarrow>
               (case cut_token CHR ''@'' rest of
                  (rest, suffixRev) \<Rightarrow>
                    if contains rest ''://'' then
                      (case parseURLForm parse rest original of
                         Inl e \<Rightarrow> Inl e
                       | Inr ((owner, name), pathRev, file) \<Rightarrow>
                           if suffixRev \<noteq> '''' \<and> pathRev \<noteq> '''' \<and> suffixRev \<noteq> pathRev
                           then Inl (TwoRevisions original suffixRev pathRev)
                           else if file \<noteq> '''' \<and> quant \<noteq> '''' then Inl (FileAndQuant original)
                           else Inr \<lparr>hf_Owner = owner, hf_Name = name,
                               hf_Revision = (if pathRev \<noteq> '''' then pathRev else if suffixRev \<noteq> '''' then suffixRev else ''main''),
                               hf_Quant = quant, hf_File = file\<rparr>)
                    else
                      (let parts = split_on CHR ''/'' rest;
                           parts = (if length parts = 3 \<and> is_hf_host (hd parts) then tl parts else parts)
                       in case parts of
                            [a, b] \<Rightarrow>
                              if is_hf_host a \<or> \<not> cleanPart a \<or> \<not> cleanPart b then Inl (NotAReference original)
                              else Inr \<lparr>hf_Owner = a, hf_Name = b, hf_Revision = (if suffixRev \<noteq> '''' then suffixRev else ''main''),
                                  hf_Quant = quant, hf_File = ''''\<rparr>
                          | _ \<Rightarrow> Inl (NotAReference original)))))"

text \<open>A reference in the form org/model@revision:QUANT.\<close>

definition written_ref :: "hf_ref \<Rightarrow> string" where
  "written_ref r =
     hf_Owner r @ ''/'' @ hf_Name r @ ''@'' @ hf_Revision r @ (if hf_Quant r = '''' then '''' else '':'' @ hf_Quant r)"

section \<open>The local caches\<close>

record hf_files =
  hs_read :: "string \<Rightarrow> string option"
  hs_isDir :: "string \<Rightarrow> bool"
  hs_entries :: "string \<Rightarrow> (string \<times> bool) list option"
  hs_regular :: "string \<Rightarrow> bool"

record cache_roots =
  cr_HFHub :: string
  cr_LLama :: string

definition ResolveRoots :: "(string \<Rightarrow> string) \<Rightarrow> string option \<Rightarrow> string option \<Rightarrow> cache_roots" where
  "ResolveRoots getenv home cache =
     \<lparr>cr_HFHub =
        (if getenv ''HF_HUB_CACHE'' \<noteq> '''' then getenv ''HF_HUB_CACHE''
         else if getenv ''HF_HOME'' \<noteq> '''' then path_join [getenv ''HF_HOME'', ''hub'']
         else (case home of None \<Rightarrow> '''' | Some h \<Rightarrow> path_join [h, ''.cache'', ''huggingface'', ''hub''])),
      cr_LLama =
        (if getenv ''LLAMA_CACHE'' \<noteq> '''' then getenv ''LLAMA_CACHE''
         else (case cache of None \<Rightarrow> '''' | Some c \<Rightarrow> path_join [c, ''llama.cpp'']))\<rparr>"

type_synonym hf_repo = "string \<times> string"

definition repo_String :: "hf_repo \<Rightarrow> string" where
  "repo_String repo = fst repo @ ''/'' @ snd repo"

definition dashed :: "string \<Rightarrow> string" where
  "dashed s = concat (map (\<lambda>c. if c = CHR ''/'' then ''--'' else [c]) s)"

definition CacheDir :: "hf_repo \<Rightarrow> string" where
  "CacheDir repo = ''models--'' @ dashed (fst repo) @ ''--'' @ dashed (snd repo)"

definition is_hex :: "char \<Rightarrow> bool" where
  "is_hex c \<longleftrightarrow> is_digit c \<or> (97 :: nat) \<le> of_char c \<and> (of_char c :: nat) \<le> 102 \<or> (65 :: nat) \<le> of_char c \<and> (of_char c :: nat) \<le> 70"

definition isSHA :: "string \<Rightarrow> bool" where
  "isSHA s \<longleftrightarrow> 7 \<le> length s \<and> list_all is_hex s"

text \<open>The directory of a snapshot that the cache has.\<close>

definition FindSnapshot :: "hf_files \<Rightarrow> string \<Rightarrow> hf_repo \<Rightarrow> string \<Rightarrow> string option" where
  "FindSnapshot fs hub repo revision =
     (if hub = '''' \<or> fst repo = '''' \<or> snd repo = '''' \<or> revision = '''' then None
      else
        (let dir = path_join [hub, CacheDir repo];
             sha = (case hs_read fs (path_join [dir, ''refs'', revision]) of None \<Rightarrow> '''' | Some d \<Rightarrow> trim_space d);
             sha = (if sha = '''' \<and> isSHA revision \<and> hs_isDir fs (path_join [dir, ''snapshots'', revision]) then revision else sha)
         in if sha = '''' then None
            else (let snap = path_join [dir, ''snapshots'', sha]
                  in case hs_entries fs snap of None \<Rightarrow> None | Some es \<Rightarrow> if es = [] then None else Some snap)))"

definition snapshot_File :: "hf_files \<Rightarrow> string \<Rightarrow> string \<Rightarrow> string option" where
  "snapshot_File fs dir rel = (let p = path_join [dir, rel] in if hs_regular fs p then Some p else None)"

definition names_quant :: "hf_repo \<Rightarrow> string \<Rightarrow> string \<times> bool \<Rightarrow> bool" where
  "names_quant repo quant e \<longleftrightarrow>
     (let lower = to_lower (fst e)
      in \<not> snd e \<and> has_suffix lower ''.gguf'' \<and> contains lower (to_lower (fst repo)) \<and> contains lower (to_lower (snd repo)) \<and>
         contains lower (to_lower quant))"

definition FindLLamaGGUF :: "hf_files \<Rightarrow> string \<Rightarrow> hf_repo \<Rightarrow> string \<Rightarrow> string option" where
  "FindLLamaGGUF fs cache repo quant =
     (if cache = '''' \<or> fst repo = '''' \<or> snd repo = '''' \<or> quant = '''' then None
      else (case hs_entries fs cache of
          None \<Rightarrow> None
        | Some es \<Rightarrow> map_option (\<lambda>e. path_join [cache, fst e]) (find (names_quant repo quant) es)))"


section \<open>A written reference\<close>

lemma last_index_byte_append: "c \<notin> set s \<Longrightarrow> last_index_byte (p @ c # s) c = Some (length p)"
proof -
  assume "c \<notin> set s"
  then have "index_byte (rev s @ c # rev p) c = Some (length (rev s))" by (intro index_byte_append) simp
  then show ?thesis by (simp add: last_index_byte_def)
qed

lemma cut_token_found:
  "c \<notin> set t \<Longrightarrow> t \<noteq> '''' \<Longrightarrow> \<not> contains_any t [c, CHR ''/'', CHR ''@'', CHR '' '', CHR 0x09] \<Longrightarrow> cut_token c (p @ c # t) = (p, t)"
  by (simp add: cut_token_def cutSuffix_def last_index_byte_append)

lemma cut_token_absent: "c \<notin> set s \<Longrightarrow> cut_token c s = (s, '''')"
  using index_byte_None [of "rev s" c] by (simp add: cut_token_def cutSuffix_def last_index_byte_def del: index_byte_None)

lemma cleanPart_chars: "cleanPart s \<Longrightarrow>
  s \<noteq> '''' \<and> CHR ''@'' \<notin> set s \<and> CHR '':'' \<notin> set s \<and> CHR ''/'' \<notin> set s \<and> CHR '' '' \<notin> set s \<and> CHR 0x09 \<notin> set s"
  by (auto simp: cleanPart_def contains_any_def list_ex_iff)

text \<open>A part without any blank.\<close>

definition plain_part :: "string \<Rightarrow> bool" where
  "plain_part s \<longleftrightarrow> cleanPart s \<and> list_all (\<lambda>c. \<not> is_space c) s"

lemma no_colon_no_scheme: "CHR '':'' \<notin> set s \<Longrightarrow> \<not> contains s ''://''"
proof -
  have "CHR '':'' \<notin> set s \<Longrightarrow> index_of s ''://'' = None" for s
    by (induction s) (auto simp: prefix_def)
  then show "CHR '':'' \<notin> set s \<Longrightarrow> \<not> contains s ''://''" by (simp add: contains_def)
qed

text \<open>
  A reference written as org/model, revision and quantisation is read back as itself, whatever the parts, as
  long as none has a blank or a sign of the syntax and the organisation is no host of the Hub.
\<close>

theorem ParseRef_written:
  assumes "plain_part (hf_Owner r)" "plain_part (hf_Name r)" "plain_part (hf_Revision r)"
    and "hf_Quant r = '''' \<or> plain_part (hf_Quant r)" "hf_File r = ''''" "\<not> is_hf_host (hf_Owner r)"
  shows "ParseRef parse (written_ref r) = Inr r"
proof -
  let ?w = "written_ref r" and ?base = "hf_Owner r @ ''/'' @ hf_Name r"
  have c: "cleanPart (hf_Owner r)" "cleanPart (hf_Name r)" "cleanPart (hf_Revision r)"
    using assms(1-3) by (simp_all add: plain_part_def)
  note o = cleanPart_chars [OF c(1)] and n = cleanPart_chars [OF c(2)] and v = cleanPart_chars [OF c(3)]
  have "a_word ?w"
    using assms(1-4) o by (auto simp: a_word_def written_ref_def plain_part_def is_space_def)
  then have t: "trim_space ?w = ?w" by (simp add: a_word_trimmed)
  have ne: "?w \<noteq> ''''" using o by (simp add: written_ref_def)
  have q: "cut_token CHR '':'' ?w = (?base @ CHR ''@'' # hf_Revision r, hf_Quant r)"
  proof (cases "hf_Quant r = ''''")
    case True
    then show ?thesis using o n v by (subst cut_token_absent) (auto simp: written_ref_def)
  next
    case False
    then have cq: "cleanPart (hf_Quant r)" using assms(4) by (simp add: plain_part_def)
    have "?w = (?base @ CHR ''@'' # hf_Revision r) @ CHR '':'' # hf_Quant r" using False by (simp add: written_ref_def)
    then show ?thesis
      using cleanPart_chars [OF cq] by (simp only:) (rule cut_token_found, auto simp: contains_any_def list_ex_iff)
  qed
  have a: "cut_token CHR ''@'' (?base @ CHR ''@'' # hf_Revision r) = (?base, hf_Revision r)"
    using v by (intro cut_token_found) (auto simp: contains_any_def list_ex_iff)
  have s: "\<not> contains ?base ''://''" using o n by (intro no_colon_no_scheme) simp
  have p: "split_on CHR ''/'' ?base = [hf_Owner r, hf_Name r]" using o n split_on_append [of "CHR ''/''" "hf_Owner r"] by simp
  have "r = \<lparr>hf_Owner = hf_Owner r, hf_Name = hf_Name r, hf_Revision = hf_Revision r, hf_Quant = hf_Quant r, hf_File = ''''\<rparr>"
    using assms(5) by simp
  then show ?thesis
    unfolding ParseRef_def Let_def t using ne q a s p assms(6) c v by simp
qed

theorem ParseRef_written_witness:
  "ParseRef (\<lambda>_. None) ''unsloth/Qwen3.6-35B@main:Q4_K_M'' =
    Inr \<lparr>hf_Owner = ''unsloth'', hf_Name = ''Qwen3.6-35B'', hf_Revision = ''main'', hf_Quant = ''Q4_K_M'', hf_File = ''''\<rparr>"
proof -
  let ?r = "\<lparr>hf_Owner = ''unsloth'', hf_Name = ''Qwen3.6-35B'', hf_Revision = ''main'', hf_Quant = ''Q4_K_M'', hf_File = ''''\<rparr>"
  have "plain_part ''unsloth''" "plain_part ''Qwen3.6-35B''" "plain_part ''main''" "plain_part ''Q4_K_M''" "\<not> is_hf_host ''unsloth''"
    by code_simp+
  then have "ParseRef (\<lambda>_. None) (written_ref ?r) = Inr ?r" by (intro ParseRef_written) simp_all
  then show ?thesis by (simp add: written_ref_def)
qed

end
