(* ===== verification/HfInfer.thy ===== *)
theory HfInfer
  imports HfModel
begin

text \<open>
  \<^verbatim>\<open>internal/hf/infer.go\<close>: what a Spinloop states of a model repository: the provider its files point at, the
  quantisation chosen, the model and where it is read from, the alias and the context.
\<close>

section \<open>The provider\<close>

text \<open>\<^verbatim>\<open>filepath.Ext\<close>: from the last point of the last element.\<close>

definition path_ext :: "string \<Rightarrow> string" where
  "path_ext p =
     (let base = rev (takeWhile (\<lambda>c. c \<noteq> CHR ''/'') (rev p))
      in case last_index_byte base CHR ''.'' of None \<Rightarrow> '''' | Some i \<Rightarrow> drop i base)"

definition hasExtension :: "string list \<Rightarrow> string \<Rightarrow> bool" where
  "hasExtension files ext \<longleftrightarrow> list_ex (\<lambda>f. equal_fold (path_ext f) ext) files"

definition HasGGUF :: "string list \<Rightarrow> bool" where
  "HasGGUF files = hasExtension files ''.gguf''"

definition HasSafetensors :: "string list \<Rightarrow> bool" where
  "HasSafetensors files = hasExtension files ''.safetensors''"

definition hasTag :: "string list \<Rightarrow> string \<Rightarrow> bool" where
  "hasTag tags tag \<longleftrightarrow> list_ex (\<lambda>t. equal_fold t tag) tags"

definition describeFiles :: "string list \<Rightarrow> string" where
  "describeFiles files =
     (let exts = sort (remdups (map to_lower (filter (\<lambda>e. e \<noteq> '''') (map path_ext files))))
      in if files = [] then ''no files''
         else if exts = [] then ''files of no type spinloop recognises''
         else ''files of type '' @ join_with '', '' exts)"

datatype hf_fault =
    CannotInfer string
  | NoGGUF string
  | NoSuchFile string string
  | OtherQuant string string
  | NothingOffered
  | QuantNotOffered string string
  | WholeRepo string string
  | BadContext size_error

definition InferProvider :: "string list \<Rightarrow> string \<Rightarrow> string list \<Rightarrow> hf_fault + string \<times> string" where
  "InferProvider files library tags =
     (if HasGGUF files then Inr (''llamacpp'', ''the repo publishes GGUF files'')
      else if library = ''mlx'' \<or> hasTag tags ''mlx'' then Inr (''omlx'', ''the repo is published for MLX'')
      else if HasSafetensors files then Inr (''vllm'', ''the repo publishes safetensors weights'')
      else Inl (CannotInfer (describeFiles files)))"

section \<open>Quantisations\<close>

record hf_quant =
  qu_Name :: string
  qu_Files :: "string list"

definition alnum_class :: "char \<Rightarrow> bool" where
  "alnum_class c \<longleftrightarrow> is_digit c \<or> lower_class c \<or> ((65 :: nat) \<le> of_char c \<and> (of_char c :: nat) \<le> 90)"

definition shardSuffix :: re where
  "shardSuffix = Cap 0 (seq [Lit ''-'', Plus is_digit, Lit ''-of-'', Plus is_digit, LineEnd False])"

definition quant_tail :: re where
  "quant_tail = Cat (Lit ''_'') (Plus alnum_class)"

definition quant_name :: re where
  "quant_name =
     Cat (Maybe (Lit ''UD-''))
       (Alt (seq [Lit ''IQ'', Plus is_digit, Many quant_tail])
         (Alt (seq [Lit ''Q'', Plus is_digit, quant_tail, Many quant_tail])
           (Alt (Lit ''MXFP4'') (Alt (Lit ''F16'') (Alt (Lit ''BF16'') (Lit ''F32''))))))"

definition quantTokenIn :: re where
  "quantTokenIn = Cap 0 (seq [Alt (LineStart False) (Lit ''-''), Cap 1 quant_name, Alt (LineEnd False) (Lit ''-'')])"

definition quantTokenWhole :: re where
  "quantTokenWhole = seq [LineStart False, quant_name, LineEnd False]"

definition matches_re :: "re \<Rightarrow> string \<Rightarrow> bool" where
  "matches_re r s \<longleftrightarrow> search r None s \<noteq> None"

text \<open>A pattern that ends with the text is cut off it.\<close>

definition cut_shard :: "string \<Rightarrow> string" where
  "cut_shard s = (case find_groups shardSuffix s of None \<Rightarrow> s | Some g \<Rightarrow> take (length s - length (g 0)) s)"

definition QuantOf :: "string \<Rightarrow> string" where
  "QuantOf rel =
     (let parts = split_on CHR ''/'' rel; dirs = butlast parts; base = last parts
      in case find (matches_re quantTokenWhole) (rev dirs) of
           Some d \<Rightarrow> d
         | None \<Rightarrow>
             (let base = (if has_suffix (to_lower base) ''.gguf'' then take (length base - 5) base else base);
                  base = cut_shard base
              in case find_groups quantTokenIn base of
                   None \<Rightarrow> ''''
                 | Some g \<Rightarrow> (if prefix ''-'' (g 0) then tl (g 0) else g 0)))"

definition ParseQuants :: "string list \<Rightarrow> hf_quant list" where
  "ParseQuants files =
     (let ggufs = filter (\<lambda>f. equal_fold (path_ext f) ''.gguf'' \<and> QuantOf f \<noteq> '''') files;
          names = sort (remdups (map QuantOf ggufs))
      in map (\<lambda>n. \<lparr>qu_Name = n, qu_Files = sort (filter (\<lambda>f. QuantOf f = n) ggufs)\<rparr>) names)"

definition quantPreference :: "string list" where
  "quantPreference = [''Q4_K_M'', ''UD-Q4_K_XL'', ''Q4_K_S'', ''Q5_K_M'', ''Q6_K'', ''Q8_0'']"

definition upper_char :: "char \<Rightarrow> char" where
  "upper_char c = (if lower_class c then char_of (of_char c - 32 :: nat) else c)"

definition to_upper :: "string \<Rightarrow> string" where
  "to_upper s = map upper_char s"

definition precisionRe :: re where
  "precisionRe = seq [Maybe (Lit ''UD-''), Alt (Lit ''IQ'') (Alt (Lit ''Q'') (Lit ''MXFP'')), Cap 1 (Plus is_digit)]"

definition quantPrecision :: "string \<Rightarrow> int" where
  "quantPrecision name =
     (let upper = to_upper name
      in if prefix ''F32'' upper then 32
         else if prefix ''F16'' upper \<or> prefix ''BF16'' upper then 16
         else (case find_groups precisionRe upper of None \<Rightarrow> 0 | Some g \<Rightarrow> (case parse_int (g 1) of None \<Rightarrow> 0 | Some n \<Rightarrow> n)))"

definition joinQuantNames :: "hf_quant list \<Rightarrow> string" where
  "joinQuantNames qs = join_with '', '' (map qu_Name qs)"

definition quant_called :: "string \<Rightarrow> hf_quant \<Rightarrow> bool" where
  "quant_called want q \<longleftrightarrow> equal_fold (qu_Name q) want"

text \<open>The first of the smallest, by precision and then by name.\<close>

definition quant_before :: "hf_quant \<Rightarrow> hf_quant \<Rightarrow> bool" where
  "quant_before a b \<longleftrightarrow>
     quantPrecision (qu_Name a) < quantPrecision (qu_Name b) \<or>
     (quantPrecision (qu_Name a) = quantPrecision (qu_Name b) \<and> qu_Name a < qu_Name b)"

definition smallest :: "hf_quant list \<Rightarrow> hf_quant" where
  "smallest qs = fold (\<lambda>q best. if quant_before q best then q else best) (tl qs) (hd qs)"

definition SelectQuant :: "hf_quant list \<Rightarrow> string \<Rightarrow> hf_fault + hf_quant" where
  "SelectQuant offered want =
     (if offered = [] then Inl NothingOffered
      else if want \<noteq> '''' then
        (case find (quant_called want) offered of
           Some q \<Rightarrow> Inr q
         | None \<Rightarrow> Inl (QuantNotOffered want (joinQuantNames offered)))
      else (case find (\<lambda>p. list_ex (quant_called p) offered) quantPreference of
          Some p \<Rightarrow> Inr (the (find (quant_called p) offered))
        | None \<Rightarrow>
            (let candidates = filter (\<lambda>q. 0 < quantPrecision (qu_Name q) \<and> quantPrecision (qu_Name q) < 16) offered
             in Inr (smallest (if candidates = [] then offered else candidates)))))"

section \<open>The values of a Spinloop\<close>

definition DeriveAlias :: "hf_repo \<Rightarrow> string" where
  "DeriveAlias repo =
     (let name = snd repo
      in to_lower (case find (\<lambda>suf. has_suffix (to_lower name) (to_lower suf)) [''-GGUF'', ''-MLX''] of
           None \<Rightarrow> name
         | Some suf \<Rightarrow> take (length name - length suf) name))"

record hf_options =
  ho_Provider :: string
  ho_Quant :: string
  ho_Context :: string
  ho_Alias :: string
  ho_NoCache :: bool

record repo_info =
  ri_Files :: "string list"
  ri_Tags :: "string list"
  ri_Library :: string
  ri_SHA :: string
  ri_Window :: int

record hf_resolved =
  hr_Provider :: string
  hr_ProviderWhy :: string
  hr_Quant :: string
  hr_Quants :: "string list"
  hr_Model :: string
  hr_ModelSource :: string
  hr_CachedPath :: string
  hr_CachedIn :: string
  hr_Alias :: string
  hr_Context :: string
  hr_ContextSource :: string

definition hf_Repo :: "hf_ref \<Rightarrow> hf_repo" where
  "hf_Repo r = (hf_Owner r, hf_Name r)"

definition cachedLlamaFile :: "hf_files \<Rightarrow> cache_roots \<Rightarrow> hf_ref \<Rightarrow> hf_quant \<Rightarrow> (string \<times> string) option" where
  "cachedLlamaFile fs roots ref q =
     (case (case FindSnapshot fs (cr_HFHub roots) (hf_Repo ref) (hf_Revision ref) of
              None \<Rightarrow> None | Some dir \<Rightarrow> snapshot_File fs dir (hd (qu_Files q))) of
        Some p \<Rightarrow> Some (p, ''the Hugging Face cache'')
      | None \<Rightarrow>
          (case FindLLamaGGUF fs (cr_LLama roots) (hf_Repo ref) (qu_Name q) of
             Some p \<Rightarrow> Some (p, ''llama.cpp'' @ [CHR 0x27] @ ''s cache'')
           | None \<Rightarrow> None))"

definition orSuffix :: "string \<Rightarrow> string \<Rightarrow> string" where
  "orSuffix suf flag = (if suf \<noteq> '''' then '':'' @ suf @ '' / -q'' else ''-q'')"

text \<open>The quantisation asked for: the one of the file named, the reference's, or the flag's.\<close>

definition wanted_quant :: "hf_quant list \<Rightarrow> hf_ref \<Rightarrow> hf_options \<Rightarrow> hf_fault + string" where
  "wanted_quant quants ref opts =
     (if hf_File ref \<noteq> '''' then
        (case find (\<lambda>q. hf_File ref \<in> set (qu_Files q)) quants of
           None \<Rightarrow> Inl (NoSuchFile (hf_File ref) (hf_Revision ref))
         | Some q \<Rightarrow>
             if ho_Quant opts \<noteq> '''' \<and> \<not> equal_fold (ho_Quant opts) (qu_Name q) then Inl (OtherQuant (qu_Name q) (ho_Quant opts))
             else Inr (qu_Name q))
      else if hf_Quant ref \<noteq> '''' then Inr (hf_Quant ref)
      else Inr (ho_Quant opts))"

definition resolved_model :: "hf_files \<Rightarrow> cache_roots \<Rightarrow> repo_info \<Rightarrow> hf_ref \<Rightarrow> hf_options \<Rightarrow> string \<Rightarrow> hf_resolved \<Rightarrow> hf_fault + hf_resolved" where
  "resolved_model fs roots info ref opts provider r =
     (if provider = ''llamacpp'' then
        (let quants = ParseQuants (ri_Files info)
         in if quants = [] then Inl (NoGGUF (describeFiles (ri_Files info)))
            else (case wanted_quant quants ref opts of
                Inl e \<Rightarrow> Inl e
              | Inr want \<Rightarrow>
                  (case SelectQuant quants want of
                     Inl e \<Rightarrow> Inl e
                   | Inr q \<Rightarrow>
                       (let hub = repo_String (hf_Repo ref) @ '':'' @ qu_Name q;
                            r = r\<lparr>hr_Quants := map qu_Name quants, hr_Quant := qu_Name q\<rparr>
                        in case cachedLlamaFile fs roots ref q of
                             None \<Rightarrow> Inr (r\<lparr>hr_Model := hub\<rparr>)
                           | Some (path, cache) \<Rightarrow>
                               (let r = r\<lparr>hr_CachedPath := path, hr_CachedIn := cache\<rparr>
                                in Inr (if ho_NoCache opts then r\<lparr>hr_Model := hub\<rparr>
                                        else r\<lparr>hr_Model := path, hr_ModelSource := cache\<rparr>))))))
      else if hf_Quant ref \<noteq> '''' \<or> ho_Quant opts \<noteq> '''' then
        Inl (WholeRepo provider (orSuffix (hf_Quant ref) (ho_Quant opts)))
      else Inr (r\<lparr>hr_Model := repo_String (hf_Repo ref)\<rparr>))"

definition resolved_context :: "(float64 \<Rightarrow> int) \<Rightarrow> repo_info \<Rightarrow> hf_options \<Rightarrow> hf_fault + string \<times> string" where
  "resolved_context machine info opts =
     (if ho_Context opts \<noteq> '''' then
        (case ParseSize machine (ho_Context opts) of
           Inl e \<Rightarrow> Inl (BadContext e)
         | Inr n \<Rightarrow> Inr (show_int n, ''the --context flag''))
      else if 0 < ri_Window info then Inr (show_int (ri_Window info), ''the model'' @ [CHR 0x27] @ ''s config.json'')
      else Inr ('''', ''''))"

definition hf_Resolve :: "(float64 \<Rightarrow> int) \<Rightarrow> hf_files \<Rightarrow> repo_info \<Rightarrow> hf_ref \<Rightarrow> cache_roots \<Rightarrow> hf_options \<Rightarrow> hf_fault + hf_resolved" where
  "hf_Resolve machine fs info ref roots opts =
     (case (if ho_Provider opts \<noteq> '''' then Inr (ho_Provider opts, ''named with -p'')
            else InferProvider (ri_Files info) (ri_Library info) (ri_Tags info)) of
        Inl e \<Rightarrow> Inl e
      | Inr (provider, why) \<Rightarrow>
          (case resolved_model fs roots info ref opts provider
                \<lparr>hr_Provider = provider, hr_ProviderWhy = why, hr_Quant = '''', hr_Quants = [], hr_Model = '''', hr_ModelSource = '''',
                  hr_CachedPath = '''', hr_CachedIn = '''', hr_Alias = '''', hr_Context = '''', hr_ContextSource = ''''\<rparr> of
             Inl e \<Rightarrow> Inl e
           | Inr r \<Rightarrow>
               (let r = r\<lparr>hr_Alias := (if ho_Alias opts \<noteq> '''' then ho_Alias opts else DeriveAlias (hf_Repo ref))\<rparr>
                in case resolved_context machine info opts of
                     Inl e \<Rightarrow> Inl e
                   | Inr (ctx, src) \<Rightarrow> Inr (r\<lparr>hr_Context := ctx, hr_ContextSource := src\<rparr>))))"


section \<open>What is chosen\<close>

lemma trailing_dash_kept: "QuantOf ''Q4_K_M-x.gguf'' = ''Q4_K_M-''" "QuantOf ''x-Q4_K_M.gguf'' = ''Q4_K_M''"
  by code_simp+


lemma ParseQuants_group:
  assumes "q \<in> set (ParseQuants files)"
  shows "qu_Files q \<noteq> [] \<and>
    set (qu_Files q) = {f \<in> set files. equal_fold (path_ext f) ''.gguf'' \<and> QuantOf f = qu_Name q} \<and> qu_Name q \<noteq> ''''"
proof -
  let ?gg = "filter (\<lambda>f. equal_fold (path_ext f) ''.gguf'' \<and> QuantOf f \<noteq> '''') files"
  obtain n where n: "n \<in> QuantOf ` set ?gg" "q = \<lparr>qu_Name = n, qu_Files = sort (filter (\<lambda>f. QuantOf f = n) ?gg)\<rparr>"
    using assms by (auto simp: ParseQuants_def Let_def)
  then have ne: "n \<noteq> ''''" by auto
  have "set (qu_Files q) = {f \<in> set ?gg. QuantOf f = n}" using n(2) by simp
  moreover have "\<exists>f. f \<in> {f \<in> set ?gg. QuantOf f = n}" using n(1) by auto
  ultimately show ?thesis using n(2) ne by (auto simp: set_empty [symmetric] simp del: set_empty)
qed

lemma distinct_ParseQuants: "distinct (map qu_Name (ParseQuants files))"
  by (simp add: ParseQuants_def Let_def comp_def)

lemma smallest_in: "qs \<noteq> [] \<Longrightarrow> smallest qs \<in> set qs"
proof -
  have "fold (\<lambda>q best. if quant_before q best then q else best) xs b \<in> insert b (set xs)" for xs b
    by (induction xs arbitrary: b) auto
  then show "qs \<noteq> [] \<Longrightarrow> smallest qs \<in> set qs" by (cases qs) (auto simp: smallest_def)
qed

lemma SelectQuant_in: "SelectQuant offered want = Inr q \<Longrightarrow> q \<in> set offered"
proof -
  assume a: "SelectQuant offered want = Inr q"
  let ?cands = "filter (\<lambda>q. 0 < quantPrecision (qu_Name q) \<and> quantPrecision (qu_Name q) < 16) offered"
  have ne: "offered \<noteq> []" using a by (auto simp: SelectQuant_def)
  show ?thesis
  proof (cases "want = ''''")
    case False
    then show ?thesis using a ne by (auto simp: SelectQuant_def split: option.splits dest: find_SomeD)
  next
    case True
    show ?thesis
    proof (cases "find (\<lambda>p. list_ex (quant_called p) offered) quantPreference")
      case None
      then have "q = smallest (if ?cands = [] then offered else ?cands)" using a ne True by (simp add: SelectQuant_def Let_def)
      then show ?thesis using smallest_in [of offered] smallest_in [of ?cands] ne by (auto split: if_splits)
    next
      case (Some p)
      then have "list_ex (quant_called p) offered" using find_SomeD [OF Some] by blast
      then obtain q' where "find (quant_called p) offered = Some q'"
        by (cases "find (quant_called p) offered") (auto simp: find_None_iff list_ex_iff)
      then show ?thesis using a ne True Some by (auto simp: SelectQuant_def dest: find_SomeD)
    qed
  qed
qed

text \<open>Where a copy in a cache is, for a file of the quantisation or by the names in its own name.\<close>

definition cached_copy :: "hf_files \<Rightarrow> cache_roots \<Rightarrow> hf_ref \<Rightarrow> hf_quant \<Rightarrow> string \<Rightarrow> bool" where
  "cached_copy fs roots ref q p \<longleftrightarrow>
     (\<exists>dir f. FindSnapshot fs (cr_HFHub roots) (hf_Repo ref) (hf_Revision ref) = Some dir \<and> f \<in> set (qu_Files q) \<and>
        p = path_join [dir, f] \<and> hs_regular fs p) \<or>
     (\<exists>es e. hs_entries fs (cr_LLama roots) = Some es \<and> e \<in> set es \<and> names_quant (hf_Repo ref) (qu_Name q) e \<and>
        p = path_join [cr_LLama roots, fst e])"

lemma cachedLlamaFile_copy:
  assumes "cachedLlamaFile fs roots ref q = Some (p, cache)" "qu_Files q \<noteq> []"
  shows "cached_copy fs roots ref q p \<and> cache \<noteq> ''''"
proof (cases "(case FindSnapshot fs (cr_HFHub roots) (hf_Repo ref) (hf_Revision ref) of
    None \<Rightarrow> None | Some dir \<Rightarrow> snapshot_File fs dir (hd (qu_Files q)))")
  case None
  then have "FindLLamaGGUF fs (cr_LLama roots) (hf_Repo ref) (qu_Name q) = Some p" "cache \<noteq> ''''"
    using assms(1) by (auto simp: cachedLlamaFile_def split: option.splits)
  then show ?thesis by (auto simp: FindLLamaGGUF_def cached_copy_def split: if_splits option.splits dest!: find_SomeD)
next
  case (Some p')
  then obtain dir where d: "FindSnapshot fs (cr_HFHub roots) (hf_Repo ref) (hf_Revision ref) = Some dir"
    "snapshot_File fs dir (hd (qu_Files q)) = Some p'" by (auto split: option.splits)
  have "p' = p" "cache \<noteq> ''''" using assms(1) Some by (auto simp: cachedLlamaFile_def)
  then show ?thesis
    using d assms(2) unfolding cached_copy_def
    by (intro conjI disjI1 exI [of _ dir] exI [of _ "hd (qu_Files q)"]) (auto simp: snapshot_File_def Let_def split: if_splits)
qed

lemma resolved_model_llamacpp:
  assumes "resolved_model fs roots info ref opts ''llamacpp'' r0 = Inr r" "hr_ModelSource r0 = ''''"
  shows "\<exists>q \<in> set (ParseQuants (ri_Files info)). hr_Quant r = qu_Name q \<and>
    (hr_ModelSource r = '''' \<and> hr_Model r = repo_String (hf_Repo ref) @ '':'' @ qu_Name q \<or>
     hr_ModelSource r \<noteq> '''' \<and> \<not> ho_NoCache opts \<and> cached_copy fs roots ref q (hr_Model r))"
proof -
  obtain want' q where w: "wanted_quant (ParseQuants (ri_Files info)) ref opts = Inr want'"
    "SelectQuant (ParseQuants (ri_Files info)) want' = Inr q"
    using assms(1) by (auto simp: resolved_model_def Let_def split: if_splits sum.splits)
  have m: "q \<in> set (ParseQuants (ri_Files info))" using SelectQuant_in [OF w(2)] .
  have g: "qu_Files q \<noteq> []" using ParseQuants_group [OF m] by blast
  have ne: "ParseQuants (ri_Files info) \<noteq> []" using m by auto
  show ?thesis
  proof (cases "cachedLlamaFile fs roots ref q")
    case None
    then show ?thesis using assms w ne m by (intro bexI [of _ q]) (auto simp: resolved_model_def Let_def)
  next
    case (Some pc)
    obtain p cache where pc: "pc = (p, cache)" by (cases pc)
    have "cached_copy fs roots ref q p \<and> cache \<noteq> ''''" using cachedLlamaFile_copy [OF _ g] Some pc by simp
    then show ?thesis using assms w ne m Some pc
      by (intro bexI [of _ q]) (auto simp: resolved_model_def Let_def split: if_splits)
  qed
qed



definition demo_cache :: hf_files where
  "demo_cache = \<lparr>hs_read = (\<lambda>p. if p = ''/hub/models--o--m/refs/main'' then Some ''abc'' else None), hs_isDir = (\<lambda>_. False),
     hs_entries = (\<lambda>p. if p = ''/hub/models--o--m/snapshots/abc'' then Some [(''a-Q4_K_M.gguf'', False)] else None),
     hs_regular = (\<lambda>p. True)\<rparr>"

definition demo_roots :: cache_roots where
  "demo_roots = \<lparr>cr_HFHub = ''/hub'', cr_LLama = ''''\<rparr>"

definition demo_info :: repo_info where
  "demo_info = \<lparr>ri_Files = [''README.md'', ''b-Q4_K_M.gguf'', ''a-Q4_K_M.gguf''], ri_Tags = [], ri_Library = '''', ri_SHA = '''', ri_Window = 0\<rparr>"

definition demo_hf_ref :: "string \<Rightarrow> hf_ref" where
  "demo_hf_ref f = \<lparr>hf_Owner = ''o'', hf_Name = ''m'', hf_Revision = ''main'', hf_Quant = '''', hf_File = f\<rparr>"

definition no_options :: hf_options where
  "no_options = \<lparr>ho_Provider = '''', ho_Quant = '''', ho_Context = '''', ho_Alias = '''', ho_NoCache = False\<rparr>"

lemma demo_quants: "ParseQuants (ri_Files demo_info) = [\<lparr>qu_Name = ''Q4_K_M'', qu_Files = [''a-Q4_K_M.gguf'', ''b-Q4_K_M.gguf'']\<rparr>]"
  by code_simp

lemma demo_infer: "InferProvider (ri_Files demo_info) (ri_Library demo_info) (ri_Tags demo_info) =
    Inr (''llamacpp'', ''the repo publishes GGUF files'')"
  by code_simp

lemma demo_resolved:
  assumes "f = '''' \<or> f = ''b-Q4_K_M.gguf''"
  shows "\<exists>r. hf_Resolve machine demo_cache demo_info (demo_hf_ref f) demo_roots no_options = Inr r \<and> hr_Provider r = ''llamacpp'' \<and>
    hr_Model r = ''/hub/models--o--m/snapshots/abc/a-Q4_K_M.gguf''"
proof -
  let ?q = "\<lparr>qu_Name = ''Q4_K_M'', qu_Files = [''a-Q4_K_M.gguf'', ''b-Q4_K_M.gguf'']\<rparr>"
  have s: "SelectQuant [?q] ''Q4_K_M'' = Inr ?q" "SelectQuant [?q] '''' = Inr ?q" by code_simp+
  have "FindSnapshot demo_cache ''/hub'' (''o'', ''m'') ''main'' = Some ''/hub/models--o--m/snapshots/abc''" by code_simp
  moreover have "snapshot_File demo_cache ''/hub/models--o--m/snapshots/abc'' ''a-Q4_K_M.gguf'' =
      Some ''/hub/models--o--m/snapshots/abc/a-Q4_K_M.gguf''" by code_simp
  ultimately have c: "cachedLlamaFile demo_cache demo_roots (demo_hf_ref f) ?q =
      Some (''/hub/models--o--m/snapshots/abc/a-Q4_K_M.gguf'', ''the Hugging Face cache'')"
    by (simp add: cachedLlamaFile_def demo_roots_def demo_hf_ref_def hf_Repo_def)
  have w: "wanted_quant [?q] (demo_hf_ref f) no_options = Inr (if f = '''' then '''' else ''Q4_K_M'')"
    using assms by (auto simp: wanted_quant_def demo_hf_ref_def no_options_def)
  have x: "resolved_context machine demo_info no_options = Inr ('''', '''')"
    by (simp add: resolved_context_def no_options_def demo_info_def)
  have p: "ho_Provider no_options = ''''" "\<not> ho_NoCache no_options" by (simp_all add: no_options_def)
  have s': "SelectQuant [?q] (if f = '''' then '''' else ''Q4_K_M'') = Inr ?q" using s by simp
  have m: "resolved_model demo_cache demo_roots demo_info (demo_hf_ref f) no_options ''llamacpp'' r0 =
      Inr (r0\<lparr>hr_Quants := [''Q4_K_M''], hr_Quant := ''Q4_K_M'', hr_CachedPath := ''/hub/models--o--m/snapshots/abc/a-Q4_K_M.gguf'',
        hr_CachedIn := ''the Hugging Face cache'', hr_Model := ''/hub/models--o--m/snapshots/abc/a-Q4_K_M.gguf'',
        hr_ModelSource := ''the Hugging Face cache''\<rparr>)" for r0
    unfolding resolved_model_def demo_quants w sum.case s' Let_def
    by (simp only: c option.case prod.case p if_False simp_thms list.distinct list.map hf_quant.simps refl if_True)
  show ?thesis unfolding hf_Resolve_def demo_infer by (simp add: p m x)
qed


text \<open>A reference that names one file of a repository is resolved to another of the same quantisation.\<close>

lemma named_file_not_taken:
  "\<exists>r. hf_Resolve machine demo_cache demo_info (demo_hf_ref ''b-Q4_K_M.gguf'') demo_roots no_options = Inr r \<and>
    hr_Model r = ''/hub/models--o--m/snapshots/abc/a-Q4_K_M.gguf''"
  using demo_resolved [of "''b-Q4_K_M.gguf''" machine] by blast

end
