(* ===== verification/Dashboard.thy ===== *)
theory Dashboard
  imports WorkBoard StartPhase FleetWake
begin

text \<open>
  \<^verbatim>\<open>cmd/spinloop/dashboard_model.go\<close>, \<^verbatim>\<open>dashboard_detail.go\<close> and \<^verbatim>\<open>fleet_dashboard.go\<close>: the fleet's dashboard as a
  state and what each key and each answer does to it, with the grid's geometry and a panel's health from
  \<^verbatim>\<open>dashboard_render.go\<close>. What the program has running beside the screen (a tick, a round of readings, a call
  on a node, a poll of a log) is a command that the update returns; its answer comes back as a message. The
  room that the drawing leaves for a log is an argument, and what a reading carries beyond its state is a type
  parameter. Times are counts of nanoseconds, the zero time is \<open>None\<close>.
\<close>

section \<open>Nodes and readings\<close>

text \<open>A live node: whether its instance can be kept, and whether its start tells its phases.\<close>

record dash_node =
  dn_Name :: string
  dn_keeps :: bool
  dn_reports :: bool

definition dash_outcome_text :: "outcome option \<Rightarrow> string" where
  "dash_outcome_text r =
     (case r of
        None \<Rightarrow> ''''
      | Some OutcomeOK \<Rightarrow> ''ok''
      | Some OutcomeUnreachable \<Rightarrow> ''unreachable''
      | Some OutcomeUnauthorized \<Rightarrow> ''unauthorized''
      | Some OutcomeConfigError \<Rightarrow> ''config-error''
      | Some OutcomeFailed \<Rightarrow> ''failed''
      | Some OutcomeUnsupported \<Rightarrow> ''unsupported'')"

record 's dash_result =
  dr_Outcome :: "outcome option"
  dr_Err :: "string option"
  dr_State :: string
  dr_Ready :: string
  dr_Stats :: "'s option"
  dr_At :: "int option"

definition no_result :: "'s dash_result" where
  "no_result = \<lparr>dr_Outcome = None, dr_Err = None, dr_State = '''', dr_Ready = '''', dr_Stats = None, dr_At = None\<rparr>"

definition dr_OK :: "'s dash_result \<Rightarrow> bool" where
  "dr_OK r \<longleftrightarrow> dr_Outcome r = Some OutcomeOK"

definition dr_Detail :: "'s dash_result \<Rightarrow> string" where
  "dr_Detail r = (case dr_Err r of None \<Rightarrow> '''' | Some e \<Rightarrow> e)"

text \<open>Whether one time is after another; the zero time is before all others.\<close>

definition is_after :: "int option \<Rightarrow> int option \<Rightarrow> bool" where
  "is_after a b \<longleftrightarrow> (case a of None \<Rightarrow> False | Some t \<Rightarrow> (case b of None \<Rightarrow> True | Some u \<Rightarrow> u < t))"

record 's dash_entry =
  de_name :: string
  de_kind :: string
  de_node :: "dash_node option"
  de_standing :: "'s dash_result"

section \<open>From the fleet file to nodes\<close>

datatype node_fault = CloudFault cloud_error | CloudIncomplete string | TokenFault fleet_error

definition NewCloudNode :: "string \<Rightarrow> cloud_config \<Rightarrow> node_fault + dash_node" where
  "NewCloudNode name cfg =
     (if cc_StartURL cfg = '''' \<or> cc_StopURL cfg = '''' \<or> cc_Region cfg = '''' then Inl (CloudIncomplete name)
      else Inr \<lparr>dn_Name = name, dn_keeps = True, dn_reports = True\<rparr>)"

definition NewNode ::
  "(string \<Rightarrow> cloud_error + cloud_config) \<Rightarrow> (node_config \<Rightarrow> fleet_error + string) \<Rightarrow> node_config \<Rightarrow> node_fault + dash_node" where
  "NewNode load_env token entry =
     (if nc_Kind entry = KindCloud then
        (case load_env (nc_Name entry) of
           Inl e \<Rightarrow> Inl (CloudFault e)
         | Inr cfg \<Rightarrow> NewCloudNode (nc_Name entry) cfg)
      else
        (case token entry of
           Inl e \<Rightarrow> Inl (TokenFault e)
         | Inr t \<Rightarrow> Inr \<lparr>dn_Name = nc_Name entry, dn_keeps = False, dn_reports = False\<rparr>))"

definition describeTarget :: "fleet_config \<Rightarrow> string" where
  "describeTarget c =
     (if cfg_Path c \<noteq> '''' then cfg_Path c
      else (case cfg_Nodes c of [n] \<Rightarrow> ''environment '' @ nc_Name n | _ \<Rightarrow> ''the fleet''))"

section \<open>The state\<close>

text \<open>
  A call under way on a node; its verb is empty where there is none. The call's own context is over exactly when
  the action is marked as aborted.
\<close>

record dash_action =
  da_verb :: string
  da_phase :: "start_phase option"
  da_since :: "int option"
  da_aborted :: bool

definition no_action :: dash_action where
  "no_action = \<lparr>da_verb = '''', da_phase = None, da_since = None, da_aborted = False\<rparr>"

record 's dash_model =
  dm_fleetPath :: string
  dm_entries :: "'s dash_entry list"
  dm_results :: "'s dash_result list"
  dm_actions :: "dash_action list"
  dm_cursor :: nat
  dm_scrollRow :: int
  dm_confirm :: bool
  dm_keepPrompt :: bool
  dm_keepBuf :: string
  dm_keepErr :: string
  dm_statusLine :: string
  dm_gauge :: bool
  dm_fastBusy :: bool
  dm_slowBusy :: bool
  dm_nextReadAt :: "int option list"
  dm_width :: int
  dm_height :: int
  dm_detail :: bool
  dm_logGen :: nat
  dm_logBusy :: bool
  dm_logFollow :: bool
  dm_logClip :: bool
  dm_logOffset :: int
  dm_logContent :: string
  dm_logNote :: string

definition new_dash :: "string \<Rightarrow> 's dash_entry list \<Rightarrow> 's dash_model" where
  "new_dash path es =
     \<lparr>dm_fleetPath = path, dm_entries = es, dm_results = map de_standing es, dm_actions = replicate (length es) no_action,
      dm_cursor = 0, dm_scrollRow = 0, dm_confirm = False, dm_keepPrompt = False, dm_keepBuf = '''', dm_keepErr = '''',
      dm_statusLine = '''', dm_gauge = True, dm_fastBusy = False, dm_slowBusy = False, dm_nextReadAt = [], dm_width = 0,
      dm_height = 0, dm_detail = False, dm_logGen = 0, dm_logBusy = False, dm_logFollow = False, dm_logClip = False,
      dm_logOffset = 0, dm_logContent = '''', dm_logNote = ''''\<rparr>"

definition dash_entry_of ::
  "(node_config \<Rightarrow> node_fault + dash_node) \<Rightarrow> (node_fault \<Rightarrow> string) \<Rightarrow> node_config \<Rightarrow> 's dash_entry" where
  "dash_entry_of new_node fault_text n =
     (case new_node n of
        Inl e \<Rightarrow>
          \<lparr>de_name = nc_Name n, de_kind = nc_Kind n, de_node = None,
           de_standing = no_result\<lparr>dr_Outcome := Some OutcomeConfigError, dr_Err := Some (fault_text e)\<rparr>\<rparr>
      | Inr d \<Rightarrow> \<lparr>de_name = nc_Name n, de_kind = nc_Kind n, de_node = Some d, de_standing = no_result\<rparr>)"

definition dashModelFor ::
  "(node_config \<Rightarrow> node_fault + dash_node) \<Rightarrow> (node_fault \<Rightarrow> string) \<Rightarrow> fleet_error + fleet_config \<Rightarrow> string \<Rightarrow>
   fleet_error + 's dash_model" where
  "dashModelFor new_node fault_text target node_name =
     (case (case target of
              Inl e \<Rightarrow> Inl e
            | Inr c \<Rightarrow> if node_name = '''' then Inr c else Only c node_name) of
        Inl e \<Rightarrow> Inl e
      | Inr c \<Rightarrow> Inr (new_dash (describeTarget c) (map (dash_entry_of new_node fault_text) (cfg_Nodes c))))"

section \<open>Commands and messages\<close>

datatype dash_cmd =
    DashTickCmd
  | DashSpinCmd
  | DashLogTickCmd
  | RoundCmd bool "nat list"
  | CallCmd string string
  | KeepCmd int string
  | LogCmd nat string int int
  | DashQuit

text \<open>The answer of a poll of a log.\<close>

record dash_log =
  dl_Outcome :: outcome
  dl_Err :: "string option"
  dl_Content :: string
  dl_NextOffset :: int
  dl_Missing :: bool

datatype 's dash_msg =
    DashSize int int
  | DashTickMsg
  | DashSpinMsg
  | DashLogTickMsg
  | RefreshMsg bool "nat list" "'s dash_result list"
  | ProgressMsg string start_phase
  | DoneMsg string string "call_error option" string string
  | DashLogMsg nat dash_log
  | DashKey key

section \<open>The grid\<close>

text \<open>A tile with its frame and the gap to the next is 45 columns wide and 15 rows tall; two rows are the frame's own.\<close>

definition dashTileStep :: int where
  "dashTileStep = 42 + 2 + 1"

definition dashTileRowH :: int where
  "dashTileRowH = 12 + 2 + 1"

definition dashCols :: "int \<Rightarrow> nat" where
  "dashCols w = (let c = (w + 1) div dashTileStep in if c < 1 then 1 else nat c)"

definition dashVisibleRows :: "int \<Rightarrow> int" where
  "dashVisibleRows h = (let r = (h - 1 - 1) div dashTileRowH in if r < 1 then 1 else r)"

definition grid_top :: "nat \<Rightarrow> int \<Rightarrow> int \<Rightarrow> int" where
  "grid_top entries w h =
     (let cols = int (dashCols w); rows = (int entries + cols - 1) div cols; rows = (if rows < 1 then 1 else rows);
          top = rows - dashVisibleRows h
      in if top < 0 then 0 else top)"

definition dashClampScroll :: "int \<Rightarrow> nat \<Rightarrow> int \<Rightarrow> int \<Rightarrow> int" where
  "dashClampScroll scrollRow entries w h =
     (let top = grid_top entries w h in if scrollRow < 0 then 0 else if scrollRow > top then top else scrollRow)"

definition dash_effWidth :: "'s dash_model \<Rightarrow> int" where
  "dash_effWidth m = (if dm_width m < 1 then 80 else dm_width m)"

definition dash_effHeight :: "'s dash_model \<Rightarrow> int" where
  "dash_effHeight m = (if dm_height m < 1 then 24 else dm_height m)"

definition dash_keepVisible :: "'s dash_model \<Rightarrow> 's dash_model" where
  "dash_keepVisible m =
     (if dm_entries m = [] then m\<lparr>dm_scrollRow := 0\<rparr>
      else
        (let row = int (dm_cursor m div dashCols (dash_effWidth m)); avail = dashVisibleRows (dash_effHeight m);
             s = (if row < dm_scrollRow m \<or> row \<ge> dm_scrollRow m + avail then row else dm_scrollRow m)
         in m\<lparr>dm_scrollRow := dashClampScroll s (length (dm_entries m)) (dash_effWidth m) (dash_effHeight m)\<rparr>))"

definition dash_scroll :: "int \<Rightarrow> 's dash_model \<Rightarrow> 's dash_model" where
  "dash_scroll pages m =
     m\<lparr>dm_scrollRow := dashClampScroll (dm_scrollRow m + pages * dashVisibleRows (dash_effHeight m))
         (length (dm_entries m)) (dash_effWidth m) (dash_effHeight m)\<rparr>"

text \<open>Where an arrow takes the cursor: down onto a shorter last row goes to its last tile.\<close>

definition cursor_down :: "nat \<Rightarrow> nat \<Rightarrow> nat \<Rightarrow> nat" where
  "cursor_down cols len c =
     (if len = 0 then c
      else if c + cols < len then c + cols
      else if c div cols < (len - 1) div cols then len - 1
      else c)"

definition cursor_up :: "nat \<Rightarrow> nat \<Rightarrow> nat" where
  "cursor_up cols c = (if cols \<le> c then c - cols else c)"

definition cursor_right :: "nat \<Rightarrow> nat \<Rightarrow> nat \<Rightarrow> nat" where
  "cursor_right cols len c = (if c mod cols + 1 < cols \<and> c + 1 < len then c + 1 else c)"

definition cursor_left :: "nat \<Rightarrow> nat \<Rightarrow> nat" where
  "cursor_left cols c = (if c mod cols \<noteq> 0 then c - 1 else c)"

definition cursor_to :: "(nat \<Rightarrow> nat \<Rightarrow> nat \<Rightarrow> nat) \<Rightarrow> 's dash_model \<Rightarrow> 's dash_model" where
  "cursor_to move m =
     dash_keepVisible (m\<lparr>dm_cursor := move (dashCols (dash_effWidth m)) (length (dm_entries m)) (dm_cursor m)\<rparr>)"

section \<open>Rounds of readings\<close>

definition dashboardRefreshInterval :: int where
  "dashboardRefreshInterval = 5 * second"

definition dashboardCloudRefreshInterval :: int where
  "dashboardCloudRefreshInterval = 60 * second"

definition dashNodeInterval :: "string \<Rightarrow> dash_action \<Rightarrow> int" where
  "dashNodeInterval kind a =
     (if da_verb a = '''' \<and> kind = KindCloud then dashboardCloudRefreshInterval else dashboardRefreshInterval)"

definition node_interval :: "'s dash_model \<Rightarrow> nat \<Rightarrow> int" where
  "node_interval m i = dashNodeInterval (de_kind (dm_entries m ! i)) (dm_actions m ! i)"

definition dueAt :: "'s dash_model \<Rightarrow> nat \<Rightarrow> int option" where
  "dueAt m i = (if i < length (dm_nextReadAt m) then dm_nextReadAt m ! i else None)"

definition scheduleRead :: "nat \<Rightarrow> int option \<Rightarrow> 's dash_model \<Rightarrow> 's dash_model" where
  "scheduleRead i t m =
     (let ts = dm_nextReadAt m
      in m\<lparr>dm_nextReadAt := (ts @ replicate (Suc i - length ts) None)[i := t]\<rparr>)"

definition isDue :: "int \<Rightarrow> 's dash_model \<Rightarrow> nat \<Rightarrow> bool" where
  "isDue now m i \<longleftrightarrow> node_interval m i \<le> dashboardRefreshInterval \<or> \<not> is_after (dueAt m i) (Some now)"

definition round_nodes :: "int \<Rightarrow> 's dash_model \<Rightarrow> bool \<Rightarrow> nat list" where
  "round_nodes now m cloud =
     filter (\<lambda>i. let e = dm_entries m ! i in de_node e \<noteq> None \<and> (de_kind e = KindCloud) = cloud \<and> isDue now m i)
       [0..<length (dm_entries m)]"

definition group_busy :: "bool \<Rightarrow> 's dash_model \<Rightarrow> bool" where
  "group_busy cloud m = (if cloud then dm_slowBusy m else dm_fastBusy m)"

definition set_busy :: "bool \<Rightarrow> bool \<Rightarrow> 's dash_model \<Rightarrow> 's dash_model" where
  "set_busy cloud b m = (if cloud then m\<lparr>dm_slowBusy := b\<rparr> else m\<lparr>dm_fastBusy := b\<rparr>)"

definition refreshCloudGroup :: "int \<Rightarrow> bool \<Rightarrow> 's dash_model \<Rightarrow> 's dash_model \<times> dash_cmd list" where
  "refreshCloudGroup now cloud m =
     (let idx = round_nodes now m cloud
      in if idx = [] \<or> group_busy cloud m then (m, [])
         else (fold (\<lambda>i m. scheduleRead i (Some (now + node_interval m i)) m) idx (set_busy cloud True m), [RoundCmd cloud idx]))"

definition startRounds :: "int \<Rightarrow> 's dash_model \<Rightarrow> 's dash_model \<times> dash_cmd list" where
  "startRounds now m =
     (case refreshCloudGroup now False m of
        (m1, cs1) \<Rightarrow> (case refreshCloudGroup now True m1 of (m2, cs2) \<Rightarrow> (m2, cs1 @ cs2)))"

definition dash_Init :: "int \<Rightarrow> 's dash_model \<Rightarrow> 's dash_model \<times> dash_cmd list" where
  "dash_Init now m = (case startRounds now m of (m', cs) \<Rightarrow> (m', DashTickCmd # cs))"

text \<open>A reading is taken for its node if it was made later than the one that is shown.\<close>

definition take_reading :: "nat \<times> 's dash_result \<Rightarrow> 's dash_result list \<Rightarrow> 's dash_result list" where
  "take_reading ir rs = (if is_after (dr_At (snd ir)) (dr_At (rs ! fst ir)) then rs[fst ir := snd ir] else rs)"

definition take_readings :: "(nat \<times> 's dash_result) list \<Rightarrow> 's dash_result list \<Rightarrow> 's dash_result list" where
  "take_readings irs rs = fold take_reading irs rs"

section \<open>Calls on a node\<close>

definition ellipsis :: string where
  "ellipsis = [CHR 0xE2, CHR 0x80, CHR 0xA6]"

definition dashVerbProgress :: "string \<Rightarrow> string" where
  "dashVerbProgress v = (if v = ''stop'' then ''stopping'' else v @ ''ing'')"

definition actionInFlight :: "'s dash_model \<Rightarrow> bool" where
  "actionInFlight m \<longleftrightarrow> list_ex (\<lambda>a. da_verb a \<noteq> '''') (dm_actions m)"

definition at_cursor :: "'s dash_model \<Rightarrow> 's dash_entry" where
  "at_cursor m = dm_entries m ! dm_cursor m"

definition verb_at_cursor :: "'s dash_model \<Rightarrow> string" where
  "verb_at_cursor m = da_verb (dm_actions m ! dm_cursor m)"

text \<open>What both kinds of calls share: the slot taken, the node due at once, the line, and the clock of the spinner.\<close>

definition issue :: "int \<Rightarrow> string \<Rightarrow> dash_cmd \<Rightarrow> 's dash_model \<Rightarrow> 's dash_model \<times> dash_cmd list" where
  "issue now v cmd m =
     (let spin = \<not> actionInFlight m; i = dm_cursor m;
          m = m\<lparr>dm_actions := (dm_actions m)[i := no_action\<lparr>da_verb := v, da_since := Some now\<rparr>]\<rparr>;
          m = (scheduleRead i None m)\<lparr>dm_statusLine := dashVerbProgress v @ '' '' @ de_name (at_cursor m) @ ellipsis\<rparr>
      in (m, cmd # (if spin then [DashSpinCmd] else [])))"

definition dash_beginAction :: "int \<Rightarrow> string \<Rightarrow> 's dash_model \<Rightarrow> 's dash_model \<times> dash_cmd list" where
  "dash_beginAction now v m =
     (let e = at_cursor m; m = m\<lparr>dm_confirm := False\<rparr>
      in if de_node e = None then (m\<lparr>dm_statusLine := de_name e @ '': '' @ dr_Detail (de_standing e)\<rparr>, [])
         else if verb_at_cursor m \<noteq> '''' then
           (m\<lparr>dm_statusLine := de_name e @ '': still '' @ dashVerbProgress (verb_at_cursor m)\<rparr>, [])
         else issue now v (CallCmd v (de_name e)) m)"

definition can_keep :: "'s dash_entry \<Rightarrow> bool" where
  "can_keep e \<longleftrightarrow> (case de_node e of None \<Rightarrow> False | Some d \<Rightarrow> dn_keeps d)"

definition beginKeep :: "int \<Rightarrow> int \<Rightarrow> 's dash_model \<Rightarrow> 's dash_model \<times> dash_cmd list" where
  "beginKeep now d m =
     (let e = at_cursor m; m = m\<lparr>dm_keepPrompt := False, dm_keepBuf := '''', dm_keepErr := ''''\<rparr>
      in if de_node e = None then (m\<lparr>dm_statusLine := de_name e @ '': '' @ dr_Detail (de_standing e)\<rparr>, [])
         else if verb_at_cursor m \<noteq> '''' then
           (m\<lparr>dm_statusLine := de_name e @ '': still '' @ dashVerbProgress (verb_at_cursor m)\<rparr>, [])
         else if \<not> can_keep e then (m\<lparr>dm_statusLine := de_name e @ '': keep needs a cloud environment''\<rparr>, [])
         else issue now ''keep'' (KeepCmd d (de_name e)) m)"

text \<open>Only a start is given up; what it goes on to do comes back with the next readings.\<close>

definition abortAction :: "'s dash_model \<Rightarrow> 's dash_model" where
  "abortAction m =
     (if verb_at_cursor m \<noteq> ''start'' then m
      else m\<lparr>dm_actions := (dm_actions m)[dm_cursor m := (dm_actions m ! dm_cursor m)\<lparr>da_aborted := True\<rparr>]\<rparr>)"

definition dash_indexOf :: "string \<Rightarrow> 's dash_model \<Rightarrow> nat option" where
  "dash_indexOf name m = find (\<lambda>i. de_name (dm_entries m ! i) = name) [0..<length (dm_entries m)]"

definition dashActionLine :: "string \<Rightarrow> string \<Rightarrow> call_error option \<Rightarrow> string \<Rightarrow> string \<Rightarrow> bool \<Rightarrow> string" where
  "dashActionLine node v err state until aborted =
     (if classify err \<noteq> OutcomeOK then
        (if aborted then node @ '': '' @ v @ '' abandoned''
         else node @ '': '' @ v @ '' failed'' @ dash @ (case err of None \<Rightarrow> '''' | Some e \<Rightarrow> error_text e))
      else if v = ''keep'' then node @ '': keep'' @ dash @ ''retain until '' @ until
      else node @ '': '' @ v @ dash @ (if state = '''' then ''done'' else state))"

definition action_progress :: "string \<Rightarrow> start_phase \<Rightarrow> 's dash_model \<Rightarrow> 's dash_model" where
  "action_progress name p m =
     (case dash_indexOf name m of
        None \<Rightarrow> m
      | Some i \<Rightarrow>
          if da_verb (dm_actions m ! i) = '''' then m
          else m\<lparr>dm_actions := (dm_actions m)[i := (dm_actions m ! i)\<lparr>da_phase := Some p\<rparr>]\<rparr>)"

definition action_done :: "string \<Rightarrow> string \<Rightarrow> call_error option \<Rightarrow> string \<Rightarrow> string \<Rightarrow> 's dash_model \<Rightarrow> 's dash_model" where
  "action_done name v err state until m =
     (case dash_indexOf name m of
        None \<Rightarrow> m\<lparr>dm_statusLine := dashActionLine name v err state until False\<rparr>
      | Some i \<Rightarrow>
          (scheduleRead i None (m\<lparr>dm_actions := (dm_actions m)[i := no_action]\<rparr>))
            \<lparr>dm_statusLine := dashActionLine name v err state until (da_aborted (dm_actions m ! i))\<rparr>)"

section \<open>The keep prompt\<close>

text \<open>The bytes of a well formed rune at the beginning of a text, 1 where there is none.\<close>

definition in_bytes :: "nat \<Rightarrow> nat \<Rightarrow> char \<Rightarrow> bool" where
  "in_bytes lo hi c \<longleftrightarrow> lo \<le> of_char c \<and> of_char c \<le> hi"

definition second_byte :: "nat \<Rightarrow> char \<Rightarrow> bool" where
  "second_byte b c \<longleftrightarrow>
     (if b = 0xE0 then in_bytes 0xA0 0xBF c else if b = 0xED then in_bytes 0x80 0x9F c
      else if b = 0xF0 then in_bytes 0x90 0xBF c else if b = 0xF4 then in_bytes 0x80 0x8F c
      else in_bytes 0x80 0xBF c)"

definition rune_bytes :: "nat \<Rightarrow> nat" where
  "rune_bytes b =
     (if b < 0xC2 then 1 else if b < 0xE0 then 2 else if b < 0xF0 then 3 else if b < 0xF5 then 4 else 1)"

definition rune_size :: "string \<Rightarrow> nat" where
  "rune_size s =
     (case s of
        [] \<Rightarrow> 0
      | c # cs \<Rightarrow>
          let n = rune_bytes (of_char c)
          in if 1 < n \<and> n \<le> length s \<and> second_byte (of_char c) (hd cs) \<and>
                list_all (in_bytes 0x80 0xBF) (take (n - 2) (drop 1 cs))
             then n else 1)"

text \<open>
  \<^verbatim>\<open>utf8.DecodeLastRuneInString\<close>: the nearest of the last four bytes that begins a rune is where the last rune
  may be, if it ends with the text.
\<close>

definition last_rune_size :: "string \<Rightarrow> nat" where
  "last_rune_size s =
     (case find (\<lambda>k. \<not> in_bytes 0x80 0xBF (s ! (length s - k))) [1..<Suc (min 4 (length s))] of
        None \<Rightarrow> 1
      | Some k \<Rightarrow> if rune_size (drop (length s - k) s) = k then k else 1)"

definition chopLastRune :: "string \<Rightarrow> string" where
  "chopLastRune s = (if s = '''' then '''' else take (length s - last_rune_size s) s)"

definition close_prompt :: "'s dash_model \<Rightarrow> 's dash_model" where
  "close_prompt m = m\<lparr>dm_keepPrompt := False, dm_keepBuf := '''', dm_keepErr := ''''\<rparr>"

definition open_prompt :: "'s dash_model \<Rightarrow> 's dash_model" where
  "open_prompt m = m\<lparr>dm_keepPrompt := True, dm_keepBuf := ''4h'', dm_keepErr := ''''\<rparr>"

definition updateKeepPromptKey :: "int \<Rightarrow> key \<Rightarrow> 's dash_model \<Rightarrow> 's dash_model \<times> dash_cmd list" where
  "updateKeepPromptKey now k m =
     (let s = k_name k
      in if s = ''enter'' then
           (case ParseDuration (trim_space (dm_keepBuf m)) of
              None \<Rightarrow> (m\<lparr>dm_keepErr := ''enter a duration like 4h''\<rparr>, [])
            | Some d \<Rightarrow> if d \<le> 0 then (m\<lparr>dm_keepErr := ''enter a duration like 4h''\<rparr>, []) else beginKeep now d m)
         else if s = ''backspace'' then (m\<lparr>dm_keepBuf := chopLastRune (dm_keepBuf m), dm_keepErr := ''''\<rparr>, [])
         else if s = ''esc'' then (close_prompt m, [])
         else if s = ''ctrl+c'' \<or> s = ''q'' then (close_prompt m, [DashQuit])
         else if k_runes k \<noteq> None then (m\<lparr>dm_keepBuf := dm_keepBuf m @ s, dm_keepErr := ''''\<rparr>, [])
         else (m, []))"

section \<open>What the keys offer\<close>

definition dash_canAbort :: "'s dash_model \<Rightarrow> bool" where
  "dash_canAbort m \<longleftrightarrow> dm_entries m \<noteq> [] \<and> verb_at_cursor m = ''start''"

definition actionOffered :: "'s dash_model \<Rightarrow> bool" where
  "actionOffered m \<longleftrightarrow> dm_entries m \<noteq> [] \<and> de_node (at_cursor m) \<noteq> None \<and> verb_at_cursor m = ''''"

definition nodeRunning :: "'s dash_model \<Rightarrow> bool" where
  "nodeRunning m \<longleftrightarrow>
     dm_cursor m < length (dm_results m) \<and>
     (let r = dm_results m ! dm_cursor m in dr_OK r \<and> dr_State r = ''running'')"

definition startOffered :: "'s dash_model \<Rightarrow> bool" where
  "startOffered m \<longleftrightarrow> actionOffered m \<and> \<not> nodeRunning m"

definition stopOffered :: "'s dash_model \<Rightarrow> bool" where
  "stopOffered m \<longleftrightarrow> actionOffered m \<and> nodeRunning m"

definition keepOffered :: "'s dash_model \<Rightarrow> bool" where
  "keepOffered m \<longleftrightarrow> dm_entries m \<noteq> [] \<and> verb_at_cursor m = '''' \<and> can_keep (at_cursor m)"

definition offered :: "bool \<Rightarrow> string \<Rightarrow> string list" where
  "offered b hint = (if b then [hint] else [])"

definition arrows :: string where
  "arrows = [CHR 0xE2, CHR 0x86, CHR 0x91, CHR 0xE2, CHR 0x86, CHR 0x93, CHR 0xE2, CHR 0x86, CHR 0x90, CHR 0xE2, CHR 0x86, CHR 0x92]"

definition grid_hints :: "'s dash_model \<Rightarrow> string list" where
  "grid_hints m =
     [arrows @ '' move''] @ offered (startOffered m) ''s start'' @ offered (keepOffered m) ''k keep'' @
     offered (dash_canAbort m) ''a abort'' @ offered (stopOffered m) ''x stop'' @ [''g format'', ''r refresh'', ''q quit'']"

definition detail_hints :: "'s dash_model \<Rightarrow> string list" where
  "detail_hints m =
     [''esc back''] @ offered (startOffered m) ''s start'' @ offered (keepOffered m) ''k keep'' @
     offered (stopOffered m) ''x stop'' @ offered (dash_canAbort m) ''a abort'' @ [''f follow'', ''w wrap'']"

definition gridKeys :: "'s dash_model \<Rightarrow> string" where
  "gridKeys m = join_with ''   '' (grid_hints m)"

definition detailKeys :: "'s dash_model \<Rightarrow> string" where
  "detailKeys m = join_with ''   '' (detail_hints m)"

section \<open>The detail of a node\<close>

definition log_tail_bytes :: int where
  "log_tail_bytes = 200 * 512"

definition startDetailLogRound :: "'s dash_model \<Rightarrow> 's dash_model \<times> dash_cmd list" where
  "startDetailLogRound m =
     (case de_node (at_cursor m) of
        None \<Rightarrow> (m, [])
      | Some d \<Rightarrow>
          if dm_logBusy m then (m, [])
          else (m\<lparr>dm_logBusy := True\<rparr>,
            [LogCmd (dm_logGen m) (dn_Name d) (dm_logOffset m) (if dm_logOffset m = -1 then log_tail_bytes else 0)]))"

definition dash_openDetail :: "'s dash_model \<Rightarrow> 's dash_model \<times> dash_cmd list" where
  "dash_openDetail m =
     (let e = at_cursor m;
          m = m\<lparr>dm_detail := True, dm_logGen := Suc (dm_logGen m), dm_logBusy := False, dm_logFollow := True,
                dm_logClip := False, dm_logOffset := -1, dm_logContent := '''', dm_logNote := ''''\<rparr>
      in if de_node e = None then
           (m\<lparr>dm_logNote := dash_outcome_text (dr_Outcome (de_standing e)) @ '': '' @ dr_Detail (de_standing e)\<rparr>, [])
         else (case startDetailLogRound m of (m', cs) \<Rightarrow> (m', DashLogTickCmd # cs)))"

definition fleetLogsNote :: "dash_log \<Rightarrow> string" where
  "fleetLogsNote r =
     (if dl_Outcome r \<noteq> OutcomeOK then
        (if dl_Outcome r = OutcomeUnsupported then
           ''this daemon does not serve /v1/logs'' @ dash @ ''upgrade spinloop on this node''
         else dash_outcome_text (Some (dl_Outcome r)) @ '': '' @ (case dl_Err r of None \<Rightarrow> '''' | Some e \<Rightarrow> e))
      else if dl_Missing r then ''no engine log'' @ dash @ ''nothing has run here yet''
      else if dl_Content r = '''' then ''no output''
      else '''')"

definition applyDetailLog :: "('s dash_model \<Rightarrow> int) \<Rightarrow> dash_log \<Rightarrow> 's dash_model \<Rightarrow> 's dash_model" where
  "applyDetailLog room r m =
     (let m = (if dl_Outcome r \<noteq> OutcomeOK then m
               else (let m = m\<lparr>dm_logOffset := dl_NextOffset r\<rparr>
                     in if dl_Content r = '''' then m
                        else m\<lparr>dm_logContent := lastLines (dm_logContent m @ dl_Content r) (room m)\<rparr>))
      in m\<lparr>dm_logNote := (if dm_logContent m = '''' then fleetLogsNote r else '''')\<rparr>)"

text \<open>The keys that the grid and the detail share.\<close>

definition key_start :: "int \<Rightarrow> 's dash_model \<Rightarrow> 's dash_model \<times> dash_cmd list" where
  "key_start now m = (if dm_entries m \<noteq> [] \<and> verb_at_cursor m = '''' then dash_beginAction now ''start'' m else (m, []))"

definition key_keep :: "'s dash_model \<Rightarrow> 's dash_model" where
  "key_keep m = (if keepOffered m then open_prompt m else m)"

definition key_abort :: "'s dash_model \<Rightarrow> 's dash_model" where
  "key_abort m = (if dm_entries m \<noteq> [] then abortAction m else m)"

definition key_stop :: "'s dash_model \<Rightarrow> 's dash_model" where
  "key_stop m = (if dm_entries m \<noteq> [] \<and> verb_at_cursor m = '''' then m\<lparr>dm_confirm := True\<rparr> else m)"

definition updateDetailKey :: "int \<Rightarrow> key \<Rightarrow> 's dash_model \<Rightarrow> 's dash_model \<times> dash_cmd list" where
  "updateDetailKey now k m =
     (let s = k_name k
      in if s = ''esc'' then (m\<lparr>dm_detail := False\<rparr>, [])
         else if s = ''f'' then (m\<lparr>dm_logFollow := \<not> dm_logFollow m\<rparr>, [])
         else if s = ''w'' then (m\<lparr>dm_logClip := \<not> dm_logClip m\<rparr>, [])
         else if s = ''s'' then key_start now m
         else if s = ''k'' then (key_keep m, [])
         else if s = ''a'' then (key_abort m, [])
         else if s = ''x'' then (key_stop m, [])
         else (m, []))"

section \<open>Updates\<close>

definition updateDashConfirm :: "int \<Rightarrow> key \<Rightarrow> 's dash_model \<Rightarrow> 's dash_model \<times> dash_cmd list" where
  "updateDashConfirm now k m =
     (let s = k_name k
      in if s = ''y'' then dash_beginAction now ''stop'' m
         else if s = ''n'' \<or> s = ''esc'' then (m\<lparr>dm_confirm := False\<rparr>, [])
         else if s = ''q'' \<or> s = ''ctrl+c'' then (m\<lparr>dm_confirm := False\<rparr>, [DashQuit])
         else (m, []))"

definition updateGridKey :: "int \<Rightarrow> key \<Rightarrow> 's dash_model \<Rightarrow> 's dash_model \<times> dash_cmd list" where
  "updateGridKey now k m =
     (let s = k_name k
      in if s = ''q'' \<or> s = ''ctrl+c'' then (m, [DashQuit])
         else if s = ''enter'' then (if dm_entries m \<noteq> [] then dash_openDetail m else (m, []))
         else if s = ''down'' then (cursor_to cursor_down m, [])
         else if s = ''up'' then (cursor_to (\<lambda>cols len. cursor_up cols) m, [])
         else if s = ''right'' then (cursor_to cursor_right m, [])
         else if s = ''left'' then (cursor_to (\<lambda>cols len. cursor_left cols) m, [])
         else if s = ''s'' then key_start now m
         else if s = ''k'' then (key_keep m, [])
         else if s = ''a'' then (key_abort m, [])
         else if s = ''x'' then (key_stop m, [])
         else if s = ''g'' then (m\<lparr>dm_gauge := \<not> dm_gauge m\<rparr>, [])
         else if s = ''r'' then startRounds now (m\<lparr>dm_nextReadAt := replicate (length (dm_entries m)) None\<rparr>)
         else if s = ''pgup'' then (dash_scroll (-1) m, [])
         else if s = ''pgdown'' then (dash_scroll 1 m, [])
         else (m, []))"

definition updateDashKey :: "int \<Rightarrow> key \<Rightarrow> 's dash_model \<Rightarrow> 's dash_model \<times> dash_cmd list" where
  "updateDashKey now k m =
     (if dm_keepPrompt m then updateKeepPromptKey now k m
      else if dm_confirm m then updateDashConfirm now k m
      else if dm_detail m then updateDetailKey now k m
      else updateGridKey now k m)"

definition dash_Update ::
  "('s dash_model \<Rightarrow> int) \<Rightarrow> int \<Rightarrow> 's dash_msg \<Rightarrow> 's dash_model \<Rightarrow> 's dash_model \<times> dash_cmd list" where
  "dash_Update room now msg m =
     (case msg of
        DashSize w h \<Rightarrow> (dash_keepVisible (m\<lparr>dm_width := w, dm_height := h\<rparr>), [])
      | DashTickMsg \<Rightarrow> (case startRounds now m of (m', cs) \<Rightarrow> (m', DashTickCmd # cs))
      | RefreshMsg cloud idx results \<Rightarrow>
          (let m = set_busy cloud False m in (m\<lparr>dm_results := take_readings (zip idx results) (dm_results m)\<rparr>, []))
      | DashSpinMsg \<Rightarrow> (m, if actionInFlight m then [DashSpinCmd] else [])
      | ProgressMsg name p \<Rightarrow> (action_progress name p m, [])
      | DoneMsg name v err state until \<Rightarrow> (action_done name v err state until m, [])
      | DashLogTickMsg \<Rightarrow>
          if \<not> dm_detail m \<or> de_node (at_cursor m) = None then (m, [])
          else if dm_logFollow m then (case startDetailLogRound m of (m', cs) \<Rightarrow> (m', DashLogTickCmd # cs))
          else (m, [DashLogTickCmd])
      | DashLogMsg gen r \<Rightarrow>
          (let m = m\<lparr>dm_logBusy := False\<rparr>
           in if \<not> dm_detail m \<or> gen \<noteq> dm_logGen m then (m, []) else (applyDetailLog room r m, []))
      | DashKey k \<Rightarrow> updateDashKey now k m)"

section \<open>A panel's health\<close>

definition formatDuration :: "int \<Rightarrow> string" where
  "formatDuration seconds =
     (let h = seconds div 3600; m = (seconds div 60) mod 60; s = seconds mod 60
      in if h > 0 then show_int h @ ''h '' @ show_int m @ ''m '' @ show_int s @ ''s''
         else if m > 0 then show_int m @ ''m '' @ show_int s @ ''s''
         else show_int s @ ''s'')"

definition dashStaleAfter :: "string \<Rightarrow> int" where
  "dashStaleAfter kind = 3 * (if kind = KindCloud then dashboardCloudRefreshInterval else dashboardRefreshInterval)"

definition dashReadingAge :: "'s dash_result \<Rightarrow> int \<Rightarrow> int \<Rightarrow> string" where
  "dashReadingAge r now stale =
     (case dr_At r of
        None \<Rightarrow> ''''
      | Some t \<Rightarrow>
          let age = time_sub now t
          in if stale \<le> 0 \<or> age < stale then ''''
             else ''  '' @ [CHR 0xC2, CHR 0xB7] @ '' '' @ formatDuration (age div second) @ '' ago'')"

datatype health_tier = DashHealthy | DashAttention | DashUnhealthy | DashNotServing | DashUnknown

definition dashHealthTierFor :: "'s dash_result \<Rightarrow> dash_action \<Rightarrow> bool \<Rightarrow> health_tier" where
  "dashHealthTierFor r a stale =
     (if da_verb a \<noteq> '''' then DashAttention
      else if dr_Outcome r = None then DashUnknown
      else if stale then DashUnknown
      else if \<not> dr_OK r \<or> dr_State r = ''crashed'' then DashUnhealthy
      else if dr_State r = ''running'' \<and> dr_Ready r = ''not-ready'' then DashAttention
      else if dr_State r = '''' then DashUnknown
      else if dr_State r \<in> {''idle'', ''stopped'', ''undeployed''} then DashNotServing
      else DashHealthy)"

end
