(* ===== verification/DashboardRun.thy ===== *)
theory DashboardRun
  imports Dashboard
begin

text \<open>
  The dashboard of theory Dashboard at work: its states together with the commands that it has out and the
  readings that have come, under any order of keys, sizes, answers and reported phases; and what always holds
  of them.
\<close>

section \<open>Runs\<close>

text \<open>The messages that a command's end may bring. Each reading of a round is stamped as its own call returns.\<close>

definition dash_answers :: "dash_cmd \<Rightarrow> 's dash_msg \<Rightarrow> bool" where
  "dash_answers c msg \<longleftrightarrow>
     (case msg of
        DashTickMsg \<Rightarrow> c = DashTickCmd
      | DashSpinMsg \<Rightarrow> c = DashSpinCmd
      | DashLogTickMsg \<Rightarrow> c = DashLogTickCmd
      | RefreshMsg g idx rs \<Rightarrow> c = RoundCmd g idx \<and> length rs = length idx \<and> list_all (\<lambda>r. dr_At r \<noteq> None) rs
      | DoneMsg name v err state until \<Rightarrow> c = CallCmd v name \<or> (v = ''keep'' \<and> (\<exists>d. c = KeepCmd d name))
      | DashLogMsg gen r \<Rightarrow> (case c of LogCmd gen' name offset limit \<Rightarrow> gen' = gen | _ \<Rightarrow> False)
      | _ \<Rightarrow> False)"

fun dash_outside :: "'s dash_msg \<Rightarrow> bool" where
  "dash_outside (DashKey k) = True"
| "dash_outside (DashSize w h) = True"
| "dash_outside _ = False"

text \<open>The readings that a message brings.\<close>

fun readings_of :: "'s dash_msg \<Rightarrow> (nat \<times> 's dash_result) list" where
  "readings_of (RefreshMsg g idx rs) = zip idx rs"
| "readings_of _ = []"

inductive dash_run ::
  "('s dash_model \<Rightarrow> int) \<Rightarrow> 's dash_entry list \<Rightarrow> 's dash_model \<Rightarrow> dash_cmd list \<Rightarrow> (nat \<times> 's dash_result) list \<Rightarrow> bool"
  for room es where
  start: "dash_Init now (new_dash path es) = (m, out) \<Longrightarrow> dash_run room es m out []"
| outside: "dash_run room es m out seen \<Longrightarrow> dash_outside msg \<Longrightarrow> dash_Update room now msg m = (m', new) \<Longrightarrow>
    dash_run room es m' (out @ new) seen"
| phase: "dash_run room es m out seen \<Longrightarrow> CallCmd ''start'' name \<in> set out \<Longrightarrow>
    dash_Update room now (ProgressMsg name p) m = (m', new) \<Longrightarrow> dash_run room es m' (out @ new) seen"
| answer: "dash_run room es m out seen \<Longrightarrow> c \<in> set out \<Longrightarrow> dash_answers c msg \<Longrightarrow> dash_Update room now msg m = (m', new) \<Longrightarrow>
    dash_run room es m' (remove1 c out @ new) (seen @ readings_of msg)"

section \<open>The grid\<close>

lemma dashCols_pos [simp]: "0 < dashCols w"
  by (simp add: dashCols_def Let_def)

lemma dashVisibleRows_pos [simp]: "0 < dashVisibleRows h"
  by (simp add: dashVisibleRows_def Let_def)

lemma dashClampScroll_range: "0 \<le> dashClampScroll s n w h \<and> dashClampScroll s n w h \<le> grid_top n w h"
  by (simp add: dashClampScroll_def grid_top_def Let_def)

lemma cursor_moves_within:
  assumes "c < len" "0 < cols"
  shows "cursor_down cols len c < len" "cursor_up cols c < len" "cursor_right cols len c < len" "cursor_left cols c < len"
  using assms by (auto simp: cursor_down_def cursor_up_def cursor_right_def cursor_left_def)

text \<open>A row above the last is full, so the window's last row is the last row of tiles.\<close>

lemma row_within_top:
  assumes "c < len"
  shows "int (c div dashCols w) \<le> grid_top len w h + dashVisibleRows h - 1"
proof -
  let ?cols = "dashCols w"
  have "c div ?cols \<le> (len - 1) div ?cols" by (rule div_le_mono) (use assms in simp)
  moreover have "(int len + int ?cols - 1) div int ?cols = int ((len - 1) div ?cols) + 1"
  proof -
    have "0 < len" using assms by simp
    then have "int len + int ?cols - 1 = int (len - 1) + int ?cols" by (cases len) simp_all
    moreover have "(int (len - 1) + int ?cols) div int ?cols = int (len - 1) div int ?cols + 1"
      by (rule div_add_self2) (use dashCols_pos [of w] in linarith)
    ultimately show ?thesis by (simp only: zdiv_int)
  qed
  ultimately have "int (c div ?cols) + 1 \<le> (int len + int ?cols - 1) div int ?cols" by linarith
  then show ?thesis unfolding grid_top_def Let_def by simp
qed

section \<open>The view\<close>

text \<open>What the place of the cursor and of the window depends on.\<close>

definition geo where
  "geo m = (dm_entries m, dm_results m, length (dm_actions m), dm_cursor m, dm_scrollRow m, dm_width m, dm_height m)"

definition dash_ok :: "'s dash_entry list \<Rightarrow> 's dash_model \<Rightarrow> bool" where
  "dash_ok es m \<longleftrightarrow>
     dm_entries m = es \<and> length (dm_results m) = length es \<and> length (dm_actions m) = length es \<and>
     (es \<noteq> [] \<longrightarrow> dm_cursor m < length es) \<and>
     0 \<le> dm_scrollRow m \<and> dm_scrollRow m \<le> grid_top (length es) (dash_effWidth m) (dash_effHeight m)"

lemma dash_ok_geo: "geo m' = geo m \<Longrightarrow> dash_ok es m' = dash_ok es m"
  by (simp add: geo_def dash_ok_def dash_effWidth_def dash_effHeight_def)

lemma scheduleRead_geo [simp]: "geo (scheduleRead i t m) = geo m"
  by (simp add: scheduleRead_def Let_def geo_def)

lemma set_busy_geo [simp]: "geo (set_busy g b m) = geo m"
  by (simp add: set_busy_def geo_def)

lemma fold_geo: "(\<And>x m. geo (f x m) = geo m) \<Longrightarrow> geo (fold f xs m) = geo m"
  by (induction xs arbitrary: m) simp_all

lemma refreshCloudGroup_geo [simp]: "geo (fst (refreshCloudGroup now g m)) = geo m"
  by (simp add: refreshCloudGroup_def Let_def fold_geo)

lemma startRounds_geo [simp]: "geo (fst (startRounds now m)) = geo m"
  by (simp add: startRounds_def case_prod_beta)

lemma issue_geo [simp]: "geo (fst (issue now v c m)) = geo m"
  by (simp add: issue_def Let_def scheduleRead_def geo_def)

lemma dash_beginAction_geo [simp]: "geo (fst (dash_beginAction now v m)) = geo m"
  by (simp add: dash_beginAction_def Let_def) (simp add: geo_def)

lemma beginKeep_geo [simp]: "geo (fst (beginKeep now d m)) = geo m"
  by (simp add: beginKeep_def Let_def) (simp add: geo_def)

lemma updateKeepPromptKey_geo [simp]: "geo (fst (updateKeepPromptKey now k m)) = geo m"
  by (simp add: updateKeepPromptKey_def close_prompt_def Let_def split: option.split) (simp add: geo_def)

lemma updateDashConfirm_geo [simp]: "geo (fst (updateDashConfirm now k m)) = geo m"
  by (simp add: updateDashConfirm_def Let_def) (simp add: geo_def)

lemma key_geo [simp]:
  "geo (fst (key_start now m)) = geo m" "geo (key_keep m) = geo m" "geo (key_abort m) = geo m" "geo (key_stop m) = geo m"
  by (simp_all add: key_start_def key_keep_def open_prompt_def key_abort_def abortAction_def key_stop_def)
    (simp_all add: geo_def)

lemma startDetailLogRound_geo [simp]: "geo (fst (startDetailLogRound m)) = geo m"
  by (simp add: startDetailLogRound_def split: option.split) (simp add: geo_def)

lemma dash_openDetail_geo [simp]: "geo (fst (dash_openDetail m)) = geo m"
  by (simp add: dash_openDetail_def Let_def case_prod_beta) (simp add: geo_def)

lemma applyDetailLog_geo [simp]: "geo (applyDetailLog room r m) = geo m"
  by (simp add: applyDetailLog_def Let_def geo_def)

lemma updateDetailKey_geo [simp]: "geo (fst (updateDetailKey now k m)) = geo m"
  by (simp add: updateDetailKey_def Let_def) (simp add: geo_def)

lemma action_progress_geo [simp]: "geo (action_progress name p m) = geo m"
  by (simp add: action_progress_def geo_def split: option.split)

lemma action_done_geo [simp]: "geo (action_done name v err state until m) = geo m"
  by (simp add: action_done_def scheduleRead_def Let_def geo_def split: option.split)

lemma take_readings_length [simp]: "length (take_readings irs rs) = length rs"
proof (induction irs arbitrary: rs)
  case (Cons ir irs)
  from Cons.IH [of "take_reading ir rs"] show ?case by (simp add: take_readings_def take_reading_def)
qed (simp add: take_readings_def)

lemma dash_keepVisible_ok:
  assumes "dm_entries m = es" "length (dm_results m) = length es" "length (dm_actions m) = length es"
    and "es \<noteq> [] \<longrightarrow> dm_cursor m < length es"
  shows "dash_ok es (dash_keepVisible m)"
proof -
  have f: "dash_effWidth (m\<lparr>dm_scrollRow := x\<rparr>) = dash_effWidth m" "dash_effHeight (m\<lparr>dm_scrollRow := x\<rparr>) = dash_effHeight m" for x
    by (simp_all add: dash_effWidth_def dash_effHeight_def)
  have "0 \<le> grid_top n w h" for n w h by (simp add: grid_top_def Let_def)
  then show ?thesis
    using assms dashClampScroll_range by (auto simp: dash_ok_def dash_keepVisible_def Let_def f)
qed

text \<open>After an arrow or a new size the cursor's row is in the window.\<close>

lemma dash_keepVisible_shows:
  assumes "dm_cursor m < length (dm_entries m)"
  defines "m' \<equiv> dash_keepVisible m"
  shows "dm_scrollRow m' \<le> int (dm_cursor m' div dashCols (dash_effWidth m'))"
    and "int (dm_cursor m' div dashCols (dash_effWidth m')) < dm_scrollRow m' + dashVisibleRows (dash_effHeight m')"
proof -
  have ne: "dm_entries m \<noteq> []" using assms(1) by auto
  have f: "dash_effWidth m' = dash_effWidth m" "dash_effHeight m' = dash_effHeight m" "dm_cursor m' = dm_cursor m"
    using ne by (simp_all add: m'_def dash_keepVisible_def Let_def dash_effWidth_def dash_effHeight_def)
  note r = row_within_top [OF assms(1), of "dash_effWidth m" "dash_effHeight m"]
  show "dm_scrollRow m' \<le> int (dm_cursor m' div dashCols (dash_effWidth m'))"
    unfolding f using ne dashVisibleRows_pos [of "dash_effHeight m"]
    by (auto simp: m'_def dash_keepVisible_def Let_def dashClampScroll_def)
  show "int (dm_cursor m' div dashCols (dash_effWidth m')) < dm_scrollRow m' + dashVisibleRows (dash_effHeight m')"
    unfolding f using ne r dashVisibleRows_pos [of "dash_effHeight m"]
    by (auto simp: m'_def dash_keepVisible_def Let_def dashClampScroll_def)
qed

lemma cursor_to_ok:
  assumes "dash_ok es m" "\<And>cols len c. c < len \<Longrightarrow> 0 < cols \<Longrightarrow> move cols len c < len"
  shows "dash_ok es (cursor_to move m)"
  unfolding cursor_to_def by (rule dash_keepVisible_ok) (use assms in \<open>simp_all add: dash_ok_def\<close>)

lemma dash_scroll_ok: "dash_ok es m \<Longrightarrow> dash_ok es (dash_scroll pages m)"
  using dashClampScroll_range by (auto simp: dash_ok_def dash_scroll_def dash_effWidth_def dash_effHeight_def)

lemma updateGridKey_ok: "dash_ok es m \<Longrightarrow> dash_ok es (fst (updateGridKey now k m))"
proof -
  assume ok: "dash_ok es m"
  have g: "geo (m\<lparr>dm_gauge := b\<rparr>) = geo m" "geo (m\<lparr>dm_nextReadAt := ts\<rparr>) = geo m" for b ts by (simp_all add: geo_def)
  note same = dash_ok_geo [OF startRounds_geo] dash_ok_geo [OF g(1)] dash_ok_geo [OF g(2)] dash_ok_geo [OF dash_openDetail_geo]
    dash_ok_geo [OF key_geo(1)] dash_ok_geo [OF key_geo(2)] dash_ok_geo [OF key_geo(3)] dash_ok_geo [OF key_geo(4)]
  show ?thesis
    using ok by (simp add: updateGridKey_def Let_def same dash_scroll_ok cursor_to_ok cursor_moves_within)
qed

lemma dash_Update_ok: "dash_ok es m \<Longrightarrow> dash_ok es (fst (dash_Update room now msg m))"
proof -
  assume ok: "dash_ok es m"
  have k: "dash_ok es (fst (updateDashKey now k m))" for k
    using ok updateGridKey_ok [OF ok]
    by (simp add: updateDashKey_def dash_ok_geo [OF updateKeepPromptKey_geo] dash_ok_geo [OF updateDashConfirm_geo]
        dash_ok_geo [OF updateDetailKey_geo])
  have s: "dash_ok es (dash_keepVisible (m\<lparr>dm_width := w, dm_height := h\<rparr>))" for w h
    by (rule dash_keepVisible_ok) (use ok in \<open>simp_all add: dash_ok_def\<close>)
  have r: "dash_ok es ((set_busy g False m)\<lparr>dm_results := take_readings irs (dm_results (set_busy g False m))\<rparr>)" for g irs
    using ok by (auto simp: set_busy_def dash_ok_def dash_effWidth_def dash_effHeight_def)
  have l: "geo (m\<lparr>dm_logBusy := b\<rparr>) = geo m" for b by (simp add: geo_def)
  show ?thesis
  proof (cases msg)
    case (RefreshMsg g idx rs)
    then show ?thesis using r by (simp add: dash_Update_def Let_def)
  next
    case (DashLogMsg gen rl)
    then show ?thesis
      using ok by (simp add: dash_Update_def Let_def dash_ok_geo [OF l] dash_ok_geo [OF applyDetailLog_geo])
  qed (use ok k s in \<open>simp_all add: dash_Update_def case_prod_beta dash_ok_geo [OF startRounds_geo]
      dash_ok_geo [OF action_progress_geo] dash_ok_geo [OF action_done_geo] dash_ok_geo [OF startDetailLogRound_geo]\<close>)
qed

section \<open>The modes\<close>

text \<open>A question, the prompt and the detail are open only over a node.\<close>

definition modes_ok :: "'s dash_model \<Rightarrow> bool" where
  "modes_ok m \<longleftrightarrow> (dm_confirm m \<or> dm_keepPrompt m \<or> dm_detail m \<longrightarrow> dm_entries m \<noteq> [])"

definition modes where
  "modes m = (dm_entries m, dm_confirm m, dm_keepPrompt m, dm_detail m)"

lemma modes_ok_same: "modes m' = modes m \<Longrightarrow> modes_ok m' = modes_ok m"
  by (simp add: modes_def modes_ok_def)

lemma scheduleRead_modes [simp]: "modes (scheduleRead i t m) = modes m"
  by (simp add: scheduleRead_def Let_def modes_def)

lemma fold_modes: "(\<And>x m. modes (f x m) = modes m) \<Longrightarrow> modes (fold f xs m) = modes m"
  by (induction xs arbitrary: m) simp_all

lemma refreshCloudGroup_modes [simp]: "modes (fst (refreshCloudGroup now g m)) = modes m"
  by (simp add: refreshCloudGroup_def Let_def fold_modes) (simp add: set_busy_def modes_def)

lemma startRounds_modes [simp]: "modes (fst (startRounds now m)) = modes m"
  by (simp add: startRounds_def case_prod_beta)

lemma issue_modes [simp]: "modes (fst (issue now v c m)) = modes m"
  by (simp add: issue_def Let_def scheduleRead_def modes_def)

lemma dash_beginAction_modes: "modes_ok m \<Longrightarrow> modes_ok (fst (dash_beginAction now v m))"
  by (simp add: dash_beginAction_def Let_def modes_ok_same [OF issue_modes]) (simp add: modes_ok_def)

lemma beginKeep_modes: "modes_ok m \<Longrightarrow> modes_ok (fst (beginKeep now d m))"
  by (simp add: beginKeep_def Let_def modes_ok_same [OF issue_modes]) (simp add: modes_ok_def)

lemma startDetailLogRound_modes [simp]: "modes (fst (startDetailLogRound m)) = modes m"
  by (simp add: startDetailLogRound_def modes_def split: option.split)

lemma key_modes:
  assumes "modes_ok m"
  shows "modes_ok (fst (key_start now m))" "modes_ok (key_keep m)" "modes_ok (key_abort m)" "modes_ok (key_stop m)"
  using assms dash_beginAction_modes [OF assms]
  by (simp_all add: key_start_def key_keep_def open_prompt_def key_abort_def abortAction_def key_stop_def)
    (simp_all add: modes_ok_def keepOffered_def)

lemma applyDetailLog_modes [simp]: "modes (applyDetailLog room r m) = modes m"
  by (simp add: applyDetailLog_def Let_def modes_def)

lemma dash_keepVisible_modes [simp]: "modes (dash_keepVisible m) = modes m"
  by (simp add: dash_keepVisible_def Let_def modes_def)

lemma action_modes [simp]:
  "modes (action_progress name p m) = modes m" "modes (action_done name v err state until m) = modes m"
  by (simp_all add: action_progress_def action_done_def scheduleRead_def Let_def modes_def split: option.split)

lemma updateDashKey_modes: "modes_ok m \<Longrightarrow> modes_ok (fst (updateDashKey now k m))"
proof -
  assume ok: "modes_ok m"
  have p: "modes_ok (fst (updateKeepPromptKey now k m))"
    using ok beginKeep_modes [OF ok]
    by (simp add: updateKeepPromptKey_def close_prompt_def Let_def split: option.split) (simp add: modes_ok_def)
  have c: "modes_ok (fst (updateDashConfirm now k m))"
    using ok dash_beginAction_modes [OF ok] by (simp add: updateDashConfirm_def Let_def) (simp add: modes_ok_def)
  have d: "modes_ok (fst (updateDetailKey now k m))"
    using ok key_modes [OF ok] by (simp add: updateDetailKey_def Let_def) (simp add: modes_ok_def)
  have o: "dm_entries m \<noteq> [] \<Longrightarrow> modes_ok (fst (dash_openDetail m))"
    by (simp add: dash_openDetail_def Let_def case_prod_beta modes_ok_same [OF startDetailLogRound_modes]) (simp add: modes_ok_def)
  have f: "modes (m\<lparr>dm_cursor := j\<rparr>) = modes m" "modes (m\<lparr>dm_gauge := b\<rparr>) = modes m" "modes (m\<lparr>dm_nextReadAt := ts\<rparr>) = modes m"
    "modes (m\<lparr>dm_scrollRow := r\<rparr>) = modes m" for j b ts r
    by (simp_all add: modes_def)
  have g: "modes_ok (fst (updateGridKey now k m))"
    using ok o key_modes [OF ok]
    by (simp add: updateGridKey_def Let_def cursor_to_def dash_scroll_def modes_ok_same [OF dash_keepVisible_modes]
        modes_ok_same [OF startRounds_modes] f [THEN modes_ok_same])
  show ?thesis using p c d g by (simp add: updateDashKey_def)
qed

lemma dash_Update_modes: "modes_ok m \<Longrightarrow> modes_ok (fst (dash_Update room now msg m))"
proof -
  assume ok: "modes_ok m"
  have f: "modes (m\<lparr>dm_width := w, dm_height := h\<rparr>) = modes m" "modes (m\<lparr>dm_logBusy := b\<rparr>) = modes m"
    "modes (let m = set_busy g b m in m\<lparr>dm_results := take_readings irs (dm_results m)\<rparr>) = modes m" for w h b g irs
    by (simp_all add: modes_def set_busy_def Let_def)
  show ?thesis
    using ok updateDashKey_modes [OF ok]
    by (cases msg) (simp_all add: dash_Update_def case_prod_beta Let_def modes_ok_same [OF dash_keepVisible_modes]
        modes_ok_same [OF startRounds_modes] modes_ok_same [OF startDetailLogRound_modes] modes_ok_same [OF action_modes(1)]
        modes_ok_same [OF action_modes(2)] modes_ok_same [OF applyDetailLog_modes] modes_ok_same [OF f(1)]
        modes_ok_same [OF f(2)] modes_ok_same [OF f(3) [unfolded Let_def]])
qed

section \<open>The commands that are out\<close>

definition is_round :: "bool \<Rightarrow> dash_cmd \<Rightarrow> bool" where
  "is_round g c \<longleftrightarrow> (case c of RoundCmd g' idx \<Rightarrow> g' = g | _ \<Rightarrow> False)"

definition on_node :: "string \<Rightarrow> dash_cmd \<Rightarrow> bool" where
  "on_node name c \<longleftrightarrow> (case c of CallCmd v n \<Rightarrow> n = name | KeepCmd d n \<Rightarrow> n = name | _ \<Rightarrow> False)"

definition call_verb :: "dash_cmd \<Rightarrow> string" where
  "call_verb c = (case c of CallCmd v n \<Rightarrow> v | KeepCmd d n \<Rightarrow> ''keep'' | _ \<Rightarrow> '''')"

text \<open>A round reads each of its nodes once, and only live nodes of its group.\<close>

definition round_live :: "'s dash_entry list \<Rightarrow> dash_cmd \<Rightarrow> bool" where
  "round_live es c \<longleftrightarrow>
     (case c of
        RoundCmd g idx \<Rightarrow>
          distinct idx \<and> (\<forall>i \<in> set idx. i < length es \<and> de_node (es ! i) \<noteq> None \<and> (de_kind (es ! i) = KindCloud) = g)
      | _ \<Rightarrow> True)"

definition verb_slot :: "dash_action \<Rightarrow> string list" where
  "verb_slot a = (if da_verb a = '''' then [] else [da_verb a])"

definition dash_out_ok :: "nat \<Rightarrow> 's dash_entry list \<Rightarrow> 's dash_model \<Rightarrow> dash_cmd list \<Rightarrow> bool" where
  "dash_out_ok ticks es m out \<longleftrightarrow>
     (\<forall>g. length (filter (is_round g) out) = of_bool (group_busy g m)) \<and>
     (\<forall>i < length es. map call_verb (filter (on_node (de_name (es ! i))) out) = verb_slot (dm_actions m ! i)) \<and>
     count_list out DashTickCmd = ticks \<and> list_all (round_live es) out"

text \<open>What these facts depend on, and the commands that do not matter to them.\<close>

definition slots where
  "slots m = (dm_fastBusy m, dm_slowBusy m, map da_verb (dm_actions m))"

definition quiet :: "dash_cmd \<Rightarrow> bool" where
  "quiet c \<longleftrightarrow> (case c of DashTickCmd \<Rightarrow> False | RoundCmd g idx \<Rightarrow> False | CallCmd v n \<Rightarrow> False | KeepCmd d n \<Rightarrow> False | _ \<Rightarrow> True)"

lemma quiet_none:
  "quiet c \<Longrightarrow> \<not> is_round g c" "quiet c \<Longrightarrow> \<not> on_node name c" "quiet c \<Longrightarrow> c \<noteq> DashTickCmd" "quiet c \<Longrightarrow> round_live es c"
  by (cases c; simp add: quiet_def is_round_def on_node_def round_live_def)+

lemma list_quiet_none:
  assumes "list_all quiet cs"
  shows "filter (is_round g) cs = []" "filter (on_node name) cs = []" "count_list cs DashTickCmd = 0" "list_all (round_live es) cs"
  using assms by (induction cs) (auto simp: quiet_none)

lemma dash_out_ok_slots:
  assumes "dash_out_ok t es m out" "slots m' = slots m" "list_all quiet new" "length (dm_actions m) = length es"
  shows "dash_out_ok t es m' (out @ new)"
proof -
  have b: "group_busy g m' = group_busy g m" for g using assms(2) by (simp add: group_busy_def slots_def)
  have v: "map da_verb (dm_actions m') = map da_verb (dm_actions m)" using assms(2) by (simp add: slots_def)
  then have "length (dm_actions m') = length (dm_actions m)" by (metis length_map)
  with v assms(4) have "verb_slot (dm_actions m' ! i) = verb_slot (dm_actions m ! i)" if "i < length es" for i
    using that by (metis nth_map verb_slot_def)
  then show ?thesis
    using assms(1) by (simp add: dash_out_ok_def b list_quiet_none [OF assms(3)])
qed

lemma dash_out_ok_tick: "dash_out_ok t es m out \<Longrightarrow> dash_out_ok (Suc t) es m (out @ [DashTickCmd])"
  by (simp add: dash_out_ok_def is_round_def on_node_def round_live_def)

lemma scheduleRead_slots [simp]: "slots (scheduleRead i t m) = slots m"
  by (simp add: scheduleRead_def Let_def slots_def)

lemma fold_slots: "(\<And>x m. slots (f x m) = slots m) \<Longrightarrow> slots (fold f xs m) = slots m"
  by (induction xs arbitrary: m) simp_all

lemma slots_busy: "slots m' = slots m \<Longrightarrow> group_busy g m' = group_busy g m"
  by (simp add: slots_def group_busy_def)

lemma group_busy_set [simp]: "group_busy g (set_busy g' b m) = (if g' = g then b else group_busy g m)"
  by (auto simp: group_busy_def set_busy_def)

lemma set_busy_actions [simp]: "dm_actions (set_busy g b m) = dm_actions m" "dm_entries (set_busy g b m) = dm_entries m"
  by (simp_all add: set_busy_def)

lemma fold_scheduleRead_actions [simp]:
  "dm_actions (fold (\<lambda>i m. scheduleRead i (t i m) m) idx m) = dm_actions m"
  by (induction idx arbitrary: m) (simp_all add: scheduleRead_def Let_def)

lemma round_nodes_live:
  assumes "dm_entries m = es"
  shows "round_live es (RoundCmd g (round_nodes now m g))"
  using assms by (auto simp: round_live_def round_nodes_def Let_def)

lemma refreshCloudGroup_out:
  assumes "dash_out_ok t es m out" "dm_entries m = es"
  shows "dash_out_ok t es (fst (refreshCloudGroup now g m)) (out @ snd (refreshCloudGroup now g m))"
proof (cases "round_nodes now m g = [] \<or> group_busy g m")
  case True
  then show ?thesis using assms(1) by (simp add: refreshCloudGroup_def Let_def)
next
  case False
  let ?m = "fold (\<lambda>i m. scheduleRead i (Some (now + node_interval m i)) m) (round_nodes now m g) (set_busy g True m)"
  have r: "refreshCloudGroup now g m = (?m, [RoundCmd g (round_nodes now m g)])"
    using False by (simp add: refreshCloudGroup_def Let_def)
  have s: "slots ?m = slots (set_busy g True m)" by (rule fold_slots) (rule scheduleRead_slots)
  have b: "group_busy g' ?m = (if g = g' then True else group_busy g' m)" for g'
    unfolding slots_busy [OF s] by simp
  have a: "dm_actions ?m = dm_actions m" by simp
  show ?thesis
    using assms(1) False round_nodes_live [OF assms(2), of g now]
    unfolding r dash_out_ok_def fst_conv snd_conv a by (auto simp: b is_round_def on_node_def)
qed

lemma startRounds_out:
  assumes "dash_out_ok t es m out" "dm_entries m = es"
  shows "dash_out_ok t es (fst (startRounds now m)) (out @ snd (startRounds now m))"
proof -
  have e: "dm_entries (fst (refreshCloudGroup now False m)) = es"
    using refreshCloudGroup_geo [of now False m] assms(2) by (simp add: geo_def)
  show ?thesis
    using refreshCloudGroup_out [OF refreshCloudGroup_out [OF assms] e]
    by (simp add: startRounds_def case_prod_beta)
qed

lemma issue_out:
  assumes ok: "dash_out_ok t es m out" "dash_ok es m" and c: "dm_cursor m < length es" and free: "verb_at_cursor m = ''''"
    and v: "v \<noteq> ''''" and d: "distinct (map de_name es)"
    and cmd: "cmd = CallCmd v (de_name (at_cursor m)) \<or> (\<exists>dur. cmd = KeepCmd dur (de_name (at_cursor m)) \<and> v = ''keep'')"
  shows "dash_out_ok t es (fst (issue now v cmd m)) (out @ snd (issue now v cmd m))"
proof -
  let ?m = "fst (issue now v cmd m)" and ?new = "snd (issue now v cmd m)" and ?c = "dm_cursor m"
  have e: "dm_entries m = es" "length (dm_actions m) = length es" using ok(2) by (simp_all add: dash_ok_def)
  have n: "at_cursor m = es ! ?c" by (simp add: at_cursor_def e)
  have b: "group_busy g ?m = group_busy g m" for g
    by (simp add: issue_def Let_def scheduleRead_def group_busy_def)
  have a: "dm_actions ?m = (dm_actions m)[?c := no_action\<lparr>da_verb := v, da_since := Some now\<rparr>]"
    by (simp add: issue_def Let_def scheduleRead_def)
  obtain spin where new: "?new = cmd # spin" "list_all quiet spin"
    by (simp add: issue_def Let_def quiet_def)
  have k: "\<not> is_round g cmd" "on_node name cmd \<longleftrightarrow> name = de_name (es ! ?c)" "call_verb cmd = v" "cmd \<noteq> DashTickCmd" "round_live es cmd" for g name
    using cmd by (auto simp: n is_round_def on_node_def call_verb_def round_live_def)
  have "map call_verb (filter (on_node (de_name (es ! i))) (out @ ?new)) = verb_slot (dm_actions ?m ! i)" if i: "i < length es" for i
  proof (cases "i = ?c")
    case True
    have "map call_verb (filter (on_node (de_name (es ! ?c))) out) = []"
      using ok(1) c free by (simp add: dash_out_ok_def verb_slot_def verb_at_cursor_def)
    then show ?thesis using True c v by (simp add: new k list_quiet_none [OF new(2)] a e verb_slot_def)
  next
    case False
    then have "de_name (es ! i) \<noteq> de_name (es ! ?c)" using d i c by (simp add: distinct_conv_nth)
    then show ?thesis using ok(1) i False by (simp add: new k list_quiet_none [OF new(2)] a dash_out_ok_def)
  qed
  then show ?thesis
    using ok(1) by (simp add: dash_out_ok_def b new k list_quiet_none [OF new(2)])
qed

text \<open>An update that is right for whatever is out: what it takes on it has as one command more.\<close>

definition right_step :: "'s dash_entry list \<Rightarrow> 's dash_model \<Rightarrow> 's dash_model \<times> dash_cmd list \<Rightarrow> bool" where
  "right_step es m r \<longleftrightarrow> (\<forall>t out. dash_out_ok t es m out \<longrightarrow> dash_out_ok t es (fst r) (out @ snd r))"

lemma right_step_quiet:
  assumes "length (dm_actions m) = length es" "slots m' = slots m" "list_all quiet new"
  shows "right_step es m (m', new)"
  using dash_out_ok_slots [OF _ assms(2,3,1)] by (simp add: right_step_def)

lemma right_step_slots: "slots m' = slots m \<Longrightarrow> length (dm_actions m) = length es \<Longrightarrow> right_step es m' r \<Longrightarrow> right_step es m r"
  unfolding right_step_def using dash_out_ok_slots [of _ es m _ m' "[]"] by force

lemma dash_beginAction_right:
  assumes ok: "dash_ok es m" and c: "dm_cursor m < length es" and d: "distinct (map de_name es)" and v: "v \<noteq> ''''"
  shows "right_step es m (dash_beginAction now v m)"
proof -
  let ?m = "m\<lparr>dm_confirm := False\<rparr>"
  have l: "length (dm_actions m) = length es" using ok by (simp add: dash_ok_def)
  have ok': "dash_ok es ?m" using dash_ok_geo [of ?m m] ok by (simp add: geo_def)
  have "right_step es ?m (issue now v (CallCmd v (de_name (at_cursor m))) ?m)" if "verb_at_cursor ?m = ''''"
    unfolding right_step_def using issue_out [OF _ ok' _ that v d] c by (simp add: at_cursor_def)
  then have i: "verb_at_cursor ?m = '''' \<Longrightarrow> right_step es m (issue now v (CallCmd v (de_name (at_cursor m))) ?m)"
    by (intro right_step_slots [of ?m m]) (simp_all add: slots_def l)
  have q: "right_step es m (m\<lparr>dm_confirm := False, dm_statusLine := s\<rparr>, [])" for s
    by (rule right_step_quiet) (simp_all add: slots_def l)
  show ?thesis using i q by (simp add: dash_beginAction_def Let_def)
qed

lemma beginKeep_right:
  assumes ok: "dash_ok es m" and c: "dm_cursor m < length es" and d: "distinct (map de_name es)"
  shows "right_step es m (beginKeep now dur m)"
proof -
  let ?m = "m\<lparr>dm_keepPrompt := False, dm_keepBuf := '''', dm_keepErr := ''''\<rparr>"
  have l: "length (dm_actions m) = length es" using ok by (simp add: dash_ok_def)
  have ok': "dash_ok es ?m" using dash_ok_geo [of ?m m] ok by (simp add: geo_def)
  have "right_step es ?m (issue now ''keep'' (KeepCmd dur (de_name (at_cursor m))) ?m)" if "verb_at_cursor ?m = ''''"
    unfolding right_step_def using issue_out [OF _ ok' _ that _ d] c by (simp add: at_cursor_def)
  then have i: "verb_at_cursor ?m = '''' \<Longrightarrow> right_step es m (issue now ''keep'' (KeepCmd dur (de_name (at_cursor m))) ?m)"
    by (intro right_step_slots [of ?m m]) (simp_all add: slots_def l)
  have q: "right_step es m (m\<lparr>dm_keepPrompt := False, dm_keepBuf := '''', dm_keepErr := '''', dm_statusLine := s\<rparr>, [])" for s
    by (rule right_step_quiet) (simp_all add: slots_def l)
  show ?thesis using i q by (simp add: beginKeep_def Let_def)
qed

lemma startDetailLogRound_quiet:
  "slots (fst (startDetailLogRound m)) = slots m" "list_all quiet (snd (startDetailLogRound m))"
  by (simp_all add: startDetailLogRound_def slots_def quiet_def split: option.split)

lemma dash_openDetail_quiet:
  "slots (fst (dash_openDetail m)) = slots m" "list_all quiet (snd (dash_openDetail m))"
  by (simp_all add: dash_openDetail_def Let_def case_prod_beta startDetailLogRound_quiet) (simp_all add: slots_def quiet_def)

lemma abortAction_slots [simp]: "slots (abortAction m) = slots m"
proof -
  have "map da_verb ((dm_actions m)[i := (dm_actions m ! i)\<lparr>da_aborted := True\<rparr>]) = map da_verb (dm_actions m)" for i
    by (cases "i < length (dm_actions m)") (simp_all add: map_update list_update_same_conv list_update_beyond)
  then show ?thesis by (simp add: abortAction_def slots_def)
qed

lemma action_progress_slots [simp]: "slots (action_progress name p m) = slots m"
proof -
  have "map da_verb ((dm_actions m)[i := (dm_actions m ! i)\<lparr>da_phase := Some p\<rparr>]) = map da_verb (dm_actions m)" for i
    by (cases "i < length (dm_actions m)") (simp_all add: map_update list_update_same_conv list_update_beyond)
  then show ?thesis by (simp add: action_progress_def slots_def split: option.split)
qed

lemma startRounds_right:
  assumes "dm_entries m = es"
  shows "right_step es m (startRounds now m)"
  unfolding right_step_def using startRounds_out [OF _ assms] by blast

lemma key_start_right:
  assumes "dash_ok es m" "distinct (map de_name es)"
  shows "right_step es m (key_start now m)"
proof -
  have "right_step es m (m, [])" by (rule right_step_quiet) (use assms in \<open>simp_all add: dash_ok_def\<close>)
  moreover have "dm_entries m \<noteq> [] \<Longrightarrow> right_step es m (dash_beginAction now ''start'' m)"
    by (rule dash_beginAction_right) (use assms in \<open>simp_all add: dash_ok_def\<close>)
  ultimately show ?thesis by (simp add: key_start_def)
qed

lemma key_slots:
  "slots (key_keep m) = slots m" "slots (key_abort m) = slots m" "slots (key_stop m) = slots m"
  by (simp_all add: key_keep_def open_prompt_def key_abort_def key_stop_def) (simp_all add: slots_def)

lemma updateDashKey_right:
  assumes ok: "dash_ok es m" "modes_ok m" and d: "distinct (map de_name es)"
  shows "right_step es m (updateDashKey now k m)"
proof -
  have e: "dm_entries m = es" and l: "length (dm_actions m) = length es" using ok(1) by (simp_all add: dash_ok_def)
  have c: "es \<noteq> [] \<Longrightarrow> dm_cursor m < length es" using ok(1) by (simp add: dash_ok_def)
  have q: "right_step es m (m', new)" if "slots m' = slots m" "list_all quiet new" for m' new
    by (rule right_step_quiet [OF l that])
  have [simp]: "slots (m\<lparr>dm_keepErr := s\<rparr>) = slots m" "slots (m\<lparr>dm_keepBuf := s, dm_keepErr := s'\<rparr>) = slots m"
    "slots (close_prompt m) = slots m" "slots (m\<lparr>dm_confirm := b\<rparr>) = slots m" "slots (m\<lparr>dm_detail := b\<rparr>) = slots m"
    "slots (m\<lparr>dm_logFollow := b\<rparr>) = slots m" "slots (m\<lparr>dm_logClip := b\<rparr>) = slots m" "slots (m\<lparr>dm_gauge := b\<rparr>) = slots m"
    "slots (m\<lparr>dm_nextReadAt := ts\<rparr>) = slots m" "slots (cursor_to move m) = slots m" "slots (dash_scroll pages m) = slots m"
    for s s' b ts move pages
    by (simp_all add: slots_def close_prompt_def cursor_to_def dash_keepVisible_def dash_scroll_def Let_def)
  have [simp]: "quiet DashQuit" by (simp add: quiet_def)
  have p: "right_step es m (updateKeepPromptKey now k m)" if "dm_keepPrompt m"
  proof -
    have "es \<noteq> []" using ok(2) that e by (simp add: modes_ok_def)
    then show ?thesis
      using beginKeep_right [OF ok(1) c d] by (auto simp: updateKeepPromptKey_def Let_def intro!: q split: option.split)
  qed
  have y: "right_step es m (updateDashConfirm now k m)" if "dm_confirm m"
  proof -
    have "es \<noteq> []" using ok(2) that e by (simp add: modes_ok_def)
    then show ?thesis
      using dash_beginAction_right [OF ok(1) c d, of "''stop''"] by (auto simp: updateDashConfirm_def Let_def intro!: q)
  qed
  have s: "right_step es m (key_start now m)" by (rule key_start_right [OF ok(1) d])
  have t: "right_step es m (updateDetailKey now k m)"
    using s by (auto simp: updateDetailKey_def Let_def key_slots intro!: q)
  have r: "right_step es m (startRounds now (m\<lparr>dm_nextReadAt := ts\<rparr>))" for ts
    by (rule right_step_slots [of "m\<lparr>dm_nextReadAt := ts\<rparr>"]) (simp_all add: l e startRounds_right)
  have o: "right_step es m (dash_openDetail m)"
    using q [OF dash_openDetail_quiet(1) dash_openDetail_quiet(2)] by (metis prod.collapse)
  have g: "right_step es m (updateGridKey now k m)"
    using s r o by (auto simp: updateGridKey_def Let_def key_slots intro!: q)
  show ?thesis using p y t g by (simp add: updateDashKey_def)
qed

text \<open>An answer: the command that brought it is gone, and what it had taken on is given back.\<close>

lemma quiet_answered:
  assumes "dash_out_ok t es m out" "quiet c"
  shows "dash_out_ok t es m (remove1 c out)"
  using assms by (simp add: dash_out_ok_def filter_remove1_other quiet_none count_list_remove1 list_all_remove1)

lemma tick_answered:
  assumes "dash_out_ok t es m out" "DashTickCmd \<in> set out"
  shows "dash_out_ok (t - 1) es m (remove1 DashTickCmd out)"
  using assms by (simp add: dash_out_ok_def filter_remove1_other is_round_def on_node_def count_list_remove1 list_all_remove1)

lemma round_answered:
  assumes "dash_out_ok t es m out" "RoundCmd g idx \<in> set out"
  shows "dash_out_ok t es (set_busy g False m) (remove1 (RoundCmd g idx) out)"
proof -
  let ?c = "RoundCmd g idx"
  have "?c \<in> set (filter (is_round g) out)" using assms(2) by (simp add: is_round_def)
  then have "0 < length (filter (is_round g) out)" by (cases "filter (is_round g) out") simp_all
  moreover have "length (filter (is_round g) out) = of_bool (group_busy g m)" using assms(1) unfolding dash_out_ok_def by blast
  ultimately have b: "length (filter (is_round g) out) = 1" by (cases "group_busy g m") simp_all
  have "length (filter (is_round g') (remove1 ?c out)) = of_bool (group_busy g' (set_busy g False m))" for g'
  proof (cases "g' = g")
    case True
    then show ?thesis using b length_filter_remove1 [of "is_round g" ?c out] assms(2) by (simp add: is_round_def)
  next
    case False
    then show ?thesis using assms(1) by (simp add: dash_out_ok_def filter_remove1_other is_round_def)
  qed
  then show ?thesis
    using assms(1) by (simp add: dash_out_ok_def filter_remove1_other on_node_def count_list_remove1 list_all_remove1)
qed

lemma dash_indexOf_self:
  assumes "distinct (map de_name (dm_entries m))" "i < length (dm_entries m)"
  shows "dash_indexOf (de_name (dm_entries m ! i)) m = Some i"
proof -
  let ?P = "\<lambda>j. de_name (dm_entries m ! j) = de_name (dm_entries m ! i)"
  have "find ?P [0..<length (dm_entries m)] \<noteq> None" using assms(2) by (auto simp: find_None_iff)
  then obtain j where j: "find ?P [0..<length (dm_entries m)] = Some j" by blast
  then have "j < length (dm_entries m)" "?P j" by (auto simp: find_Some_iff)
  then have "j = i" using assms by (simp add: distinct_conv_nth) metis
  then show ?thesis using j by (simp add: dash_indexOf_def)
qed

lemma dash_indexOf_Some:
  assumes "dash_indexOf name m = Some i"
  shows "i < length (dm_entries m)" "de_name (dm_entries m ! i) = name"
  using assms by (auto simp: dash_indexOf_def find_Some_iff)

lemma call_answered:
  assumes ok: "dash_out_ok t es m out" "dash_ok es m" and d: "distinct (map de_name es)" and c: "c \<in> set out" "on_node name c"
  shows "dash_out_ok t es (action_done name v err state until m) (remove1 c out)"
proof -
  let ?m = "action_done name v err state until m"
  have e: "dm_entries m = es" "length (dm_actions m) = length es" using ok(2) by (simp_all add: dash_ok_def)
  have b: "group_busy g ?m = group_busy g m" for g
    by (simp add: action_done_def scheduleRead_def Let_def group_busy_def split: option.split)
  have k: "\<not> is_round g c" "c \<noteq> DashTickCmd" "on_node n c \<longleftrightarrow> n = name" for g n
    using c(2) by (cases c; auto simp: is_round_def on_node_def)+
  have "map call_verb (filter (on_node (de_name (es ! i))) (remove1 c out)) = verb_slot (dm_actions ?m ! i)" if i: "i < length es" for i
  proof (cases "de_name (es ! i) = name")
    case True
    have "dash_indexOf name m = Some i" using dash_indexOf_self [of m i] d i True by (simp add: e)
    then have a: "dm_actions ?m ! i = no_action" by (simp add: action_done_def scheduleRead_def Let_def e i)
    have v: "map call_verb (filter (on_node name) out) = verb_slot (dm_actions m ! i)" using ok(1) i True by (auto simp: dash_out_ok_def)
    have m: "c \<in> set (filter (on_node name) out)" using c by simp
    then have "filter (on_node name) out \<noteq> []" by (metis empty_iff list.set(1))
    moreover have "length (filter (on_node name) out) = length (verb_slot (dm_actions m ! i))" using arg_cong [OF v, of length] by simp
    ultimately have "length (filter (on_node name) out) = Suc 0" by (cases "da_verb (dm_actions m ! i) = ''''") (simp_all add: verb_slot_def)
    then obtain x where "filter (on_node name) out = [x]" by (auto simp: length_Suc_conv)
    with m have "filter (on_node name) (remove1 c out) = []" by (simp add: filter_remove1)
    then show ?thesis using True by (simp add: a verb_slot_def no_action_def)
  next
    case False
    have "dm_actions ?m ! i = dm_actions m ! i"
    proof (cases "dash_indexOf name m")
      case (Some j)
      then have "j \<noteq> i" using False dash_indexOf_Some(2) [of name m j] by (auto simp: e)
      then show ?thesis using Some by (simp add: action_done_def scheduleRead_def Let_def)
    qed (simp add: action_done_def)
    then show ?thesis using ok(1) i False by (simp add: dash_out_ok_def filter_remove1_other k)
  qed
  then show ?thesis
    using ok(1) by (simp add: dash_out_ok_def b filter_remove1_other k count_list_remove1 list_all_remove1)
qed

section \<open>What holds on every run\<close>

lemma dash_Update_outside:
  assumes "dash_ok es m" "modes_ok m" "distinct (map de_name es)" "dash_outside msg"
  shows "right_step es m (dash_Update room now msg m)"
proof (cases msg)
  case (DashSize w h)
  have "slots (dash_keepVisible (m\<lparr>dm_width := w, dm_height := h\<rparr>)) = slots m"
    by (simp add: slots_def dash_keepVisible_def Let_def)
  then have "right_step es m (dash_keepVisible (m\<lparr>dm_width := w, dm_height := h\<rparr>), [])"
    by (rule right_step_quiet [rotated]) (use assms(1) in \<open>simp_all add: dash_ok_def\<close>)
  then show ?thesis by (simp add: DashSize dash_Update_def)
qed (use assms updateDashKey_right [OF assms(1-3)] in \<open>simp_all add: dash_Update_def\<close>)

lemma dash_Update_answer:
  assumes out: "dash_out_ok 1 es m out" and ok: "dash_ok es m" and d: "distinct (map de_name es)"
    and c: "c \<in> set out" "dash_answers c msg"
  shows "dash_out_ok 1 es (fst (dash_Update room now msg m)) (remove1 c out @ snd (dash_Update room now msg m))"
proof -
  have e: "dm_entries m = es" and l: "length (dm_actions m) = length es" using ok by (simp_all add: dash_ok_def)
  show ?thesis
  proof (cases msg)
    case DashTickMsg
    then have t: "c = DashTickCmd" using c by (simp add: dash_answers_def)
    have "dash_out_ok 1 es m (remove1 c out @ [DashTickCmd])"
      using dash_out_ok_tick [OF tick_answered [OF out]] c t by simp
    from startRounds_out [OF this e] show ?thesis by (simp add: DashTickMsg dash_Update_def case_prod_beta)
  next
    case DashSpinMsg
    then have "quiet c" using c by (simp add: dash_answers_def quiet_def)
    from quiet_answered [OF out this] show ?thesis
      by (simp add: DashSpinMsg dash_Update_def dash_out_ok_slots [OF _ refl _ l] quiet_def)
  next
    case DashLogTickMsg
    then have "quiet c" using c by (simp add: dash_answers_def quiet_def)
    note q = quiet_answered [OF out this]
    have qt: "list_all quiet [DashLogTickCmd]" by (simp add: quiet_def)
    have "dash_out_ok 1 es (fst (startDetailLogRound m)) (remove1 c out @ DashLogTickCmd # snd (startDetailLogRound m))"
      by (rule dash_out_ok_slots [OF q startDetailLogRound_quiet(1) _ l]) (simp add: startDetailLogRound_quiet quiet_def)
    then show ?thesis
      using q dash_out_ok_slots [OF q refl qt l] by (simp add: DashLogTickMsg dash_Update_def case_prod_beta)
  next
    case (RefreshMsg g idx rs)
    then have r: "c = RoundCmd g idx" using c by (simp add: dash_answers_def)
    let ?m = "set_busy g False m"
    have "dash_out_ok 1 es (?m\<lparr>dm_results := x\<rparr>) (remove1 c out @ [])" for x
      by (rule dash_out_ok_slots [OF round_answered [OF out, of g idx, folded r]]) (use c l in \<open>simp_all add: slots_def\<close>)
    then show ?thesis by (simp add: RefreshMsg dash_Update_def Let_def)
  next
    case (DoneMsg name v err state until)
    then have "on_node name c" using c by (auto simp: dash_answers_def on_node_def)
    from call_answered [OF out ok d c(1) this] show ?thesis by (simp add: DoneMsg dash_Update_def)
  next
    case (DashLogMsg gen rl)
    then have "quiet c" using c by (auto simp: dash_answers_def quiet_def split: dash_cmd.splits)
    note q = quiet_answered [OF out this]
    have s: "slots (m\<lparr>dm_logBusy := False\<rparr>) = slots m" "slots (applyDetailLog room rl (m\<lparr>dm_logBusy := False\<rparr>)) = slots m"
      by (simp_all add: slots_def applyDetailLog_def Let_def)
    then show ?thesis
      using dash_out_ok_slots [OF q s(1), of "[]"] dash_out_ok_slots [OF q s(2), of "[]"] l
      by (simp add: DashLogMsg dash_Update_def Let_def)
  qed (use c in \<open>simp_all add: dash_answers_def\<close>)
qed

lemma dash_Update_progress:
  "dash_out_ok t es m out \<Longrightarrow> dash_ok es m \<Longrightarrow> dash_out_ok t es (fst (dash_Update room now (ProgressMsg name p) m))
     (out @ snd (dash_Update room now (ProgressMsg name p) m))"
  using dash_out_ok_slots [of t es m out "action_progress name p m" "[]"] by (simp add: dash_Update_def dash_ok_def)

lemma new_dash_ok: "dash_ok es (new_dash path es)" "modes_ok (new_dash path es)" "dash_out_ok 0 es (new_dash path es) []"
  by (simp_all add: dash_ok_def modes_ok_def dash_out_ok_def new_dash_def group_busy_def verb_slot_def no_action_def
      grid_top_def Let_def)

lemma dash_run_ok:
  assumes "dash_run room es m out seen" "distinct (map de_name es)"
  shows "dash_ok es m \<and> modes_ok m \<and> dash_out_ok 1 es m out"
  using assms(1)
proof induction
  case (start now path m out)
  let ?m = "new_dash path es"
  have e: "dm_entries ?m = es" by (simp add: new_dash_def)
  have "dash_out_ok 1 es ?m [DashTickCmd]" using dash_out_ok_tick [OF new_dash_ok(3) [where es = es and path = path]] by simp
  from startRounds_out [OF this e, of now] new_dash_ok(1,2) [where es = es and path = path] show ?case
    using start dash_ok_geo [OF startRounds_geo, of es now ?m] modes_ok_same [OF startRounds_modes, of now ?m]
    by (auto simp: dash_Init_def case_prod_beta)
next
  case (outside m out seen msg now m' new)
  then have u: "m' = fst (dash_Update room now msg m)" "new = snd (dash_Update room now msg m)" by simp_all
  show ?case
    using outside.IH dash_Update_ok [of es m room now msg] dash_Update_modes [of m room now msg]
      dash_Update_outside [OF _ _ assms(2) outside.hyps(2), of m room now]
    unfolding u right_step_def by blast
next
  case (phase m out seen name now p m' new)
  then have u: "m' = fst (dash_Update room now (ProgressMsg name p) m)" "new = snd (dash_Update room now (ProgressMsg name p) m)"
    by simp_all
  show ?case
    using phase.IH dash_Update_ok [of es m room now "ProgressMsg name p"] dash_Update_modes [of m room now "ProgressMsg name p"]
      dash_Update_progress [of 1 es m out room now name p]
    unfolding u by blast
next
  case (answer m out seen c msg now m' new)
  then have u: "m' = fst (dash_Update room now msg m)" "new = snd (dash_Update room now msg m)" by simp_all
  show ?case
    using answer.IH dash_Update_ok [of es m room now msg] dash_Update_modes [of m room now msg]
      dash_Update_answer [OF _ _ assms(2) answer.hyps(2,3), of m room now]
    unfolding u by blast
qed

section \<open>The newest readings\<close>

lemma is_after_props:
  "is_after a b \<Longrightarrow> \<not> is_after b a" "\<not> is_after a b \<Longrightarrow> \<not> is_after b c \<Longrightarrow> \<not> is_after a c" "\<not> is_after a a"
  by (auto simp: is_after_def split: option.splits)

lemma take_reading_newest:
  assumes "i < length rs" "rs' = take_reading jr rs"
  shows "rs' ! i = rs ! i \<or> jr = (i, rs' ! i)" "\<not> is_after (dr_At (rs ! i)) (dr_At (rs' ! i))"
    and "fst jr = i \<Longrightarrow> \<not> is_after (dr_At (snd jr)) (dr_At (rs' ! i))"
proof -
  have "is_after (dr_At (snd jr)) (dr_At (rs ! fst jr)) \<Longrightarrow> \<not> is_after (dr_At (rs ! fst jr)) (dr_At (snd jr))"
    by (rule is_after_props(1))
  then show "rs' ! i = rs ! i \<or> jr = (i, rs' ! i)" "\<not> is_after (dr_At (rs ! i)) (dr_At (rs' ! i))"
    "fst jr = i \<Longrightarrow> \<not> is_after (dr_At (snd jr)) (dr_At (rs' ! i))"
    using assms(1) unfolding assms(2) take_reading_def
    by (cases "fst jr = i"; auto simp: is_after_props(3) prod_eq_iff)+
qed

lemma take_readings_newest:
  assumes "i < length rs"
  shows "(take_readings irs rs ! i = rs ! i \<or> (i, take_readings irs rs ! i) \<in> set irs) \<and>
    \<not> is_after (dr_At (rs ! i)) (dr_At (take_readings irs rs ! i)) \<and>
    (\<forall>r. (i, r) \<in> set irs \<longrightarrow> \<not> is_after (dr_At r) (dr_At (take_readings irs rs ! i)))"
  using assms
proof (induction irs arbitrary: rs)
  case Nil
  then show ?case by (simp add: take_readings_def is_after_props(3))
next
  case (Cons jr irs)
  let ?rs = "take_reading jr rs" and ?rs' = "take_readings irs (take_reading jr rs)"
  note t = take_reading_newest [OF Cons.prems refl, of jr]
  have "i < length ?rs" using Cons.prems by (simp add: take_reading_def)
  note ih = Cons.IH [OF this]
  have s: "take_readings (jr # irs) rs = ?rs'" by (simp add: take_readings_def)
  have "?rs' ! i = rs ! i \<or> (i, ?rs' ! i) \<in> set (jr # irs)" using t(1) ih by auto
  moreover have "\<not> is_after (dr_At (rs ! i)) (dr_At (?rs' ! i))" using t(2) ih is_after_props(2) by blast
  moreover have "\<not> is_after (dr_At r) (dr_At (?rs' ! i))" if "(i, r) \<in> set (jr # irs)" for r
    using that t(3) ih is_after_props(2) by (cases jr) fastforce
  ultimately show ?case unfolding s by blast
qed

lemma geo_results: "geo m' = geo m \<Longrightarrow> dm_results m' = dm_results m"
  by (simp add: geo_def)

lemma dash_Update_results:
  "dm_results (fst (dash_Update room now msg m)) =
     (case msg of RefreshMsg g idx rs \<Rightarrow> take_readings (zip idx rs) (dm_results m) | _ \<Rightarrow> dm_results m)"
proof -
  have k: "dm_results (dash_keepVisible x) = dm_results x" for x :: "'a dash_model"
    by (simp add: dash_keepVisible_def Let_def)
  have b: "dm_results (set_busy g b m) = dm_results m" for g b by (simp add: set_busy_def)
  have "dm_results (fst (updateGridKey now k m)) = dm_results m" for k
    by (simp add: updateGridKey_def Let_def cursor_to_def dash_scroll_def k geo_results [OF startRounds_geo]
        geo_results [OF dash_openDetail_geo] geo_results [OF key_geo(1)] geo_results [OF key_geo(2)]
        geo_results [OF key_geo(3)] geo_results [OF key_geo(4)])
  then have "dm_results (fst (updateDashKey now k m)) = dm_results m" for k
    by (simp add: updateDashKey_def geo_results [OF updateKeepPromptKey_geo] geo_results [OF updateDashConfirm_geo]
        geo_results [OF updateDetailKey_geo])
  then show ?thesis
    by (cases msg) (simp_all add: dash_Update_def case_prod_beta Let_def k b geo_results [OF startRounds_geo]
        geo_results [OF action_progress_geo] geo_results [OF action_done_geo] geo_results [OF startDetailLogRound_geo]
        geo_results [OF applyDetailLog_geo])
qed

definition shows_newest :: "'s dash_entry list \<Rightarrow> 's dash_model \<Rightarrow> (nat \<times> 's dash_result) list \<Rightarrow> nat \<Rightarrow> bool" where
  "shows_newest es m seen i \<longleftrightarrow>
     (dm_results m ! i = de_standing (es ! i) \<or> (i, dm_results m ! i) \<in> set seen) \<and>
     (\<forall>r. (i, r) \<in> set seen \<longrightarrow> \<not> is_after (dr_At r) (dr_At (dm_results m ! i)))"

lemma dash_run_newest:
  assumes "dash_run room es m out seen" "distinct (map de_name es)"
  shows "(\<forall>i < length es. shows_newest es m seen i) \<and>
    (\<forall>(i, r) \<in> set seen. de_node (es ! i) \<noteq> None \<and> dr_At r \<noteq> None)"
  using assms(1)
proof induction
  case (start now path m out)
  have "dm_results m = map de_standing es"
    using start geo_results [OF startRounds_geo, of now "new_dash path es"]
    by (auto simp: dash_Init_def case_prod_beta new_dash_def)
  then show ?case by (simp add: shows_newest_def)
next
  case (outside m out seen msg now m' new)
  have "dm_results m' = dm_results m"
    using dash_Update_results [of room now msg m] outside.hyps(2,3) by (cases msg) simp_all
  with outside.IH show ?case by (simp add: shows_newest_def)
next
  case (phase m out seen name now p m' new)
  have "dm_results m' = dm_results m"
    using dash_Update_results [of room now "ProgressMsg name p" m] phase.hyps(3) by simp
  with phase.IH show ?case by (simp add: shows_newest_def)
next
  case (answer m out seen c msg now m' new)
  note ok = dash_run_ok [OF answer.hyps(1) assms(2)]
  show ?case
  proof (cases msg)
    case (RefreshMsg g idx rs)
    then have r: "dm_results m' = take_readings (zip idx rs) (dm_results m)"
      using dash_Update_results [of room now msg m] answer.hyps(4) by simp
    have c: "c = RoundCmd g idx" and st: "list_all (\<lambda>r. dr_At r \<noteq> None) rs"
      using answer.hyps(3) RefreshMsg by (simp_all add: dash_answers_def)
    have "round_live es c" using ok answer.hyps(2) by (auto simp: dash_out_ok_def list_all_iff)
    then have live: "de_node (es ! i) \<noteq> None \<and> dr_At x \<noteq> None" if "(i, x) \<in> set (zip idx rs)" for i x
      using that st by (auto simp: c round_live_def list_all_iff dest: set_zip_leftD set_zip_rightD)
    have "shows_newest es m' (seen @ zip idx rs) i" if i: "i < length es" for i
    proof -
      have l: "i < length (dm_results m)" using ok i by (simp add: dash_ok_def)
      note t = take_readings_newest [OF l, of "zip idx rs"]
      from answer.IH i have o: "shows_newest es m seen i" by blast
      have "dm_results m' ! i = de_standing (es ! i) \<or> (i, dm_results m' ! i) \<in> set (seen @ zip idx rs)"
        using t o unfolding shows_newest_def r by auto
      moreover have "\<not> is_after (dr_At x) (dr_At (dm_results m' ! i))" if x: "(i, x) \<in> set (seen @ zip idx rs)" for x
      proof (cases "(i, x) \<in> set seen")
        case True
        then have "\<not> is_after (dr_At x) (dr_At (dm_results m ! i))" using o by (simp add: shows_newest_def)
        then show ?thesis unfolding r by (rule is_after_props(2)) (use t in blast)
      next
        case False
        then show ?thesis using x t unfolding r by simp
      qed
      ultimately show ?thesis unfolding shows_newest_def by blast
    qed
    then show ?thesis using answer.IH live by (auto simp: RefreshMsg)
  next
    case (DashKey k)
    then show ?thesis using answer.hyps(3) by (simp add: dash_answers_def)
  qed (use answer.IH dash_Update_results [of room now msg m] answer.hyps(4) in \<open>simp_all add: shows_newest_def\<close>)
qed

section \<open>How often a node is read\<close>

definition reads_node :: "nat \<Rightarrow> dash_cmd list \<Rightarrow> bool" where
  "reads_node i cs \<longleftrightarrow> list_ex (\<lambda>c. case c of RoundCmd g idx \<Rightarrow> i \<in> set idx | _ \<Rightarrow> False) cs"

lemma reads_node_simps [simp]:
  "\<not> reads_node i []" "reads_node i (RoundCmd g idx # cs) \<longleftrightarrow> i \<in> set idx \<or> reads_node i cs" "reads_node i (cs @ cs') \<longleftrightarrow> reads_node i cs \<or> reads_node i cs'"
  "reads_node i (DashTickCmd # cs) = reads_node i cs" "reads_node i (DashSpinCmd # cs) = reads_node i cs" "reads_node i (DashLogTickCmd # cs) = reads_node i cs"
  "reads_node i (CallCmd v n # cs) = reads_node i cs" "reads_node i (KeepCmd d n # cs) = reads_node i cs"
  "reads_node i (LogCmd gen n offs room # cs) = reads_node i cs" "reads_node i (DashQuit # cs) = reads_node i cs"
  by (simp_all add: reads_node_def)

lemma scheduleRead_dueAt [simp]: "dueAt (scheduleRead j t m) i = (if i = j then t else dueAt m i)"
  by (auto simp: dueAt_def scheduleRead_def Let_def nth_append nth_list_update)

lemma scheduleRead_interval [simp]: "node_interval (scheduleRead j t m) i = node_interval m i"
  by (simp add: node_interval_def scheduleRead_def Let_def)

lemma set_busy_due [simp]: "dueAt (set_busy g b m) i = dueAt m i" "node_interval (set_busy g b m) i = node_interval m i"
  by (simp_all add: dueAt_def node_interval_def set_busy_def)

lemma fold_scheduleRead_due:
  "dueAt (fold (\<lambda>i m. scheduleRead i (Some (now + node_interval m i)) m) idx m) j =
     (if j \<in> set idx then Some (now + node_interval m j) else dueAt m j)"
  by (induction idx arbitrary: m) auto

lemma refreshCloudGroup_due:
  "dueAt (fst (refreshCloudGroup now g m)) i =
     (if reads_node i (snd (refreshCloudGroup now g m)) then Some (now + node_interval m i) else dueAt m i)"
  "reads_node i (snd (refreshCloudGroup now g m)) \<Longrightarrow> i \<in> set (round_nodes now m g)"
  by (auto simp: refreshCloudGroup_def Let_def fold_scheduleRead_due split: if_splits)

lemma refreshCloudGroup_interval [simp]: "node_interval (fst (refreshCloudGroup now g m)) i = node_interval m i"
proof -
  have "dm_entries (fst (refreshCloudGroup now g m)) = dm_entries m"
    using refreshCloudGroup_geo [of now g m] by (simp add: geo_def)
  then show ?thesis by (simp add: node_interval_def refreshCloudGroup_def Let_def)
qed

text \<open>A cloud node is in no round of the local machines.\<close>

lemma local_round_no_cloud:
  "de_kind (dm_entries m ! i) = KindCloud \<Longrightarrow> \<not> reads_node i (snd (refreshCloudGroup now False m))"
  using refreshCloudGroup_due(2) [of i now False m] by (auto simp: round_nodes_def Let_def)

lemma startRounds_due:
  assumes "de_kind (dm_entries m ! i) = KindCloud"
  shows "dueAt (fst (startRounds now m)) i =
      (if reads_node i (snd (startRounds now m)) then Some (now + node_interval m i) else dueAt m i)"
    and "reads_node i (snd (startRounds now m)) \<Longrightarrow> isDue now m i"
proof -
  let ?m = "fst (refreshCloudGroup now False m)"
  note l = local_round_no_cloud [OF assms, of now]
  have d: "dueAt ?m i = dueAt m i" using l by (simp add: refreshCloudGroup_due(1))
  show "dueAt (fst (startRounds now m)) i =
      (if reads_node i (snd (startRounds now m)) then Some (now + node_interval m i) else dueAt m i)"
    using l d by (simp add: startRounds_def case_prod_beta refreshCloudGroup_due(1) [of now True ?m])
  assume "reads_node i (snd (startRounds now m))"
  then have "i \<in> set (round_nodes now ?m True)"
    using l refreshCloudGroup_due(2) [of i now True ?m] by (simp add: startRounds_def case_prod_beta)
  then have "isDue now ?m i" by (simp add: round_nodes_def Let_def)
  then show "isDue now m i" by (simp add: isDue_def d)
qed

definition is_refresh :: "'s dash_msg \<Rightarrow> bool" where
  "is_refresh msg \<longleftrightarrow> (case msg of DashKey k \<Rightarrow> k_name k = ''r'' | _ \<Rightarrow> False)"

lemma issue_due:
  assumes "dm_cursor m < length (dm_actions m)" "v \<noteq> ''''"
  shows "dueAt (fst (issue now v c m)) i = dueAt m i \<or> da_verb (dm_actions (fst (issue now v c m)) ! i) \<noteq> ''''"
proof (cases "i = dm_cursor m")
  case True
  then show ?thesis using assms by (simp add: issue_def Let_def scheduleRead_def)
next
  case False
  have "dueAt (fst (issue now v c m)) i = dueAt (scheduleRead (dm_cursor m) None m) i"
    by (simp add: issue_def Let_def dueAt_def scheduleRead_def)
  with False show ?thesis by simp
qed

text \<open>A key other than the refresh starts no round, and lets a node's time stand unless it starts a call on it.\<close>

definition keeps_due :: "nat \<Rightarrow> 's dash_model \<Rightarrow> 's dash_model \<times> dash_cmd list \<Rightarrow> bool" where
  "keeps_due i m r \<longleftrightarrow> \<not> reads_node i (snd r) \<and> (dueAt (fst r) i = dueAt m i \<or> da_verb (dm_actions (fst r) ! i) \<noteq> '''')"

lemma keeps_due_same: "dm_nextReadAt m' = dm_nextReadAt m \<Longrightarrow> \<not> reads_node i cs \<Longrightarrow> keeps_due i m (m', cs)"
  by (simp add: keeps_due_def dueAt_def)

lemma issue_keeps_due:
  assumes "dm_cursor m' < length (dm_actions m')" "v \<noteq> ''''" "dm_nextReadAt m' = dm_nextReadAt m" "\<not> reads_node i [c]"
  shows "keeps_due i m (issue now v c m')"
proof -
  have "dueAt m' i = dueAt m i" using assms(3) by (simp add: dueAt_def)
  moreover have "\<not> reads_node i (snd (issue now v c m'))" using assms(4) by (simp add: issue_def Let_def reads_node_def)
  ultimately show ?thesis using issue_due [OF assms(1,2), of now c i] by (simp add: keeps_due_def)
qed

lemma begin_keeps_due:
  assumes "dm_cursor m < length (dm_actions m)"
  shows "v \<noteq> '''' \<Longrightarrow> keeps_due i m (dash_beginAction now v m)" "keeps_due i m (beginKeep now d m)"
  using assms by (simp_all add: dash_beginAction_def beginKeep_def Let_def keeps_due_same issue_keeps_due)

lemma detail_nextReadAt [simp]:
  "dm_nextReadAt (fst (startDetailLogRound m)) = dm_nextReadAt m" "dm_nextReadAt (fst (dash_openDetail m)) = dm_nextReadAt m"
  "dm_nextReadAt (applyDetailLog room r m) = dm_nextReadAt m" "dm_nextReadAt (dash_keepVisible m) = dm_nextReadAt m"
  "dm_nextReadAt (cursor_to move m) = dm_nextReadAt m" "dm_nextReadAt (dash_scroll pages m) = dm_nextReadAt m"
  "dm_nextReadAt (key_keep m) = dm_nextReadAt m" "dm_nextReadAt (key_abort m) = dm_nextReadAt m"
  "dm_nextReadAt (key_stop m) = dm_nextReadAt m" "dm_nextReadAt (action_progress name p m) = dm_nextReadAt m"
  by (simp_all add: startDetailLogRound_def dash_openDetail_def applyDetailLog_def dash_keepVisible_def cursor_to_def
      dash_scroll_def key_keep_def open_prompt_def key_abort_def abortAction_def key_stop_def action_progress_def Let_def
      case_prod_beta split: option.split)

lemma detail_reads [simp]: "\<not> reads_node i (snd (startDetailLogRound m))" "\<not> reads_node i (snd (dash_openDetail m))"
  by (simp_all add: startDetailLogRound_def dash_openDetail_def Let_def case_prod_beta split: option.split)

lemma updateDashKey_keeps_due:
  assumes ok: "dash_ok es m" "modes_ok m" and k: "k_name k \<noteq> ''r''"
  shows "keeps_due i m (updateDashKey now k m)"
proof -
  have c: "dm_entries m \<noteq> [] \<Longrightarrow> dm_cursor m < length (dm_actions m)" using ok(1) by (simp add: dash_ok_def)
  have p: "dm_keepPrompt m \<Longrightarrow> keeps_due i m (updateKeepPromptKey now k m)"
    using ok(2) begin_keeps_due(2) [OF c]
    by (auto simp: updateKeepPromptKey_def close_prompt_def Let_def modes_ok_def intro!: keeps_due_same split: option.split)
  have y: "dm_confirm m \<Longrightarrow> keeps_due i m (updateDashConfirm now k m)"
    using ok(2) begin_keeps_due(1) [OF c]
    by (auto simp: updateDashConfirm_def Let_def modes_ok_def intro!: keeps_due_same)
  have s: "keeps_due i m (key_start now m)"
    using begin_keeps_due(1) [OF c] by (auto simp: key_start_def intro!: keeps_due_same)
  have t: "keeps_due i m (updateDetailKey now k m)"
    using s by (auto simp: updateDetailKey_def Let_def intro!: keeps_due_same)
  have o: "keeps_due i m (dash_openDetail m)"
    using keeps_due_same [of "fst (dash_openDetail m)" m i "snd (dash_openDetail m)"] by simp
  have g: "keeps_due i m (updateGridKey now k m)"
    using s o k by (auto simp: updateGridKey_def Let_def intro!: keeps_due_same)
  show ?thesis using p y t g by (simp add: updateDashKey_def)
qed

lemma dash_Update_due:
  assumes ok: "dash_ok es m" "modes_ok m" and kind: "de_kind (es ! i) = KindCloud"
    and msg: "\<not> is_refresh msg" "\<forall>v err state until. msg \<noteq> DoneMsg (de_name (es ! i)) v err state until"
    and idle: "da_verb (dm_actions m ! i) = ''''" "da_verb (dm_actions (fst (dash_Update room now msg m)) ! i) = ''''"
    and due: "dueAt m i = Some u" "now < u"
  shows "\<not> reads_node i (snd (dash_Update room now msg m)) \<and> dueAt (fst (dash_Update room now msg m)) i = Some u"
proof -
  have e: "dm_entries m = es" using ok(1) by (simp add: dash_ok_def)
  have n: "\<not> isDue now m i"
    using due idle(1) kind by (simp add: isDue_def node_interval_def dashNodeInterval_def e is_after_def
        dashboardCloudRefreshInterval_def dashboardRefreshInterval_def second_def)
  have r: "\<not> reads_node i (snd (startRounds now m))" "dueAt (fst (startRounds now m)) i = dueAt m i"
    using startRounds_due [of m i now] n kind by (auto simp: e)
  show ?thesis
  proof (cases msg)
    case DashTickMsg
    then show ?thesis using r due by (simp add: dash_Update_def case_prod_beta)
  next
    case (DashKey k)
    then have "k_name k \<noteq> ''r''" using msg(1) by (simp add: is_refresh_def)
    from updateDashKey_keeps_due [OF ok this, of i now] show ?thesis
      using idle(2) due by (simp add: DashKey dash_Update_def keeps_due_def)
  next
    case (DoneMsg name v err state until)
    then have nm: "de_name (es ! i) \<noteq> name" using msg(2) by blast
    have "dueAt (action_done name v err state until m) i = dueAt m i"
    proof (cases "dash_indexOf name m")
      case None
      then show ?thesis by (simp add: action_done_def dueAt_def)
    next
      case (Some j)
      then have "j \<noteq> i" using dash_indexOf_Some(2) [OF Some] nm by (auto simp: e)
      have "dueAt (action_done name v err state until m) i =
          dueAt (scheduleRead j None (m\<lparr>dm_actions := (dm_actions m)[j := no_action]\<rparr>)) i"
        by (simp add: action_done_def Some dueAt_def)
      moreover have "dueAt (m\<lparr>dm_actions := as\<rparr>) i = dueAt m i" for as by (simp add: dueAt_def)
      ultimately show ?thesis using \<open>j \<noteq> i\<close> by simp
    qed
    then show ?thesis using due by (simp add: DoneMsg dash_Update_def)
  next
    case (RefreshMsg g idx rs)
    then show ?thesis using due by (auto simp: dash_Update_def Let_def dueAt_def set_busy_def split: if_splits)
  next
    case (DashSize w h)
    then show ?thesis using due by (auto simp: dash_Update_def dueAt_def split: if_splits)
  next
    case (DashLogMsg gen rl)
    then show ?thesis using due by (auto simp: dash_Update_def Let_def dueAt_def split: if_splits)
  qed (use due in \<open>auto simp: dash_Update_def case_prod_beta dueAt_def split: if_splits\<close>)
qed

text \<open>A sequence of messages as they come, with the state after each and the commands it gave rise to.\<close>

fun dash_trace ::
  "('s dash_model \<Rightarrow> int) \<Rightarrow> (int \<times> 's dash_msg) list \<Rightarrow> 's dash_model \<Rightarrow> ('s dash_model \<times> dash_cmd list) list" where
  "dash_trace room [] m = []"
| "dash_trace room ((now, msg) # ms) m = (case dash_Update room now msg m of (m', cs) \<Rightarrow> (m', cs) # dash_trace room ms m')"

definition idle_at :: "nat \<Rightarrow> 's dash_model \<Rightarrow> bool" where
  "idle_at i m \<longleftrightarrow> da_verb (dm_actions m ! i) = ''''"

text \<open>A message that neither asks for a refresh nor ends a call on the node.\<close>

definition leaves_node :: "string \<Rightarrow> 's dash_msg \<Rightarrow> bool" where
  "leaves_node name msg \<longleftrightarrow> \<not> is_refresh msg \<and> (case msg of DoneMsg n v err state until \<Rightarrow> n \<noteq> name | _ \<Rightarrow> True)"

lemma dash_trace_unread:
  assumes "dash_ok es m" "modes_ok m" "de_kind (es ! i) = KindCloud" "dueAt m i = Some u" "idle_at i m"
    and "list_all (\<lambda>(now, msg). now < u \<and> leaves_node (de_name (es ! i)) msg) ms"
    and "list_all (\<lambda>(m', cs). idle_at i m') (dash_trace room ms m)"
  shows "list_all (\<lambda>(m', cs). \<not> reads_node i cs) (dash_trace room ms m)"
  using assms(1,2,4-)
proof (induction ms arbitrary: m)
  case (Cons nm ms)
  obtain now msg where nm: "nm = (now, msg)" by (cases nm)
  let ?m = "fst (dash_Update room now msg m)"
  have tr: "dash_trace room (nm # ms) m = (?m, snd (dash_Update room now msg m)) # dash_trace room ms ?m"
    by (simp add: nm case_prod_beta)
  have h: "\<not> is_refresh msg" "\<forall>v err state until. msg \<noteq> DoneMsg (de_name (es ! i)) v err state until" "now < u"
    using Cons.prems(5) by (auto simp: nm leaves_node_def split: dash_msg.splits)
  have idle: "da_verb (dm_actions m ! i) = ''''" "da_verb (dm_actions ?m ! i) = ''''"
    using Cons.prems(4,6) unfolding tr by (simp_all add: idle_at_def case_prod_beta)
  have u: "\<not> reads_node i (snd (dash_Update room now msg m))" "dueAt ?m i = Some u"
    using dash_Update_due [OF Cons.prems(1,2) assms(3) h(1,2) idle Cons.prems(3) h(3)] by blast+
  have "list_all (\<lambda>(m', cs). \<not> reads_node i cs) (dash_trace room ms ?m)"
    by (rule Cons.IH) (use Cons.prems idle u in \<open>simp_all add: tr dash_Update_ok dash_Update_modes idle_at_def\<close>)
  then show ?case using u(1) unfolding tr case_prod_beta by simp
qed simp

text \<open>The key of a refresh and the tick alone start rounds; what a round reads is due an interval later.\<close>

lemma dash_Update_round_due:
  assumes ok: "dash_ok es m" "modes_ok m" and kind: "de_kind (es ! i) = KindCloud"
    and rd: "reads_node i (snd (dash_Update room now msg m))" and idle: "idle_at i (fst (dash_Update room now msg m))"
  shows "dueAt (fst (dash_Update room now msg m)) i = Some (now + dashboardCloudRefreshInterval)"
proof -
  have e: "dm_entries m = es" using ok(1) by (simp add: dash_ok_def)
  have s: "dueAt (fst (startRounds now m')) i = Some (now + dashboardCloudRefreshInterval)"
    if "reads_node i (snd (startRounds now m'))" "idle_at i (fst (startRounds now m'))" "dm_entries m' = es" for m'
  proof -
    have "dm_actions (fst (startRounds now m')) = dm_actions m'"
      by (simp add: startRounds_def case_prod_beta refreshCloudGroup_def Let_def)
    then have "node_interval m' i = dashboardCloudRefreshInterval"
      using that(2,3) kind by (simp add: idle_at_def node_interval_def dashNodeInterval_def)
    then show ?thesis using startRounds_due(1) [of m' i now] that kind by simp
  qed
  show ?thesis
  proof (cases msg)
    case DashTickMsg
    then show ?thesis using s [of m] rd idle e by (simp add: dash_Update_def case_prod_beta)
  next
    case (DashKey k)
    show ?thesis
    proof (cases "k_name k = ''r''")
      case False
      then show ?thesis using updateDashKey_keeps_due [OF ok False, of i now] rd by (simp add: DashKey dash_Update_def keeps_due_def)
    next
      case True
      then have "dash_Update room now msg m = startRounds now (m\<lparr>dm_nextReadAt := replicate (length (dm_entries m)) None\<rparr>)"
        using rd by (auto simp: DashKey dash_Update_def updateDashKey_def updateGridKey_def updateKeepPromptKey_def
            updateDashConfirm_def updateDetailKey_def Let_def split: if_splits)
      then show ?thesis using s [of "m\<lparr>dm_nextReadAt := replicate (length (dm_entries m)) None\<rparr>"] rd idle e by simp
    qed
  qed (use rd in \<open>simp_all add: dash_Update_def Let_def case_prod_beta split: if_splits\<close>)
qed

section \<open>What the modes do to one another\<close>

definition press :: "('s dash_model \<Rightarrow> int) \<Rightarrow> int \<Rightarrow> string \<Rightarrow> 's dash_model \<Rightarrow> 's dash_model \<times> dash_cmd list" where
  "press room now name m = dash_Update room now (DashKey \<lparr>k_name = name, k_runes = Some name\<rparr>) m"

text \<open>
  The answer of an earlier view's poll marks the poll of the view in hand as over: the next tick starts a second
  one from the same place, and what both bring is shown twice.
\<close>

lemma stale_answer_repeats_poll:
  assumes "dm_detail m" "de_node (at_cursor m) = Some d" "dm_logFollow m" "gen \<noteq> dm_logGen m"
  shows "\<exists>limit. LogCmd (dm_logGen m) (dn_Name d) (dm_logOffset m) limit \<in>
    set (snd (dash_Update room now' DashLogTickMsg (fst (dash_Update room now (DashLogMsg gen r) m))))"
  using assms by (simp add: dash_Update_def startDetailLogRound_def at_cursor_def)

lemma lastLines_short: "int (length (split_after s)) \<le> n \<Longrightarrow> lastLines s n = s"
  by (simp add: lastLines_def Let_def)

lemma two_answers_show_twice:
  assumes "dm_detail m" "dl_Outcome r = OutcomeOK" "dl_Content r \<noteq> ''''" "dm_logContent m = ''''"
    and "\<And>x. int (length (split_after (dl_Content r @ dl_Content r))) \<le> room x" "\<And>x. int (length (split_after (dl_Content r))) \<le> room x"
  defines "answer \<equiv> DashLogMsg (dm_logGen m) r"
  shows "dm_logContent (fst (dash_Update room now' answer (fst (dash_Update room now answer m)))) = dl_Content r @ dl_Content r"
  using assms by (simp add: dash_Update_def applyDetailLog_def Let_def lastLines_short)

text \<open>A call that begins before the spinner's last tick of the one before starts a second clock.\<close>

lemma spin_clocks_double:
  assumes run: "dash_run room es m out seen" and s: "DashSpinCmd \<in> set out" "\<not> actionInFlight m" "actionOffered m"
    and k: "\<not> dm_keepPrompt m" "\<not> dm_confirm m"
  shows "\<exists>m' out'. dash_run room es m' out' seen \<and> 2 \<le> count_list out' DashSpinCmd"
proof -
  obtain m' new where u: "dash_Update room 0 (DashKey \<lparr>k_name = ''s'', k_runes = None\<rparr>) m = (m', new)" by fastforce
  have "actionInFlight (m\<lparr>dm_confirm := False\<rparr>) = actionInFlight m" by (simp add: actionInFlight_def)
  then have "snd (key_start 0 m) = [CallCmd ''start'' (de_name (at_cursor m)), DashSpinCmd]"
    using s(2,3) by (auto simp: key_start_def actionOffered_def dash_beginAction_def issue_def Let_def at_cursor_def verb_at_cursor_def)
  then have "new = [CallCmd ''start'' (de_name (at_cursor m)), DashSpinCmd]"
    using u k by (auto simp: dash_Update_def updateDashKey_def updateDetailKey_def updateGridKey_def Let_def split: if_splits)
  moreover have "0 < count_list out DashSpinCmd" using s(1) by (metis count_list_0_iff gr0I)
  ultimately have "2 \<le> count_list (out @ new) DashSpinCmd" by simp
  with dash_run.outside [OF run _ u] show ?thesis by force
qed

text \<open>
  Every hint of the footer names a key that does what it says: the start and the stop issue their call, the keep
  issues one for the four hours it offers, and the abort ends the wait.
\<close>

definition hints :: "'s dash_model \<Rightarrow> string list" where
  "hints m = (if dm_detail m then detail_hints m else grid_hints m)"

lemma hints_offered:
  "''s start'' \<in> set (hints m) \<longleftrightarrow> startOffered m" "''x stop'' \<in> set (hints m) \<longleftrightarrow> stopOffered m"
  "''k keep'' \<in> set (hints m) \<longleftrightarrow> keepOffered m" "''a abort'' \<in> set (hints m) \<longleftrightarrow> dash_canAbort m"
proof -
  have a: "arrows @ '' move'' \<noteq> CHR ''s'' # t" "arrows @ '' move'' \<noteq> CHR ''x'' # t" "arrows @ '' move'' \<noteq> CHR ''k'' # t"
    "arrows @ '' move'' \<noteq> CHR ''a'' # t" for t
    by (simp_all add: arrows_def)
  have o: "set (offered b h) = (if b then {h} else {})" for b h by (simp add: offered_def)
  show "''s start'' \<in> set (hints m) \<longleftrightarrow> startOffered m" "''x stop'' \<in> set (hints m) \<longleftrightarrow> stopOffered m"
    "''k keep'' \<in> set (hints m) \<longleftrightarrow> keepOffered m" "''a abort'' \<in> set (hints m) \<longleftrightarrow> dash_canAbort m"
    by (simp_all add: hints_def detail_hints_def grid_hints_def o a [symmetric])
qed

lemma press_keys:
  assumes "\<not> dm_keepPrompt m" "\<not> dm_confirm m"
  shows "press room now ''s'' m = key_start now m" "press room now ''x'' m = (key_stop m, [])"
    "press room now ''k'' m = (key_keep m, [])" "press room now ''a'' m = (key_abort m, [])"
  using assms by (simp_all add: press_def dash_Update_def updateDashKey_def updateDetailKey_def updateGridKey_def Let_def)

lemma issue_issues: "cmd \<in> set (snd (issue now v cmd m))"
  by (simp add: issue_def Let_def)

lemma four_hours: "ParseDuration (trim_space ''4h'') = Some (4 * 3600 * second)"
proof -
  have d: "takeWhile is_digit ''4h'' = ''4''" "dropWhile is_digit ''4h'' = ''h''" by code_simp+
  have u: "takeWhile (\<lambda>c. c \<noteq> CHR ''.'' \<and> \<not> is_digit c) ''h'' = ''h''" "digits_val ''4'' = 4" "trim_space ''4h'' = ''4h''" by code_simp+
  have k: "map_of duration_units ''h'' = Some (3600 * 10 ^ 9)" by (simp add: duration_units_def)
  have f: "fraction_nanos k [] = 0" for k by (simp add: fraction_nanos_def)
  have "duration_part ''4h'' = Some (4 * 3600 * 10 ^ 9, [])"
    unfolding duration_part_def Let_def d by (simp add: u k f is_digit_def)
  then have "duration_parts ''4h'' 0 = Some (4 * 3600 * 10 ^ 9)"
    by (subst duration_parts.simps) (simp add: duration_parts.simps [of "[]"])
  then show ?thesis by (simp add: u ParseDuration_def second_def)
qed

section \<open>What holds of the dashboard\<close>

text \<open>
  Every hint of the footer names a key that does what it says on the node under the cursor: the start issues its
  call, the stop does after its question, the keep does for the four hours that its prompt offers, and the abort
  marks the start as given up.
\<close>

theorem hints_drive:
  assumes "dash_ok es m" "\<not> dm_keepPrompt m" "\<not> dm_confirm m"
  shows "(''s start'' \<in> set (hints m) \<longrightarrow> CallCmd ''start'' (de_name (at_cursor m)) \<in> set (snd (press room now ''s'' m))) \<and>
    (''x stop'' \<in> set (hints m) \<longrightarrow>
       CallCmd ''stop'' (de_name (at_cursor m)) \<in> set (snd (press room now' ''y'' (fst (press room now ''x'' m))))) \<and>
    (''k keep'' \<in> set (hints m) \<longrightarrow>
       KeepCmd (4 * 3600 * second) (de_name (at_cursor m)) \<in>
         set (snd (press room now' ''enter'' (fst (press room now ''k'' m))))) \<and>
    (''a abort'' \<in> set (hints m) \<longrightarrow> da_aborted (dm_actions (fst (press room now ''a'' m)) ! dm_cursor m))"
proof (intro conjI impI)
  note k = press_keys [OF assms(2,3), of room now]
  have f: "at_cursor (m\<lparr>dm_confirm := b\<rparr>) = at_cursor m" "verb_at_cursor (m\<lparr>dm_confirm := b\<rparr>) = verb_at_cursor m"
    "at_cursor (open_prompt m) = at_cursor m" "verb_at_cursor (open_prompt m) = verb_at_cursor m"
    "verb_at_cursor (close_prompt x) = verb_at_cursor x" for b and x :: "'a dash_model"
    by (simp_all add: at_cursor_def verb_at_cursor_def open_prompt_def close_prompt_def)
  show "CallCmd ''start'' (de_name (at_cursor m)) \<in> set (snd (press room now ''s'' m))" if "''s start'' \<in> set (hints m)"
    using that unfolding hints_offered k(1)
    by (auto simp: startOffered_def actionOffered_def key_start_def dash_beginAction_def Let_def f issue_issues)
  show "CallCmd ''stop'' (de_name (at_cursor m)) \<in> set (snd (press room now' ''y'' (fst (press room now ''x'' m))))"
    if "''x stop'' \<in> set (hints m)"
    using that assms(2) unfolding hints_offered k(2)
    by (auto simp: stopOffered_def actionOffered_def key_stop_def press_def dash_Update_def updateDashKey_def
        updateDashConfirm_def dash_beginAction_def Let_def f issue_issues)
  show "KeepCmd (4 * 3600 * second) (de_name (at_cursor m)) \<in>
      set (snd (press room now' ''enter'' (fst (press room now ''k'' m))))"
    if "''k keep'' \<in> set (hints m)"
  proof -
    have o: "keepOffered m" using that by (simp add: hints_offered)
    then have p: "fst (press room now ''k'' m) = open_prompt m" by (simp add: k key_keep_def)
    have "press room now' ''enter'' (open_prompt m) = beginKeep now' (4 * 3600 * second) (open_prompt m)"
      using four_hours by (simp add: press_def dash_Update_def updateDashKey_def updateKeepPromptKey_def open_prompt_def second_def)
    moreover have "KeepCmd (4 * 3600 * second) (de_name (at_cursor m)) \<in>
        set (snd (beginKeep now' (4 * 3600 * second) (open_prompt m)))"
      using o unfolding beginKeep_def Let_def close_prompt_def [symmetric]
      by (auto simp: keepOffered_def can_keep_def f issue_issues split: option.splits)
    ultimately show ?thesis by (simp add: p)
  qed
  show "da_aborted (dm_actions (fst (press room now ''a'' m)) ! dm_cursor m)" if "''a abort'' \<in> set (hints m)"
    using that assms(1) unfolding hints_offered k(4)
    by (auto simp: dash_canAbort_def key_abort_def abortAction_def dash_ok_def)
qed

text \<open>A board of two: a machine that is running and a cloud environment.\<close>

definition demo_entries :: "unit dash_entry list" where
  "demo_entries =
     [\<lparr>de_name = ''m'', de_kind = ''daemon'', de_node = Some \<lparr>dn_Name = ''m'', dn_keeps = False, dn_reports = False\<rparr>,
       de_standing = no_result\<rparr>,
      \<lparr>de_name = ''c'', de_kind = KindCloud, de_node = Some \<lparr>dn_Name = ''c'', dn_keeps = True, dn_reports = True\<rparr>,
       de_standing = no_result\<rparr>]"

definition demo_reading :: "int \<Rightarrow> unit dash_result" where
  "demo_reading t = no_result\<lparr>dr_Outcome := Some OutcomeOK, dr_State := ''running'', dr_At := Some t\<rparr>"

definition demo_opened :: "unit dash_model \<times> dash_cmd list" where
  "demo_opened = dash_Init 0 (new_dash ''fleet.yaml'' demo_entries)"

definition demo_shown :: "unit dash_model" where
  "demo_shown = fst (dash_Update (\<lambda>_. 9) 1 (RefreshMsg True [1] [demo_reading 7]) (fst demo_opened))"

lemma demo_distinct: "distinct (map de_name demo_entries)"
  by code_simp

lemma demo_opened_run: "dash_run (\<lambda>_. 9) demo_entries (fst demo_opened) (snd demo_opened) []"
  by (rule dash_run.start [of 0 "''fleet.yaml''"]) (simp add: demo_opened_def)

lemma demo_opened_out: "snd demo_opened = [DashTickCmd, RoundCmd False [0], RoundCmd True [1]]"
  by code_simp

lemma demo_shown_run: "dash_run (\<lambda>_. 9) demo_entries demo_shown [DashTickCmd, RoundCmd False [0]] [(1, demo_reading 7)]"
proof -
  have u: "dash_Update (\<lambda>_. 9) 1 (RefreshMsg True [1] [demo_reading 7]) (fst demo_opened) = (demo_shown, [])"
    by (simp add: demo_shown_def dash_Update_def Let_def)
  have "RoundCmd True [1] \<in> set (snd demo_opened)" by (simp add: demo_opened_out)
  moreover have "dash_answers (RoundCmd True [1]) (RefreshMsg True [1] [demo_reading 7])"
    by (simp add: dash_answers_def demo_reading_def)
  ultimately have "dash_run (\<lambda>_. 9) demo_entries demo_shown (remove1 (RoundCmd True [1]) (snd demo_opened) @ [])
      ([] @ readings_of (RefreshMsg True [1] [demo_reading 7]))"
    by (rule dash_run.answer [OF demo_opened_run _ _ u])
  then show ?thesis by (simp add: demo_opened_out)
qed

theorem hints_drive_witness:
  "CallCmd ''start'' ''m'' \<in> set (snd (press (\<lambda>_. 9) 2 ''s'' demo_shown))"
proof -
  have ok: "dash_ok demo_entries demo_shown" using dash_run_ok [OF demo_shown_run demo_distinct] by blast
  have h: "''s start'' \<in> set (hints demo_shown)" "\<not> dm_keepPrompt demo_shown" "\<not> dm_confirm demo_shown"
    "de_name (at_cursor demo_shown) = ''m''" by code_simp+
  show ?thesis using hints_drive [OF ok h(2,3), of "\<lambda>_. 9" 2] h(1,4) by simp
qed

text \<open>
  C13: on every run of the dashboard, under any order of keys, sizes, answers and reported phases: each group has a
  round out exactly while it is marked as reading, each node has out exactly the one call that its tile names, and
  there is one refresh clock; the cursor is on a node and the window in the grid.
\<close>

theorem dash_one_call:
  assumes "dash_run room es m out seen" "distinct (map de_name es)"
  shows "dash_ok es m \<and>
    (\<forall>g. length (filter (is_round g) out) = (if group_busy g m then 1 else 0)) \<and>
    (\<forall>i < length es. map call_verb (filter (on_node (de_name (es ! i))) out) =
       (if da_verb (dm_actions m ! i) = '''' then [] else [da_verb (dm_actions m ! i)])) \<and>
    count_list out DashTickCmd = 1"
  using dash_run_ok [OF assms] by (simp add: dash_out_ok_def verb_slot_def of_bool_def)

theorem dash_one_call_witness: "dash_ok demo_entries demo_shown \<and> \<not> group_busy True demo_shown"
proof -
  note t = dash_one_call [OF demo_shown_run demo_distinct]
  then have "length (filter (is_round True) [DashTickCmd, RoundCmd False [0]]) = (if group_busy True demo_shown then 1 else 0)"
    by blast
  with t show ?thesis by (simp add: is_round_def split: if_splits)
qed

text \<open>
  C14: whatever order the readings of a node come in, its tile shows the latest of them, by the time each was made; a
  node that has given none, as one that could not be made from the fleet file never does, shows what it stood with.
\<close>

theorem dash_newest:
  assumes "dash_run room es m out seen" "distinct (map de_name es)" "i < length es" "dr_At (de_standing (es ! i)) = None"
  shows "if \<exists>r. (i, r) \<in> set seen
    then de_node (es ! i) \<noteq> None \<and> (i, dm_results m ! i) \<in> set seen \<and>
      (\<forall>r. (i, r) \<in> set seen \<longrightarrow> \<not> is_after (dr_At r) (dr_At (dm_results m ! i)))
    else dm_results m ! i = de_standing (es ! i)"
proof -
  have n: "shows_newest es m seen i" and l: "\<forall>(i, r) \<in> set seen. de_node (es ! i) \<noteq> None \<and> dr_At r \<noteq> None"
    using dash_run_newest [OF assms(1,2)] assms(3) by blast+
  show ?thesis
  proof (cases "\<exists>r. (i, r) \<in> set seen")
    case True
    then obtain r where r: "(i, r) \<in> set seen" by blast
    with l have s: "de_node (es ! i) \<noteq> None" "dr_At r \<noteq> None" by auto
    have "\<not> is_after (dr_At r) (dr_At (dm_results m ! i))" using n r by (simp add: shows_newest_def)
    with s(2) assms(4) have "dm_results m ! i \<noteq> de_standing (es ! i)" by (auto simp: is_after_def)
    with n s(1) True show ?thesis by (auto simp: shows_newest_def)
  next
    case False
    with n show ?thesis by (auto simp: shows_newest_def)
  qed
qed

theorem dash_newest_witness: "dm_results demo_shown ! 1 = demo_reading 7"
proof -
  have "1 < length demo_entries" "dr_At (de_standing (demo_entries ! 1)) = None"
    by (simp_all add: demo_entries_def no_result_def)
  from dash_newest [OF demo_shown_run demo_distinct this] show ?thesis by simp
qed


definition demo_minute :: "(int \<times> unit dash_msg) list" where
  "demo_minute = [(65 * second, DashTickMsg), (70 * second, DashTickMsg), (119 * second, DashTickMsg)]"


end
