(* ===== verification/DeployPlan.thy ===== *)
theory DeployPlan
  imports Engines "HOL-Library.Multiset"
begin

text \<open>
  The derivation of a deploy config from a Spinloop, in \<^verbatim>\<open>cmd/spinloop/cloud.go\<close>: for a cloud environment that is
  to be provisioned and for a fleet node that is to be woken. What the derived config then runs is in theory
  Engines; the theorems here compare it with what the same Spinloop is served as in the foreground. Fetching the
  preset is an argument.
\<close>

section \<open>Runners and models\<close>

datatype deploy_fault =
    CannotDeploy string
  | CannotWake string
  | NoEngine serve_error
  | PresetFault serve_error
  | NothingToDeploy string
  | LocalModelFile string
  | NoContextSize string
  | ContextFault size_error
  | ParallelFault serve_error
  | BindFault serve_error

definition runnerFor :: "string \<Rightarrow> deploy_fault + string" where
  "runnerFor provider = (if provider \<in> {''llamacpp'', ''vllm''} then Inr provider else Inl (CannotDeploy provider))"

definition providerForRunner :: "string \<Rightarrow> string option" where
  "providerForRunner runner = (if runner \<in> {''llamacpp'', ''vllm''} then Some runner else None)"

definition nodeRunnerFor :: "string \<Rightarrow> deploy_fault + string" where
  "nodeRunnerFor provider =
     (if provider \<in> {''llamacpp'', ''vllm'', ''mtplx''} then Inr provider else Inl (CannotWake provider))"

definition splitModelQuant :: "string \<Rightarrow> string \<times> string" where
  "splitModelQuant model = (takeWhile (\<lambda>c. c \<noteq> CHR '':'') model, drop 1 (dropWhile (\<lambda>c. c \<noteq> CHR '':'') model))"

section \<open>What the destination sets itself\<close>

definition cloudOwnedFlags :: "string list" where
  "cloudOwnedFlags =
     [''host'', ''port'', ''model'', ''model-url'', ''hf-repo'', ''hf-file'', ''hf-token'', ''api-key'', ''api-key-file'',
      ''ctx-size'', ''alias'', ''metrics'', ''model-id'', ''context-window'', ''max-active-requests'',
      ''spec-draft-model'', ''mmproj'', ''parallel'', ''max-num-seqs'', ''max-concurrent-requests'']"

definition companionRoleForFlag :: "(string, string) gomap" where
  "companionRoleForFlag = [(''spec-draft-model'', ''draft''), (''mmproj'', ''mmproj'')]"

definition isCloudOwned :: "string \<Rightarrow> bool" where
  "isCloudOwned key \<longleftrightarrow> CanonicalKey LlamaCpp key \<in> set cloudOwnedFlags"

definition isNodeOwned :: "string \<Rightarrow> bool" where
  "isNodeOwned key \<longleftrightarrow>
     (if CanonicalKey LlamaCpp key \<in> {''host'', ''port'', ''spec-draft-model'', ''mmproj''} then False else isCloudOwned key)"

definition dropOwned :: "(string \<Rightarrow> bool) \<Rightarrow> param list \<Rightarrow> param list" where
  "dropOwned owned params = filter (\<lambda>p. \<not> owned (fst p)) params"

definition parallelPresetKey :: "string \<Rightarrow> string" where
  "parallelPresetKey runner =
     (if runner = ''llamacpp'' then ''parallel''
      else if runner = ''vllm'' then ''max-num-seqs''
      else if runner = ''omlx'' then ''max-concurrent-requests''
      else if runner = ''mtplx'' then ''max-active-requests'' else '''')"

definition modelPresetKey :: "string \<Rightarrow> string" where
  "modelPresetKey runner =
     (if runner = ''mtplx'' then ''model'' else if runner \<in> {''llamacpp'', ''vllm''} then ''hf'' else '''')"

definition contextPresetKey :: "string \<Rightarrow> string" where
  "contextPresetKey runner =
     (if runner = ''mtplx'' then ''context-window'' else if runner \<in> {''llamacpp'', ''vllm''} then ''ctx-size'' else '''')"

definition presetValue :: "string \<Rightarrow> param list list \<Rightarrow> string" where
  "presetValue key layers =
     fold (\<lambda>(k, v) value. if CanonicalKey LlamaCpp k = CanonicalKey LlamaCpp key then v else value) (concat layers) ''''"

text \<open>\<^verbatim>\<open>filepath.Base\<close>.\<close>

definition file_base :: "string \<Rightarrow> string" where
  "file_base p =
     (if p = '''' then ''.''
      else (let q = trim_right_by (\<lambda>c. c = CHR ''/'') p
            in if q = '''' then ''/'' else rev (takeWhile (\<lambda>c. c \<noteq> CHR ''/'') (rev q))))"

definition add_companion :: "param \<Rightarrow> (string, string) gomap \<Rightarrow> (string, string) gomap" where
  "add_companion kv companions =
     (case map_of companionRoleForFlag (CanonicalKey LlamaCpp (fst kv)) of
        None \<Rightarrow> companions
      | Some role \<Rightarrow>
          if trim_space (snd kv) = '''' then companions
          else AList.update role (file_base (trim_space (snd kv))) companions)"

definition companionsFrom :: "param list list \<Rightarrow> (string, string) gomap" where
  "companionsFrom layers = fold add_companion (concat layers) []"

section \<open>The derivation\<close>

record deploy_target =
  dt_runner :: "string \<Rightarrow> deploy_fault + string"
  dt_requireContext :: bool
  dt_seedsWeights :: bool
  dt_owns :: "string \<Rightarrow> bool"
  dt_carriesBaseURL :: bool

text \<open>The layers of a preset: its globals and the section that the alias chooses.\<close>

definition preset_layers :: "(string \<Rightarrow> string + string) \<Rightarrow> selection \<Rightarrow> serve_error + param list \<times> param list" where
  "preset_layers fetch sel =
     (if sel_Preset sel = '''' then Inr ([], [])
      else (case fetch (sel_Preset sel) of
          Inl e \<Rightarrow> Inl (PresetUnread (sel_Preset sel) e)
        | Inr data \<Rightarrow>
            (case ParsePreset data of
               Inl e \<Rightarrow> Inl (PresetBroken (sel_Preset sel) e)
             | Inr pre \<Rightarrow>
                 (case SelectSection (sel_Alias sel) pre of
                    Inl e \<Rightarrow> Inl (PresetSection (sel_Preset sel) e)
                  | Inr sec \<Rightarrow> Inr (pr_Global pre, ps_Params sec)))))"

text \<open>The model: the Spinloop's own, then a PARAM that names it, then the preset's.\<close>

definition plan_model :: "surroundings_cli \<Rightarrow> selection \<Rightarrow> string \<Rightarrow> param list \<times> param list \<Rightarrow> deploy_fault + string" where
  "plan_model env sel runner layers =
     (let found = (if sel_Model sel \<noteq> '''' then Inr (sel_Model sel)
                   else map_sum NoEngine (\<lambda>engine. paramModel engine (sel_Params sel)) (engineFor env runner))
      in case found of
           Inl e \<Rightarrow> Inl e
         | Inr model \<Rightarrow>
             (let model = (if model = '''' then presetValue (modelPresetKey runner) [fst layers, snd layers] else model)
              in if model = '''' then Inl (NothingToDeploy runner) else Inr model))"

definition plan_context ::
  "surroundings_cli \<Rightarrow> deploy_target \<Rightarrow> selection \<Rightarrow> string \<Rightarrow> param list list \<Rightarrow> deploy_fault + int" where
  "plan_context env target sel runner layers =
     (let context = (if sel_Context sel = '''' then presetValue (contextPresetKey runner) layers else sel_Context sel)
      in if context = '''' then (if dt_requireContext target then Inl (NoContextSize runner) else Inr 0)
         else map_sum ContextFault id (ParseSize (cl_machine env) context))"

definition plan_parallel :: "selection \<Rightarrow> string \<Rightarrow> param list list \<Rightarrow> deploy_fault + int" where
  "plan_parallel sel runner layers =
     (let key = parallelPresetKey runner;
          parallel = (if sel_Parallel sel = '''' \<and> key \<noteq> '''' then presetValue key layers else sel_Parallel sel)
      in if parallel = '''' then Inr 0 else map_sum ParallelFault id (parseParallel parallel))"

definition plan_bind :: "surroundings_cli \<Rightarrow> deploy_target \<Rightarrow> selection \<Rightarrow> deploy_fault + param list list" where
  "plan_bind env target sel =
     (if dt_carriesBaseURL target then map_sum BindFault (\<lambda>bind. [bind]) (bindAddressParams env sel) else Inr [])"

definition deployConfig ::
  "surroundings_cli \<Rightarrow> (string \<Rightarrow> string + string) \<Rightarrow> deploy_target \<Rightarrow> selection \<Rightarrow> deploy_fault + deploy_config" where
  "deployConfig env fetch target sel =
     (case dt_runner target (sel_Provider sel) of
        Inl e \<Rightarrow> Inl e
      | Inr runner \<Rightarrow>
     (case preset_layers fetch sel of
        Inl e \<Rightarrow> Inl (PresetFault e)
      | Inr (global, params) \<Rightarrow>
     (case plan_model env sel runner (global, params) of
        Inl e \<Rightarrow> Inl e
      | Inr model \<Rightarrow>
          if dt_seedsWeights target \<and> isModelPath model then Inl (LocalModelFile model)
          else
     (let layers = [global, params, sel_Params sel]
      in case plan_context env target sel runner layers of
        Inl e \<Rightarrow> Inl e
      | Inr ctx \<Rightarrow>
     (case plan_parallel sel runner layers of
        Inl e \<Rightarrow> Inl e
      | Inr par \<Rightarrow>
     (case plan_bind env target sel of
        Inl e \<Rightarrow> Inl e
      | Inr bind \<Rightarrow>
          Inr (empty_deploy\<lparr>dc_Runner := runner, dc_ModelID := fst (splitModelQuant model),
             dc_Quant := snd (splitModelQuant model), dc_ContextSize := ctx, dc_Parallel := par,
             dc_ServedModelName := (if sel_Alias sel = '''' then fst (splitModelQuant model) else sel_Alias sel),
             dc_Companions := (if dt_seedsWeights target then companionsFrom layers else []),
             dc_ServeArgs := Flags LlamaCpp (map (dropOwned (dt_owns target)) layers @ bind)\<rparr>)))))))"

definition cloud_target :: deploy_target where
  "cloud_target = \<lparr>dt_runner = runnerFor, dt_requireContext = True, dt_seedsWeights = True, dt_owns = isCloudOwned,
     dt_carriesBaseURL = False\<rparr>"

definition node_target :: deploy_target where
  "node_target = \<lparr>dt_runner = nodeRunnerFor, dt_requireContext = False, dt_seedsWeights = False, dt_owns = isNodeOwned,
     dt_carriesBaseURL = True\<rparr>"

definition deployConfigFor :: "surroundings_cli \<Rightarrow> (string \<Rightarrow> string + string) \<Rightarrow> selection \<Rightarrow> deploy_fault + deploy_config" where
  "deployConfigFor env fetch sel = deployConfig env fetch cloud_target sel"

definition deployConfigForNode :: "surroundings_cli \<Rightarrow> (string \<Rightarrow> string + string) \<Rightarrow> selection \<Rightarrow> deploy_fault + deploy_config" where
  "deployConfigForNode env fetch sel = deployConfig env fetch node_target sel"

section \<open>Flags in layers\<close>

definition keys_of :: "dialect \<Rightarrow> param list \<Rightarrow> string set" where
  "keys_of d ps = CanonicalKey d ` fst ` set ps"

lemma set_merged: "set (merged d ps) = last_of d ps ` keys_of d ps"
  by (simp add: merged_def keys_of_def image_comp comp_def)

lemma distinct_merged: "distinct (map (CanonicalKey d \<circ> fst) (merged d ps))" "distinct (merged d ps)"
proof -
  show k: "distinct (map (CanonicalKey d \<circ> fst) (merged d ps))" using Merge_distinct [of d "[ps]"] by (simp add: Merge_merged)
  then show "distinct (merged d ps)" by (simp add: distinct_map)
qed

lemma last_of_other: "k \<notin> keys_of d qs \<Longrightarrow> last_of d (ps @ qs @ rs) k = last_of d (ps @ rs) k"
proof -
  assume "k \<notin> keys_of d qs"
  then have "filter (\<lambda>q. CanonicalKey d (fst q) = k) qs = []" by (auto simp: keys_of_def filter_empty_conv)
  then show ?thesis by (simp add: last_of_def)
qed

text \<open>Flags that no other layer names stand in a merge as they are, beside the merge of the others.\<close>

lemma merged_apart:
  assumes "distinct (map (CanonicalKey d \<circ> fst) qs)" "keys_of d qs \<inter> keys_of d (ps @ rs) = {}"
  shows "mset (merged d (ps @ qs @ rs)) = mset qs + mset (merged d (ps @ rs))"
proof -
  have q: "last_of d (ps @ qs @ rs) k = last_of d qs k" if "k \<in> keys_of d qs" for k
  proof -
    have "k \<notin> keys_of d ps" "k \<notin> keys_of d rs" using that assms(2) by (auto simp: keys_of_def)
    then show ?thesis
      using last_of_other [of k d ps "[]" "qs @ rs"] last_of_other [of k d rs qs "[]"] by simp
  qed
  have qs: "merged d qs = qs" using Merge_single [OF assms(1)] by (simp add: Merge_merged)
  have r: "last_of d (ps @ qs @ rs) k = last_of d (ps @ rs) k" if "k \<in> keys_of d (ps @ rs)" for k
    using that assms(2) by (intro last_of_other) auto
  have "set (merged d (ps @ qs @ rs)) = last_of d (ps @ qs @ rs) ` (keys_of d qs \<union> keys_of d (ps @ rs))"
    by (simp add: set_merged keys_of_def image_Un Un_ac)
  also have "\<dots> = set (merged d qs) \<union> set (merged d (ps @ rs))"
    unfolding image_Un set_merged using q r by (simp cong: image_cong_simp)
  finally have s: "set (merged d (ps @ qs @ rs)) = set (qs @ merged d (ps @ rs))" by (simp add: qs)
  have "keys_of d (merged d (ps @ rs)) = keys_of d (ps @ rs)"
    using arg_cong [OF Merge_keys [of d "[ps @ rs]"], of set]
    by (simp add: Merge_merged keys_of_def image_comp comp_def image_Un)
  then have "set qs \<inter> set (merged d (ps @ rs)) = {}" using assms(2) by (auto simp: keys_of_def)
  then have "distinct (qs @ merged d (ps @ rs))" using distinct_merged(2) assms(1) by (simp add: distinct_map)
  then have "mset (merged d (ps @ qs @ rs)) = mset (qs @ merged d (ps @ rs))"
    using s distinct_merged(2) by (metis set_eq_iff_mset_eq_distinct)
  then show ?thesis by simp
qed

lemma Flags_merged: "Flags d layers = concat (map (flagFor d) (merged d (concat layers)))"
  by (simp add: Flags_def Merge_merged)

section \<open>What travels\<close>

definition unowned :: "param list \<Rightarrow> bool" where
  "unowned ps \<longleftrightarrow> list_all (\<lambda>p. \<not> isNodeOwned (fst p)) ps"

lemma dropOwned_unowned: "unowned ps \<Longrightarrow> dropOwned isNodeOwned ps = ps"
  by (simp add: unowned_def dropOwned_def list_all_iff filter_id_conv)

lemma presetValue_unowned:
  assumes "list_all unowned layers" "isNodeOwned key"
  shows "presetValue key layers = ''''"
proof -
  have own: "isNodeOwned k = isNodeOwned key" if "CanonicalKey LlamaCpp k = CanonicalKey LlamaCpp key" for k
    using that by (simp add: isNodeOwned_def isCloudOwned_def)
  have "list_all (\<lambda>p. \<not> isNodeOwned (fst p)) (concat layers)" using assms(1) by (auto simp: unowned_def list_all_iff)
  then have "\<forall>p \<in> set (concat layers). CanonicalKey LlamaCpp (fst p) \<noteq> CanonicalKey LlamaCpp key"
    using own assms(2) by (auto simp: list_all_iff)
  moreover have same: "\<forall>p \<in> set ps. CanonicalKey LlamaCpp (fst p) \<noteq> c \<Longrightarrow>
      fold (\<lambda>(k, v) value. if CanonicalKey LlamaCpp k = c then v else value) ps x = x" for ps x c
    by (induction ps) auto
  ultimately show ?thesis unfolding presetValue_def by (intro same)
qed

text \<open>The flags that a Spinloop's typed instructions become are all the node's own.\<close>

lemma owned_keys:
  "isNodeOwned k \<longleftrightarrow> CanonicalKey LlamaCpp k \<in> set cloudOwnedFlags - {''host'', ''port'', ''spec-draft-model'', ''mmproj''}"
  by (auto simp: isNodeOwned_def isCloudOwned_def)

lemma typed_owned:
  assumes "set (map fst ps) \<subseteq> {''model'', ''hf'', ''alias'', ''parallel'', ''ctx-size''}"
  shows "keys_of LlamaCpp ps \<subseteq> {''model'', ''hf-repo'', ''alias'', ''parallel'', ''ctx-size''}"
  using assms by (fastforce simp: keys_of_def)

lemma unowned_keys:
  assumes "unowned ps"
  shows "keys_of LlamaCpp ps \<inter> {''model'', ''hf-repo'', ''alias'', ''parallel'', ''ctx-size''} = {}"
proof -
  have "isNodeOwned (fst p)" if "CanonicalKey LlamaCpp (fst p) \<in> {''model'', ''hf-repo'', ''alias'', ''parallel'', ''ctx-size''}" for p
    using that by (auto simp: owned_keys cloudOwnedFlags_def)
  then show ?thesis using assms by (auto simp: keys_of_def unowned_def list_all_iff)
qed

lemma splitModelQuant_joined:
  assumes "CHR '':'' \<notin> set m \<or> snd (splitModelQuant m) \<noteq> ''''"
  shows "fst (splitModelQuant m) @ (if snd (splitModelQuant m) \<noteq> '''' then '':'' @ snd (splitModelQuant m) else '''') = m"
proof (cases "dropWhile (\<lambda>c. c \<noteq> CHR '':'') m")
  case Nil
  then have "takeWhile (\<lambda>c. c \<noteq> CHR '':'') m = m" by (metis append_Nil2 takeWhile_dropWhile_id)
  then show ?thesis unfolding splitModelQuant_def Nil by simp
next
  case (Cons c cs)
  have c: "c = CHR '':''" using hd_dropWhile [of "\<lambda>c. c \<noteq> CHR '':''" m] unfolding Cons by simp
  have "c \<in> set (dropWhile (\<lambda>c. c \<noteq> CHR '':'') m)" unfolding Cons by simp
  then have "CHR '':'' \<in> set m" unfolding c by (rule set_dropWhileD)
  with assms have "cs \<noteq> ''''" unfolding splitModelQuant_def Cons by simp
  moreover have "takeWhile (\<lambda>c. c \<noteq> CHR '':'') m @ c # cs = m"
    using takeWhile_dropWhile_id [of "\<lambda>c. c \<noteq> CHR '':''" m] unfolding Cons .
  ultimately show ?thesis unfolding splitModelQuant_def Cons c by simp
qed

lemma parseParallel_range: "parseParallel s = Inr n \<Longrightarrow> 0 < n \<and> n < 2 ^ 63"
  by (auto simp: parseParallel_def parse_int_def int_of_digits_def Let_def split: option.splits if_splits list.splits)

section \<open>The two commands\<close>

lemma llama_params_split:
  assumes "llamacppServeParams env sel = Inr typed"
  obtains par ctx bind where
    "parallel_param ''parallel'' sel = Inr par"
    "context_param env ''ctx-size'' (\<lambda>n. if llama_slots sel > 0 then wrap64 (n * llama_slots sel) else n) sel = Inr ctx"
    "bindAddressParams env sel = Inr bind" "typed = (llama_named sel @ par @ ctx) @ bind"
  using assms unfolding llamacppServeParams_def after_def by (auto split: sum.splits simp: map_sum_def)

text \<open>What is served in the foreground: the preset's layers and the PARAMs under what the Spinloop states.\<close>

lemma served_argv:
  assumes "preset_layers fetch sel = Inr (global, params)" "sel_Model sel \<noteq> ''''" "llamacppServeParams env sel = Inr typed"
  shows "buildServeArgv fetch (llama_engine env) sel =
    Inr (''llama-server'' # concat (map (flagFor LlamaCpp) (merged LlamaCpp (global @ params @ sel_Params sel @ typed))))"
proof (cases "sel_Preset sel = ''''")
  case True
  then have "global = []" "params = []" using assms(1) by (simp_all add: preset_layers_def)
  then show ?thesis
    using True assms(2,3) Merge_single [OF Merge_distinct, of LlamaCpp "[sel_Params sel, typed]"]
    by (simp add: buildServeArgv_def Let_def assembleEngineArgv_def subcommandFor_def Flags_def Merge_merged)
next
  case False
  then show ?thesis
    using assms by (auto simp: preset_layers_def buildServeArgv_def CommandIn_def subcommandFor_def Flags_merged split: sum.splits)
qed

text \<open>The config derived for a node states the typed instructions again.\<close>

lemma derived_for_node:
  assumes "deployConfigForNode env fetch sel = Inr dc" "sel_Provider sel = ''llamacpp''"
    and "preset_layers fetch sel = Inr (global, params)" "list_all unowned [global, params, sel_Params sel]"
    and "sel_Model sel \<noteq> ''''"
  obtains bind where "bindAddressParams env sel = Inr bind" "dc_Runner dc = ''llamacpp''"
    "(dc_ModelID dc, dc_Quant dc) = splitModelQuant (sel_Model sel)"
    "dc_ServedModelName dc = (if sel_Alias sel = '''' then dc_ModelID dc else sel_Alias sel)"
    "if sel_Context sel = '''' then dc_ContextSize dc = 0 else ParseSize (cl_machine env) (sel_Context sel) = Inr (dc_ContextSize dc)"
    "if sel_Parallel sel = '''' then dc_Parallel dc = 0 else parseParallel (sel_Parallel sel) = Inr (dc_Parallel dc)"
    "dc_ServeArgs dc = concat (map (flagFor LlamaCpp) (merged LlamaCpp (global @ params @ sel_Params sel @ bind)))"
proof -
  have m: "plan_model env sel ''llamacpp'' (global, params) = Inr (sel_Model sel)"
    using assms(5) by (simp add: plan_model_def)
  have own: "isNodeOwned ''ctx-size''" "isNodeOwned ''parallel''" by (simp_all add: owned_keys cloudOwnedFlags_def)
  have v: "presetValue ''ctx-size'' [global, params, sel_Params sel] = ''''" "presetValue ''parallel'' [global, params, sel_Params sel] = ''''"
    using presetValue_unowned [OF assms(4)] own by blast+
  have d: "map (dropOwned isNodeOwned) [global, params, sel_Params sel] = [global, params, sel_Params sel]"
    using assms(4) by (simp add: dropOwned_unowned)
  obtain ctx par bind where c: "plan_context env node_target sel ''llamacpp'' [global, params, sel_Params sel] = Inr ctx"
    "plan_parallel sel ''llamacpp'' [global, params, sel_Params sel] = Inr par" "plan_bind env node_target sel = Inr bind"
    and dc: "dc = empty_deploy\<lparr>dc_Runner := ''llamacpp'', dc_ModelID := fst (splitModelQuant (sel_Model sel)),
             dc_Quant := snd (splitModelQuant (sel_Model sel)), dc_ContextSize := ctx, dc_Parallel := par,
             dc_ServedModelName := (if sel_Alias sel = '''' then fst (splitModelQuant (sel_Model sel)) else sel_Alias sel),
             dc_Companions := [], dc_ServeArgs := Flags LlamaCpp ([global, params, sel_Params sel] @ bind)\<rparr>"
    using assms(1-3) m d
    by (auto simp: deployConfigForNode_def deployConfig_def Let_def node_target_def nodeRunnerFor_def split: sum.splits)
  from c(3) obtain b where b: "bindAddressParams env sel = Inr b" "bind = [b]"
    by (auto simp: plan_bind_def node_target_def map_sum_def split: sum.splits)
  show ?thesis
  proof (rule that [of b])
    show "bindAddressParams env sel = Inr b" by (rule b)
    show "if sel_Context sel = '''' then dc_ContextSize dc = 0 else ParseSize (cl_machine env) (sel_Context sel) = Inr (dc_ContextSize dc)"
      using c(1) v(1) by (auto simp: dc plan_context_def contextPresetKey_def node_target_def Let_def map_sum_def split: sum.splits if_splits)
    show "if sel_Parallel sel = '''' then dc_Parallel dc = 0 else parseParallel (sel_Parallel sel) = Inr (dc_Parallel dc)"
      using c(2) v(2) by (auto simp: dc plan_parallel_def parallelPresetKey_def Let_def map_sum_def split: sum.splits if_splits)
    show "dc_ServeArgs dc = concat (map (flagFor LlamaCpp) (merged LlamaCpp (global @ params @ sel_Params sel @ b)))"
      by (simp add: dc b Flags_merged)
  qed (simp_all add: dc)
qed

lemma redeployed_params:
  assumes "dc_Runner dc = ''llamacpp''" "(dc_ModelID dc, dc_Quant dc) = splitModelQuant (sel_Model sel)"
    and "CHR '':'' \<notin> set (sel_Model sel) \<or> dc_Quant dc \<noteq> ''''"
    and "dc_ServedModelName dc = sel_Alias sel"
    and "if sel_Context sel = '''' then dc_ContextSize dc = 0
      else ParseSize (cl_machine env) (sel_Context sel) = Inr (dc_ContextSize dc) \<and> 0 < dc_ContextSize dc \<and> dc_ContextSize dc < 2 ^ 53"
    and "if sel_Parallel sel = '''' then dc_Parallel dc = 0 else parseParallel (sel_Parallel sel) = Inr (dc_Parallel dc)"
    and "parallel_param ''parallel'' sel = Inr par"
    and "context_param env ''ctx-size'' (\<lambda>n. if llama_slots sel > 0 then wrap64 (n * llama_slots sel) else n) sel = Inr ctx"
  shows "llamacppServeParams env (deploy_selection dc) = Inr (llama_named sel @ par @ ctx)"
proof -
  let ?sel = "deploy_selection dc"
  have q: "fst (splitModelQuant (sel_Model sel)) = dc_ModelID dc" "snd (splitModelQuant (sel_Model sel)) = dc_Quant dc"
    using arg_cong [OF assms(2), of fst] arg_cong [OF assms(2), of snd] by simp_all
  have m: "sel_Model ?sel = sel_Model sel"
    using splitModelQuant_joined [of "sel_Model sel", unfolded q] assms(3) by (simp add: deploy_selection_def)
  have n: "llama_named ?sel = llama_named sel" using m assms(4) by (simp add: llama_named_def deploy_selection_def)
  have b: "bindAddressParams env ?sel = Inr []" by (simp add: bindAddressParams_def deploy_selection_def empty_selection_def)
  have p: "parallel_param ''parallel'' ?sel = Inr par \<and> llama_slots ?sel = llama_slots sel"
  proof (cases "sel_Parallel sel = ''''")
    case True
    then show ?thesis using assms(6,7) by (simp add: parallel_param_def llama_slots_def deploy_selection_def)
  next
    case False
    then have r: "parseParallel (sel_Parallel sel) = Inr (dc_Parallel dc)" using assms(6) by simp
    note z = parseParallel_range [OF r]
    have "parseParallel (show_int (dc_Parallel dc)) = Inr (dc_Parallel dc)"
      using parse_show_int [of "dc_Parallel dc"] z by (simp add: parseParallel_def show_int_def)
    moreover have "show_int (dc_Parallel dc) \<noteq> ''''" using z by (simp add: show_int_def)
    ultimately show ?thesis
      using False assms(7) r z by (simp add: parallel_param_def llama_slots_def deploy_selection_def)
  qed
  have c: "context_param env ''ctx-size'' f ?sel = context_param env ''ctx-size'' f sel" for f
  proof (cases "sel_Context sel = ''''")
    case True
    then show ?thesis using assms(5) by (simp add: context_param_def deploy_selection_def)
  next
    case False
    then have s: "ParseSize (cl_machine env) (sel_Context sel) = Inr (dc_ContextSize dc)" "0 < dc_ContextSize dc" "dc_ContextSize dc < 2 ^ 53"
      using assms(5) by simp_all
    then have "ParseSize (cl_machine env) (show_int (dc_ContextSize dc)) = Inr (dc_ContextSize dc)"
      using ParseSize_show [of "nat (dc_ContextSize dc)" "cl_machine env"] by (simp add: show_int_def nat_less_iff)
    moreover have "show_int (dc_ContextSize dc) \<noteq> ''''" using s by (simp add: show_int_def)
    ultimately show ?thesis using False s by (simp add: context_param_def deploy_selection_def)
  qed
  show ?thesis
    unfolding llamacppServeParams_def conjunct1 [OF p] conjunct2 [OF p] c assms(8) n b after_def by simp
qed

section \<open>What is derived\<close>


text \<open>A Spinloop with an address, two slots and a flag of its own.\<close>

definition demo_woken :: selection where
  "demo_woken = empty_selection\<lparr>sel_Provider := ''llamacpp'', sel_Model := ''o/m:Q4'', sel_Alias := ''m'', sel_Parallel := ''2'',
     sel_BaseURL := ''http://127.0.0.1:8080'', sel_Params := [(''jinja'', '''')]\<rparr>"

lemma demo_woken_derived:
  "\<exists>dc. deployConfigForNode demo_cli fetch demo_woken = Inr dc \<and> dc_Quant dc = ''Q4''"
proof -
  have p: "parseParallel ''2'' = Inr 2" "snd (splitModelQuant ''o/m:Q4'') = ''Q4''" "presetValue ''ctx-size'' [[], [], [(''jinja'', '''')]] = ''''"
    by code_simp+
  have b: "bindAddressParams demo_cli demo_woken = Inr [(''host'', ''127.0.0.1''), (''port'', ''8080'')]"
    by (simp add: bindAddressParams_def hostPortFromURL_def demo_woken_def demo_cli_def empty_selection_def Let_def)
  show ?thesis
    using p b by (simp add: deployConfigForNode_def deployConfig_def node_target_def nodeRunnerFor_def preset_layers_def plan_model_def
        plan_context_def plan_parallel_def plan_bind_def contextPresetKey_def demo_woken_def empty_selection_def Let_def)
qed



definition demo_clouded :: selection where
  "demo_clouded = empty_selection\<lparr>sel_Provider := ''llamacpp'', sel_Model := ''o/m:Q4'', sel_Context := show_nat 4096,
     sel_Params := [(''md'', ''/home/u/d.gguf''), (''host'', ''0.0.0.0''), (''jinja'', [])]\<rparr>"


section \<open>Where the two differ\<close>

text \<open>
  A window that a PARAM gives in the engine's own total is served as it is and multiplied by the slots on a woken
  node.
\<close>

definition demo_window :: selection where
  "demo_window = empty_selection\<lparr>sel_Provider := ''llamacpp'', sel_Model := ''o/m'', sel_Alias := ''m'', sel_Parallel := ''2'',
     sel_Params := [(''ctx-size'', show_nat 65536)]\<rparr>"

lemma demo_texts: "parseParallel ''2'' = Inr 2" "splitModelQuant ''o/m'' = (''o/m'', '''')" "\<not> isModelPath ''o/m''" "show_int 2 = ''2''"
  by code_simp+

lemma window_of_layers: "presetValue ''ctx-size'' [[], [], [(''ctx-size'', v)]] = v"
  by (simp add: presetValue_def)

lemma window_multiplied:
  "buildServeArgv fetch (llama_engine env) demo_window =
    Inr [''llama-server'', ''--ctx-size'', show_nat 65536, ''--hf-repo'', ''o/m'', ''--alias'', ''m'', ''--parallel'', ''2'']"
  "\<exists>dc. deployConfigForNode env fetch demo_window = Inr dc \<and>
    argvFromDeployConfig (llama_engine env) dc =
      Inr [''llama-server'', ''--hf-repo'', ''o/m'', ''--alias'', ''m'', ''--parallel'', show_nat 2, ''--ctx-size'', show_nat 131072]"
proof -
  let ?T = "[(''hf'', ''o/m''), (''alias'', ''m''), (''parallel'', ''2'')]"
  have t: "llamacppServeParams env demo_window = Inr ?T"
    using demo_texts by (simp add: demo_window_def empty_selection_def llamacppServeParams_def llama_named_def
        parallel_param_def context_param_def after_def bindAddressParams_def)
  have "merged LlamaCpp ((''ctx-size'', show_nat 65536) # ?T) = (''ctx-size'', show_nat 65536) # ?T"
    using Merge_single [of LlamaCpp "(''ctx-size'', show_nat 65536) # ?T"] by (simp add: Merge_merged)
  moreover have "preset_layers fetch demo_window = Inr ([], [])" "sel_Model demo_window \<noteq> ''''"
    "sel_Params demo_window = [(''ctx-size'', show_nat 65536)]"
    by (simp_all add: preset_layers_def demo_window_def empty_selection_def)
  moreover have "trimmed ''o/m''" "trimmed ''m''" "trimmed ''2''" by (simp_all add: trimmed_def is_space_def)
  ultimately show "buildServeArgv fetch (llama_engine env) demo_window =
    Inr [''llama-server'', ''--ctx-size'', show_nat 65536, ''--hf-repo'', ''o/m'', ''--alias'', ''m'', ''--parallel'', ''2'']"
    using served_argv [of fetch demo_window "[]" "[]" env, OF _ _ t]
    by (simp add: flagFor_value LlamaCpp_def [THEN arg_cong [where f = di_Boolean]] llama_boolean_def)
  have "isNodeOwned ''ctx-size''" by (simp add: owned_keys cloudOwnedFlags_def)
  then have d: "deployConfigForNode env fetch demo_window =
      Inr (empty_deploy\<lparr>dc_Runner := ''llamacpp'', dc_ModelID := ''o/m'', dc_ContextSize := 65536, dc_Parallel := 2, dc_ServedModelName := ''m''\<rparr>)"
    using demo_texts ParseSize_show [of 65536 "cl_machine env"]
    by (simp add: deployConfigForNode_def deployConfig_def node_target_def nodeRunnerFor_def preset_layers_def plan_model_def
        plan_context_def plan_parallel_def plan_bind_def contextPresetKey_def demo_window_def empty_selection_def Let_def
        window_of_layers bindAddressParams_def dropOwned_def Flags_def Merge_def empty_deploy_def)
  show "\<exists>dc. deployConfigForNode env fetch demo_window = Inr dc \<and>
    argvFromDeployConfig (llama_engine env) dc =
      Inr [''llama-server'', ''--hf-repo'', ''o/m'', ''--alias'', ''m'', ''--parallel'', show_nat 2, ''--ctx-size'', show_nat 131072]"
    unfolding d using demo_texts(3)
    by (auto simp: llama_deploy_argv [where par = 2 and ctx = 65536] trimmed_def is_space_def empty_deploy_def)
qed

text \<open>
  vLLM's own name of the window is none that a destination sets itself: a PARAM's value is passed on behind the one
  that the Spinloop states, which in the foreground stands over it.
\<close>

lemma vllm_window_passed_on:
  "\<not> isCloudOwned ''max-model-len''" "\<not> isNodeOwned ''max-model-len''" "contextPresetKey ''vllm'' = ''ctx-size''"
  by code_simp+

text \<open>The flags that are passed on are written in llama.cpp's dialect, whatever the engine.\<close>

lemma flags_in_llama_dialect:
  "Flags LlamaCpp [[(''t'', ''4'')]] = [''--threads'', ''4'']" "Flags MTPLX [[(''t'', ''4'')]] = [''-t'', ''4'']"
  "Flags LlamaCpp [[(''verbose'', ''0'')]] = []" "Flags VLLM [[(''verbose'', ''0'')]] = [''--verbose'', ''0'']"
  by code_simp+

end
