(* ===== verification/Spec2Isabelle.thy ===== *)
theory Spec2Isabelle
  imports WorkRun WorkApi Gateway NodeDaemon PtyLog RequestLog DispatchDocker Metrics CloudControl GoTime WorkBoardRun StartPhase CloudLogs HfInfer DashboardRun DeployPlan
begin

text \<open>
  A verification of the fleet's control code: the orchestrator that keeps a list of work items and runs
  an agent for each (\<^verbatim>\<open>src/internal/orchestrator\<close>), the fleet library that selects and wakes the nodes
  that serve models (\<^verbatim>\<open>src/internal/fleet\<close>), the gateway in front of the fleet
  (\<^verbatim>\<open>src/internal/gateway\<close>), the daemon that runs one engine on a node (\<^verbatim>\<open>src/internal/daemon\<close>), the
  client of a cloud environment's control plane (\<^verbatim>\<open>src/internal/cloud\<close>), model references and caches
  (\<^verbatim>\<open>src/internal/hf\<close>), the text formats and the engine's command line they share (\<^verbatim>\<open>src/internal/preset\<close>,
  \<^verbatim>\<open>src/internal/spinloop\<close>, \<^verbatim>\<open>src/cmd/spinloop/serve.go\<close>), and the adapters that write a coding agent's
  own configuration (\<^verbatim>\<open>src/internal/catalog\<close>, \<^verbatim>\<open>harness\<close>, \<^verbatim>\<open>pi\<close>, \<^verbatim>\<open>lucinate\<close>, \<^verbatim>\<open>opencode\<close>), and the commands and
  the board with which a user works the list (\<^verbatim>\<open>src/cmd/spinloop/work.go\<close>, \<^verbatim>\<open>work_board_model.go\<close>), and
  the dashboard over the fleet (\<^verbatim>\<open>dashboard_model.go\<close>).

  \<^bold>\<open>How the parts interact.\<close> The fleet file names nodes, their tags and the policies. The gateway reads
  every node's status, keeps that reading for two seconds, and forwards a completion to the node that
  serves its model, waking one where none does. The orchestrator asks the gateway for the topology,
  matches each waiting item against it, and launches an agent on the first node that may take it, within
  the limits the fleet file declares. It records what it does in a state file beside the items file,
  and serves an API through which the list is read and changed while it runs. On a node the daemon stores
  one configuration at a time, starts the engine it describes, watches it, keeps readings of what it does
  and of its tokens, and answers the status the fleet selects by. The command line reads presets and the
  Spinloop file, turns their parameters into the engine's argument vector, and either runs the engine
  itself or hands the configuration to a daemon. The work commands and the board are clients of the
  orchestrator's API; the cloud commands are clients of a control plane, which starts and stops a machine that
  runs the same daemon, and of the log service its machines write to.

  \<^bold>\<open>Theories, bottom up.\<close>

  \<^item> \<open>Prelude\<close>: Go maps as association lists with distinct keys, the standard library's insertion sort
    (\<^verbatim>\<open>sort.SliceStable\<close> runs on up to 20 elements), and lemmas on lists.
  \<^item> \<open>GoStrings\<close>: what the sources use of \<^verbatim>\<open>strings\<close>, \<^verbatim>\<open>path/filepath\<close>, \<^verbatim>\<open>strconv\<close> and \<^verbatim>\<open>fmt\<close>, over byte strings.
  \<^item> \<open>EnvFile\<close>: \<^verbatim>\<open>ParseEnvFile\<close> of \<^verbatim>\<open>opencode/opencode.go\<close>, the dotenv reader behind token references.
  \<^item> \<open>FleetConfig\<close>: \<^verbatim>\<open>fleet/config.go\<close>. The decoded file as records, \<^verbatim>\<open>validate\<close> with each refusal as a
    constructor of \<open>fleet_error\<close>, narrowing to some nodes, policies, limits and token references.
    \<open>validate_spec\<close> states which files are accepted and what is filled in.
  \<^item> \<open>WorkItems\<close>: \<^verbatim>\<open>orchestrator/items.go\<close>. Parsing and validation of the items file, the file form of an
    item, the order of admission.
  \<^item> \<open>Admission\<close>: \<^verbatim>\<open>orchestrator/topology.go\<close> and \<^verbatim>\<open>admit.go\<close>. Which nodes may take an item, in which order,
    and whether the declared limits admit it.
  \<^item> \<open>WorkStore\<close>: \<^verbatim>\<open>orchestrator/state.go\<close>. The state file over a small file system whose calls may fail,
    the recovery at a start, and the lock, of which each system call is a step so that two starts
    interleave.
  \<^item> \<open>WorkList\<close>: \<^verbatim>\<open>orchestrator/worklist.go\<close>, \<^verbatim>\<open>run.go\<close> and \<^verbatim>\<open>workfile.go\<close>. The list's fields as the record
    \<open>worklist\<close>; one definition for each method that holds the lock. \<open>wl_inv\<close> is the list's invariant.
  \<^item> \<open>WorkRun\<close>: the loop \<^verbatim>\<open>WorkList.run\<close> as a step function on the list and the loop's program counter,
    interleaved with API calls, the ends of children, markers, edits of the file and failures of the
    disk; reachability is an inductive predicate, and the invariants are proved by rule induction on it.
  \<^item> \<open>HttpGate\<close>: the bearer token gate as a locale, which addresses may be listened on, and the level a
    status is logged at; used by both servers.
  \<^item> \<open>WorkApi\<close>: \<^verbatim>\<open>orchestrator/api.go\<close>. Routing and every handler over \<open>worklist\<close>.
  \<^item> \<open>FleetSelect\<close>: \<^verbatim>\<open>fleet/select.go\<close> and \<^verbatim>\<open>node.go\<close>. Which node a launch goes to, why, and at which
    address and with which key.
  \<^item> \<open>FleetWake\<close>: \<^verbatim>\<open>fleet/wake.go\<close>. Which node is started where none serves, and the wait for it.
  \<^item> \<open>Gateway\<close>: \<^verbatim>\<open>gateway/gateway.go\<close>. The handler with its two kept readings, the models list, the
    topology and the routing of a completion.
  \<^item> \<open>Supervisor\<close>: \<^verbatim>\<open>daemon/supervisor.go\<close>. The one engine of a node as a state with a step for each
    critical section of its lock, so that calls, the process's exit and the waiting goroutine interleave.
  \<^item> \<open>Readings\<close>: \<^verbatim>\<open>daemon/speed.go\<close>, \<^verbatim>\<open>activity.go\<close>, \<^verbatim>\<open>loaded.go\<close>. The readings kept beside the engine,
    over an abstract type of numbers, with the history window and the throttle of the log reader.
  \<^item> \<open>EngineLog\<close>, \<open>PtyLog\<close>: \<^verbatim>\<open>daemon/enginelog.go\<close>, \<^verbatim>\<open>logtee.go\<close>, \<^verbatim>\<open>ptylog.go\<close>. The engine's output cut into
    lines whatever the pieces it arrives in, and the folding of redrawn terminal lines.
  \<^item> \<open>Deploy\<close>: \<^verbatim>\<open>daemon/deploy.go\<close> and \<^verbatim>\<open>daemon.go\<close>'s types. The configuration a daemon accepts and stores.
  \<^item> \<open>DaemonCore\<close>, \<open>DaemonApi\<close>: the daemon's operations over the parts above, and the routes and handlers of
    its API.
  \<^item> \<open>RequestLog\<close>: \<^verbatim>\<open>internal/logging\<close>. Levels and the summary of a request's line.
  \<^item> \<open>TextLines\<close>: lines, fields and trimming shared by the text formats.
  \<^item> \<open>SpinloopFile\<close>: \<^verbatim>\<open>internal/spinloop\<close>. Parsing and printing of the Spinloop file.
  \<^item> \<open>GoFloat\<close>, \<open>ContextSize\<close>: binary floating point as rationals with rounding, and \<^verbatim>\<open>internal/contextsize\<close>.
  \<^item> \<open>Preset\<close>: \<^verbatim>\<open>internal/preset\<close>. Preset files, the merging of their layers, and the command they print.
  \<^item> \<open>Engines\<close>, \<open>NodeDaemon\<close>: \<^verbatim>\<open>cmd/spinloop/serve.go\<close> and \<^verbatim>\<open>daemon.go\<close>. The engine table, the argument vector,
    the endpoints read back from it, and the hooks with which the command runs the daemon.
  \<^item> \<open>DeployPlan\<close>: \<open>deployConfig\<close> of \<^verbatim>\<open>cmd/spinloop/cloud.go\<close>. What a Spinloop becomes for a cloud environment and
    for a node that is woken, compared with what it is served as.
  \<^item> \<open>JsonDoc\<close>, \<open>Catalog\<close>: decoded JSON with its readers and the deep merge, and \<^verbatim>\<open>catalog/catalog.go\<close>: what a
    provider of the catalogue becomes for each of the three coding agents.
  \<^item> \<open>DocFile\<close>, \<open>PiStore\<close>, \<open>LucinateStore\<close>, \<open>OpencodeStore\<close>: the configuration files of the coding agents, read,
    merged into, cut from and written back. The last file is JSONC, whose library is an argument: the model
    is of the patches asked of it.
  \<^item> \<open>Harness\<close>: \<^verbatim>\<open>harness/adapters.go\<close> and \<^verbatim>\<open>harness.go\<close>. The operations on each agent's file and the choice of
    the active agent.
  \<^item> \<open>Dispatch\<close>, \<open>DispatchDocker\<close>: \<^verbatim>\<open>orchestrator/dispatch.go\<close>, \<^verbatim>\<open>wrapper.go\<close>, \<^verbatim>\<open>harnessconfig.go\<close>,
    \<^verbatim>\<open>dispatch_docker.go\<close> and \<^verbatim>\<open>gateway.go\<close>. From an item and a node to the process or container that is
    started: plan, configuration written, arguments, environment, and how its end is read.
  \<^item> \<open>GoRegexp\<close>, \<open>Metrics\<close>: the leftmost-first search of Go's regular expressions, and \<^verbatim>\<open>internal/metrics\<close>, the
    readers of the host's figures and of an engine's counters.
  \<^item> \<open>GoTime\<close>, \<open>Paths\<close>: durations and their reading, and the elements of cleaned paths.
  \<^item> \<open>ProgramConfig\<close>: \<^verbatim>\<open>internal/config\<close>. The program's own file with the preferred harness and the aliases.
  \<^item> \<open>CloudConfig\<close>, \<open>CloudControl\<close>: \<^verbatim>\<open>internal/cloud/environments.go\<close> and \<^verbatim>\<open>cloud.go\<close>. The registry of cloud
    environments, how one's configuration is put together, and the calls on its control plane with the start
    that is tried again.
  \<^item> \<open>StartPhase\<close>: \<^verbatim>\<open>fleet/start_phase.go\<close>. A start's situation as read from what its callbacks print.
  \<^item> \<open>CloudLogs\<close>: \<^verbatim>\<open>cloud/logs.go\<close> and \<^verbatim>\<open>follow.go\<close>. The newest events of an environment's log groups, and the
    cursor that shows each event of overlapping readings once.
  \<^item> \<open>WorkClient\<close>: \<^verbatim>\<open>cmd/spinloop/work.go\<close> and \<^verbatim>\<open>work_logs.go\<close>. The work commands and what they print.
  \<^item> \<open>WorkBoard\<close>, \<open>WorkBoardRun\<close>: \<^verbatim>\<open>cmd/spinloop/work_board_model.go\<close>. The board's state with its update on every key
    and every answer, and its runs: the commands it has out interleave with the keys in any order.
  \<^item> \<open>HfModel\<close>, \<open>HfInfer\<close>: \<^verbatim>\<open>internal/hf\<close>. Model references, the lookups in the local caches and what is
    stated of a repository in a Spinloop file.
  \<^item> \<open>Dashboard\<close>, \<open>DashboardRun\<close>: \<^verbatim>\<open>cmd/spinloop/dashboard_model.go\<close>, \<^verbatim>\<open>dashboard_detail.go\<close> and
    \<^verbatim>\<open>fleet_dashboard.go\<close>. The fleet's dashboard with its update, and its runs as those of the board.

  \<^bold>\<open>Interfaces.\<close> The store that the work list needs is the locale \<open>record_store\<close>, interpreted on the
  state file; the gate of an HTTP server is the locale \<open>bearer_gate\<close>, interpreted on the work list API,
  on the gateway and on the daemon's API; a reading that one goroutine writes and the status reads is the
  locale \<open>reading_cell\<close>, interpreted on the daemon's readings.
\<close>

text \<open>
  \<^bold>\<open>What is shown.\<close> The invariant of the list (items recorded running are exactly those in flight) and
  that every operation and every interleaving of the loop keeps it until the shutdown; at most one live
  agent for an item where no abort comes over the API, and a run that leaves two where one does; the
  limits as bounds and the pass as work conserving; each operation's behaviour on every branch; what a
  torn write leaves to be read; which interleavings of two starts exclude each other and which do not;
  exactly which nodes an item may be placed on, which node a launch selects, which nodes a wake starts
  and that it starts nothing it need not; that the API's refusals change nothing. For the daemon: at most
  one engine runs, what state its status reports after every interleaving of calls and exits, that a stop
  returns, that an accepted start reports nothing of the engine before it, and that a push alone already
  changes the model it reports. For the formats: what is printed reads back as what was printed, the last
  layer that states a parameter decides it, a stated setting is never replaced by a default, and the
  command the daemon runs is the one the preset describes; a node that is woken for a Spinloop runs the flags
  that the Spinloop is served with. For the agents: what is written is read back,
  other providers and other settings stay as they were, no file holds an API key, a launch writes its own
  node's provider only, and exactly what a launched agent finds in its environment. For the readings of the
  host: what is reported stands in the text it was read from, and one figure's failure hides no other. For the
  cloud: what a start ends with and what its caller is told on the way, that the situation drawn of it is the
  one its attempts tell, that logs with a limit are the newest of all, that a follow shows every event once, and
  that environments are stored apart. For the board: its cursor always stands on a card of its window, it never
  has more than one reading or one call out, and its pane of a log ends with the newest kept output. For the
  dashboard: one round for a group and one call for a node, the latest reading on every tile whatever order they
  come in, and no environment read twice in a minute unless it is asked for. For model
  references: what is written is read back, and what is stated of a repository is in its files or in a cache.

  \<^bold>\<open>Bounds and abstractions.\<close> Byte strings are HOL strings. \<^verbatim>\<open>sort.SliceStable\<close> is its insertion sort, which
  is what the library runs up to 20 elements; where the comparison is an order on the elements
  themselves the result is shown to be the stable sort, which it is at every length, but
  \<open>rankBy\<close>, whose comparison looks at positions, is exact up to 20 nodes. Durations and times are
  integers of nanoseconds, or the strings the code stores where it only stores them. The result of a
  node's start and of each poll of it is a parameter, a list of polls standing for the time up to the
  wake's deadline, so every wait ends by the list's end at the latest. YAML and JSON decoders, URL
  parsing, the environment and child processes are parameters as well. Bodies above the limit are a
  value of \<open>body_read\<close>. Text formats are exact on ASCII text, for which Go's letter case and white space are
  those written out; 64-bit floats are rationals rounded to 53 bits, without the exponent's lower limit.
  The numbers of the readings are a type parameter, the terminal's clock is a reading per byte, and the
  host's addresses, environment, files and downloads are arguments of the definitions that use them, as are
  HTTP exchanges, the transports to a control plane, the log service, operations on URLs, text inputs and the
  room a drawing leaves. The attempts of a cloud start and the polls of a follow are lists; one that ends
  before the loop does leaves it under way. \<^verbatim>\<open>%q\<close> quotes plain names only. The startup
  and shutdown scripts and the agent are the exit codes they end with. A starred pattern of a regular expression
  goes on only while it takes bytes, and an engine's counters are matched as the whole text is searched. Two critical sections of one lock are one event each, so all the interleavings
  the lock allows are runs of \<open>reachable\<close>.

  \<^bold>\<open>Not modelled.\<close> The single flight that lets concurrent callers share one wake; the calls of a provider's
  library with which the cloud is set up, signed for and measured (\<^verbatim>\<open>cloud/aws.go\<close>, \<^verbatim>\<open>bake.go\<close>, \<^verbatim>\<open>keystore.go\<close>,
  \<^verbatim>\<open>seed.go\<close>, \<^verbatim>\<open>schedule.go\<close> and the statistics call); the Hub's client; the drawing of the board, of the
  dashboard and of the metrics tables; discovery on the local network; and the parsing of flags by the commands
  that call the parts above. HTTP transport, terminals and sockets are input and output around these parts and
  are left out.
\<close>

end
